(* ===== verification/JsDate.thy ===== *)
theory JsDate
  imports Prelude
begin

text \<open>
  The part of ECMAScript's \<open>Date\<close> the program uses, in UTC. A \<open>Date\<close> is its time value:
  milliseconds since 1970-01-01T00:00Z (an \<open>int\<close>; the language's limit of 8.64e15 ms and the
  invalid date are outside the model). Months are 0-based, as \<open>getUTCMonth\<close> has them. Dates
  compare by time value, so \<open><\<close> and \<open>\<le>\<close> on \<open>int\<close> are the source's comparisons.
\<close>

type_synonym jsdate = int

definition ms_per_day :: int where
  "ms_per_day = 86400000"

definition day :: "jsdate \<Rightarrow> int" where
  "day t = t div ms_per_day"

definition time_within_day :: "jsdate \<Rightarrow> int" where
  "time_within_day t = t mod ms_per_day"

definition day_from_year :: "int \<Rightarrow> int" where
  "day_from_year y = 365 * (y - 1970) + (y - 1969) div 4 - (y - 1901) div 100 + (y - 1601) div 400"

definition leap_year :: "int \<Rightarrow> bool" where
  "leap_year y = (y mod 4 = 0 \<and> (y mod 100 \<noteq> 0 \<or> y mod 400 = 0))"

text \<open>\<open>YearFromTime\<close>: the year whose first day is the last one not after \<open>d\<close>, found from an
  estimate that is off by one at most.\<close>

definition year_from_day :: "int \<Rightarrow> int" where
  "year_from_day d =
     (let y = 1970 + (d * 400) div 146097
      in if day_from_year (y + 1) \<le> d then y + 1
         else if d < day_from_year y then y - 1 else y)"

definition leap_add :: "bool \<Rightarrow> int" where
  "leap_add l = (if l then 1 else 0)"

text \<open>Days before month \<open>m\<close> (0-based) in a year, and the month of the \<open>n\<close>-th day of a year.\<close>

definition days_before_month :: "bool \<Rightarrow> int \<Rightarrow> int" where
  "days_before_month l m =
     (if m \<le> 0 then 0 else if m = 1 then 31
      else leap_add l +
        (if m = 2 then 59 else if m = 3 then 90 else if m = 4 then 120 else if m = 5 then 151
         else if m = 6 then 181 else if m = 7 then 212 else if m = 8 then 243
         else if m = 9 then 273 else if m = 10 then 304 else if m = 11 then 334 else 365))"

definition month_from_yday :: "bool \<Rightarrow> int \<Rightarrow> int" where
  "month_from_yday l n =
     (if n < 31 then 0 else if n < 59 + leap_add l then 1 else if n < 90 + leap_add l then 2
      else if n < 120 + leap_add l then 3 else if n < 151 + leap_add l then 4
      else if n < 181 + leap_add l then 5 else if n < 212 + leap_add l then 6
      else if n < 243 + leap_add l then 7 else if n < 273 + leap_add l then 8
      else if n < 304 + leap_add l then 9 else if n < 334 + leap_add l then 10 else 11)"

definition year_day :: "int \<Rightarrow> int" where
  "year_day d = d - day_from_year (year_from_day d)"

definition month_of_day :: "int \<Rightarrow> int" where
  "month_of_day d = month_from_yday (leap_year (year_from_day d)) (year_day d)"

definition mday_of_day :: "int \<Rightarrow> int" where
  "mday_of_day d =
     year_day d - days_before_month (leap_year (year_from_day d)) (month_of_day d) + 1"

text \<open>\<open>MakeDay\<close>: any month and any day number, overflowing into the neighbouring months and years.\<close>

definition make_day :: "int \<Rightarrow> int \<Rightarrow> int \<Rightarrow> int" where
  "make_day y m dt =
     (let ym = y + m div 12; mn = m mod 12
      in day_from_year ym + days_before_month (leap_year ym) mn + dt - 1)"

subsection \<open>The methods and constructors the source calls\<close>

definition get_utc_full_year :: "jsdate \<Rightarrow> int" where
  "get_utc_full_year t = year_from_day (day t)"

definition get_utc_month :: "jsdate \<Rightarrow> int" where
  "get_utc_month t = month_of_day (day t)"

definition get_utc_date :: "jsdate \<Rightarrow> int" where
  "get_utc_date t = mday_of_day (day t)"

text \<open>\<open>Date.UTC(y, m, d)\<close>: a year from 0 to 99 means 1900 to 1999.\<close>

definition date_utc :: "int \<Rightarrow> int \<Rightarrow> int \<Rightarrow> jsdate" where
  "date_utc y m d = make_day (if 0 \<le> y \<and> y \<le> 99 then 1900 + y else y) m d * ms_per_day"

text \<open>\<open>d.setUTCDate(n)\<close>: the day of the month is replaced, the time of day is kept.\<close>

definition set_utc_date :: "jsdate \<Rightarrow> int \<Rightarrow> jsdate" where
  "set_utc_date t n =
     make_day (get_utc_full_year t) (get_utc_month t) n * ms_per_day + time_within_day t"

text \<open>\<open>toISOString().slice(0, 10)\<close>: the calendar date, with a four-digit year from 0 to 9999 and
  a signed six-digit year (cut at ten characters) outside it.\<close>

definition iso_year :: "int \<Rightarrow> string" where
  "iso_year y =
     (if 0 \<le> y \<and> y \<le> 9999 then pad_start 4 (CHR ''0'') (nat_string (nat y))
      else (if y < 0 then ''-'' else ''+'') @ pad_start 6 (CHR ''0'') (nat_string (nat \<bar>y\<bar>)))"

definition iso_date :: "jsdate \<Rightarrow> string" where
  "iso_date t =
     take 10 (iso_year (get_utc_full_year t) @ ''-'' @
       pad_start 2 (CHR ''0'') (nat_string (nat (get_utc_month t + 1))) @ ''-'' @
       pad_start 2 (CHR ''0'') (nat_string (nat (get_utc_date t))))"

subsection \<open>Calendar arithmetic\<close>

lemma div_bounds:
  fixes x k :: int
  assumes "0 < k"
  shows "k * (x div k) \<le> x" "x \<le> k * (x div k) + (k - 1)"
  using mult_div_mod_eq [of k x] pos_mod_sign [OF assms, of x] pos_mod_bound [OF assms, of x]
  by linarith+

lemma day_from_year_lower: "146097 * (y - 1970) - 506 \<le> 400 * day_from_year y"
  and day_from_year_upper: "400 * day_from_year y \<le> 146097 * (y - 1970) + 589"
proof -
  obtain a b c where
    abc: "a = (y - 1969) div 4" "b = (y - 1901) div 100" "c = (y - 1601) div 400" by blast
  have "4 * a \<le> y - 1969" "y - 1969 \<le> 4 * a + 3" "100 * b \<le> y - 1901" "y - 1901 \<le> 100 * b + 99"
    "400 * c \<le> y - 1601" "y - 1601 \<le> 400 * c + 399"
    using div_bounds [where k = 4 and x = "y - 1969"] div_bounds [where k = 100 and x = "y - 1901"]
      div_bounds [where k = 400 and x = "y - 1601"] unfolding abc by simp_all
  moreover have "day_from_year y = 365 * (y - 1970) + a - b + c"
    by (simp add: day_from_year_def abc)
  ultimately show "146097 * (y - 1970) - 506 \<le> 400 * day_from_year y"
    and "400 * day_from_year y \<le> 146097 * (y - 1970) + 589" by (simp_all add: algebra_simps)
qed

lemma div_increment:
  fixes x k :: int
  assumes "0 < k"
  shows "(x + 1) div k = x div k + (if (x + 1) mod k = 0 then 1 else 0)"
proof -
  have x: "x = k * ((x + 1) div k) + ((x + 1) mod k - 1)"
    using mult_div_mod_eq [of k "x + 1"] by linarith
  have m: "0 \<le> (x + 1) mod k" "(x + 1) mod k < k" using assms by simp_all
  show ?thesis
  proof (cases "(x + 1) mod k = 0")
    case True
    with x have "x = k * ((x + 1) div k - 1) + (k - 1)"
      by (simp only: right_diff_distrib)
    with assms have "x div k = (x + 1) div k - 1" by (intro int_div_pos_eq [where r = "k - 1"]) auto
    with True show ?thesis by simp
  next
    case False
    with x m have "x div k = (x + 1) div k" by (intro int_div_pos_eq [where r = "(x + 1) mod k - 1"]) auto
    with False show ?thesis by simp
  qed
qed

lemma mod_shift:
  fixes y c k :: int
  shows "k dvd c \<Longrightarrow> (y - c) mod k = y mod k"
  by (metis mod_diff_right_eq dvd_imp_mod_0 diff_zero)

lemma day_from_year_Suc:
  "day_from_year (y + 1) = day_from_year y + (if leap_year y then 366 else 365)"
proof -
  have a: "(y - 1968) div 4 = (y - 1969) div 4 + (if y mod 4 = 0 then 1 else 0)"
    using mod_shift [of 4 1968 y] div_increment [of 4 "y - 1969"] by simp
  have b: "(y - 1900) div 100 = (y - 1901) div 100 + (if y mod 100 = 0 then 1 else 0)"
    using mod_shift [of 100 1900 y] div_increment [of 100 "y - 1901"] by simp
  have c: "(y - 1600) div 400 = (y - 1601) div 400 + (if y mod 400 = 0 then 1 else 0)"
    using mod_shift [of 400 1600 y] div_increment [of 400 "y - 1601"] by simp
  have d: "y mod 100 = 0 \<Longrightarrow> y mod 4 = 0" "y mod 400 = 0 \<Longrightarrow> y mod 100 = 0"
    using dvd_trans [of 4 100 y] dvd_trans [of 100 400 y] by (simp_all add: mod_eq_0_iff_dvd)
  have gen: "365 * (y - 1969) + (A + i) - (B + j) + (C + k) =
      365 * (y - 1970) + A - B + C + 365 + i - j + k" for A B C i j k :: int
    by (simp add: algebra_simps)
  have "day_from_year (y + 1) =
      365 * (y - 1969) + (y - 1968) div 4 - (y - 1900) div 100 + (y - 1600) div 400"
    by (simp add: day_from_year_def)
  then have eq: "day_from_year (y + 1) = day_from_year y + 365 + (if y mod 4 = 0 then 1 else 0)
      - (if y mod 100 = 0 then 1 else 0) + (if y mod 400 = 0 then 1 else 0)"
    unfolding a b c day_from_year_def using gen by (simp only:)
  show ?thesis unfolding eq leap_year_def
    using d by (cases "y mod 400 = 0"; cases "y mod 100 = 0"; cases "y mod 4 = 0") simp_all
qed

lemma day_from_year_strict: "y < z \<Longrightarrow> day_from_year y + 365 \<le> day_from_year z"
proof (induction z rule: int_gr_induct [where k = y])
  case base
  then show ?case by (simp add: day_from_year_Suc)
next
  case (step z)
  then show ?case by (simp add: day_from_year_Suc)
qed

lemma year_from_day_lower: "day_from_year (year_from_day d) \<le> d"
  and year_from_day_upper: "d < day_from_year (year_from_day d + 1)"
proof -
  let ?z = "(d * 400) div 146097"
  have z: "146097 * ?z \<le> d * 400" "d * 400 < 146097 * ?z + 146097" by linarith+
  show "day_from_year (year_from_day d) \<le> d"
    using z day_from_year_upper [of "1970 + ?z - 1"]
    unfolding year_from_day_def Let_def by (auto split: if_splits)
  show "d < day_from_year (year_from_day d + 1)"
    using z day_from_year_lower [of "1970 + ?z + 2"]
    unfolding year_from_day_def Let_def by (auto split: if_splits simp: add.assoc)
qed

lemma year_from_day_unique:
  assumes "day_from_year y \<le> d" and "d < day_from_year (y + 1)"
  shows "year_from_day d = y"
proof (rule ccontr)
  assume ne: "year_from_day d \<noteq> y"
  consider "year_from_day d + 1 < y \<or> year_from_day d + 1 = y" | "y + 1 < year_from_day d \<or> y + 1 = year_from_day d"
    using ne by linarith
  then show False
  proof cases
    case 1
    then have "day_from_year (year_from_day d + 1) \<le> day_from_year y"
      using day_from_year_strict [of "year_from_day d + 1" y] by auto
    with assms year_from_day_upper [of d] show False by linarith
  next
    case 2
    then have "day_from_year (y + 1) \<le> day_from_year (year_from_day d)"
      using day_from_year_strict [of "y + 1" "year_from_day d"] by auto
    with assms year_from_day_lower [of d] show False by linarith
  qed
qed

lemma year_day_range:
  "0 \<le> year_day d" "year_day d < 365 + leap_add (leap_year (year_from_day d))"
  using year_from_day_lower [of d] year_from_day_upper [of d]
  by (auto simp: year_day_def day_from_year_Suc leap_add_def split: if_splits)

definition days_in_month :: "bool \<Rightarrow> int \<Rightarrow> int" where
  "days_in_month l m = days_before_month l (m + 1) - days_before_month l m"

lemma month_from_yday_range: "0 \<le> month_from_yday l n" "month_from_yday l n \<le> 11"
  by (simp_all add: month_from_yday_def)

lemma days_before_month_yday:
  assumes "0 \<le> n" "n < 365 + leap_add l"
  shows "days_before_month l (month_from_yday l n) \<le> n"
    and "n < days_before_month l (month_from_yday l n + 1)"
  using assms unfolding month_from_yday_def days_before_month_def leap_add_def
  by (auto split: if_splits)

lemma month_cases:
  fixes m :: int
  assumes "0 \<le> m" "m \<le> 11"
  shows "m \<in> {0, 1, 2, 3, 4, 5, 6, 7, 8, 9, 10, 11}"
  using assms by simp presburger

lemma month_from_yday_unique:
  assumes "0 \<le> m" "m \<le> 11" "days_before_month l m \<le> n" "n < days_before_month l (m + 1)"
  shows "month_from_yday l n = m"
  using month_cases [OF assms(1,2)] assms(3,4)
  unfolding month_from_yday_def days_before_month_def leap_add_def
  by (elim insertE emptyE) (auto split: if_splits)

lemma days_before_month_bounds:
  assumes "0 \<le> m" "m \<le> 11"
  shows "0 \<le> days_before_month l m" "days_before_month l (m + 1) \<le> 365 + leap_add l"
  using month_cases [OF assms] unfolding days_before_month_def leap_add_def
  by (elim insertE emptyE; simp)+

lemma days_in_month_bounds:
  assumes "0 \<le> m" "m \<le> 11"
  shows "28 \<le> days_in_month l m" "days_in_month l m \<le> 31"
  using month_cases [OF assms] unfolding days_in_month_def days_before_month_def leap_add_def
  by (elim insertE emptyE; simp)+

lemma month_of_day_range: "0 \<le> month_of_day d" "month_of_day d \<le> 11"
  by (simp_all add: month_of_day_def month_from_yday_range)

lemma mday_of_day_range:
  "1 \<le> mday_of_day d"
  "mday_of_day d \<le> days_in_month (leap_year (year_from_day d)) (month_of_day d)"
  using days_before_month_yday [OF year_day_range [of d]]
  by (auto simp: mday_of_day_def days_in_month_def month_of_day_def)

text \<open>Reading the fields of a day and making a day of them gives the day back, and conversely.\<close>

lemma make_day_fields: "make_day (year_from_day d) (month_of_day d) n = d + (n - mday_of_day d)"
  using month_of_day_range [of d]
  by (simp add: make_day_def mday_of_day_def year_day_def Let_def)

lemma make_day_month_range:
  assumes "0 \<le> m" "m \<le> 11"
  shows "make_day y m n = day_from_year y + days_before_month (leap_year y) m + n - 1"
  using assms by (simp add: make_day_def)

lemma make_day_carry: "make_day y m n = make_day (y + m div 12) (m mod 12) n"
  by (simp add: make_day_def)

lemma make_day_add: "make_day y m (n + k) = make_day y m n + k"
  by (simp add: make_day_def Let_def)

lemma fields_make_day:
  assumes m: "0 \<le> m" "m \<le> 11" and n: "1 \<le> n" "n \<le> days_in_month (leap_year y) m"
  shows "year_from_day (make_day y m n) = y" "month_of_day (make_day y m n) = m"
    "mday_of_day (make_day y m n) = n"
proof -
  note mk = make_day_month_range [OF m, of y n]
  show y: "year_from_day (make_day y m n) = y"
    by (rule year_from_day_unique; unfold mk; insert n days_before_month_bounds [OF m, of "leap_year y"])
      (auto simp: days_in_month_def day_from_year_Suc leap_add_def split: if_splits)
  show mo: "month_of_day (make_day y m n) = m"
    using n by (simp add: month_of_day_def y year_day_def)
      (simp add: mk days_in_month_def month_from_yday_unique [OF m])
  show "mday_of_day (make_day y m n) = n"
    by (simp add: mday_of_day_def mo y year_day_def) (simp add: mk)
qed

lemma day_of_midnight [simp]: "day (n * ms_per_day) = n"
  by (simp add: day_def ms_per_day_def)

lemma day_offset [simp]: "day (t + n * ms_per_day) = day t + n"
  by (simp add: day_def ms_per_day_def)

lemma day_decomp: "t = day t * ms_per_day + time_within_day t"
  by (simp add: day_def time_within_day_def)

lemma time_within_day_range: "0 \<le> time_within_day t" "time_within_day t < ms_per_day"
  by (simp_all add: time_within_day_def ms_per_day_def)

lemma time_within_day_midnight [simp]: "time_within_day (n * ms_per_day) = 0"
  by (simp add: time_within_day_def)

lemma midnight_le_iff [simp]:
  "m * ms_per_day \<le> n * ms_per_day \<longleftrightarrow> m \<le> n" "m * ms_per_day < n * ms_per_day \<longleftrightarrow> m < n"
  by (simp_all add: ms_per_day_def)

lemma midnight_eq_iff [simp]: "m * ms_per_day = n * ms_per_day \<longleftrightarrow> m = n"
  by (simp add: ms_per_day_def)

text \<open>\<open>d.setUTCDate(d.getUTCDate() + n)\<close> moves a date by \<open>n\<close> days, whatever the month.\<close>

lemma set_utc_date_shift: "set_utc_date t (get_utc_date t + n) = t + n * ms_per_day"
proof -
  have "make_day (get_utc_full_year t) (get_utc_month t) (get_utc_date t + n) = day t + n"
    by (simp add: get_utc_full_year_def get_utc_month_def get_utc_date_def make_day_fields)
  then show ?thesis
    using day_decomp [of t] by (simp add: set_utc_date_def algebra_simps)
qed

text \<open>\<open>Date.UTC(d.getUTCFullYear(), d.getUTCMonth(), d.getUTCDate())\<close> is midnight of the day of \<open>d\<close>,
  except in the years 0 to 99, which \<open>Date.UTC\<close> reads as 1900 to 1999.\<close>

lemma date_utc_fields:
  assumes "\<not> (0 \<le> get_utc_full_year t \<and> get_utc_full_year t \<le> 99)"
  shows "date_utc (get_utc_full_year t) (get_utc_month t) (get_utc_date t + n) = (day t + n) * ms_per_day"
proof -
  have "(if 0 \<le> get_utc_full_year t \<and> get_utc_full_year t \<le> 99
      then 1900 + get_utc_full_year t else get_utc_full_year t) = get_utc_full_year t"
    using assms by simp
  then show ?thesis
    by (simp only: date_utc_def get_utc_full_year_def get_utc_month_def get_utc_date_def
        make_day_fields) simp
qed

end
