(* ===== verification/LatestBy.thy ===== *)
theory LatestBy
  imports Prelude "HOL-Library.List_Lexorder" "HOL-Library.Char_ord" "HOL-Library.Product_Lexorder"
    "HOL-Library.Multiset"
begin

text \<open>
  Choosing the entry in force: the loop \<open>best = !best || better(v, best) ? v : best\<close> that several
  modules run over dated entries (prices in effect, index values, overrides, quantities). The
  strings compared are ISO dates and identifiers, ordered by code unit as in JavaScript
  (\<open>List_Lexorder\<close> over \<open>Char_ord\<close>). The locale \<open>latest_by\<close> is what the modules rely on: the
  comparison is a comparison of keys.
\<close>

definition pick :: "('a \<Rightarrow> 'a \<Rightarrow> bool) \<Rightarrow> 'a list \<Rightarrow> 'a option" where
  "pick better xs =
     fold (\<lambda>x best. case best of None \<Rightarrow> Some x | Some b \<Rightarrow> if better x b then Some x else Some b)
       xs None"

lemma pick_Nil [simp]: "pick better [] = None"
  by (simp add: pick_def)

lemma pick_snoc:
  "pick better (xs @ [x]) =
     (case pick better xs of None \<Rightarrow> Some x | Some b \<Rightarrow> if better x b then Some x else Some b)"
  by (simp add: pick_def)

lemma pick_single [simp]: "pick better [x] = Some x"
  by (simp add: pick_def)

lemma pick_None_iff [simp]: "pick better xs = None \<longleftrightarrow> xs = []"
  by (cases xs rule: rev_cases) (auto simp: pick_snoc split: option.splits)

lemma pick_in: "pick better xs = Some b \<Longrightarrow> b \<in> set xs"
  by (induction xs arbitrary: b rule: rev_induct) (auto simp: pick_snoc split: option.splits if_splits)

locale latest_by =
  fixes better :: "'a \<Rightarrow> 'a \<Rightarrow> bool"
    and key :: "'a \<Rightarrow> 'k::linorder"
  assumes better_iff: "better x y \<longleftrightarrow> key y < key x"
begin

lemma pick_step:
  "pick better (xs @ [x]) =
     (case pick better xs of None \<Rightarrow> Some x | Some b \<Rightarrow> if key b < key x then Some x else Some b)"
  using better_iff [of x] by (cases "pick better xs") (simp_all add: pick_snoc)

lemma pick_greatest: "pick better xs = Some b \<Longrightarrow> y \<in> set xs \<Longrightarrow> key y \<le> key b"
proof (induction xs arbitrary: b y rule: rev_induct)
  case (snoc x xs)
  show ?case
  proof (cases "pick better xs")
    case None
    then show ?thesis using snoc.prems by auto
  next
    case (Some a)
    have "key z \<le> key a" if "z \<in> set xs" for z using snoc.IH [OF Some that] .
    then show ?thesis
      using snoc.prems Some
      by (cases "key a < key x") (fastforce simp: pick_step)+
  qed
qed simp

lemma pick_earliest_of_ties:
  "pick better xs = Some b \<Longrightarrow> \<exists>ys zs. xs = ys @ b # zs \<and> (\<forall>y \<in> set ys. key y < key b)"
proof (induction xs arbitrary: b rule: rev_induct)
  case (snoc x xs)
  show ?case
  proof (cases "pick better xs")
    case None
    then have "xs @ [x] = [] @ b # []" using snoc.prems by simp
    then show ?thesis by (intro exI [of _ "[]"] exI) simp
  next
    case (Some c)
    show ?thesis
    proof (cases "key c < key x")
      case True
      then have "b = x" using snoc.prems Some by (simp add: pick_step)
      moreover have "\<forall>y \<in> set xs. key y < key x"
        using pick_greatest [OF Some] True by fastforce
      ultimately show ?thesis by blast
    next
      case False
      then have "b = c" using snoc.prems Some by (simp add: pick_step)
      then show ?thesis using snoc.IH [OF Some] by (metis append.assoc append_Cons)
    qed
  qed
qed simp

text \<open>Without two entries of the same key, the order of the entries does not matter.\<close>

lemma pick_order_irrelevant:
  assumes "mset xs = mset ys" "inj_on key (set xs)"
  shows "pick better xs = pick better ys"
proof (cases "pick better xs")
  case None
  then show ?thesis using assms(1) by auto
next
  case (Some b)
  have set_eq: "set xs = set ys" using assms(1) by (rule mset_eq_setD)
  have "ys \<noteq> []" using Some set_eq pick_in by fastforce
  then obtain c where c: "pick better ys = Some c" by fastforce
  have "b \<in> set xs" "c \<in> set xs" using pick_in Some c set_eq by fastforce+
  moreover have "key b = key c"
    using pick_greatest [OF Some, of c] pick_greatest [OF c, of b] calculation set_eq by auto
  ultimately have "b = c" using assms(2) by (simp add: inj_on_def)
  then show ?thesis using Some c by simp
qed

end

end
