(* ===== verification/Machine.thy ===== *)
theory Machine
  imports Prelude
begin

text \<open>
  Both lifecycles of the program (contracts and proposals) are pure functions
  \<open>(snapshot, event, clock) \<Rightarrow> snapshot\<close> that throw when the transition is refused, guarded by a
  table of the events each status structurally admits. The services load the snapshot, call
  the function and persist its result only when it returned, so a refused event leaves the
  stored snapshot as it was: \<open>run_events\<close> is the life of one stored snapshot.

  The locale \<open>event_machine\<close> is the contract the services rely on (an accepted event is in the
  table), \<open>graph_machine\<close> the stronger one of the documented state diagram (the arrival status
  is one the diagram draws). Their lemmas are about whole runs and are interpreted on the two
  machines in their theories.
\<close>

subsection \<open>Runs of stored snapshots\<close>

definition persist :: "'s \<Rightarrow> 'err + 's \<Rightarrow> 's" where
  "persist c r = (case r of Inl _ \<Rightarrow> c | Inr c' \<Rightarrow> c')"

lemma persist_simps [simp]: "persist c (Inl e) = c" "persist c (Inr c') = c'"
  by (simp_all add: persist_def)

fun run_events :: "('s \<Rightarrow> 'e \<Rightarrow> 't \<Rightarrow> 'err + 's) \<Rightarrow> 's \<Rightarrow> ('e \<times> 't) list \<Rightarrow> 's" where
  "run_events ap c [] = c"
| "run_events ap c ((e, now) # es) = run_events ap (persist c (ap c e now)) es"

lemma run_events_append [simp]:
  "run_events ap c (es @ fs) = run_events ap (run_events ap c es) fs"
  by (induction ap c es rule: run_events.induct) auto

lemma run_events_invariant:
  assumes step: "\<And>c e now c'. I c \<Longrightarrow> ap c e now = Inr c' \<Longrightarrow> I c'"
    and start: "I c"
  shows "I (run_events ap c es)"
  using start
proof (induction es arbitrary: c)
  case (Cons en es)
  obtain e now where en: "en = (e, now)" by (cases en)
  have "I (persist c (ap c e now))"
    using step Cons.prems by (cases "ap c e now") auto
  then show ?case using Cons.IH en by simp
qed simp

subsection \<open>Machines guarded by a table\<close>

locale event_machine =
  fixes transitions :: "'st \<Rightarrow> 'ty list"
    and status_of :: "'s \<Rightarrow> 'st"
    and etype :: "'e \<Rightarrow> 'ty"
    and ap :: "'s \<Rightarrow> 'e \<Rightarrow> 't \<Rightarrow> 'err + 's"
  assumes accepted_in_table: "ap c e now = Inr c' \<Longrightarrow> etype e \<in> set (transitions (status_of c))"
begin

lemma refused_outside_table:
  "etype e \<notin> set (transitions (status_of c)) \<Longrightarrow> \<not> is_ok (ap c e now)"
  using accepted_in_table by (cases "ap c e now") auto

lemma dead_end_step:
  "transitions (status_of c) = [] \<Longrightarrow> persist c (ap c e now) = c"
  using accepted_in_table [of c e now] by (cases "ap c e now") auto

lemma dead_end_absorbing:
  "transitions (status_of c) = [] \<Longrightarrow> run_events ap c es = c"
  by (induction es) (auto simp: dead_end_step)

end

locale graph_machine = event_machine transitions status_of etype ap
  for transitions :: "'st \<Rightarrow> 'ty list"
    and status_of :: "'s \<Rightarrow> 'st"
    and etype :: "'e \<Rightarrow> 'ty"
    and ap :: "'s \<Rightarrow> 'e \<Rightarrow> 't \<Rightarrow> 'err + 's" +
  fixes targets :: "'st \<Rightarrow> 'ty \<Rightarrow> 'st list"
  assumes arrives_at_target:
    "ap c e now = Inr c' \<Longrightarrow> status_of c' \<in> set (targets (status_of c) (etype e))"
begin

definition graph_closed :: "'st set \<Rightarrow> bool" where
  "graph_closed S \<longleftrightarrow>
     (\<forall>s \<in> S. list_all (\<lambda>ty. list_all (\<lambda>s'. s' \<in> S) (targets s ty)) (transitions s))"

lemma graph_closed_step:
  assumes "graph_closed S" "status_of c \<in> S" "ap c e now = Inr c'"
  shows "status_of c' \<in> S"
  using assms accepted_in_table [OF assms(3)] arrives_at_target [OF assms(3)]
  by (fastforce simp: graph_closed_def list_all_iff)

lemma graph_closed_run:
  assumes "graph_closed S" "status_of c \<in> S"
  shows "status_of (run_events ap c es) \<in> S"
  by (rule run_events_invariant [where I = "\<lambda>c. status_of c \<in> S"])
    (use assms graph_closed_step in auto)

text \<open>A run that ends outside a closed set was outside it all along: what is left is never
  re-entered.\<close>

lemma graph_closed_origin:
  assumes "graph_closed S" "status_of (run_events ap c (es @ fs)) \<notin> S"
  shows "status_of (run_events ap c es) \<notin> S"
  using assms graph_closed_run [of S "run_events ap c es" fs] by auto

end

end
