(* ===== verification/ContractMachine.thy ===== *)
theory ContractMachine
  imports Machine JsDate
begin

text \<open>
  The contract lifecycle: \<open>packages/domain/src/contract/contract.types.ts\<close> (statuses, events,
  snapshot) and \<open>packages/domain/src/contract/state-machine.ts\<close> (\<open>TRANSITIONS\<close>, the guards,
  \<open>applyEvent\<close>), one definition per case of the dispatch. Identifiers are strings; a nullable or
  optional field is an option (the code never tells \<open>null\<close> from \<open>undefined\<close>); an error is
  \<open>InvalidTransition\<close> with its three fields or \<open>BusinessRule\<close> with its rule code (the French
  message is presentation). Dates are valid (\<open>JsDate\<close>).
\<close>

subsection \<open>Data\<close>

datatype contract_status =
    DRAFT | IN_REVIEW | CHANGES_REQUESTED | APPROVED | PENDING_SIGNATURE | PARTIALLY_SIGNED
  | SIGNED | ACTIVE | EXPIRED | TERMINATED | RENEWED | CANCELLED | DECLINED
  | SENT_TO_CLIENT | IN_NEGOTIATION | ACCEPTED | SIGNATURE_EXPIRED | RENEWAL_DUE
  | TERMINATION_PENDING | IMPORTED_PENDING_VALIDATION

datatype contract_type = MAIN | AMENDMENT

datatype contract_event_type =
    T_SUBMIT_FOR_REVIEW | T_APPROVE | T_REQUEST_CHANGES | T_EDIT_CONTENT | T_SEND_TO_CLIENT
  | T_CLIENT_ACCEPT | T_OPEN_NEGOTIATION | T_REOPEN_NEGOTIATION | T_SEND_FOR_SIGNATURE
  | T_REVOKE_SIGNATURE | T_SIGNER_SIGNED | T_SIGNER_DECLINED | T_SIGNATURE_EXPIRE | T_ACTIVATE
  | T_VALIDATE_IMPORT | T_EXPIRE | T_OPEN_RENEWAL | T_RENEW_PERIOD | T_CLOSE_RENEWAL
  | T_MARK_RENEWED | T_CANCEL | T_TERMINATE | T_COMPLETE_TERMINATION | T_WITHDRAW_TERMINATION

record termination_request =
  tr_actorUserId :: string
  tr_reason :: string
  tr_effectiveDate :: jsdate
  tr_isAdmin :: bool
  tr_overrideReason :: "string option"
  tr_minEffectiveDate :: "jsdate option"

datatype contract_event =
    SUBMIT_FOR_REVIEW string
  | APPROVE string
  | REQUEST_CHANGES string string
  | EDIT_CONTENT string
  | SEND_TO_CLIENT string
  | CLIENT_ACCEPT string
  | OPEN_NEGOTIATION string string
  | REOPEN_NEGOTIATION string string
  | SEND_FOR_SIGNATURE string
  | REVOKE_SIGNATURE string
  | SIGNER_SIGNED bool
  | SIGNER_DECLINED string
  | SIGNATURE_EXPIRE
  | ACTIVATE
  | VALIDATE_IMPORT string
  | EXPIRE
  | OPEN_RENEWAL
  | RENEW_PERIOD jsdate
  | CLOSE_RENEWAL string string
  | MARK_RENEWED string
  | CANCEL string string
  | TERMINATE termination_request
  | COMPLETE_TERMINATION
  | WITHDRAW_TERMINATION string string

fun event_type :: "contract_event \<Rightarrow> contract_event_type" where
  "event_type (SUBMIT_FOR_REVIEW _) = T_SUBMIT_FOR_REVIEW"
| "event_type (APPROVE _) = T_APPROVE"
| "event_type (REQUEST_CHANGES _ _) = T_REQUEST_CHANGES"
| "event_type (EDIT_CONTENT _) = T_EDIT_CONTENT"
| "event_type (SEND_TO_CLIENT _) = T_SEND_TO_CLIENT"
| "event_type (CLIENT_ACCEPT _) = T_CLIENT_ACCEPT"
| "event_type (OPEN_NEGOTIATION _ _) = T_OPEN_NEGOTIATION"
| "event_type (REOPEN_NEGOTIATION _ _) = T_REOPEN_NEGOTIATION"
| "event_type (SEND_FOR_SIGNATURE _) = T_SEND_FOR_SIGNATURE"
| "event_type (REVOKE_SIGNATURE _) = T_REVOKE_SIGNATURE"
| "event_type (SIGNER_SIGNED _) = T_SIGNER_SIGNED"
| "event_type (SIGNER_DECLINED _) = T_SIGNER_DECLINED"
| "event_type SIGNATURE_EXPIRE = T_SIGNATURE_EXPIRE"
| "event_type ACTIVATE = T_ACTIVATE"
| "event_type (VALIDATE_IMPORT _) = T_VALIDATE_IMPORT"
| "event_type EXPIRE = T_EXPIRE"
| "event_type OPEN_RENEWAL = T_OPEN_RENEWAL"
| "event_type (RENEW_PERIOD _) = T_RENEW_PERIOD"
| "event_type (CLOSE_RENEWAL _ _) = T_CLOSE_RENEWAL"
| "event_type (MARK_RENEWED _) = T_MARK_RENEWED"
| "event_type (CANCEL _ _) = T_CANCEL"
| "event_type (TERMINATE _) = T_TERMINATE"
| "event_type COMPLETE_TERMINATION = T_COMPLETE_TERMINATION"
| "event_type (WITHDRAW_TERMINATION _ _) = T_WITHDRAW_TERMINATION"

record contract_snapshot =
  cs_id :: string
  cs_type :: contract_type
  cs_status :: contract_status
  cs_startDate :: "jsdate option"
  cs_endDate :: "jsdate option"
  cs_noticePeriodDays :: "int option"
  cs_currentVersionId :: "string option"
  cs_approvedVersionId :: "string option"
  cs_submittedByUserId :: "string option"
  cs_hasLsiSigner :: bool
  cs_hasClientSigner :: bool
  cs_hasRequiredAttachments :: bool
  cs_openAmendmentExists :: bool
  cs_hasSignedSuccessor :: bool
  cs_signedAt :: "jsdate option"
  cs_activatedAt :: "jsdate option"
  cs_terminatedAt :: "jsdate option"
  cs_acceptedVersionId :: "string option"
  cs_hasUnreviewedAiClauses :: bool
  cs_terminationEffectiveDate :: "jsdate option"
  cs_hasMissingVariables :: bool

datatype contract_error =
    InvalidTransition contract_status contract_event_type "contract_event_type list"
  | BusinessRule string

definition EDITABLE_STATUSES :: "contract_status list" where
  "EDITABLE_STATUSES = [DRAFT, CHANGES_REQUESTED, IN_NEGOTIATION]"

definition TERMINAL_STATUSES :: "contract_status list" where
  "TERMINAL_STATUSES = [TERMINATED, RENEWED, CANCELLED]"

definition is_editable :: "contract_status \<Rightarrow> bool" where
  "is_editable s = (s \<in> set EDITABLE_STATUSES)"

definition is_terminal :: "contract_status \<Rightarrow> bool" where
  "is_terminal s = (s \<in> set TERMINAL_STATUSES)"

definition SIGNING :: "contract_event_type list" where
  "SIGNING = [T_SIGNER_SIGNED, T_SIGNER_DECLINED, T_SIGNATURE_EXPIRE, T_REVOKE_SIGNATURE, T_CANCEL]"

fun TRANSITIONS :: "contract_status \<Rightarrow> contract_event_type list" where
  "TRANSITIONS DRAFT = [T_EDIT_CONTENT, T_SUBMIT_FOR_REVIEW, T_CANCEL]"
| "TRANSITIONS IN_REVIEW = [T_APPROVE, T_REQUEST_CHANGES, T_CANCEL]"
| "TRANSITIONS CHANGES_REQUESTED = [T_EDIT_CONTENT, T_SUBMIT_FOR_REVIEW, T_CANCEL]"
| "TRANSITIONS APPROVED = [T_EDIT_CONTENT, T_SEND_TO_CLIENT, T_SEND_FOR_SIGNATURE, T_CANCEL]"
| "TRANSITIONS SENT_TO_CLIENT = [T_CLIENT_ACCEPT, T_OPEN_NEGOTIATION, T_CANCEL]"
| "TRANSITIONS IN_NEGOTIATION = [T_EDIT_CONTENT, T_SUBMIT_FOR_REVIEW, T_SEND_TO_CLIENT, T_CANCEL]"
| "TRANSITIONS ACCEPTED = [T_SEND_FOR_SIGNATURE, T_OPEN_NEGOTIATION, T_CANCEL]"
| "TRANSITIONS PENDING_SIGNATURE = SIGNING"
| "TRANSITIONS PARTIALLY_SIGNED = SIGNING"
| "TRANSITIONS DECLINED = [T_REOPEN_NEGOTIATION, T_CANCEL]"
| "TRANSITIONS SIGNATURE_EXPIRED = [T_REOPEN_NEGOTIATION, T_SEND_FOR_SIGNATURE, T_CANCEL]"
| "TRANSITIONS SIGNED = [T_ACTIVATE, T_TERMINATE]"
| "TRANSITIONS ACTIVE = [T_EXPIRE, T_TERMINATE, T_OPEN_RENEWAL, T_MARK_RENEWED]"
| "TRANSITIONS RENEWAL_DUE =
     [T_RENEW_PERIOD, T_CLOSE_RENEWAL, T_MARK_RENEWED, T_EXPIRE, T_TERMINATE]"
| "TRANSITIONS TERMINATION_PENDING = [T_COMPLETE_TERMINATION, T_WITHDRAW_TERMINATION]"
| "TRANSITIONS EXPIRED = [T_MARK_RENEWED]"
| "TRANSITIONS IMPORTED_PENDING_VALIDATION = [T_VALIDATE_IMPORT, T_CANCEL]"
| "TRANSITIONS TERMINATED = []"
| "TRANSITIONS RENEWED = []"
| "TRANSITIONS CANCELLED = []"

subsection \<open>Dates of the machine\<close>

definition add_days :: "jsdate \<Rightarrow> int \<Rightarrow> jsdate" where
  "add_days d n = set_utc_date d (get_utc_date d + n)"

definition start_of_utc_day :: "jsdate \<Rightarrow> jsdate" where
  "start_of_utc_day d = date_utc (get_utc_full_year d) (get_utc_month d) (get_utc_date d)"

definition or_zero :: "int option \<Rightarrow> int" where
  "or_zero n = (case n of None \<Rightarrow> 0 | Some k \<Rightarrow> k)"

definition is_notice_respected :: "int option \<Rightarrow> jsdate \<Rightarrow> jsdate \<Rightarrow> bool" where
  "is_notice_respected noticePeriodDays effectiveDate now =
     (effectiveDate \<ge> add_days (start_of_utc_day now) (or_zero noticePeriodDays))"

subsection \<open>The events possible in a state\<close>

definition current_is_approved :: "contract_snapshot \<Rightarrow> bool" where
  "current_is_approved c =
     (cs_approvedVersionId c \<noteq> None \<and> cs_approvedVersionId c = cs_currentVersionId c)"

definition event_possible :: "contract_snapshot \<Rightarrow> jsdate option \<Rightarrow> contract_event_type \<Rightarrow> bool" where
  "event_possible c now ty =
     (case ty of
        T_SUBMIT_FOR_REVIEW \<Rightarrow>
          cs_hasLsiSigner c \<and> cs_hasClientSigner c \<and> cs_hasRequiredAttachments c
          \<and> cs_startDate c \<noteq> None \<and> \<not> js_falsy (cs_currentVersionId c)
          \<and> \<not> cs_hasUnreviewedAiClauses c \<and> \<not> cs_hasMissingVariables c
      | T_SEND_TO_CLIENT \<Rightarrow> current_is_approved c
      | T_SEND_FOR_SIGNATURE \<Rightarrow>
          (if cs_status c = ACCEPTED
           then current_is_approved c \<and> cs_acceptedVersionId c = cs_currentVersionId c
           else current_is_approved c)
      | T_EXPIRE \<Rightarrow> cs_endDate c \<noteq> None
      | T_OPEN_RENEWAL \<Rightarrow> cs_endDate c \<noteq> None
      | T_VALIDATE_IMPORT \<Rightarrow> cs_startDate c \<noteq> None
      | T_COMPLETE_TERMINATION \<Rightarrow>
          (case cs_terminationEffectiveDate c of None \<Rightarrow> False
           | Some d \<Rightarrow> (case now of None \<Rightarrow> True | Some n \<Rightarrow> d \<le> n))
      | _ \<Rightarrow> True)"

definition allowed_events :: "contract_snapshot \<Rightarrow> jsdate option \<Rightarrow> contract_event_type list" where
  "allowed_events c now = filter (event_possible c now) (TRANSITIONS (cs_status c))"

subsection \<open>Guards that are not transitions\<close>

definition assert_can_amend :: "contract_snapshot \<Rightarrow> contract_error + unit" where
  "assert_can_amend parent =
     (if cs_status parent \<noteq> ACTIVE \<and> cs_status parent \<noteq> SIGNED \<and> cs_status parent \<noteq> RENEWAL_DUE
      then Inl (BusinessRule ''RM-17'')
      else if cs_openAmendmentExists parent then Inl (BusinessRule ''RM-19'')
      else Inr ())"

definition assert_can_renew :: "contract_snapshot \<Rightarrow> contract_error + unit" where
  "assert_can_renew parent =
     (if cs_status parent \<noteq> ACTIVE \<and> cs_status parent \<noteq> EXPIRED \<and> cs_status parent \<noteq> RENEWAL_DUE
      then Inl (BusinessRule ''RM-16'') else Inr ())"

subsection \<open>The cases of the dispatch\<close>

type_synonym contract_result = "contract_error + contract_snapshot"

definition submit_for_review :: "contract_snapshot \<Rightarrow> string \<Rightarrow> contract_result" where
  "submit_for_review c actorUserId =
     (if \<not> cs_hasLsiSigner c \<or> \<not> cs_hasClientSigner c then Inl (BusinessRule ''RM-12'')
      else if \<not> cs_hasRequiredAttachments c then Inl (BusinessRule ''EC-11'')
      else if cs_startDate c = None then Inl (BusinessRule ''RM-08'')
      else if js_falsy (cs_currentVersionId c) then Inl (BusinessRule ''RM-11'')
      else if cs_hasUnreviewedAiClauses c then Inl (BusinessRule ''V2-AI'')
      else if cs_hasMissingVariables c then Inl (BusinessRule ''V2-VAR'')
      else Inr (c\<lparr>cs_status := IN_REVIEW, cs_submittedByUserId := Some actorUserId\<rparr>))"

definition approve :: "contract_snapshot \<Rightarrow> string \<Rightarrow> contract_result" where
  "approve c actorUserId =
     (if cs_submittedByUserId c = Some actorUserId then Inl (BusinessRule ''RM-10'')
      else Inr (c\<lparr>cs_status := APPROVED, cs_approvedVersionId := cs_currentVersionId c\<rparr>))"

definition request_changes :: "contract_snapshot \<Rightarrow> string \<Rightarrow> string \<Rightarrow> contract_result" where
  "request_changes c actorUserId reason =
     (if cs_submittedByUserId c = Some actorUserId then Inl (BusinessRule ''RM-10'')
      else if js_blank reason then Inl (BusinessRule ''RM-11'')
      else Inr (c\<lparr>cs_status := CHANGES_REQUESTED\<rparr>))"

definition edit_content :: "contract_snapshot \<Rightarrow> contract_result" where
  "edit_content c =
     (if cs_status c = APPROVED
      then Inr (c\<lparr>cs_status := DRAFT, cs_approvedVersionId := None\<rparr>)
      else if cs_status c = IN_NEGOTIATION then Inr (c\<lparr>cs_approvedVersionId := None\<rparr>)
      else if \<not> is_editable (cs_status c)
      then Inl (InvalidTransition (cs_status c) T_EDIT_CONTENT (allowed_events c None))
      else Inr c)"

definition send_for_signature :: "contract_snapshot \<Rightarrow> contract_result" where
  "send_for_signature c =
     (if cs_approvedVersionId c = None then Inl (BusinessRule ''RM-09'')
      else if cs_approvedVersionId c \<noteq> cs_currentVersionId c then Inl (BusinessRule ''RM-11'')
      else if cs_status c = ACCEPTED \<and> cs_acceptedVersionId c \<noteq> cs_currentVersionId c
      then Inl (BusinessRule ''V2-ACC'')
      else Inr (c\<lparr>cs_status := PENDING_SIGNATURE\<rparr>))"

definition revoke_signature :: "contract_snapshot \<Rightarrow> contract_result" where
  "revoke_signature c =
     (let accepted = \<not> js_falsy (cs_acceptedVersionId c)
                     \<and> cs_acceptedVersionId c = cs_currentVersionId c
      in Inr (c\<lparr>cs_status := (if accepted then ACCEPTED else APPROVED)\<rparr>))"

definition send_to_client :: "contract_snapshot \<Rightarrow> contract_result" where
  "send_to_client c =
     (if cs_approvedVersionId c = None \<or> cs_approvedVersionId c \<noteq> cs_currentVersionId c
      then Inl (BusinessRule ''RM-11'')
      else Inr (c\<lparr>cs_status := SENT_TO_CLIENT, cs_acceptedVersionId := None\<rparr>))"

definition client_accept :: "contract_snapshot \<Rightarrow> string \<Rightarrow> contract_result" where
  "client_accept c versionId =
     (if Some versionId \<noteq> cs_currentVersionId c \<or> cs_approvedVersionId c \<noteq> cs_currentVersionId c
      then Inl (BusinessRule ''V2-ACC'')
      else Inr (c\<lparr>cs_status := ACCEPTED, cs_acceptedVersionId := Some versionId\<rparr>))"

definition open_negotiation :: "contract_snapshot \<Rightarrow> string \<Rightarrow> contract_result" where
  "open_negotiation c reason =
     (if js_blank reason then Inl (BusinessRule ''V2-NEG'')
      else Inr (c\<lparr>cs_status := IN_NEGOTIATION, cs_acceptedVersionId := None\<rparr>))"

definition signature_expire :: "contract_snapshot \<Rightarrow> contract_result" where
  "signature_expire c = Inr (c\<lparr>cs_status := SIGNATURE_EXPIRED\<rparr>)"

definition signer_signed :: "contract_snapshot \<Rightarrow> bool \<Rightarrow> jsdate \<Rightarrow> contract_result" where
  "signer_signed c allSigned now =
     (if \<not> allSigned then Inr (c\<lparr>cs_status := PARTIALLY_SIGNED\<rparr>)
      else Inr (c\<lparr>cs_status := SIGNED, cs_signedAt := Some now\<rparr>))"

definition signer_declined :: "contract_snapshot \<Rightarrow> contract_result" where
  "signer_declined c = Inr (c\<lparr>cs_status := DECLINED\<rparr>)"

definition activate :: "contract_snapshot \<Rightarrow> jsdate \<Rightarrow> contract_result" where
  "activate c now =
     (case cs_startDate c of None \<Rightarrow> Inl (BusinessRule ''RM-08'')
      | Some startDate \<Rightarrow>
          if startDate > now then Inr c
          else Inr (c\<lparr>cs_status := ACTIVE, cs_activatedAt := Some now\<rparr>))"

definition validate_import :: "contract_snapshot \<Rightarrow> jsdate \<Rightarrow> contract_result" where
  "validate_import c now =
     (case cs_startDate c of None \<Rightarrow> Inl (BusinessRule ''V2-IMP'')
      | Some startDate \<Rightarrow>
          if (case cs_endDate c of None \<Rightarrow> False | Some e \<Rightarrow> e < start_of_utc_day now)
          then Inr (c\<lparr>cs_status := EXPIRED\<rparr>)
          else if startDate > now then Inr (c\<lparr>cs_status := SIGNED\<rparr>)
          else Inr (c\<lparr>cs_status := ACTIVE, cs_activatedAt := Some now\<rparr>))"

definition open_renewal :: "contract_snapshot \<Rightarrow> contract_result" where
  "open_renewal c =
     (if cs_endDate c = None then Inl (BusinessRule ''EC-13'')
      else Inr (c\<lparr>cs_status := RENEWAL_DUE\<rparr>))"

definition renew_period :: "contract_snapshot \<Rightarrow> jsdate \<Rightarrow> contract_result" where
  "renew_period c newEndDate =
     (if (case cs_endDate c of None \<Rightarrow> True | Some e \<Rightarrow> newEndDate \<le> e)
      then Inl (BusinessRule ''V2-REN'')
      else Inr (c\<lparr>cs_status := ACTIVE, cs_endDate := Some newEndDate\<rparr>))"

definition close_renewal :: "contract_snapshot \<Rightarrow> string \<Rightarrow> contract_result" where
  "close_renewal c reason =
     (if js_blank reason then Inl (BusinessRule ''V2-REN'')
      else Inr (c\<lparr>cs_status := ACTIVE\<rparr>))"

definition complete_termination :: "contract_snapshot \<Rightarrow> jsdate \<Rightarrow> contract_result" where
  "complete_termination c now =
     (if (case cs_terminationEffectiveDate c of None \<Rightarrow> True | Some d \<Rightarrow> d > now)
      then Inl (BusinessRule ''RM-20'')
      else Inr (c\<lparr>cs_status := TERMINATED, cs_terminatedAt := Some now\<rparr>))"

definition withdraw_termination :: "contract_snapshot \<Rightarrow> string \<Rightarrow> contract_result" where
  "withdraw_termination c reason =
     (if js_blank reason then Inl (BusinessRule ''RM-20'')
      else Inr (c\<lparr>cs_status := ACTIVE, cs_terminationEffectiveDate := None\<rparr>))"

definition expire :: "contract_snapshot \<Rightarrow> jsdate \<Rightarrow> contract_result" where
  "expire c now =
     (case cs_endDate c of None \<Rightarrow> Inl (BusinessRule ''EC-13'')
      | Some e \<Rightarrow>
          if e \<ge> now then Inl (BusinessRule ''RM-07'')
          else Inr (c\<lparr>cs_status := (if cs_hasSignedSuccessor c then RENEWED else EXPIRED)\<rparr>))"

definition mark_renewed :: "contract_snapshot \<Rightarrow> contract_result" where
  "mark_renewed c = Inr (c\<lparr>cs_status := RENEWED\<rparr>)"

definition cancel_contract :: "contract_snapshot \<Rightarrow> string \<Rightarrow> contract_result" where
  "cancel_contract c reason =
     (if js_blank reason then Inl (BusinessRule ''RM-22'')
      else Inr (c\<lparr>cs_status := CANCELLED\<rparr>))"

definition respects_notice :: "contract_snapshot \<Rightarrow> termination_request \<Rightarrow> jsdate \<Rightarrow> bool" where
  "respects_notice c r now =
     (case tr_minEffectiveDate r of
        Some m \<Rightarrow> start_of_utc_day (tr_effectiveDate r) \<ge> start_of_utc_day m
      | None \<Rightarrow> is_notice_respected (cs_noticePeriodDays c) (tr_effectiveDate r) now)"

definition terminate :: "contract_snapshot \<Rightarrow> termination_request \<Rightarrow> jsdate \<Rightarrow> contract_result" where
  "terminate c r now =
     (if js_blank (tr_reason r) then Inl (BusinessRule ''RM-20'')
      else if \<not> respects_notice c r now \<and> \<not> tr_isAdmin r then Inl (BusinessRule ''RM-20'')
      else if \<not> respects_notice c r now
              \<and> (case tr_overrideReason r of None \<Rightarrow> True | Some s \<Rightarrow> js_blank s)
      then Inl (BusinessRule ''RM-20'')
      else if tr_effectiveDate r > now
      then Inr (c\<lparr>cs_status := TERMINATION_PENDING,
                  cs_terminationEffectiveDate := Some (tr_effectiveDate r)\<rparr>)
      else Inr (c\<lparr>cs_status := TERMINATED, cs_terminatedAt := Some now,
                  cs_terminationEffectiveDate := Some (tr_effectiveDate r)\<rparr>))"

subsection \<open>applyEvent\<close>

fun dispatch_event :: "contract_snapshot \<Rightarrow> contract_event \<Rightarrow> jsdate \<Rightarrow> contract_result" where
  "dispatch_event c (SUBMIT_FOR_REVIEW u) now = submit_for_review c u"
| "dispatch_event c (APPROVE u) now = approve c u"
| "dispatch_event c (REQUEST_CHANGES u reason) now = request_changes c u reason"
| "dispatch_event c (EDIT_CONTENT u) now = edit_content c"
| "dispatch_event c (SEND_FOR_SIGNATURE u) now = send_for_signature c"
| "dispatch_event c (REVOKE_SIGNATURE u) now = revoke_signature c"
| "dispatch_event c (SEND_TO_CLIENT u) now = send_to_client c"
| "dispatch_event c (CLIENT_ACCEPT v) now = client_accept c v"
| "dispatch_event c (OPEN_NEGOTIATION u reason) now = open_negotiation c reason"
| "dispatch_event c (REOPEN_NEGOTIATION u reason) now = open_negotiation c reason"
| "dispatch_event c SIGNATURE_EXPIRE now = signature_expire c"
| "dispatch_event c (SIGNER_SIGNED al) now = signer_signed c al now"
| "dispatch_event c (SIGNER_DECLINED reason) now = signer_declined c"
| "dispatch_event c ACTIVATE now = activate c now"
| "dispatch_event c (VALIDATE_IMPORT u) now = validate_import c now"
| "dispatch_event c OPEN_RENEWAL now = open_renewal c"
| "dispatch_event c (RENEW_PERIOD d) now = renew_period c d"
| "dispatch_event c (CLOSE_RENEWAL u reason) now = close_renewal c reason"
| "dispatch_event c COMPLETE_TERMINATION now = complete_termination c now"
| "dispatch_event c (WITHDRAW_TERMINATION u reason) now = withdraw_termination c reason"
| "dispatch_event c EXPIRE now = expire c now"
| "dispatch_event c (MARK_RENEWED s) now = mark_renewed c"
| "dispatch_event c (CANCEL u reason) now = cancel_contract c reason"
| "dispatch_event c (TERMINATE r) now = terminate c r now"

definition apply_event :: "contract_snapshot \<Rightarrow> contract_event \<Rightarrow> jsdate \<Rightarrow> contract_result" where
  "apply_event c event now =
     (if event_type event \<notin> set (TRANSITIONS (cs_status c))
      then Inl (InvalidTransition (cs_status c) (event_type event) (allowed_events c None))
      else dispatch_event c event now)"

subsection \<open>Reading the table and the cases\<close>

lemma permitted_iff:
  "T_SUBMIT_FOR_REVIEW \<in> set (TRANSITIONS s)
     \<longleftrightarrow> s \<in> {DRAFT, CHANGES_REQUESTED, IN_NEGOTIATION}"
  "T_APPROVE \<in> set (TRANSITIONS s) \<longleftrightarrow> s \<in> {IN_REVIEW}"
  "T_REQUEST_CHANGES \<in> set (TRANSITIONS s) \<longleftrightarrow> s \<in> {IN_REVIEW}"
  "T_EDIT_CONTENT \<in> set (TRANSITIONS s)
     \<longleftrightarrow> s \<in> {DRAFT, CHANGES_REQUESTED, APPROVED, IN_NEGOTIATION}"
  "T_SEND_TO_CLIENT \<in> set (TRANSITIONS s)
     \<longleftrightarrow> s \<in> {APPROVED, IN_NEGOTIATION}"
  "T_CLIENT_ACCEPT \<in> set (TRANSITIONS s) \<longleftrightarrow> s \<in> {SENT_TO_CLIENT}"
  "T_OPEN_NEGOTIATION \<in> set (TRANSITIONS s)
     \<longleftrightarrow> s \<in> {SENT_TO_CLIENT, ACCEPTED}"
  "T_REOPEN_NEGOTIATION \<in> set (TRANSITIONS s)
     \<longleftrightarrow> s \<in> {DECLINED, SIGNATURE_EXPIRED}"
  "T_SEND_FOR_SIGNATURE \<in> set (TRANSITIONS s)
     \<longleftrightarrow> s \<in> {APPROVED, ACCEPTED, SIGNATURE_EXPIRED}"
  "T_REVOKE_SIGNATURE \<in> set (TRANSITIONS s)
     \<longleftrightarrow> s \<in> {PENDING_SIGNATURE, PARTIALLY_SIGNED}"
  "T_SIGNER_SIGNED \<in> set (TRANSITIONS s)
     \<longleftrightarrow> s \<in> {PENDING_SIGNATURE, PARTIALLY_SIGNED}"
  "T_SIGNER_DECLINED \<in> set (TRANSITIONS s)
     \<longleftrightarrow> s \<in> {PENDING_SIGNATURE, PARTIALLY_SIGNED}"
  "T_SIGNATURE_EXPIRE \<in> set (TRANSITIONS s)
     \<longleftrightarrow> s \<in> {PENDING_SIGNATURE, PARTIALLY_SIGNED}"
  "T_ACTIVATE \<in> set (TRANSITIONS s) \<longleftrightarrow> s \<in> {SIGNED}"
  "T_VALIDATE_IMPORT \<in> set (TRANSITIONS s)
     \<longleftrightarrow> s \<in> {IMPORTED_PENDING_VALIDATION}"
  "T_EXPIRE \<in> set (TRANSITIONS s) \<longleftrightarrow> s \<in> {ACTIVE, RENEWAL_DUE}"
  "T_OPEN_RENEWAL \<in> set (TRANSITIONS s) \<longleftrightarrow> s \<in> {ACTIVE}"
  "T_RENEW_PERIOD \<in> set (TRANSITIONS s) \<longleftrightarrow> s \<in> {RENEWAL_DUE}"
  "T_CLOSE_RENEWAL \<in> set (TRANSITIONS s) \<longleftrightarrow> s \<in> {RENEWAL_DUE}"
  "T_MARK_RENEWED \<in> set (TRANSITIONS s)
     \<longleftrightarrow> s \<in> {ACTIVE, RENEWAL_DUE, EXPIRED}"
  "T_CANCEL \<in> set (TRANSITIONS s)
     \<longleftrightarrow> s \<in> {DRAFT, IN_REVIEW, CHANGES_REQUESTED, APPROVED,
       SENT_TO_CLIENT, IN_NEGOTIATION, ACCEPTED, PENDING_SIGNATURE, PARTIALLY_SIGNED, DECLINED,
       SIGNATURE_EXPIRED, IMPORTED_PENDING_VALIDATION}"
  "T_TERMINATE \<in> set (TRANSITIONS s)
     \<longleftrightarrow> s \<in> {SIGNED, ACTIVE, RENEWAL_DUE}"
  "T_COMPLETE_TERMINATION \<in> set (TRANSITIONS s)
     \<longleftrightarrow> s \<in> {TERMINATION_PENDING}"
  "T_WITHDRAW_TERMINATION \<in> set (TRANSITIONS s)
     \<longleftrightarrow> s \<in> {TERMINATION_PENDING}"
  by (cases s; simp add: SIGNING_def)+

lemmas case_defs =
  submit_for_review_def approve_def request_changes_def edit_content_def send_for_signature_def
  revoke_signature_def send_to_client_def client_accept_def open_negotiation_def
  signature_expire_def signer_signed_def signer_declined_def activate_def validate_import_def
  open_renewal_def renew_period_def close_renewal_def complete_termination_def
  withdraw_termination_def expire_def mark_renewed_def cancel_contract_def terminate_def

lemma apply_event_Inr_iff:
  "apply_event c e now = Inr c' \<longleftrightarrow>
     event_type e \<in> set (TRANSITIONS (cs_status c)) \<and> dispatch_event c e now = Inr c'"
  by (simp add: apply_event_def)

lemma is_ok_apply_event:
  "is_ok (apply_event c e now) \<longleftrightarrow>
     event_type e \<in> set (TRANSITIONS (cs_status c)) \<and> is_ok (dispatch_event c e now)"
  by (simp add: apply_event_def)

lemma no_transitions_iff: "TRANSITIONS s = [] \<longleftrightarrow> is_terminal s"
  by (cases s) (simp_all add: is_terminal_def TERMINAL_STATUSES_def SIGNING_def)

subsection \<open>The documented diagram\<close>

text \<open>The arrival states of the transition table of \<open>docs/contrats/02-cycle-de-vie.md\<close> (section 3),
  the abstract specification of the machine.\<close>

fun doc_targets :: "contract_status \<Rightarrow> contract_event_type \<Rightarrow> contract_status list" where
  "doc_targets s T_EDIT_CONTENT =
     (if s = APPROVED then [DRAFT]
      else if s \<in> {DRAFT, CHANGES_REQUESTED, IN_NEGOTIATION} then [s] else [])"
| "doc_targets s T_SUBMIT_FOR_REVIEW =
     (if s \<in> {DRAFT, CHANGES_REQUESTED, IN_NEGOTIATION} then [IN_REVIEW] else [])"
| "doc_targets s T_APPROVE = (if s = IN_REVIEW then [APPROVED] else [])"
| "doc_targets s T_REQUEST_CHANGES = (if s = IN_REVIEW then [CHANGES_REQUESTED] else [])"
| "doc_targets s T_SEND_TO_CLIENT =
     (if s \<in> {APPROVED, IN_NEGOTIATION} then [SENT_TO_CLIENT] else [])"
| "doc_targets s T_CLIENT_ACCEPT = (if s = SENT_TO_CLIENT then [ACCEPTED] else [])"
| "doc_targets s T_OPEN_NEGOTIATION =
     (if s \<in> {SENT_TO_CLIENT, ACCEPTED} then [IN_NEGOTIATION] else [])"
| "doc_targets s T_REOPEN_NEGOTIATION =
     (if s \<in> {DECLINED, SIGNATURE_EXPIRED} then [IN_NEGOTIATION] else [])"
| "doc_targets s T_SEND_FOR_SIGNATURE =
     (if s \<in> {APPROVED, ACCEPTED, SIGNATURE_EXPIRED} then [PENDING_SIGNATURE] else [])"
| "doc_targets s T_REVOKE_SIGNATURE =
     (if s \<in> {PENDING_SIGNATURE, PARTIALLY_SIGNED} then [ACCEPTED, APPROVED] else [])"
| "doc_targets s T_SIGNER_SIGNED =
     (if s \<in> {PENDING_SIGNATURE, PARTIALLY_SIGNED} then [PARTIALLY_SIGNED, SIGNED] else [])"
| "doc_targets s T_SIGNER_DECLINED =
     (if s \<in> {PENDING_SIGNATURE, PARTIALLY_SIGNED} then [DECLINED] else [])"
| "doc_targets s T_SIGNATURE_EXPIRE =
     (if s \<in> {PENDING_SIGNATURE, PARTIALLY_SIGNED} then [SIGNATURE_EXPIRED] else [])"
| "doc_targets s T_ACTIVATE = (if s = SIGNED then [ACTIVE, SIGNED] else [])"
| "doc_targets s T_VALIDATE_IMPORT =
     (if s = IMPORTED_PENDING_VALIDATION then [ACTIVE, SIGNED, EXPIRED] else [])"
| "doc_targets s T_EXPIRE = (if s \<in> {ACTIVE, RENEWAL_DUE} then [EXPIRED, RENEWED] else [])"
| "doc_targets s T_OPEN_RENEWAL = (if s = ACTIVE then [RENEWAL_DUE] else [])"
| "doc_targets s T_RENEW_PERIOD = (if s = RENEWAL_DUE then [ACTIVE] else [])"
| "doc_targets s T_CLOSE_RENEWAL = (if s = RENEWAL_DUE then [ACTIVE] else [])"
| "doc_targets s T_MARK_RENEWED =
     (if s \<in> {ACTIVE, RENEWAL_DUE, EXPIRED} then [RENEWED] else [])"
| "doc_targets s T_CANCEL =
     (if s \<in> {DRAFT, IN_REVIEW, CHANGES_REQUESTED, APPROVED, SENT_TO_CLIENT, IN_NEGOTIATION,
             ACCEPTED, PENDING_SIGNATURE, PARTIALLY_SIGNED, DECLINED, SIGNATURE_EXPIRED,
             IMPORTED_PENDING_VALIDATION} then [CANCELLED] else [])"
| "doc_targets s T_TERMINATE =
     (if s \<in> {SIGNED, ACTIVE, RENEWAL_DUE} then [TERMINATION_PENDING, TERMINATED] else [])"
| "doc_targets s T_COMPLETE_TERMINATION = (if s = TERMINATION_PENDING then [TERMINATED] else [])"
| "doc_targets s T_WITHDRAW_TERMINATION = (if s = TERMINATION_PENDING then [ACTIVE] else [])"

lemma apply_event_arrival:
  assumes "apply_event c e now = Inr c'"
  shows "cs_status c' \<in> set (doc_targets (cs_status c) (event_type e))"
  using assms
  by (cases e)
    (auto simp: apply_event_Inr_iff permitted_iff case_defs is_editable_def EDITABLE_STATUSES_def
        Let_def split: if_splits option.splits)

interpretation cm: graph_machine TRANSITIONS cs_status event_type apply_event doc_targets
  by unfold_locales (auto simp: apply_event_Inr_iff apply_event_arrival)

text \<open>Every arrow is realised: a snapshot with the given status on which an event arrives where
  the diagram says.\<close>

definition sample_snapshot :: "contract_status \<Rightarrow> contract_snapshot" where
  "sample_snapshot s =
     \<lparr>cs_id = ''c'', cs_type = MAIN, cs_status = s, cs_startDate = Some 0, cs_endDate = Some 0,
      cs_noticePeriodDays = None, cs_currentVersionId = Some ''v'', cs_approvedVersionId = Some ''v'',
      cs_submittedByUserId = Some ''u'', cs_hasLsiSigner = True, cs_hasClientSigner = True,
      cs_hasRequiredAttachments = True, cs_openAmendmentExists = False,
      cs_hasSignedSuccessor = False, cs_signedAt = None, cs_activatedAt = None,
      cs_terminatedAt = None, cs_acceptedVersionId = Some ''v'', cs_hasUnreviewedAiClauses = False,
      cs_terminationEffectiveDate = Some 0, cs_hasMissingVariables = False\<rparr>"

fun sample_event :: "contract_event_type \<Rightarrow> contract_status \<Rightarrow> contract_event" where
  "sample_event T_SUBMIT_FOR_REVIEW t = SUBMIT_FOR_REVIEW ''a''"
| "sample_event T_APPROVE t = APPROVE ''a''"
| "sample_event T_REQUEST_CHANGES t = REQUEST_CHANGES ''a'' ''r''"
| "sample_event T_EDIT_CONTENT t = EDIT_CONTENT ''a''"
| "sample_event T_SEND_TO_CLIENT t = SEND_TO_CLIENT ''a''"
| "sample_event T_CLIENT_ACCEPT t = CLIENT_ACCEPT ''v''"
| "sample_event T_OPEN_NEGOTIATION t = OPEN_NEGOTIATION ''a'' ''r''"
| "sample_event T_REOPEN_NEGOTIATION t = REOPEN_NEGOTIATION ''a'' ''r''"
| "sample_event T_SEND_FOR_SIGNATURE t = SEND_FOR_SIGNATURE ''a''"
| "sample_event T_REVOKE_SIGNATURE t = REVOKE_SIGNATURE ''a''"
| "sample_event T_SIGNER_SIGNED t = SIGNER_SIGNED (t = SIGNED)"
| "sample_event T_SIGNER_DECLINED t = SIGNER_DECLINED ''r''"
| "sample_event T_SIGNATURE_EXPIRE t = SIGNATURE_EXPIRE"
| "sample_event T_ACTIVATE t = ACTIVATE"
| "sample_event T_VALIDATE_IMPORT t = VALIDATE_IMPORT ''a''"
| "sample_event T_EXPIRE t = EXPIRE"
| "sample_event T_OPEN_RENEWAL t = OPEN_RENEWAL"
| "sample_event T_RENEW_PERIOD t = RENEW_PERIOD 1"
| "sample_event T_CLOSE_RENEWAL t = CLOSE_RENEWAL ''a'' ''r''"
| "sample_event T_MARK_RENEWED t = MARK_RENEWED ''s''"
| "sample_event T_CANCEL t = CANCEL ''a'' ''r''"
| "sample_event T_TERMINATE t =
     TERMINATE \<lparr>tr_actorUserId = ''a'', tr_reason = ''r'', tr_effectiveDate = 1, tr_isAdmin = True,
                tr_overrideReason = Some ''o'', tr_minEffectiveDate = None\<rparr>"
| "sample_event T_COMPLETE_TERMINATION t = COMPLETE_TERMINATION"
| "sample_event T_WITHDRAW_TERMINATION t = WITHDRAW_TERMINATION ''a'' ''r''"

text \<open>The facts and the clock that select the arrow when the diagram has several.\<close>

definition sample_start :: "contract_status \<Rightarrow> contract_event_type \<Rightarrow> contract_status \<Rightarrow> contract_snapshot" where
  "sample_start s ty t =
     (sample_snapshot s)
       \<lparr>cs_acceptedVersionId := (if t = APPROVED then None else Some ''v''),
        cs_hasSignedSuccessor := (t = RENEWED),
        cs_startDate := Some (if t = SIGNED then 1 else 0),
        cs_endDate := (if ty = T_VALIDATE_IMPORT \<and> t \<noteq> EXPIRED then None else Some (- 1))\<rparr>"

definition sample_now :: "contract_event_type \<Rightarrow> contract_status \<Rightarrow> jsdate" where
  "sample_now ty t = (if ty = T_TERMINATE \<and> t = TERMINATED then 1 else 0)"

lemma start_of_utc_day_epoch [simp]: "start_of_utc_day 0 = 0"
  by code_simp

lemma sample_arrival:
  assumes "t \<in> set (doc_targets s ty)"
  shows "\<exists>c'. apply_event (sample_start s ty t) (sample_event ty t) (sample_now ty t) = Inr c'
            \<and> cs_status c' = t"
  using assms
  by (cases ty)
    (auto simp: apply_event_Inr_iff permitted_iff case_defs sample_start_def sample_snapshot_def
        sample_now_def is_editable_def EDITABLE_STATUSES_def js_falsy_def js_blank_iff is_js_space_def
        Let_def split: if_splits)

lemma sample_start_status: "cs_status (sample_start s ty t) = s"
  by (simp add: sample_start_def sample_snapshot_def)

lemma sample_event_type: "event_type (sample_event ty t) = ty"
  by (cases ty) simp_all

text \<open>C1: The machine realises exactly the transition table of the documentation: an event of
  a given type can lead from one status to another if and only if the table draws that arrow, and
  this for all 20 statuses and 24 event types.\<close>

theorem contract_machine_is_documented_diagram:
  "(\<exists>c e now c'. cs_status c = s \<and> event_type e = ty \<and> apply_event c e now = Inr c'
        \<and> cs_status c' = t)
   = (t \<in> set (doc_targets s ty))"
  using apply_event_arrival sample_arrival sample_start_status sample_event_type by metis

text \<open>Terminal states are absorbing: whatever events are submitted, in any order and at any
  time, a terminated, renewed or cancelled contract keeps every field of its snapshot.\<close>

theorem terminal_absorbing:
  "is_terminal (cs_status c) \<Longrightarrow> run_events apply_event c es = c"
  by (rule cm.dead_end_absorbing) (simp add: no_transitions_iff)

theorem terminal_absorbing_witness:
  "run_events apply_event (sample_snapshot CANCELLED)
     [(CANCEL ''a'' ''again'', 5), (EDIT_CONTENT ''a'', 6)] = sample_snapshot CANCELLED"
  by (rule terminal_absorbing)
    (simp add: is_terminal_def TERMINAL_STATUSES_def sample_snapshot_def)

subsection \<open>After the signature\<close>

text \<open>The statuses of a contract that engages both parties or did.\<close>

definition engaged_statuses :: "contract_status set" where
  "engaged_statuses =
     {SIGNED, ACTIVE, RENEWAL_DUE, TERMINATION_PENDING, EXPIRED, TERMINATED, RENEWED}"

definition same_agreement :: "contract_snapshot \<Rightarrow> contract_snapshot \<Rightarrow> bool" where
  "same_agreement c d \<longleftrightarrow>
     cs_currentVersionId d = cs_currentVersionId c \<and> cs_approvedVersionId d = cs_approvedVersionId c
     \<and> cs_acceptedVersionId d = cs_acceptedVersionId c \<and> cs_startDate d = cs_startDate c
     \<and> cs_signedAt d = cs_signedAt c \<and> cs_submittedByUserId d = cs_submittedByUserId c"

lemma engaged_closed: "cm.graph_closed engaged_statuses"
  by (auto simp: cm.graph_closed_def engaged_statuses_def list_all_iff)

definition drafting_events :: "contract_event_type set" where
  "drafting_events =
     {T_SUBMIT_FOR_REVIEW, T_APPROVE, T_EDIT_CONTENT, T_SEND_TO_CLIENT, T_CLIENT_ACCEPT,
      T_OPEN_NEGOTIATION, T_REOPEN_NEGOTIATION, T_SIGNER_SIGNED}"

lemma engaged_no_drafting:
  "s \<in> engaged_statuses \<Longrightarrow> ty \<in> set (TRANSITIONS s) \<Longrightarrow> ty \<notin> drafting_events"
  by (auto simp: engaged_statuses_def drafting_events_def)

lemma agreement_kept:
  "dispatch_event c e now = Inr c' \<Longrightarrow> event_type e \<notin> drafting_events \<Longrightarrow> same_agreement c c'"
  by (cases e)
    (auto simp: case_defs drafting_events_def same_agreement_def Let_def split: if_splits option.splits)

lemma engaged_step:
  assumes "cs_status c \<in> engaged_statuses" "apply_event c e now = Inr c'"
  shows "same_agreement c c'"
  using assms engaged_no_drafting agreement_kept by (auto simp: apply_event_Inr_iff)

text \<open>C20: RM-05, RM-22: once a contract is signed, no sequence of events edits it, cancels it or
  takes it back to a drafting, review or signature status, and its texts (current, approved,
  accepted version), start date, signature date and submitter never change again.\<close>

theorem signed_contract_is_frozen:
  assumes "cs_status c \<in> engaged_statuses"
  shows "cs_status (run_events apply_event c es) \<in> engaged_statuses
         \<and> same_agreement c (run_events apply_event c es)"
  using assms
  by (intro run_events_invariant [where I = "\<lambda>d. cs_status d \<in> engaged_statuses \<and> same_agreement c d"])
    (auto dest: engaged_step cm.graph_closed_step [OF engaged_closed] simp: same_agreement_def)

theorem signed_contract_is_frozen_witness:
  "cs_status (run_events apply_event (sample_snapshot SIGNED)
      [(EDIT_CONTENT ''a'', 1), (ACTIVATE, 2), (CANCEL ''a'' ''r'', 3)]) \<in> engaged_statuses"
  by (rule conjunct1 [OF signed_contract_is_frozen])
    (simp add: engaged_statuses_def sample_snapshot_def)

subsection \<open>Terms and durations\<close>

lemma end_date_step:
  "apply_event c e now = Inr c' \<Longrightarrow>
     (case cs_endDate c of None \<Rightarrow> cs_endDate c' = None
      | Some d \<Rightarrow> \<exists>d'. cs_endDate c' = Some d' \<and> d \<le> d')"
  by (cases e)
    (auto simp: apply_event_Inr_iff case_defs Let_def split: if_splits option.splits)

text \<open>The lifecycle never shortens a term: in any run the end date of a contract only moves
  forward, and a contract without an end date keeps none.\<close>

theorem end_date_never_shortened:
  "case cs_endDate c of
     None \<Rightarrow> cs_endDate (run_events apply_event c es) = None
   | Some d \<Rightarrow> \<exists>d'. cs_endDate (run_events apply_event c es) = Some d' \<and> d \<le> d'"
  by (rule run_events_invariant
      [where I = "\<lambda>c'. case cs_endDate c of None \<Rightarrow> cs_endDate c' = None
                        | Some d \<Rightarrow> \<exists>d'. cs_endDate c' = Some d' \<and> d \<le> d'"])
    (fastforce dest!: end_date_step split: option.splits)+

definition open_ended_statuses :: "contract_status set" where
  "open_ended_statuses = {SIGNED, ACTIVE, TERMINATION_PENDING, TERMINATED, RENEWED}"

lemma open_ended_step:
  assumes "cs_status c \<in> open_ended_statuses" "cs_endDate c = None" "apply_event c e now = Inr c'"
  shows "cs_status c' \<in> open_ended_statuses" "cs_endDate c' = None"
  using assms
  by (cases e;
      auto simp: apply_event_Inr_iff permitted_iff case_defs open_ended_statuses_def
        split: if_splits option.splits)+

text \<open>EC-13: an open-ended signed contract never expires and never falls due for renewal: it
  runs until it is terminated or marked renewed, whatever events and dates the jobs submit.\<close>

theorem open_ended_contract_never_expires:
  assumes "cs_status c \<in> open_ended_statuses" "cs_endDate c = None"
  shows "cs_status (run_events apply_event c es) \<in> open_ended_statuses
         \<and> cs_endDate (run_events apply_event c es) = None"
  using assms
  by (intro run_events_invariant
      [where I = "\<lambda>d. cs_status d \<in> open_ended_statuses \<and> cs_endDate d = None"])
    (auto dest: open_ended_step)

theorem open_ended_contract_never_expires_witness:
  "cs_status (run_events apply_event ((sample_snapshot ACTIVE)\<lparr>cs_endDate := None\<rparr>)
      [(EXPIRE, 1), (OPEN_RENEWAL, 2)]) \<in> open_ended_statuses"
  by (rule conjunct1 [OF open_ended_contract_never_expires])
    (simp_all add: open_ended_statuses_def sample_snapshot_def)

text \<open>Events that close a contract from where it is.\<close>

definition closing_events :: "contract_snapshot \<Rightarrow> (contract_event \<times> jsdate) list" where
  "closing_events c =
     (let stop = (TERMINATE \<lparr>tr_actorUserId = ''a'', tr_reason = ''r'', tr_effectiveDate = 0,
                    tr_isAdmin = True, tr_overrideReason = Some ''o'', tr_minEffectiveDate = None\<rparr>, 0)
      in case cs_status c of
           SIGNED \<Rightarrow> [stop]
         | ACTIVE \<Rightarrow> [stop]
         | RENEWAL_DUE \<Rightarrow> [stop]
         | TERMINATION_PENDING \<Rightarrow> [(WITHDRAW_TERMINATION ''a'' ''r'', 0), stop]
         | EXPIRED \<Rightarrow> [(MARK_RENEWED ''s'', 0)]
         | _ \<Rightarrow> [(CANCEL ''a'' ''r'', 0)])"

lemma not_blank_sample [simp]: "\<not> js_blank ''r''" "\<not> js_blank ''o''"
  by (simp_all add: js_blank_iff is_js_space_def)

lemma terminate_sample:
  "cs_status c \<in> {SIGNED, ACTIVE, RENEWAL_DUE} \<Longrightarrow>
   \<exists>c'. apply_event c (TERMINATE \<lparr>tr_actorUserId = ''a'', tr_reason = ''r'', tr_effectiveDate = 0,
         tr_isAdmin = True, tr_overrideReason = Some ''o'', tr_minEffectiveDate = None\<rparr>) 0 = Inr c'
       \<and> cs_status c' = TERMINATED"
  by (auto simp: apply_event_def terminate_def)

text \<open>C28: No contract is ever stuck: from every snapshot, whatever its status, dates and flags, at
  most two further events lead to a terminal status.\<close>

theorem contract_can_always_be_closed:
  "length (closing_events c) \<le> 2
   \<and> (is_terminal (cs_status c)
      \<or> is_terminal (cs_status (run_events apply_event c (closing_events c))))"
proof (cases "cs_status c")
  case SIGNED
  then show ?thesis using terminate_sample [of c]
    by (auto simp: closing_events_def is_terminal_def TERMINAL_STATUSES_def)
next
  case ACTIVE
  then show ?thesis using terminate_sample [of c]
    by (auto simp: closing_events_def is_terminal_def TERMINAL_STATUSES_def)
next
  case RENEWAL_DUE
  then show ?thesis using terminate_sample [of c]
    by (auto simp: closing_events_def is_terminal_def TERMINAL_STATUSES_def)
next
  case TERMINATION_PENDING
  then show ?thesis
    using terminate_sample [of "c\<lparr>cs_status := ACTIVE, cs_terminationEffectiveDate := None\<rparr>"]
    by (auto simp: closing_events_def is_terminal_def TERMINAL_STATUSES_def apply_event_def
        withdraw_termination_def)
qed (simp_all add: closing_events_def is_terminal_def TERMINAL_STATUSES_def apply_event_def
      cancel_contract_def mark_renewed_def SIGNING_def)

subsection \<open>Guards and the list of possible events\<close>

text \<open>The event types whose guards \<open>allowedEvents\<close> evaluates entirely.\<close>

definition fully_guarded :: "contract_event_type set" where
  "fully_guarded =
     {T_SUBMIT_FOR_REVIEW, T_EDIT_CONTENT, T_SEND_TO_CLIENT, T_SEND_FOR_SIGNATURE,
      T_REVOKE_SIGNATURE, T_SIGNER_SIGNED, T_SIGNER_DECLINED, T_SIGNATURE_EXPIRE, T_VALIDATE_IMPORT,
      T_OPEN_RENEWAL, T_MARK_RENEWED, T_COMPLETE_TERMINATION}"

lemma accepted_is_listed:
  "apply_event c e now = Inr c' \<Longrightarrow> event_possible c (Some now) (event_type e)"
  by (cases e)
    (auto simp: apply_event_Inr_iff case_defs event_possible_def current_is_approved_def js_falsy_def
        eq_commute [of "Some _" "cs_currentVersionId _"] split: if_splits option.splits)

lemma listed_is_accepted:
  "event_type e \<in> fully_guarded \<Longrightarrow> event_type e \<in> set (TRANSITIONS (cs_status c)) \<Longrightarrow>
   event_possible c (Some now) (event_type e) \<Longrightarrow> is_ok (apply_event c e now)"
  by (cases e)
    (auto simp: apply_event_def case_defs event_possible_def current_is_approved_def
        fully_guarded_def is_editable_def EDITABLE_STATUSES_def permitted_iff Let_def
        eq_commute [of "Some _" "cs_currentVersionId _"] split: if_splits option.splits)

text \<open>The list of possible events shown to the user is right: every accepted event is listed
  (with the clock given), and for every event type whose guard needs nothing but the snapshot and
  the clock, being listed is the same as being accepted.\<close>

theorem allowed_events_correct:
  "(is_ok (apply_event c e now) \<longrightarrow> event_type e \<in> set (allowed_events c (Some now)))
   \<and> (event_type e \<in> fully_guarded \<longrightarrow>
      (is_ok (apply_event c e now) = (event_type e \<in> set (allowed_events c (Some now)))))"
  using accepted_is_listed listed_is_accepted
  by (auto simp: allowed_events_def is_ok_iff apply_event_Inr_iff)

theorem allowed_events_correct_witness:
  "is_ok (apply_event (sample_snapshot ACCEPTED) (SEND_FOR_SIGNATURE ''a'') 0)"
  using allowed_events_correct [of "sample_snapshot ACCEPTED" "SEND_FOR_SIGNATURE ''a''" 0]
  by (simp add: fully_guarded_def allowed_events_def event_possible_def current_is_approved_def
      sample_snapshot_def)

subsection \<open>Notice and termination\<close>

lemma add_days_shift: "add_days d n = d + n * ms_per_day"
  by (simp add: add_days_def set_utc_date_shift)

lemma start_of_utc_day_midnight:
  "\<not> (0 \<le> get_utc_full_year d \<and> get_utc_full_year d \<le> 99) \<Longrightarrow>
   start_of_utc_day d = day d * ms_per_day"
  using date_utc_fields [of d 0] by (simp add: start_of_utc_day_def)

text \<open>RM-20: the notice is a comparison of calendar days. An effective date at midnight UTC
  (what a date field submits) respects the notice exactly when its day is at least the notice
  period after the day of the decision, whatever the time of day the decision is made; without a
  notice period the same day is enough.\<close>

theorem notice_compares_days:
  assumes "\<not> (0 \<le> get_utc_full_year now \<and> get_utc_full_year now \<le> 99)"
  shows "is_notice_respected n (k * ms_per_day) now \<longleftrightarrow> day now + or_zero n \<le> k"
proof -
  have "add_days (start_of_utc_day now) (or_zero n) = (day now + or_zero n) * ms_per_day"
    using assms by (simp add: start_of_utc_day_midnight add_days_shift distrib_right)
  then show ?thesis
    by (simp only: is_notice_respected_def midnight_le_iff)
qed

theorem notice_compares_days_witness:
  "\<not> is_notice_respected (Some 30) (49 * ms_per_day) (20 * ms_per_day + 3600000)
   \<and> is_notice_respected (Some 30) (50 * ms_per_day) (20 * ms_per_day + 3600000)"
proof -
  have "get_utc_full_year (20 * ms_per_day + 3600000) = 1970"
    and "day (20 * ms_per_day + 3600000) = 20"
    by code_simp+
  then show ?thesis
    using notice_compares_days [of "20 * ms_per_day + 3600000" "Some 30" 49]
      notice_compares_days [of "20 * ms_per_day + 3600000" "Some 30" 50]
    by (simp add: or_zero_def)
qed

definition justified :: "termination_request \<Rightarrow> bool" where
  "justified r \<longleftrightarrow> (\<exists>s. tr_overrideReason r = Some s \<and> \<not> js_blank s)"

text \<open>A termination is accepted exactly when the contract engages the parties (signed, active
  or due for renewal), a reason is given, and the notice is respected or an administrator justifies
  the derogation; otherwise nothing is stored. The contract then keeps its effects until the
  effective date: it is pending termination if and only if that date is still ahead.\<close>

theorem termination_admission:
  "is_ok (apply_event c (TERMINATE r) now)
     = (cs_status c \<in> {SIGNED, ACTIVE, RENEWAL_DUE} \<and> \<not> js_blank (tr_reason r)
        \<and> (respects_notice c r now \<or> tr_isAdmin r \<and> justified r))
   \<and> (case apply_event c (TERMINATE r) now of
        Inl _ \<Rightarrow> True
      | Inr c' \<Rightarrow> cs_terminationEffectiveDate c' = Some (tr_effectiveDate r)
          \<and> cs_status c' = (if now < tr_effectiveDate r then TERMINATION_PENDING else TERMINATED)
          \<and> cs_endDate c' = cs_endDate c)"
  by (auto simp: apply_event_def terminate_def justified_def permitted_iff split: option.splits)

lemma early_activation:
  fixes c :: contract_snapshot
  defines "c \<equiv> (sample_snapshot SIGNED)\<lparr>cs_startDate := Some (30 * ms_per_day)\<rparr>"
  defines "r \<equiv> \<lparr>tr_actorUserId = ''a'', tr_reason = ''r'', tr_effectiveDate = 20 * ms_per_day,
                 tr_isAdmin = False, tr_overrideReason = None, tr_minEffectiveDate = None\<rparr>"
  defines "c' \<equiv> run_events apply_event c
                  [(ACTIVATE, 0), (TERMINATE r, 0), (WITHDRAW_TERMINATION ''a'' ''r'', 0)]"
  shows "cs_status c' = ACTIVE \<and> cs_startDate c' = Some (30 * ms_per_day) \<and> cs_activatedAt c' = None"
  by (simp add: c'_def c_def r_def apply_event_def activate_def terminate_def withdraw_termination_def
      respects_notice_def is_notice_respected_def add_days_shift or_zero_def sample_snapshot_def
      ms_per_day_def)

end
