(* ===== verification/Months.thy ===== *)
theory Months
  imports JsDate
begin

text \<open>
  Calendar months of the UTC calendar of \<open>JsDate\<close>: months are numbered from year 0 (\<open>12 * year +
  month\<close>), month \<open>M\<close> starts on day \<open>first_of_month M\<close> and has \<open>month_length M\<close> days. The facts the
  month arithmetic of the components rests on: a day is its month and its day of the month, and
  the order of days is the lexicographic order of both.
\<close>

definition month_index :: "int \<Rightarrow> int" where
  "month_index d = 12 * year_from_day d + month_of_day d"

definition first_of_month :: "int \<Rightarrow> int" where
  "first_of_month M = make_day (M div 12) (M mod 12) 1"

definition month_length :: "int \<Rightarrow> int" where
  "month_length M = days_in_month (leap_year (M div 12)) (M mod 12)"

lemma month_length_bounds: "28 \<le> month_length M" "month_length M \<le> 31"
  unfolding month_length_def by (simp_all add: days_in_month_bounds)

lemma make_day_month: "make_day y m n = first_of_month (12 * y + m) + n - 1"
  using make_day_carry [of y m 1] make_day_add [of y m 1 "n - 1"]
  by (simp add: first_of_month_def add.commute)

lemma month_index_div [simp]: "month_index d div 12 = year_from_day d"
  using month_of_day_range [of d] by (simp add: month_index_def)

lemma month_index_mod [simp]: "month_index d mod 12 = month_of_day d"
  using month_of_day_range [of d] by (simp add: month_index_def)

lemma day_in_month: "d = first_of_month (month_index d) + mday_of_day d - 1"
  using make_day_fields [of d "mday_of_day d"] by (simp add: make_day_month month_index_def)

lemma mday_in_month: "1 \<le> mday_of_day d" "mday_of_day d \<le> month_length (month_index d)"
  using mday_of_day_range [of d] by (simp_all add: month_length_def)

lemma days_before_month_length:
  "0 \<le> m \<Longrightarrow> m \<le> 11 \<Longrightarrow> days_before_month l 12 = 365 + leap_add l"
  by (simp add: days_before_month_def)

lemma first_of_month_Suc: "first_of_month (M + 1) = first_of_month M + month_length M"
proof -
  define y m where "y = M div 12" and "m = M mod 12"
  have M: "M = 12 * y + m" and m: "0 \<le> m" "m \<le> 11"
    unfolding y_def m_def by simp_all
  show ?thesis
  proof (cases "m = 11")
    case True
    then have "(M + 1) div 12 = y + 1" "(M + 1) mod 12 = 0"
      using M by simp_all
    then show ?thesis
      using True y_def m_def
      by (simp add: first_of_month_def month_length_def make_day_def days_in_month_def Let_def
          day_from_year_Suc days_before_month_def leap_add_def)
  next
    case False
    with m have lt: "0 \<le> m + 1" "m + 1 < 12" by linarith+
    have "M + 1 = (m + 1) + 12 * y" using M by simp
    then have "(M + 1) div 12 = (m + 1) div 12 + y" "(M + 1) mod 12 = (m + 1) mod 12"
      by (simp_all only: div_mult_self2 mod_mult_self2)
    then have "(M + 1) div 12 = y" "(M + 1) mod 12 = m + 1"
      using div_pos_pos_trivial [OF lt] mod_pos_pos_trivial [OF lt] by simp_all
    then show ?thesis
      using m y_def m_def
      by (simp add: first_of_month_def month_length_def make_day_month_range days_in_month_def)
  qed
qed

lemma first_of_month_less: "M < N \<Longrightarrow> first_of_month M + month_length M \<le> first_of_month N"
proof (induction N rule: int_gr_induct [where k = M])
  case base
  then show ?case by (simp add: first_of_month_Suc)
next
  case (step N)
  then show ?case using first_of_month_Suc [of N] month_length_bounds [of N] by simp
qed

lemma month_fields:
  assumes "1 \<le> n" "n \<le> month_length M"
  shows "month_index (first_of_month M + n - 1) = M" "mday_of_day (first_of_month M + n - 1) = n"
proof -
  have d: "first_of_month M + n - 1 = make_day (M div 12) (M mod 12) n"
    by (simp add: make_day_month)
  have m: "0 \<le> M mod 12" "M mod 12 \<le> 11" by simp_all
  note f = fields_make_day [OF m assms(1), of "M div 12"]
  from assms(2) show "month_index (first_of_month M + n - 1) = M"
    "mday_of_day (first_of_month M + n - 1) = n"
    by (simp_all add: d month_index_def f month_length_def)
qed

lemma day_le_iff:
  "d \<le> e \<longleftrightarrow> month_index d < month_index e
            \<or> month_index d = month_index e \<and> mday_of_day d \<le> mday_of_day e"
proof -
  have less: "d < e" if "month_index d < month_index e" for d e
    using first_of_month_less [OF that] day_in_month [of d] day_in_month [of e]
      mday_in_month [of d] mday_in_month [of e] by linarith
  have same: "d \<le> e \<longleftrightarrow> mday_of_day d \<le> mday_of_day e" if "month_index d = month_index e"
    using day_in_month [of d] day_in_month [of e] arg_cong [OF that, of first_of_month]
    by (intro iffI) linarith+
  show ?thesis
    using less [of d e] less [of e d] same
    by (metis leD linorder_less_linear nless_le)
qed

end
