(* ===== verification/ContractDates.thy ===== *)
theory ContractDates
  imports Months
begin

text \<open>
  Notice, denunciation and renewal dates: \<open>packages/domain/src/contract/dates.ts\<close>. Every function
  works on midnight UTC. A notice is in days or in months (integers); giving both is the only
  error. Years from 0 to 99 are read by \<open>Date.UTC\<close> as 1900 to 1999, so the theorems speak of
  dates in \<open>modern\<close> years.
\<close>

subsection \<open>The code\<close>

record notice =
  n_days :: "int option"
  n_months :: "int option"

datatype notice_error = BothDaysAndMonths

definition DAY_MS :: int where
  "DAY_MS = 86400000"

definition utc_day :: "jsdate \<Rightarrow> jsdate" where
  "utc_day d = date_utc (get_utc_full_year d) (get_utc_month d) (get_utc_date d)"

definition cal_add_days :: "jsdate \<Rightarrow> int \<Rightarrow> jsdate" where
  "cal_add_days d n = utc_day d + n * DAY_MS"

definition add_months_clamped :: "jsdate \<Rightarrow> int \<Rightarrow> jsdate" where
  "add_months_clamped d months =
     (let y = get_utc_full_year d;
          m = get_utc_month d + months;
          target = date_utc y m 1;
          last_day = get_utc_date (date_utc (get_utc_full_year target) (get_utc_month target + 1) 0)
      in date_utc (get_utc_full_year target) (get_utc_month target) (min (get_utc_date d) last_day))"

definition subtract_notice :: "jsdate \<Rightarrow> notice \<Rightarrow> notice_error + jsdate" where
  "subtract_notice date n =
     (if n_days n \<noteq> None \<and> n_months n \<noteq> None then Inl BothDaysAndMonths
      else case n_months n of
        Some m \<Rightarrow> Inr (add_months_clamped (utc_day date) (- m))
      | None \<Rightarrow> (case n_days n of
          Some k \<Rightarrow> Inr (cal_add_days date (- k))
        | None \<Rightarrow> Inr (utc_day date)))"

definition add_notice :: "jsdate \<Rightarrow> notice \<Rightarrow> notice_error + jsdate" where
  "add_notice date n =
     (if n_days n \<noteq> None \<and> n_months n \<noteq> None then Inl BothDaysAndMonths
      else case n_months n of
        Some m \<Rightarrow> Inr (add_months_clamped (utc_day date) m)
      | None \<Rightarrow> (case n_days n of
          Some k \<Rightarrow> Inr (cal_add_days date k)
        | None \<Rightarrow> Inr (utc_day date)))"

definition notice_deadline :: "jsdate \<Rightarrow> notice \<Rightarrow> notice_error + jsdate" where
  "notice_deadline periodEnd n = subtract_notice periodEnd n"

definition next_period_end :: "jsdate \<Rightarrow> int \<Rightarrow> jsdate" where
  "next_period_end currentEnd months =
     (let start = cal_add_days currentEnd 1
      in cal_add_days (add_months_clamped start months) (- 1))"

record termination_input =
  ti_today :: jsdate
  ti_notice :: notice
  ti_periodEnd :: "jsdate option"
  ti_renewalPeriodMonths :: "int option"
  ti_requestedDate :: "jsdate option"

record termination_dates =
  td_effectiveDate :: jsdate
  td_deadlineMissed :: bool

definition compute_termination_effective_date ::
    "termination_input \<Rightarrow> notice_error + termination_dates" where
  "compute_termination_effective_date i =
     (let today = utc_day (ti_today i);
          requested = map_option utc_day (ti_requestedDate i)
      in case ti_periodEnd i of
           None \<Rightarrow> ebind (add_notice today (ti_notice i)) (\<lambda>mn.
             Inr \<lparr>td_effectiveDate = (case requested of Some r \<Rightarrow> if r > mn then r else mn | None \<Rightarrow> mn),
                  td_deadlineMissed = False\<rparr>)
         | Some pe \<Rightarrow>
             (let end_day = utc_day pe
              in ebind (notice_deadline end_day (ti_notice i)) (\<lambda>deadline.
                let missed = today > deadline
                in if \<not> missed \<or> ti_renewalPeriodMonths i = None \<or> ti_renewalPeriodMonths i = Some 0
                   then Inr \<lparr>td_effectiveDate = end_day, td_deadlineMissed = missed\<rparr>
                   else Inr \<lparr>td_effectiveDate =
                               next_period_end end_day (the (ti_renewalPeriodMonths i)),
                             td_deadlineMissed = True\<rparr>)))"

record chatel_window =
  cw_deadline :: jsdate
  cw_earliest :: jsdate
  cw_latest :: jsdate

definition chatel_notice_window :: "jsdate \<Rightarrow> notice \<Rightarrow> notice_error + chatel_window" where
  "chatel_notice_window periodEnd n =
     ebind (notice_deadline periodEnd n) (\<lambda>deadline.
       Inr \<lparr>cw_deadline = deadline,
            cw_earliest = add_months_clamped deadline (- 3),
            cw_latest = add_months_clamped deadline (- 1)\<rparr>)"

subsection \<open>Month arithmetic as a function of days\<close>

definition modern :: "int \<Rightarrow> bool" where
  "modern M \<longleftrightarrow> 1200 \<le> M"

text \<open>Month \<open>M + n\<close> and the same day of the month, or the last day of that month.\<close>

definition shift_months :: "int \<Rightarrow> int \<Rightarrow> int" where
  "shift_months d n =
     first_of_month (month_index d + n) + min (mday_of_day d) (month_length (month_index d + n)) - 1"

lemma DAY_MS_eq: "DAY_MS = ms_per_day"
  by (simp add: DAY_MS_def ms_per_day_def)

lemma date_utc_modern:
  assumes "modern (12 * y + m)" "100 \<le> y"
  shows "date_utc y m n = (first_of_month (12 * y + m) + n - 1) * ms_per_day"
  using assms by (simp add: date_utc_def make_day_month)

lemma modern_div: "modern M \<Longrightarrow> 100 \<le> M div 12"
  by (simp add: modern_def)

lemma modern_year: "modern (month_index d) \<Longrightarrow> 100 \<le> year_from_day d"
  using modern_div [of "month_index d"] by simp

lemma utc_day_modern: "modern (month_index (day d)) \<Longrightarrow> utc_day d = day d * ms_per_day"
  using date_utc_fields [of d 0] modern_year [of "day d"]
  by (simp add: utc_day_def get_utc_full_year_def)

lemma cal_add_days_modern:
  "modern (month_index (day d)) \<Longrightarrow> cal_add_days d n = (day d + n) * ms_per_day"
  by (simp add: cal_add_days_def utc_day_modern DAY_MS_eq distrib_right)

lemma shift_months_fields:
  "month_index (shift_months d n) = month_index d + n"
  "mday_of_day (shift_months d n) = min (mday_of_day d) (month_length (month_index d + n))"
proof -
  have "1 \<le> min (mday_of_day d) (month_length (month_index d + n))"
    using mday_in_month(1) [of d] month_length_bounds(1) [of "month_index d + n"] by simp
  then show "month_index (shift_months d n) = month_index d + n"
    "mday_of_day (shift_months d n) = min (mday_of_day d) (month_length (month_index d + n))"
    unfolding shift_months_def by (simp_all add: month_fields)
qed

lemma shift_months_zero [simp]: "shift_months d 0 = d"
  using day_in_month [of d] mday_in_month(2) [of d] by (simp add: shift_months_def min_def)

lemma shift_months_mono: "d \<le> e \<Longrightarrow> shift_months d n \<le> shift_months e n"
  unfolding day_le_iff [of d e] day_le_iff [of "shift_months d n" "shift_months e n"]
  by (auto simp: shift_months_fields)

lemma shift_months_forward: "0 < n \<Longrightarrow> d < shift_months d n"
  using day_le_iff [of "shift_months d n" d] by (simp add: shift_months_fields)

lemma shift_months_backward: "0 < n \<Longrightarrow> shift_months d (- n) < d"
  using day_le_iff [of d "shift_months d (- n)"] by (simp add: shift_months_fields)

lemma shift_months_later: "m \<le> n \<Longrightarrow> shift_months d m \<le> shift_months d n"
  using day_le_iff [of "shift_months d m" "shift_months d n"]
  by (cases "m = n") (simp_all add: shift_months_fields)

text \<open>Going back \<open>n\<close> months and forth again never passes the start, and loses at most three days.\<close>

lemma shift_months_back:
  "shift_months (shift_months d (- n)) n \<le> d" "d \<le> shift_months (shift_months d (- n)) n + 3"
proof -
  let ?e = "shift_months (shift_months d (- n)) n"
  have e: "month_index ?e = month_index d"
    "mday_of_day ?e = min (min (mday_of_day d) (month_length (month_index d - n))) (month_length (month_index d))"
    by (simp_all add: shift_months_fields)
  have le: "mday_of_day ?e \<le> mday_of_day d" "mday_of_day d \<le> mday_of_day ?e + 3"
    using e(2) mday_in_month [of d] month_length_bounds [of "month_index d"]
      month_length_bounds [of "month_index d - n"] by linarith+
  then show "?e \<le> d" using day_le_iff [of ?e d] e(1) by simp
  show "d \<le> ?e + 3"
    using le(2) day_in_month [of d] day_in_month [of ?e] arg_cong [OF e(1), of first_of_month]
    by linarith
qed

lemma add_months_clamped_modern:
  assumes "modern (month_index (day d))" "modern (month_index (day d) + n)"
  shows "add_months_clamped d n = shift_months (day d) n * ms_per_day"
proof -
  define M where "M = month_index (day d) + n"
  have y: "100 \<le> get_utc_full_year d" "100 \<le> M div 12"
    using modern_year [OF assms(1)] modern_div [OF assms(2)]
    by (simp_all add: get_utc_full_year_def M_def)
  have M: "12 * get_utc_full_year d + (get_utc_month d + n) = M"
    by (simp add: M_def month_index_def get_utc_full_year_def get_utc_month_def)
  have target: "date_utc (get_utc_full_year d) (get_utc_month d + n) 1 = first_of_month M * ms_per_day"
    using date_utc_modern [of "get_utc_full_year d" "get_utc_month d + n" 1] assms(2) y(1) M
    by (simp add: M_def)
  have m1: "month_index (first_of_month M) = M"
    using month_fields(1) [of 1 M] month_length_bounds(1) [of M] by simp
  have "year_from_day (first_of_month M) = month_index (first_of_month M) div 12"
    "month_of_day (first_of_month M) = month_index (first_of_month M) mod 12"
    by simp_all
  with m1 have fields: "get_utc_full_year (first_of_month M * ms_per_day) = M div 12"
    "get_utc_month (first_of_month M * ms_per_day) = M mod 12"
    by (simp_all add: get_utc_full_year_def get_utc_month_def)
  have mod_M: "modern (12 * (M div 12) + M mod 12)" "modern (12 * (M div 12) + (M mod 12 + 1))"
    using assms(2) by (simp_all add: M_def modern_def)
  have last: "get_utc_date (date_utc (M div 12) (M mod 12 + 1) 0) = month_length M"
    using month_fields(2) [of "month_length M" M] month_length_bounds(1) [of M]
      first_of_month_Suc [of M]
    by (simp add: date_utc_modern [OF mod_M(2) y(2)] get_utc_date_def add.assoc [symmetric])
  show ?thesis
    by (simp only: add_months_clamped_def Let_def target fields last date_utc_modern [OF mod_M(1) y(2)])
      (simp add: shift_months_def M_def get_utc_date_def)
qed

text \<open>Dates from 1861 on are more than eighteen centuries of months after year 0, so month shifts of
  realistic length stay in modern years.\<close>

lemma recent_month: "- 40000 \<le> d \<Longrightarrow> 22000 \<le> month_index d"
proof -
  assume "- 40000 \<le> d"
  then have "month_index (- 40000) \<le> month_index d" using day_le_iff [of "- 40000" d] by linarith
  moreover have "22000 \<le> month_index (- 40000)" by code_simp
  ultimately show ?thesis by simp
qed

lemma recent_modern: "- 40000 \<le> d \<Longrightarrow> - 20000 \<le> n \<Longrightarrow> modern (month_index d + n)"
  using recent_month [of d] by (simp add: modern_def)

lemma recent_modern0: "- 40000 \<le> d \<Longrightarrow> modern (month_index d)"
  using recent_modern [of d 0] by simp

lemma day_mono: "0 \<le> d \<Longrightarrow> 0 \<le> day d"
  by (simp add: day_def ms_per_day_def)

lemma utc_day_recent: "- 40000 \<le> day d \<Longrightarrow> utc_day d = day d * ms_per_day"
  by (simp add: utc_day_modern recent_modern0)

lemma cal_add_days_recent: "- 40000 \<le> day d \<Longrightarrow> cal_add_days d n = (day d + n) * ms_per_day"
  by (simp add: cal_add_days_modern recent_modern0)

lemma add_months_recent:
  "- 40000 \<le> day d \<Longrightarrow> - 20000 \<le> n \<Longrightarrow> add_months_clamped d n = shift_months (day d) n * ms_per_day"
  by (simp add: add_months_clamped_modern recent_modern0 recent_modern)

text \<open>Adding calendar months clamps to the end of the month: the result is midnight UTC, exactly
  \<open>n\<close> months later (or earlier), on the same day of the month or on the last day of that month when
  it is shorter; it never overflows into the following month.\<close>

theorem add_months_clamps:
  assumes "0 \<le> d" "- 20000 \<le> n"
  defines "r \<equiv> add_months_clamped d n"
  defines "M \<equiv> 12 * get_utc_full_year d + get_utc_month d + n"
  shows "get_utc_full_year r = M div 12 \<and> get_utc_month r = M mod 12
         \<and> get_utc_date r = min (get_utc_date d) (days_in_month (leap_year (M div 12)) (M mod 12))
         \<and> time_within_day r = 0"
proof -
  have r: "r = shift_months (day d) n * ms_per_day"
    using add_months_recent [of d n] day_mono [OF assms(1)] assms(2) by (simp add: r_def)
  have M: "M = month_index (day d) + n"
    by (simp add: M_def month_index_def get_utc_full_year_def get_utc_month_def)
  have "get_utc_full_year r = month_index (shift_months (day d) n) div 12"
    "get_utc_month r = month_index (shift_months (day d) n) mod 12"
    "get_utc_date r = mday_of_day (shift_months (day d) n)" "time_within_day r = 0"
    unfolding r by (simp_all add: get_utc_full_year_def get_utc_month_def get_utc_date_def)
  then show ?thesis
    by (simp only: shift_months_fields flip: M) (simp add: month_length_def get_utc_date_def)
qed

theorem add_months_clamps_witness:
  "get_utc_date (add_months_clamped (30 * ms_per_day) 1) = 28"
proof -
  have pre: "0 \<le> 30 * ms_per_day" "- 20000 \<le> (1::int)" by (simp_all add: ms_per_day_def)
  show ?thesis
    unfolding add_months_clamps [OF pre, THEN conjunct2, THEN conjunct2, THEN conjunct1]
    by code_simp
qed

subsection \<open>Notice\<close>

definition both_units :: "notice \<Rightarrow> bool" where
  "both_units n \<longleftrightarrow> n_days n \<noteq> None \<and> n_months n \<noteq> None"

text \<open>A notice that moves a date by at most a century.\<close>

definition reasonable :: "notice \<Rightarrow> bool" where
  "reasonable n \<longleftrightarrow>
     (case n_days n of None \<Rightarrow> True | Some k \<Rightarrow> 0 \<le> k \<and> k \<le> 36500)
     \<and> (case n_months n of None \<Rightarrow> True | Some m \<Rightarrow> 0 \<le> m \<and> m \<le> 1200)"

lemma subtract_notice_recent:
  assumes "0 \<le> day d" "reasonable n" "subtract_notice d n = Inr r"
  shows "r = day r * ms_per_day"
    "day r = (case n_months n of Some m \<Rightarrow> shift_months (day d) (- m)
             | None \<Rightarrow> day d - (case n_days n of Some k \<Rightarrow> k | None \<Rightarrow> 0))"
  using assms
  by (auto simp: subtract_notice_def reasonable_def utc_day_recent cal_add_days_recent
      add_months_recent split: option.splits if_splits)

lemma add_notice_recent:
  assumes "0 \<le> day d" "reasonable n" "add_notice d n = Inr r"
  shows "r = day r * ms_per_day"
    "day r = (case n_months n of Some m \<Rightarrow> shift_months (day d) m
             | None \<Rightarrow> day d + (case n_days n of Some k \<Rightarrow> k | None \<Rightarrow> 0))"
  using assms
  by (auto simp: add_notice_def reasonable_def utc_day_recent cal_add_days_recent
      add_months_recent split: option.splits if_splits)

lemma notice_ok_iff:
  "is_ok (subtract_notice d n) \<longleftrightarrow> \<not> both_units n" "is_ok (add_notice d n) \<longleftrightarrow> \<not> both_units n"
  by (auto simp: subtract_notice_def add_notice_def both_units_def split: option.splits)

lemma deadline_before_end:
  assumes "0 \<le> day d" "reasonable n" "subtract_notice d n = Inr r"
  shows "day r \<le> day d"
  using subtract_notice_recent [OF assms] assms(2) shift_months_later [of "- _" 0 "day d"]
  by (auto simp: reasonable_def split: option.splits)

text \<open>The two directions of a notice are adjoint: who denounces at the latest on the deadline has
  left the whole notice before the end.\<close>

lemma notice_adjoint:
  assumes "0 \<le> day t" "0 \<le> day d" "reasonable n"
    and "subtract_notice d n = Inr r" "add_notice t n = Inr s" "day t \<le> day r"
  shows "day s \<le> day d"
proof (cases "n_months n")
  case None
  then show ?thesis
    using subtract_notice_recent(2) [OF assms(2,3,4)] add_notice_recent(2) [OF assms(1,3,5)] assms(6)
    by simp
next
  case (Some m)
  then have "day s = shift_months (day t) m" "day r = shift_months (day d) (- m)"
    using subtract_notice_recent(2) [OF assms(2,3,4)] add_notice_recent(2) [OF assms(1,3,5)]
    by simp_all
  then show ?thesis
    using shift_months_mono [OF assms(6), of m] shift_months_back(1) [of "day d" m] by simp
qed

subsection \<open>Termination\<close>

lemma termination_total:
  "is_ok (compute_termination_effective_date i) \<longleftrightarrow> \<not> both_units (ti_notice i)"
  using notice_ok_iff(1) [of "utc_day (the (ti_periodEnd i))" "ti_notice i"]
    notice_ok_iff(2) [of "utc_day (ti_today i)" "ti_notice i"]
  by (cases "ti_periodEnd i"; cases "subtract_notice (utc_day (the (ti_periodEnd i))) (ti_notice i)";
      cases "add_notice (utc_day (ti_today i)) (ti_notice i)")
    (simp_all add: compute_termination_effective_date_def notice_deadline_def Let_def)

lemma day_utc_day: "- 40000 \<le> day d \<Longrightarrow> day (utc_day d) = day d"
  by (simp add: utc_day_recent)

text \<open>C21: The computed termination date leaves the whole notice: whenever the denunciation is not
  late, the effective date is no earlier than today plus the notice, in days or in calendar months,
  for fixed-term and open-ended contracts alike, and for an open-ended contract no earlier than the
  date asked for. A notice in days or in months (not both) always yields a date.\<close>

theorem termination_leaves_the_notice:
  assumes "0 \<le> ti_today i" "reasonable (ti_notice i)"
    and "case ti_periodEnd i of None \<Rightarrow> True | Some e \<Rightarrow> 0 \<le> e"
    and "\<not> both_units (ti_notice i)"
  shows "\<exists>t s. compute_termination_effective_date i = Inr t
          \<and> add_notice (ti_today i) (ti_notice i) = Inr s
          \<and> (\<not> td_deadlineMissed t \<longrightarrow> s \<le> td_effectiveDate t)
          \<and> (case (ti_periodEnd i, ti_requestedDate i) of
               (None, Some r) \<Rightarrow> utc_day r \<le> td_effectiveDate t | _ \<Rightarrow> True)"
proof -
  let ?n = "ti_notice i" and ?today = "ti_today i"
  obtain t where t: "compute_termination_effective_date i = Inr t"
    using termination_total [of i] assms(4) by (auto simp: is_ok_iff)
  obtain s where s: "add_notice ?today ?n = Inr s"
    using notice_ok_iff(2) [of ?today ?n] assms(4) by (auto simp: is_ok_iff)
  have day0: "0 \<le> day ?today" using assms(1) by (rule day_mono)
  then have u: "day (utc_day ?today) = day ?today" "utc_day (utc_day ?today) = utc_day ?today"
    by (simp_all add: utc_day_recent)
  then have s': "add_notice (utc_day ?today) ?n = Inr s"
    using s day0
    by (auto simp: add_notice_def cal_add_days_def split: option.splits if_splits)
  show ?thesis
  proof (cases "ti_periodEnd i")
    case None
    then show ?thesis
      using t s s'
      by (auto simp: compute_termination_effective_date_def Let_def split: option.splits)
  next
    case (Some e)
    have e: "0 \<le> day (utc_day e)" "day (utc_day e) = day e" "utc_day e = day e * ms_per_day"
      using day_mono [of e] assms(3) Some by (simp_all add: utc_day_recent)
    obtain r where r: "subtract_notice (utc_day e) ?n = Inr r"
      using notice_ok_iff(1) [of "utc_day e" ?n] assms(4) by (auto simp: is_ok_iff)
    have "s \<le> td_effectiveDate t" if "\<not> td_deadlineMissed t"
    proof -
      from that t Some r have "\<not> r < utc_day ?today" and eff: "td_effectiveDate t = utc_day e"
        by (auto simp: compute_termination_effective_date_def notice_deadline_def Let_def
            split: if_splits)
      moreover have "utc_day ?today = day ?today * ms_per_day"
        using day0 by (simp add: utc_day_recent)
      moreover note subtract_notice_recent(1) [OF e(1) assms(2) r]
      ultimately have "\<not> day r * ms_per_day < day ?today * ms_per_day" by metis
      then have "day ?today \<le> day r" by simp
      then have "day s \<le> day e"
        using notice_adjoint [OF day0 e(1) assms(2) r s] e(2) by simp
      then show ?thesis
        unfolding eff e(3) using add_notice_recent(1) [OF day0 assms(2) s] midnight_le_iff(1) by metis
    qed
    then show ?thesis using t s Some by auto
  qed
qed

definition sample_termination :: termination_input where
  "sample_termination =
     \<lparr>ti_today = 20 * ms_per_day + 3600000, ti_notice = \<lparr>n_days = None, n_months = Some 1\<rparr>,
      ti_periodEnd = Some (364 * ms_per_day), ti_renewalPeriodMonths = Some 12,
      ti_requestedDate = None\<rparr>"

theorem termination_leaves_the_notice_witness:
  "\<exists>t s. compute_termination_effective_date sample_termination = Inr t
     \<and> add_notice (ti_today sample_termination) (ti_notice sample_termination) = Inr s
     \<and> (\<not> td_deadlineMissed t \<longrightarrow> s \<le> td_effectiveDate t)"
proof -
  have "0 \<le> ti_today sample_termination" "reasonable (ti_notice sample_termination)"
    "case ti_periodEnd sample_termination of None \<Rightarrow> True | Some e \<Rightarrow> 0 \<le> e"
    "\<not> both_units (ti_notice sample_termination)"
    by (simp_all add: sample_termination_def reasonable_def both_units_def ms_per_day_def)
  from termination_leaves_the_notice [OF this] show ?thesis by blast
qed

subsection \<open>Periods\<close>

definition month_end :: "int \<Rightarrow> jsdate" where
  "month_end M = (first_of_month (M + 1) - 1) * ms_per_day"

lemma day_month_end: "day (month_end M) = first_of_month M + month_length M - 1"
  by (simp add: month_end_def first_of_month_Suc)

lemma month_end_index: "month_index (day (month_end M)) = M"
  using month_fields(1) [of "month_length M" M] month_length_bounds(1) [of M]
  by (simp add: day_month_end)

lemma first_of_month_index: "month_index (first_of_month M) = M" "mday_of_day (first_of_month M) = 1"
  using month_fields [of 1 M] month_length_bounds(1) [of M] by simp_all

lemma next_period_end_month_end:
  assumes "modern M" "modern (M + n)" "modern (M + 1 + n)"
  shows "next_period_end (month_end M) n = month_end (M + n)"
proof -
  have a: "cal_add_days (month_end M) 1 = first_of_month (M + 1) * ms_per_day"
    using assms(1) month_end_index [of M]
    by (simp add: cal_add_days_modern) (simp add: month_end_def)
  have b: "add_months_clamped (first_of_month (M + 1) * ms_per_day) n
           = first_of_month (M + 1 + n) * ms_per_day"
    using assms month_length_bounds(1) [of "M + 1 + n"]
    by (simp add: add_months_clamped_modern first_of_month_index modern_def shift_months_def min_def)
  have c: "M + 1 + n = M + n + 1" by simp
  have "next_period_end (month_end M) n
        = cal_add_days (first_of_month (M + 1 + n) * ms_per_day) (- 1)"
    by (simp add: next_period_end_def a b)
  also have "\<dots> = month_end (M + n)"
    using assms(3) by (simp add: cal_add_days_modern first_of_month_index month_end_def c)
  finally show ?thesis .
qed

text \<open>\<open>k\<close> tacit renewals of \<open>n\<close> months, as the daily job chains them.\<close>

fun renewed_end :: "jsdate \<Rightarrow> int \<Rightarrow> nat \<Rightarrow> jsdate" where
  "renewed_end e n 0 = e"
| "renewed_end e n (Suc k) = renewed_end (next_period_end e n) n k"

text \<open>Tacit renewals keep the calendar: after \<open>k\<close> renewals of \<open>n\<close> months, a term on the last
  day of a month is the last day of the month \<open>k * n\<close> months later. Renewals add up and no term ever
  drifts, February and leap years included (31/12 + 12 months is 31/12; 30/06 + 6 months is 31/12).\<close>

theorem renewals_do_not_drift:
  assumes "22000 \<le> M" "0 \<le> n"
  shows "renewed_end (month_end M) n k = month_end (M + int k * n)"
  using assms(1)
proof (induction k arbitrary: M)
  case (Suc k)
  then have "renewed_end (month_end M) n (Suc k) = renewed_end (month_end (M + n)) n k"
    using assms(2) by (simp add: next_period_end_month_end modern_def)
  also have "\<dots> = month_end (M + n + int k * n)"
    using Suc assms(2) by simp
  finally show ?case by (simp add: distrib_right add.assoc)
qed simp

theorem renewals_do_not_drift_witness:
  "renewed_end (month_end 24185) 6 3 = month_end 24203"
  using renewals_do_not_drift [of 24185 6 3] by simp

lemma deadline_recent:
  assumes "0 \<le> day d" "reasonable n" "subtract_notice d n = Inr r"
  shows "- 36600 \<le> day r"
proof (cases "n_months n")
  case None
  then show ?thesis
    using subtract_notice_recent(2) [OF assms] assms
    by (auto simp: reasonable_def split: option.splits)
next
  case (Some m)
  then have "m \<le> 1200" using assms(2) by (simp add: reasonable_def)
  then have "shift_months (day d) (- 1200) \<le> day r"
    using Some subtract_notice_recent(2) [OF assms] shift_months_later [of "- 1200" "- m" "day d"]
    by simp
  moreover have "shift_months 0 (- 1200) \<le> shift_months (day d) (- 1200)"
    using assms(1) by (rule shift_months_mono)
  moreover have "- 36600 \<le> shift_months 0 (- 1200)" by code_simp
  ultimately show ?thesis by linarith
qed

lemma three_months_before_recent: "- 36600 \<le> x \<Longrightarrow> - 40000 \<le> shift_months x (- 3)"
proof -
  assume "- 36600 \<le> x"
  moreover have "- 40000 \<le> shift_months (- 36600) (- 3)" by code_simp
  ultimately show ?thesis using shift_months_mono [of "- 36600" x "- 3"] by linarith
qed

text \<open>Chatel notice: the window in which the consumer must be informed lies before the deadline
  for denouncing, which lies in the period: it opens three calendar months before the deadline and
  closes one calendar month before it (counting back from a shorter month, at most three days
  more).\<close>

theorem chatel_window_ordered:
  assumes "0 \<le> d" "reasonable n" "chatel_notice_window d n = Inr w"
  shows "cw_earliest w < cw_latest w \<and> cw_latest w < cw_deadline w \<and> day (cw_deadline w) \<le> day d
         \<and> (\<forall>(start, m) \<in> {(cw_latest w, 1), (cw_earliest w, 3)}.
              let forth = add_months_clamped start m
              in forth \<le> cw_deadline w \<and> day (cw_deadline w) \<le> day forth + 3)"
proof -
  obtain r where r: "subtract_notice d n = Inr r" and
    w: "w = \<lparr>cw_deadline = r, cw_earliest = add_months_clamped r (- 3),
            cw_latest = add_months_clamped r (- 1)\<rparr>"
    using assms(3) by (auto simp: chatel_notice_window_def notice_deadline_def ebind_Inr_iff)
  have d: "0 \<le> day d" using assms(1) by (rule day_mono)
  define x where "x = day r"
  have x: "- 36600 \<le> x" "- 40000 \<le> shift_months x (- 3)"
    using deadline_recent [OF d assms(2) r] three_months_before_recent [of x] by (simp_all add: x_def)
  have lt: "shift_months x (- 3) < shift_months x (- 1)" "shift_months x (- 1) < x"
    using day_le_iff [of "shift_months x (- 1)" "shift_months x (- 3)"]
      shift_months_backward [of 1 x] by (simp_all add: shift_months_fields)
  have w': "cw_deadline w = x * ms_per_day" "cw_earliest w = shift_months x (- 3) * ms_per_day"
    "cw_latest w = shift_months x (- 1) * ms_per_day"
    using subtract_notice_recent(1) [OF d assms(2) r] x by (simp_all add: w x_def add_months_recent)
  have forth: "add_months_clamped (cw_latest w) 1 = shift_months (shift_months x (- 1)) 1 * ms_per_day"
    "add_months_clamped (cw_earliest w) 3 = shift_months (shift_months x (- 3)) 3 * ms_per_day"
    using x lt by (simp_all add: w' add_months_recent)
  show ?thesis
    using lt shift_months_back [of x 1] shift_months_back [of x 3] deadline_before_end [OF d assms(2) r]
    by (simp add: forth Let_def) (simp add: w' x_def)
qed

theorem chatel_window_ordered_witness:
  "\<exists>w. chatel_notice_window (364 * ms_per_day) \<lparr>n_days = Some 60, n_months = None\<rparr> = Inr w
       \<and> cw_earliest w < cw_latest w"
proof -
  have "\<exists>w. chatel_notice_window (364 * ms_per_day) \<lparr>n_days = Some 60, n_months = None\<rparr> = Inr w"
    by (simp add: chatel_notice_window_def notice_deadline_def subtract_notice_def)
  then show ?thesis
    using chatel_window_ordered [of "364 * ms_per_day" "\<lparr>n_days = Some 60, n_months = None\<rparr>"]
    by (force simp: reasonable_def ms_per_day_def)
qed

end
