(* ===== verification/Deadlines.thy ===== *)
theory Deadlines
  imports ContractMachine ContractDates
begin

text \<open>
  The deadlines a contract gives rise to: \<open>packages/domain/src/contract/deadlines.ts\<close>. The details
  of a deadline are the display dates of the source, an association list of ISO dates.
\<close>

datatype deadline_kind =
  PERIOD_END | NOTICE_DEADLINE | PRICE_REVISION | RENEWAL_DECISION | CHATEL_NOTICE
  | TERMINATION_EFFECTIVE

datatype renewal_mode = NO_RENEWAL | TACIT | EXPRESS

record deadline_facts =
  df_status :: contract_status
  df_startDate :: "jsdate option"
  df_endDate :: "jsdate option"
  df_notice :: notice
  df_renewalMode :: renewal_mode
  df_renewalPeriodMonths :: "int option"
  df_chatelApplies :: bool
  df_terminationEffectiveDate :: "jsdate option"
  df_nextPriceRevisionDate :: "jsdate option"

record computed_deadline =
  cd_kind :: deadline_kind
  cd_dueDate :: jsdate
  cd_details :: "(string \<times> string) list"

definition ENGAGED :: "contract_status list" where
  "ENGAGED = [SIGNED, ACTIVE, RENEWAL_DUE, TERMINATION_PENDING]"

definition chatel_deadlines ::
    "deadline_facts \<Rightarrow> jsdate \<Rightarrow> notice_error + computed_deadline list" where
  "chatel_deadlines f endDate =
     (if df_renewalMode f = TACIT \<and> df_chatelApplies f
      then ebind (chatel_notice_window endDate (df_notice f)) (\<lambda>w.
        Inr [\<lparr>cd_kind = CHATEL_NOTICE, cd_dueDate = cw_earliest w,
              cd_details = [(''latest'', iso_date (cw_latest w)),
                            (''noticeDeadline'', iso_date (cw_deadline w)),
                            (''periodEnd'', iso_date endDate)]\<rparr>])
      else Inr [])"

definition period_deadlines ::
    "deadline_facts \<Rightarrow> jsdate \<Rightarrow> notice_error + computed_deadline list" where
  "period_deadlines f endDate =
     ebind (notice_deadline endDate (df_notice f)) (\<lambda>deadline.
       let period = \<lparr>cd_kind = PERIOD_END, cd_dueDate = endDate, cd_details = []\<rparr>
       in if df_status f \<noteq> TERMINATION_PENDING
          then ebind (chatel_deadlines f endDate) (\<lambda>chatel.
            Inr (period
              # \<lparr>cd_kind = NOTICE_DEADLINE, cd_dueDate = deadline,
                 cd_details = [(''periodEnd'', iso_date endDate)]\<rparr>
              # (if df_renewalMode f = EXPRESS
                 then [\<lparr>cd_kind = RENEWAL_DECISION, cd_dueDate = deadline,
                        cd_details = [(''periodEnd'', iso_date endDate)]\<rparr>]
                 else []) @ chatel))
          else Inr [period])"

definition compute_deadlines ::
    "deadline_facts \<Rightarrow> jsdate \<Rightarrow> notice_error + computed_deadline list" where
  "compute_deadlines f now =
     (if df_status f \<notin> set ENGAGED then Inr []
      else
        let termination =
              (case df_terminationEffectiveDate f of
                 Some d \<Rightarrow>
                   if df_status f = TERMINATION_PENDING
                   then [\<lparr>cd_kind = TERMINATION_EFFECTIVE, cd_dueDate = d, cd_details = []\<rparr>] else []
               | None \<Rightarrow> []);
            revision =
              (case df_nextPriceRevisionDate f of
                 Some d \<Rightarrow> [\<lparr>cd_kind = PRICE_REVISION, cd_dueDate = d, cd_details = []\<rparr>]
               | None \<Rightarrow> [])
        in case df_endDate f of
             None \<Rightarrow> Inr (termination @ revision)
           | Some endDate \<Rightarrow> ebind (period_deadlines f endDate) (\<lambda>period.
               Inr (termination @ period @ revision)))"

subsection \<open>Correctness\<close>

lemma chatel_deadlines_kinds:
  "chatel_deadlines f e = Inr ds \<Longrightarrow>
   map cd_kind ds = (if df_renewalMode f = TACIT \<and> df_chatelApplies f then [CHATEL_NOTICE] else [])"
  by (auto simp: chatel_deadlines_def ebind_Inr_iff split: if_splits)

lemma period_deadlines_kinds:
  "period_deadlines f e = Inr ds \<Longrightarrow>
   map cd_kind ds =
     PERIOD_END # (if df_status f = TERMINATION_PENDING then []
                   else NOTICE_DEADLINE
                     # (if df_renewalMode f = EXPRESS then [RENEWAL_DECISION] else [])
                     @ (if df_renewalMode f = TACIT \<and> df_chatelApplies f then [CHATEL_NOTICE] else []))"
  by (auto simp: period_deadlines_def ebind_Inr_iff Let_def dest!: chatel_deadlines_kinds
      split: if_splits)

text \<open>The schedule of a contract is decided by its status: no deadline at all unless the contract
  engages the parties, exactly one effective date while a termination is pending and then no
  denunciation or renewal deadline, and never two deadlines of the same kind (the daily job
  identifies a deadline by its kind).\<close>

theorem deadlines_by_status:
  assumes "compute_deadlines f now = Inr ds"
  shows "(df_status f \<notin> {SIGNED, ACTIVE, RENEWAL_DUE, TERMINATION_PENDING} \<longrightarrow> ds = [])
         \<and> (df_status f = TERMINATION_PENDING \<longrightarrow>
              set (map cd_kind ds) \<subseteq> {TERMINATION_EFFECTIVE, PERIOD_END, PRICE_REVISION})
         \<and> distinct (map cd_kind ds)"
  using assms
  by (auto simp: compute_deadlines_def ENGAGED_def ebind_Inr_iff Let_def
      dest!: period_deadlines_kinds split: option.splits if_splits)

definition sample_facts :: "contract_status \<Rightarrow> deadline_facts" where
  "sample_facts s =
     \<lparr>df_status = s, df_startDate = Some 0, df_endDate = Some (364 * ms_per_day),
      df_notice = \<lparr>n_days = None, n_months = Some 3\<rparr>, df_renewalMode = TACIT,
      df_renewalPeriodMonths = Some 12, df_chatelApplies = True,
      df_terminationEffectiveDate = None, df_nextPriceRevisionDate = None\<rparr>"

lemma sample_deadlines: "is_ok (compute_deadlines (sample_facts ACTIVE) 0)"
  by (simp add: compute_deadlines_def sample_facts_def ENGAGED_def period_deadlines_def
      notice_deadline_def subtract_notice_def chatel_deadlines_def chatel_notice_window_def)

theorem deadlines_by_status_witness:
  "\<exists>ds. compute_deadlines (sample_facts ACTIVE) 0 = Inr ds \<and> distinct (map cd_kind ds)"
  using sample_deadlines deadlines_by_status [of "sample_facts ACTIVE" 0] by (auto simp: is_ok_iff)

lemma chatel_deadlines_due:
  assumes "chatel_deadlines f e = Inr ds" "d \<in> set ds"
  shows "\<exists>w. chatel_notice_window e (df_notice f) = Inr w \<and> cd_dueDate d = cw_earliest w
             \<and> cd_kind d = CHATEL_NOTICE"
  using assms by (auto simp: chatel_deadlines_def ebind_Inr_iff split: if_splits)

lemma period_deadlines_due:
  assumes "period_deadlines f e = Inr ds" "d \<in> set ds" "0 \<le> e" "reasonable (df_notice f)"
    and r: "notice_deadline e (df_notice f) = Inr r"
  shows "case cd_kind d of PERIOD_END \<Rightarrow> cd_dueDate d = e
         | NOTICE_DEADLINE \<Rightarrow> cd_dueDate d = r | RENEWAL_DECISION \<Rightarrow> cd_dueDate d = r
         | CHATEL_NOTICE \<Rightarrow> cd_dueDate d < r | _ \<Rightarrow> False"
proof -
  have "cw_deadline w = r \<and> cw_earliest w < r" if "chatel_notice_window e (df_notice f) = Inr w" for w
    using chatel_window_ordered [OF assms(3,4) that] that r
    by (auto simp: chatel_notice_window_def ebind_Inr_iff)
  then show ?thesis
    using assms(1,2) r
    by (auto simp: period_deadlines_def ebind_Inr_iff Let_def dest!: chatel_deadlines_due
        split: if_splits)
qed

text \<open>The deadlines come in their legal order: the deadline for denouncing (and the renewal
  decision, on the same day) is no later than the end of the period, and the Chatel information
  falls due strictly before it.\<close>

theorem deadlines_in_legal_order:
  assumes "compute_deadlines f now = Inr ds" "df_endDate f = Some e" "0 \<le> e" "reasonable (df_notice f)"
    and "notice_deadline e (df_notice f) = Inr r"
  shows "day r \<le> day e
         \<and> list_all (\<lambda>d. case cd_kind d of PERIOD_END \<Rightarrow> cd_dueDate d = e
              | NOTICE_DEADLINE \<Rightarrow> cd_dueDate d = r | RENEWAL_DECISION \<Rightarrow> cd_dueDate d = r
              | CHATEL_NOTICE \<Rightarrow> cd_dueDate d < r | _ \<Rightarrow> True) ds"
proof -
  have "day r \<le> day e"
    using deadline_before_end [OF day_mono [OF assms(3)] assms(4)] assms(5)
    by (simp add: notice_deadline_def)
  moreover have "case cd_kind d of PERIOD_END \<Rightarrow> cd_dueDate d = e
              | NOTICE_DEADLINE \<Rightarrow> cd_dueDate d = r | RENEWAL_DECISION \<Rightarrow> cd_dueDate d = r
              | CHATEL_NOTICE \<Rightarrow> cd_dueDate d < r | _ \<Rightarrow> True" if "d \<in> set ds" for d
    using assms(1,2) that period_deadlines_due [OF _ _ assms(3,4,5), of _ d]
    by (fastforce simp: compute_deadlines_def ebind_Inr_iff Let_def
        split: if_splits option.splits deadline_kind.splits)
  ultimately show ?thesis by (simp add: list_all_iff)
qed

theorem deadlines_in_legal_order_witness:
  "\<exists>r. notice_deadline (364 * ms_per_day) \<lparr>n_days = None, n_months = Some 3\<rparr> = Inr r
       \<and> day r \<le> day (364 * ms_per_day)"
proof -
  obtain ds where "compute_deadlines (sample_facts ACTIVE) 0 = Inr ds"
    using sample_deadlines by (auto simp: is_ok_iff)
  moreover obtain r where "notice_deadline (364 * ms_per_day) (df_notice (sample_facts ACTIVE)) = Inr r"
    by (simp add: notice_deadline_def subtract_notice_def sample_facts_def)
  ultimately show ?thesis
    using deadlines_in_legal_order [of "sample_facts ACTIVE" 0 ds "364 * ms_per_day" r]
    by (simp add: sample_facts_def reasonable_def ms_per_day_def)
qed

end
