(* ===== verification/Reminders.thy ===== *)
theory Reminders
  imports JsDate
begin

text \<open>
  Planning of the expiry reminders: \<open>packages/domain/src/reminder/planning.ts\<close>. The plan is a list
  of rows to insert; the table has the key (contract, kind, offset, cycle).
\<close>

datatype reminder_kind = EXPIRY | NOTICE_DEADLINE_REMINDER

datatype reminder_status = RS_PENDING | RS_SENT | RS_SKIPPED_OBSOLETE | RS_CANCELLED | RS_FAILED

definition EXPIRY_OFFSETS :: "int list" where
  "EXPIRY_OFFSETS = [90, 60, 30]"

record reminder_plan_input =
  rp_endDate :: "jsdate option"
  rp_noticePeriodDays :: "int option"
  rp_reminderCycle :: int

record reminder_draft =
  rd_kind :: reminder_kind
  rd_offsetDays :: int
  rd_cycle :: int
  rd_dueAt :: jsdate
  rd_status :: reminder_status

definition sub_days :: "jsdate \<Rightarrow> int \<Rightarrow> jsdate" where
  "sub_days d n = set_utc_date d (get_utc_date d - n)"

definition plan_reminders :: "reminder_plan_input \<Rightarrow> jsdate \<Rightarrow> reminder_draft list" where
  "plan_reminders c now =
     (case rp_endDate c of
        None \<Rightarrow>
          (case rp_noticePeriodDays c of
             None \<Rightarrow> []
           | Some n \<Rightarrow>
               if n = 0 then []
               else [\<lparr>rd_kind = NOTICE_DEADLINE_REMINDER, rd_offsetDays = n,
                      rd_cycle = rp_reminderCycle c, rd_dueAt = sub_days now (- n),
                      rd_status = RS_PENDING\<rparr>])
      | Some endDate \<Rightarrow>
          map (\<lambda>offsetDays.
            let dueAt = sub_days endDate offsetDays
            in \<lparr>rd_kind = EXPIRY, rd_offsetDays = offsetDays, rd_cycle = rp_reminderCycle c,
                rd_dueAt = dueAt,
                rd_status = (if dueAt \<le> now then RS_SKIPPED_OBSOLETE else RS_PENDING)\<rparr>)
            EXPIRY_OFFSETS)"

record replan_result =
  rr_newCycle :: int
  rr_cancelPreviousCycle :: int
  rr_reminders :: "reminder_draft list"

definition replan_after_end_date_change :: "reminder_plan_input \<Rightarrow> jsdate \<Rightarrow> replan_result" where
  "replan_after_end_date_change c now =
     (let newCycle = rp_reminderCycle c + 1
      in \<lparr>rr_newCycle = newCycle, rr_cancelPreviousCycle = rp_reminderCycle c,
          rr_reminders = plan_reminders (c\<lparr>rp_reminderCycle := newCycle\<rparr>) now\<rparr>)"

subsection \<open>Correctness\<close>

lemma sub_days_shift: "sub_days d n = d - n * ms_per_day"
  using set_utc_date_shift [of d "- n"] by (simp add: sub_days_def)

definition reminder_key :: "reminder_draft \<Rightarrow> reminder_kind \<times> int \<times> int" where
  "reminder_key r = (rd_kind r, rd_offsetDays r, rd_cycle r)"

lemma plan_cycle: "r \<in> set (plan_reminders c now) \<Longrightarrow> rd_cycle r = rp_reminderCycle c"
  by (auto simp: plan_reminders_def Let_def split: option.splits if_splits)

text \<open>RM-25, RM-27: a contract with an end date always gets its three reminders, 90, 60 and 30
  days (of 24 hours) before the end, even when the date has passed: a reminder is pending exactly
  when its date is still ahead and skipped otherwise, so no reminder silently fails to exist; a
  contract without an end date is reminded of its notice only.\<close>

theorem reminders_complete:
  "map rd_dueAt (plan_reminders c now) =
     (case rp_endDate c of
        Some e \<Rightarrow> [e - 90 * ms_per_day, e - 60 * ms_per_day, e - 30 * ms_per_day]
      | None \<Rightarrow> (case rp_noticePeriodDays c of
           None \<Rightarrow> [] | Some n \<Rightarrow> if n = 0 then [] else [now + n * ms_per_day]))
   \<and> list_all (\<lambda>r. rd_status r = (if now < rd_dueAt r then RS_PENDING else RS_SKIPPED_OBSOLETE))
        (filter (\<lambda>r. rd_kind r = EXPIRY) (plan_reminders c now))"
  by (auto simp: plan_reminders_def EXPIRY_OFFSETS_def sub_days_shift Let_def list_all_iff
      split: option.splits)

text \<open>EC-12: replanning after the end date moved never collides with the plan of the cycle it replaces:
  the keys (kind, offset, cycle) of a plan are pairwise distinct, those of the new plan are disjoint
  from those of any plan of the previous cycle, and it is the previous cycle that is cancelled.\<close>

theorem replan_keys_fresh:
  "distinct (map reminder_key (rr_reminders (replan_after_end_date_change c now)))
   \<and> set (map reminder_key (plan_reminders (old\<lparr>rp_reminderCycle := rp_reminderCycle c\<rparr>) before))
       \<inter> set (map reminder_key (rr_reminders (replan_after_end_date_change c now))) = {}
   \<and> rr_cancelPreviousCycle (replan_after_end_date_change c now) = rp_reminderCycle c
   \<and> rr_newCycle (replan_after_end_date_change c now) = rp_reminderCycle c + 1"
proof -
  have "distinct (map reminder_key (plan_reminders d now))" for d
    by (auto simp: plan_reminders_def EXPIRY_OFFSETS_def reminder_key_def Let_def split: option.splits)
  then show ?thesis
    by (auto simp: replan_after_end_date_change_def Let_def reminder_key_def dest!: plan_cycle)
qed

end
