(* ===== verification/ProposalMachine.thy ===== *)
theory ProposalMachine
  imports Machine JsDate
begin

text \<open>
  The lifecycle of a commercial proposal: \<open>packages/domain/src/proposal/proposal.types.ts\<close> and
  \<open>packages/domain/src/proposal/state-machine.ts\<close>. Statuses carry the prefix \<open>P_\<close>, event types
  \<open>PT_\<close>, events \<open>PE_\<close>; the rest is as in the contract machine.
\<close>

subsection \<open>Data\<close>

datatype proposal_status =
    P_DRAFT | P_IN_INTERNAL_REVIEW | P_READY | P_SENT | P_VIEWED | P_IN_DISCUSSION | P_ACCEPTED
  | P_PENDING_SIGNATURE | P_SIGNED | P_CONVERTED | P_EXPIRED | P_DECLINED | P_WITHDRAWN

datatype acceptance_mode = DOCUSEAL_SIGNATURE | CLICK_ACCEPT

datatype proposal_event_type =
    PT_SUBMIT_FOR_REVIEW | PT_APPROVE_REVIEW | PT_REJECT_REVIEW | PT_MARK_READY | PT_SEND | PT_VIEW
  | PT_OPEN_DISCUSSION | PT_CLOSE_DISCUSSION | PT_ACCEPT | PT_START_SIGNATURE
  | PT_COMPLETE_CLICK_ACCEPT | PT_SIGNATURE_COMPLETED | PT_SIGNATURE_DECLINED
  | PT_SIGNATURE_EXPIRED | PT_CONVERT | PT_EXPIRE | PT_DECLINE | PT_WITHDRAW | PT_REACTIVATE
  | PT_REVISE

datatype proposal_event =
    PE_SUBMIT_FOR_REVIEW string
  | PE_APPROVE_REVIEW string
  | PE_REJECT_REVIEW string string
  | PE_MARK_READY string
  | PE_SEND jsdate
  | PE_VIEW
  | PE_OPEN_DISCUSSION
  | PE_CLOSE_DISCUSSION
  | PE_ACCEPT string
  | PE_START_SIGNATURE
  | PE_COMPLETE_CLICK_ACCEPT
  | PE_SIGNATURE_COMPLETED
  | PE_SIGNATURE_DECLINED string
  | PE_SIGNATURE_EXPIRED
  | PE_CONVERT string
  | PE_EXPIRE
  | PE_DECLINE string string
  | PE_WITHDRAW string
  | PE_REACTIVATE jsdate string
  | PE_REVISE string

fun pe_type :: "proposal_event \<Rightarrow> proposal_event_type" where
  "pe_type (PE_SUBMIT_FOR_REVIEW _) = PT_SUBMIT_FOR_REVIEW"
| "pe_type (PE_APPROVE_REVIEW _) = PT_APPROVE_REVIEW"
| "pe_type (PE_REJECT_REVIEW _ _) = PT_REJECT_REVIEW"
| "pe_type (PE_MARK_READY _) = PT_MARK_READY"
| "pe_type (PE_SEND _) = PT_SEND"
| "pe_type PE_VIEW = PT_VIEW"
| "pe_type PE_OPEN_DISCUSSION = PT_OPEN_DISCUSSION"
| "pe_type PE_CLOSE_DISCUSSION = PT_CLOSE_DISCUSSION"
| "pe_type (PE_ACCEPT _) = PT_ACCEPT"
| "pe_type PE_START_SIGNATURE = PT_START_SIGNATURE"
| "pe_type PE_COMPLETE_CLICK_ACCEPT = PT_COMPLETE_CLICK_ACCEPT"
| "pe_type PE_SIGNATURE_COMPLETED = PT_SIGNATURE_COMPLETED"
| "pe_type (PE_SIGNATURE_DECLINED _) = PT_SIGNATURE_DECLINED"
| "pe_type PE_SIGNATURE_EXPIRED = PT_SIGNATURE_EXPIRED"
| "pe_type (PE_CONVERT _) = PT_CONVERT"
| "pe_type PE_EXPIRE = PT_EXPIRE"
| "pe_type (PE_DECLINE _ _) = PT_DECLINE"
| "pe_type (PE_WITHDRAW _) = PT_WITHDRAW"
| "pe_type (PE_REACTIVATE _ _) = PT_REACTIVATE"
| "pe_type (PE_REVISE _) = PT_REVISE"

record proposal_snapshot =
  ps_id :: string
  ps_status :: proposal_status
  ps_currentVersionId :: "string option"
  ps_acceptanceMode :: acceptance_mode
  ps_expiresAt :: "jsdate option"
  ps_reviewRequired :: bool
  ps_reviewSubmittedByUserId :: "string option"
  ps_reviewApprovedVersionId :: "string option"
  ps_acceptedVersionId :: "string option"
  ps_hasRecipients :: bool
  ps_hasSigner :: bool
  ps_unresolvedMergeTags :: nat
  ps_blockingValidations :: nat
  ps_pricingErrors :: nat

datatype proposal_error =
    ProposalTransitionError proposal_status proposal_event_type "proposal_event_type list"
  | ProposalRuleError string

definition PROPOSAL_TERMINAL_STATUSES :: "proposal_status list" where
  "PROPOSAL_TERMINAL_STATUSES = [P_CONVERTED, P_DECLINED, P_WITHDRAWN]"

definition is_proposal_terminal :: "proposal_status \<Rightarrow> bool" where
  "is_proposal_terminal s = (s \<in> set PROPOSAL_TERMINAL_STATUSES)"

definition OPEN :: "proposal_event_type list" where
  "OPEN = [PT_EXPIRE, PT_DECLINE, PT_WITHDRAW, PT_REVISE]"

fun PROPOSAL_TRANSITIONS :: "proposal_status \<Rightarrow> proposal_event_type list" where
  "PROPOSAL_TRANSITIONS P_DRAFT = [PT_SUBMIT_FOR_REVIEW, PT_MARK_READY]"
| "PROPOSAL_TRANSITIONS P_IN_INTERNAL_REVIEW = [PT_APPROVE_REVIEW, PT_REJECT_REVIEW]"
| "PROPOSAL_TRANSITIONS P_READY = [PT_SEND, PT_REVISE]"
| "PROPOSAL_TRANSITIONS P_SENT = PT_VIEW # OPEN"
| "PROPOSAL_TRANSITIONS P_VIEWED = [PT_OPEN_DISCUSSION, PT_ACCEPT] @ OPEN"
| "PROPOSAL_TRANSITIONS P_IN_DISCUSSION = [PT_CLOSE_DISCUSSION, PT_ACCEPT] @ OPEN"
| "PROPOSAL_TRANSITIONS P_ACCEPTED = [PT_START_SIGNATURE, PT_COMPLETE_CLICK_ACCEPT, PT_REVISE]"
| "PROPOSAL_TRANSITIONS P_PENDING_SIGNATURE =
     [PT_SIGNATURE_COMPLETED, PT_SIGNATURE_DECLINED, PT_SIGNATURE_EXPIRED]"
| "PROPOSAL_TRANSITIONS P_SIGNED = [PT_CONVERT]"
| "PROPOSAL_TRANSITIONS P_EXPIRED = [PT_REACTIVATE]"
| "PROPOSAL_TRANSITIONS P_CONVERTED = []"
| "PROPOSAL_TRANSITIONS P_DECLINED = []"
| "PROPOSAL_TRANSITIONS P_WITHDRAWN = []"

subsection \<open>Guards\<close>

definition is_expired_at :: "proposal_snapshot \<Rightarrow> jsdate \<Rightarrow> bool" where
  "is_expired_at p now = (case ps_expiresAt p of None \<Rightarrow> False | Some e \<Rightarrow> e \<le> now)"

definition readiness_issue :: "proposal_snapshot \<Rightarrow> proposal_error option" where
  "readiness_issue p =
     (if js_falsy (ps_currentVersionId p) then Some (ProposalRuleError ''P-CONTENT'')
      else if \<not> ps_hasRecipients p then Some (ProposalRuleError ''P-RECIPIENTS'')
      else if \<not> ps_hasSigner p then Some (ProposalRuleError ''P-RECIPIENTS'')
      else if ps_unresolvedMergeTags p > 0 then Some (ProposalRuleError ''P-MERGE-TAGS'')
      else if ps_blockingValidations p > 0 then Some (ProposalRuleError ''P-TO-VALIDATE'')
      else if ps_pricingErrors p > 0 then Some (ProposalRuleError ''P-PRICING'')
      else None)"

definition proposal_event_possible ::
    "proposal_snapshot \<Rightarrow> jsdate \<Rightarrow> proposal_event_type \<Rightarrow> bool" where
  "proposal_event_possible p now e =
     (case e of
        PT_SUBMIT_FOR_REVIEW \<Rightarrow> readiness_issue p = None
      | PT_MARK_READY \<Rightarrow> readiness_issue p = None \<and> \<not> ps_reviewRequired p
      | PT_ACCEPT \<Rightarrow> \<not> is_expired_at p now
      | PT_START_SIGNATURE \<Rightarrow> \<not> is_expired_at p now \<and> ps_acceptanceMode p = DOCUSEAL_SIGNATURE
      | PT_COMPLETE_CLICK_ACCEPT \<Rightarrow> ps_acceptanceMode p = CLICK_ACCEPT
      | PT_EXPIRE \<Rightarrow> is_expired_at p now
      | _ \<Rightarrow> True)"

definition allowed_proposal_events :: "proposal_snapshot \<Rightarrow> jsdate \<Rightarrow> proposal_event_type list" where
  "allowed_proposal_events p now =
     filter (proposal_event_possible p now) (PROPOSAL_TRANSITIONS (ps_status p))"

type_synonym proposal_result = "proposal_error + proposal_snapshot"

text \<open>The checks thrown in sequence before the new snapshot is built: \<open>require_text\<close> and the issue
  of \<open>readinessIssue\<close>.\<close>

definition require_text :: "string \<Rightarrow> proposal_error + unit" where
  "require_text value = (if value = [] \<or> js_blank value then Inl (ProposalRuleError ''P-REASON'') else Inr ())"

definition require_ready :: "proposal_snapshot \<Rightarrow> proposal_error + unit" where
  "require_ready p = (case readiness_issue p of Some issue \<Rightarrow> Inl issue | None \<Rightarrow> Inr ())"

subsection \<open>applyProposalEvent\<close>

definition p_submit_for_review :: "proposal_snapshot \<Rightarrow> string \<Rightarrow> proposal_result" where
  "p_submit_for_review p actorUserId =
     ebind (require_ready p) (\<lambda>_.
       Inr (p\<lparr>ps_status := P_IN_INTERNAL_REVIEW, ps_reviewSubmittedByUserId := Some actorUserId,
             ps_reviewApprovedVersionId := None\<rparr>))"

definition p_approve_review :: "proposal_snapshot \<Rightarrow> string \<Rightarrow> proposal_result" where
  "p_approve_review p actorUserId =
     (if ps_reviewSubmittedByUserId p = Some actorUserId
      then Inl (ProposalRuleError ''P-REVIEW-SEPARATION'')
      else ebind (require_ready p) (\<lambda>_.
        Inr (p\<lparr>ps_status := P_READY, ps_reviewApprovedVersionId := ps_currentVersionId p\<rparr>)))"

definition p_reject_review :: "proposal_snapshot \<Rightarrow> string \<Rightarrow> string \<Rightarrow> proposal_result" where
  "p_reject_review p actorUserId reason =
     (if ps_reviewSubmittedByUserId p = Some actorUserId
      then Inl (ProposalRuleError ''P-REVIEW-SEPARATION'')
      else ebind (require_text reason) (\<lambda>_.
        Inr (p\<lparr>ps_status := P_DRAFT, ps_reviewApprovedVersionId := None\<rparr>)))"

definition p_mark_ready :: "proposal_snapshot \<Rightarrow> proposal_result" where
  "p_mark_ready p =
     ebind (require_ready p) (\<lambda>_.
       if ps_reviewRequired p then Inl (ProposalRuleError ''P-REVIEW-REQUIRED'')
       else Inr (p\<lparr>ps_status := P_READY\<rparr>))"

definition p_send :: "proposal_snapshot \<Rightarrow> jsdate \<Rightarrow> jsdate \<Rightarrow> proposal_result" where
  "p_send p expiresAt now =
     (if expiresAt \<le> now then Inl (ProposalRuleError ''P-EXPIRY'')
      else Inr (p\<lparr>ps_status := P_SENT, ps_expiresAt := Some expiresAt, ps_acceptedVersionId := None\<rparr>))"

definition p_accept :: "proposal_snapshot \<Rightarrow> string \<Rightarrow> jsdate \<Rightarrow> proposal_result" where
  "p_accept p versionId now =
     (if Some versionId \<noteq> ps_currentVersionId p then Inl (ProposalRuleError ''P-SUPERSEDED'')
      else if is_expired_at p now then Inl (ProposalRuleError ''P-EXPIRED'')
      else Inr (p\<lparr>ps_status := P_ACCEPTED, ps_acceptedVersionId := Some versionId\<rparr>))"

definition p_start_signature :: "proposal_snapshot \<Rightarrow> jsdate \<Rightarrow> proposal_result" where
  "p_start_signature p now =
     (if ps_acceptanceMode p \<noteq> DOCUSEAL_SIGNATURE then Inl (ProposalRuleError ''P-MODE'')
      else if is_expired_at p now then Inl (ProposalRuleError ''P-EXPIRED'')
      else if ps_acceptedVersionId p \<noteq> ps_currentVersionId p
      then Inl (ProposalRuleError ''P-SUPERSEDED'')
      else Inr (p\<lparr>ps_status := P_PENDING_SIGNATURE\<rparr>))"

definition p_complete_click_accept :: "proposal_snapshot \<Rightarrow> proposal_result" where
  "p_complete_click_accept p =
     (if ps_acceptanceMode p \<noteq> CLICK_ACCEPT then Inl (ProposalRuleError ''P-MODE'')
      else Inr (p\<lparr>ps_status := P_SIGNED\<rparr>))"

definition p_back_to_discussion :: "proposal_snapshot \<Rightarrow> proposal_result" where
  "p_back_to_discussion p = Inr (p\<lparr>ps_status := P_IN_DISCUSSION, ps_acceptedVersionId := None\<rparr>)"

definition p_expire :: "proposal_snapshot \<Rightarrow> jsdate \<Rightarrow> proposal_result" where
  "p_expire p now =
     (if \<not> is_expired_at p now then Inl (ProposalRuleError ''P-EXPIRY'')
      else Inr (p\<lparr>ps_status := P_EXPIRED\<rparr>))"

definition p_decline :: "proposal_snapshot \<Rightarrow> string \<Rightarrow> proposal_result" where
  "p_decline p reasonCode =
     ebind (require_text reasonCode) (\<lambda>_. Inr (p\<lparr>ps_status := P_DECLINED\<rparr>))"

definition p_withdraw :: "proposal_snapshot \<Rightarrow> string \<Rightarrow> proposal_result" where
  "p_withdraw p reason =
     ebind (require_text reason) (\<lambda>_. Inr (p\<lparr>ps_status := P_WITHDRAWN\<rparr>))"

definition p_reactivate :: "proposal_snapshot \<Rightarrow> jsdate \<Rightarrow> string \<Rightarrow> jsdate \<Rightarrow> proposal_result" where
  "p_reactivate p expiresAt reason now =
     ebind (require_text reason) (\<lambda>_.
       if expiresAt \<le> now then Inl (ProposalRuleError ''P-EXPIRY'')
       else Inr (p\<lparr>ps_status := P_READY, ps_expiresAt := Some expiresAt\<rparr>))"

definition p_revise :: "proposal_snapshot \<Rightarrow> proposal_result" where
  "p_revise p =
     Inr (p\<lparr>ps_status := P_DRAFT, ps_reviewApprovedVersionId := None, ps_acceptedVersionId := None\<rparr>)"

fun dispatch_proposal_event :: "proposal_snapshot \<Rightarrow> proposal_event \<Rightarrow> jsdate \<Rightarrow> proposal_result" where
  "dispatch_proposal_event p (PE_SUBMIT_FOR_REVIEW u) now = p_submit_for_review p u"
| "dispatch_proposal_event p (PE_APPROVE_REVIEW u) now = p_approve_review p u"
| "dispatch_proposal_event p (PE_REJECT_REVIEW u reason) now = p_reject_review p u reason"
| "dispatch_proposal_event p (PE_MARK_READY u) now = p_mark_ready p"
| "dispatch_proposal_event p (PE_SEND expiresAt) now = p_send p expiresAt now"
| "dispatch_proposal_event p PE_VIEW now = Inr (p\<lparr>ps_status := P_VIEWED\<rparr>)"
| "dispatch_proposal_event p PE_OPEN_DISCUSSION now = Inr (p\<lparr>ps_status := P_IN_DISCUSSION\<rparr>)"
| "dispatch_proposal_event p PE_CLOSE_DISCUSSION now = Inr (p\<lparr>ps_status := P_VIEWED\<rparr>)"
| "dispatch_proposal_event p (PE_ACCEPT v) now = p_accept p v now"
| "dispatch_proposal_event p PE_START_SIGNATURE now = p_start_signature p now"
| "dispatch_proposal_event p PE_COMPLETE_CLICK_ACCEPT now = p_complete_click_accept p"
| "dispatch_proposal_event p PE_SIGNATURE_COMPLETED now = Inr (p\<lparr>ps_status := P_SIGNED\<rparr>)"
| "dispatch_proposal_event p (PE_SIGNATURE_DECLINED reason) now = p_back_to_discussion p"
| "dispatch_proposal_event p PE_SIGNATURE_EXPIRED now = p_back_to_discussion p"
| "dispatch_proposal_event p (PE_CONVERT c) now = Inr (p\<lparr>ps_status := P_CONVERTED\<rparr>)"
| "dispatch_proposal_event p PE_EXPIRE now = p_expire p now"
| "dispatch_proposal_event p (PE_DECLINE code reason) now = p_decline p code"
| "dispatch_proposal_event p (PE_WITHDRAW reason) now = p_withdraw p reason"
| "dispatch_proposal_event p (PE_REACTIVATE expiresAt reason) now = p_reactivate p expiresAt reason now"
| "dispatch_proposal_event p (PE_REVISE reason) now = p_revise p"

definition apply_proposal_event :: "proposal_snapshot \<Rightarrow> proposal_event \<Rightarrow> jsdate \<Rightarrow> proposal_result" where
  "apply_proposal_event p event now =
     (if pe_type event \<notin> set (PROPOSAL_TRANSITIONS (ps_status p))
      then Inl (ProposalTransitionError (ps_status p) (pe_type event)
                  (allowed_proposal_events p now))
      else dispatch_proposal_event p event now)"

subsection \<open>Reading the table and the cases\<close>

lemma p_permitted_iff:
  "PT_SUBMIT_FOR_REVIEW \<in> set (PROPOSAL_TRANSITIONS s) \<longleftrightarrow> s \<in> {P_DRAFT}"
  "PT_APPROVE_REVIEW \<in> set (PROPOSAL_TRANSITIONS s)
     \<longleftrightarrow> s \<in> {P_IN_INTERNAL_REVIEW}"
  "PT_REJECT_REVIEW \<in> set (PROPOSAL_TRANSITIONS s)
     \<longleftrightarrow> s \<in> {P_IN_INTERNAL_REVIEW}"
  "PT_MARK_READY \<in> set (PROPOSAL_TRANSITIONS s) \<longleftrightarrow> s \<in> {P_DRAFT}"
  "PT_SEND \<in> set (PROPOSAL_TRANSITIONS s) \<longleftrightarrow> s \<in> {P_READY}"
  "PT_VIEW \<in> set (PROPOSAL_TRANSITIONS s) \<longleftrightarrow> s \<in> {P_SENT}"
  "PT_OPEN_DISCUSSION \<in> set (PROPOSAL_TRANSITIONS s) \<longleftrightarrow> s \<in> {P_VIEWED}"
  "PT_CLOSE_DISCUSSION \<in> set (PROPOSAL_TRANSITIONS s)
     \<longleftrightarrow> s \<in> {P_IN_DISCUSSION}"
  "PT_ACCEPT \<in> set (PROPOSAL_TRANSITIONS s)
     \<longleftrightarrow> s \<in> {P_VIEWED, P_IN_DISCUSSION}"
  "PT_START_SIGNATURE \<in> set (PROPOSAL_TRANSITIONS s) \<longleftrightarrow> s \<in> {P_ACCEPTED}"
  "PT_COMPLETE_CLICK_ACCEPT \<in> set (PROPOSAL_TRANSITIONS s)
     \<longleftrightarrow> s \<in> {P_ACCEPTED}"
  "PT_SIGNATURE_COMPLETED \<in> set (PROPOSAL_TRANSITIONS s)
     \<longleftrightarrow> s \<in> {P_PENDING_SIGNATURE}"
  "PT_SIGNATURE_DECLINED \<in> set (PROPOSAL_TRANSITIONS s)
     \<longleftrightarrow> s \<in> {P_PENDING_SIGNATURE}"
  "PT_SIGNATURE_EXPIRED \<in> set (PROPOSAL_TRANSITIONS s)
     \<longleftrightarrow> s \<in> {P_PENDING_SIGNATURE}"
  "PT_CONVERT \<in> set (PROPOSAL_TRANSITIONS s) \<longleftrightarrow> s \<in> {P_SIGNED}"
  "PT_EXPIRE \<in> set (PROPOSAL_TRANSITIONS s)
     \<longleftrightarrow> s \<in> {P_SENT, P_VIEWED, P_IN_DISCUSSION}"
  "PT_DECLINE \<in> set (PROPOSAL_TRANSITIONS s)
     \<longleftrightarrow> s \<in> {P_SENT, P_VIEWED, P_IN_DISCUSSION}"
  "PT_WITHDRAW \<in> set (PROPOSAL_TRANSITIONS s)
     \<longleftrightarrow> s \<in> {P_SENT, P_VIEWED, P_IN_DISCUSSION}"
  "PT_REACTIVATE \<in> set (PROPOSAL_TRANSITIONS s) \<longleftrightarrow> s \<in> {P_EXPIRED}"
  "PT_REVISE \<in> set (PROPOSAL_TRANSITIONS s)
     \<longleftrightarrow> s \<in> {P_READY, P_SENT, P_VIEWED, P_IN_DISCUSSION, P_ACCEPTED}"
  by (cases s; simp add: OPEN_def)+

lemmas p_case_defs =
  p_submit_for_review_def p_approve_review_def p_reject_review_def p_mark_ready_def p_send_def
  p_accept_def p_start_signature_def p_complete_click_accept_def p_back_to_discussion_def
  p_expire_def p_decline_def p_withdraw_def p_reactivate_def p_revise_def

lemma apply_proposal_event_Inr_iff:
  "apply_proposal_event p e now = Inr p' \<longleftrightarrow>
     pe_type e \<in> set (PROPOSAL_TRANSITIONS (ps_status p)) \<and> dispatch_proposal_event p e now = Inr p'"
  by (simp add: apply_proposal_event_def)

lemma p_no_transitions_iff: "PROPOSAL_TRANSITIONS s = [] \<longleftrightarrow> is_proposal_terminal s"
  by (cases s) (simp_all add: is_proposal_terminal_def PROPOSAL_TERMINAL_STATUSES_def OPEN_def)

lemma require_ready_iff: "require_ready p = Inr u \<longleftrightarrow> readiness_issue p = None"
  by (simp add: require_ready_def split: option.splits)

lemma require_text_iff: "require_text s = Inr u \<longleftrightarrow> \<not> js_blank s"
  by (auto simp: require_text_def js_blank_iff)

subsection \<open>The documented diagram\<close>

text \<open>The arrows of \<open>docs/contrats/11-propositions.md\<close> (sections 2 and 3).\<close>

fun doc_proposal_target :: "proposal_event_type \<Rightarrow> proposal_status" where
  "doc_proposal_target PT_SUBMIT_FOR_REVIEW = P_IN_INTERNAL_REVIEW"
| "doc_proposal_target PT_APPROVE_REVIEW = P_READY"
| "doc_proposal_target PT_REJECT_REVIEW = P_DRAFT"
| "doc_proposal_target PT_MARK_READY = P_READY"
| "doc_proposal_target PT_SEND = P_SENT"
| "doc_proposal_target PT_VIEW = P_VIEWED"
| "doc_proposal_target PT_OPEN_DISCUSSION = P_IN_DISCUSSION"
| "doc_proposal_target PT_CLOSE_DISCUSSION = P_VIEWED"
| "doc_proposal_target PT_ACCEPT = P_ACCEPTED"
| "doc_proposal_target PT_START_SIGNATURE = P_PENDING_SIGNATURE"
| "doc_proposal_target PT_COMPLETE_CLICK_ACCEPT = P_SIGNED"
| "doc_proposal_target PT_SIGNATURE_COMPLETED = P_SIGNED"
| "doc_proposal_target PT_SIGNATURE_DECLINED = P_IN_DISCUSSION"
| "doc_proposal_target PT_SIGNATURE_EXPIRED = P_IN_DISCUSSION"
| "doc_proposal_target PT_CONVERT = P_CONVERTED"
| "doc_proposal_target PT_EXPIRE = P_EXPIRED"
| "doc_proposal_target PT_DECLINE = P_DECLINED"
| "doc_proposal_target PT_WITHDRAW = P_WITHDRAWN"
| "doc_proposal_target PT_REACTIVATE = P_READY"
| "doc_proposal_target PT_REVISE = P_DRAFT"

lemma proposal_arrival:
  "apply_proposal_event p e now = Inr p' \<Longrightarrow> ps_status p' = doc_proposal_target (pe_type e)"
  by (cases e)
    (auto simp: apply_proposal_event_Inr_iff p_case_defs ebind_Inr_iff split: if_splits)

interpretation pm: graph_machine PROPOSAL_TRANSITIONS ps_status pe_type apply_proposal_event
  "\<lambda>s ty. [doc_proposal_target ty]"
  by unfold_locales (auto simp: apply_proposal_event_Inr_iff proposal_arrival)

text \<open>A proposal that was converted, declined or withdrawn never changes again, whatever events
  are submitted, and a signed proposal can only be converted: no sequence of events declines,
  withdraws, expires or revises it.\<close>

theorem proposal_end_states:
  assumes "is_proposal_terminal (ps_status p) \<or> ps_status p = P_SIGNED"
  shows "(if is_proposal_terminal (ps_status p) then run_events apply_proposal_event p es = p
          else ps_status (run_events apply_proposal_event p es) \<in> {P_SIGNED, P_CONVERTED})"
proof (cases "is_proposal_terminal (ps_status p)")
  case True
  then show ?thesis using pm.dead_end_absorbing [of p es] by (simp add: p_no_transitions_iff)
next
  case False
  moreover have "pm.graph_closed {P_SIGNED, P_CONVERTED}"
    by (simp add: pm.graph_closed_def)
  ultimately show ?thesis using assms pm.graph_closed_run [of "{P_SIGNED, P_CONVERTED}" p es] by simp
qed

definition sample_proposal :: "proposal_status \<Rightarrow> proposal_snapshot" where
  "sample_proposal s =
     \<lparr>ps_id = ''p'', ps_status = s, ps_currentVersionId = Some ''v1'',
      ps_acceptanceMode = DOCUSEAL_SIGNATURE, ps_expiresAt = None, ps_reviewRequired = False,
      ps_reviewSubmittedByUserId = None, ps_reviewApprovedVersionId = None,
      ps_acceptedVersionId = None, ps_hasRecipients = True, ps_hasSigner = True,
      ps_unresolvedMergeTags = 0, ps_blockingValidations = 0, ps_pricingErrors = 0\<rparr>"

theorem proposal_end_states_witness:
  "ps_status (run_events apply_proposal_event (sample_proposal P_SIGNED)
     [(PE_REVISE ''r'', 1), (PE_EXPIRE, 2), (PE_CONVERT ''c'', 3)]) \<in> {P_SIGNED, P_CONVERTED}"
proof -
  have st: "ps_status (sample_proposal P_SIGNED) = P_SIGNED" "\<not> is_proposal_terminal P_SIGNED"
    by (simp_all add: sample_proposal_def is_proposal_terminal_def PROPOSAL_TERMINAL_STATUSES_def)
  show ?thesis
    using proposal_end_states [of "sample_proposal P_SIGNED"
        "[(PE_REVISE ''r'', 1), (PE_EXPIRE, 2), (PE_CONVERT ''c'', 3)]"]
    by (simp only: st simp_thms if_False)
qed

subsection \<open>The life of a proposal\<close>

text \<open>What the services do to a proposal: apply an event; send it after checking again that it is
  ready (\<open>ProposalSendService.send\<close>); change anything in a draft (a new version after a revision
  included); change the recipients before the sending; and change the selected options, hence the
  computed counters, of a draft or of a proposal that is ready (\<open>setSelection\<close>).\<close>

definition send_precheck :: "proposal_snapshot \<Rightarrow> bool" where
  "send_precheck p =
     (\<not> (ps_unresolvedMergeTags p > 0 \<or> ps_blockingValidations p > 0 \<or> ps_pricingErrors p > 0
         \<or> \<not> ps_hasRecipients p \<or> \<not> ps_hasSigner p))"

inductive proposal_step :: "proposal_snapshot \<Rightarrow> proposal_snapshot \<Rightarrow> bool" where
  event: "pe_type e \<noteq> PT_SEND \<Longrightarrow> apply_proposal_event p e now = Inr p' \<Longrightarrow> proposal_step p p'"
| send: "send_precheck p \<Longrightarrow> apply_proposal_event p (PE_SEND d) now = Inr p' \<Longrightarrow> proposal_step p p'"
| edit: "ps_status p = P_DRAFT \<Longrightarrow>
    proposal_step p (p\<lparr>ps_currentVersionId := Some v, ps_acceptanceMode := mode,
      ps_reviewRequired := review, ps_unresolvedMergeTags := tags,
      ps_blockingValidations := blocking, ps_pricingErrors := errs\<rparr>)"
| recipients: "ps_status p \<in> {P_DRAFT, P_READY, P_IN_INTERNAL_REVIEW} \<Longrightarrow>
    proposal_step p (p\<lparr>ps_hasRecipients := recipients, ps_hasSigner := signer\<rparr>)"
| select: "ps_status p \<in> {P_DRAFT, P_READY} \<Longrightarrow>
    proposal_step p (p\<lparr>ps_reviewRequired := review, ps_unresolvedMergeTags := tags,
      ps_blockingValidations := blocking, ps_pricingErrors := errs\<rparr>)"

inductive proposal_reachable :: "proposal_snapshot \<Rightarrow> proposal_snapshot \<Rightarrow> bool" for p0 where
  start: "proposal_reachable p0 p0"
| step: "proposal_reachable p0 p \<Longrightarrow> proposal_step p q \<Longrightarrow> proposal_reachable p0 q"

definition new_proposal :: "proposal_snapshot \<Rightarrow> bool" where
  "new_proposal p \<longleftrightarrow> ps_status p = P_DRAFT \<and> ps_acceptedVersionId p = None
     \<and> ps_reviewApprovedVersionId p = None"

definition with_client :: "proposal_status set" where
  "with_client = {P_SENT, P_VIEWED, P_IN_DISCUSSION, P_ACCEPTED, P_PENDING_SIGNATURE, P_SIGNED, P_CONVERTED}"

text \<open>What holds of the version accepted, of the review and of the content at each stage.\<close>

definition accepted_ok :: "proposal_snapshot \<Rightarrow> bool" where
  "accepted_ok p = (case ps_status p of
     P_ACCEPTED \<Rightarrow> ps_acceptedVersionId p = ps_currentVersionId p
   | P_PENDING_SIGNATURE \<Rightarrow> ps_acceptedVersionId p = ps_currentVersionId p
   | P_SIGNED \<Rightarrow> ps_acceptedVersionId p = ps_currentVersionId p
   | P_CONVERTED \<Rightarrow> ps_acceptedVersionId p = ps_currentVersionId p
   | _ \<Rightarrow> True)"

definition content_ok :: "proposal_snapshot \<Rightarrow> bool" where
  "content_ok p = (case ps_status p of
     P_DRAFT \<Rightarrow> True | P_IN_INTERNAL_REVIEW \<Rightarrow> True | _ \<Rightarrow> \<not> js_falsy (ps_currentVersionId p))"

definition sent_ok :: "proposal_snapshot \<Rightarrow> bool" where
  "sent_ok p = (case ps_status p of
     P_DRAFT \<Rightarrow> True | P_IN_INTERNAL_REVIEW \<Rightarrow> True | P_READY \<Rightarrow> True | _ \<Rightarrow> send_precheck p)"

definition review_ok :: "proposal_snapshot \<Rightarrow> bool" where
  "review_ok p = (case ps_status p of
     P_DRAFT \<Rightarrow> ps_reviewApprovedVersionId p = None
   | P_IN_INTERNAL_REVIEW \<Rightarrow> ps_reviewApprovedVersionId p = None
   | _ \<Rightarrow> ps_reviewApprovedVersionId p \<in> {None, ps_currentVersionId p})"

lemma readiness_none:
  "readiness_issue p = None \<longleftrightarrow> \<not> js_falsy (ps_currentVersionId p) \<and> send_precheck p"
  by (auto simp: readiness_issue_def send_precheck_def)

lemmas p_event_cases =
  apply_proposal_event_Inr_iff p_permitted_iff p_case_defs ebind_Inr_iff require_ready_iff
  readiness_none

lemma accepted_ok_event:
  "apply_proposal_event p e now = Inr p' \<Longrightarrow> accepted_ok p \<Longrightarrow> accepted_ok p'"
  by (cases e) (auto simp: p_event_cases accepted_ok_def split: if_splits)

lemma content_ok_event:
  "apply_proposal_event p e now = Inr p' \<Longrightarrow> content_ok p \<Longrightarrow> content_ok p'"
  by (cases e) (auto simp: p_event_cases content_ok_def split: if_splits)

lemma sent_ok_event:
  "apply_proposal_event p e now = Inr p' \<Longrightarrow> sent_ok p \<Longrightarrow>
   (pe_type e = PT_SEND \<Longrightarrow> send_precheck p) \<Longrightarrow> sent_ok p'"
  by (cases e) (auto simp: p_event_cases sent_ok_def send_precheck_def split: if_splits)

lemma review_ok_event:
  "apply_proposal_event p e now = Inr p' \<Longrightarrow> review_ok p \<Longrightarrow> review_ok p'"
  by (cases e) (auto simp: p_event_cases review_ok_def split: if_splits)

definition proposal_ok :: "proposal_snapshot \<Rightarrow> bool" where
  "proposal_ok p \<longleftrightarrow> accepted_ok p \<and> content_ok p \<and> sent_ok p \<and> review_ok p"

lemma proposal_ok_step: "proposal_step p q \<Longrightarrow> proposal_ok p \<Longrightarrow> proposal_ok q"
proof (induction rule: proposal_step.induct)
  case (event e p now p')
  then show ?case
    using accepted_ok_event content_ok_event sent_ok_event review_ok_event
    unfolding proposal_ok_def by blast
next
  case (send p d now p')
  then show ?case
    using accepted_ok_event content_ok_event sent_ok_event review_ok_event
    unfolding proposal_ok_def by blast
next
  case (recipients p recipients signer)
  then show ?case
    by (elim insertE emptyE)
      (simp_all add: proposal_ok_def accepted_ok_def content_ok_def sent_ok_def review_ok_def)
next
  case (select p review tags blocking errs)
  then show ?case
    by (elim insertE emptyE)
      (simp_all add: proposal_ok_def accepted_ok_def content_ok_def sent_ok_def review_ok_def)
qed (simp add: proposal_ok_def accepted_ok_def content_ok_def sent_ok_def review_ok_def)

lemma proposal_ok_reachable: "proposal_reachable p0 p \<Longrightarrow> new_proposal p0 \<Longrightarrow> proposal_ok p"
proof (induction rule: proposal_reachable.induct)
  case start
  then show ?case
    by (simp add: new_proposal_def proposal_ok_def accepted_ok_def content_ok_def sent_ok_def
        review_ok_def)
qed (blast intro: proposal_ok_step)

lemmas reach_event = proposal_reachable.step [OF _ proposal_step.event]
lemmas reach_send = proposal_reachable.step [OF _ proposal_step.send]
lemmas reach_select = proposal_reachable.step [OF _ proposal_step.select]

lemma sample_ready: "proposal_reachable (sample_proposal P_DRAFT) (sample_proposal P_READY)"
  by (rule reach_event [OF proposal_reachable.start, where e = "PE_MARK_READY ''a''" and now = 0])
    (simp_all add: apply_proposal_event_def p_mark_ready_def require_ready_def readiness_issue_def
      js_falsy_def sample_proposal_def)

lemma sample_sent:
  "proposal_reachable (sample_proposal P_DRAFT) ((sample_proposal P_SENT)\<lparr>ps_expiresAt := Some 5\<rparr>)"
  by (rule reach_send [OF sample_ready, where d = 5 and now = 0])
    (simp_all add: apply_proposal_event_def p_send_def send_precheck_def sample_proposal_def)

lemma sample_viewed:
  "proposal_reachable (sample_proposal P_DRAFT) ((sample_proposal P_VIEWED)\<lparr>ps_expiresAt := Some 5\<rparr>)"
  by (rule reach_event [OF sample_sent, where e = PE_VIEW and now = 1])
    (simp_all add: apply_proposal_event_def sample_proposal_def)

lemma sample_accepted:
  "proposal_reachable (sample_proposal P_DRAFT)
     ((sample_proposal P_ACCEPTED)\<lparr>ps_expiresAt := Some 5, ps_acceptedVersionId := Some ''v1''\<rparr>)"
  by (rule reach_event [OF sample_viewed, where e = "PE_ACCEPT ''v1''" and now = 2])
    (simp_all add: apply_proposal_event_def p_accept_def is_expired_at_def sample_proposal_def)

lemma sample_new: "new_proposal (sample_proposal P_DRAFT)"
  by (simp add: new_proposal_def sample_proposal_def)

text \<open>C23: The client signs the version they accepted: in every state a proposal can reach, through
  any interleaving of edits, revisions, new versions, option changes and events, an accepted,
  in-signature, signed or converted proposal has its current version accepted, and that version
  exists.\<close>

theorem accepted_version_is_current:
  assumes "proposal_reachable p0 p" "new_proposal p0"
    and "ps_status p \<in> {P_ACCEPTED, P_PENDING_SIGNATURE, P_SIGNED, P_CONVERTED}"
  shows "ps_acceptedVersionId p = ps_currentVersionId p \<and> \<not> js_falsy (ps_currentVersionId p)"
  using proposal_ok_reachable [OF assms(1,2)] assms(3)
  by (elim insertE emptyE) (simp_all add: proposal_ok_def accepted_ok_def content_ok_def)

theorem accepted_version_is_current_witness:
  "\<exists>p. proposal_reachable (sample_proposal P_DRAFT) p \<and> ps_status p = P_ACCEPTED
       \<and> ps_acceptedVersionId p = ps_currentVersionId p"
  using accepted_version_is_current [OF sample_accepted sample_new] sample_accepted
  by (force simp: sample_proposal_def)

text \<open>Nothing unfinished reaches the client: in every reachable state past the sending, the
  proposal has content, a recipient and a signer, no unresolved merge tag, no element left to
  validate and a price table that computes.\<close>

theorem sent_proposal_is_complete:
  assumes "proposal_reachable p0 p" "new_proposal p0"
    and "ps_status p \<notin> {P_DRAFT, P_IN_INTERNAL_REVIEW, P_READY}"
  shows "readiness_issue p = None"
  using proposal_ok_reachable [OF assms(1,2)] assms(3)
  by (cases "ps_status p")
    (simp_all add: proposal_ok_def sent_ok_def content_ok_def readiness_none)

theorem sent_proposal_is_complete_witness:
  "readiness_issue ((sample_proposal P_SENT)\<lparr>ps_expiresAt := Some 5\<rparr>) = None"
  by (rule sent_proposal_is_complete [OF sample_sent sample_new]) (simp add: sample_proposal_def)

text \<open>The review, on the other hand, is only checked on the way to \<open>READY\<close>: a proposal that is ready
  without review can have its options changed (\<open>setSelection\<close>) until the review is required, and be
  sent without it.\<close>

lemma review_bypassed:
  "\<exists>p. proposal_reachable (sample_proposal P_DRAFT) p \<and> ps_status p = P_SENT
       \<and> ps_reviewRequired p \<and> ps_reviewApprovedVersionId p = None"
proof -
  have "proposal_reachable (sample_proposal P_DRAFT) ((sample_proposal P_READY)\<lparr>ps_reviewRequired := True\<rparr>)"
    using reach_select [OF sample_ready, where review = True and tags = 0 and blocking = 0 and errs = 0] by (simp add: sample_proposal_def)
  then have "proposal_reachable (sample_proposal P_DRAFT)
      ((sample_proposal P_SENT)\<lparr>ps_reviewRequired := True, ps_expiresAt := Some 5\<rparr>)"
    by (rule reach_send [where d = 5 and now = 0])
      (simp_all add: apply_proposal_event_def p_send_def send_precheck_def sample_proposal_def)
  then show ?thesis by (force simp: sample_proposal_def)
qed

subsection \<open>Guards\<close>

text \<open>Acceptance and signature are guarded by the version and the clock: a version is accepted
  exactly when the proposal is being read or discussed, the version is the current one and the
  proposal has not expired; a signature starts exactly when the proposal is accepted in signature
  mode, still valid, and the accepted version is the current one. A refusal by the signer or the
  expiry of the signature request cancels the acceptance.\<close>

theorem acceptance_guards:
  "is_ok (apply_proposal_event p (PE_ACCEPT v) now)
     = (ps_status p \<in> {P_VIEWED, P_IN_DISCUSSION} \<and> ps_currentVersionId p = Some v
        \<and> \<not> is_expired_at p now)
   \<and> is_ok (apply_proposal_event p PE_START_SIGNATURE now)
     = (ps_status p = P_ACCEPTED \<and> ps_acceptanceMode p = DOCUSEAL_SIGNATURE
        \<and> \<not> is_expired_at p now \<and> ps_acceptedVersionId p = ps_currentVersionId p)
   \<and> list_all (\<lambda>e. case apply_proposal_event p e now of Inl _ \<Rightarrow> True
        | Inr p' \<Rightarrow> ps_status p' = P_IN_DISCUSSION \<and> ps_acceptedVersionId p' = None)
       [PE_SIGNATURE_DECLINED r, PE_SIGNATURE_EXPIRED]"
  by (auto simp: apply_proposal_event_def p_permitted_iff p_accept_def p_start_signature_def
      p_back_to_discussion_def)

lemma proposal_accepted_is_listed:
  "apply_proposal_event p e now = Inr p' \<Longrightarrow> proposal_event_possible p now (pe_type e)"
  by (cases e)
    (auto simp: p_event_cases proposal_event_possible_def split: if_splits)

text \<open>The list of possible events of a proposal misses nothing: every event that succeeds has its
  type listed at that moment, and the list never names an event the table of the status excludes.\<close>

theorem allowed_proposal_events_complete:
  "set (allowed_proposal_events p now) \<subseteq> set (PROPOSAL_TRANSITIONS (ps_status p))
   \<and> (case apply_proposal_event p e now of Inl _ \<Rightarrow> True
      | Inr _ \<Rightarrow> pe_type e \<in> set (allowed_proposal_events p now))"
  using proposal_accepted_is_listed [of p e now]
  by (auto simp: allowed_proposal_events_def apply_proposal_event_Inr_iff split: sum.splits)

end
