(* ===== verification/ContractService.thy ===== *)
theory ContractService
  imports ContractMachine ContractDates
begin

text \<open>
  What the API stores around the contract machine: \<open>apps/api/src/contracts/snapshot.ts\<close>
  (\<open>toContractSnapshot\<close>, \<open>persistTransition\<close>), \<open>contracts.service.ts\<close> (\<open>applyEvent\<close>, \<open>terminate\<close>) and
  \<open>content.service.ts\<close> (\<open>saveContent\<close>), as functions from the stored row to the new row. A thrown
  error is \<open>Inl\<close> and, since every call runs in one transaction, leaves the row as it was. The
  rendering of HTTP errors, the webhooks published and the ids and timestamps of the inserted rows
  are left out; the id of a new version is an argument.
\<close>

subsection \<open>Rows\<close>

datatype approval_decision = AD_PENDING | AD_APPROVED | AD_CHANGES_REQUESTED

record approval_row =
  ap_versionId :: "string option"
  ap_submittedBy :: string
  ap_decision :: approval_decision
  ap_decidedBy :: "string option"

datatype cancellation_type = CT_CANCELLATION | CT_TERMINATION

record cancellation_row =
  ca_type :: cancellation_type
  ca_reason :: string
  ca_effectiveDate :: jsdate
  ca_noticeRespected :: bool
  ca_overrideReason :: "string option"
  ca_overrideBy :: "string option"
  ca_createdBy :: string

text \<open>The contract row with its approvals (latest submission first) and cancellations. The columns
  the machine reads are kept as the snapshot they become; its three computed fields (submitter,
  attachments, successor) are set by \<open>to_snapshot\<close>.\<close>

record contract_row =
  cr_contract :: contract_snapshot
  cr_originAi :: bool
  cr_noticePeriodMonths :: "int option"
  cr_renewalTacit :: bool
  cr_renewalPeriodMonths :: "int option"
  cr_approvals :: "approval_row list"
  cr_cancellations :: "cancellation_row list"

datatype service_error =
    DomainError contract_error
  | ServiceConflict string
  | NoticeError notice_error

definition to_snapshot :: "contract_row \<Rightarrow> string option \<Rightarrow> bool \<Rightarrow> contract_snapshot" where
  "to_snapshot r submittedBy signedSuccessor =
     (cr_contract r)\<lparr>cs_submittedByUserId := submittedBy, cs_hasRequiredAttachments := True,
        cs_hasSignedSuccessor := signedSuccessor\<rparr>"

definition persist_transition :: "contract_row \<Rightarrow> contract_snapshot \<Rightarrow> contract_row" where
  "persist_transition r next =
     r\<lparr>cr_contract := (cr_contract r)
         \<lparr>cs_status := cs_status next, cs_approvedVersionId := cs_approvedVersionId next,
          cs_acceptedVersionId := cs_acceptedVersionId next, cs_endDate := cs_endDate next,
          cs_signedAt := cs_signedAt next, cs_activatedAt := cs_activatedAt next,
          cs_terminatedAt := cs_terminatedAt next,
          cs_terminationEffectiveDate := cs_terminationEffectiveDate next\<rparr>\<rparr>"

definition pending_approval :: "contract_row \<Rightarrow> approval_row option" where
  "pending_approval r = find (\<lambda>a. ap_decision a = AD_PENDING) (cr_approvals r)"

text \<open>\<open>update\<close> of the one pending row that was found.\<close>

fun decide_first :: "(approval_row \<Rightarrow> approval_row) \<Rightarrow> approval_row list \<Rightarrow> approval_row list" where
  "decide_first f [] = []"
| "decide_first f (a # as) = (if ap_decision a = AD_PENDING then f a # as else a # decide_first f as)"

definition record_approval :: "contract_row \<Rightarrow> contract_event \<Rightarrow> contract_row" where
  "record_approval r e =
     (case e of
        SUBMIT_FOR_REVIEW u \<Rightarrow>
          r\<lparr>cr_approvals := \<lparr>ap_versionId = cs_currentVersionId (cr_contract r), ap_submittedBy = u,
                            ap_decision = AD_PENDING, ap_decidedBy = None\<rparr> # cr_approvals r\<rparr>
      | APPROVE u \<Rightarrow>
          r\<lparr>cr_approvals := decide_first
              (\<lambda>a. a\<lparr>ap_decision := AD_APPROVED, ap_decidedBy := Some u\<rparr>) (cr_approvals r)\<rparr>
      | REQUEST_CHANGES u reason \<Rightarrow>
          r\<lparr>cr_approvals := decide_first
              (\<lambda>a. a\<lparr>ap_decision := AD_CHANGES_REQUESTED, ap_decidedBy := Some u\<rparr>) (cr_approvals r)\<rparr>
      | _ \<Rightarrow> r)"

definition record_cancellation :: "contract_row \<Rightarrow> contract_event \<Rightarrow> jsdate \<Rightarrow> contract_row" where
  "record_cancellation r e now =
     (case e of
        CANCEL u reason \<Rightarrow>
          r\<lparr>cr_cancellations := \<lparr>ca_type = CT_CANCELLATION, ca_reason = reason, ca_effectiveDate = now,
              ca_noticeRespected = True, ca_overrideReason = None, ca_overrideBy = None,
              ca_createdBy = u\<rparr> # cr_cancellations r\<rparr>
      | _ \<Rightarrow> r)"

definition lift_domain :: "contract_result \<Rightarrow> service_error + contract_snapshot" where
  "lift_domain x = (case x of Inl e \<Rightarrow> Inl (DomainError e) | Inr c \<Rightarrow> Inr c)"

definition service_apply :: "contract_row \<Rightarrow> contract_event \<Rightarrow> jsdate \<Rightarrow> service_error + contract_row" where
  "service_apply r event now =
     (let approval = pending_approval r;
          snapshot = to_snapshot r (map_option ap_submittedBy approval) False
      in ebind (lift_domain (apply_event snapshot event now)) (\<lambda>next.
           if event_type event \<in> {T_APPROVE, T_REQUEST_CHANGES} \<and> approval = None
           then Inl (ServiceConflict ''RM-10'')
           else Inr (persist_transition (record_cancellation (record_approval r event) event now) next)))"

definition save_content ::
    "contract_row \<Rightarrow> string \<Rightarrow> string \<Rightarrow> bool \<Rightarrow> jsdate \<Rightarrow> service_error + contract_row" where
  "save_content r userId versionId missing now =
     (if cr_originAi r then Inl (ServiceConflict ''V2-AI'')
      else case apply_event (to_snapshot r None False) (EDIT_CONTENT userId) now of
        Inl _ \<Rightarrow> Inl (ServiceConflict ''RM-04'')
      | Inr next \<Rightarrow>
          Inr (persist_transition
            (r\<lparr>cr_contract := (cr_contract r)\<lparr>cs_currentVersionId := Some versionId,
                cs_hasMissingVariables := missing, cs_hasUnreviewedAiClauses := False\<rparr>\<rparr>) next))"

record terminate_dto =
  dto_reason :: string
  dto_effectiveDate :: "jsdate option"
  dto_overrideReason :: "string option"

definition due_date :: "contract_row \<Rightarrow> jsdate \<Rightarrow> notice_error + termination_dates" where
  "due_date r now =
     compute_termination_effective_date
       \<lparr>ti_today = now,
        ti_notice = \<lparr>n_days = cs_noticePeriodDays (cr_contract r), n_months = cr_noticePeriodMonths r\<rparr>,
        ti_periodEnd = cs_endDate (cr_contract r),
        ti_renewalPeriodMonths = (if cr_renewalTacit r then cr_renewalPeriodMonths r else None),
        ti_requestedDate = None\<rparr>"

definition service_terminate ::
    "contract_row \<Rightarrow> terminate_dto \<Rightarrow> string \<Rightarrow> bool \<Rightarrow> jsdate \<Rightarrow> service_error + contract_row" where
  "service_terminate r dto userId isAdmin now =
     (case due_date r now of
        Inl e \<Rightarrow> Inl (NoticeError e)
      | Inr dates \<Rightarrow>
          let due = td_effectiveDate dates;
              effectiveDate = (case dto_effectiveDate dto of Some d \<Rightarrow> d | None \<Rightarrow> due);
              event = TERMINATE \<lparr>tr_actorUserId = userId, tr_reason = dto_reason dto,
                        tr_effectiveDate = effectiveDate, tr_isAdmin = isAdmin,
                        tr_overrideReason = dto_overrideReason dto, tr_minEffectiveDate = Some due\<rparr>
          in ebind (lift_domain (apply_event (to_snapshot r None False) event now)) (\<lambda>next.
               let noticeRespected = (effectiveDate \<ge> due)
               in Inr (persist_transition
                    (r\<lparr>cr_cancellations := \<lparr>ca_type = CT_TERMINATION,
                        ca_reason = js_trim (dto_reason dto), ca_effectiveDate = effectiveDate,
                        ca_noticeRespected = noticeRespected,
                        ca_overrideReason = (if noticeRespected then None
                                             else map_option js_trim (dto_overrideReason dto)),
                        ca_overrideBy = (if noticeRespected then None else Some userId),
                        ca_createdBy = userId\<rparr> # cr_cancellations r\<rparr>) next)))"

subsection \<open>What a call keeps\<close>

lemma current_kept:
  "apply_event c e now = Inr c' \<Longrightarrow> cs_currentVersionId c' = cs_currentVersionId c"
  by (cases e) (auto simp: apply_event_Inr_iff case_defs Let_def split: if_splits option.splits)

lemma approval_kept:
  "apply_event c e now = Inr c' \<Longrightarrow> event_type e \<noteq> T_APPROVE \<Longrightarrow>
   cs_approvedVersionId c' \<in> {None, cs_approvedVersionId c}"
  by (cases e) (auto simp: apply_event_Inr_iff case_defs Let_def split: if_splits option.splits)

lemma arrives_in_review:
  "apply_event c e now = Inr c' \<Longrightarrow> cs_status c' = IN_REVIEW \<Longrightarrow> event_type e = T_SUBMIT_FOR_REVIEW"
  by (cases e)
    (auto simp: apply_event_Inr_iff permitted_iff case_defs Let_def split: if_splits option.splits)

lemma decide_first_keeps:
  "a \<in> set as \<Longrightarrow> ap_decision a \<noteq> AD_PENDING \<Longrightarrow> a \<in> set (decide_first f as)"
  by (induction as) auto

lemma decide_first_decides:
  "find (\<lambda>a. ap_decision a = AD_PENDING) as = Some a \<Longrightarrow> f a \<in> set (decide_first f as)"
  by (induction as) (auto split: if_splits)

lemma record_contract [simp]:
  "cr_contract (record_cancellation (record_approval r e) e now) = cr_contract r"
  by (simp add: record_cancellation_def record_approval_def split: contract_event.splits)

lemma persist_record:
  "cr_contract (persist_transition (record_cancellation (record_approval r e) e now) next)
     = cr_contract (persist_transition r next)"
  by (simp add: persist_transition_def)

lemma persist_approvals [simp]: "cr_approvals (persist_transition r next) = cr_approvals r"
  by (simp add: persist_transition_def)

lemma persist_fields [simp]:
  "cs_status (cr_contract (persist_transition r next)) = cs_status next"
  "cs_approvedVersionId (cr_contract (persist_transition r next)) = cs_approvedVersionId next"
  "cs_currentVersionId (cr_contract (persist_transition r next)) = cs_currentVersionId (cr_contract r)"
  by (simp_all add: persist_transition_def)

lemma service_apply_Inr:
  "service_apply r e now = Inr r' \<longleftrightarrow>
     (\<exists>next. apply_event (to_snapshot r (map_option ap_submittedBy (pending_approval r)) False) e now
             = Inr next
        \<and> \<not> (event_type e \<in> {T_APPROVE, T_REQUEST_CHANGES} \<and> pending_approval r = None)
        \<and> r' = persist_transition (record_cancellation (record_approval r e) e now) next)"
  by (auto simp: service_apply_def lift_domain_def ebind_Inr_iff Let_def split: sum.splits if_splits)

lemma save_content_Inr:
  assumes "save_content r u v missing now = Inr r'"
  shows "\<not> cr_originAi r \<and> cs_status (cr_contract r) \<in> {DRAFT, CHANGES_REQUESTED, APPROVED, IN_NEGOTIATION}
    \<and> cs_status (cr_contract r') \<in> {DRAFT, CHANGES_REQUESTED, IN_NEGOTIATION}
    \<and> cs_currentVersionId (cr_contract r') = Some v
    \<and> cs_approvedVersionId (cr_contract r') \<in> {None, cs_approvedVersionId (cr_contract r)}
    \<and> (cs_status (cr_contract r) \<in> {APPROVED, IN_NEGOTIATION} \<longrightarrow>
        cs_approvedVersionId (cr_contract r') = None)
    \<and> cs_signedAt (cr_contract r') = cs_signedAt (cr_contract r)
    \<and> cr_approvals r' = cr_approvals r"
  using assms
  by (auto simp: save_content_def apply_event_Inr_iff permitted_iff edit_content_def to_snapshot_def
      persist_transition_def is_editable_def EDITABLE_STATUSES_def split: if_splits sum.splits)

subsection \<open>New texts\<close>

definition sample_row :: "contract_status \<Rightarrow> string option \<Rightarrow> approval_row list \<Rightarrow> contract_row" where
  "sample_row s approved as =
     \<lparr>cr_contract = (sample_snapshot s)\<lparr>cs_approvedVersionId := approved, cs_acceptedVersionId := None,
        cs_submittedByUserId := None\<rparr>,
      cr_originAi = False, cr_noticePeriodMonths = None, cr_renewalTacit = False,
      cr_renewalPeriodMonths = None, cr_approvals = as, cr_cancellations = []\<rparr>"

definition sample_approval :: "approval_decision \<Rightarrow> string option \<Rightarrow> approval_row" where
  "sample_approval d by_user =
     \<lparr>ap_versionId = Some ''v'', ap_submittedBy = ''a'', ap_decision = d, ap_decidedBy = by_user\<rparr>"

text \<open>RM-04, V2-LOCK: a new text is stored exactly for a contract not written by AI that is a
  draft, sent back, validated or in negotiation, never during or after the signature. The stored
  contract is then a draft, sent back or in negotiation, shows the new version, and (versions having
  fresh identifiers) is no longer validated: neither its presentation to the client nor its sending
  for signature is possible before a new review.\<close>

theorem new_text_invalidates_approval:
  "is_ok (save_content r u v missing now)
     = (\<not> cr_originAi r \<and>
        cs_status (cr_contract r) \<in> {DRAFT, CHANGES_REQUESTED, APPROVED, IN_NEGOTIATION})
   \<and> (case save_content r u v missing now of Inl _ \<Rightarrow> True
      | Inr r' \<Rightarrow> cs_status (cr_contract r') \<in> {DRAFT, CHANGES_REQUESTED, IN_NEGOTIATION}
          \<and> cs_currentVersionId (cr_contract r') = Some v
          \<and> (current_is_approved (cr_contract r') \<longrightarrow> cs_approvedVersionId (cr_contract r) = Some v))"
proof -
  have "is_ok (save_content r u v missing now)
     = (\<not> cr_originAi r \<and>
        cs_status (cr_contract r) \<in> {DRAFT, CHANGES_REQUESTED, APPROVED, IN_NEGOTIATION})"
    by (auto simp: save_content_def apply_event_def permitted_iff edit_content_def to_snapshot_def
        is_editable_def EDITABLE_STATUSES_def)
  then show ?thesis
    using save_content_Inr [of r u v missing now]
    by (auto simp: current_is_approved_def split: sum.splits)
qed

theorem new_text_invalidates_approval_witness:
  "is_ok (save_content (sample_row APPROVED (Some ''v'') []) ''a'' ''w'' False 0)"
  using new_text_invalidates_approval [of "sample_row APPROVED (Some ''v'') []" "''a''" "''w''" False 0]
  by (simp add: sample_row_def sample_snapshot_def)

subsection \<open>Termination\<close>

text \<open>A row and a clock with dates from 1970 on, a notice of at most a century and renewals forward.\<close>

definition row_notice :: "contract_row \<Rightarrow> notice" where
  "row_notice r = \<lparr>n_days = cs_noticePeriodDays (cr_contract r), n_months = cr_noticePeriodMonths r\<rparr>"

definition plausible :: "contract_row \<Rightarrow> jsdate \<Rightarrow> bool" where
  "plausible r now \<longleftrightarrow> 0 \<le> now \<and> reasonable (row_notice r)
     \<and> (case cs_endDate (cr_contract r) of None \<Rightarrow> True | Some e \<Rightarrow> 0 \<le> e)
     \<and> (case cr_renewalPeriodMonths r of None \<Rightarrow> True | Some m \<Rightarrow> 0 \<le> m)"

lemma next_period_end_recent:
  assumes "0 \<le> d" "0 \<le> m"
  shows "next_period_end (d * ms_per_day) m = (shift_months (d + 1) m - 1) * ms_per_day"
    and "d \<le> shift_months (d + 1) m - 1"
proof -
  have le: "d + 1 \<le> shift_months (d + 1) m"
    using shift_months_later [of 0 m "d + 1"] assms(2) by simp
  then show "d \<le> shift_months (d + 1) m - 1" by simp
  show "next_period_end (d * ms_per_day) m = (shift_months (d + 1) m - 1) * ms_per_day"
    using assms le by (simp add: next_period_end_def cal_add_days_recent add_months_recent)
qed

lemma due_date_midnight:
  assumes "plausible r now" "due_date r now = Inr t"
  shows "\<exists>k \<ge> 0. td_effectiveDate t = k * ms_per_day"
proof -
  have now: "0 \<le> day now" "0 \<le> day (utc_day now)"
    using day_mono [of now] assms(1) by (simp_all add: plausible_def utc_day_recent)
  show ?thesis
  proof (cases "cs_endDate (cr_contract r)")
    case None
    then obtain s where s: "add_notice (utc_day now) (row_notice r) = Inr s" "td_effectiveDate t = s"
      using assms(2)
      by (auto simp: due_date_def compute_termination_effective_date_def row_notice_def ebind_Inr_iff)
    have re: "reasonable (row_notice r)" using assms(1) by (simp add: plausible_def)
    then have "0 \<le> day s"
      using add_notice_recent(2) [OF now(2) re s(1)] now(2)
        shift_months_later [of 0 _ "day (utc_day now)"]
      by (fastforce simp: reasonable_def split: option.splits)
    then show ?thesis using add_notice_recent(1) [OF now(2) re s(1)] s(2) by blast
  next
    case (Some e)
    then have e: "0 \<le> day e" "utc_day e = day e * ms_per_day"
      using day_mono [of e] assms(1) by (simp_all add: plausible_def utc_day_recent)
    have "td_effectiveDate t = utc_day e
        \<or> (\<exists>m \<ge> 0. td_effectiveDate t = next_period_end (utc_day e) m)"
      using assms Some
      by (auto simp: due_date_def compute_termination_effective_date_def ebind_Inr_iff Let_def
          plausible_def split: if_splits option.splits)
    then consider "td_effectiveDate t = utc_day e"
      | m where "0 \<le> m" "td_effectiveDate t = next_period_end (utc_day e) m" by blast
    then show ?thesis
    proof cases
      case 1
      then show ?thesis using e by metis
    next
      case (2 m)
      note npe = next_period_end_recent [OF e(1) 2(1)]
      have "0 \<le> shift_months (day e + 1) m - 1" using npe(2) e(1) by linarith
      moreover have "td_effectiveDate t = (shift_months (day e + 1) m - 1) * ms_per_day"
        unfolding 2(2) e(2) by (rule npe(1))
      ultimately show ?thesis by blast
    qed
  qed
qed

lemma start_of_utc_day_eq: "start_of_utc_day d = utc_day d"
  by (simp add: start_of_utc_day_def utc_day_def)

lemma day_floor: "k * ms_per_day \<le> d \<longleftrightarrow> k \<le> day d"
  using day_decomp [of d] time_within_day_range [of d]
  by (auto simp: day_def ms_per_day_def)

text \<open>C38: The recorded termination tells the truth about the notice: when a termination is stored,
  the cancellation row says the notice was respected exactly when the state machine judged it
  respected (the service and the machine compare differently, and agree); and when it was not, the
  row names the user who overrode it, an administrator, with a justification that is not empty.\<close>

theorem termination_record_truthful:
  assumes "service_terminate r dto u isAdmin now = Inr r'" "plausible r now"
    and "case dto_effectiveDate dto of None \<Rightarrow> True | Some d \<Rightarrow> 0 \<le> d"
  shows "\<exists>ca dates. cr_cancellations r' = ca # cr_cancellations r \<and> due_date r now = Inr dates
    \<and> ca_noticeRespected ca
        = (start_of_utc_day (ca_effectiveDate ca) \<ge> start_of_utc_day (td_effectiveDate dates))
    \<and> (\<not> ca_noticeRespected ca \<longrightarrow>
        isAdmin \<and> ca_overrideBy ca = Some u \<and> (\<exists>s. ca_overrideReason ca = Some s \<and> s \<noteq> []))"
proof -
  obtain t where t: "due_date r now = Inr t"
    using assms(1) by (auto simp: service_terminate_def split: sum.splits)
  obtain k where k: "0 \<le> k" "td_effectiveDate t = k * ms_per_day"
    using due_date_midnight [OF assms(2) t] by blast
  define eff where "eff = (case dto_effectiveDate dto of Some d \<Rightarrow> d | None \<Rightarrow> td_effectiveDate t)"
  have "0 \<le> eff" using assms(3) k by (auto simp: eff_def ms_per_day_def split: option.splits)
  then have eff: "0 \<le> day eff" by (rule day_mono)
  have same: "start_of_utc_day eff \<ge> start_of_utc_day (td_effectiveDate t)
              \<longleftrightarrow> eff \<ge> td_effectiveDate t"
    using k eff by (simp add: start_of_utc_day_eq utc_day_recent day_floor)
  define req where "req = \<lparr>tr_actorUserId = u, tr_reason = dto_reason dto, tr_effectiveDate = eff,
    tr_isAdmin = isAdmin, tr_overrideReason = dto_overrideReason dto,
    tr_minEffectiveDate = Some (td_effectiveDate t)\<rparr>"
  obtain "next" where n: "apply_event (to_snapshot r None False) (TERMINATE req) now = Inr next"
    and r': "cr_cancellations r' = \<lparr>ca_type = CT_TERMINATION,
              ca_reason = js_trim (dto_reason dto), ca_effectiveDate = eff,
              ca_noticeRespected = (eff \<ge> td_effectiveDate t),
              ca_overrideReason = (if eff \<ge> td_effectiveDate t then None
                                   else map_option js_trim (dto_overrideReason dto)),
              ca_overrideBy = (if eff \<ge> td_effectiveDate t then None else Some u),
              ca_createdBy = u\<rparr> # cr_cancellations r"
    using assms(1) t
    by (auto simp: service_terminate_def lift_domain_def ebind_Inr_iff Let_def persist_transition_def
        req_def eff_def split: sum.splits)
  have "isAdmin \<and> (\<exists>s. dto_overrideReason dto = Some s \<and> js_trim s \<noteq> [])" if "\<not> eff \<ge> td_effectiveDate t"
    using n that same
    by (auto simp: apply_event_Inr_iff terminate_def respects_notice_def req_def js_blank_def
        split: if_splits option.splits)
  then show ?thesis using r' t same by auto
qed

lemma utc_day_epoch: "utc_day 0 = 0"
  by code_simp

lemma sample_termination_ok:
  "is_ok (service_terminate (sample_row ACTIVE (Some ''v'') [])
     \<lparr>dto_reason = ''r'', dto_effectiveDate = None, dto_overrideReason = None\<rparr> ''u'' False 0)"
  by (simp add: service_terminate_def due_date_def compute_termination_effective_date_def
      notice_deadline_def subtract_notice_def sample_row_def sample_snapshot_def utc_day_epoch
      lift_domain_def apply_event_def terminate_def respects_notice_def to_snapshot_def)

theorem termination_record_truthful_witness:
  "\<exists>ca. \<exists>r'. service_terminate (sample_row ACTIVE (Some ''v'') [])
     \<lparr>dto_reason = ''r'', dto_effectiveDate = None, dto_overrideReason = None\<rparr> ''u'' False 0 = Inr r'
     \<and> cr_cancellations r' = [ca]"
proof -
  let ?dto = "\<lparr>dto_reason = ''r'', dto_effectiveDate = None, dto_overrideReason = None\<rparr>"
  have "plausible (sample_row ACTIVE (Some ''v'') []) 0"
    by (simp add: plausible_def row_notice_def reasonable_def sample_row_def sample_snapshot_def)
  moreover obtain r' where
    "service_terminate (sample_row ACTIVE (Some ''v'') []) ?dto ''u'' False 0 = Inr r'"
    using sample_termination_ok by (auto simp: is_ok_iff)
  moreover have "cr_cancellations (sample_row ACTIVE (Some ''v'') []) = []"
    by (simp add: sample_row_def)
  ultimately show ?thesis
    using termination_record_truthful [of "sample_row ACTIVE (Some ''v'') []" ?dto "''u''" False 0 r']
    by auto
qed

end
