(* ===== verification/SigningOrder.thy ===== *)
theory SigningOrder
  imports Prelude "HOL-Library.Multiset"
begin

text \<open>
  From the signing policy to the concrete plan: \<open>packages/domain/src/signature/signing-order.ts\<close>.
  The fields of a submitter that the plan copies untouched are its identifier here.
\<close>

datatype party = LSI | CLIENT

datatype signing_order_policy = CLIENT_THEN_LSI | LSI_THEN_CLIENT | PARALLEL | AS_DEFINED

datatype provider_order = PRESERVED | RANDOM

record submitter_command =
  sc_party :: party
  sc_externalId :: string
  sc_signingOrder :: int

record signing_plan =
  sp_order :: provider_order
  sp_submitters :: "submitter_command list"

definition DEFAULT_SIGNING_ORDER :: signing_order_policy where
  "DEFAULT_SIGNING_ORDER = CLIENT_THEN_LSI"

definition resolve_signing_policy ::
    "signing_order_policy option \<Rightarrow> provider_order option \<Rightarrow> signing_order_policy" where
  "resolve_signing_policy signingOrder ord =
     (case signingOrder of
        Some p \<Rightarrow> p
      | None \<Rightarrow>
          if ord = Some RANDOM then PARALLEL
          else if ord = Some PRESERVED then AS_DEFINED
          else DEFAULT_SIGNING_ORDER)"

text \<open>\<open>rank\<close>: renumber from \<open>offset\<close>, ties kept. \<open>Array.prototype.sort\<close> is stable, as is \<open>sort_key\<close>.\<close>

definition rank_group :: "submitter_command list \<Rightarrow> int \<Rightarrow> submitter_command list" where
  "rank_group xs offset =
     (let dist = uniq (map sc_signingOrder xs)
      in map (\<lambda>s. s\<lparr>sc_signingOrder := offset + int (index_of dist (sc_signingOrder s))\<rparr>) xs)"

definition two_groups :: "party \<Rightarrow> submitter_command list \<Rightarrow> submitter_command list" where
  "two_groups first byDefinedOrder =
     (let firstGroup = rank_group (filter (\<lambda>s. sc_party s = first) byDefinedOrder) 0;
          nxt = (if firstGroup = [] then 0 else Max (set (map sc_signingOrder firstGroup)) + 1);
          secondGroup = rank_group (filter (\<lambda>s. sc_party s \<noteq> first) byDefinedOrder) nxt
      in firstGroup @ secondGroup)"

definition plan_signing_order ::
    "submitter_command list \<Rightarrow> signing_order_policy \<Rightarrow> string + signing_plan" where
  "plan_signing_order submitters policy =
     (if submitters = [] then Inl ''Aucun signataire''
      else
        let byDefinedOrder = sort_key sc_signingOrder submitters
        in Inr (case policy of
             PARALLEL \<Rightarrow>
               \<lparr>sp_order = RANDOM,
                sp_submitters = map (\<lambda>s. s\<lparr>sc_signingOrder := 0\<rparr>) byDefinedOrder\<rparr>
           | AS_DEFINED \<Rightarrow> \<lparr>sp_order = PRESERVED, sp_submitters = byDefinedOrder\<rparr>
           | CLIENT_THEN_LSI \<Rightarrow>
               \<lparr>sp_order = PRESERVED, sp_submitters = two_groups CLIENT byDefinedOrder\<rparr>
           | LSI_THEN_CLIENT \<Rightarrow>
               \<lparr>sp_order = PRESERVED, sp_submitters = two_groups LSI byDefinedOrder\<rparr>))"

subsection \<open>Ranks\<close>

lemma index_of_mono:
  "sorted (uniq xs) \<Longrightarrow> x \<in> set xs \<Longrightarrow> y \<in> set xs \<Longrightarrow>
   index_of (uniq xs) x \<le> index_of (uniq xs) y \<longleftrightarrow> x \<le> y"
  for x :: "'a::linorder"
proof -
  assume s: "sorted (uniq xs)" and x: "x \<in> set xs" and y: "y \<in> set xs"
  let ?i = "index_of (uniq xs) x" and ?j = "index_of (uniq xs) y"
  have i: "?i < length (uniq xs)" "uniq xs ! ?i = x" and j: "?j < length (uniq xs)" "uniq xs ! ?j = y"
    using x y by (simp_all add: index_of_less nth_index_of)
  show "?i \<le> ?j \<longleftrightarrow> x \<le> y"
    using sorted_nth_mono [OF s] i j
    by (metis linorder_linear order_antisym)
qed

lemma sorted_uniq: "sorted xs \<Longrightarrow> sorted (uniq xs)"
  by (induction xs rule: uniq.induct) (auto simp: sorted_wrt_filter)

lemma rank_group_simps:
  "length (rank_group xs k) = length xs"
  "map sc_externalId (rank_group xs k) = map sc_externalId xs"
  "map sc_party (rank_group xs k) = map sc_party xs"
  by (simp_all add: rank_group_def Let_def comp_def)

lemma rank_group_range:
  "s \<in> set (rank_group xs k) \<Longrightarrow> k \<le> sc_signingOrder s \<and> sc_signingOrder s < k + int (length xs)"
proof -
  assume "s \<in> set (rank_group xs k)"
  then obtain t where t: "t \<in> set xs"
    "sc_signingOrder s = k + int (index_of (uniq (map sc_signingOrder xs)) (sc_signingOrder t))"
    by (auto simp: rank_group_def Let_def)
  have "index_of (uniq (map sc_signingOrder xs)) (sc_signingOrder t) < length (uniq (map sc_signingOrder xs))"
    using t(1) by (intro index_of_less) simp
  also have "\<dots> \<le> length xs"
    using card_length [of "map sc_signingOrder xs"] distinct_card [OF distinct_uniq]
    by (metis length_map set_uniq)
  finally show ?thesis using t(2) by simp
qed

lemma rank_group_order:
  assumes "sorted (map sc_signingOrder xs)" "i < length xs" "j < length xs"
  shows "sc_signingOrder (rank_group xs k ! i) \<le> sc_signingOrder (rank_group xs k ! j)
         \<longleftrightarrow> sc_signingOrder (xs ! i) \<le> sc_signingOrder (xs ! j)"
  using assms index_of_mono [OF sorted_uniq [OF assms(1)]]
  by (simp add: rank_group_def Let_def)

lemma rank_group_sorted:
  "sorted (map sc_signingOrder xs) \<Longrightarrow> sorted (map sc_signingOrder (rank_group xs k))"
  by (auto simp: sorted_iff_nth_mono rank_group_simps rank_group_order)

lemma sorted_map_filter: "sorted (map f xs) \<Longrightarrow> sorted (map f (filter P xs))"
  by (induction xs) auto

definition who :: "submitter_command \<Rightarrow> string \<times> party" where
  "who s = (sc_externalId s, sc_party s)"

lemma map_who_rank: "map who (rank_group xs k) = map who xs"
  by (simp add: who_def rank_group_def Let_def comp_def)

lemma mset_map_partition:
  "mset (map f (filter P xs)) + mset (map f (filter (\<lambda>x. \<not> P x) xs)) = mset (map f xs)"
  by (induction xs) auto

lemma two_groups_who: "mset (map who (two_groups p xs)) = mset (map who xs)"
  using mset_map_partition [of who "\<lambda>s. sc_party s = p" xs]
  by (simp add: two_groups_def Let_def map_who_rank del: mset_map)

lemma two_groups_orders:
  assumes "s \<in> set (two_groups p xs)" "t \<in> set (two_groups p xs)"
    and "sc_party s = p" "sc_party t \<noteq> p"
  shows "sc_signingOrder s < sc_signingOrder t"
proof -
  define g where "g = rank_group (filter (\<lambda>s. sc_party s = p) xs) 0"
  define n where "n = (if g = [] then 0 else Max (set (map sc_signingOrder g)) + 1)"
  define h where "h = rank_group (filter (\<lambda>s. sc_party s \<noteq> p) xs) n"
  have split: "two_groups p xs = g @ h" by (simp add: two_groups_def g_def h_def n_def Let_def)
  have gp: "sc_party x = p" if "x \<in> set g" for x
    using that by (auto simp: g_def rank_group_def Let_def)
  have hp: "sc_party x \<noteq> p" if "x \<in> set h" for x
    using that by (auto simp: h_def rank_group_def Let_def)
  have sg: "s \<in> set g" using assms split hp by auto
  have th: "t \<in> set h" using assms split gp by auto
  have "sc_signingOrder s < n" using sg by (auto simp: n_def intro!: le_imp_less_Suc Max_ge zle_add1_eq_le [THEN iffD2])
  moreover have "n \<le> sc_signingOrder t" using rank_group_range th by (simp add: h_def)
  ultimately show ?thesis by simp
qed

lemma two_groups_sorted:
  assumes "sorted (map sc_signingOrder xs)"
  shows "sorted (map sc_signingOrder (two_groups p xs))"
proof -
  let ?F = "filter (\<lambda>s. sc_party s = p) xs" and ?H = "filter (\<lambda>s. sc_party s \<noteq> p) xs"
  obtain n where split: "two_groups p xs = rank_group ?F 0 @ rank_group ?H n"
    by (simp add: two_groups_def Let_def)
  have "sc_signingOrder s \<le> sc_signingOrder t"
    if "s \<in> set (rank_group ?F 0)" "t \<in> set (rank_group ?H n)" for s t
  proof -
    have "sc_party s = p" "sc_party t \<noteq> p" using that by (auto simp: rank_group_def Let_def)
    then have "sc_signingOrder s < sc_signingOrder t"
      using that by (intro two_groups_orders [of s p xs t]) (simp_all add: split)
    then show ?thesis by simp
  qed
  moreover have "sorted (map sc_signingOrder (rank_group (filter P xs) k))" for P k
    using assms by (intro rank_group_sorted sorted_map_filter)
  ultimately show ?thesis by (simp add: split sorted_append)
qed

lemma mset_who_sort: "mset (map who (sort_key f xs)) = mset (map who xs)"
  by simp

definition leads :: "signing_order_policy \<Rightarrow> party \<Rightarrow> bool" where
  "leads policy p \<longleftrightarrow> (policy = CLIENT_THEN_LSI \<and> p = CLIENT) \<or> (policy = LSI_THEN_CLIENT \<and> p = LSI)"

text \<open>A signing plan invites the same signers, each once, in nondecreasing rank; under a policy
  that puts a party first, every signer of that party ranks strictly before every signer of the
  other one; under the parallel policy all share the first rank.\<close>

theorem signing_plan_correct:
  assumes "plan_signing_order submitters policy = Inr plan"
  shows "mset (map who (sp_submitters plan)) = mset (map who submitters)
    \<and> sorted (map sc_signingOrder (sp_submitters plan))
    \<and> (\<forall>s \<in> set (sp_submitters plan). \<forall>t \<in> set (sp_submitters plan).
        leads policy (sc_party s) \<and> sc_party t \<noteq> sc_party s \<longrightarrow>
        sc_signingOrder s < sc_signingOrder t)
    \<and> (policy = PARALLEL \<longrightarrow> (\<forall>s \<in> set (sp_submitters plan). sc_signingOrder s = 0))"
proof (cases policy)
  case CLIENT_THEN_LSI
  then show ?thesis
    using assms two_groups_orders [of _ CLIENT "sort_key sc_signingOrder submitters"]
    by (auto simp: plan_signing_order_def two_groups_who two_groups_sorted leads_def Let_def
        simp del: mset_map split: if_splits) (simp_all add: mset_who_sort)
next
  case LSI_THEN_CLIENT
  then show ?thesis
    using assms two_groups_orders [of _ LSI "sort_key sc_signingOrder submitters"]
    by (auto simp: plan_signing_order_def two_groups_who two_groups_sorted leads_def Let_def
        simp del: mset_map split: if_splits) (simp_all add: mset_who_sort)
next
  case PARALLEL
  have "map who (map (\<lambda>s. s\<lparr>sc_signingOrder := 0\<rparr>) xs) = map who xs" for xs
    by (simp add: who_def comp_def)
  then have "mset (map who (map (\<lambda>s. s\<lparr>sc_signingOrder := 0\<rparr>) (sort_key sc_signingOrder submitters)))
             = mset (map who submitters)"
    by (simp only: mset_who_sort)
  then show ?thesis
    using PARALLEL assms
    by (auto simp: plan_signing_order_def leads_def Let_def comp_def sorted_iff_nth_mono
        simp del: mset_map split: if_splits)
next
  case AS_DEFINED
  then show ?thesis
    using assms
    by (auto simp: plan_signing_order_def leads_def Let_def split: if_splits)
qed

theorem signing_plan_correct_witness:
  "\<exists>plan. plan_signing_order
      [\<lparr>sc_party = LSI, sc_externalId = ''l'', sc_signingOrder = 0\<rparr>,
       \<lparr>sc_party = CLIENT, sc_externalId = ''c'', sc_signingOrder = 1\<rparr>] CLIENT_THEN_LSI = Inr plan
    \<and> sorted (map sc_signingOrder (sp_submitters plan))"
proof -
  have "\<exists>plan. plan_signing_order
      [\<lparr>sc_party = LSI, sc_externalId = ''l'', sc_signingOrder = 0\<rparr>,
       \<lparr>sc_party = CLIENT, sc_externalId = ''c'', sc_signingOrder = 1\<rparr>] CLIENT_THEN_LSI = Inr plan"
    by (simp add: plan_signing_order_def)
  then show ?thesis using signing_plan_correct by blast
qed

end
