(* ===== verification/Codes.thy ===== *)
theory Codes
  imports LatestBy
begin

text \<open>
  Business codes: the price grids by commitment period (\<open>packages/domain/src/price-grid/price-grid.ts\<close>)
  and the numbers of the proposals (\<open>packages/domain/src/proposal/numbering.ts\<close>). A regular
  expression anchored at both ends is read off directly: a class, a separator outside the class,
  and the end of the string. Numbers are exact (the source's \<open>Number\<close> is, below 2^53).
\<close>

datatype code_error =
  InvalidCommitment | InvalidPrefix | InvalidNumber | InvalidYear | InvalidSequence
  | InvalidPrice | TooManyDecimals

definition is_prefix_char :: "char \<Rightarrow> bool" where
  "is_prefix_char c = (is_digit c \<or> (65 \<le> (of_char c :: nat) \<and> (of_char c :: nat) \<le> 90))"

definition is_valid_contract_kind_prefix :: "string \<Rightarrow> bool" where
  "is_valid_contract_kind_prefix prefix =
     (2 \<le> length prefix \<and> length prefix \<le> 6 \<and> list_all is_prefix_char prefix)"

definition MAX_COMMITMENT_MONTHS :: int where
  "MAX_COMMITMENT_MONTHS = 99"

definition commitment_suffix :: "int \<Rightarrow> code_error + string" where
  "commitment_suffix months =
     (if months < 0 \<or> months > MAX_COMMITMENT_MONTHS then Inl InvalidCommitment
      else Inr (''E'' @ pad_start 2 (CHR ''0'') (nat_string (nat months))))"

definition format_grid_item_code :: "string \<Rightarrow> int \<Rightarrow> code_error + string" where
  "format_grid_item_code prefix n =
     (if \<not> is_valid_contract_kind_prefix prefix then Inl InvalidPrefix
      else if n < 1 then Inl InvalidNumber
      else Inr (prefix @ ''-'' @ pad_start 4 (CHR ''0'') (nat_string (nat n))))"

definition format_grid_variant_code :: "string \<Rightarrow> int \<Rightarrow> code_error + string" where
  "format_grid_variant_code itemCode months =
     ebind (commitment_suffix months) (\<lambda>suffix. Inr (itemCode @ ''-'' @ suffix))"

record parsed_grid_code =
  pg_prefix :: string
  pg_number :: nat
  pg_itemCode :: string
  pg_months :: "nat option"

text \<open>The optional tail \<open>-E(\\d{2})\<close> of \<open>GRID_CODE_RE\<close>: \<open>None\<close> when it does not match.\<close>

definition grid_code_tail :: "string \<Rightarrow> nat option option" where
  "grid_code_tail tail =
     (if tail = [] then Some None
      else if length tail = 4 \<and> take 2 tail = ''-E'' \<and> list_all is_digit (drop 2 tail)
      then Some (Some (digits_val (drop 2 tail)))
      else None)"

definition parse_grid_code :: "string \<Rightarrow> parsed_grid_code option" where
  "parse_grid_code code =
     (let prefix = takeWhile is_prefix_char code;
          rest = dropWhile is_prefix_char code
      in if \<not> is_valid_contract_kind_prefix prefix \<or> rest = [] \<or> hd rest \<noteq> CHR ''-'' then None
         else
           let num = takeWhile is_digit (tl rest);
               tail = dropWhile is_digit (tl rest)
           in if length num < 4 then None
              else case grid_code_tail tail of
                None \<Rightarrow> None
              | Some months \<Rightarrow>
                  if digits_val num < 1 then None
                  else Some \<lparr>pg_prefix = prefix, pg_number = digits_val num,
                             pg_itemCode = prefix @ ''-'' @ num, pg_months = months\<rparr>)"

definition switch_variant_code :: "string \<Rightarrow> int \<Rightarrow> code_error + string option" where
  "switch_variant_code code months =
     (case parse_grid_code code of
        None \<Rightarrow> Inr None
      | Some p \<Rightarrow> ebind (format_grid_variant_code (pg_itemCode p) months) (\<lambda>c. Inr (Some c)))"

record dated_price =
  dp_id :: string
  dp_effectiveFrom :: string

definition later_price :: "dated_price \<Rightarrow> dated_price \<Rightarrow> bool" where
  "later_price p best =
     (dp_effectiveFrom p > dp_effectiveFrom best
      \<or> (dp_effectiveFrom p = dp_effectiveFrom best \<and> dp_id p > dp_id best))"

definition price_in_effect :: "dated_price list \<Rightarrow> string \<Rightarrow> dated_price option" where
  "price_in_effect prices onDate =
     pick later_price (filter (\<lambda>p. \<not> dp_effectiveFrom p > onDate) prices)"

definition strip_trailing_zeros :: "string \<Rightarrow> string" where
  "strip_trailing_zeros s = rev (dropWhile (\<lambda>c. c = CHR ''0'') (rev s))"

definition pad_end :: "nat \<Rightarrow> char \<Rightarrow> string \<Rightarrow> string" where
  "pad_end w c s = s @ replicate (w - length s) c"

definition grid_price_to_cents :: "string \<Rightarrow> code_error + nat" where
  "grid_price_to_cents price =
     (let t = js_trim price;
          whole = takeWhile is_digit t;
          rest = dropWhile is_digit t;
          frac = (if rest \<noteq> [] \<and> hd rest = CHR ''.'' then tl rest else [])
      in if whole = [] \<or> (rest \<noteq> [] \<and> (hd rest \<noteq> CHR ''.'' \<or> frac = [] \<or> \<not> list_all is_digit frac))
         then Inl InvalidPrice
         else
           let decimals = strip_trailing_zeros frac
           in if length decimals > 2 then Inl TooManyDecimals
              else Inr (digits_val whole * 100 + digits_val (pad_end 2 (CHR ''0'') decimals)))"

definition format_proposal_number :: "int \<Rightarrow> int \<Rightarrow> code_error + string" where
  "format_proposal_number year sequence =
     (if year < 2000 \<or> year > 9999 then Inl InvalidYear
      else if sequence < 1 then Inl InvalidSequence
      else Inr (''PROP-'' @ nat_string (nat year) @ ''-''
                @ pad_start 4 (CHR ''0'') (nat_string (nat sequence))))"

definition parse_proposal_number :: "string \<Rightarrow> (nat \<times> nat) option" where
  "parse_proposal_number n =
     (let year = take 4 (drop 5 n); sep = drop 9 n; seq = drop 10 n
      in if take 5 n = ''PROP-'' \<and> length year = 4 \<and> list_all is_digit year
            \<and> sep \<noteq> [] \<and> hd sep = CHR ''-'' \<and> 4 \<le> length seq \<and> list_all is_digit seq
         then Some (digits_val year, digits_val seq) else None)"

subsection \<open>Round trips\<close>

lemma hyphen_classes [simp]: "\<not> is_prefix_char (CHR ''-'')" "\<not> is_digit (CHR ''-'')"
  by (simp_all add: is_prefix_char_def is_digit_def)

lemma take_class:
  "list_all P xs \<Longrightarrow> \<not> P c \<Longrightarrow> takeWhile P (xs @ c # ys) = xs"
  "list_all P xs \<Longrightarrow> \<not> P c \<Longrightarrow> dropWhile P (xs @ c # ys) = c # ys"
  by (induction xs) auto

lemma take_class_all:
  "list_all P xs \<Longrightarrow> takeWhile P xs = xs" "list_all P xs \<Longrightarrow> dropWhile P xs = []"
  by (induction xs) auto

lemma padded_number:
  "list_all is_digit (pad_start w (CHR ''0'') (nat_string n))"
  "w \<le> length (pad_start w (CHR ''0'') (nat_string n))"
  by (simp_all add: pad_start_digits nat_string_digits length_pad_start)

lemma commitment_suffix_Inr:
  assumes "commitment_suffix m = Inr suffix"
  obtains ds where "suffix = CHR ''E'' # ds" "list_all is_digit ds" "length ds = 2"
    "int (digits_val ds) = m" "0 \<le> m" "m \<le> 99"
proof -
  let ?ds = "pad_start 2 (CHR ''0'') (nat_string (nat m))"
  have "length (nat_string (nat m)) \<le> 2"
    using assms by (intro length_nat_string)
      (auto simp: commitment_suffix_def MAX_COMMITMENT_MONTHS_def split: if_splits)
  then show ?thesis
    using that [of ?ds] assms
    by (auto simp: commitment_suffix_def MAX_COMMITMENT_MONTHS_def length_pad_start padded_number
        split: if_splits)
qed

lemma parse_formatted_codes:
  assumes "format_grid_item_code prefix n = Inr item" "format_grid_variant_code item m = Inr variant"
  shows "parse_grid_code item
           = Some \<lparr>pg_prefix = prefix, pg_number = nat n, pg_itemCode = item, pg_months = None\<rparr>
         \<and> parse_grid_code variant
           = Some \<lparr>pg_prefix = prefix, pg_number = nat n, pg_itemCode = item, pg_months = Some (nat m)\<rparr>"
proof -
  define num where "num = pad_start 4 (CHR ''0'') (nat_string (nat n))"
  have valid: "is_valid_contract_kind_prefix prefix" and n: "1 \<le> n"
    and item: "item = prefix @ CHR ''-'' # num"
    using assms(1) by (auto simp: format_grid_item_code_def num_def split: if_splits)
  have prefix: "list_all is_prefix_char prefix"
    using valid by (simp add: is_valid_contract_kind_prefix_def)
  have num: "list_all is_digit num" "4 \<le> length num" "digits_val num = nat n"
    by (simp_all add: num_def padded_number)
  obtain suffix where suffix: "commitment_suffix m = Inr suffix" "variant = item @ CHR ''-'' # suffix"
    using assms(2) by (auto simp: format_grid_variant_code_def ebind_Inr_iff)
  obtain ds where ds: "suffix = CHR ''E'' # ds" "list_all is_digit ds" "length ds = 2"
    "int (digits_val ds) = m"
    using commitment_suffix_Inr [OF suffix(1)] by metis
  have "parse_grid_code item
      = Some \<lparr>pg_prefix = prefix, pg_number = nat n, pg_itemCode = item, pg_months = None\<rparr>"
    using valid n num prefix
    by (simp add: parse_grid_code_def item take_class take_class_all grid_code_tail_def Let_def)
  moreover have "parse_grid_code variant
      = Some \<lparr>pg_prefix = prefix, pg_number = nat n, pg_itemCode = item, pg_months = Some (nat m)\<rparr>"
    using valid n num prefix ds
    by (auto simp: parse_grid_code_def item suffix take_class grid_code_tail_def Let_def)
  ultimately show ?thesis ..
qed

text \<open>Grid codes round-trip: the code of an article and the code of each of its variants by
  commitment parse back to the prefix, the number, the base code and the commitment they were
  formatted from.\<close>

theorem grid_codes_round_trip:
  assumes "format_grid_item_code prefix n = Inr item" "format_grid_variant_code item m = Inr variant"
  shows "parse_grid_code item
           = Some \<lparr>pg_prefix = prefix, pg_number = nat n, pg_itemCode = item, pg_months = None\<rparr>
         \<and> parse_grid_code variant
           = Some \<lparr>pg_prefix = prefix, pg_number = nat n, pg_itemCode = item, pg_months = Some (nat m)\<rparr>"
  using parse_formatted_codes [OF assms] .

theorem grid_codes_round_trip_witness:
  "parse_grid_code ''INF-0042-E12''
     = Some \<lparr>pg_prefix = ''INF'', pg_number = 42, pg_itemCode = ''INF-0042'', pg_months = Some 12\<rparr>"
proof -
  have "format_grid_item_code ''INF'' 42 = Inr ''INF-0042''"
    and "format_grid_variant_code ''INF-0042'' 12 = Inr ''INF-0042-E12''"
    by code_simp+
  from grid_codes_round_trip [OF this] show ?thesis by simp
qed

text \<open>Switching the commitment of a line keeps its article: from the base code or from any
  variant of it, \<open>switchVariantCode\<close> gives the variant of the same base code for the new duration.\<close>

theorem switch_keeps_article:
  assumes "format_grid_item_code prefix n = Inr item" "format_grid_variant_code item m = Inr variant"
  shows "switch_variant_code variant k
           = ebind (format_grid_variant_code item k) (\<lambda>c. Inr (Some c))
         \<and> switch_variant_code item k = switch_variant_code variant k"
  using parse_formatted_codes [OF assms] by (simp add: switch_variant_code_def)

theorem switch_keeps_article_witness:
  "switch_variant_code ''INF-0042-E12'' 36 = Inr (Some ''INF-0042-E36'')"
proof -
  have f: "format_grid_item_code ''INF'' 42 = Inr ''INF-0042''"
    "format_grid_variant_code ''INF-0042'' 12 = Inr ''INF-0042-E12''"
    "format_grid_variant_code ''INF-0042'' 36 = Inr ''INF-0042-E36''"
    by code_simp+
  show ?thesis using switch_keeps_article [OF f(1,2), of 36] f(3) by simp
qed

lemma length_nat_string_lower: "10 ^ k \<le> n \<Longrightarrow> k < length (nat_string n)"
proof (induction n arbitrary: k rule: nat_string.induct)
  case (1 n)
  show ?case
  proof (cases k)
    case (Suc j)
    with "1.prems" have "\<not> n < 10" "10 ^ j \<le> n div 10"
      by (auto simp: less_eq_div_iff_mult_less_eq) (metis le_trans mult_le_mono2 one_le_numeral
          one_le_power mult.right_neutral not_le)
    then show ?thesis using "1.IH" [of j] Suc by (subst nat_string.simps) simp
  qed (simp add: nat_string_nonempty)
qed

lemma length_nat_string_exact: "1000 \<le> n \<Longrightarrow> n < 10 ^ 4 \<Longrightarrow> length (nat_string n) = 4"
  using length_nat_string_lower [of 3 n] length_nat_string [of n 4] by simp

text \<open>Proposal numbers round-trip: every number formatted for a year from 2000 to 9999 and a
  sequence from 1 on parses back to that year and sequence; other years and sequences are refused.\<close>

theorem proposal_number_round_trip:
  "(case format_proposal_number year sequence of
      Inl _ \<Rightarrow> year < 2000 \<or> year > 9999 \<or> sequence < 1
    | Inr n \<Rightarrow> 2000 \<le> year \<and> year \<le> 9999 \<and> 1 \<le> sequence
        \<and> parse_proposal_number n = Some (nat year, nat sequence))"
proof (cases "year < 2000 \<or> year > 9999 \<or> sequence < 1")
  case False
  let ?y = "nat_string (nat year)" and ?s = "pad_start 4 (CHR ''0'') (nat_string (nat sequence))"
  have "1000 \<le> nat year" "nat year < 10 ^ 4" using False by auto
  then have len: "length ?y = 4" by (rule length_nat_string_exact)
  then have "parse_proposal_number (''PROP-'' @ ?y @ ''-'' @ ?s) = Some (nat year, nat sequence)"
    by (simp add: parse_proposal_number_def Let_def nat_string_digits padded_number)
  then show ?thesis using False by (simp add: format_proposal_number_def)
qed (auto simp: format_proposal_number_def)

subsection \<open>Prices in effect\<close>

definition price_key :: "dated_price \<Rightarrow> string \<times> string" where
  "price_key p = (dp_effectiveFrom p, dp_id p)"

interpretation latest_price: latest_by later_price price_key
  by unfold_locales (auto simp: later_price_def price_key_def less_prod_def)

text \<open>The price in effect at a date is the one with the latest effective date not after it, the
  last entered (greatest identifier) among several; there is none exactly when every price takes
  effect later; and the order in which the prices are given does not matter.\<close>

theorem price_in_effect_correct:
  "(case price_in_effect prices onDate of
      None \<Rightarrow> list_all (\<lambda>q. onDate < dp_effectiveFrom q) prices
    | Some p \<Rightarrow> p \<in> set prices \<and> dp_effectiveFrom p \<le> onDate
        \<and> list_all (\<lambda>q. price_key q \<le> price_key p)
            (filter (\<lambda>q. dp_effectiveFrom q \<le> onDate) prices))
   \<and> (inj_on price_key (set prices) \<and> mset prices = mset prices' \<longrightarrow>
      price_in_effect prices onDate = price_in_effect prices' onDate)"
proof
  let ?ok = "\<lambda>p. \<not> dp_effectiveFrom p > onDate"
  show "case price_in_effect prices onDate of
      None \<Rightarrow> list_all (\<lambda>q. onDate < dp_effectiveFrom q) prices
    | Some p \<Rightarrow> p \<in> set prices \<and> dp_effectiveFrom p \<le> onDate
        \<and> list_all (\<lambda>q. price_key q \<le> price_key p)
            (filter (\<lambda>q. dp_effectiveFrom q \<le> onDate) prices)"
  proof (cases "price_in_effect prices onDate")
    case None
    then show ?thesis by (simp add: price_in_effect_def filter_empty_conv list_all_iff)
  next
    case (Some p)
    then have p: "pick later_price (filter ?ok prices) = Some p" by (simp add: price_in_effect_def)
    then show ?thesis
      using pick_in [OF p] latest_price.pick_greatest [OF p] Some by (auto simp: list_all_iff not_less)
  qed
  show "inj_on price_key (set prices) \<and> mset prices = mset prices' \<longrightarrow>
      price_in_effect prices onDate = price_in_effect prices' onDate"
    by (auto simp: price_in_effect_def mset_filter simp del: not_less
        intro!: latest_price.pick_order_irrelevant elim: inj_on_subset)
qed

theorem price_in_effect_correct_witness:
  "price_in_effect [\<lparr>dp_id = ''a'', dp_effectiveFrom = ''2026-01-01''\<rparr>,
                    \<lparr>dp_id = ''b'', dp_effectiveFrom = ''2026-07-01''\<rparr>] ''2026-12-31''
   = price_in_effect [\<lparr>dp_id = ''b'', dp_effectiveFrom = ''2026-07-01''\<rparr>,
                      \<lparr>dp_id = ''a'', dp_effectiveFrom = ''2026-01-01''\<rparr>] ''2026-12-31''"
  by (rule price_in_effect_correct [THEN conjunct2, rule_format])
    (simp add: price_key_def inj_on_def)

subsection \<open>Prices in cents\<close>

lemma foldl_digits: "foldl (\<lambda>n c. 10 * n + digit_val c) a s = a * 10 ^ length s + digits_val s"
proof (induction s rule: rev_induct)
  case (snoc c s)
  then show ?case by (simp add: digits_val_append algebra_simps)
qed (simp add: digits_val_def)

lemma digits_val_app: "digits_val (s @ t) = digits_val s * 10 ^ length t + digits_val t"
  using foldl_digits [of "digits_val s" t] by (simp add: digits_val_def)

lemma digits_val_zeros [simp]: "digits_val (replicate k (CHR ''0'')) = 0"
  using digits_val_replicate_zero [of k "[]"] by (simp add: digits_val_def)

lemma strip_trailing_zeros_split:
  "\<exists>k. s = strip_trailing_zeros s @ replicate k (CHR ''0'')"
proof -
  let ?z = "takeWhile (\<lambda>c. c = CHR ''0'') (rev s)"
  have "?z = replicate (length ?z) (CHR ''0'')"
    by (intro replicate_eqI) (auto dest: set_takeWhileD)
  moreover have "s = strip_trailing_zeros s @ rev ?z"
    unfolding strip_trailing_zeros_def
    by (metis rev_append rev_rev_ident takeWhile_dropWhile_id)
  ultimately show ?thesis by (metis rev_replicate)
qed

text \<open>A grid price turned into cents is exact: for an accepted price with integer part \<open>w\<close> and
  decimals \<open>f\<close> (any number of them), the number of cents is the decimal value times one hundred,
  never rounded; a third significant decimal is refused.\<close>

theorem grid_price_exact:
  assumes "list_all is_digit w" "w \<noteq> []" "list_all is_digit f" "f \<noteq> []"
  shows "case grid_price_to_cents (w @ ''.'' @ f) of
           Inr c \<Rightarrow> c * 10 ^ length f = 100 * (digits_val w * 10 ^ length f + digits_val f)
         | Inl e \<Rightarrow> e = TooManyDecimals \<and> 2 < length (strip_trailing_zeros f)"
proof -
  have dig: "\<not> is_js_space c" if "is_digit c" for c
    using that by (auto simp: is_digit_def is_js_space_def)
  have trim: "js_trim (w @ ''.'' @ f) = w @ ''.'' @ f"
  proof -
    have "dropWhile is_js_space (w @ ''.'' @ f) = w @ ''.'' @ f"
      using assms dig by (cases w) auto
    moreover have "dropWhile is_js_space (rev (w @ ''.'' @ f)) = rev (w @ ''.'' @ f)"
      using assms dig by (cases f rule: rev_cases) auto
    ultimately show ?thesis by (simp only: js_trim_def rev_rev_ident)
  qed
  have dot: "\<not> is_digit (CHR ''.'')" by (simp add: is_digit_def)
  let ?d = "strip_trailing_zeros f"
  obtain k where k: "f = ?d @ replicate k (CHR ''0'')" using strip_trailing_zeros_split by blast
  have cents: "grid_price_to_cents (w @ ''.'' @ f) =
      (if length ?d > 2 then Inl TooManyDecimals
       else Inr (digits_val w * 100 + digits_val (pad_end 2 (CHR ''0'') ?d)))"
    using assms trim dot
    by (simp add: grid_price_to_cents_def take_class Let_def)
  have "digits_val (pad_end 2 (CHR ''0'') ?d) * 10 ^ length f = 100 * digits_val f"
    if "length ?d \<le> 2"
  proof -
    have v: "digits_val f = digits_val ?d * 10 ^ k"
      by (subst k) (simp add: digits_val_app)
    have l: "length f = length ?d + k" by (subst k) simp
    have "digits_val (pad_end 2 (CHR ''0'') ?d) = digits_val ?d * 10 ^ (2 - length ?d)"
      by (simp add: pad_end_def digits_val_app)
    moreover have "(10::nat) ^ (2 - length ?d) * 10 ^ length ?d = 100"
      using that by (simp flip: power_add)
    ultimately show ?thesis by (simp add: v l power_add)
  qed
  then show ?thesis unfolding cents by (auto simp: algebra_simps)
qed

theorem grid_price_exact_witness:
  "grid_price_to_cents ''12.5000'' = Inr 1250"
proof -
  have d: "list_all is_digit ''12''" "''12'' \<noteq> []" "list_all is_digit ''5000''" "''5000'' \<noteq> []"
    and l: "strip_trailing_zeros ''5000'' = ''5''" and v: "digits_val ''12'' = 12" "digits_val ''5000'' = 5000"
    by code_simp+
  show ?thesis
    using grid_price_exact [OF d] by (simp add: l v split: sum.splits)
qed

end
