(* ===== verification/FollowUps.thy ===== *)
theory FollowUps
  imports ProposalMachine
begin

text \<open>
  Automatic follow-ups of a proposal: \<open>packages/domain/src/proposal/follow-ups.ts\<close>. The French
  reason of a skip is its constructor.
\<close>

datatype follow_up_kind = NO_OPEN | NO_DECISION | BEFORE_EXPIRY

record follow_up_config =
  fc_noOpenAfterDays :: int
  fc_noDecisionAfterDays :: int
  fc_beforeExpiryDays :: int

definition DEFAULT_FOLLOW_UPS :: follow_up_config where
  "DEFAULT_FOLLOW_UPS =
     \<lparr>fc_noOpenAfterDays = 3, fc_noDecisionAfterDays = 7, fc_beforeExpiryDays = 2\<rparr>"

definition FOLLOW_UP_MIN_SPACING_MS :: int where
  "FOLLOW_UP_MIN_SPACING_MS = 48 * 3600 * 1000"

definition FU_DAY :: int where
  "FU_DAY = 24 * 3600 * 1000"

definition plan_follow_ups ::
    "jsdate \<Rightarrow> jsdate \<Rightarrow> follow_up_config \<Rightarrow> (follow_up_kind \<times> jsdate) list" where
  "plan_follow_ups sentAt expiresAt cfg =
     (let plan = [(NO_OPEN, sentAt + fc_noOpenAfterDays cfg * FU_DAY),
                  (NO_DECISION, sentAt + fc_noDecisionAfterDays cfg * FU_DAY),
                  (BEFORE_EXPIRY, expiresAt - fc_beforeExpiryDays cfg * FU_DAY)]
      in filter (\<lambda>(kind, dueAt). dueAt > sentAt \<and> dueAt < expiresAt) plan)"

record follow_up_context =
  fx_status :: proposal_status
  fx_enabled :: bool
  fx_firstViewedAt :: "jsdate option"
  fx_clientRespondedAt :: "jsdate option"
  fx_lastFollowUpSentAt :: "jsdate option"
  fx_expiresAt :: "jsdate option"

datatype follow_up_skip = Disabled | StatusReason proposal_status | Responded | ProposalOver | AlreadyOpened

datatype follow_up_decision = SEND | SKIP follow_up_skip | POSTPONE jsdate

definition decide_follow_up ::
    "follow_up_kind \<Rightarrow> follow_up_context \<Rightarrow> jsdate \<Rightarrow> follow_up_decision" where
  "decide_follow_up kind ctx now =
     (if \<not> fx_enabled ctx then SKIP Disabled
      else if fx_status ctx \<noteq> P_SENT \<and> fx_status ctx \<noteq> P_VIEWED then SKIP (StatusReason (fx_status ctx))
      else if fx_clientRespondedAt ctx \<noteq> None then SKIP Responded
      else if (case fx_expiresAt ctx of None \<Rightarrow> False | Some e \<Rightarrow> e \<le> now) then SKIP ProposalOver
      else if kind = NO_OPEN \<and> (fx_firstViewedAt ctx \<noteq> None \<or> fx_status ctx \<noteq> P_SENT)
      then SKIP AlreadyOpened
      else case fx_lastFollowUpSentAt ctx of
        Some l \<Rightarrow>
          if now - l < FOLLOW_UP_MIN_SPACING_MS then POSTPONE (l + FOLLOW_UP_MIN_SPACING_MS)
          else SEND
      | None \<Rightarrow> SEND)"

subsection \<open>The daily job\<close>

text \<open>The follow-ups of one proposal as they fall due: each decision to send becomes the last follow-up
  sent, whatever happened to the proposal in between.\<close>

fun sent_follow_ups ::
    "jsdate option \<Rightarrow> (follow_up_kind \<times> follow_up_context \<times> jsdate) list \<Rightarrow> jsdate list" where
  "sent_follow_ups last_sent [] = []"
| "sent_follow_ups last_sent ((kind, ctx, now) # rest) =
     (if decide_follow_up kind (ctx\<lparr>fx_lastFollowUpSentAt := last_sent\<rparr>) now = SEND
      then now # sent_follow_ups (Some now) rest
      else sent_follow_ups last_sent rest)"

fun spaced :: "jsdate option \<Rightarrow> jsdate list \<Rightarrow> bool" where
  "spaced prior [] = True"
| "spaced prior (t # ts) =
     ((case prior of None \<Rightarrow> True | Some b \<Rightarrow> b + FOLLOW_UP_MIN_SPACING_MS \<le> t) \<and> spaced (Some t) ts)"

text \<open>Never more than one follow-up per 48 hours: whatever follow-ups fall due, in whatever states
  of the proposal and at whatever times, two that are sent in a row are at least 48 hours apart.\<close>

theorem follow_ups_spaced: "spaced last_sent (sent_follow_ups last_sent dues)"
  by (induction last_sent dues rule: sent_follow_ups.induct)
    (auto simp: decide_follow_up_def split: if_splits option.splits)

text \<open>A follow-up is sent exactly when follow-ups are enabled, the proposal is with the client
  (sent or viewed), unanswered and unexpired, not yet opened when the follow-up is about opening it,
  and the last follow-up is at least 48 hours old; when it is postponed, the new time is the first
  at which the same proposal would be followed up, unless its validity ends.\<close>

theorem follow_up_decision:
  "(decide_follow_up kind ctx now = SEND)
     = (fx_enabled ctx \<and> fx_status ctx \<in> {P_SENT, P_VIEWED} \<and> fx_clientRespondedAt ctx = None
        \<and> (case fx_expiresAt ctx of None \<Rightarrow> True | Some e \<Rightarrow> now < e)
        \<and> (if kind = NO_OPEN then fx_firstViewedAt ctx = None \<and> fx_status ctx = P_SENT else True)
        \<and> (case fx_lastFollowUpSentAt ctx of None \<Rightarrow> True | Some l \<Rightarrow> l + FOLLOW_UP_MIN_SPACING_MS \<le> now))
   \<and> (case decide_follow_up kind ctx now of
        POSTPONE t \<Rightarrow> now < t
          \<and> (case fx_expiresAt ctx of
               None \<Rightarrow> decide_follow_up kind ctx t = SEND
             | Some e \<Rightarrow> (if t < e then decide_follow_up kind ctx t = SEND else True))
      | _ \<Rightarrow> True)"
  by (auto simp: decide_follow_up_def split: option.splits)

text \<open>A planned follow-up always falls strictly between the sending and the expiry, and there is
  at most one of each kind.\<close>

theorem planned_follow_ups_useful:
  "list_all (\<lambda>(kind, t). sentAt < t \<and> t < expiresAt) (plan_follow_ups sentAt expiresAt cfg)
   \<and> distinct (map fst (plan_follow_ups sentAt expiresAt cfg))"
  by (auto simp: plan_follow_ups_def Let_def)

end
