(* ===== verification/Money.thy ===== *)
theory Money
  imports LatestBy JsDate Complex_Main
begin

text \<open>
  The base of the pricing engine: \<open>packages/pricing/src/errors.ts\<close> and \<open>money.ts\<close>.

  decimal.js is a third-party package: its operations are the record \<open>decimal_ops\<close>, passed to
  every definition that computes with decimals, and nothing is assumed of it unless a theorem says
  so. The named hypothesis \<open>decimal_laws\<close> states its documentation: each decimal has a rational
  value; comparisons compare values; a result of \<open>plus\<close>, \<open>minus\<close>, \<open>times\<close>, \<open>div\<close> is the exact
  result correctly rounded to the precision of 40 digits (an increasing function that keeps 0); \<open>neg\<close>, \<open>abs\<close>
  and the reading of a decimal string are exact; \<open>toDecimalPlaces\<close> rounds to the nearest multiple.

  An error keeps what the callers look at: its code, whether it is a \<open>FormulaError\<close>, its position
  and the line it is attached to. Messages are left out.
\<close>

subsection \<open>Errors\<close>

datatype pricing_error_code =
    INVALID_DECIMAL | INVALID_DATE | INVALID_LINE | INVALID_SETTINGS | NO_SCHEDULE
  | OVERLAPPING_SCHEDULES | MISSING_QUANTITY | MISSING_CONTEXT | RULE_NOT_FOUND | NEGATIVE_PRICE
  | INDEX_NOT_FOUND | INDEX_VALUE_NOT_FOUND | DUPLICATE_INDEX_VALUE | INVALID_REVISION_COEFFICIENTS
  | AMBIGUOUS_OVERRIDE | DISCOUNT_TARGET_MISMATCH | DISCOUNT_EXCEEDS_BASE
  | FORMULA_SYNTAX | FORMULA_UNKNOWN_VARIABLE | FORMULA_UNKNOWN_FUNCTION | FORMULA_ARITY
  | FORMULA_LIMIT | FORMULA_EVALUATION | DIVISION_BY_ZERO | QUANTITY_UNAVAILABLE

record pricing_error =
  er_code :: pricing_error_code
  er_formula :: bool
  er_position :: "nat option"
  er_lineId :: "string option"

definition pricing_error :: "pricing_error_code \<Rightarrow> pricing_error" where
  "pricing_error c = \<lparr>er_code = c, er_formula = False, er_position = None, er_lineId = None\<rparr>"

definition line_error :: "pricing_error_code \<Rightarrow> string \<Rightarrow> pricing_error" where
  "line_error c lineId =
     \<lparr>er_code = c, er_formula = False, er_position = None, er_lineId = Some lineId\<rparr>"

definition formula_error :: "pricing_error_code \<Rightarrow> nat option \<Rightarrow> pricing_error" where
  "formula_error c pos = \<lparr>er_code = c, er_formula = True, er_position = pos, er_lineId = None\<rparr>"

type_synonym 'a priced = "pricing_error + 'a"

subsection \<open>Decimals\<close>

datatype rounding_mode = HALF_AWAY_FROM_ZERO | HALF_EVEN

text \<open>The methods of decimal.js the engine calls; \<open>dec_int\<close> is \<open>BigInt(x.toFixed(0))\<close> of an integral
  decimal and \<open>dec_nat\<close> is \<open>x.toNumber()\<close> of a small natural one.\<close>

record 'd decimal_ops =
  dec_of_string :: "string \<Rightarrow> 'd"
  dec_of_int :: "int \<Rightarrow> 'd"
  dec_plus :: "'d \<Rightarrow> 'd \<Rightarrow> 'd"
  dec_minus :: "'d \<Rightarrow> 'd \<Rightarrow> 'd"
  dec_times :: "'d \<Rightarrow> 'd \<Rightarrow> 'd"
  dec_div :: "'d \<Rightarrow> 'd \<Rightarrow> 'd"
  dec_neg :: "'d \<Rightarrow> 'd"
  dec_abs :: "'d \<Rightarrow> 'd"
  dec_pow :: "'d \<Rightarrow> 'd \<Rightarrow> 'd"
  dec_min :: "'d list \<Rightarrow> 'd"
  dec_max :: "'d list \<Rightarrow> 'd"
  dec_floor :: "'d \<Rightarrow> 'd"
  dec_ceil :: "'d \<Rightarrow> 'd"
  dec_lt :: "'d \<Rightarrow> 'd \<Rightarrow> bool"
  dec_eq :: "'d \<Rightarrow> 'd \<Rightarrow> bool"
  dec_is_zero :: "'d \<Rightarrow> bool"
  dec_is_negative :: "'d \<Rightarrow> bool"
  dec_is_integer :: "'d \<Rightarrow> bool"
  dec_is_finite :: "'d \<Rightarrow> bool"
  dec_to_places :: "'d \<Rightarrow> nat \<Rightarrow> rounding_mode \<Rightarrow> 'd"
  dec_places :: "'d \<Rightarrow> nat"
  dec_int :: "'d \<Rightarrow> int"
  dec_nat :: "'d \<Rightarrow> nat"
  dec_to_fixed :: "'d \<Rightarrow> nat \<Rightarrow> string"
  dec_to_string :: "'d \<Rightarrow> string"

definition dec_lte :: "'d decimal_ops \<Rightarrow> 'd \<Rightarrow> 'd \<Rightarrow> bool" where
  "dec_lte dc x y = (dec_lt dc x y \<or> dec_eq dc x y)"

abbreviation dec_gt :: "'d decimal_ops \<Rightarrow> 'd \<Rightarrow> 'd \<Rightarrow> bool" where
  "dec_gt dc x y \<equiv> dec_lt dc y x"

definition dec_zero :: "'d decimal_ops \<Rightarrow> 'd" where
  "dec_zero dc = dec_of_int dc 0"

definition round_to_scale :: "'d decimal_ops \<Rightarrow> 'd \<Rightarrow> nat \<Rightarrow> rounding_mode \<Rightarrow> 'd" where
  "round_to_scale dc x scale mode = dec_to_places dc x scale mode"

definition to_cents :: "'d decimal_ops \<Rightarrow> 'd \<Rightarrow> rounding_mode \<Rightarrow> int" where
  "to_cents dc euros mode =
     dec_int dc (dec_to_places dc (dec_times dc euros (dec_of_int dc 100)) 0 mode)"

definition cents_to_euros :: "'d decimal_ops \<Rightarrow> int \<Rightarrow> 'd" where
  "cents_to_euros dc cents = dec_div dc (dec_of_int dc cents) (dec_of_int dc 100)"

definition format_cents :: "'d decimal_ops \<Rightarrow> int \<Rightarrow> string" where
  "format_cents dc cents = dec_to_fixed dc (cents_to_euros dc cents) 2"

subsection \<open>Inputs\<close>

text \<open>\<open>DECIMAL_RE\<close>: sign, 1 to 20 digits, and decimals if there is a point.\<close>

definition match_decimal :: "string \<Rightarrow> (bool \<times> string \<times> string option) option" where
  "match_decimal value =
     (let neg = (value \<noteq> [] \<and> hd value = CHR ''-'');
          body = (if neg then tl value else value);
          whole = takeWhile is_digit body;
          rest = dropWhile is_digit body
      in if whole = [] \<or> length whole > 20 then None
         else if rest = [] then Some (neg, whole, None)
         else if hd rest = CHR ''.'' \<and> tl rest \<noteq> [] \<and> list_all is_digit (tl rest)
         then Some (neg, whole, Some (tl rest))
         else None)"

definition parse_decimal :: "'d decimal_ops \<Rightarrow> string \<Rightarrow> nat \<Rightarrow> bool \<Rightarrow> 'd priced" where
  "parse_decimal dc value maxScale allowNegative =
     (case match_decimal value of
        None \<Rightarrow> Inl (pricing_error INVALID_DECIMAL)
      | Some (neg, whole, decimals) \<Rightarrow>
          if neg \<and> \<not> allowNegative then Inl (pricing_error INVALID_DECIMAL)
          else if (case decimals of None \<Rightarrow> 0 | Some f \<Rightarrow> length f) > maxScale
          then Inl (pricing_error INVALID_DECIMAL)
          else Inr (dec_of_string dc value))"

definition parse_price :: "'d decimal_ops \<Rightarrow> string \<Rightarrow> 'd priced" where
  "parse_price dc value = parse_decimal dc value 6 False"

definition match_date :: "string \<Rightarrow> (nat \<times> nat \<times> nat) option" where
  "match_date value =
     (if length value = 10 \<and> list_all is_digit (take 4 value) \<and> value ! 4 = CHR ''-''
         \<and> list_all is_digit (take 2 (drop 5 value)) \<and> value ! 7 = CHR ''-''
         \<and> list_all is_digit (drop 8 value)
      then Some (digits_val (take 4 value), digits_val (take 2 (drop 5 value)),
                 digits_val (drop 8 value))
      else None)"

definition parse_iso_date :: "string \<Rightarrow> string priced" where
  "parse_iso_date value =
     (case match_date value of
        Some (y, mo, d) \<Rightarrow>
          (let probe = date_utc (int y) (int mo - 1) (int d)
           in if get_utc_full_year probe = int y \<and> get_utc_month probe = int mo - 1
                 \<and> get_utc_date probe = int d
              then Inr value else Inl (pricing_error INVALID_DATE))
      | None \<Rightarrow> Inl (pricing_error INVALID_DATE))"

definition parse_period :: "string \<Rightarrow> string priced" where
  "parse_period value =
     (if length value = 7 \<and> list_all is_digit (take 4 value) \<and> value ! 4 = CHR ''-''
         \<and> list_all is_digit (drop 5 value)
         \<and> 1 \<le> digits_val (drop 5 value) \<and> digits_val (drop 5 value) \<le> 12
      then Inr value else Inl (pricing_error INVALID_DATE))"

subsection \<open>The documentation of decimal.js\<close>

definition half_round :: "rounding_mode \<Rightarrow> rat \<Rightarrow> int" where
  "half_round mode x =
     (let n = \<lfloor>\<bar>x\<bar>\<rfloor>; f = \<bar>x\<bar> - of_int n;
          up = (f > 1 / 2 \<or> (f = 1 / 2 \<and> (mode = HALF_AWAY_FROM_ZERO \<or> odd n)));
          m = (if up then n + 1 else n)
      in if x < 0 then - m else m)"

definition decimal_value :: "bool \<Rightarrow> string \<Rightarrow> string option \<Rightarrow> rat" where
  "decimal_value neg whole decimals =
     (let v = of_nat (digits_val whole)
              + (case decimals of None \<Rightarrow> 0 | Some f \<Rightarrow> of_nat (digits_val f) / 10 ^ length f)
      in if neg then - v else v)"

definition decimal_laws :: "'d decimal_ops \<Rightarrow> ('d \<Rightarrow> rat) \<Rightarrow> (rat \<Rightarrow> rat) \<Rightarrow> bool" where
  "decimal_laws dc val rnd \<longleftrightarrow>
     mono rnd \<and> rnd 0 = 0 \<and> (\<forall>x. rnd (rnd x) = rnd x) \<and> (\<forall>n::int. \<bar>n\<bar> < 10 ^ 40 \<longrightarrow> rnd (of_int n) = of_int n)
     \<and> (\<forall>n::int. \<bar>n\<bar> < 10 ^ 40 \<longrightarrow> rnd (of_int n / 100) = of_int n / 100)
     \<and> (\<forall>n. val (dec_of_int dc n) = of_int n)
     \<and> (\<forall>s neg w f. match_decimal s = Some (neg, w, f) \<longrightarrow>
          val (dec_of_string dc s) = decimal_value neg w f)
     \<and> (\<forall>x y. val (dec_plus dc x y) = rnd (val x + val y))
     \<and> (\<forall>x y. val (dec_minus dc x y) = rnd (val x - val y))
     \<and> (\<forall>x y. val (dec_times dc x y) = rnd (val x * val y))
     \<and> (\<forall>x y. val y \<noteq> 0 \<longrightarrow> val (dec_div dc x y) = rnd (val x / val y))
     \<and> (\<forall>x. val (dec_neg dc x) = - val x) \<and> (\<forall>x. val (dec_abs dc x) = \<bar>val x\<bar>)
     \<and> (\<forall>x y. dec_lt dc x y \<longleftrightarrow> val x < val y) \<and> (\<forall>x y. dec_eq dc x y \<longleftrightarrow> val x = val y)
     \<and> (\<forall>x. dec_is_zero dc x \<longleftrightarrow> val x = 0) \<and> (\<forall>x. val x < 0 \<longrightarrow> dec_is_negative dc x)
     \<and> (\<forall>x n mode. val (dec_to_places dc x n mode)
          = of_int (half_round mode (val x * 10 ^ n)) / 10 ^ n)
     \<and> (\<forall>x k. val x = of_int k \<longrightarrow> dec_int dc x = k)
     \<and> (\<forall>x. \<bar>rnd x - x\<bar> \<le> \<bar>x\<bar> / 10 ^ 39)"

lemma decimal_lawsD:
  assumes "decimal_laws dc val rnd"
  shows "mono rnd" "rnd 0 = 0" "rnd (rnd x) = rnd x" "dec_lt dc a b \<longleftrightarrow> val a < val b"
    "val (dec_of_int dc n) = of_int n" "val (dec_plus dc a b) = rnd (val a + val b)"
    "val (dec_minus dc a b) = rnd (val a - val b)" "val (dec_times dc a b) = rnd (val a * val b)"
    "val b \<noteq> 0 \<Longrightarrow> val (dec_div dc a b) = rnd (val a / val b)"
    "val (dec_neg dc a) = - val a" "val (dec_abs dc a) = \<bar>val a\<bar>" "dec_eq dc a b \<longleftrightarrow> val a = val b"
    "dec_is_zero dc a \<longleftrightarrow> val a = 0" "val a < 0 \<Longrightarrow> dec_is_negative dc a"
    "val (dec_to_places dc a k mode) = of_int (half_round mode (val a * 10 ^ k)) / 10 ^ k"
    "val a = of_int n \<Longrightarrow> dec_int dc a = n"
    "\<bar>n\<bar> < 10 ^ 40 \<Longrightarrow> rnd (of_int n) = of_int n"
    "\<bar>n\<bar> < 10 ^ 40 \<Longrightarrow> rnd (of_int n / 100) = of_int n / 100"
    "\<bar>rnd x - x\<bar> \<le> \<bar>x\<bar> / 10 ^ 39"
  using assms by (simp_all add: decimal_laws_def)

lemma dec_lte_val: "decimal_laws dc val rnd \<Longrightarrow> dec_lte dc a b \<longleftrightarrow> val a \<le> val b"
  by (auto simp: dec_lte_def decimal_lawsD)

lemma rnd_nonneg: "decimal_laws dc val rnd \<Longrightarrow> 0 \<le> x \<Longrightarrow> 0 \<le> rnd x"
  using monoD [of rnd 0 x] by (simp add: decimal_lawsD)

lemma val_dec_of_string:
  "decimal_laws dc val rnd \<Longrightarrow> match_decimal s = Some (neg, w, f) \<Longrightarrow>
     val (dec_of_string dc s) = decimal_value neg w f"
  by (simp add: decimal_laws_def)

lemma parse_price_nonneg:
  assumes "decimal_laws dc val rnd" "parse_price dc s = Inr p"
  shows "0 \<le> val p"
  using assms(2) val_dec_of_string [OF assms(1), of s]
  by (auto simp: parse_price_def parse_decimal_def decimal_value_def
      split: option.splits if_splits prod.splits)

end
