(* ===== verification/ExactDecimals.thy ===== *)
theory ExactDecimals
  imports Money
begin

text \<open>
  Exact rational arithmetic as an instance of the documentation of decimal.js: it shows that
  \<open>decimal_laws\<close> can hold and gives the examples numbers to compute with.
\<close>

definition rat_is_int :: "rat \<Rightarrow> bool" where
  "rat_is_int x = (of_int \<lfloor>x\<rfloor> = x)"

definition rat_round :: "rat \<Rightarrow> nat \<Rightarrow> rounding_mode \<Rightarrow> rat" where
  "rat_round x n mode = of_int (half_round mode (x * 10 ^ n)) / 10 ^ n"

definition rat_read :: "string \<Rightarrow> rat" where
  "rat_read s = (case match_decimal s of None \<Rightarrow> 0 | Some (neg, w, f) \<Rightarrow> decimal_value neg w f)"

definition rat_pow :: "rat \<Rightarrow> rat \<Rightarrow> rat" where
  "rat_pow x y = (if 0 \<le> y then x ^ nat \<lfloor>y\<rfloor> else inverse x ^ nat \<lfloor>- y\<rfloor>)"

text \<open>The texts read the fraction \<open>a / b\<close>; they only matter to the examples.\<close>

fun places_of_fraction :: "int \<times> int \<Rightarrow> nat" where
  "places_of_fraction (a, b) =
     (case List.find (\<lambda>k. a * 10 ^ k mod b = 0) [0..<41] of None \<Rightarrow> 40 | Some k \<Rightarrow> k)"

definition rat_places :: "rat \<Rightarrow> nat" where
  "rat_places x = places_of_fraction (quotient_of x)"

fun last_digits :: "nat \<Rightarrow> int \<Rightarrow> string" where
  "last_digits 0 m = []"
| "last_digits (Suc k) m = last_digits k (m div 10) @ [digit_char (nat (m mod 10))]"

definition show_whole :: "string \<Rightarrow> string" where
  "show_whole ds = (if ds = [] then ''0'' else ds)"

definition show_scaled :: "bool \<Rightarrow> nat \<Rightarrow> int \<Rightarrow> string" where
  "show_scaled neg n m =
     (if neg then ''-'' else [])
     @ show_whole (dropWhile (\<lambda>c. c = CHR ''0'') (last_digits 40 (m div 10 ^ n)))
     @ (if n = 0 then [] else CHR ''.'' # last_digits n (m mod 10 ^ n))"

fun show_fraction :: "nat \<Rightarrow> int \<times> int \<Rightarrow> string" where
  "show_fraction n (a, b) = show_scaled (a < 0) n ((2 * \<bar>a\<bar> * 10 ^ n + b) div (2 * b))"

definition rat_show :: "rat \<Rightarrow> nat \<Rightarrow> string" where
  "rat_show x n = show_fraction n (quotient_of x)"

fun string_of_fraction :: "int \<times> int \<Rightarrow> string" where
  "string_of_fraction (a, b) = show_fraction (places_of_fraction (a, b)) (a, b)"

definition rat_to_string :: "rat \<Rightarrow> string" where
  "rat_to_string x = string_of_fraction (quotient_of x)"

definition rat_ops :: "rat decimal_ops" where
  "rat_ops =
     \<lparr>dec_of_string = rat_read, dec_of_int = rat_of_int,
      dec_plus = (+), dec_minus = (-), dec_times = (*), dec_div = (/),
      dec_neg = uminus, dec_abs = abs, dec_pow = rat_pow,
      dec_min = \<lambda>xs. fold min xs (hd xs), dec_max = \<lambda>xs. fold max xs (hd xs),
      dec_floor = \<lambda>x. of_int \<lfloor>x\<rfloor>, dec_ceil = \<lambda>x. of_int \<lceil>x\<rceil>,
      dec_lt = (<), dec_eq = (=), dec_is_zero = \<lambda>x. x = 0, dec_is_negative = \<lambda>x. x < 0,
      dec_is_integer = rat_is_int, dec_is_finite = \<lambda>x. True,
      dec_to_places = rat_round, dec_places = rat_places,
      dec_int = \<lambda>x. \<lfloor>x\<rfloor>, dec_nat = \<lambda>x. nat \<lfloor>x\<rfloor>,
      dec_to_fixed = rat_show, dec_to_string = rat_to_string\<rparr>"

lemma rat_laws: "decimal_laws rat_ops id id"
  unfolding decimal_laws_def rat_ops_def
  by (auto simp: monoI rat_read_def rat_round_def)

end
