(* ===== verification/FormulaParser.thy ===== *)
theory FormulaParser
  imports Money
begin

text \<open>
  The formula language: \<open>packages/pricing/src/formula/tokenizer.ts\<close> and \<open>parser.ts\<close>. The parser
  keeps an index into the tokens and a nesting depth; here each method takes the depth and the
  tokens left (the last one, EOF, is never consumed) and returns the node with the tokens left. The
  methods call each other without consuming, so they carry fuel; \<open>parse_formula\<close> gives
  enough, and running out would be \<open>OutOfFuel\<close>, an answer \<open>None\<close>: the last section shows that this never
  happens.
\<close>

subsection \<open>Tokens\<close>

datatype token_type = T_Number | T_Ident | T_Op | T_LParen | T_RParen | T_Comma | T_Eof

record token =
  tk_type :: token_type
  tk_value :: string
  tk_pos :: nat

definition is_ident_start :: "char \<Rightarrow> bool" where
  "is_ident_start c =
     (let n = (of_char c :: nat) in (97 \<le> n \<and> n \<le> 122) \<or> (65 \<le> n \<and> n \<le> 90) \<or> n = 95)"

definition is_ident_part :: "char \<Rightarrow> bool" where
  "is_ident_part c = (is_ident_start c \<or> is_digit c)"

definition is_formula_blank :: "char \<Rightarrow> bool" where
  "is_formula_blank c = ((of_char c :: nat) \<in> {32, 9, 10, 13})"

definition TWO_CHAR_OPS :: "string list" where
  "TWO_CHAR_OPS = [''<='', ''>='', ''=='', ''!='']"

definition ONE_CHAR_OPS :: "string list" where
  "ONE_CHAR_OPS = [''+'', ''-'', ''*'', ''/'', ''^'', ''<'', ''>'']"

definition push_token :: "token \<Rightarrow> token list priced \<Rightarrow> token list priced" where
  "push_token t r = ebind r (\<lambda>ts. Inr (t # ts))"

function tokenize_at :: "nat \<Rightarrow> string \<Rightarrow> token list priced" where
  "tokenize_at i [] = Inr [\<lparr>tk_type = T_Eof, tk_value = [], tk_pos = i\<rparr>]"
| "tokenize_at i (c # cs) =
     (if is_formula_blank c then tokenize_at (i + 1) cs
      else if is_digit c then
        (let ds = takeWhile is_digit (c # cs); rest = dropWhile is_digit cs
         in if rest \<noteq> [] \<and> hd rest = CHR ''.'' then
              (let fs = takeWhile is_digit (tl rest); rest' = dropWhile is_digit (tl rest)
               in if fs = [] then Inl (formula_error FORMULA_SYNTAX (Some i))
                  else push_token \<lparr>tk_type = T_Number, tk_value = ds @ CHR ''.'' # fs, tk_pos = i\<rparr>
                         (tokenize_at (i + length ds + 1 + length fs) rest'))
            else push_token \<lparr>tk_type = T_Number, tk_value = ds, tk_pos = i\<rparr>
                   (tokenize_at (i + length ds) rest))
      else if is_ident_start c then
        (let name = takeWhile is_ident_part (c # cs)
         in push_token \<lparr>tk_type = T_Ident, tk_value = name, tk_pos = i\<rparr>
              (tokenize_at (i + length name) (dropWhile is_ident_part cs)))
      else if take 2 (c # cs) \<in> set TWO_CHAR_OPS then
        push_token \<lparr>tk_type = T_Op, tk_value = take 2 (c # cs), tk_pos = i\<rparr>
          (tokenize_at (i + 2) (tl cs))
      else if [c] \<in> set ONE_CHAR_OPS then
        push_token \<lparr>tk_type = T_Op, tk_value = [c], tk_pos = i\<rparr> (tokenize_at (i + 1) cs)
      else if c \<in> {CHR ''('', CHR '')'', CHR '',''} then
        push_token \<lparr>tk_type = (if c = CHR ''('' then T_LParen else if c = CHR '')'' then T_RParen
                              else T_Comma), tk_value = [c], tk_pos = i\<rparr> (tokenize_at (i + 1) cs)
      else Inl (formula_error FORMULA_SYNTAX (Some i)))"
  by pat_completeness auto

lemma dropWhile_shorter: "length (dropWhile P xs) \<le> length xs"
  by (rule length_dropWhile_le)

termination tokenize_at
proof (relation "measure (\<lambda>(i, s). length s)")
  fix c cs i rest fs rest'
  assume "rest = dropWhile is_digit cs" "rest' = dropWhile is_digit (tl rest)"
  moreover have "length (dropWhile is_digit (tl (dropWhile is_digit cs))) \<le> length cs"
    using dropWhile_shorter [of is_digit "tl (dropWhile is_digit cs)"] dropWhile_shorter [of is_digit cs]
    by simp
  ultimately show "((i', rest'), i, c # cs) \<in> measure (\<lambda>(i, s). length s)" for i'
    by simp
qed (auto simp: dropWhile_shorter le_imp_less_Suc)

definition tokenize :: "string \<Rightarrow> token list priced" where
  "tokenize src = tokenize_at 0 src"

subsection \<open>Syntax trees\<close>

datatype binary_op = Add | Sub | Mul | Div | Pow | Lt | Le | Gt | Ge | Eq | Ne

datatype unary_op = Neg | Pos

datatype formula_node =
    Num string nat
  | Var string nat
  | Unary unary_op formula_node nat
  | Binary binary_op formula_node formula_node nat
  | Call string "formula_node list" nat

definition FORMULA_MAX_LENGTH :: nat where
  "FORMULA_MAX_LENGTH = 1000"

definition FORMULA_MAX_DEPTH :: nat where
  "FORMULA_MAX_DEPTH = 32"

definition comparison_op :: "string \<Rightarrow> binary_op option" where
  "comparison_op v =
     map_of [(''<'', Lt), (''<='', Le), (''>'', Gt), (''>='', Ge), (''=='', Eq), (''!='', Ne)] v"

definition additive_op :: "string \<Rightarrow> binary_op option" where
  "additive_op v = map_of [(''+'', Add), (''-'', Sub)] v"

definition term_op :: "string \<Rightarrow> binary_op option" where
  "term_op v = map_of [(''*'', Mul), (''/'', Div)] v"

definition unary_sign :: "string \<Rightarrow> unary_op option" where
  "unary_sign v = map_of [(''-'', Neg), (''+'', Pos)] v"

text \<open>The operator of the next token, when it is one of a family.\<close>

definition next_op :: "(string \<Rightarrow> 'o option) \<Rightarrow> token list \<Rightarrow> 'o option" where
  "next_op family ts = (if tk_type (hd ts) = T_Op then family (tk_value (hd ts)) else None)"

subsection \<open>The recursive descent\<close>

datatype parse_fault = OutOfFuel | Fault pricing_error

type_synonym 'a parsed = "parse_fault + 'a \<times> token list"

text \<open>\<open>this.next()\<close> as the tokens left after it: the last token stays.\<close>

definition advance :: "token list \<Rightarrow> token list" where
  "advance ts = (if tl ts = [] then ts else tl ts)"

definition unexpected :: "token list \<Rightarrow> parse_fault + 'a" where
  "unexpected ts = Inl (Fault (formula_error FORMULA_SYNTAX (Some (tk_pos (hd ts)))))"

definition too_deep :: "nat \<Rightarrow> parse_fault + 'a" where
  "too_deep pos = Inl (Fault (formula_error FORMULA_LIMIT (Some pos)))"

text \<open>The methods of the class, as functions of the methods they call (\<open>this\<close>): \<open>self\<close> is the parser
  with one unit of fuel less.\<close>

record parser =
  m_comparison :: "nat \<Rightarrow> token list \<Rightarrow> formula_node parsed"
  m_additive :: "nat \<Rightarrow> token list \<Rightarrow> formula_node parsed"
  m_additive_loop :: "nat \<Rightarrow> formula_node \<Rightarrow> token list \<Rightarrow> formula_node parsed"
  m_term :: "nat \<Rightarrow> token list \<Rightarrow> formula_node parsed"
  m_term_loop :: "nat \<Rightarrow> formula_node \<Rightarrow> token list \<Rightarrow> formula_node parsed"
  m_unary :: "nat \<Rightarrow> token list \<Rightarrow> formula_node parsed"
  m_power :: "nat \<Rightarrow> token list \<Rightarrow> formula_node parsed"
  m_primary :: "nat \<Rightarrow> token list \<Rightarrow> formula_node parsed"
  m_args :: "nat \<Rightarrow> token list \<Rightarrow> formula_node list parsed"

definition parse_comparison :: "parser \<Rightarrow> nat \<Rightarrow> token list \<Rightarrow> formula_node parsed" where
  "parse_comparison self d ts =
     (if Suc d > FORMULA_MAX_DEPTH then too_deep (tk_pos (hd ts))
      else ebind (m_additive self (Suc d) ts) (\<lambda>(node, ts1).
        case next_op comparison_op ts1 of
          None \<Rightarrow> Inr (node, ts1)
        | Some c \<Rightarrow> ebind (m_additive self (Suc d) (advance ts1)) (\<lambda>(right, ts2).
            Inr (Binary c node right (tk_pos (hd ts1)), ts2))))"

definition parse_additive :: "parser \<Rightarrow> nat \<Rightarrow> token list \<Rightarrow> formula_node parsed" where
  "parse_additive self d ts = ebind (m_term self d ts) (\<lambda>(node, ts1). m_additive_loop self d node ts1)"

definition parse_additive_loop ::
    "parser \<Rightarrow> nat \<Rightarrow> formula_node \<Rightarrow> token list \<Rightarrow> formula_node parsed" where
  "parse_additive_loop self d node ts =
     (case next_op additive_op ts of
        None \<Rightarrow> Inr (node, ts)
      | Some a \<Rightarrow> ebind (m_term self d (advance ts)) (\<lambda>(right, ts1).
          m_additive_loop self d (Binary a node right (tk_pos (hd ts))) ts1))"

definition parse_term :: "parser \<Rightarrow> nat \<Rightarrow> token list \<Rightarrow> formula_node parsed" where
  "parse_term self d ts = ebind (m_unary self d ts) (\<lambda>(node, ts1). m_term_loop self d node ts1)"

definition parse_term_loop ::
    "parser \<Rightarrow> nat \<Rightarrow> formula_node \<Rightarrow> token list \<Rightarrow> formula_node parsed" where
  "parse_term_loop self d node ts =
     (case next_op term_op ts of
        None \<Rightarrow> Inr (node, ts)
      | Some m \<Rightarrow> ebind (m_unary self d (advance ts)) (\<lambda>(right, ts1).
          m_term_loop self d (Binary m node right (tk_pos (hd ts))) ts1))"

definition parse_unary :: "parser \<Rightarrow> nat \<Rightarrow> token list \<Rightarrow> formula_node parsed" where
  "parse_unary self d ts =
     (case next_op unary_sign ts of
        None \<Rightarrow> m_power self d ts
      | Some sign \<Rightarrow>
          if Suc d > FORMULA_MAX_DEPTH then too_deep (tk_pos (hd ts))
          else ebind (m_unary self (Suc d) (advance ts)) (\<lambda>(operand, ts1).
            Inr (Unary sign operand (tk_pos (hd ts)), ts1)))"

definition parse_power :: "parser \<Rightarrow> nat \<Rightarrow> token list \<Rightarrow> formula_node parsed" where
  "parse_power self d ts =
     ebind (m_primary self d ts) (\<lambda>(base, ts1).
       if tk_type (hd ts1) = T_Op \<and> tk_value (hd ts1) = ''^'' then
         (if Suc d > FORMULA_MAX_DEPTH then too_deep (tk_pos (hd ts1))
          else ebind (m_unary self (Suc d) (advance ts1)) (\<lambda>(exponent, ts2).
            Inr (Binary Pow base exponent (tk_pos (hd ts1)), ts2)))
       else Inr (base, ts1))"

definition parse_primary :: "parser \<Rightarrow> nat \<Rightarrow> token list \<Rightarrow> formula_node parsed" where
  "parse_primary self d ts =
     (let t = hd ts; ts1 = advance ts in
      case tk_type t of
        T_Number \<Rightarrow> Inr (Num (tk_value t) (tk_pos t), ts1)
      | T_LParen \<Rightarrow> ebind (m_comparison self d ts1) (\<lambda>(inner, ts2).
          if tk_type (hd ts2) \<noteq> T_RParen then unexpected ts2 else Inr (inner, advance ts2))
      | T_Ident \<Rightarrow>
          (if tk_type (hd ts1) \<noteq> T_LParen then Inr (Var (tk_value t) (tk_pos t), ts1)
           else
             let ts2 = advance ts1
             in if tk_type (hd ts2) = T_RParen
                then Inr (Call (tk_value t) [] (tk_pos t), advance ts2)
                else ebind (m_args self d ts2) (\<lambda>(args, ts3).
                  Inr (Call (tk_value t) args (tk_pos t), ts3)))
      | _ \<Rightarrow> unexpected ts)"

definition parse_args :: "parser \<Rightarrow> nat \<Rightarrow> token list \<Rightarrow> formula_node list parsed" where
  "parse_args self d ts =
     ebind (m_comparison self d ts) (\<lambda>(arg, ts1).
       if tk_type (hd ts1) = T_RParen then Inr ([arg], advance ts1)
       else if tk_type (hd ts1) \<noteq> T_Comma then unexpected ts1
       else ebind (m_args self d (advance ts1)) (\<lambda>(args, ts2). Inr (arg # args, ts2)))"

primrec parser_at :: "nat \<Rightarrow> parser" where
  "parser_at 0 =
     \<lparr>m_comparison = \<lambda>d ts. Inl OutOfFuel, m_additive = \<lambda>d ts. Inl OutOfFuel,
      m_additive_loop = \<lambda>d node ts. Inl OutOfFuel, m_term = \<lambda>d ts. Inl OutOfFuel,
      m_term_loop = \<lambda>d node ts. Inl OutOfFuel, m_unary = \<lambda>d ts. Inl OutOfFuel,
      m_power = \<lambda>d ts. Inl OutOfFuel, m_primary = \<lambda>d ts. Inl OutOfFuel,
      m_args = \<lambda>d ts. Inl OutOfFuel\<rparr>"
| "parser_at (Suc n) =
     \<lparr>m_comparison = parse_comparison (parser_at n), m_additive = parse_additive (parser_at n),
      m_additive_loop = parse_additive_loop (parser_at n), m_term = parse_term (parser_at n),
      m_term_loop = parse_term_loop (parser_at n), m_unary = parse_unary (parser_at n),
      m_power = parse_power (parser_at n), m_primary = parse_primary (parser_at n),
      m_args = parse_args (parser_at n)\<rparr>"

definition parse_tokens :: "nat \<Rightarrow> token list \<Rightarrow> parse_fault + formula_node" where
  "parse_tokens fuel ts =
     ebind (m_comparison (parser_at fuel) 0 ts) (\<lambda>(node, ts1).
       if tk_type (hd ts1) \<noteq> T_Eof then unexpected ts1 else Inr node)"

text \<open>To compute with the parser, unfold only the method that is called.\<close>

declare parser_at.simps [simp del]

lemma parser_methods:
  "m_comparison (parser_at (numeral k)) = parse_comparison (parser_at (pred_numeral k))"
  "m_additive (parser_at (numeral k)) = parse_additive (parser_at (pred_numeral k))"
  "m_additive_loop (parser_at (numeral k)) = parse_additive_loop (parser_at (pred_numeral k))"
  "m_term (parser_at (numeral k)) = parse_term (parser_at (pred_numeral k))"
  "m_term_loop (parser_at (numeral k)) = parse_term_loop (parser_at (pred_numeral k))"
  "m_unary (parser_at (numeral k)) = parse_unary (parser_at (pred_numeral k))"
  "m_power (parser_at (numeral k)) = parse_power (parser_at (pred_numeral k))"
  "m_primary (parser_at (numeral k)) = parse_primary (parser_at (pred_numeral k))"
  "m_args (parser_at (numeral k)) = parse_args (parser_at (pred_numeral k))"
  by (simp_all only: numeral_eq_Suc parser_at.simps parser.simps)

text \<open>The names a tree refers to, in the order they are met, then sorted without repetition.\<close>

fun node_variables :: "formula_node \<Rightarrow> string list" where
  "node_variables (Num v p) = []"
| "node_variables (Var x p) = [x]"
| "node_variables (Unary sign e p) = node_variables e"
| "node_variables (Binary b l r p) = node_variables l @ node_variables r"
| "node_variables (Call f args p) = concat (map node_variables args)"

fun node_functions :: "formula_node \<Rightarrow> string list" where
  "node_functions (Num v p) = []"
| "node_functions (Var x p) = []"
| "node_functions (Unary sign e p) = node_functions e"
| "node_functions (Binary b l r p) = node_functions l @ node_functions r"
| "node_functions (Call f args p) = f # concat (map node_functions args)"

record parsed_formula =
  pf_source :: string
  pf_ast :: formula_node
  pf_variables :: "string list"
  pf_functions :: "string list"

text \<open>Enough fuel for a list of tokens: \<open>9\<close> calls per token and the height of the grammar.\<close>

definition enough_fuel :: "token list \<Rightarrow> nat" where
  "enough_fuel ts = 9 * length ts + 9"

definition parse_formula_fuel :: "string \<Rightarrow> parse_fault + parsed_formula" where
  "parse_formula_fuel source =
     (if length source > FORMULA_MAX_LENGTH
      then Inl (Fault (formula_error FORMULA_LIMIT (Some FORMULA_MAX_LENGTH)))
      else case tokenize source of
        Inl e \<Rightarrow> Inl (Fault e)
      | Inr ts \<Rightarrow> ebind (parse_tokens (enough_fuel ts) ts) (\<lambda>ast.
          Inr \<lparr>pf_source = source, pf_ast = ast,
               pf_variables = sort (uniq (node_variables ast)),
               pf_functions = sort (uniq (node_functions ast))\<rparr>))"

definition parse_formula :: "string \<Rightarrow> (pricing_error + parsed_formula) option" where
  "parse_formula source =
     (case parse_formula_fuel source of
        Inl OutOfFuel \<Rightarrow> None
      | Inl (Fault e) \<Rightarrow> Some (Inl e)
      | Inr f \<Rightarrow> Some (Inr f))"

lemmas tokenizer_defs = tokenize_def is_formula_blank_def is_digit_def is_ident_start_def
  is_ident_part_def TWO_CHAR_OPS_def ONE_CHAR_OPS_def push_token_def

lemmas parser_defs = parse_formula_def parse_formula_fuel_def parse_tokens_def enough_fuel_def
  parse_comparison_def parse_additive_def parse_additive_loop_def parse_term_def
  parse_term_loop_def parse_unary_def parse_power_def parse_primary_def parse_args_def
  next_op_def advance_def comparison_op_def additive_op_def term_op_def unary_sign_def
  FORMULA_MAX_DEPTH_def FORMULA_MAX_LENGTH_def parser_methods

subsection \<open>The fuel is enough\<close>

definition good :: "token list \<Rightarrow> bool" where
  "good ts \<longleftrightarrow> ts \<noteq> [] \<and> tk_type (last ts) = T_Eof"

definition formula_fault :: "pricing_error \<Rightarrow> bool" where
  "formula_fault e \<longleftrightarrow>
     er_formula e \<and> er_lineId e = None \<and> er_code e \<in> {FORMULA_SYNTAX, FORMULA_LIMIT}"

lemma formula_fault_syntax [simp]: "formula_fault (formula_error FORMULA_SYNTAX p)"
  "formula_fault (formula_error FORMULA_LIMIT p)"
  by (simp_all add: formula_fault_def formula_error_def)

text \<open>The result is not the exhaustion of the fuel, and leaves fewer than \<open>L\<close> tokens.\<close>

definition leaves_fewer :: "nat \<Rightarrow> 'a parsed \<Rightarrow> bool" where
  "leaves_fewer L r = (case r of Inl OutOfFuel \<Rightarrow> False | Inl (Fault e) \<Rightarrow> formula_fault e | Inr (x, rest) \<Rightarrow> good rest \<and> length rest < L)"

lemma leaves_fewer_bind:
  assumes "leaves_fewer L r"
    and "\<And>x rest. good rest \<Longrightarrow> length rest < L \<Longrightarrow> leaves_fewer M (k (x, rest))"
  shows "leaves_fewer M (ebind r k)"
proof (cases r)
  case (Inl f)
  then show ?thesis using assms(1) by (cases f) (simp_all add: leaves_fewer_def)
next
  case (Inr p)
  obtain x rest where p: "p = (x, rest)" by (cases p)
  then have "good rest" "length rest < L" using assms(1) Inr by (simp_all add: leaves_fewer_def)
  then show ?thesis using assms(2) [of rest x] Inr p by simp
qed

lemma leaves_fewer_mono: "leaves_fewer L r \<Longrightarrow> L \<le> M \<Longrightarrow> leaves_fewer M r"
  by (auto simp: leaves_fewer_def split: sum.splits parse_fault.splits)

lemma leaves_fewer_Inr [simp]: "leaves_fewer L (Inr (x, rest)) \<longleftrightarrow> good rest \<and> length rest < L"
  by (simp add: leaves_fewer_def)

lemma leaves_fewer_faults [simp]: "leaves_fewer L (unexpected ts)" "leaves_fewer L (too_deep p)"
  by (simp_all add: leaves_fewer_def unexpected_def too_deep_def)

lemma advance_progress:
  assumes "good ts" "tk_type (hd ts) \<noteq> T_Eof"
  shows "good (advance ts)" "length (advance ts) < length ts"
proof -
  have "tl ts \<noteq> []" using assms by (cases ts) (auto simp: good_def)
  then show "good (advance ts)" "length (advance ts) < length ts"
    using assms by (auto simp: advance_def good_def last_tl)
qed

lemma next_op_not_eof: "next_op family ts = Some c \<Longrightarrow> tk_type (hd ts) \<noteq> T_Eof"
  by (auto simp: next_op_def split: if_splits)

definition adequate :: "nat \<Rightarrow> bool" where
  "adequate n \<longleftrightarrow> (\<forall>d ts. good ts \<longrightarrow>
     (9 * length ts + 6 < n \<longrightarrow> leaves_fewer (length ts) (m_comparison (parser_at n) d ts))
     \<and> (9 * length ts + 5 < n \<longrightarrow> leaves_fewer (length ts) (m_additive (parser_at n) d ts))
     \<and> (9 * length ts + 4 < n \<longrightarrow> leaves_fewer (length ts) (m_term (parser_at n) d ts))
     \<and> (9 * length ts + 3 < n \<longrightarrow> leaves_fewer (length ts) (m_unary (parser_at n) d ts))
     \<and> (9 * length ts + 2 < n \<longrightarrow> leaves_fewer (length ts) (m_power (parser_at n) d ts))
     \<and> (9 * length ts + 1 < n \<longrightarrow> leaves_fewer (length ts) (m_primary (parser_at n) d ts))
     \<and> (9 * length ts + 7 < n \<longrightarrow> leaves_fewer (length ts) (m_args (parser_at n) d ts))
     \<and> (9 * length ts < n \<longrightarrow>
         (\<forall>node. leaves_fewer (Suc (length ts)) (m_additive_loop (parser_at n) d node ts)
                \<and> leaves_fewer (Suc (length ts)) (m_term_loop (parser_at n) d node ts))))"

lemma adequateD:
  assumes "adequate n" "good ts"
  shows "9 * length ts + 6 < n \<Longrightarrow> leaves_fewer (length ts) (m_comparison (parser_at n) d ts)"
    and "9 * length ts + 5 < n \<Longrightarrow> leaves_fewer (length ts) (m_additive (parser_at n) d ts)"
    and "9 * length ts + 4 < n \<Longrightarrow> leaves_fewer (length ts) (m_term (parser_at n) d ts)"
    and "9 * length ts + 3 < n \<Longrightarrow> leaves_fewer (length ts) (m_unary (parser_at n) d ts)"
    and "9 * length ts + 2 < n \<Longrightarrow> leaves_fewer (length ts) (m_power (parser_at n) d ts)"
    and "9 * length ts + 1 < n \<Longrightarrow> leaves_fewer (length ts) (m_primary (parser_at n) d ts)"
    and "9 * length ts + 7 < n \<Longrightarrow> leaves_fewer (length ts) (m_args (parser_at n) d ts)"
    and "9 * length ts < n \<Longrightarrow>
      leaves_fewer (Suc (length ts)) (m_additive_loop (parser_at n) d node ts)"
    and "9 * length ts < n \<Longrightarrow> leaves_fewer (Suc (length ts)) (m_term_loop (parser_at n) d node ts)"
  using assms by (simp_all add: adequate_def)

lemma after_advance:
  assumes "good ts" "tk_type (hd ts) \<noteq> T_Eof" "length ts < L"
  shows "good (advance ts) \<and> Suc (length (advance ts)) < L"
  using advance_progress [OF assms(1,2)] assms(3) by simp

lemma adequate_comparison:
  assumes "adequate n" "good ts" "9 * length ts + 5 < n"
  shows "leaves_fewer (length ts) (parse_comparison (parser_at n) d ts)"
proof -
  have add: "leaves_fewer (length us) (m_additive (parser_at n) e us)"
    if "good us" "length us \<le> length ts" for e us
    using adequateD(2) [OF assms(1) that(1)] assms(3) that(2) by simp
  show ?thesis
    unfolding parse_comparison_def
    by (auto intro!: leaves_fewer_bind [OF add [OF assms(2)]] split: option.splits)
      (auto dest!: next_op_not_eof intro!: leaves_fewer_bind [OF add] advance_progress
        dest: advance_progress less_trans)
qed

lemma adequate_additive:
  assumes "adequate n" "good ts" "9 * length ts + 4 < n"
  shows "leaves_fewer (length ts) (parse_additive (parser_at n) d ts)"
  unfolding parse_additive_def
proof (rule leaves_fewer_bind [OF adequateD(3) [OF assms]])
  fix node rest assume r: "good rest" "length rest < length ts"
  show "leaves_fewer (length ts)
          (case (node, rest) of (node, ts1) \<Rightarrow> m_additive_loop (parser_at n) d node ts1)"
    using leaves_fewer_mono [OF adequateD(8) [OF assms(1) r(1)]] assms(3) r(2) by simp
qed

lemma adequate_term:
  assumes "adequate n" "good ts" "9 * length ts + 3 < n"
  shows "leaves_fewer (length ts) (parse_term (parser_at n) d ts)"
  unfolding parse_term_def
proof (rule leaves_fewer_bind [OF adequateD(4) [OF assms]])
  fix node rest assume r: "good rest" "length rest < length ts"
  show "leaves_fewer (length ts)
          (case (node, rest) of (node, ts1) \<Rightarrow> m_term_loop (parser_at n) d node ts1)"
    using leaves_fewer_mono [OF adequateD(9) [OF assms(1) r(1)]] assms(3) r(2) by simp
qed

lemma adequate_additive_loop:
  assumes "adequate n" "good ts" "9 * length ts \<le> n"
  shows "leaves_fewer (Suc (length ts)) (parse_additive_loop (parser_at n) d node ts)"
proof (cases "next_op additive_op ts")
  case (Some a)
  note adv = after_advance [OF assms(2) next_op_not_eof [OF Some] lessI]
  have t: "leaves_fewer (length (advance ts)) (m_term (parser_at n) d (advance ts))"
    using adequateD(3) [OF assms(1)] adv assms(3) by simp
  have "leaves_fewer (Suc (length ts)) (m_additive_loop (parser_at n) d node' rest)"
    if "good rest" "length rest < length (advance ts)" for node' rest
    using leaves_fewer_mono [OF adequateD(8) [OF assms(1) that(1)]] adv that(2) assms(3) by simp
  with Some show ?thesis
    by (auto simp: parse_additive_loop_def intro!: leaves_fewer_bind [OF t])
qed (use assms in \<open>simp add: parse_additive_loop_def\<close>)

lemma adequate_term_loop:
  assumes "adequate n" "good ts" "9 * length ts \<le> n"
  shows "leaves_fewer (Suc (length ts)) (parse_term_loop (parser_at n) d node ts)"
proof (cases "next_op term_op ts")
  case (Some a)
  note adv = after_advance [OF assms(2) next_op_not_eof [OF Some] lessI]
  have t: "leaves_fewer (length (advance ts)) (m_unary (parser_at n) d (advance ts))"
    using adequateD(4) [OF assms(1)] adv assms(3) by simp
  have "leaves_fewer (Suc (length ts)) (m_term_loop (parser_at n) d node' rest)"
    if "good rest" "length rest < length (advance ts)" for node' rest
    using leaves_fewer_mono [OF adequateD(9) [OF assms(1) that(1)]] adv that(2) assms(3) by simp
  with Some show ?thesis
    by (auto simp: parse_term_loop_def intro!: leaves_fewer_bind [OF t])
qed (use assms in \<open>simp add: parse_term_loop_def\<close>)

lemma adequate_unary:
  assumes "adequate n" "good ts" "9 * length ts + 2 < n"
  shows "leaves_fewer (length ts) (parse_unary (parser_at n) d ts)"
proof (cases "next_op unary_sign ts")
  case None
  then show ?thesis using adequateD(5) [OF assms] by (simp add: parse_unary_def)
next
  case (Some sign)
  note adv = after_advance [OF assms(2) next_op_not_eof [OF Some] lessI]
  have "leaves_fewer (length (advance ts)) (m_unary (parser_at n) (Suc d) (advance ts))"
    using adequateD(4) [OF assms(1)] adv assms(3) by simp
  with Some adv show ?thesis
    by (auto simp: parse_unary_def intro!: leaves_fewer_bind)
qed

lemma adequate_power:
  assumes "adequate n" "good ts" "9 * length ts + 1 < n"
  shows "leaves_fewer (length ts) (parse_power (parser_at n) d ts)"
  unfolding parse_power_def
proof (rule leaves_fewer_bind [OF adequateD(6) [OF assms]])
  fix node rest assume r: "good rest" "length rest < length ts"
  have u: "leaves_fewer (length (advance rest)) (m_unary (parser_at n) (Suc d) (advance rest))
           \<and> length (advance rest) < length ts"
    if "tk_type (hd rest) = T_Op"
    using adequateD(4) [OF assms(1), of "advance rest"] after_advance [OF r(1) _ r(2)] that r assms(3)
    by simp
  show "leaves_fewer (length ts)
          (case (node, rest) of (base, ts1) \<Rightarrow>
            if tk_type (hd ts1) = T_Op \<and> tk_value (hd ts1) = ''^'' then
              (if Suc d > FORMULA_MAX_DEPTH then too_deep (tk_pos (hd ts1))
               else ebind (m_unary (parser_at n) (Suc d) (advance ts1)) (\<lambda>(exponent, ts2).
                 Inr (Binary Pow base exponent (tk_pos (hd ts1)), ts2)))
            else Inr (base, ts1))"
    using u r by (auto intro!: leaves_fewer_bind)
qed

lemma adequate_primary:
  assumes "adequate n" "good ts" "9 * length ts < n"
  shows "leaves_fewer (length ts) (parse_primary (parser_at n) d ts)"
proof (cases "tk_type (hd ts) = T_Eof")
  case False
  note adv = after_advance [OF assms(2) False lessI]
  have c: "leaves_fewer (length (advance ts)) (m_comparison (parser_at n) d (advance ts))"
    using adequateD(1) [OF assms(1)] adv assms(3) by simp
  have inner: "good (advance rest) \<and> length (advance rest) < length ts"
    if "good rest" "length rest < length (advance ts)" "tk_type (hd rest) = T_RParen" for rest
    using after_advance [OF that(1) _ that(2)] that(3) adv by simp
  have a: "good (advance (advance ts)) \<and> Suc (length (advance (advance ts))) < length ts
           \<and> leaves_fewer (length (advance (advance ts)))
               (m_args (parser_at n) d (advance (advance ts)))"
    if "tk_type (hd (advance ts)) = T_LParen"
    using after_advance [of "advance ts" "length ts"] adequateD(7) [OF assms(1)] adv assms(3) that
    by simp
  have call: "good (advance (advance (advance ts))) \<and> length (advance (advance (advance ts))) < length ts"
    if "tk_type (hd (advance ts)) = T_LParen" "tk_type (hd (advance (advance ts))) = T_RParen"
    using after_advance [of "advance (advance ts)" "length ts"] a [OF that(1)] that(2) by simp
  show ?thesis
    using adv a call
    by (cases "tk_type (hd ts)")
      (auto simp: parse_primary_def Let_def intro!: leaves_fewer_bind [OF c]
        dest: inner intro: leaves_fewer_bind)
qed (simp add: parse_primary_def)

lemma adequate_args:
  assumes "adequate n" "good ts" "9 * length ts + 6 < n"
  shows "leaves_fewer (length ts) (parse_args (parser_at n) d ts)"
  unfolding parse_args_def
proof (rule leaves_fewer_bind [OF adequateD(1) [OF assms]])
  fix arg rest assume r: "good rest" "length rest < length ts"
  have a: "leaves_fewer (length (advance rest)) (m_args (parser_at n) d (advance rest))
           \<and> good (advance rest) \<and> length (advance rest) < length ts"
    if "tk_type (hd rest) = T_Comma \<or> tk_type (hd rest) = T_RParen"
    using adequateD(7) [OF assms(1), of "advance rest"] after_advance [OF r(1) _ r(2)] that r assms(3)
    by auto
  show "leaves_fewer (length ts)
          (case (arg, rest) of (arg, ts1) \<Rightarrow>
            if tk_type (hd ts1) = T_RParen then Inr ([arg], advance ts1)
            else if tk_type (hd ts1) \<noteq> T_Comma then unexpected ts1
            else ebind (m_args (parser_at n) d (advance ts1)) (\<lambda>(args, ts2). Inr (arg # args, ts2)))"
    using a r by (auto intro!: leaves_fewer_bind)
qed

lemma adequate_fuel: "adequate n"
proof (induction n)
  case (Suc n)
  then show ?case
    unfolding adequate_def [of "Suc n"] parser_at.simps
    by (auto intro!: adequate_comparison adequate_additive adequate_term adequate_unary
        adequate_power adequate_primary adequate_args adequate_additive_loop adequate_term_loop)
qed (simp add: adequate_def)

definition tokens_fine :: "token list priced \<Rightarrow> bool" where
  "tokens_fine r = (case r of Inl e \<Rightarrow> formula_fault e | Inr ts \<Rightarrow> good ts)"

lemma tokens_fine_simps [simp]:
  "tokens_fine (Inl e) \<longleftrightarrow> formula_fault e" "tokens_fine (Inr ts) \<longleftrightarrow> good ts"
  by (simp_all add: tokens_fine_def)

lemma tokens_fine_push: "tokens_fine r \<Longrightarrow> tokens_fine (push_token t r)"
  by (cases r) (simp_all add: push_token_def good_def)

lemma tokenize_at_fine: "tokens_fine (tokenize_at i src)"
  by (induction i src rule: tokenize_at.induct)
    (simp_all add: good_def tokens_fine_push Let_def)

definition parse_fine :: "parse_fault + 'a \<Rightarrow> bool" where
  "parse_fine r =
     (case r of Inl OutOfFuel \<Rightarrow> False | Inl (Fault e) \<Rightarrow> formula_fault e | Inr x \<Rightarrow> True)"

lemma parse_tokens_fine:
  assumes "good ts"
  shows "parse_fine (parse_tokens (enough_fuel ts) ts)"
proof -
  have "leaves_fewer (length ts) (m_comparison (parser_at (enough_fuel ts)) 0 ts)"
    using adequateD(1) [OF adequate_fuel assms] by (simp add: enough_fuel_def)
  then show ?thesis
    by (cases "m_comparison (parser_at (enough_fuel ts)) 0 ts")
      (auto simp: parse_tokens_def leaves_fewer_def parse_fine_def unexpected_def
        split: parse_fault.splits)
qed

text \<open>What the callers rely on: the answer exists; a failure is a syntax or limit error of the formula,
  not yet attached to a line; a success carries the tree's names, sorted and each once.\<close>

definition parse_answer :: "string \<Rightarrow> (pricing_error + parsed_formula) option \<Rightarrow> bool" where
  "parse_answer source r =
     (case r of
        None \<Rightarrow> False
      | Some (Inl e) \<Rightarrow> formula_fault e
      | Some (Inr f) \<Rightarrow> pf_source f = source \<and> length source \<le> FORMULA_MAX_LENGTH
          \<and> pf_variables f = sorted_list_of_set (set (node_variables (pf_ast f)))
          \<and> pf_functions f = sorted_list_of_set (set (node_functions (pf_ast f))))"

lemma sort_uniq: "sort (uniq xs) = sorted_list_of_set (set xs)" for xs :: "'a::linorder list"
  by (rule sorted_distinct_set_unique) simp_all

lemma parse_formula_answer: "parse_answer source (parse_formula source)"
proof -
  have "parse_fine (parse_tokens (enough_fuel ts) ts)" if "tokenize source = Inr ts" for ts
    using parse_tokens_fine [of ts] tokenize_at_fine [of 0 source] that by (simp add: tokenize_def)
  moreover have "formula_fault e" if "tokenize source = Inl e" for e
    using tokenize_at_fine [of 0 source] that by (simp add: tokenize_def)
  ultimately show ?thesis
    by (cases "tokenize source")
      (auto simp: parse_formula_def parse_formula_fuel_def parse_answer_def parse_fine_def ebind_def
        sort_uniq split: sum.splits parse_fault.splits)
qed

text \<open>C17: the parser answers for every text: a parsed formula with exactly the names of its tree, sorted
  and each once, or a syntax or limit error; it never runs out of its fuel, however deep the
  parentheses, the powers or the arguments are nested.\<close>

theorem formula_parser_total: "parse_answer source (parse_formula source)"
  by (rule parse_formula_answer)

end
