(* ===== verification/FormulaEval.thy ===== *)
theory FormulaEval
  imports FormulaParser ExactDecimals
begin

text \<open>
  Evaluation and validation of formulas: \<open>packages/pricing/src/formula/evaluator.ts\<close> and
  \<open>validate.ts\<close>. The evaluator stops at the first error; \<open>if\<close> evaluates only the branch it keeps;
  a comparison is 1 or 0. The validator walks the whole tree and collects every semantic error.
\<close>

subsection \<open>The evaluator\<close>

record function_spec =
  fs_minArgs :: nat
  fs_maxArgs :: "nat option"

definition FORMULA_FUNCTIONS :: "(string \<times> function_spec) list" where
  "FORMULA_FUNCTIONS =
     [(''min'', \<lparr>fs_minArgs = 1, fs_maxArgs = None\<rparr>),
      (''max'', \<lparr>fs_minArgs = 1, fs_maxArgs = None\<rparr>),
      (''round'', \<lparr>fs_minArgs = 1, fs_maxArgs = Some 2\<rparr>),
      (''floor'', \<lparr>fs_minArgs = 1, fs_maxArgs = Some 1\<rparr>),
      (''ceil'', \<lparr>fs_minArgs = 1, fs_maxArgs = Some 1\<rparr>),
      (''abs'', \<lparr>fs_minArgs = 1, fs_maxArgs = Some 1\<rparr>),
      (''if'', \<lparr>fs_minArgs = 3, fs_maxArgs = Some 3\<rparr>)]"

definition FORMULA_MAX_EXPONENT :: int where
  "FORMULA_MAX_EXPONENT = 100"

definition FORMULA_MAX_ROUND_DECIMALS :: int where
  "FORMULA_MAX_ROUND_DECIMALS = 10"

text \<open>\<open>n < spec.minArgs || n > spec.maxArgs\<close>; no maximum is \<open>Infinity\<close>.\<close>

definition bad_arity :: "function_spec \<Rightarrow> nat \<Rightarrow> bool" where
  "bad_arity spec n =
     (n < fs_minArgs spec \<or> (case fs_maxArgs spec of None \<Rightarrow> False | Some m \<Rightarrow> n > m))"

definition one_or_zero :: "'d decimal_ops \<Rightarrow> bool \<Rightarrow> 'd" where
  "one_or_zero dc b = (if b then dec_of_int dc 1 else dec_of_int dc 0)"

definition eval_unary :: "'d decimal_ops \<Rightarrow> unary_op \<Rightarrow> 'd \<Rightarrow> 'd" where
  "eval_unary dc sign x = (case sign of Neg \<Rightarrow> dec_neg dc x | Pos \<Rightarrow> x)"

definition eval_binary ::
    "'d decimal_ops \<Rightarrow> binary_op \<Rightarrow> nat \<Rightarrow> 'd \<Rightarrow> 'd \<Rightarrow> 'd priced" where
  "eval_binary dc bop pos l r =
     (case bop of
        Add \<Rightarrow> Inr (dec_plus dc l r)
      | Sub \<Rightarrow> Inr (dec_minus dc l r)
      | Mul \<Rightarrow> Inr (dec_times dc l r)
      | Div \<Rightarrow> (if dec_is_zero dc r then Inl (formula_error DIVISION_BY_ZERO (Some pos))
                else Inr (dec_div dc l r))
      | Pow \<Rightarrow>
          (if \<not> dec_is_integer dc r
              \<or> dec_gt dc (dec_abs dc r) (dec_of_int dc FORMULA_MAX_EXPONENT)
           then Inl (formula_error FORMULA_EVALUATION (Some pos))
           else if dec_is_zero dc l \<and> dec_is_negative dc r
           then Inl (formula_error DIVISION_BY_ZERO (Some pos))
           else Inr (dec_pow dc l r))
      | Lt \<Rightarrow> Inr (one_or_zero dc (dec_lt dc l r))
      | Le \<Rightarrow> Inr (one_or_zero dc (dec_lte dc l r))
      | Gt \<Rightarrow> Inr (one_or_zero dc (dec_gt dc l r))
      | Ge \<Rightarrow> Inr (one_or_zero dc (dec_lte dc r l))
      | Eq \<Rightarrow> Inr (one_or_zero dc (dec_eq dc l r))
      | Ne \<Rightarrow> Inr (one_or_zero dc (\<not> dec_eq dc l r)))"

definition eval_round ::
    "'d decimal_ops \<Rightarrow> rounding_mode option \<Rightarrow> nat \<Rightarrow> 'd \<Rightarrow> 'd \<Rightarrow> 'd priced" where
  "eval_round dc mode pos x places =
     (if \<not> dec_is_integer dc places \<or> dec_is_negative dc places
         \<or> dec_gt dc places (dec_of_int dc FORMULA_MAX_ROUND_DECIMALS)
      then Inl (formula_error FORMULA_EVALUATION (Some pos))
      else Inr (round_to_scale dc x (dec_nat dc places)
                 (case mode of None \<Rightarrow> HALF_AWAY_FROM_ZERO | Some m \<Rightarrow> m)))"

text \<open>The functions other than \<open>if\<close>, on the values of their arguments.\<close>

definition eval_function ::
    "'d decimal_ops \<Rightarrow> rounding_mode option \<Rightarrow> string \<Rightarrow> nat \<Rightarrow> 'd list \<Rightarrow> 'd priced" where
  "eval_function dc mode name pos args =
     (let x = hd args in
      if name = ''min'' then Inr (dec_min dc args)
      else if name = ''max'' then Inr (dec_max dc args)
      else if name = ''floor'' then Inr (dec_floor dc x)
      else if name = ''ceil'' then Inr (dec_ceil dc x)
      else if name = ''abs'' then Inr (dec_abs dc x)
      else if name = ''round''
      then eval_round dc mode pos x (case tl args of [] \<Rightarrow> dec_zero dc | places # _ \<Rightarrow> places)
      else Inl (formula_error FORMULA_UNKNOWN_FUNCTION (Some pos)))"

fun eval_node ::
    "'d decimal_ops \<Rightarrow> rounding_mode option \<Rightarrow> (string \<rightharpoonup> 'd) \<Rightarrow> formula_node \<Rightarrow> 'd priced" where
  "eval_node dc mode vars (Num value pos) = Inr (dec_of_string dc value)"
| "eval_node dc mode vars (Var name pos) =
     (case vars name of
        None \<Rightarrow> Inl (formula_error FORMULA_UNKNOWN_VARIABLE (Some pos))
      | Some v \<Rightarrow> Inr v)"
| "eval_node dc mode vars (Unary sign operand pos) =
     ebind (eval_node dc mode vars operand) (\<lambda>x. Inr (eval_unary dc sign x))"
| "eval_node dc mode vars (Binary bop left right pos) =
     ebind (eval_node dc mode vars left) (\<lambda>l.
     ebind (eval_node dc mode vars right) (\<lambda>r. eval_binary dc bop pos l r))"
| "eval_node dc mode vars (Call name args pos) =
     (case map_of FORMULA_FUNCTIONS name of
        None \<Rightarrow> Inl (formula_error FORMULA_UNKNOWN_FUNCTION (Some pos))
      | Some spec \<Rightarrow>
          if bad_arity spec (length args) then Inl (formula_error FORMULA_ARITY (Some pos))
          else if name = ''if'' then
            (case args of
               [c, a, b] \<Rightarrow> ebind (eval_node dc mode vars c) (\<lambda>x.
                 if dec_is_zero dc x then eval_node dc mode vars b else eval_node dc mode vars a)
             | _ \<Rightarrow> Inl (formula_error FORMULA_ARITY (Some pos)))
          else ebind (emap (eval_node dc mode vars) args) (eval_function dc mode name pos))"

definition evaluate_formula ::
    "'d decimal_ops \<Rightarrow> rounding_mode option \<Rightarrow> (string \<rightharpoonup> 'd) \<Rightarrow> parsed_formula \<Rightarrow> 'd priced" where
  "evaluate_formula dc mode vars formula =
     ebind (eval_node dc mode vars (pf_ast formula)) (\<lambda>result.
       if dec_is_finite dc result then Inr result
       else Inl (formula_error FORMULA_EVALUATION None))"

text \<open>The answer of the parser, which always exists.\<close>

definition parsed :: "string \<Rightarrow> parsed_formula priced" where
  "parsed source = the (parse_formula source)"

definition evaluate_expression ::
    "'d decimal_ops \<Rightarrow> rounding_mode option \<Rightarrow> (string \<rightharpoonup> 'd) \<Rightarrow> string \<Rightarrow> 'd priced" where
  "evaluate_expression dc mode vars source =
     ebind (parsed source) (evaluate_formula dc mode vars)"

subsection \<open>The validator\<close>

record formula_issue =
  fi_code :: pricing_error_code
  fi_position :: "nat option"
  fi_name :: "string option"

record formula_validation =
  fv_valid :: bool
  fv_variables :: "string list"
  fv_functions :: "string list"
  fv_errors :: "formula_issue list"

definition named_issue :: "pricing_error_code \<Rightarrow> nat \<Rightarrow> string \<Rightarrow> formula_issue" where
  "named_issue c pos name = \<lparr>fi_code = c, fi_position = Some pos, fi_name = Some name\<rparr>"

fun walk_node :: "string list \<Rightarrow> formula_node \<Rightarrow> formula_issue list" where
  "walk_node allowed (Num value pos) = []"
| "walk_node allowed (Var name pos) =
     (if name \<in> set allowed then [] else [named_issue FORMULA_UNKNOWN_VARIABLE pos name])"
| "walk_node allowed (Unary sign operand pos) = walk_node allowed operand"
| "walk_node allowed (Binary bop left right pos) = walk_node allowed left @ walk_node allowed right"
| "walk_node allowed (Call name args pos) =
     (case map_of FORMULA_FUNCTIONS name of
        None \<Rightarrow> [named_issue FORMULA_UNKNOWN_FUNCTION pos name]
      | Some spec \<Rightarrow>
          if bad_arity spec (length args) then [named_issue FORMULA_ARITY pos name] else [])
     @ concat (map (walk_node allowed) args)"

definition issue_position :: "formula_issue \<Rightarrow> nat" where
  "issue_position i = (case fi_position i of None \<Rightarrow> 0 | Some p \<Rightarrow> p)"

definition validate_formula :: "string \<Rightarrow> string list \<Rightarrow> formula_validation" where
  "validate_formula expr allowedVariables =
     (case parsed expr of
        Inr f \<Rightarrow>
          (let errors = sort_key issue_position (walk_node allowedVariables (pf_ast f))
           in \<lparr>fv_valid = (errors = []), fv_variables = pf_variables f,
               fv_functions = pf_functions f, fv_errors = errors\<rparr>)
      | Inl e \<Rightarrow>
          \<lparr>fv_valid = False, fv_variables = [], fv_functions = [],
           fv_errors = [\<lparr>fi_code = er_code e, fi_position = er_position e, fi_name = None\<rparr>]\<rparr>)"

subsection \<open>What a valid formula can still do wrong\<close>

definition arithmetic_fault :: "pricing_error \<Rightarrow> bool" where
  "arithmetic_fault e \<longleftrightarrow> er_formula e \<and> er_code e \<in> {DIVISION_BY_ZERO, FORMULA_EVALUATION}"

lemma arithmetic_fault_simps [simp]:
  "arithmetic_fault (formula_error DIVISION_BY_ZERO p)"
  "arithmetic_fault (formula_error FORMULA_EVALUATION p)"
  by (simp_all add: arithmetic_fault_def formula_error_def)

lemma known_function:
  "map_of FORMULA_FUNCTIONS name = Some spec \<Longrightarrow>
     name \<in> {''min'', ''max'', ''round'', ''floor'', ''ceil'', ''abs'', ''if''}
     \<and> (name = ''if'' \<longrightarrow> fs_minArgs spec = 3 \<and> fs_maxArgs spec = Some 3)"
  by (simp add: FORMULA_FUNCTIONS_def split: if_splits) auto

lemma eval_binary_fault: "eval_binary dc bop pos l r = Inl e \<Longrightarrow> arithmetic_fault e"
  by (cases bop) (auto simp: eval_binary_def split: if_splits)

lemma eval_function_fault:
  assumes "map_of FORMULA_FUNCTIONS name = Some spec" "name \<noteq> ''if''"
    and "eval_function dc mode name pos args = Inl e"
  shows "arithmetic_fault e"
  using known_function [OF assms(1)] assms(2,3)
  by (auto simp: eval_function_def eval_round_def Let_def split: if_splits list.splits)

lemma if_has_three:
  assumes "map_of FORMULA_FUNCTIONS ''if'' = Some spec" "\<not> bad_arity spec (length args)"
  obtains c a b where "args = [c, a, b]"
proof -
  have "length args = 3" using known_function [OF assms(1)] assms(2) by (simp add: bad_arity_def)
  then show thesis using that by (auto simp: numeral_3_eq_3 length_Suc_conv)
qed

lemma clean_walk_evaluates:
  assumes "walk_node allowed node = []" "set allowed \<subseteq> dom vars"
    and "eval_node dc mode vars node = Inl e"
  shows "arithmetic_fault e"
  using assms
proof (induction node arbitrary: e)
  case (Binary bop left right pos)
  then show ?case by (auto simp: ebind_Inl_iff dest: eval_binary_fault)
next
  case (Call name args pos)
  obtain spec where spec: "map_of FORMULA_FUNCTIONS name = Some spec"
    and ar: "\<not> bad_arity spec (length args)" and clean: "\<forall>x \<in> set args. walk_node allowed x = []"
    using Call.prems(1) by (auto split: option.splits if_splits)
  show ?case
  proof (cases "name = ''if''")
    case True
    then obtain c a b where args: "args = [c, a, b]" using if_has_three spec ar by blast
    then show ?thesis
      using Call.prems(2,3) Call.IH clean True spec ar by (auto simp: ebind_Inl_iff split: if_splits)
  next
    case False
    then have "ebind (emap (eval_node dc mode vars) args) (eval_function dc mode name pos) = Inl e"
      using Call.prems(3) spec ar by simp
    then consider "emap (eval_node dc mode vars) args = Inl e"
      | ys where "eval_function dc mode name pos ys = Inl e"
      by (auto simp: ebind_Inl_iff)
    then show ?thesis
    proof cases
      case 1
      then show ?thesis using emap_Inl [OF 1] Call.IH clean Call.prems(2) by blast
    next
      case 2
      then show ?thesis using eval_function_fault [OF spec False] by blast
    qed
  qed
qed (auto simp: ebind_Inl_iff split: option.splits if_splits)

text \<open>Evaluation looks at no other variable than those of the tree.\<close>

lemma emap_eq: "(\<And>x. x \<in> set xs \<Longrightarrow> f x = g x) \<Longrightarrow> emap f xs = emap g xs"
  by (induction xs) auto

lemma eval_node_agree:
  "(\<And>x. x \<in> set (node_variables node) \<Longrightarrow> vars x = vars' x) \<Longrightarrow>
     eval_node dc mode vars node = eval_node dc mode vars' node"
proof (induction node)
  case (Call name args pos)
  then have e: "eval_node dc mode vars a = eval_node dc mode vars' a" if "a \<in> set args" for a
    using that by fastforce
  have "emap (eval_node dc mode vars) args = emap (eval_node dc mode vars') args"
    using e by (rule emap_eq)
  with e show ?case by (auto split: option.splits list.splits intro!: ebind_cong)
qed auto

lemma unknown_reference:
  "walk_node allowed node = [] \<Longrightarrow> set (node_variables node) \<subseteq> set allowed"
  by (induction node) (auto split: option.splits if_splits)

lemma parse_answer_parsed: "parse_answer source (Some (parsed source))"
  using parse_formula_answer [of source]
  by (cases "parse_formula source") (simp_all add: parsed_def parse_answer_def)

lemma sort_key_Nil_iff [simp]: "sort_key f xs = [] \<longleftrightarrow> xs = []"
  by (metis length_0_conv length_sort)

text \<open>C27: a formula the editor accepts, evaluated with every variable it was offered, never meets an
  unknown variable, an unknown function or a wrong number of arguments: it gives a finite number, or
  reports a division by zero or an impossible operation.\<close>

theorem valid_formula_evaluates:
  assumes "fv_valid (validate_formula expr allowed)" "set allowed \<subseteq> dom vars"
  shows "case evaluate_expression dc mode vars expr of
           Inl e \<Rightarrow> arithmetic_fault e
         | Inr v \<Rightarrow> dec_is_finite dc v"
proof -
  obtain f where f: "parsed expr = Inr f" and w: "walk_node allowed (pf_ast f) = []"
    using assms(1) by (auto simp: validate_formula_def Let_def split: sum.splits)
  show ?thesis
    using clean_walk_evaluates [OF w assms(2), of dc mode]
    by (cases "eval_node dc mode vars (pf_ast f)")
      (simp_all add: evaluate_expression_def f evaluate_formula_def)
qed

text \<open>The value of a formula depends on nothing but the variables the parser lists for it, which an
  accepted formula takes from the offered ones.\<close>

theorem formula_value_is_local:
  assumes "parsed expr = Inr f" "\<And>x. x \<in> set (pf_variables f) \<Longrightarrow> vars x = vars' x"
  shows "evaluate_expression dc mode vars expr = evaluate_expression dc mode vars' expr
         \<and> (if fv_valid (validate_formula expr allowed) then set (pf_variables f) \<subseteq> set allowed
            else True)"
proof -
  have names: "set (pf_variables f) = set (node_variables (pf_ast f))"
    using parse_answer_parsed [of expr] assms(1) by (simp add: parse_answer_def)
  then have "eval_node dc mode vars (pf_ast f) = eval_node dc mode vars' (pf_ast f)"
    using assms(2) by (intro eval_node_agree) simp
  moreover have "set (pf_variables f) \<subseteq> set allowed" if "walk_node allowed (pf_ast f) = []"
    using unknown_reference [OF that] names by simp
  ultimately show ?thesis
    by (auto simp: evaluate_expression_def assms(1) evaluate_formula_def validate_formula_def Let_def)
qed

subsection \<open>Examples\<close>

lemma tokens_guarded_division:
  "tokenize ''if(S0==0,0,P0/S0)'' =
     Inr [\<lparr>tk_type = T_Ident, tk_value = ''if'', tk_pos = 0\<rparr>,
      \<lparr>tk_type = T_LParen, tk_value = ''('', tk_pos = 2\<rparr>,
      \<lparr>tk_type = T_Ident, tk_value = ''S0'', tk_pos = 3\<rparr>,
      \<lparr>tk_type = T_Op, tk_value = ''=='', tk_pos = 5\<rparr>,
      \<lparr>tk_type = T_Number, tk_value = ''0'', tk_pos = 7\<rparr>,
      \<lparr>tk_type = T_Comma, tk_value = '','', tk_pos = 8\<rparr>,
      \<lparr>tk_type = T_Number, tk_value = ''0'', tk_pos = 9\<rparr>,
      \<lparr>tk_type = T_Comma, tk_value = '','', tk_pos = 10\<rparr>,
      \<lparr>tk_type = T_Ident, tk_value = ''P0'', tk_pos = 11\<rparr>,
      \<lparr>tk_type = T_Op, tk_value = ''/'', tk_pos = 13\<rparr>,
      \<lparr>tk_type = T_Ident, tk_value = ''S0'', tk_pos = 14\<rparr>,
      \<lparr>tk_type = T_RParen, tk_value = '')'', tk_pos = 16\<rparr>,
      \<lparr>tk_type = T_Eof, tk_value = [], tk_pos = 17\<rparr>]"
  by code_simp

lemma parsed_guarded_division:
  "parsed ''if(S0==0,0,P0/S0)'' =
     Inr \<lparr>pf_source = ''if(S0==0,0,P0/S0)'',
          pf_ast = Call ''if'' [Binary Eq (Var ''S0'' 3) (Num ''0'' 7) 5, Num ''0'' 9,
                              Binary Div (Var ''P0'' 11) (Var ''S0'' 14) 13] 0,
          pf_variables = [''P0'', ''S0''], pf_functions = [''if'']\<rparr>"
  by (simp add: parsed_def parser_defs tokens_guarded_division)

lemma parsed_ratio:
  "parsed ''2/S0'' =
     Inr \<lparr>pf_source = ''2/S0'', pf_ast = Binary Div (Num ''2'' 0) (Var ''S0'' 2) 1,
          pf_variables = [''S0''], pf_functions = []\<rparr>"
  by (simp add: parsed_def parser_defs tokenizer_defs numeral_2_eq_2)

theorem valid_formula_evaluates_witness:
  "fv_valid (validate_formula ''2/S0'' [''S0''])
   \<and> (case evaluate_expression rat_ops None [''S0'' \<mapsto> 0] ''2/S0'' of
        Inl e \<Rightarrow> arithmetic_fault e
      | Inr v \<Rightarrow> dec_is_finite rat_ops v)"
proof -
  have v: "fv_valid (validate_formula ''2/S0'' [''S0''])"
    by (simp add: validate_formula_def parsed_ratio)
  then show ?thesis
    using valid_formula_evaluates [OF v, of "[''S0'' \<mapsto> 0]" rat_ops None] by simp
qed

theorem formula_value_is_local_witness:
  "evaluate_expression rat_ops None [''S0'' \<mapsto> 5] ''2/S0''
     = evaluate_expression rat_ops None [''S0'' \<mapsto> 5, ''qty'' \<mapsto> 3] ''2/S0''"
  by (rule conjunct1 [OF formula_value_is_local [OF parsed_ratio, where allowed = "[]"]]) simp

text \<open>\<open>if\<close> is lazy: the guard \<open>if(S0==0,0,P0/S0)\<close> never divides by zero, whatever the values; it
  gives 0 when \<open>S0\<close> is zero and the quotient otherwise.\<close>

theorem guarded_division:
  assumes "decimal_laws dc val rnd" "\<And>x. dec_is_finite dc x"
  shows "evaluate_expression dc mode [''P0'' \<mapsto> p, ''S0'' \<mapsto> s] ''if(S0==0,0,P0/S0)''
         = Inr (if val s = 0 then dec_of_string dc ''0'' else dec_div dc p s)"
proof -
  have "val (dec_of_string dc ''0'') = 0"
    using assms(1) unfolding decimal_laws_def
    by (elim conjE allE [of _ "''0''"])
      (auto simp: match_decimal_def is_digit_def decimal_value_def digits_val_def digit_val_def)
  moreover have "dec_eq dc s z \<longleftrightarrow> val s = val z" "dec_is_zero dc z \<longleftrightarrow> val z = 0"
      "val (dec_of_int dc n) = of_int n" for z n
    using assms(1) by (simp_all add: decimal_laws_def)
  ultimately show ?thesis
    using assms(2)
    by (simp add: evaluate_expression_def parsed_guarded_division evaluate_formula_def
        FORMULA_FUNCTIONS_def bad_arity_def eval_binary_def one_or_zero_def)
qed

theorem guarded_division_witness:
  "evaluate_expression rat_ops None [''P0'' \<mapsto> 7, ''S0'' \<mapsto> 0] ''if(S0==0,0,P0/S0)''
     = Inr (if id 0 = (0::rat) then dec_of_string rat_ops ''0'' else dec_div rat_ops 7 0)"
  by (rule guarded_division [OF rat_laws]) (simp add: rat_ops_def)

end
