(* ===== verification/PricingTypes.thy ===== *)
theory PricingTypes
  imports Money
begin

text \<open>
  The input of the pricing engine: \<open>packages/pricing/src/types.ts\<close>. Strings stay strings: they are
  parsed, and refused, by the operations. The literal types of the source are datatypes, so the
  branches that refuse a value outside its type (an unknown line kind or mode) have no counterpart.
  The entries of an object are an association list in the order of \<open>Object.entries\<close>.
\<close>

subsection \<open>Schedules\<close>

datatype line_kind =
    FLAT_MONTHLY | FLAT_YEARLY | UNIT | HOURLY | HOUR_PACK | SETUP_FEE | TIERED | DISCOUNT

datatype pricing_mode = RULE | FORMULA | MANUAL

datatype recurrence = MONTHLY | QUARTERLY | YEARLY | ONE_OFF

datatype tier_mode = GRADUATED | VOLUME

record tier =
  ti_upTo :: "string option"
  ti_unitPrice :: string

record tier_table =
  tt_mode :: tier_mode
  tt_tiers :: "tier list"

datatype quantity_spec = FIXED string | PROVIDER "string option"

datatype index_lookup = LATEST_PUBLISHED | EXACT_PERIOD

record revision_spec =
  rv_indexCode :: string
  rv_a :: string
  rv_b :: string
  rv_referenceDate :: string
  rv_revisionDate :: string
  rv_lookup :: "index_lookup option"

record index_binding =
  ib_indexCode :: string
  ib_date :: string
  ib_lookup :: "index_lookup option"

record formula_spec =
  fo_expression :: string
  fo_basePrice :: "string option"
  fo_variables :: "(string \<times> string) list"
  fo_indexVariables :: "(string \<times> index_binding) list"

record rule_ref =
  rr_priceRuleId :: string
  rr_adjustmentRuleIds :: "string list"

datatype discount_target = LINES "string list" | SUBTOTAL

datatype discount_type = PERCENT | AMOUNT

record discount_spec =
  ds_type :: discount_type
  ds_value :: string
  ds_appliesTo :: discount_target

record pricing_line =
  ln_id :: string
  ln_code :: string
  ln_label :: string
  ln_unit :: string
  ln_kind :: line_kind
  ln_mode :: pricing_mode
  ln_vatRatePercent :: string
  ln_quantity :: "quantity_spec option"
  ln_recurrence :: "recurrence option"
  ln_unitPrice :: "string option"
  ln_tiers :: "tier_table option"
  ln_rule :: "rule_ref option"
  ln_formula :: "formula_spec option"
  ln_revision :: "revision_spec option"
  ln_hoursPerPack :: "string option"
  ln_discount :: "discount_spec option"

record pricing_schedule =
  sd_id :: string
  sd_validFrom :: string
  sd_validTo :: "string option"
  sd_currency :: string
  sd_lines :: "pricing_line list"

subsection \<open>Rules, indexes, overrides, quantities\<close>

datatype pricing_rule =
    GRID (pr_id: string) "(string \<times> string) list"
  | TIERS (pr_id: string) tier_table
  | VOLUME_DISCOUNT (pr_id: string) "(string \<times> string) list"
  | COMMITMENT_DISCOUNT (pr_id: string) "(int \<times> string) list"

record price_index_value =
  iv_period :: string
  iv_value :: string
  iv_publishedAt :: string

record price_index =
  pi_code :: string
  pi_name :: string
  pi_values :: "price_index_value list"

record price_override =
  po_id :: string
  po_lineId :: string
  po_unitPrice :: string
  po_validFrom :: string
  po_validTo :: string
  po_reason :: string
  po_authorId :: string
  po_approvedBy :: "string option"

record resolved_quantity =
  rq_lineId :: string
  rq_quantity :: string
  rq_source :: string
  rq_observedAt :: "string option"

subsection \<open>Settings and input\<close>

record pricing_settings =
  st_rounding :: rounding_mode
  st_unitPriceScale :: int
  st_overrideApprovalThresholdPercent :: string
  st_indexLookup :: index_lookup

record partial_settings =
  ps_rounding :: "rounding_mode option"
  ps_unitPriceScale :: "int option"
  ps_overrideApprovalThresholdPercent :: "string option"
  ps_indexLookup :: "index_lookup option"

definition DEFAULT_PRICING_SETTINGS :: pricing_settings where
  "DEFAULT_PRICING_SETTINGS =
     \<lparr>st_rounding = HALF_AWAY_FROM_ZERO, st_unitPriceScale = 6,
      st_overrideApprovalThresholdPercent = ''10'', st_indexLookup = LATEST_PUBLISHED\<rparr>"

text \<open>\<open>commitmentMonths\<close> is the only field of the context.\<close>

record pricing_input =
  in_schedules :: "pricing_schedule list"
  in_indexes :: "price_index list"
  in_overrides :: "price_override list"
  in_quantities :: "resolved_quantity list"
  in_ruleCatalog :: "pricing_rule list option"
  in_settings :: "partial_settings option"
  in_commitmentMonths :: "int option"

end
