(* ===== verification/Indexes.thy ===== *)
theory Indexes
  imports PricingTypes ExactDecimals
begin

text \<open>
  The value of a price index at a date: \<open>packages/pricing/src/indexes.ts\<close>. \<open>LATEST_PUBLISHED\<close> takes
  the most recent period among the values already published, \<open>EXACT_PERIOD\<close> the period of the date.
  Periods and dates are compared as strings.
\<close>

record index_observation =
  io_indexCode :: string
  io_indexName :: string
  io_requestedDate :: string
  io_rule :: index_lookup
  io_period :: string
  io_value :: string
  io_publishedAt :: string

definition check_index_value ::
    "'d decimal_ops \<Rightarrow> string list \<Rightarrow> price_index_value \<Rightarrow> string list priced" where
  "check_index_value dc seen v =
     ebind (parse_period (iv_period v)) (\<lambda>_.
     ebind (parse_iso_date (iv_publishedAt v)) (\<lambda>_.
     ebind (parse_decimal dc (iv_value v) 10 False) (\<lambda>_.
       if iv_period v \<in> set seen then Inl (pricing_error DUPLICATE_INDEX_VALUE)
       else Inr (iv_period v # seen))))"

definition later_period :: "price_index_value \<Rightarrow> price_index_value \<Rightarrow> bool" where
  "later_period v best = (iv_period v > iv_period best)"

interpretation latest_period: latest_by later_period iv_period
  by unfold_locales (simp add: later_period_def)

definition find_index_value ::
    "price_index_value list \<Rightarrow> string \<Rightarrow> index_lookup \<Rightarrow> price_index_value option" where
  "find_index_value values date rule =
     (let targetPeriod = take 7 date in
      case rule of
        EXACT_PERIOD \<Rightarrow> List.find (\<lambda>v. iv_period v = targetPeriod) values
      | LATEST_PUBLISHED \<Rightarrow>
          pick later_period
            (filter (\<lambda>v. iv_period v \<le> targetPeriod \<and> iv_publishedAt v \<le> date) values))"

definition lookup_index_value ::
    "'d decimal_ops \<Rightarrow> price_index list \<Rightarrow> string \<Rightarrow> string \<Rightarrow> index_lookup
     \<Rightarrow> index_observation priced" where
  "lookup_index_value dc indexes indexCode date rule =
     ebind (parse_iso_date date) (\<lambda>_.
       case List.find (\<lambda>i. pi_code i = indexCode) indexes of
         None \<Rightarrow> Inl (pricing_error INDEX_NOT_FOUND)
       | Some index \<Rightarrow>
           ebind (efold (check_index_value dc) [] (pi_values index)) (\<lambda>_.
             case find_index_value (pi_values index) date rule of
               None \<Rightarrow> Inl (pricing_error INDEX_VALUE_NOT_FOUND)
             | Some v \<Rightarrow>
                 Inr \<lparr>io_indexCode = indexCode, io_indexName = pi_name index,
                      io_requestedDate = date, io_rule = rule, io_period = iv_period v,
                      io_value = iv_value v, io_publishedAt = iv_publishedAt v\<rparr>))"

subsection \<open>The observation is the right one, and stays so\<close>

lemma check_index_value_Inr:
  "check_index_value dc seen v = Inr seen' \<longleftrightarrow>
     is_ok (parse_period (iv_period v)) \<and> is_ok (parse_iso_date (iv_publishedAt v))
     \<and> is_ok (parse_decimal dc (iv_value v) 10 False) \<and> iv_period v \<notin> set seen
     \<and> seen' = iv_period v # seen"
  by (auto simp: check_index_value_def ebind_Inr_iff is_ok_iff)

definition values_ok :: "'d decimal_ops \<Rightarrow> string list \<Rightarrow> price_index_value list \<Rightarrow> bool" where
  "values_ok dc seen vs \<longleftrightarrow>
     (\<forall>v \<in> set vs. is_ok (parse_period (iv_period v)) \<and> is_ok (parse_iso_date (iv_publishedAt v))
        \<and> is_ok (parse_decimal dc (iv_value v) 10 False) \<and> iv_period v \<notin> set seen)
     \<and> distinct (map iv_period vs)"

lemma check_values_ok:
  "is_ok (efold (check_index_value dc) seen vs) \<longleftrightarrow> values_ok dc seen vs"
proof (induction vs arbitrary: seen)
  case (Cons v vs)
  show ?case
  proof (cases "check_index_value dc seen v")
    case (Inl e)
    then show ?thesis
      using check_index_value_Inr [of dc seen v "iv_period v # seen"] by (auto simp: values_ok_def)
  next
    case (Inr s)
    note c = Inr [unfolded check_index_value_Inr]
    have "efold (check_index_value dc) seen (v # vs) = efold (check_index_value dc) s vs"
      by (simp add: Inr)
    then show ?thesis using c by (auto simp: Cons.IH values_ok_def image_iff)
  qed
qed (simp add: values_ok_def)

lemma values_ok_filter: "values_ok dc seen vs \<Longrightarrow> values_ok dc seen (filter P vs)"
  by (auto simp: values_ok_def distinct_map_filter)

lemma lookup_Inr:
  "lookup_index_value dc indexes code date rule = Inr obs \<longleftrightarrow>
     is_ok (parse_iso_date date)
     \<and> (\<exists>index v. List.find (\<lambda>i. pi_code i = code) indexes = Some index
         \<and> values_ok dc [] (pi_values index)
         \<and> find_index_value (pi_values index) date rule = Some v
         \<and> obs = \<lparr>io_indexCode = code, io_indexName = pi_name index, io_requestedDate = date,
                  io_rule = rule, io_period = iv_period v, io_value = iv_value v,
                  io_publishedAt = iv_publishedAt v\<rparr>)"
  by (auto simp: lookup_index_value_def ebind_Inr_iff is_ok_iff check_values_ok [symmetric]
      split: option.splits)

text \<open>The series as it was known on day \<open>asOf\<close>.\<close>

definition known_on :: "string \<Rightarrow> price_index \<Rightarrow> price_index" where
  "known_on asOf i = i\<lparr>pi_values := filter (\<lambda>v. iv_publishedAt v \<le> asOf) (pi_values i)\<rparr>"

lemma known_on_simps [simp]:
  "pi_code (known_on asOf i) = pi_code i" "pi_name (known_on asOf i) = pi_name i"
  "pi_values (known_on asOf i) = filter (\<lambda>v. iv_publishedAt v \<le> asOf) (pi_values i)"
  by (simp_all add: known_on_def)

lemma find_map: "List.find P (map f xs) = map_option f (List.find (P \<circ> f) xs)"
  by (induction xs) auto

lemma find_known_on:
  assumes "date \<le> asOf"
  shows "find_index_value (filter (\<lambda>v. iv_publishedAt v \<le> asOf) vs) date LATEST_PUBLISHED
         = find_index_value vs date LATEST_PUBLISHED"
proof -
  have "filter (\<lambda>v. iv_period v \<le> take 7 date \<and> iv_publishedAt v \<le> date)
          (filter (\<lambda>v. iv_publishedAt v \<le> asOf) vs)
        = filter (\<lambda>v. iv_period v \<le> take 7 date \<and> iv_publishedAt v \<le> date) vs"
    using assms order_trans [of _ date asOf] by (auto intro!: filter_cong)
  then show ?thesis by (simp add: find_index_value_def Let_def)
qed

lemma find_set: "List.find P xs = Some x \<Longrightarrow> x \<in> set xs \<and> P x"
  by (auto simp: find_Some_iff)

text \<open>The last published index: the value comes from the series of that code, was published by the
  date, is of a period not after the month of the date, and every other published value of such a
  period is of an earlier one; whatever the order of the series, the answer is the same.\<close>

theorem latest_index_correct:
  assumes "lookup_index_value dc indexes code date LATEST_PUBLISHED = Inr obs"
  shows "\<exists>index v. index \<in> set indexes \<and> pi_code index = code \<and> v \<in> set (pi_values index)
    \<and> io_value obs = iv_value v \<and> io_period obs = iv_period v
    \<and> iv_period v \<le> take 7 date \<and> iv_publishedAt v \<le> date
    \<and> (\<forall>w \<in> set (pi_values index). w \<noteq> v \<and> iv_publishedAt w \<le> date \<and> iv_period w \<le> take 7 date
         \<longrightarrow> iv_period w < iv_period v)"
proof -
  obtain index v where i: "List.find (\<lambda>i. pi_code i = code) indexes = Some index"
    and ok: "values_ok dc [] (pi_values index)"
    and f: "find_index_value (pi_values index) date LATEST_PUBLISHED = Some v"
    and obs: "io_value obs = iv_value v" "io_period obs = iv_period v"
    using assms unfolding lookup_Inr by auto
  define cs where "cs = filter (\<lambda>v. iv_period v \<le> take 7 date \<and> iv_publishedAt v \<le> date) (pi_values index)"
  have p: "pick later_period cs = Some v" using f by (simp add: find_index_value_def cs_def)
  have inj: "inj_on iv_period (set (pi_values index))"
    using ok by (simp add: values_ok_def distinct_map)
  have "iv_period w < iv_period v"
    if "w \<in> set (pi_values index)" "w \<noteq> v" "iv_publishedAt w \<le> date" "iv_period w \<le> take 7 date" for w
    using latest_period.pick_greatest [OF p, of w] inj that pick_in [OF p]
    by (auto simp: cs_def inj_on_def order_less_le)
  then show ?thesis
    using find_set [OF i] pick_in [OF p] obs by (intro exI [of _ index] exI [of _ v]) (simp add: cs_def)
qed

text \<open>Replaying a lookup gives the same observation: what was published after the day of the replay
  changes nothing (\<open>asOf\<close> is any day not before the date asked for).\<close>

theorem index_lookup_replays:
  assumes "lookup_index_value dc indexes code date LATEST_PUBLISHED = Inr obs" "date \<le> asOf"
  shows "lookup_index_value dc (map (known_on asOf) indexes) code date LATEST_PUBLISHED = Inr obs"
proof -
  obtain index where i: "List.find (\<lambda>i. pi_code i = code) indexes = Some index"
    using assms(1) unfolding lookup_Inr by auto
  then have "List.find (\<lambda>i. pi_code i = code) (map (known_on asOf) indexes) = Some (known_on asOf index)"
    by (simp add: find_map o_def)
  then show ?thesis
    using assms i unfolding lookup_Inr by (auto simp: find_known_on values_ok_filter)
qed

definition syntec :: price_index where
  "syntec =
     \<lparr>pi_code = ''SYNTEC'', pi_name = ''Syntec'',
      pi_values = [\<lparr>iv_period = ''2025-08'', iv_value = ''312.4'', iv_publishedAt = ''2025-10-01''\<rparr>,
                   \<lparr>iv_period = ''2025-07'', iv_value = ''310'', iv_publishedAt = ''2025-09-01''\<rparr>]\<rparr>"

definition syntec_observed :: index_observation where
  "syntec_observed =
     \<lparr>io_indexCode = ''SYNTEC'', io_indexName = ''Syntec'', io_requestedDate = ''2025-09-15'',
      io_rule = LATEST_PUBLISHED, io_period = ''2025-07'', io_value = ''310'',
      io_publishedAt = ''2025-09-01''\<rparr>"

lemma syntec_lookup:
  "lookup_index_value rat_ops [syntec] ''SYNTEC'' ''2025-09-15'' LATEST_PUBLISHED = Inr syntec_observed"
  by code_simp

theorem latest_index_correct_witness:
  "\<exists>index v. index \<in> set [syntec] \<and> pi_code index = ''SYNTEC'' \<and> v \<in> set (pi_values index)
    \<and> io_value syntec_observed = iv_value v \<and> io_period syntec_observed = iv_period v
    \<and> iv_period v \<le> take 7 ''2025-09-15'' \<and> iv_publishedAt v \<le> ''2025-09-15''
    \<and> (\<forall>w \<in> set (pi_values index). w \<noteq> v \<and> iv_publishedAt w \<le> ''2025-09-15''
         \<and> iv_period w \<le> take 7 ''2025-09-15'' \<longrightarrow> iv_period w < iv_period v)"
  by (rule latest_index_correct [OF syntec_lookup])

theorem index_lookup_replays_witness:
  "lookup_index_value rat_ops (map (known_on ''2025-09-15'') [syntec]) ''SYNTEC'' ''2025-09-15''
     LATEST_PUBLISHED = Inr syntec_observed"
  by (rule index_lookup_replays [OF syntec_lookup]) simp

end
