(* ===== verification/Tiers.thy ===== *)
theory Tiers
  imports PricingTypes ExactDecimals
begin

text \<open>
  Tier tables: \<open>packages/pricing/src/tiers.ts\<close>. \<open>GRADUATED\<close> bills each unit at the price of the band it
  falls in, \<open>VOLUME\<close> the whole quantity at the price of the band reached. The lemmas relate the two
  loops to these readings, through the documentation of decimal.js (\<open>decimal_laws\<close>).
\<close>

record tier_band =
  tb_from :: string
  tb_to :: "string option"
  tb_quantity :: string
  tb_unitPrice :: string
  tb_amount :: string

record 'd tier_computation =
  tc_mode :: tier_mode
  tc_exact :: 'd
  tc_bands :: "tier_band list"

record 'd parsed_tier =
  pt_upTo :: "'d option"
  pt_unitPrice :: 'd

fun parse_tiers :: "'d decimal_ops \<Rightarrow> 'd \<Rightarrow> tier list \<Rightarrow> 'd parsed_tier list priced" where
  "parse_tiers dc prev [] = Inr []"
| "parse_tiers dc prev (t # ts) =
     ebind (parse_price dc (ti_unitPrice t)) (\<lambda>unitPrice.
       case ti_upTo t of
         None \<Rightarrow>
           if ts \<noteq> [] then Inl (pricing_error INVALID_LINE)
           else Inr [\<lparr>pt_upTo = None, pt_unitPrice = unitPrice\<rparr>]
       | Some s \<Rightarrow>
           ebind (parse_price dc s) (\<lambda>upTo.
             if \<not> dec_gt dc upTo prev then Inl (pricing_error INVALID_LINE)
             else ebind (parse_tiers dc upTo ts) (\<lambda>rest.
               Inr (\<lparr>pt_upTo = Some upTo, pt_unitPrice = unitPrice\<rparr> # rest))))"

definition parse_tier_table :: "'d decimal_ops \<Rightarrow> tier_table \<Rightarrow> 'd parsed_tier list priced" where
  "parse_tier_table dc table =
     (if tt_tiers table = [] then Inl (pricing_error INVALID_LINE)
      else parse_tiers dc (dec_of_int dc 0) (tt_tiers table))"

definition tier_band_of ::
    "'d decimal_ops \<Rightarrow> 'd \<Rightarrow> 'd parsed_tier \<Rightarrow> 'd \<Rightarrow> 'd \<Rightarrow> tier_band" where
  "tier_band_of dc from t q amount =
     \<lparr>tb_from = dec_to_string dc from, tb_to = map_option (dec_to_string dc) (pt_upTo t),
      tb_quantity = dec_to_string dc q, tb_unitPrice = dec_to_string dc (pt_unitPrice t),
      tb_amount = dec_to_string dc amount\<rparr>"

text \<open>The tier reached, with the bound before it.\<close>

fun volume_tier ::
    "'d decimal_ops \<Rightarrow> 'd \<Rightarrow> 'd \<Rightarrow> 'd parsed_tier list \<Rightarrow> ('d \<times> 'd parsed_tier) option" where
  "volume_tier dc quantity from [] = None"
| "volume_tier dc quantity from (t # ts) =
     (case pt_upTo t of
        None \<Rightarrow> Some (from, t)
      | Some upTo \<Rightarrow>
          if dec_lte dc quantity upTo then Some (from, t) else volume_tier dc quantity upTo ts)"

definition min_of :: "'d decimal_ops \<Rightarrow> 'd \<Rightarrow> 'd \<Rightarrow> 'd" where
  "min_of dc a b = (if dec_lt dc a b then a else b)"

fun graduated ::
    "'d decimal_ops \<Rightarrow> 'd \<Rightarrow> 'd \<Rightarrow> 'd \<Rightarrow> tier_band list \<Rightarrow> 'd parsed_tier list
     \<Rightarrow> 'd \<times> tier_band list" where
  "graduated dc quantity from running bands [] = (running, bands)"
| "graduated dc quantity from running bands (t # ts) =
     (if \<not> dec_gt dc quantity from then (running, bands)
      else
        let top = (case pt_upTo t of None \<Rightarrow> quantity | Some upTo \<Rightarrow> min_of dc quantity upTo);
            q = dec_minus dc top from;
            amount = dec_times dc q (pt_unitPrice t);
            bands' = bands @ [tier_band_of dc from t q amount];
            running2 = dec_plus dc running amount
        in case pt_upTo t of
             None \<Rightarrow> (running2, bands')
           | Some upTo \<Rightarrow> graduated dc quantity upTo running2 bands' ts)"

definition beyond_last_tier :: "'d decimal_ops \<Rightarrow> 'd \<Rightarrow> 'd parsed_tier list \<Rightarrow> bool" where
  "beyond_last_tier dc quantity tiers =
     (case pt_upTo (last tiers) of None \<Rightarrow> False | Some upTo \<Rightarrow> dec_gt dc quantity upTo)"

definition compute_tiered ::
    "'d decimal_ops \<Rightarrow> tier_table \<Rightarrow> 'd \<Rightarrow> 'd tier_computation priced" where
  "compute_tiered dc table quantity =
     ebind (parse_tier_table dc table) (\<lambda>tiers.
       if beyond_last_tier dc quantity tiers then Inl (pricing_error INVALID_LINE)
       else
         case (if tt_mode table = VOLUME then volume_tier dc quantity (dec_of_int dc 0) tiers
               else None) of
           Some (from, t) \<Rightarrow>
             (let amount = dec_times dc quantity (pt_unitPrice t)
              in Inr \<lparr>tc_mode = VOLUME, tc_exact = amount,
                      tc_bands = [tier_band_of dc from t quantity amount]\<rparr>)
         | None \<Rightarrow>
             (let (running, bands) =
                graduated dc quantity (dec_of_int dc 0) (dec_of_int dc 0) [] tiers
              in Inr \<lparr>tc_mode = GRADUATED, tc_exact = running, tc_bands = bands\<rparr>))"

subsection \<open>Well-formed tiers\<close>

text \<open>What the parser guarantees: bounds strictly increasing from the one before, only the last one
  open, no negative price.\<close>

fun ladder :: "('d \<Rightarrow> rat) \<Rightarrow> rat \<Rightarrow> 'd parsed_tier list \<Rightarrow> bool" where
  "ladder val prev [] = True"
| "ladder val prev (t # ts) =
     (0 \<le> val (pt_unitPrice t)
      \<and> (case pt_upTo t of None \<Rightarrow> ts = [] | Some u \<Rightarrow> prev < val u \<and> ladder val (val u) ts))"

lemma parse_tiers_ladder:
  assumes "decimal_laws dc val rnd"
  shows "parse_tiers dc prev ts = Inr ps \<Longrightarrow> ladder val (val prev) ps"
proof (induction ts arbitrary: prev ps)
  case (Cons t ts)
  then show ?case
    using parse_price_nonneg [OF assms] decimal_lawsD(4) [OF assms]
    by (auto simp: ebind_Inr_iff split: option.splits if_splits)
qed simp

lemma parse_tier_table_ladder:
  assumes "decimal_laws dc val rnd" "parse_tier_table dc table = Inr ps"
  shows "ladder val 0 ps" "ps \<noteq> []"
proof -
  have p: "parse_tiers dc (dec_of_int dc 0) (tt_tiers table) = Inr ps" "tt_tiers table \<noteq> []"
    using assms(2) by (auto simp: parse_tier_table_def split: if_splits)
  show "ladder val 0 ps"
    using parse_tiers_ladder [OF assms(1) p(1)] decimal_lawsD(5) [OF assms(1)] by simp
  show "ps \<noteq> []"
    using p by (cases "tt_tiers table") (auto simp: ebind_Inr_iff split: option.splits if_splits)
qed

subsection \<open>Graduated tiers\<close>

lemma val_min_of:
  "decimal_laws dc val rnd \<Longrightarrow> val (min_of dc a b) = min (val a) (val b)"
  by (auto simp: min_of_def decimal_lawsD min_def)

text \<open>The amount of one band.\<close>

definition band_amount :: "'d decimal_ops \<Rightarrow> 'd \<Rightarrow> 'd \<Rightarrow> 'd parsed_tier \<Rightarrow> 'd" where
  "band_amount dc quantity from t =
     dec_times dc
       (dec_minus dc (case pt_upTo t of None \<Rightarrow> quantity | Some upTo \<Rightarrow> min_of dc quantity upTo) from)
       (pt_unitPrice t)"

lemma graduated_Cons:
  "fst (graduated dc quantity from running bands (t # ts)) =
     (if \<not> dec_gt dc quantity from then running
      else case pt_upTo t of
        None \<Rightarrow> dec_plus dc running (band_amount dc quantity from t)
      | Some upTo \<Rightarrow>
          fst (graduated dc quantity upTo (dec_plus dc running (band_amount dc quantity from t)) [] ts))"
proof -
  have "fst (graduated dc q f r b us) = fst (graduated dc q f r b' us)" for q f r b b' us
    by (induction us arbitrary: f r b b') (auto simp: Let_def split: option.splits)
  then show ?thesis
    by (auto simp: band_amount_def Let_def split: option.splits)
qed

declare graduated.simps(2) [simp del] graduated_Cons [simp]

lemma band_amount_mono:
  assumes "decimal_laws dc val rnd" "val q \<le> val q'" "0 \<le> val (pt_unitPrice t)"
    and "val from < val q" "\<And>u. pt_upTo t = Some u \<Longrightarrow> val from < val u"
  shows "0 \<le> val (band_amount dc q from t)"
    and "val (band_amount dc q from t) \<le> val (band_amount dc q' from t)"
proof -
  note l = decimal_lawsD [OF assms(1)]
  define top where "top r = (case pt_upTo t of None \<Rightarrow> r | Some u \<Rightarrow> min_of dc r u)" for r
  have v: "val (band_amount dc r from t)
             = rnd (rnd (val (top r) - val from) * val (pt_unitPrice t))" for r
    by (simp add: band_amount_def top_def l)
  have "val from \<le> val (top q)" "val (top q) \<le> val (top q')"
    using assms(2,4,5) by (auto simp: top_def val_min_of [OF assms(1)] split: option.splits)
  then have "0 \<le> rnd (val (top q) - val from)"
      "rnd (val (top q) - val from) \<le> rnd (val (top q') - val from)"
    using monoD [OF l(1), of 0 "val (top q) - val from"] monoD [OF l(1)] l(2) by simp_all
  then have "0 \<le> rnd (val (top q) - val from) * val (pt_unitPrice t)"
      "rnd (val (top q) - val from) * val (pt_unitPrice t)
         \<le> rnd (val (top q') - val from) * val (pt_unitPrice t)"
    using assms(3) by (simp_all add: mult_right_mono)
  then show "0 \<le> val (band_amount dc q from t)"
      "val (band_amount dc q from t) \<le> val (band_amount dc q' from t)"
    using monoD [OF l(1), of 0] monoD [OF l(1)] l(2) by (simp_all add: v)
qed

lemma graduated_grows:
  assumes "decimal_laws dc val rnd" "ladder val (val from) ts" "rnd (val running) = val running"
  shows "val running \<le> val (fst (graduated dc q from running bands ts))"
  using assms(2,3)
proof (induction ts arbitrary: "from" running bands)
  case (Cons t ts)
  note l = decimal_lawsD [OF assms(1)]
  show ?case
  proof (cases "dec_gt dc q from")
    case True
    have b: "0 \<le> val (band_amount dc q from t)"
      using band_amount_mono(1) [OF assms(1), of q q t "from"] Cons.prems True
      by (auto simp: l split: option.splits)
    have "rnd (val running) \<le> rnd (val running + val (band_amount dc q from t))"
      using b monoD [OF l(1)] by simp
    then have s: "val running \<le> val (dec_plus dc running (band_amount dc q from t))"
      using Cons.prems(2) by (simp add: l)
    have f: "rnd (val (dec_plus dc running (band_amount dc q from t)))
        = val (dec_plus dc running (band_amount dc q from t))"
      by (simp add: l)
    show ?thesis
    proof (cases "pt_upTo t")
      case None
      with True s show ?thesis by (simp add: graduated_Cons)
    next
      case (Some u)
      then have "ladder val (val u) ts" using Cons.prems(1) by simp
      from order_trans [OF s Cons.IH [OF this f]] show ?thesis
        using True Some by (simp add: graduated_Cons)
    qed
  qed (simp add: graduated_Cons)
qed simp

lemma graduated_mono:
  assumes "decimal_laws dc val rnd" "val q \<le> val q'" "ladder val (val from) ts"
    and "val running \<le> val running'" "rnd (val running') = val running'"
  shows "val (fst (graduated dc q from running bands ts))
         \<le> val (fst (graduated dc q' from running' bands' ts))"
  using assms(3-5)
proof (induction ts arbitrary: "from" running running' bands bands')
  case (Cons t ts)
  note l = decimal_lawsD [OF assms(1)]
  show ?case
  proof (cases "dec_gt dc q from")
    case False
    then show ?thesis
      using graduated_grows [OF assms(1) Cons.prems(1,3), of q' bands'] Cons.prems(2)
      by (simp add: graduated_Cons)
  next
    case True
    then have g: "dec_gt dc q' from" using assms(2) by (simp add: l)
    have "val (band_amount dc q from t) \<le> val (band_amount dc q' from t)"
      using band_amount_mono(2) [OF assms(1,2), of t "from"] Cons.prems(1) True
      by (auto simp: l split: option.splits)
    then have s: "val (dec_plus dc running (band_amount dc q from t))
        \<le> val (dec_plus dc running' (band_amount dc q' from t))"
      using Cons.prems(2) monoD [OF l(1)] by (simp add: l)
    have f: "rnd (val (dec_plus dc running' (band_amount dc q' from t)))
        = val (dec_plus dc running' (band_amount dc q' from t))"
      by (simp add: l)
    show ?thesis
    proof (cases "pt_upTo t")
      case None
      with True g s show ?thesis by (simp add: graduated_Cons)
    next
      case (Some u)
      then have "ladder val (val u) ts" using Cons.prems(1) by simp
      from Cons.IH [OF this s f] show ?thesis
        using True g Some by (simp add: graduated_Cons)
    qed
  qed
qed simp

lemma compute_tiered_graduated:
  assumes "compute_tiered dc table q = Inr c" "tt_mode table = GRADUATED"
  obtains tiers where "parse_tier_table dc table = Inr tiers" "\<not> beyond_last_tier dc q tiers"
    "tc_exact c = fst (graduated dc q (dec_of_int dc 0) (dec_of_int dc 0) [] tiers)"
    "tc_mode c = GRADUATED"
  using assms
  by (auto simp: compute_tiered_def ebind_Inr_iff Let_def case_prod_beta split: if_splits)

text \<open>Graduated tiers: billing more units never costs less, through every rounding of the decimal
  arithmetic.\<close>

theorem graduated_total_monotone:
  assumes "decimal_laws dc val rnd" "tt_mode table = GRADUATED" "val q \<le> val q'"
    and "compute_tiered dc table q = Inr c" "compute_tiered dc table q' = Inr c'"
  shows "val (tc_exact c) \<le> val (tc_exact c')"
proof -
  obtain tiers where t: "parse_tier_table dc table = Inr tiers"
      "tc_exact c = fst (graduated dc q (dec_of_int dc 0) (dec_of_int dc 0) [] tiers)"
    using compute_tiered_graduated [OF assms(4,2)] .
  then have "tc_exact c' = fst (graduated dc q' (dec_of_int dc 0) (dec_of_int dc 0) [] tiers)"
    using compute_tiered_graduated [OF assms(5,2)] by fastforce
  then show ?thesis
    using graduated_mono [OF assms(1,3)] parse_tier_table_ladder [OF assms(1) t(1)] t(2)
      decimal_lawsD [OF assms(1)] by simp
qed

text \<open>The amount the contract states: each unit at the price of its band.\<close>

fun billed_by_band :: "('d \<Rightarrow> rat) \<Rightarrow> rat \<Rightarrow> rat \<Rightarrow> 'd parsed_tier list \<Rightarrow> rat" where
  "billed_by_band val q lower [] = 0"
| "billed_by_band val q lower (t # ts) =
     (case pt_upTo t of
        None \<Rightarrow> max 0 (q - lower) * val (pt_unitPrice t)
      | Some u \<Rightarrow> max 0 (min q (val u) - lower) * val (pt_unitPrice t)
                  + billed_by_band val q (val u) ts)"

lemma billed_nothing: "ladder val lower ts \<Longrightarrow> q \<le> lower \<Longrightarrow> billed_by_band val q lower ts = 0"
  by (induction ts arbitrary: lower) (auto split: option.splits)

lemma digits_val_less: "list_all is_digit s \<Longrightarrow> digits_val s < 10 ^ length s"
proof (induction s rule: rev_induct)
  case (snoc c s)
  then have "of_char c \<le> (57::nat)" by (simp add: is_digit_def Let_def)
  then have "digit_val c \<le> 9" by (simp add: digit_val_def)
  with snoc show ?case by (simp add: digits_val_append)
qed (simp add: digits_val_def)

text \<open>Exactness. decimal.js rounds a result to 40 significant digits, so a number that has no more is kept.
  A price and a bound have at most 20 digits before the point and 6 after it, as the parser requires.\<close>

definition keeps_40_digits :: "(rat \<Rightarrow> rat) \<Rightarrow> bool" where
  "keeps_40_digits rnd \<longleftrightarrow> (\<forall>k (n::int). \<bar>n\<bar> < 10 ^ 40 \<longrightarrow> rnd (of_int n / 10 ^ k) = of_int n / 10 ^ k)"

definition has_places :: "nat \<Rightarrow> rat \<Rightarrow> bool" where
  "has_places k x \<longleftrightarrow> (\<exists>n::int. x = of_int n / 10 ^ k)"

lemma places_arith:
  "has_places k x \<Longrightarrow> has_places k y \<Longrightarrow> has_places k (x + y)"
  "has_places k x \<Longrightarrow> has_places k y \<Longrightarrow> has_places k (x - y)"
  "has_places k x \<Longrightarrow> has_places l y \<Longrightarrow> has_places (k + l) (x * y)"
proof -
  assume x: "has_places k x"
  then obtain n :: int where n: "x = of_int n / 10 ^ k" by (auto simp: has_places_def)
  show "has_places k (x + y)" "has_places k (x - y)" if y: "has_places k y"
  proof -
    obtain m :: int where m: "y = of_int m / 10 ^ k" using y by (auto simp: has_places_def)
    show "has_places k (x + y)" unfolding has_places_def by (rule exI [of _ "n + m"]) (simp add: n m add_divide_distrib)
    show "has_places k (x - y)" unfolding has_places_def by (rule exI [of _ "n - m"]) (simp add: n m diff_divide_distrib)
  qed
  show "has_places (k + l) (x * y)" if y: "has_places l y"
  proof -
    obtain m :: int where m: "y = of_int m / 10 ^ l" using y by (auto simp: has_places_def)
    show ?thesis unfolding has_places_def by (rule exI [of _ "n * m"]) (simp add: n m power_add)
  qed
qed

lemma kept_exactly:
  assumes "keeps_40_digits rnd" "has_places k x" "0 \<le> x" "x * 10 ^ k < 10 ^ 40"
  shows "rnd x = x"
proof -
  obtain n :: int where n: "x = of_int n / 10 ^ k" using assms(2) by (auto simp: has_places_def)
  then have e: "x * 10 ^ k = of_int n" by simp
  have "(of_int n :: rat) < of_int (10 ^ 40)" using assms(4) unfolding e by simp
  then have "n < 10 ^ 40" by (simp only: of_int_less_iff)
  moreover have "(0::rat) \<le> of_int n" using assms(3) unfolding e [symmetric] by simp
  then have "0 \<le> n" by simp
  ultimately have "\<bar>n\<bar> < 10 ^ 40" by simp
  then show ?thesis using assms(1) unfolding keeps_40_digits_def n by blast
qed

lemma match_decimal_digits:
  assumes "match_decimal s = Some (neg, w, f)"
  shows "list_all is_digit w \<and> length w \<le> 20 \<and> (case f of None \<Rightarrow> True | Some f \<Rightarrow> list_all is_digit f)"
proof -
  define body where "body = (if s \<noteq> [] \<and> hd s = CHR ''-'' then tl s else s)"
  have w: "w = takeWhile is_digit body" "length w \<le> 20"
    using assms by (auto simp: match_decimal_def Let_def body_def split: if_splits)
  have "case f of None \<Rightarrow> True | Some f \<Rightarrow> list_all is_digit f"
    using assms by (auto simp: match_decimal_def Let_def split: if_splits)
  moreover have "list_all is_digit w" unfolding w(1) list_all_iff by (meson set_takeWhileD)
  ultimately show ?thesis using w(2) by simp
qed

lemma parse_price_digits:
  assumes "decimal_laws dc val rnd" "parse_price dc s = Inr p"
  shows "has_places 6 (val p)" "val p < 10 ^ 20"
proof -
  obtain neg w f where m: "match_decimal s = Some (neg, w, f)" and neg: "\<not> neg"
    and f: "(case f of None \<Rightarrow> 0 | Some f \<Rightarrow> length f) \<le> 6" and p: "p = dec_of_string dc s"
    using assms(2) by (auto simp: parse_price_def parse_decimal_def split: option.splits if_splits prod.splits)
  have w: "list_all is_digit w" "length w \<le> 20" "case f of None \<Rightarrow> True | Some f \<Rightarrow> list_all is_digit f"
    using match_decimal_digits [OF m] by simp_all
  have v: "val p = of_nat (digits_val w) + (case f of None \<Rightarrow> 0 | Some f \<Rightarrow> of_nat (digits_val f) / 10 ^ length f)"
    using val_dec_of_string [OF assms(1) m] neg by (simp add: p decimal_value_def Let_def)
  have "(10::nat) ^ length w \<le> 10 ^ 20" using w(2) by (intro power_increasing) simp_all
  then have wb: "digits_val w + 1 \<le> 10 ^ 20" using digits_val_less [OF w(1)] by simp
  have "of_nat (digits_val w + 1) \<le> (of_nat (10 ^ 20) :: rat)" using wb by (simp only: of_nat_le_iff)
  then have whole: "of_nat (digits_val w) + 1 \<le> (10::rat) ^ 20" by simp
  have w6: "has_places 6 (of_nat (digits_val w))"
    unfolding has_places_def by (rule exI [of _ "int (digits_val w) * 10 ^ 6"]) simp
  show "has_places 6 (val p)"
  proof (cases f)
    case None
    then show ?thesis using w6 by (simp add: v)
  next
    case (Some g)
    then have g: "length g \<le> 6" using f by simp
    have "(of_nat (digits_val g) :: rat) / 10 ^ length g = of_int (int (digits_val g) * 10 ^ (6 - length g)) / 10 ^ 6"
      using power_add [of "10::rat" "length g" "6 - length g"] g by (simp add: field_simps)
    then have "has_places 6 (of_nat (digits_val g) / 10 ^ length g)" unfolding has_places_def by blast
    with w6 Some show ?thesis by (simp add: v places_arith(1))
  qed
  show "val p < 10 ^ 20"
  proof (cases f)
    case None
    then show ?thesis using whole by (simp add: v)
  next
    case (Some g)
    then have "digits_val g < 10 ^ length g" using digits_val_less w(3) by simp
    then have "of_nat (digits_val g) < (of_nat (10 ^ length g) :: rat)" by (simp only: of_nat_less_iff)
    then have "of_nat (digits_val g) / (10::rat) ^ length g < 1" by simp
    moreover have "val p = of_nat (digits_val w) + of_nat (digits_val g) / 10 ^ length g" by (simp add: v Some)
    ultimately show ?thesis using whole by linarith
  qed
qed

fun priced_tiers :: "('d \<Rightarrow> rat) \<Rightarrow> 'd parsed_tier list \<Rightarrow> bool" where
  "priced_tiers val [] = True"
| "priced_tiers val (t # ts) =
     (has_places 6 (val (pt_unitPrice t)) \<and> val (pt_unitPrice t) < 10 ^ 20
      \<and> (case pt_upTo t of None \<Rightarrow> True | Some u \<Rightarrow> has_places 6 (val u)) \<and> priced_tiers val ts)"

lemma parse_tiers_priced:
  assumes "decimal_laws dc val rnd"
  shows "parse_tiers dc prev ts = Inr ps \<Longrightarrow> priced_tiers val ps"
proof (induction ts arbitrary: prev ps)
  case (Cons t ts)
  then show ?case
    using parse_price_digits [OF assms] by (auto simp: ebind_Inr_iff split: option.splits if_splits)
qed simp

lemma graduated_exact:
  assumes l: "decimal_laws dc val rnd" "keeps_40_digits rnd" and q: "has_places 6 (val q)" "val q < 10 ^ 8"
    and "ladder val (val from) ts" "priced_tiers val ts" "has_places 6 (val from)" "0 \<le> val from"
    and "has_places 12 (val running)" "0 \<le> val running" "val running \<le> min (val q) (val from) * 10 ^ 20 \<or> \<not> val from < val q"
  shows "val (fst (graduated dc q from running bands ts))
         = val running + billed_by_band val (val q) (val from) ts"
  using assms(5-)
proof (induction ts arbitrary: "from" running bands)
  case (Cons t ts)
  note l' = decimal_lawsD [OF l(1)]
  show ?case
  proof (cases "dec_gt dc q from")
    case False
    then have "billed_by_band val (val q) (val from) (t # ts) = 0"
      using billed_nothing [OF Cons.prems(1), of "val q"] by (simp add: l')
    with False show ?thesis by (simp add: graduated_Cons)
  next
    case True
    then have gt: "val from < val q" by (simp add: l')
    define top where "top = (case pt_upTo t of None \<Rightarrow> val q | Some u \<Rightarrow> min (val q) (val u))"
    let ?p = "val (pt_unitPrice t)" and ?running = "dec_plus dc running (band_amount dc q from t)"
    have p: "0 \<le> ?p" "?p \<le> 10 ^ 20" "has_places 6 ?p" using Cons.prems(1,2) by simp_all
    have top: "val from \<le> top" "top \<le> val q" "has_places 6 top"
      using Cons.prems(1,2) gt q(1) by (auto simp: top_def min_def split: option.splits)
    have "top - val from < 10 ^ 8" using top(2) q(2) Cons.prems(4) by linarith
    then have diff: "rnd (top - val from) = top - val from"
      using top(1) by (intro kept_exactly [OF l(2) places_arith(2) [OF top(3) Cons.prems(3)]]) simp_all
    have le: "(top - val from) * ?p \<le> (top - val from) * 10 ^ 20"
      using top(1) p(2) by (intro mult_left_mono) simp_all
    have places: "has_places 12 ((top - val from) * ?p)"
      using places_arith(3) [OF places_arith(2) [OF top(3) Cons.prems(3)] p(3)] by simp
    have nonneg: "0 \<le> (top - val from) * ?p" using top(1) p(1) by simp
    have sum: "val running + (top - val from) * ?p \<le> top * 10 ^ 20"
      using le Cons.prems(7) gt by (simp add: algebra_simps)
    have "val running + (top - val from) * ?p \<le> val q * 10 ^ 20"
      using sum mult_right_mono [OF top(2), of "10 ^ 20"] by simp
    then have small: "val running + (top - val from) * ?p < 10 ^ 28" using q(2) by simp
    then have "(top - val from) * ?p < 10 ^ 28" using Cons.prems(6) by linarith
    then have amount: "rnd ((top - val from) * ?p) = (top - val from) * ?p"
      by (intro kept_exactly [OF l(2) places nonneg]) (simp add: mult.commute)
    have total: "rnd (val running + (top - val from) * ?p) = val running + (top - val from) * ?p"
      using places_arith(1) [OF Cons.prems(5) places] nonneg Cons.prems(6) small
      by (intro kept_exactly [OF l(2), where k = 12]) simp_all
    have "val (band_amount dc q from t) = (top - val from) * ?p"
      using diff amount by (simp add: band_amount_def top_def l' val_min_of [OF l(1)] split: option.splits)
    then have r: "val ?running = val running + (top - val from) * ?p" using total by (simp add: l')
    show ?thesis
    proof (cases "pt_upTo t")
      case None
      with True gt r show ?thesis by (simp add: graduated_Cons top_def)
    next
      case (Some u)
      have u: "val from < val u" "ladder val (val u) ts" "priced_tiers val ts" "has_places 6 (val u)"
        using Cons.prems(1,2) Some by simp_all
      have "val (fst (graduated dc q u ?running [] ts)) = val ?running + billed_by_band val (val q) (val u) ts"
      proof (rule Cons.IH [OF u(2-4)])
        show "0 \<le> val u" using u(1) Cons.prems(4) by simp
        show "has_places 12 (val ?running)" "0 \<le> val ?running"
          using places_arith(1) [OF Cons.prems(5) places] nonneg Cons.prems(6) by (simp_all add: r)
        show "val ?running \<le> min (val q) (val u) * 10 ^ 20 \<or> \<not> val u < val q"
          using sum by (simp add: r top_def Some)
      qed
      moreover have "top - val from = max 0 (min (val q) (val u) - val from)"
        using top(1) by (simp add: top_def Some)
      ultimately show ?thesis using True Some r by (simp add: graduated_Cons)
    qed
  qed
qed simp

text \<open>C18: graduated tiers: the amount is, to the last digit, the sum over the bands of the units that fall in the
  band times its price, for every table the parser accepts and every quantity of at most 6 decimals below a
  hundred million. decimal.js is only known to round each result to 40 significant digits; that no result
  of the loop has more is part of the theorem.\<close>

theorem graduated_bills_by_band:
  assumes "decimal_laws dc val rnd" "keeps_40_digits rnd" "tt_mode table = GRADUATED"
    and "compute_tiered dc table q = Inr c" "has_places 6 (val q)" "val q < 10 ^ 8"
  shows "\<exists>tiers. parse_tier_table dc table = Inr tiers
           \<and> val (tc_exact c) = billed_by_band val (val q) 0 tiers"
proof -
  obtain tiers where t: "parse_tier_table dc table = Inr tiers"
      "tc_exact c = fst (graduated dc q (dec_of_int dc 0) (dec_of_int dc 0) [] tiers)"
    using compute_tiered_graduated [OF assms(4,3)] .
  have "priced_tiers val tiers"
    using t(1) parse_tiers_priced [OF assms(1)] by (auto simp: parse_tier_table_def split: if_splits)
  moreover have zero: "val (dec_of_int dc 0) = 0" using decimal_lawsD(5) [OF assms(1)] by simp
  moreover have "has_places k 0" for k unfolding has_places_def by (rule exI [of _ 0]) simp
  moreover have "ladder val 0 tiers" by (rule parse_tier_table_ladder(1) [OF assms(1) t(1)])
  ultimately show ?thesis
    using graduated_exact [OF assms(1,2,5,6), of "dec_of_int dc 0" tiers "dec_of_int dc 0" "[]"] t by (auto simp: min_def)
qed

subsection \<open>Volume tiers\<close>

lemma volume_tier_exists:
  assumes "decimal_laws dc val rnd" "ts \<noteq> []" "\<not> beyond_last_tier dc q ts"
  shows "volume_tier dc q from ts \<noteq> None"
  using assms(2,3)
proof (induction ts arbitrary: "from")
  case (Cons t ts)
  show ?case
  proof (cases "pt_upTo t")
    case (Some u)
    then show ?thesis
      using Cons by (cases "ts = []")
        (auto simp: beyond_last_tier_def dec_lte_val [OF assms(1)] decimal_lawsD [OF assms(1)])
  qed simp
qed simp

lemma volume_tier_reached:
  assumes "decimal_laws dc val rnd"
  shows "ladder val (val from) ts \<Longrightarrow> volume_tier dc q from ts = Some (prev, t) \<Longrightarrow>
     t \<in> set ts
     \<and> (case pt_upTo t of None \<Rightarrow> True | Some u \<Rightarrow> val q \<le> val u)
     \<and> (if prev = from then True else val prev < val q)
     \<and> (case pt_upTo t of None \<Rightarrow> True | Some u \<Rightarrow> val prev < val u)"
proof (induction ts arbitrary: "from")
  case (Cons a ts)
  show ?case
  proof (cases "pt_upTo a")
    case None
    then show ?thesis using Cons.prems by auto
  next
    case (Some u)
    show ?thesis
    proof (cases "dec_lte dc q u")
      case True
      then show ?thesis using Cons.prems Some by (auto simp: dec_lte_val [OF assms])
    next
      case False
      then have "ladder val (val u) ts" "volume_tier dc q u ts = Some (prev, t)" "val u < val q"
        using Cons.prems Some by (auto simp: dec_lte_val [OF assms])
      with Cons.IH [of u] show ?thesis by (auto split: option.splits if_splits)
    qed
  qed
qed simp

text \<open>Volume tiers: the whole quantity is billed at the price of one tier, the one reached: its bound
  is not below the quantity, and the bound before it, when the tier is not the first, is below.\<close>

theorem volume_bills_at_tier_reached:
  assumes "decimal_laws dc val rnd" "tt_mode table = VOLUME"
    and "compute_tiered dc table q = Inr c"
  shows "\<exists>tiers prev t. parse_tier_table dc table = Inr tiers \<and> t \<in> set tiers
           \<and> val (tc_exact c) = rnd (val q * val (pt_unitPrice t))
           \<and> (case pt_upTo t of None \<Rightarrow> True | Some u \<Rightarrow> val q \<le> val u \<and> val prev < val u)
           \<and> (if prev = dec_of_int dc 0 then True else val prev < val q)"
proof -
  obtain tiers where t: "parse_tier_table dc table = Inr tiers" "\<not> beyond_last_tier dc q tiers"
    using assms(3) by (auto simp: compute_tiered_def ebind_Inr_iff split: if_splits)
  note wf = parse_tier_table_ladder [OF assms(1) t(1)]
  obtain prev u where v: "volume_tier dc q (dec_of_int dc 0) tiers = Some (prev, u)"
    using volume_tier_exists [OF assms(1) wf(2) t(2), of "dec_of_int dc 0"]
    by (cases "volume_tier dc q (dec_of_int dc 0) tiers") auto
  have "ladder val (val (dec_of_int dc 0)) tiers" using wf(1) decimal_lawsD(5) [OF assms(1)] by simp
  from volume_tier_reached [OF assms(1) this v] have "u \<in> set tiers"
      "case pt_upTo u of None \<Rightarrow> True | Some b \<Rightarrow> val q \<le> val b \<and> val prev < val b"
      "if prev = dec_of_int dc 0 then True else val prev < val q"
    by (auto split: option.splits)
  moreover have "val (tc_exact c) = rnd (val q * val (pt_unitPrice u))"
    using assms(2,3) t v by (auto simp: compute_tiered_def Let_def decimal_lawsD [OF assms(1)])
  ultimately show ?thesis using t(1) by blast
qed

subsection \<open>Examples\<close>

text \<open>Up to 10 at 30, up to 50 at 25.\<close>

definition example_tiers :: "tier_mode \<Rightarrow> tier_table" where
  "example_tiers mode =
     \<lparr>tt_mode = mode, tt_tiers = [\<lparr>ti_upTo = Some ''10'', ti_unitPrice = ''30''\<rparr>,
                                 \<lparr>ti_upTo = Some ''50'', ti_unitPrice = ''25''\<rparr>]\<rparr>"

lemma example_parse:
  "parse_tier_table rat_ops (example_tiers mode) =
     Inr [\<lparr>pt_upTo = Some 10, pt_unitPrice = 30\<rparr>, \<lparr>pt_upTo = Some 50, pt_unitPrice = 25\<rparr>]"
  by (simp add: parse_tier_table_def example_tiers_def parse_price_def parse_decimal_def
      match_decimal_def is_digit_def rat_ops_def rat_read_def decimal_value_def digits_val_def
      digit_val_def)

lemma example_graduated:
  "\<exists>c. compute_tiered rat_ops (example_tiers GRADUATED) 12 = Inr c \<and> tc_exact c = 350"
  "\<exists>c. compute_tiered rat_ops (example_tiers GRADUATED) 5 = Inr c \<and> tc_exact c = 150"
  by (simp_all add: compute_tiered_def example_parse beyond_last_tier_def)
    (simp_all add: example_tiers_def rat_ops_def case_prod_beta band_amount_def min_of_def)

lemma example_volume:
  "\<exists>c. compute_tiered rat_ops (example_tiers VOLUME) 12 = Inr c \<and> tc_exact c = 300"
  by (simp add: compute_tiered_def example_parse beyond_last_tier_def)
    (simp add: example_tiers_def rat_ops_def dec_lte_def)

lemma example_mode [simp]: "tt_mode (example_tiers mode) = mode"
  by (simp add: example_tiers_def)

theorem graduated_total_monotone_witness:
  "\<exists>c c'. compute_tiered rat_ops (example_tiers GRADUATED) 5 = Inr c
     \<and> compute_tiered rat_ops (example_tiers GRADUATED) 12 = Inr c' \<and> tc_exact c \<le> tc_exact c'"
  using example_graduated graduated_total_monotone [OF rat_laws, of "example_tiers GRADUATED" 5 12]
  by fastforce

theorem graduated_bills_by_band_witness:
  "\<exists>c tiers. parse_tier_table rat_ops (example_tiers GRADUATED) = Inr tiers
     \<and> compute_tiered rat_ops (example_tiers GRADUATED) 12 = Inr c
     \<and> id (tc_exact c) = billed_by_band id (id 12) 0 tiers"
proof -
  obtain c where c: "compute_tiered rat_ops (example_tiers GRADUATED) 12 = Inr c" using example_graduated(1) by blast
  have "keeps_40_digits id" by (simp add: keeps_40_digits_def)
  moreover have "has_places 6 (id 12)" unfolding has_places_def by (rule exI [of _ "12000000"]) simp
  ultimately show ?thesis using graduated_bills_by_band [OF rat_laws _ example_mode c] c by auto
qed

theorem volume_bills_at_tier_reached_witness:
  "\<exists>tiers prev t. parse_tier_table rat_ops (example_tiers VOLUME) = Inr tiers \<and> t \<in> set tiers
     \<and> (300::rat) = id (id 12 * id (pt_unitPrice t))
     \<and> (case pt_upTo t of None \<Rightarrow> True | Some u \<Rightarrow> id 12 \<le> id u \<and> id prev < id u)
     \<and> (if prev = dec_of_int rat_ops 0 then True else id prev < id 12)"
proof -
  obtain c where "compute_tiered rat_ops (example_tiers VOLUME) 12 = Inr c" "tc_exact c = 300"
    using example_volume by blast
  with volume_bills_at_tier_reached [OF rat_laws example_mode this(1)] show ?thesis
    by (simp only: id_apply)
qed

end
