(* ===== verification/Schedules.thy ===== *)
theory Schedules
  imports PricingTypes ExactDecimals
begin

text \<open>
  The schedule that applies at a date, the settings, and the quantities of outside providers:
  \<open>packages/pricing/src/schedule.ts\<close> and \<open>quantity.ts\<close>. A provider is a parameter: what it answers for a
  contract, an article and a date.
\<close>

subsection \<open>The schedule of a date\<close>

definition check_schedule :: "pricing_schedule \<Rightarrow> unit priced" where
  "check_schedule s =
     ebind (parse_iso_date (sd_validFrom s)) (\<lambda>_.
       case sd_validTo s of
         None \<Rightarrow> Inr ()
       | Some validTo \<Rightarrow>
           ebind (parse_iso_date validTo) (\<lambda>_.
             if validTo < sd_validFrom s then Inl (pricing_error INVALID_DATE) else Inr ()))"

definition covers :: "pricing_schedule \<Rightarrow> string \<Rightarrow> bool" where
  "covers s date =
     (sd_validFrom s \<le> date \<and> (case sd_validTo s of None \<Rightarrow> True | Some validTo \<Rightarrow> date \<le> validTo))"

definition select_schedule :: "pricing_schedule list \<Rightarrow> string \<Rightarrow> pricing_schedule priced" where
  "select_schedule schedules date =
     ebind (parse_iso_date date) (\<lambda>_.
     ebind (emap check_schedule schedules) (\<lambda>_.
       let matching = filter (\<lambda>s. covers s date) schedules
       in if matching = [] then Inl (pricing_error NO_SCHEDULE)
          else if length matching > 1 then Inl (pricing_error OVERLAPPING_SCHEDULES)
          else Inr (hd matching)))"

definition or_default :: "'a option \<Rightarrow> 'a \<Rightarrow> 'a" where
  "or_default x d = (case x of None \<Rightarrow> d | Some v \<Rightarrow> v)"

definition resolve_settings ::
    "'d decimal_ops \<Rightarrow> partial_settings option \<Rightarrow> pricing_settings priced" where
  "resolve_settings dc partial =
     (let d = DEFAULT_PRICING_SETTINGS;
          s = (case partial of
                 None \<Rightarrow> d
               | Some p \<Rightarrow>
                   \<lparr>st_rounding = or_default (ps_rounding p) (st_rounding d),
                    st_unitPriceScale = or_default (ps_unitPriceScale p) (st_unitPriceScale d),
                    st_overrideApprovalThresholdPercent =
                      or_default (ps_overrideApprovalThresholdPercent p)
                        (st_overrideApprovalThresholdPercent d),
                    st_indexLookup = or_default (ps_indexLookup p) (st_indexLookup d)\<rparr>)
      in if st_unitPriceScale s < 0 \<or> st_unitPriceScale s > 6
         then Inl (pricing_error INVALID_SETTINGS)
         else case parse_decimal dc (st_overrideApprovalThresholdPercent s) 4 False of
           Inl _ \<Rightarrow> Inl (pricing_error INVALID_SETTINGS)
         | Inr _ \<Rightarrow> Inr s)"

text \<open>The version in force, as the contract reads it: the only one whose period holds the date.\<close>

lemma filter_singleton_iff:
  "filter P xs = [x] \<longleftrightarrow> (\<exists>us vs. xs = us @ x # vs \<and> P x \<and> list_all (\<lambda>y. \<not> P y) (us @ vs))"
proof
  assume "filter P xs = [x]"
  then obtain us vs where "xs = us @ x # vs" "\<forall>u \<in> set us. \<not> P u" "P x" "filter P vs = []"
    unfolding filter_eq_Cons_iff by (metis eq_commute)
  then show "\<exists>us vs. xs = us @ x # vs \<and> P x \<and> list_all (\<lambda>y. \<not> P y) (us @ vs)"
    by (auto simp: list_all_iff filter_empty_conv intro!: exI)
qed (auto simp: list_all_iff filter_empty_conv)

lemma length_one: "length xs = Suc 0 \<longleftrightarrow> xs = [hd xs]"
  by (cases xs) auto

lemma select_schedule_Inr:
  "select_schedule schedules date = Inr s \<longleftrightarrow>
     is_ok (parse_iso_date date) \<and> is_ok (emap check_schedule schedules)
     \<and> filter (\<lambda>s. covers s date) schedules = [s]"
proof -
  have "filter (\<lambda>s. covers s date) schedules \<noteq> [] \<and> \<not> length (filter (\<lambda>s. covers s date) schedules) > 1
        \<and> hd (filter (\<lambda>s. covers s date) schedules) = s
        \<longleftrightarrow> filter (\<lambda>s. covers s date) schedules = [s]"
    by (cases "filter (\<lambda>s. covers s date) schedules") auto
  then show ?thesis
    by (auto simp: select_schedule_def ebind_Inr_iff is_ok_iff Let_def)
qed

text \<open>A date has at most one schedule: when one is selected, it covers the date and no other version
  of the list does; two that cover it, or none, is an error, never a choice.\<close>

theorem schedule_unique:
  "case select_schedule schedules date of
     Inr s \<Rightarrow> \<exists>us vs. schedules = us @ s # vs \<and> covers s date
                \<and> list_all (\<lambda>t. \<not> covers t date) (us @ vs)
   | Inl e \<Rightarrow> er_code e \<in> {INVALID_DATE, NO_SCHEDULE, OVERLAPPING_SCHEDULES}"
proof (cases "select_schedule schedules date")
  case (Inr s)
  note i = Inr [unfolded select_schedule_Inr filter_singleton_iff]
  show ?thesis using i unfolding Inr by simp
next
  case (Inl e)
  have "er_code e' = INVALID_DATE" if "parse_iso_date d = Inl e'" for d e'
    using that by (auto simp: parse_iso_date_def pricing_error_def Let_def split: option.splits if_splits)
  moreover have "er_code e' = INVALID_DATE" if "check_schedule s = Inl e'" for s e'
    using that calculation
    by (auto simp: check_schedule_def ebind_Inl_iff pricing_error_def split: option.splits if_splits)
  ultimately show ?thesis
    using Inl emap_Inl [of check_schedule schedules]
    by (auto simp: select_schedule_def ebind_Inl_iff pricing_error_def Let_def split: if_splits)
qed

subsection \<open>Quantities of a provider\<close>

record quantity_observation =
  qo_quantity :: string
  qo_source :: string
  qo_observedAt :: "string option"

text \<open>\<open>getQuantity(contractRef, articleCode, date)\<close>, awaited.\<close>

type_synonym quantity_provider = "string \<Rightarrow> string \<Rightarrow> string \<Rightarrow> quantity_observation priced"

record fake_quantity_entry =
  fq_contractRef :: string
  fq_articleCode :: string
  fq_effectiveFrom :: string
  fq_quantity :: string
  fq_observedAt :: "string option"

definition later_entry :: "fake_quantity_entry \<Rightarrow> fake_quantity_entry \<Rightarrow> bool" where
  "later_entry e b = (fq_effectiveFrom e > fq_effectiveFrom b)"

interpretation latest_entry: latest_by later_entry fq_effectiveFrom
  by unfold_locales (simp add: later_entry_def)

text \<open>\<open>FakeQuantityProvider\<close>: its entries, its source name and the calls it has recorded.\<close>

record fake_provider =
  fp_entries :: "fake_quantity_entry list"
  fp_source :: string
  fp_calls :: "(string \<times> string \<times> string) list"

definition fake_getQuantity ::
    "fake_provider \<Rightarrow> string \<Rightarrow> string \<Rightarrow> string \<Rightarrow> fake_provider \<times> quantity_observation priced" where
  "fake_getQuantity p contractRef articleCode date =
     (p\<lparr>fp_calls := fp_calls p @ [(contractRef, articleCode, date)]\<rparr>,
      case pick later_entry
             (filter (\<lambda>e. fq_contractRef e = contractRef \<and> fq_articleCode e = articleCode
                        \<and> fq_effectiveFrom e \<le> date) (fp_entries p)) of
        None \<Rightarrow> Inl (pricing_error QUANTITY_UNAVAILABLE)
      | Some best \<Rightarrow>
          Inr \<lparr>qo_quantity = fq_quantity best, qo_source = fp_source p,
               qo_observedAt = fq_observedAt best\<rparr>)"

definition attach_line :: "string \<Rightarrow> pricing_error \<Rightarrow> pricing_error" where
  "attach_line lineId e = (if er_lineId e = None then line_error (er_code e) lineId else e)"

definition resolve_line_quantity ::
    "'d decimal_ops \<Rightarrow> quantity_provider \<Rightarrow> string \<Rightarrow> string \<Rightarrow> pricing_line
     \<Rightarrow> resolved_quantity list priced" where
  "resolve_line_quantity dc provider contractRef date line =
     (if ln_kind line = DISCOUNT then Inr []
      else case ln_quantity line of
        Some (PROVIDER article) \<Rightarrow>
          (let articleCode = (case article of None \<Rightarrow> ln_code line | Some a \<Rightarrow> a);
               r = ebind (provider contractRef articleCode date) (\<lambda>obs.
                     ebind (parse_price dc (qo_quantity obs)) (\<lambda>_. Inr obs))
           in case r of
                Inl e \<Rightarrow> Inl (attach_line (ln_id line) e)
              | Inr obs \<Rightarrow>
                  Inr [\<lparr>rq_lineId = ln_id line, rq_quantity = qo_quantity obs,
                        rq_source = qo_source obs, rq_observedAt = qo_observedAt obs\<rparr>])
      | _ \<Rightarrow> Inr [])"

definition resolve_quantities ::
    "'d decimal_ops \<Rightarrow> quantity_provider \<Rightarrow> pricing_schedule list \<Rightarrow> string \<Rightarrow> string
     \<Rightarrow> resolved_quantity list priced" where
  "resolve_quantities dc provider schedules contractRef date =
     ebind (parse_iso_date date) (\<lambda>_.
     ebind (select_schedule schedules date) (\<lambda>schedule.
     ebind (emap (resolve_line_quantity dc provider contractRef date) (sd_lines schedule)) (\<lambda>qs.
       Inr (concat qs))))"

definition needs_provider :: "pricing_line \<Rightarrow> bool" where
  "needs_provider line \<longleftrightarrow>
     ln_kind line \<noteq> DISCOUNT
     \<and> (case ln_quantity line of Some (PROVIDER article) \<Rightarrow> True | _ \<Rightarrow> False)"

lemma resolve_line_Inr:
  assumes "resolve_line_quantity dc provider contractRef date line = Inr qs"
  shows "map rq_lineId qs = (if needs_provider line then [ln_id line] else [])"
    and "q \<in> set qs \<Longrightarrow> is_ok (parse_price dc (rq_quantity q))"
  using assms
  by (auto simp: resolve_line_quantity_def needs_provider_def Let_def ebind_Inr_iff is_ok_iff
      split: if_splits option.splits quantity_spec.splits sum.splits)

lemma resolve_lines_Inr:
  "emap (resolve_line_quantity dc provider contractRef date) lines = Inr qss \<Longrightarrow>
     map rq_lineId (concat qss) = map ln_id (filter needs_provider lines)
     \<and> (\<forall>q \<in> set (concat qss). is_ok (parse_price dc (rq_quantity q)))"
proof (induction lines arbitrary: qss)
  case (Cons l ls)
  then obtain qs rest where q: "resolve_line_quantity dc provider contractRef date l = Inr qs"
      "emap (resolve_line_quantity dc provider contractRef date) ls = Inr rest" "qss = qs # rest"
    by (auto simp: ebind_Inr_iff)
  then show ?case using Cons.IH [OF q(2)] resolve_line_Inr [OF q(1)] by auto
qed simp

text \<open>The quantities of a date are one for each provider line of its schedule, discounts apart, in the
  order of the lines, each a valid decimal; and a failure of the provider names the line.\<close>

theorem quantities_complete:
  assumes "select_schedule schedules date = Inr schedule"
  shows "case resolve_quantities dc provider schedules contractRef date of
           Inr qs \<Rightarrow> map rq_lineId qs = map ln_id (filter needs_provider (sd_lines schedule))
                     \<and> list_all (\<lambda>q. is_ok (parse_price dc (rq_quantity q))) qs
         | Inl e \<Rightarrow> er_lineId e \<noteq> None"
proof -
  obtain d where "parse_iso_date date = Inr d" using assms by (auto simp: select_schedule_Inr is_ok_iff)
  then have r: "resolve_quantities dc provider schedules contractRef date =
      ebind (emap (resolve_line_quantity dc provider contractRef date) (sd_lines schedule))
        (\<lambda>qs. Inr (concat qs))"
    by (simp add: resolve_quantities_def assms)
  have "er_lineId e \<noteq> None" if "resolve_line_quantity dc provider contractRef date l = Inl e" for l e
    using that
    by (auto simp: resolve_line_quantity_def attach_line_def line_error_def Let_def
        split: if_splits option.splits quantity_spec.splits sum.splits)
  then show ?thesis
    unfolding r using resolve_lines_Inr [of dc provider contractRef date "sd_lines schedule"]
      emap_Inl [of "resolve_line_quantity dc provider contractRef date" "sd_lines schedule"]
    by (cases "emap (resolve_line_quantity dc provider contractRef date) (sd_lines schedule)")
      (auto simp: list_all_iff)
qed

subsection \<open>Example\<close>

definition seats_line :: pricing_line where
  "seats_line =
     \<lparr>ln_id = ''L1'', ln_code = ''POSTE'', ln_label = ''Postes'', ln_unit = ''poste'', ln_kind = UNIT,
      ln_mode = MANUAL, ln_vatRatePercent = ''20'', ln_quantity = Some (PROVIDER None),
      ln_recurrence = None, ln_unitPrice = Some ''30'', ln_tiers = None, ln_rule = None,
      ln_formula = None, ln_revision = None, ln_hoursPerPack = None, ln_discount = None\<rparr>"

definition seats_schedule :: pricing_schedule where
  "seats_schedule =
     \<lparr>sd_id = ''S1'', sd_validFrom = ''2025-01-01'', sd_validTo = None, sd_currency = ''EUR'',
      sd_lines = [seats_line]\<rparr>"

lemma seats_selected: "select_schedule [seats_schedule] ''2025-06-15'' = Inr seats_schedule"
  by code_simp

theorem quantities_complete_witness:
  "case resolve_quantities rat_ops (\<lambda>c a d. Inr \<lparr>qo_quantity = ''42'', qo_source = ''rmm'', qo_observedAt = None\<rparr>)
          [seats_schedule] ''C1'' ''2025-06-15'' of
     Inr qs \<Rightarrow> map rq_lineId qs = map ln_id (filter needs_provider (sd_lines seats_schedule))
               \<and> list_all (\<lambda>q. is_ok (parse_price rat_ops (rq_quantity q))) qs
   | Inl e \<Rightarrow> er_lineId e \<noteq> None"
  by (rule quantities_complete [OF seats_selected])

end
