(* ===== verification/Overrides.thy ===== *)
theory Overrides
  imports PricingTypes ExactDecimals
begin

text \<open>
  Price overrides: \<open>packages/pricing/src/overrides.ts\<close>. An override replaces the unit price of a line on
  a bounded period; beyond a gap to the computed price it needs a second approver other than its
  author, and without one it is not applied.
\<close>

datatype skip_reason =
    EMPTY_REASON | REQUIRES_SECOND_APPROVAL | SELF_APPROVAL | SUPERSEDED | NOT_APPLICABLE

datatype override_issue = I_EMPTY_REASON | I_INVALID_PERIOD | I_SELF_APPROVAL | I_INVALID_PRICE

text \<open>\<open>None\<close> is an infinite gap.\<close>

definition override_gap_percent :: "'d decimal_ops \<Rightarrow> 'd \<Rightarrow> 'd \<Rightarrow> 'd option" where
  "override_gap_percent dc overridePrice computedPrice =
     (let diff = dec_abs dc (dec_minus dc overridePrice computedPrice) in
      if dec_is_zero dc computedPrice then
        (if dec_is_zero dc diff then Some (dec_of_int dc 0) else None)
      else Some (dec_times dc (dec_div dc diff (dec_abs dc computedPrice)) (dec_of_int dc 100)))"

definition gap_exceeds :: "'d decimal_ops \<Rightarrow> 'd option \<Rightarrow> 'd \<Rightarrow> bool" where
  "gap_exceeds dc gap thresholdPercent =
     (case gap of None \<Rightarrow> True | Some g \<Rightarrow> dec_gt dc g thresholdPercent)"

definition requires_second_approval :: "'d decimal_ops \<Rightarrow> 'd \<Rightarrow> 'd \<Rightarrow> 'd \<Rightarrow> bool" where
  "requires_second_approval dc overridePrice computedPrice thresholdPercent =
     gap_exceeds dc (override_gap_percent dc overridePrice computedPrice) thresholdPercent"

definition validate_override :: "'d decimal_ops \<Rightarrow> price_override \<Rightarrow> override_issue list" where
  "validate_override dc ov =
     (if js_blank (po_reason ov) then [I_EMPTY_REASON] else [])
     @ (case ebind (parse_iso_date (po_validFrom ov)) (\<lambda>from.
               ebind (parse_iso_date (po_validTo ov)) (\<lambda>to. Inr (from, to))) of
          Inl e \<Rightarrow> [I_INVALID_PERIOD]
        | Inr (from, to) \<Rightarrow> if from > to then [I_INVALID_PERIOD] else [])
     @ (if po_approvedBy ov = Some (po_authorId ov) then [I_SELF_APPROVAL] else [])
     @ (case parse_price dc (po_unitPrice ov) of Inl e \<Rightarrow> [I_INVALID_PRICE] | Inr p \<Rightarrow> [])"

record 'd applied_override =
  ao_override :: price_override
  ao_unitPrice :: 'd
  ao_gapPercent :: "'d option"
  ao_requiresSecondApproval :: bool

record skipped_override =
  so_overrideId :: string
  so_reason :: skip_reason
  so_gapPercent :: "string option"

record 'd override_selection =
  os_applied :: "'d applied_override option"
  os_skipped :: "skipped_override list"

definition skip :: "'d decimal_ops \<Rightarrow> price_override \<Rightarrow> skip_reason \<Rightarrow> 'd option \<Rightarrow> skipped_override" where
  "skip dc ov reason gap =
     \<lparr>so_overrideId = po_id ov, so_reason = reason,
      so_gapPercent = map_option (dec_to_string dc) gap\<rparr>"

definition applicable_on :: "price_override \<Rightarrow> string \<Rightarrow> bool" where
  "applicable_on ov date = (po_validFrom ov \<le> date \<and> date \<le> po_validTo ov)"

text \<open>One turn of the loop, for an override of the date: the override is kept, or skipped for a
  reason.\<close>

definition examine_override ::
    "'d decimal_ops \<Rightarrow> 'd \<Rightarrow> 'd \<Rightarrow> price_override
     \<Rightarrow> (skipped_override + 'd applied_override) priced" where
  "examine_override dc computedUnitPrice thresholdPercent ov =
     ebind (parse_price dc (po_unitPrice ov)) (\<lambda>unitPrice.
       let gap = override_gap_percent dc unitPrice computedUnitPrice;
           needs = gap_exceeds dc gap thresholdPercent
       in if js_blank (po_reason ov) then Inr (Inl (skip dc ov EMPTY_REASON gap))
          else if needs \<and> js_falsy (po_approvedBy ov)
          then Inr (Inl (skip dc ov REQUIRES_SECOND_APPROVAL gap))
          else if needs \<and> po_approvedBy ov = Some (po_authorId ov)
          then Inr (Inl (skip dc ov SELF_APPROVAL gap))
          else Inr (Inr \<lparr>ao_override = ov, ao_unitPrice = unitPrice, ao_gapPercent = gap,
                         ao_requiresSecondApproval = needs\<rparr>))"

definition starts_later :: "'d applied_override \<Rightarrow> 'd applied_override \<Rightarrow> bool" where
  "starts_later b a = (po_validFrom (ao_override b) > po_validFrom (ao_override a))"

interpretation latest_override: latest_by starts_later "\<lambda>a. po_validFrom (ao_override a)"
  by unfold_locales (simp add: starts_later_def)

fun lefts :: "('a + 'b) list \<Rightarrow> 'a list" where
  "lefts [] = []"
| "lefts (x # xs) = (case x of Inl a \<Rightarrow> a # lefts xs | Inr b \<Rightarrow> lefts xs)"

fun rights :: "('a + 'b) list \<Rightarrow> 'b list" where
  "rights [] = []"
| "rights (x # xs) = (case x of Inl a \<Rightarrow> rights xs | Inr b \<Rightarrow> b # rights xs)"

definition same_start :: "'d applied_override \<Rightarrow> 'd applied_override \<Rightarrow> bool" where
  "same_start a e = (po_validFrom (ao_override e) = po_validFrom (ao_override a))"

text \<open>When no other eligible override has the start of \<open>latest\<close>, those that are not \<open>latest\<close> are those that
  do not have its start.\<close>

definition select_override ::
    "'d decimal_ops \<Rightarrow> price_override list \<Rightarrow> string \<Rightarrow> 'd \<Rightarrow> 'd \<Rightarrow> 'd override_selection priced" where
  "select_override dc overrides date computedUnitPrice thresholdPercent =
     ebind (emap (examine_override dc computedUnitPrice thresholdPercent)
              (filter (\<lambda>ov. applicable_on ov date) overrides)) (\<lambda>examined.
       let skipped = lefts examined; eligible = rights examined in
       case pick starts_later eligible of
         None \<Rightarrow> Inr \<lparr>os_applied = None, os_skipped = skipped\<rparr>
       | Some latest \<Rightarrow>
           if length (filter (same_start latest) eligible) > 1
           then Inl (line_error AMBIGUOUS_OVERRIDE (po_lineId (ao_override latest)))
           else Inr \<lparr>os_applied = Some latest,
                     os_skipped = skipped @
                       map (\<lambda>e. skip dc (ao_override e) SUPERSEDED (ao_gapPercent e))
                         (filter (\<lambda>e. \<not> same_start latest e) eligible)\<rparr>)"

subsection \<open>What an applied override went through\<close>

lemma lefts_iff: "a \<in> set (lefts xs) \<longleftrightarrow> Inl a \<in> set xs"
  by (induction xs) (auto split: sum.splits)

lemma rights_iff: "b \<in> set (rights xs) \<longleftrightarrow> Inr b \<in> set xs"
  by (induction xs) (auto split: sum.splits)

definition guarded :: "'d decimal_ops \<Rightarrow> 'd \<Rightarrow> 'd \<Rightarrow> 'd applied_override \<Rightarrow> bool" where
  "guarded dc computed threshold a \<longleftrightarrow>
     (let ov = ao_override a in
      parse_price dc (po_unitPrice ov) = Inr (ao_unitPrice a) \<and> \<not> js_blank (po_reason ov)
      \<and> (if requires_second_approval dc (ao_unitPrice a) computed threshold
         then \<exists>approver. po_approvedBy ov = Some approver \<and> approver \<noteq> [] \<and> approver \<noteq> po_authorId ov
         else True))"

lemma examine_kept:
  assumes "examine_override dc computed threshold ov = Inr (Inr a)"
  shows "ao_override a = ov" "guarded dc computed threshold a"
  using assms
  by (auto simp: examine_override_def ebind_Inr_iff Let_def guarded_def js_falsy_def
      requires_second_approval_def split: if_splits)

lemma examine_skipped:
  "examine_override dc computed threshold ov = Inr (Inl k) \<Longrightarrow> so_overrideId k = po_id ov"
  by (auto simp: examine_override_def ebind_Inr_iff Let_def skip_def split: if_splits)

lemma select_override_Inr:
  assumes "select_override dc overrides date computed threshold = Inr sel"
  obtains examined where
    "emap (examine_override dc computed threshold) (filter (\<lambda>ov. applicable_on ov date) overrides)
       = Inr examined"
    "os_applied sel = pick starts_later (rights examined)"
    "\<And>a. os_applied sel = Some a \<Longrightarrow> length (filter (same_start a) (rights examined)) \<le> 1"
    "set (map so_overrideId (os_skipped sel))
       = set (map so_overrideId (lefts examined))
         \<union> (case os_applied sel of None \<Rightarrow> {}
            | Some a \<Rightarrow> po_id ` ao_override ` {e \<in> set (rights examined). \<not> same_start a e})"
proof -
  obtain ex where ex: "emap (examine_override dc computed threshold)
        (filter (\<lambda>ov. applicable_on ov date) overrides) = Inr ex"
    using assms by (auto simp: select_override_def ebind_Inr_iff)
  show thesis
  proof (cases "pick starts_later (rights ex)")
    case None
    then have "sel = \<lparr>os_applied = None, os_skipped = lefts ex\<rparr>"
      using assms ex by (simp add: select_override_def Let_def)
    with None show thesis by (intro that [OF ex]) simp_all
  next
    case (Some a)
    then have "\<not> length (filter (same_start a) (rights ex)) > 1"
        "sel = \<lparr>os_applied = Some a, os_skipped = lefts ex @
                 map (\<lambda>e. skip dc (ao_override e) SUPERSEDED (ao_gapPercent e))
                   (filter (\<lambda>e. \<not> same_start a e) (rights ex))\<rparr>"
      using assms ex by (auto simp: select_override_def Let_def split: if_splits)
    with Some show thesis
      by (intro that [OF ex]) (simp_all add: image_image skip_def)
  qed
qed

lemma select_override_sound:
  assumes "select_override dc overrides date computed threshold = Inr sel" "os_applied sel = Some a"
  shows "ao_override a \<in> set overrides \<and> applicable_on (ao_override a) date
         \<and> guarded dc computed threshold a"
proof -
  obtain ex where ex: "emap (examine_override dc computed threshold)
        (filter (\<lambda>ov. applicable_on ov date) overrides) = Inr ex"
      "os_applied sel = pick starts_later (rights ex)"
    using select_override_Inr [OF assms(1)] by blast
  then have "Inr a \<in> set ex" using pick_in [of starts_later "rights ex" a] assms(2) by (simp add: rights_iff)
  then obtain ov where "ov \<in> set overrides" "applicable_on ov date"
      "examine_override dc computed threshold ov = Inr (Inr a)"
    using emap_in_set [OF ex(1)] by auto
  then show ?thesis using examine_kept by metis
qed

text \<open>C22: an override is never applied outside its period, without a reason, or, when its gap to the
  computed price exceeds the threshold, without a named approver who is not its author.\<close>

theorem applied_override_is_guarded:
  assumes "select_override dc overrides date computed threshold = Inr sel"
    and "os_applied sel = Some a"
  shows "ao_override a \<in> set overrides \<and> applicable_on (ao_override a) date
         \<and> guarded dc computed threshold a"
  using assms by (rule select_override_sound)

lemma filter_single:
  "length (filter P xs) \<le> 1 \<Longrightarrow> x \<in> set xs \<Longrightarrow> P x \<Longrightarrow> y \<in> set xs \<Longrightarrow> P y \<Longrightarrow> x = y"
  by (cases "filter P xs") (auto simp: filter_eq_Cons_iff dest!: arg_cong [of _ _ set])

text \<open>Every override of the date is accounted for: it is the one applied, which starts later than any
  other that passed the guards, or it is listed as set aside.\<close>

theorem overrides_accounted:
  assumes "select_override dc overrides date computed threshold = Inr sel"
    and "ov \<in> set overrides" "applicable_on ov date"
  shows "case os_applied sel of
           None \<Rightarrow> po_id ov \<in> set (map so_overrideId (os_skipped sel))
         | Some a \<Rightarrow> if ov = ao_override a then True
                     else po_id ov \<in> set (map so_overrideId (os_skipped sel))"
proof -
  obtain ex where ex: "emap (examine_override dc computed threshold)
        (filter (\<lambda>ov. applicable_on ov date) overrides) = Inr ex"
      "os_applied sel = pick starts_later (rights ex)"
      "\<And>a. os_applied sel = Some a \<Longrightarrow> length (filter (same_start a) (rights ex)) \<le> 1"
      "set (map so_overrideId (os_skipped sel)) = set (map so_overrideId (lefts ex))
         \<union> (case os_applied sel of None \<Rightarrow> {}
            | Some a \<Rightarrow> po_id ` ao_override ` {e \<in> set (rights ex). \<not> same_start a e})"
    using select_override_Inr [OF assms(1)] by blast
  have "ov \<in> set (filter (\<lambda>ov. applicable_on ov date) overrides)" using assms(2,3) by simp
  then obtain r where r: "r \<in> set ex" "examine_override dc computed threshold ov = Inr r"
    using emap_of_set [OF ex(1)] by blast
  show ?thesis
  proof (cases r)
    case (Inl k)
    then have "k \<in> set (lefts ex)" "so_overrideId k = po_id ov"
      using r examine_skipped by (auto simp: lefts_iff)
    then have "po_id ov \<in> set (map so_overrideId (os_skipped sel))"
      unfolding ex(4) by (auto intro: rev_image_eqI)
    then show ?thesis by (auto split: option.splits)
  next
    case (Inr e)
    then have e: "e \<in> set (rights ex)" "ao_override e = ov"
      using r examine_kept(1) by (auto simp: rights_iff)
    then have "os_applied sel \<noteq> None" unfolding ex(2) by auto
    then obtain a where a: "os_applied sel = Some a" by blast
    have "a \<in> set (rights ex)" using a ex(2) pick_in by metis
    then have "e = a" if "same_start a e"
      using filter_single [OF ex(3) [OF a] e(1) that, of a] by (simp add: same_start_def)
    then show ?thesis
      using a e unfolding ex(4) by (cases "same_start a e") (auto intro: rev_image_eqI)
  qed
qed

text \<open>The gap is what the threshold says: in exact arithmetic an override needs a second approval if
  and only if it moves a non-zero price by strictly more than the threshold, in percent, or replaces
  a price of zero by another.\<close>

theorem second_approval_beyond_threshold:
  assumes "decimal_laws dc val id" "0 \<le> val threshold"
  shows "requires_second_approval dc p c threshold
         = (if val c = 0 then val p \<noteq> 0
            else \<bar>val p - val c\<bar> * 100 > val threshold * \<bar>val c\<bar>)"
proof -
  note l = decimal_lawsD [OF assms(1)]
  have "val threshold < \<bar>val p - val c\<bar> / \<bar>val c\<bar> * 100
          \<longleftrightarrow> val threshold * \<bar>val c\<bar> < \<bar>val p - val c\<bar> * 100" if "val c \<noteq> 0"
    using that by (simp add: field_simps)
  then show ?thesis
    using assms(2)
    by (cases "val c = 0")
      (simp_all add: requires_second_approval_def gap_exceeds_def override_gap_percent_def l Let_def)
qed

subsection \<open>Examples\<close>

definition promo :: price_override where
  "promo =
     \<lparr>po_id = ''O1'', po_lineId = ''L1'', po_unitPrice = ''20'', po_validFrom = ''2025-06-01'',
      po_validTo = ''2025-06-30'', po_reason = ''geste'', po_authorId = ''u1'',
      po_approvedBy = Some ''u2''\<rparr>"

definition unapproved :: price_override where
  "unapproved = promo\<lparr>po_id := ''O2'', po_approvedBy := Some ''u1''\<rparr>"

lemma promo_price: "parse_price rat_ops ''20'' = Inr 20"
  by (simp add: parse_price_def parse_decimal_def match_decimal_def is_digit_def rat_ops_def
      rat_read_def decimal_value_def digits_val_def digit_val_def)

lemma promo_gap:
  "requires_second_approval rat_ops 20 30 10"
  "gap_exceeds rat_ops (override_gap_percent rat_ops 20 30) 10"
  by (simp_all add: requires_second_approval_def gap_exceeds_def override_gap_percent_def rat_ops_def)

lemma promo_fields [simp]:
  "po_unitPrice promo = ''20''" "js_blank (po_reason promo) = False" "po_authorId promo = ''u1''"
  "po_approvedBy promo = Some ''u2''" "applicable_on promo ''2025-06-15''"
  "po_unitPrice unapproved = ''20''" "js_blank (po_reason unapproved) = False"
  "po_authorId unapproved = ''u1''" "po_approvedBy unapproved = Some ''u1''"
  "applicable_on unapproved ''2025-06-15''"
  by code_simp+

lemma promo_examined:
  "examine_override rat_ops 30 10 promo
     = Inr (Inr \<lparr>ao_override = promo, ao_unitPrice = 20,
                ao_gapPercent = override_gap_percent rat_ops 20 30, ao_requiresSecondApproval = True\<rparr>)"
  "examine_override rat_ops 30 10 unapproved
     = Inr (Inl (skip rat_ops unapproved SELF_APPROVAL (override_gap_percent rat_ops 20 30)))"
  by (simp_all add: examine_override_def promo_price promo_gap js_falsy_def)

lemma promo_selected:
  "\<exists>sel a. select_override rat_ops [unapproved, promo] ''2025-06-15'' 30 10 = Inr sel
     \<and> os_applied sel = Some a \<and> ao_override a = promo"
proof -
  have "filter (\<lambda>ov. applicable_on ov ''2025-06-15'') [unapproved, promo] = [unapproved, promo]"
    by simp
  then show ?thesis
    unfolding select_override_def
    by (simp add: promo_examined same_start_def del: filter.simps)
qed

theorem applied_override_is_guarded_witness:
  "\<exists>sel a. select_override rat_ops [unapproved, promo] ''2025-06-15'' 30 10 = Inr sel
     \<and> os_applied sel = Some a
     \<and> ao_override a \<in> set [unapproved, promo] \<and> applicable_on (ao_override a) ''2025-06-15''
     \<and> guarded rat_ops 30 10 a"
proof -
  obtain sel a where s: "select_override rat_ops [unapproved, promo] ''2025-06-15'' 30 10 = Inr sel"
      "os_applied sel = Some a"
    using promo_selected by (elim exE conjE)
  show ?thesis
    by (rule exI [of _ sel], rule exI [of _ a])
      (rule conjI [OF s(1) conjI [OF s(2) applied_override_is_guarded [OF s]]])
qed

theorem overrides_accounted_witness:
  "\<exists>sel. select_override rat_ops [unapproved, promo] ''2025-06-15'' 30 10 = Inr sel
     \<and> (case os_applied sel of
           None \<Rightarrow> po_id unapproved \<in> set (map so_overrideId (os_skipped sel))
         | Some a \<Rightarrow> if unapproved = ao_override a then True
                     else po_id unapproved \<in> set (map so_overrideId (os_skipped sel)))"
proof -
  obtain sel where s: "select_override rat_ops [unapproved, promo] ''2025-06-15'' 30 10 = Inr sel"
    using promo_selected by (elim exE conjE)
  have "unapproved \<in> set [unapproved, promo]" by simp
  from overrides_accounted [OF s this promo_fields(10)] show ?thesis
    by (intro exI [of _ sel] conjI s)
qed

theorem second_approval_beyond_threshold_witness:
  "requires_second_approval rat_ops 20 30 10
     = (if id 30 = (0::rat) then id 20 \<noteq> (0::rat) else \<bar>id 20 - id 30\<bar> * 100 > id 10 * \<bar>id (30::rat)\<bar>)"
  by (rule second_approval_beyond_threshold [OF rat_laws]) simp

end
