(* ===== verification/Rules.thy ===== *)
theory Rules
  imports Indexes
begin

text \<open>
  The rule catalogue and the index revision: \<open>packages/pricing/src/rules.ts\<close> and \<open>revision.ts\<close>. A
  volume or commitment discount takes the highest threshold reached; the revision is
  \<open>P1 = P0 * (a + b * S1 / S0)\<close> with \<open>a + b = 1\<close>.
\<close>

subsection \<open>Rules\<close>

definition find_rule :: "pricing_rule list option \<Rightarrow> string \<Rightarrow> string \<Rightarrow> pricing_rule priced" where
  "find_rule catalog ruleId lineId =
     (case (case catalog of None \<Rightarrow> None | Some rules \<Rightarrow> List.find (\<lambda>r. pr_id r = ruleId) rules) of
        None \<Rightarrow> Inl (line_error RULE_NOT_FOUND lineId)
      | Some rule \<Rightarrow> Inr rule)"

definition grid_unit_price ::
    "'d decimal_ops \<Rightarrow> (string \<times> string) list \<Rightarrow> string \<Rightarrow> string \<Rightarrow> 'd priced" where
  "grid_unit_price dc entries articleCode lineId =
     (case List.find (\<lambda>(code, price). code = articleCode) entries of
        None \<Rightarrow> Inl (line_error RULE_NOT_FOUND lineId)
      | Some (code, price) \<Rightarrow> parse_price dc price)"

datatype adjustment_type = ADJ_VOLUME | ADJ_COMMITMENT

record 'd adjustment_result =
  ad_ruleId :: string
  ad_ruleType :: adjustment_type
  ad_threshold :: "string option"
  ad_percent :: 'd
  ad_basis :: string

definition assert_percent :: "'d decimal_ops \<Rightarrow> 'd \<Rightarrow> 'd priced" where
  "assert_percent dc p =
     (if dec_gt dc p (dec_of_int dc 100) then Inl (pricing_error INVALID_LINE) else Inr p)"

text \<open>The loop over the thresholds: each is parsed, the best one reached so far is kept.\<close>

definition volume_step ::
    "'d decimal_ops \<Rightarrow> 'd \<Rightarrow> ('d \<times> 'd) option \<Rightarrow> string \<times> string \<Rightarrow> ('d \<times> 'd) option priced" where
  "volume_step dc quantity best t =
     ebind (parse_price dc (fst t)) (\<lambda>minq.
     ebind (parse_price dc (snd t)) (\<lambda>p.
     ebind (assert_percent dc p) (\<lambda>percent.
       if dec_lte dc minq quantity
          \<and> (case best of None \<Rightarrow> True | Some (bmin, bpercent) \<Rightarrow> dec_gt dc minq bmin)
       then Inr (Some (minq, percent)) else Inr best)))"

definition commitment_step ::
    "'d decimal_ops \<Rightarrow> int \<Rightarrow> (int \<times> 'd) option \<Rightarrow> int \<times> string \<Rightarrow> (int \<times> 'd) option priced" where
  "commitment_step dc months best t =
     ebind (parse_price dc (snd t)) (\<lambda>p.
     ebind (assert_percent dc p) (\<lambda>percent.
       if fst t \<le> months
          \<and> (case best of None \<Rightarrow> True | Some (bmin, bpercent) \<Rightarrow> fst t > bmin)
       then Inr (Some (fst t, percent)) else Inr best))"

text \<open>\<open>String(n)\<close> of an integer.\<close>

definition int_string :: "int \<Rightarrow> string" where
  "int_string n = (if n < 0 then CHR ''-'' # nat_string (nat (- n)) else nat_string (nat n))"

definition adjustment_for ::
    "'d decimal_ops \<Rightarrow> pricing_rule \<Rightarrow> 'd \<Rightarrow> int option \<Rightarrow> string \<Rightarrow> 'd adjustment_result priced" where
  "adjustment_for dc rule quantity commitmentMonths lineId =
     (case rule of
        VOLUME_DISCOUNT ruleId thresholds \<Rightarrow>
          ebind (efold (volume_step dc quantity) None thresholds) (\<lambda>chosen.
            Inr \<lparr>ad_ruleId = ruleId, ad_ruleType = ADJ_VOLUME,
                 ad_threshold = map_option (\<lambda>c. dec_to_string dc (fst c)) chosen,
                 ad_percent = (case chosen of None \<Rightarrow> dec_of_int dc 0 | Some c \<Rightarrow> snd c),
                 ad_basis = dec_to_string dc quantity\<rparr>)
      | COMMITMENT_DISCOUNT ruleId thresholds \<Rightarrow>
          (case commitmentMonths of
             None \<Rightarrow> Inl (line_error MISSING_CONTEXT lineId)
           | Some months \<Rightarrow>
               if months < 0 then Inl (line_error MISSING_CONTEXT lineId)
               else ebind (efold (commitment_step dc months) None thresholds) (\<lambda>chosen.
                 Inr \<lparr>ad_ruleId = ruleId, ad_ruleType = ADJ_COMMITMENT,
                      ad_threshold = map_option (\<lambda>c. int_string (fst c)) chosen,
                      ad_percent = (case chosen of None \<Rightarrow> dec_of_int dc 0 | Some c \<Rightarrow> snd c),
                      ad_basis = int_string months\<rparr>))
      | _ \<Rightarrow> Inl (line_error INVALID_LINE lineId))"

subsection \<open>Revision\<close>

definition assert_revision_coefficients :: "'d decimal_ops \<Rightarrow> 'd \<Rightarrow> 'd \<Rightarrow> unit priced" where
  "assert_revision_coefficients dc a b =
     (if dec_is_negative dc a \<or> dec_is_negative dc b
      then Inl (pricing_error INVALID_REVISION_COEFFICIENTS)
      else if \<not> dec_eq dc (dec_plus dc a b) (dec_of_int dc 1)
      then Inl (pricing_error INVALID_REVISION_COEFFICIENTS)
      else Inr ())"

text \<open>A division by zero of the revision is a \<open>PricingError\<close>, not a formula error.\<close>

definition revision_coefficient :: "'d decimal_ops \<Rightarrow> 'd \<Rightarrow> 'd \<Rightarrow> 'd \<Rightarrow> 'd \<Rightarrow> 'd priced" where
  "revision_coefficient dc a b S0 S1 =
     ebind (assert_revision_coefficients dc a b) (\<lambda>_.
       if dec_is_zero dc S0 then Inl (pricing_error DIVISION_BY_ZERO)
       else Inr (dec_plus dc a (dec_times dc b (dec_div dc S1 S0))))"

record 'd revision_computation =
  rc_P0 :: 'd
  rc_a :: 'd
  rc_b :: 'd
  rc_S0 :: index_observation
  rc_S1 :: index_observation
  rc_ratio :: 'd
  rc_coefficient :: 'd
  rc_exact :: 'd

definition compute_revision ::
    "'d decimal_ops \<Rightarrow> 'd \<Rightarrow> revision_spec \<Rightarrow> price_index list \<Rightarrow> index_lookup
     \<Rightarrow> 'd revision_computation priced" where
  "compute_revision dc P0 spec indexes defaultLookup =
     ebind (parse_price dc (rv_a spec)) (\<lambda>a.
     ebind (parse_price dc (rv_b spec)) (\<lambda>b.
     ebind (assert_revision_coefficients dc a b) (\<lambda>_.
     let rule = (case rv_lookup spec of None \<Rightarrow> defaultLookup | Some r \<Rightarrow> r) in
     ebind (parse_iso_date (rv_referenceDate spec)) (\<lambda>d0.
     ebind (lookup_index_value dc indexes (rv_indexCode spec) d0 rule) (\<lambda>S0.
     ebind (parse_iso_date (rv_revisionDate spec)) (\<lambda>d1.
     ebind (lookup_index_value dc indexes (rv_indexCode spec) d1 rule) (\<lambda>S1.
     let s0 = dec_of_string dc (io_value S0); s1 = dec_of_string dc (io_value S1) in
     if dec_is_zero dc s0 then Inl (pricing_error DIVISION_BY_ZERO)
     else
       let ratio = dec_div dc s1 s0;
           coefficient = dec_plus dc a (dec_times dc b ratio)
       in Inr \<lparr>rc_P0 = P0, rc_a = a, rc_b = b, rc_S0 = S0, rc_S1 = S1, rc_ratio = ratio,
               rc_coefficient = coefficient, rc_exact = dec_times dc P0 coefficient\<rparr>)))))))"

subsection \<open>The threshold reached\<close>

text \<open>A parsed threshold: its bound and its percentage.\<close>

definition read_threshold :: "'d decimal_ops \<Rightarrow> string \<times> string \<Rightarrow> 'd \<Rightarrow> 'd \<Rightarrow> bool" where
  "read_threshold dc t m p \<longleftrightarrow>
     parse_price dc (fst t) = Inr m \<and> parse_price dc (snd t) = Inr p
     \<and> \<not> dec_gt dc p (dec_of_int dc 100)"

definition best_so_far ::
    "'d decimal_ops \<Rightarrow> ('d \<Rightarrow> rat) \<Rightarrow> 'd \<Rightarrow> (string \<times> string) list \<Rightarrow> ('d \<times> 'd) option \<Rightarrow> bool" where
  "best_so_far dc val quantity ts best \<longleftrightarrow>
     (\<forall>t \<in> set ts. \<exists>m p. read_threshold dc t m p
        \<and> (val m \<le> val quantity \<longrightarrow> (\<exists>bm bp. best = Some (bm, bp) \<and> val m \<le> val bm)))
     \<and> (case best of None \<Rightarrow> True
        | Some (bm, bp) \<Rightarrow> val bm \<le> val quantity \<and> (\<exists>t \<in> set ts. read_threshold dc t bm bp))"

lemma volume_step_best:
  assumes "decimal_laws dc val rnd" "best_so_far dc val quantity ts best"
    and "volume_step dc quantity best t = Inr best'"
  shows "best_so_far dc val quantity (ts @ [t]) best'"
proof -
  obtain m p where r: "read_threshold dc t m p"
    and b: "best' = (if dec_lte dc m quantity
              \<and> (case best of None \<Rightarrow> True | Some (bm, bp) \<Rightarrow> dec_gt dc m bm)
            then Some (m, p) else best)"
    using assms(3)
    by (auto simp: volume_step_def ebind_Inr_iff read_threshold_def assert_percent_def
        split: if_splits)
  note v = dec_lte_val [OF assms(1)] decimal_lawsD(4) [OF assms(1)]
  show ?thesis
  proof (cases best)
    case None
    then show ?thesis
      using assms(2) r unfolding b best_so_far_def by (fastforce simp: v)
  next
    case (Some c)
    obtain bm bp where c: "c = (bm, bp)" by (cases c)
    have old: "\<exists>m' p'. read_threshold dc u m' p' \<and> (val m' \<le> val quantity \<longrightarrow> val m' \<le> val bm)"
      if "u \<in> set ts" for u
      using assms(2) that Some c unfolding best_so_far_def by fastforce
    have best: "val bm \<le> val quantity" "\<exists>u \<in> set ts. read_threshold dc u bm bp"
      using assms(2) Some c unfolding best_so_far_def by auto
    show ?thesis
    proof (cases "val m \<le> val quantity \<and> val bm < val m")
      case True
      then have "best' = Some (m, p)" using b Some c by (simp add: v)
      then show ?thesis
        using True old r unfolding best_so_far_def
        by (fastforce intro: order_trans [OF _ less_imp_le])
    next
      case False
      then have "best' = Some (bm, bp)" using b Some c by (auto simp: v)
      then show ?thesis
        using False old best r unfolding best_so_far_def by fastforce
    qed
  qed
qed

lemma volume_loop_best:
  assumes "decimal_laws dc val rnd"
  shows "best_so_far dc val quantity us best \<Longrightarrow> efold (volume_step dc quantity) best ts = Inr best' \<Longrightarrow>
    best_so_far dc val quantity (us @ ts) best'"
proof (induction ts arbitrary: us best)
  case (Cons t ts)
  then obtain b where b: "volume_step dc quantity best t = Inr b"
      "efold (volume_step dc quantity) b ts = Inr best'"
    by (auto simp: ebind_Inr_iff)
  show ?case
    using Cons.IH [OF volume_step_best [OF assms Cons.prems(1) b(1)] b(2)] by simp
qed simp

text \<open>A volume discount takes the highest threshold the quantity reaches: with none reached the
  percentage is 0; otherwise it is that of a threshold of the rule not above the quantity, and no
  threshold reached is higher. The percentage is always between 0 and 100.\<close>

theorem volume_discount_highest_threshold:
  assumes "decimal_laws dc val rnd"
    and "adjustment_for dc (VOLUME_DISCOUNT ruleId thresholds) quantity months lineId = Inr r"
  shows "0 \<le> val (ad_percent r) \<and> val (ad_percent r) \<le> 100
    \<and> (if ad_threshold r = None
       then val (ad_percent r) = 0
            \<and> (\<forall>t \<in> set thresholds. \<exists>m p. read_threshold dc t m p \<and> val quantity < val m)
       else \<exists>bm. (\<exists>t \<in> set thresholds. read_threshold dc t bm (ad_percent r))
              \<and> val bm \<le> val quantity
              \<and> (\<forall>t \<in> set thresholds. \<exists>m p. read_threshold dc t m p
                   \<and> (val m \<le> val quantity \<longrightarrow> val m \<le> val bm)))"
proof -
  obtain chosen where c: "efold (volume_step dc quantity) None thresholds = Inr chosen"
    and r: "ad_threshold r = map_option (\<lambda>c. dec_to_string dc (fst c)) chosen"
      "ad_percent r = (case chosen of None \<Rightarrow> dec_of_int dc 0 | Some c \<Rightarrow> snd c)"
    using assms(2) by (auto simp: adjustment_for_def ebind_Inr_iff)
  have best: "best_so_far dc val quantity thresholds chosen"
    using volume_loop_best [OF assms(1) _ c, of "[]"] by (simp add: best_so_far_def)
  note l = decimal_lawsD [OF assms(1)]
  show ?thesis
  proof (cases chosen)
    case None
    then show ?thesis using best r by (fastforce simp: best_so_far_def l not_le)
  next
    case (Some c)
    obtain bm bp where p: "c = (bm, bp)" by (cases c)
    with Some best obtain t where t: "t \<in> set thresholds" "read_threshold dc t bm bp"
        "val bm \<le> val quantity"
      by (auto simp: best_so_far_def)
    have "0 \<le> val bp" "val bp \<le> 100"
      using t(2) parse_price_nonneg [OF assms(1)] by (auto simp: read_threshold_def l not_less)
    then show ?thesis using t Some p best r by (fastforce simp: best_so_far_def)
  qed
qed

subsection \<open>The revised price\<close>

lemma parse_decimal_nonneg:
  assumes "decimal_laws dc val rnd" "is_ok (parse_decimal dc s k False)"
  shows "0 \<le> val (dec_of_string dc s)"
  using assms(2) val_dec_of_string [OF assms(1), of s]
  by (auto simp: parse_decimal_def decimal_value_def split: option.splits if_splits prod.splits)

lemma lookup_value_nonneg:
  assumes "decimal_laws dc val rnd" "lookup_index_value dc indexes code date rule = Inr obs"
  shows "0 \<le> val (dec_of_string dc (io_value obs))"
proof -
  obtain v and index :: price_index where v: "values_ok dc [] (pi_values index)"
      "find_index_value (pi_values index) date rule = Some v"
      and obs: "obs = \<lparr>io_indexCode = code, io_indexName = pi_name index, io_requestedDate = date,
                  io_rule = rule, io_period = iv_period v, io_value = iv_value v,
                  io_publishedAt = iv_publishedAt v\<rparr>"
    using assms(2) unfolding lookup_Inr by blast
  have "v \<in> set (pi_values index)"
    using v(2) pick_in by (cases rule) (fastforce simp: find_index_value_def Let_def dest: find_set)+
  then show ?thesis
    using v parse_decimal_nonneg [OF assms(1)] by (auto simp: values_ok_def obs)
qed

text \<open>The index revision is the clause of the contract: in exact arithmetic the revised price is
  \<open>P0 (a + b S1 / S0)\<close> with \<open>a + b = 1\<close>, both parts non-negative and \<open>S0\<close> positive, so that for
  a non-negative price it rises when the index rose, falls when it fell, and never changes sign.\<close>

theorem revision_formula:
  assumes "decimal_laws dc val id" "0 \<le> val P0"
    and "compute_revision dc P0 spec indexes lookup = Inr r"
  shows "let s0 = val (dec_of_string dc (io_value (rc_S0 r)));
             s1 = val (dec_of_string dc (io_value (rc_S1 r)))
         in val (rc_exact r) = val P0 * (val (rc_a r) + val (rc_b r) * (s1 / s0))
            \<and> val (rc_a r) + val (rc_b r) = 1 \<and> 0 \<le> val (rc_a r) \<and> 0 \<le> val (rc_b r) \<and> 0 < s0
            \<and> 0 \<le> val (rc_exact r)
            \<and> (if s0 \<le> s1 then val P0 \<le> val (rc_exact r) else val (rc_exact r) \<le> val P0)"
proof -
  note l = decimal_lawsD [OF assms(1)]
  define s0 where "s0 = val (dec_of_string dc (io_value (rc_S0 r)))"
  define s1 where "s1 = val (dec_of_string dc (io_value (rc_S1 r)))"
  obtain d0 d1 rule where k: "lookup_index_value dc indexes (rv_indexCode spec) d0 rule = Inr (rc_S0 r)"
      "lookup_index_value dc indexes (rv_indexCode spec) d1 rule = Inr (rc_S1 r)"
      "assert_revision_coefficients dc (rc_a r) (rc_b r) = Inr ()"
      "s0 \<noteq> 0" "val (rc_exact r) = val P0 * (val (rc_a r) + val (rc_b r) * (s1 / s0))"
      and p: "parse_price dc (rv_a spec) = Inr (rc_a r)" "parse_price dc (rv_b spec) = Inr (rc_b r)"
    using assms(3)
    by (auto simp: compute_revision_def ebind_Inr_iff Let_def l s0_def s1_def split: if_splits)
  have ab: "val (rc_a r) + val (rc_b r) = 1" "0 \<le> val (rc_a r)" "0 \<le> val (rc_b r)"
    using k(3) parse_price_nonneg [OF assms(1) p(1)] parse_price_nonneg [OF assms(1) p(2)]
    by (simp_all add: assert_revision_coefficients_def l split: if_splits)
  have s: "0 < s0" "0 \<le> s1"
    using lookup_value_nonneg [OF assms(1) k(1)] lookup_value_nonneg [OF assms(1) k(2)] k(4)
    by (simp_all add: s0_def s1_def)
  define c where "c = val (rc_a r) + val (rc_b r) * (s1 / s0)"
  have c0: "0 \<le> c" using ab s by (simp add: c_def)
  have "c - 1 = val (rc_b r) * (s1 / s0 - 1)" using ab(1) by (simp add: c_def algebra_simps)
  moreover have "0 \<le> s1 / s0 - 1 \<longleftrightarrow> s0 \<le> s1" using s by (simp add: field_simps)
  ultimately have "0 \<le> c - 1" if "s0 \<le> s1"
    using ab(3) that mult_nonneg_nonneg [of "val (rc_b r)" "s1 / s0 - 1"] by (simp only:)
  moreover have "c - 1 \<le> 0" if "\<not> s0 \<le> s1"
    using ab(3) that mult_nonneg_nonpos [of "val (rc_b r)" "s1 / s0 - 1"]
      \<open>c - 1 = val (rc_b r) * (s1 / s0 - 1)\<close> s by simp
  ultimately have "if s0 \<le> s1 then 1 \<le> c else c \<le> 1" by (simp split: if_splits)
  then have "if s0 \<le> s1 then val P0 \<le> val P0 * c else val P0 * c \<le> val P0"
    using assms(2) mult_left_mono [of 1 c "val P0"] mult_left_mono [of c 1 "val P0"] by auto
  moreover have e: "val (rc_exact r) = val P0 * c" using k(5) by (simp add: c_def)
  ultimately show ?thesis
    unfolding Let_def s0_def [symmetric] s1_def [symmetric]
    by (intro conjI k(5) ab s(1)) (simp_all add: c0 assms(2))
qed

subsection \<open>Examples\<close>

lemmas read_number_defs = parse_price_def parse_decimal_def match_decimal_def is_digit_def
  rat_ops_def rat_read_def decimal_value_def digits_val_def digit_val_def

lemma volume_rule_numbers:
  "parse_price rat_ops ''10'' = Inr 10" "parse_price rat_ops ''5'' = Inr 5"
  "parse_price rat_ops ''50'' = Inr 50" "parse_price rat_ops ''12'' = Inr 12"
  by (simp_all add: read_number_defs)

lemma volume_rule_applied:
  "\<exists>r. adjustment_for rat_ops (VOLUME_DISCOUNT ''V'' [(''10'', ''5''), (''50'', ''12'')]) 20 None ''L1'' = Inr r
     \<and> ad_percent r = 5 \<and> ad_threshold r \<noteq> None"
  by (simp add: adjustment_for_def volume_step_def volume_rule_numbers assert_percent_def)
    (simp add: rat_ops_def dec_lte_def)

theorem volume_discount_highest_threshold_witness:
  "\<exists>r. adjustment_for rat_ops (VOLUME_DISCOUNT ''V'' [(''10'', ''5''), (''50'', ''12'')]) 20 None ''L1'' = Inr r
     \<and> 0 \<le> id (ad_percent r) \<and> id (ad_percent r) \<le> 100"
proof -
  obtain r where r: "adjustment_for rat_ops (VOLUME_DISCOUNT ''V'' [(''10'', ''5''), (''50'', ''12'')])
      20 None ''L1'' = Inr r"
    using volume_rule_applied by (elim exE conjE)
  from volume_discount_highest_threshold [OF rat_laws this] show ?thesis
    by (intro exI [of _ r]) (simp only: r simp_thms)
qed

definition syntec_clause :: revision_spec where
  "syntec_clause =
     \<lparr>rv_indexCode = ''SYNTEC'', rv_a = ''0.15'', rv_b = ''0.85'', rv_referenceDate = ''2025-09-15'',
      rv_revisionDate = ''2025-10-02'', rv_lookup = None\<rparr>"

lemma syntec_revised: "is_ok (compute_revision rat_ops 100 syntec_clause [syntec] LATEST_PUBLISHED)"
  by code_simp

theorem revision_formula_witness:
  "\<exists>r. compute_revision rat_ops 100 syntec_clause [syntec] LATEST_PUBLISHED = Inr r
     \<and> id (rc_a r) + id (rc_b r) = (1::rat)"
proof -
  obtain r where r: "compute_revision rat_ops 100 syntec_clause [syntec] LATEST_PUBLISHED = Inr r"
    using syntec_revised by (auto simp: is_ok_iff)
  have "0 \<le> id (100::rat)" by simp
  from revision_formula [OF rat_laws this r] r show ?thesis
    by (intro exI [of _ r]) (simp only: Let_def simp_thms)
qed

end
