(* ===== verification/PriceLines.thy ===== *)
theory PriceLines
  imports Schedules Tiers Overrides Rules FormulaEval
begin

text \<open>
  Pricing of one line: the trace of \<open>packages/pricing/src/trace.ts\<close> and the line functions of
  \<open>packages/pricing/src/price-at.ts\<close> (\<open>priceRegularLine\<close> and what it calls). The trace is passed
  from step to step and grows at its end; an error forgets it, as the exception does. A regular
  line has either a unit price or, for a tier table, an amount: \<open>base_price\<close>.
\<close>

subsection \<open>Trace and priced lines\<close>

datatype rounding_target = RT_UNIT_PRICE | RT_LINE_TOTAL | RT_AVERAGE_UNIT_PRICE

datatype revision_target = RV_UNIT_PRICE | RV_AMOUNT

record revision_trace =
  rt_appliesTo :: revision_target
  rt_P0 :: string
  rt_a :: string
  rt_b :: string
  rt_S0 :: index_observation
  rt_S1 :: index_observation
  rt_ratio :: string
  rt_coefficient :: string
  rt_result :: string

record adjustment_trace =
  at_ruleId :: string
  at_ruleType :: adjustment_type
  at_basis :: string
  at_threshold :: "string option"
  at_percent :: string
  at_before :: string
  at_after :: string

record override_trace =
  ot_overrideId :: string
  ot_computedUnitPrice :: string
  ot_unitPrice :: string
  ot_validFrom :: string
  ot_validTo :: string
  ot_reason :: string
  ot_authorId :: string
  ot_approvedBy :: "string option"
  ot_gapPercent :: "string option"
  ot_requiresSecondApproval :: bool

datatype trace_step =
    TS_QUANTITY string string "string option"
  | TS_BASE_PRICE pricing_mode string
  | TS_RULE_PRICE string string string
  | TS_TIERS "string option" tier_mode "tier_band list" string
  | TS_INDEX string index_observation
  | TS_FORMULA string "(string \<times> string) list" string
  | TS_REVISION revision_trace
  | TS_REVISION_NOT_EFFECTIVE string string
  | TS_ADJUSTMENT adjustment_trace
  | TS_ROUNDING rounding_target string string nat rounding_mode
  | TS_OVERRIDE_APPLIED override_trace
  | TS_OVERRIDE_SKIPPED string skip_reason "string option"
  | TS_HOUR_PACK string string
  | TS_DISCOUNT discount_type string "string list" string string
  | TS_LINE_TOTAL string string string

record priced_line =
  pl_lineId :: string
  pl_code :: string
  pl_label :: string
  pl_unit :: string
  pl_kind :: line_kind
  pl_mode :: pricing_mode
  pl_recurrence :: recurrence
  pl_quantity :: string
  pl_unitPrice :: string
  pl_vatRatePercent :: string
  pl_totalHtCents :: int
  pl_trace :: "trace_step list"

record 'd pricing_ctx =
  cx_date :: string
  cx_settings :: pricing_settings
  cx_threshold :: 'd
  cx_indexes :: "price_index list"
  cx_catalog :: "pricing_rule list option"
  cx_commitmentMonths :: "int option"
  cx_overrides :: "price_override list"
  cx_quantities :: "resolved_quantity list"

text \<open>\<open>overridesByLine.get(id) ?? []\<close> and \<open>quantities.get(id)\<close>, where a later entry replaces an earlier
  one.\<close>

definition overrides_of :: "'d pricing_ctx \<Rightarrow> string \<Rightarrow> price_override list" where
  "overrides_of ctx lineId = filter (\<lambda>ov. po_lineId ov = lineId) (cx_overrides ctx)"

definition quantity_of :: "'d pricing_ctx \<Rightarrow> string \<Rightarrow> resolved_quantity option" where
  "quantity_of ctx lineId = List.find (\<lambda>q. rq_lineId q = lineId) (rev (cx_quantities ctx))"

fun FORCED_RECURRENCE :: "line_kind \<Rightarrow> recurrence option" where
  "FORCED_RECURRENCE FLAT_MONTHLY = Some MONTHLY"
| "FORCED_RECURRENCE FLAT_YEARLY = Some YEARLY"
| "FORCED_RECURRENCE SETUP_FEE = Some ONE_OFF"
| "FORCED_RECURRENCE _ = None"

text \<open>No entry for \<open>DISCOUNT\<close>, which inherits its recurrence.\<close>

fun DEFAULT_RECURRENCE :: "line_kind \<Rightarrow> recurrence" where
  "DEFAULT_RECURRENCE FLAT_MONTHLY = MONTHLY"
| "DEFAULT_RECURRENCE FLAT_YEARLY = YEARLY"
| "DEFAULT_RECURRENCE SETUP_FEE = ONE_OFF"
| "DEFAULT_RECURRENCE UNIT = MONTHLY"
| "DEFAULT_RECURRENCE TIERED = MONTHLY"
| "DEFAULT_RECURRENCE HOURLY = ONE_OFF"
| "DEFAULT_RECURRENCE HOUR_PACK = ONE_OFF"

definition invalid_line :: "pricing_line \<Rightarrow> pricing_error" where
  "invalid_line line = line_error INVALID_LINE (ln_id line)"

definition fmt :: "'d decimal_ops \<Rightarrow> 'd \<Rightarrow> nat \<Rightarrow> string" where
  "fmt dc x scale = dec_to_fixed dc x (max scale (dec_places dc x))"

definition with_line :: "pricing_error \<Rightarrow> string \<Rightarrow> pricing_error" where
  "with_line e lineId = (if er_lineId e \<noteq> None then e else e\<lparr>er_lineId := Some lineId\<rparr>)"

subsection \<open>VAT, recurrence, quantity\<close>

definition parse_vat :: "'d decimal_ops \<Rightarrow> pricing_line \<Rightarrow> 'd priced" where
  "parse_vat dc line =
     ebind (parse_decimal dc (ln_vatRatePercent line) 4 False) (\<lambda>v.
       if dec_gt dc v (dec_of_int dc 100) then Inl (invalid_line line) else Inr v)"

definition resolve_recurrence :: "pricing_line \<Rightarrow> recurrence priced" where
  "resolve_recurrence line =
     (case (FORCED_RECURRENCE (ln_kind line), ln_recurrence line) of
        (Some forced, Some r) \<Rightarrow> if r \<noteq> forced then Inl (invalid_line line) else Inr r
      | (_, Some r) \<Rightarrow> Inr r
      | (_, None) \<Rightarrow> Inr (DEFAULT_RECURRENCE (ln_kind line)))"

definition resolve_quantity ::
    "'d decimal_ops \<Rightarrow> pricing_line \<Rightarrow> 'd pricing_ctx \<Rightarrow> ('d \<times> trace_step list) priced" where
  "resolve_quantity dc line ctx =
     (case (case ln_quantity line of None \<Rightarrow> FIXED ''1'' | Some spec \<Rightarrow> spec) of
        FIXED v \<Rightarrow>
          ebind (parse_price dc v) (\<lambda>q.
            Inr (q, [TS_QUANTITY ''FIXED'' (dec_to_string dc q) None]))
      | PROVIDER article \<Rightarrow>
          (case quantity_of ctx (ln_id line) of
             None \<Rightarrow> Inl (line_error MISSING_QUANTITY (ln_id line))
           | Some r \<Rightarrow>
               ebind (parse_price dc (rq_quantity r)) (\<lambda>q.
                 Inr (q, [TS_QUANTITY (rq_source r) (dec_to_string dc q) (rq_observedAt r)]))))"

subsection \<open>Formula lines\<close>

definition is_ident :: "string \<Rightarrow> bool" where
  "is_ident name = (case name of [] \<Rightarrow> False | c # cs \<Rightarrow> is_ident_start c \<and> list_all is_ident_part cs)"

definition define_name ::
    "pricing_line \<Rightarrow> string \<Rightarrow> 'd \<Rightarrow> (string \<times> 'd) list \<Rightarrow> (string \<times> 'd) list priced" where
  "define_name line name v names =
     (if \<not> is_ident name then Inl (invalid_line line)
      else if name \<in> fst ` set names then Inl (invalid_line line)
      else Inr (names @ [(name, v)]))"

definition define_constant ::
    "'d decimal_ops \<Rightarrow> pricing_line \<Rightarrow> (string \<times> 'd) list \<Rightarrow> string \<times> string
     \<Rightarrow> (string \<times> 'd) list priced" where
  "define_constant dc line names kv =
     ebind (parse_decimal dc (snd kv) 10 True) (\<lambda>v. define_name line (fst kv) v names)"

definition define_index ::
    "'d decimal_ops \<Rightarrow> pricing_line \<Rightarrow> 'd pricing_ctx
     \<Rightarrow> (string \<times> 'd) list \<times> trace_step list \<Rightarrow> string \<times> index_binding
     \<Rightarrow> ((string \<times> 'd) list \<times> trace_step list) priced" where
  "define_index dc line ctx acc kb =
     (let (names, tr) = acc; (k, b) = kb in
      ebind (if ib_date b = ''PRICING_DATE'' then Inr (cx_date ctx)
             else parse_iso_date (ib_date b)) (\<lambda>onDay.
      ebind (lookup_index_value dc (cx_indexes ctx) (ib_indexCode b) onDay
               (or_default (ib_lookup b) (st_indexLookup (cx_settings ctx)))) (\<lambda>observation.
      ebind (define_name line k (dec_of_string dc (io_value observation)) names) (\<lambda>names'.
        Inr (names', tr @ [TS_INDEX k observation])))))"

definition evaluate_line_formula ::
    "'d decimal_ops \<Rightarrow> pricing_line \<Rightarrow> 'd \<Rightarrow> 'd pricing_ctx \<Rightarrow> trace_step list
     \<Rightarrow> ('d \<times> trace_step list) priced" where
  "evaluate_line_formula dc line qty ctx tr =
     (case ln_formula line of
        None \<Rightarrow> Inl (invalid_line line)
      | Some f \<Rightarrow>
          ebind (define_name line ''qty'' qty []) (\<lambda>n1.
          ebind (case fo_basePrice f of
                   None \<Rightarrow> Inr n1
                 | Some p \<Rightarrow> ebind (parse_price dc p) (\<lambda>P0. define_name line ''P0'' P0 n1)) (\<lambda>n2.
          ebind (efold (define_constant dc line) n2 (fo_variables f)) (\<lambda>n3.
          ebind (efold (define_index dc line ctx) (n3, tr) (fo_indexVariables f)) (\<lambda>(names, tr').
          ebind (parsed (fo_expression f)) (\<lambda>formula.
          ebind (evaluate_formula dc (Some (st_rounding (cx_settings ctx))) (map_of names) formula)
            (\<lambda>result.
              Inr (result, tr' @ [TS_FORMULA (fo_expression f)
                 (map (\<lambda>(k, v). (k, dec_to_string dc v)) (sort_key fst names))
                 (dec_to_string dc result)]))))))))"

subsection \<open>The price of a line, step by step\<close>

text \<open>\<open>unit\<close> or \<open>amount\<close>: exactly one of the two is set at any point.\<close>

datatype 'd base_price = UnitPrice 'd | Amount 'd

definition base_value :: "'d base_price \<Rightarrow> 'd" where
  "base_value b = (case b of UnitPrice u \<Rightarrow> u | Amount a \<Rightarrow> a)"

definition set_base :: "'d base_price \<Rightarrow> 'd \<Rightarrow> 'd base_price" where
  "set_base b x = (case b of UnitPrice u \<Rightarrow> UnitPrice x | Amount a \<Rightarrow> Amount x)"

definition check_line :: "'d decimal_ops \<Rightarrow> pricing_line \<Rightarrow> unit priced" where
  "check_line dc line =
     ebind (if ln_kind line \<noteq> HOUR_PACK then Inr ()
            else case ln_hoursPerPack line of
              None \<Rightarrow> Inl (invalid_line line)
            | Some h \<Rightarrow> ebind (parse_price dc h) (\<lambda>hours.
                if \<not> dec_gt dc hours (dec_of_int dc 0) then Inl (invalid_line line) else Inr ())) (\<lambda>_.
     if ln_revision line \<noteq> None \<and> ln_mode line = FORMULA then Inl (invalid_line line) else Inr ())"

definition tiers_price ::
    "'d decimal_ops \<Rightarrow> string option \<Rightarrow> tier_table \<Rightarrow> 'd \<Rightarrow> trace_step list
     \<Rightarrow> ('d base_price \<times> trace_step list) priced" where
  "tiers_price dc ruleId table qty tr =
     ebind (compute_tiered dc table qty) (\<lambda>t.
       Inr (Amount (tc_exact t),
            tr @ [TS_TIERS ruleId (tc_mode t) (tc_bands t) (dec_to_string dc (tc_exact t))]))"

definition manual_price ::
    "'d decimal_ops \<Rightarrow> pricing_line \<Rightarrow> 'd \<Rightarrow> trace_step list
     \<Rightarrow> ('d base_price \<times> trace_step list) priced" where
  "manual_price dc line qty tr =
     (if ln_kind line = TIERED then
        (case ln_tiers line of
           None \<Rightarrow> Inl (invalid_line line)
         | Some table \<Rightarrow> tiers_price dc None table qty tr)
      else
        (case ln_unitPrice line of
           None \<Rightarrow> Inl (invalid_line line)
         | Some p \<Rightarrow> ebind (parse_price dc p) (\<lambda>u.
             Inr (UnitPrice u, tr @ [TS_BASE_PRICE MANUAL (dec_to_string dc u)]))))"

definition rule_price ::
    "'d decimal_ops \<Rightarrow> pricing_line \<Rightarrow> 'd \<Rightarrow> 'd pricing_ctx \<Rightarrow> trace_step list
     \<Rightarrow> ('d base_price \<times> trace_step list) priced" where
  "rule_price dc line qty ctx tr =
     (case ln_rule line of
        None \<Rightarrow> Inl (invalid_line line)
      | Some ref \<Rightarrow>
          ebind (find_rule (cx_catalog ctx) (rr_priceRuleId ref) (ln_id line)) (\<lambda>rule.
            case rule of
              GRID ruleId entries \<Rightarrow>
                (if ln_kind line = TIERED then Inl (invalid_line line)
                 else ebind (grid_unit_price dc entries (ln_code line) (ln_id line)) (\<lambda>u.
                   Inr (UnitPrice u,
                        tr @ [TS_RULE_PRICE ruleId (ln_code line) (dec_to_string dc u)])))
            | TIERS ruleId table \<Rightarrow>
                (if ln_kind line \<noteq> TIERED then Inl (invalid_line line)
                 else tiers_price dc (Some ruleId) table qty tr)
            | _ \<Rightarrow> Inl (invalid_line line)))"

definition formula_price ::
    "'d decimal_ops \<Rightarrow> pricing_line \<Rightarrow> 'd \<Rightarrow> 'd pricing_ctx \<Rightarrow> trace_step list
     \<Rightarrow> ('d base_price \<times> trace_step list) priced" where
  "formula_price dc line qty ctx tr =
     (if ln_kind line = TIERED then Inl (invalid_line line)
      else ebind (evaluate_line_formula dc line qty ctx tr) (\<lambda>(u, tr').
        if dec_is_negative dc u then Inl (line_error NEGATIVE_PRICE (ln_id line))
        else Inr (UnitPrice u, tr')))"

definition line_base_price ::
    "'d decimal_ops \<Rightarrow> pricing_line \<Rightarrow> 'd \<Rightarrow> 'd pricing_ctx \<Rightarrow> trace_step list
     \<Rightarrow> ('d base_price \<times> trace_step list) priced" where
  "line_base_price dc line qty ctx tr =
     (case ln_mode line of
        MANUAL \<Rightarrow> manual_price dc line qty tr
      | RULE \<Rightarrow> rule_price dc line qty ctx tr
      | FORMULA \<Rightarrow> formula_price dc line qty ctx tr)"

definition apply_revision ::
    "'d decimal_ops \<Rightarrow> pricing_line \<Rightarrow> 'd pricing_ctx \<Rightarrow> 'd base_price \<times> trace_step list
     \<Rightarrow> ('d base_price \<times> trace_step list) priced" where
  "apply_revision dc line ctx acc =
     (case ln_revision line of
        None \<Rightarrow> Inr acc
      | Some rvs \<Rightarrow>
          ebind (parse_iso_date (rv_referenceDate rvs)) (\<lambda>refDate.
          ebind (parse_iso_date (rv_revisionDate rvs)) (\<lambda>revDate.
          if revDate < refDate then Inl (invalid_line line)
          else if cx_date ctx < revDate
          then Inr (fst acc, snd acc @ [TS_REVISION_NOT_EFFECTIVE revDate (cx_date ctx)])
          else
            let P0 = base_value (fst acc) in
            ebind (compute_revision dc P0 rvs (cx_indexes ctx) (st_indexLookup (cx_settings ctx)))
              (\<lambda>r. Inr (set_base (fst acc) (rc_exact r),
                 snd acc @ [TS_REVISION
                   \<lparr>rt_appliesTo = (case fst acc of UnitPrice u \<Rightarrow> RV_UNIT_PRICE
                                     | Amount a \<Rightarrow> RV_AMOUNT),
                    rt_P0 = dec_to_string dc P0, rt_a = dec_to_string dc (rc_a r),
                    rt_b = dec_to_string dc (rc_b r), rt_S0 = rc_S0 r, rt_S1 = rc_S1 r,
                    rt_ratio = dec_to_string dc (rc_ratio r),
                    rt_coefficient = dec_to_string dc (rc_coefficient r),
                    rt_result = dec_to_string dc (rc_exact r)\<rparr>])))))"

definition discounted :: "'d decimal_ops \<Rightarrow> 'd \<Rightarrow> 'd \<Rightarrow> 'd" where
  "discounted dc prior percent =
     dec_div dc (dec_times dc prior (dec_minus dc (dec_of_int dc 100) percent)) (dec_of_int dc 100)"

definition apply_adjustment ::
    "'d decimal_ops \<Rightarrow> pricing_line \<Rightarrow> 'd \<Rightarrow> 'd pricing_ctx \<Rightarrow> 'd base_price \<times> trace_step list
     \<Rightarrow> string \<Rightarrow> ('d base_price \<times> trace_step list) priced" where
  "apply_adjustment dc line qty ctx acc ruleId =
     ebind (find_rule (cx_catalog ctx) ruleId (ln_id line)) (\<lambda>rule.
     ebind (adjustment_for dc rule qty (cx_commitmentMonths ctx) (ln_id line)) (\<lambda>adj.
       let prior = base_value (fst acc); after = discounted dc prior (ad_percent adj)
       in Inr (set_base (fst acc) after,
               snd acc @ [TS_ADJUSTMENT
                 \<lparr>at_ruleId = ad_ruleId adj, at_ruleType = ad_ruleType adj, at_basis = ad_basis adj,
                  at_threshold = ad_threshold adj, at_percent = dec_to_string dc (ad_percent adj),
                  at_before = dec_to_string dc prior, at_after = dec_to_string dc after\<rparr>])))"

definition apply_adjustments ::
    "'d decimal_ops \<Rightarrow> pricing_line \<Rightarrow> 'd \<Rightarrow> 'd pricing_ctx \<Rightarrow> 'd base_price \<times> trace_step list
     \<Rightarrow> ('d base_price \<times> trace_step list) priced" where
  "apply_adjustments dc line qty ctx acc =
     (if ln_mode line = RULE then
        efold (apply_adjustment dc line qty ctx) acc
          (case ln_rule line of None \<Rightarrow> [] | Some ref \<Rightarrow> rr_adjustmentRuleIds ref)
      else Inr acc)"

definition settings_scale :: "'d pricing_ctx \<Rightarrow> nat" where
  "settings_scale ctx = nat (st_unitPriceScale (cx_settings ctx))"

text \<open>The unit price before any override, rounded (for tiers, the average price).\<close>

definition round_unit_price ::
    "'d decimal_ops \<Rightarrow> 'd \<Rightarrow> 'd pricing_ctx \<Rightarrow> 'd base_price \<times> trace_step list
     \<Rightarrow> 'd \<times> trace_step list" where
  "round_unit_price dc qty ctx acc =
     (let scale = settings_scale ctx; mode = st_rounding (cx_settings ctx);
          (target, exact) =
            (case fst acc of
               UnitPrice u \<Rightarrow> (RT_UNIT_PRICE, u)
             | Amount a \<Rightarrow>
                 (RT_AVERAGE_UNIT_PRICE, if dec_is_zero dc qty then dec_of_int dc 0 else dec_div dc a qty));
          unitPrice = round_to_scale dc exact scale mode
      in (unitPrice,
          snd acc @ [TS_ROUNDING target (dec_to_string dc exact) (fmt dc unitPrice scale) scale mode]))"

definition override_step :: "'d decimal_ops \<Rightarrow> 'd \<Rightarrow> nat \<Rightarrow> 'd applied_override \<Rightarrow> trace_step" where
  "override_step dc computed scale a =
     (let ov = ao_override a in
      TS_OVERRIDE_APPLIED
        \<lparr>ot_overrideId = po_id ov, ot_computedUnitPrice = fmt dc computed scale,
         ot_unitPrice = po_unitPrice ov, ot_validFrom = po_validFrom ov, ot_validTo = po_validTo ov,
         ot_reason = po_reason ov, ot_authorId = po_authorId ov, ot_approvedBy = po_approvedBy ov,
         ot_gapPercent = map_option (dec_to_string dc) (ao_gapPercent a),
         ot_requiresSecondApproval = ao_requiresSecondApproval a\<rparr>)"

definition apply_override ::
    "'d decimal_ops \<Rightarrow> pricing_line \<Rightarrow> 'd pricing_ctx \<Rightarrow> 'd base_price \<Rightarrow> 'd \<times> trace_step list
     \<Rightarrow> ('d \<times> 'd base_price \<times> trace_step list) priced" where
  "apply_override dc line ctx base acc =
     (let (unitPrice, tr) = acc in
      ebind (select_override dc (overrides_of ctx (ln_id line)) (cx_date ctx) unitPrice
               (cx_threshold ctx)) (\<lambda>selection.
        let tr' = tr @ map (\<lambda>s. TS_OVERRIDE_SKIPPED (so_overrideId s) (so_reason s) (so_gapPercent s))
                         (os_skipped selection)
        in case os_applied selection of
             None \<Rightarrow> Inr (unitPrice, base, tr')
           | Some a \<Rightarrow>
               Inr (ao_unitPrice a, UnitPrice (ao_unitPrice a),
                    tr' @ [override_step dc unitPrice (settings_scale ctx) a])))"

definition hour_pack_step ::
    "'d decimal_ops \<Rightarrow> pricing_line \<Rightarrow> 'd pricing_ctx \<Rightarrow> 'd \<Rightarrow> trace_step list" where
  "hour_pack_step dc line ctx unitPrice =
     (case ln_hoursPerPack line of
        Some h \<Rightarrow>
          (if ln_kind line = HOUR_PACK then
             let rate = round_to_scale dc (dec_div dc unitPrice (dec_of_string dc h))
                          (settings_scale ctx) (st_rounding (cx_settings ctx))
             in [TS_HOUR_PACK (dec_to_string dc (dec_of_string dc h)) (fmt dc rate (settings_scale ctx))]
           else [])
      | None \<Rightarrow> [])"

text \<open>\<open>amount ?? unitPrice.times(qty)\<close>\<close>

definition exact_total :: "'d decimal_ops \<Rightarrow> 'd base_price \<Rightarrow> 'd \<Rightarrow> 'd \<Rightarrow> 'd" where
  "exact_total dc base unitPrice qty =
     (case base of Amount a \<Rightarrow> a | UnitPrice u \<Rightarrow> dec_times dc unitPrice qty)"

definition line_total_steps ::
    "'d decimal_ops \<Rightarrow> 'd pricing_ctx \<Rightarrow> 'd \<Rightarrow> 'd \<Rightarrow> 'd \<Rightarrow> int \<Rightarrow> trace_step list" where
  "line_total_steps dc ctx unitPrice qty exact cents =
     [TS_LINE_TOTAL (fmt dc unitPrice (settings_scale ctx)) (dec_to_string dc qty)
        (dec_to_string dc exact),
      TS_ROUNDING RT_LINE_TOTAL (dec_to_string dc exact) (format_cents dc cents) 2
        (st_rounding (cx_settings ctx))]"

definition price_regular_line ::
    "'d decimal_ops \<Rightarrow> pricing_line \<Rightarrow> 'd pricing_ctx \<Rightarrow> priced_line priced" where
  "price_regular_line dc line ctx =
     ebind (parse_vat dc line) (\<lambda>vat.
     ebind (resolve_recurrence line) (\<lambda>recurrence.
     ebind (check_line dc line) (\<lambda>_.
     ebind (resolve_quantity dc line ctx) (\<lambda>(qty, tr0).
     ebind (line_base_price dc line qty ctx tr0) (\<lambda>acc1.
     ebind (apply_revision dc line ctx acc1) (\<lambda>acc2.
     ebind (apply_adjustments dc line qty ctx acc2) (\<lambda>acc3.
     ebind (apply_override dc line ctx (fst acc3) (round_unit_price dc qty ctx acc3))
       (\<lambda>(unitPrice, base, tr).
         let exactTotal = exact_total dc base unitPrice qty;
             totalHtCents = to_cents dc exactTotal (st_rounding (cx_settings ctx))
         in Inr \<lparr>pl_lineId = ln_id line, pl_code = ln_code line, pl_label = ln_label line,
                 pl_unit = ln_unit line, pl_kind = ln_kind line, pl_mode = ln_mode line,
                 pl_recurrence = recurrence, pl_quantity = dec_to_string dc qty,
                 pl_unitPrice = fmt dc unitPrice (settings_scale ctx),
                 pl_vatRatePercent = dec_to_string dc vat, pl_totalHtCents = totalHtCents,
                 pl_trace = tr @ hour_pack_step dc line ctx unitPrice
                   @ line_total_steps dc ctx unitPrice qty exactTotal totalHtCents\<rparr>))))))))"

end
