(* ===== verification/PriceAt.thy ===== *)
theory PriceAt
  imports PriceLines
begin

text \<open>
  The entry point of the pricing engine: \<open>priceDiscountLine\<close>, \<open>computeTotals\<close> and \<open>priceAt\<close> of
  \<open>packages/pricing/src/price-at.ts\<close>. The maps keyed by line identifier are the lists of priced lines,
  read by their first line of that identifier: \<open>priceAt\<close> refuses a schedule that repeats one. The
  instance of \<open>decimal_ops\<close> is decimal.js.
\<close>

subsection \<open>Discounts\<close>

definition priced_get :: "priced_line list \<Rightarrow> string \<Rightarrow> priced_line option" where
  "priced_get priced lineId = List.find (\<lambda>p. pl_lineId p = lineId) priced"

definition mismatch :: "pricing_line \<Rightarrow> pricing_error" where
  "mismatch line = line_error DISCOUNT_TARGET_MISMATCH (ln_id line)"

text \<open>A target of the schedule that is not a discount has been priced: the last case is not reached from
  \<open>price_at\<close>.\<close>

definition discount_target_of ::
    "pricing_line \<Rightarrow> pricing_line list \<Rightarrow> priced_line list \<Rightarrow> string \<Rightarrow> priced_line priced" where
  "discount_target_of line schedLines priced lineId =
     (case List.find (\<lambda>l. ln_id l = lineId) schedLines of
        None \<Rightarrow> Inl (invalid_line line)
      | Some target \<Rightarrow>
          if ln_kind target = DISCOUNT then Inl (invalid_line line)
          else case priced_get priced lineId of
                 None \<Rightarrow> Inl (invalid_line line)
               | Some p \<Rightarrow> Inr p)"

definition discount_targets ::
    "pricing_line \<Rightarrow> pricing_line list \<Rightarrow> priced_line list \<Rightarrow> discount_spec
     \<Rightarrow> priced_line list priced" where
  "discount_targets line schedLines priced d =
     ebind (case ds_appliesTo d of
              SUBTOTAL \<Rightarrow> Inr priced
            | LINES lineIds \<Rightarrow>
                if \<not> distinct lineIds then Inl (invalid_line line)
                else emap (discount_target_of line schedLines priced) lineIds) (\<lambda>targets.
       if targets = [] then Inl (invalid_line line) else Inr targets)"

text \<open>One VAT rate and one recurrence among the targets, and the discount has the same.\<close>

definition check_homogeneous ::
    "'d decimal_ops \<Rightarrow> pricing_line \<Rightarrow> 'd \<Rightarrow> priced_line list \<Rightarrow> unit priced" where
  "check_homogeneous dc line vat targets =
     (let firstRate = dec_of_string dc (pl_vatRatePercent (hd targets));
          firstRecurrence = pl_recurrence (hd targets)
      in if list_ex (\<lambda>t. \<not> dec_eq dc (dec_of_string dc (pl_vatRatePercent t)) firstRate
                       \<or> pl_recurrence t \<noteq> firstRecurrence) targets
         then Inl (mismatch line)
         else if \<not> dec_eq dc vat firstRate then Inl (mismatch line)
         else if ln_recurrence line \<noteq> None \<and> ln_recurrence line \<noteq> Some firstRecurrence
         then Inl (mismatch line)
         else Inr ())"

definition discount_amount ::
    "'d decimal_ops \<Rightarrow> pricing_line \<Rightarrow> discount_spec \<Rightarrow> 'd \<Rightarrow> ('d \<times> 'd) priced" where
  "discount_amount dc line d base =
     ebind (parse_decimal dc (ds_value d) (if ds_type d = PERCENT then 4 else 6) False) (\<lambda>v.
       case ds_type d of
         PERCENT \<Rightarrow>
           if dec_gt dc v (dec_of_int dc 100)
           then Inl (line_error DISCOUNT_EXCEEDS_BASE (ln_id line))
           else Inr (v, dec_neg dc (dec_div dc (dec_times dc base v) (dec_of_int dc 100)))
       | AMOUNT \<Rightarrow>
           if dec_gt dc v base then Inl (line_error DISCOUNT_EXCEEDS_BASE (ln_id line))
           else Inr (v, dec_neg dc v))"

definition price_discount_line ::
    "'d decimal_ops \<Rightarrow> pricing_line \<Rightarrow> pricing_line list \<Rightarrow> priced_line list \<Rightarrow> 'd pricing_ctx
     \<Rightarrow> priced_line priced" where
  "price_discount_line dc line schedLines priced ctx =
     (let rounding = st_rounding (cx_settings ctx) in
      if ln_mode line \<noteq> MANUAL then Inl (invalid_line line)
      else case ln_discount line of
        None \<Rightarrow> Inl (invalid_line line)
      | Some d \<Rightarrow>
          ebind (parse_vat dc line) (\<lambda>vat.
          ebind (discount_targets line schedLines priced d) (\<lambda>targets.
          ebind (check_homogeneous dc line vat targets) (\<lambda>_.
            let baseCents = sum_list (map pl_totalHtCents targets) in
            ebind (discount_amount dc line d (cents_to_euros dc baseCents)) (\<lambda>(v, exact).
              let totalHtCents = to_cents dc exact rounding in
              Inr \<lparr>pl_lineId = ln_id line, pl_code = ln_code line, pl_label = ln_label line,
                   pl_unit = ln_unit line, pl_kind = DISCOUNT, pl_mode = ln_mode line,
                   pl_recurrence = pl_recurrence (hd targets), pl_quantity = ''1'',
                   pl_unitPrice = format_cents dc totalHtCents,
                   pl_vatRatePercent = dec_to_string dc vat, pl_totalHtCents = totalHtCents,
                   pl_trace =
                     [TS_DISCOUNT (ds_type d) (dec_to_string dc v) (map pl_lineId targets)
                        (int_string baseCents) (dec_to_string dc exact),
                      TS_ROUNDING RT_LINE_TOTAL (dec_to_string dc exact)
                        (format_cents dc totalHtCents) 2 rounding]\<rparr>)))))"

subsection \<open>Totals\<close>

record vat_breakdown =
  vb_ratePercent :: string
  vb_baseHtCents :: int
  vb_vatCents :: int

record pricing_totals =
  to_htCents :: int
  to_vatCents :: int
  to_ttcCents :: int
  to_vatByRate :: "vat_breakdown list"
  to_monthlyLinesCents :: int
  to_quarterlyLinesCents :: int
  to_yearlyLinesCents :: int
  to_oneOffCents :: int
  to_monthlyRecurringCents :: int
  to_annualRecurringCents :: int

text \<open>\<open>byRate\<close>: an insertion-ordered map from the rate's text to the rate and its base.\<close>

fun add_to_rate ::
    "string \<Rightarrow> 'd \<Rightarrow> int \<Rightarrow> (string \<times> 'd \<times> int) list \<Rightarrow> (string \<times> 'd \<times> int) list" where
  "add_to_rate key rate cents [] = [(key, rate, cents)]"
| "add_to_rate key rate cents ((k, r, base) # gs) =
     (if k = key then (k, rate, base + cents) # gs
      else (k, r, base) # add_to_rate key rate cents gs)"

definition by_rate :: "'d decimal_ops \<Rightarrow> priced_line list \<Rightarrow> (string \<times> 'd \<times> int) list" where
  "by_rate dc lines =
     foldl (\<lambda>gs l. let rate = dec_of_string dc (pl_vatRatePercent l)
                   in add_to_rate (dec_to_string dc rate) rate (pl_totalHtCents l) gs) [] lines"

text \<open>The stable sort by \<open>comparedTo\<close>: a group goes after the groups of a rate not above its own.\<close>

fun insert_rate :: "'d decimal_ops \<Rightarrow> string \<times> 'd \<times> int \<Rightarrow> (string \<times> 'd \<times> int) list
    \<Rightarrow> (string \<times> 'd \<times> int) list" where
  "insert_rate dc g [] = [g]"
| "insert_rate dc g (h # hs) =
     (if dec_lt dc (fst (snd g)) (fst (snd h)) then g # h # hs else h # insert_rate dc g hs)"

definition sort_rates ::
    "'d decimal_ops \<Rightarrow> (string \<times> 'd \<times> int) list \<Rightarrow> (string \<times> 'd \<times> int) list" where
  "sort_rates dc gs = foldl (\<lambda>acc g. insert_rate dc g acc) [] gs"

definition vat_of_rate ::
    "'d decimal_ops \<Rightarrow> pricing_settings \<Rightarrow> string \<times> 'd \<times> int \<Rightarrow> vat_breakdown" where
  "vat_of_rate dc settings g =
     (let (k, rate, base) = g in
      \<lparr>vb_ratePercent = dec_to_string dc rate, vb_baseHtCents = base,
       vb_vatCents = to_cents dc
         (dec_div dc (dec_times dc (cents_to_euros dc base) rate) (dec_of_int dc 100))
         (st_rounding settings)\<rparr>)"

definition lines_cents :: "(recurrence \<Rightarrow> bool) \<Rightarrow> priced_line list \<Rightarrow> int" where
  "lines_cents P lines = sum_list (map pl_totalHtCents (filter (\<lambda>l. P (pl_recurrence l)) lines))"

definition monthly_recurring ::
    "'d decimal_ops \<Rightarrow> pricing_settings \<Rightarrow> int \<Rightarrow> int \<Rightarrow> int \<Rightarrow> int" where
  "monthly_recurring dc settings monthly quarterly yearly =
     monthly
     + to_cents dc
         (dec_plus dc (dec_div dc (cents_to_euros dc quarterly) (dec_of_int dc 3))
                      (dec_div dc (cents_to_euros dc yearly) (dec_of_int dc 12)))
         (st_rounding settings)"

definition compute_totals ::
    "'d decimal_ops \<Rightarrow> priced_line list \<Rightarrow> pricing_settings \<Rightarrow> pricing_totals" where
  "compute_totals dc lines settings =
     (let ht = sum_list (map pl_totalHtCents lines);
          monthly = lines_cents (\<lambda>r. r = MONTHLY) lines;
          quarterly = lines_cents (\<lambda>r. r = QUARTERLY) lines;
          yearly = lines_cents (\<lambda>r. r = YEARLY) lines;
          oneOff = lines_cents (\<lambda>r. r \<notin> {MONTHLY, QUARTERLY, YEARLY}) lines;
          vatByRate = map (vat_of_rate dc settings) (sort_rates dc (by_rate dc lines));
          vat = sum_list (map vb_vatCents vatByRate)
      in \<lparr>to_htCents = ht, to_vatCents = vat, to_ttcCents = ht + vat, to_vatByRate = vatByRate,
          to_monthlyLinesCents = monthly, to_quarterlyLinesCents = quarterly,
          to_yearlyLinesCents = yearly, to_oneOffCents = oneOff,
          to_monthlyRecurringCents = monthly_recurring dc settings monthly quarterly yearly,
          to_annualRecurringCents = monthly * 12 + quarterly * 4 + yearly\<rparr>)"

subsection \<open>Pricing at a date\<close>

record pricing_result =
  pr_date :: string
  pr_scheduleId :: string
  pr_scheduleValidFrom :: string
  pr_scheduleValidTo :: "string option"
  pr_settings :: pricing_settings
  pr_lines :: "priced_line list"
  pr_totals :: pricing_totals

definition with_line_of :: "pricing_line \<Rightarrow> 'a priced \<Rightarrow> 'a priced" where
  "with_line_of line r = (case r of Inl e \<Rightarrow> Inl (with_line e (ln_id line)) | Inr x \<Rightarrow> Inr x)"

definition context_of ::
    "'d decimal_ops \<Rightarrow> pricing_input \<Rightarrow> string \<Rightarrow> pricing_settings \<Rightarrow> 'd pricing_ctx" where
  "context_of dc input date settings =
     \<lparr>cx_date = date, cx_settings = settings,
      cx_threshold = dec_of_string dc (st_overrideApprovalThresholdPercent settings),
      cx_indexes = in_indexes input, cx_catalog = in_ruleCatalog input,
      cx_commitmentMonths = in_commitmentMonths input, cx_overrides = in_overrides input,
      cx_quantities = in_quantities input\<rparr>"

text \<open>The first line whose identifier an earlier line has.\<close>

fun check_line_ids :: "string list \<Rightarrow> pricing_line list \<Rightarrow> unit priced" where
  "check_line_ids seen [] = Inr ()"
| "check_line_ids seen (l # ls) =
     (if ln_id l \<in> set seen then Inl (invalid_line l) else check_line_ids (ln_id l # seen) ls)"

definition price_lines ::
    "'d decimal_ops \<Rightarrow> pricing_schedule \<Rightarrow> 'd pricing_ctx \<Rightarrow> priced_line list priced" where
  "price_lines dc schedule ctx =
     ebind (emap (\<lambda>l. with_line_of l (price_regular_line dc l ctx))
              (filter (\<lambda>l. ln_kind l \<noteq> DISCOUNT) (sd_lines schedule))) (\<lambda>priced.
     ebind (emap (\<lambda>l. with_line_of l (price_discount_line dc l (sd_lines schedule) priced ctx))
              (filter (\<lambda>l. ln_kind l = DISCOUNT) (sd_lines schedule))) (\<lambda>discounts.
       Inr (map (\<lambda>l. the (priced_get (priced @ discounts) (ln_id l))) (sd_lines schedule))))"

definition price_at ::
    "'d decimal_ops \<Rightarrow> pricing_input \<Rightarrow> string \<Rightarrow> pricing_result priced" where
  "price_at dc input date =
     ebind (parse_iso_date date) (\<lambda>_.
     ebind (resolve_settings dc (in_settings input)) (\<lambda>settings.
     ebind (select_schedule (in_schedules input) date) (\<lambda>schedule.
     if sd_currency schedule \<noteq> ''EUR'' then Inl (pricing_error INVALID_SETTINGS)
     else
     ebind (check_line_ids [] (sd_lines schedule)) (\<lambda>_.
     ebind (price_lines dc schedule (context_of dc input date settings)) (\<lambda>lines.
       Inr \<lparr>pr_date = date, pr_scheduleId = sd_id schedule,
            pr_scheduleValidFrom = sd_validFrom schedule, pr_scheduleValidTo = sd_validTo schedule,
            pr_settings = settings, pr_lines = lines,
            pr_totals = compute_totals dc lines settings\<rparr>)))))"

end
