(* ===== verification/PriceBounds.thy ===== *)
theory PriceBounds
  imports PriceAt
begin

text \<open>
  The amounts of a priced schedule: what every step of \<open>priceRegularLine\<close> and \<open>priceDiscountLine\<close>
  keeps, through the roundings of the decimal arithmetic. A regular line never has a negative total;
  a discount is never positive and never exceeds the lines it applies to.
\<close>

subsection \<open>Signs\<close>

lemma rnd_le:
  "decimal_laws dc val rnd \<Longrightarrow> x \<le> y \<Longrightarrow> rnd x \<le> rnd y"
  using monoD decimal_lawsD(1) by blast

lemma half_round_nonneg: "0 \<le> x \<Longrightarrow> 0 \<le> half_round mode x"
  by (simp add: half_round_def Let_def)

lemma half_round_nonpos: "x \<le> 0 \<Longrightarrow> half_round mode x \<le> 0"
  using zero_le_floor [of "- x"] by (cases "x = 0") (auto simp: half_round_def Let_def)

lemma half_round_neg: "half_round mode (- x) = - half_round mode x"
  by (auto simp: half_round_def Let_def)

lemma half_round_le_int:
  assumes "x \<le> of_int n"
  shows "half_round mode x \<le> n"
proof (cases "x < 0")
  case True
  then have "- of_int n \<le> \<bar>x\<bar>" using assms by linarith
  then have "- n \<le> \<lfloor>\<bar>x\<bar>\<rfloor>" by (simp add: le_floor_iff)
  with True show ?thesis by (auto simp: half_round_def Let_def)
next
  case False
  have "\<lfloor>x\<rfloor> \<le> n" using assms by (simp add: floor_le_iff)
  moreover have "x = of_int n" if "\<lfloor>x\<rfloor> = n"
    using that assms of_int_floor_le [of x] by linarith
  ultimately show ?thesis using False
    by (cases "\<lfloor>x\<rfloor> = n") (auto simp: half_round_def Let_def)
qed

lemma to_cents_eq:
  assumes "decimal_laws dc val rnd"
  shows "to_cents dc x mode = half_round mode (rnd (val x * 100))"
  unfolding to_cents_def
  by (rule decimal_lawsD(16) [OF assms]) (simp add: decimal_lawsD [OF assms])

lemma to_cents_nonneg:
  "decimal_laws dc val rnd \<Longrightarrow> 0 \<le> val x \<Longrightarrow> 0 \<le> to_cents dc x mode"
  by (simp add: to_cents_eq half_round_nonneg rnd_nonneg)

lemma round_to_scale_nonneg:
  "decimal_laws dc val rnd \<Longrightarrow> 0 \<le> val x \<Longrightarrow> 0 \<le> val (round_to_scale dc x scale mode)"
  by (simp add: round_to_scale_def decimal_lawsD half_round_nonneg)

lemma div_nonneg:
  "decimal_laws dc val rnd \<Longrightarrow> 0 \<le> val x \<Longrightarrow> 0 < val y \<Longrightarrow> 0 \<le> val (dec_div dc x y)"
  by (simp add: decimal_lawsD rnd_nonneg)

lemma times_nonneg:
  "decimal_laws dc val rnd \<Longrightarrow> 0 \<le> val x \<Longrightarrow> 0 \<le> val y \<Longrightarrow> 0 \<le> val (dec_times dc x y)"
  by (simp add: decimal_lawsD rnd_nonneg)

lemma plus_nonneg:
  "decimal_laws dc val rnd \<Longrightarrow> 0 \<le> val x \<Longrightarrow> 0 \<le> val y \<Longrightarrow> 0 \<le> val (dec_plus dc x y)"
  by (simp add: decimal_lawsD rnd_nonneg)

subsection \<open>The steps of a regular line\<close>

lemma ladder_price: "ladder val p ts \<Longrightarrow> t \<in> set ts \<Longrightarrow> 0 \<le> val (pt_unitPrice t)"
  by (induction ts arbitrary: p) (auto split: option.splits)

lemma tiered_nonneg:
  assumes "decimal_laws dc val rnd" "compute_tiered dc table q = Inr c" "0 \<le> val q"
  shows "0 \<le> val (tc_exact c)"
proof (cases "tt_mode table")
  case GRADUATED
  obtain tiers where t: "parse_tier_table dc table = Inr tiers"
      "tc_exact c = fst (graduated dc q (dec_of_int dc 0) (dec_of_int dc 0) [] tiers)"
    using compute_tiered_graduated [OF assms(2) GRADUATED] .
  have "ladder val (val (dec_of_int dc 0)) tiers"
    using parse_tier_table_ladder(1) [OF assms(1) t(1)] by (simp add: decimal_lawsD(5) [OF assms(1)])
  then show ?thesis
    using graduated_grows [OF assms(1), of "dec_of_int dc 0" tiers "dec_of_int dc 0" q "[]"]
    by (simp add: t(2) decimal_lawsD [OF assms(1)])
next
  case VOLUME
  obtain tiers where p: "parse_tier_table dc table = Inr tiers" "\<not> beyond_last_tier dc q tiers"
    using assms(2) by (auto simp: compute_tiered_def ebind_Inr_iff split: if_splits)
  obtain prev t where v: "volume_tier dc q (dec_of_int dc 0) tiers = Some (prev, t)"
    using volume_tier_exists [OF assms(1) parse_tier_table_ladder(2) [OF assms(1) p(1)] p(2), of "dec_of_int dc 0"]
    by (cases "volume_tier dc q (dec_of_int dc 0) tiers") auto
  have x: "tc_exact c = dec_times dc q (pt_unitPrice t)"
    using assms(2) VOLUME p v by (auto simp: compute_tiered_def Let_def)
  have "ladder val (val (dec_of_int dc 0)) tiers"
    using parse_tier_table_ladder(1) [OF assms(1) p(1)] by (simp add: decimal_lawsD(5) [OF assms(1)])
  then have "0 \<le> val (pt_unitPrice t)"
    using volume_tier_reached [OF assms(1) _ v] ladder_price by blast
  then show ?thesis unfolding x by (rule times_nonneg [OF assms(1,3)])
qed

lemma resolve_quantity_nonneg:
  assumes "decimal_laws dc val rnd" "resolve_quantity dc line ctx = Inr (q, tr)"
  shows "0 \<le> val q"
  using assms(2) parse_price_nonneg [OF assms(1)]
  by (auto simp: resolve_quantity_def ebind_Inr_iff split: option.splits quantity_spec.splits)

lemma line_base_price_nonneg:
  assumes "decimal_laws dc val rnd" "line_base_price dc line q ctx tr = Inr acc" "0 \<le> val q"
  shows "0 \<le> val (base_value (fst acc))"
proof (cases "ln_mode line")
  case MANUAL
  then show ?thesis
    using assms parse_price_nonneg [OF assms(1)] tiered_nonneg [OF assms(1)]
    by (auto simp: line_base_price_def manual_price_def tiers_price_def base_value_def ebind_Inr_iff
        split: if_splits option.splits)
next
  case RULE
  obtain rule ref where r: "find_rule (cx_catalog ctx) (rr_priceRuleId ref) (ln_id line) = Inr rule"
      "ln_rule line = Some ref"
    using assms(2) RULE by (auto simp: line_base_price_def rule_price_def ebind_Inr_iff split: option.splits)
  then show ?thesis
    using assms RULE parse_price_nonneg [OF assms(1)] tiered_nonneg [OF assms(1)]
    by (cases rule)
      (auto simp: line_base_price_def rule_price_def tiers_price_def grid_unit_price_def
        base_value_def ebind_Inr_iff split: if_splits option.splits prod.splits)
next
  case FORMULA
  have "0 \<le> val u" if "\<not> dec_is_negative dc u" for u
    using that decimal_lawsD(14) [OF assms(1), of u] by linarith
  then show ?thesis
    using assms(2) FORMULA
    by (auto simp: line_base_price_def formula_price_def base_value_def ebind_Inr_iff split: if_splits)
qed

lemma base_value_set [simp]: "base_value (set_base b x) = x"
  by (cases b) (simp_all add: base_value_def set_base_def)

lemma apply_revision_nonneg:
  assumes "decimal_laws dc val rnd" "apply_revision dc line ctx acc = Inr acc'"
    and "0 \<le> val (base_value (fst acc))"
  shows "0 \<le> val (base_value (fst acc'))"
proof -
  have "0 \<le> val (rc_exact r)" if r: "compute_revision dc P0 spec indexes lookup = Inr r" "0 \<le> val P0"
    for P0 spec indexes lookup r
  proof -
    have "0 \<le> val (rc_exact r)"
      if a: "parse_price dc (rv_a spec) = Inr a" and b: "parse_price dc (rv_b spec) = Inr b"
      and s0: "lookup_index_value dc indexes c d0 rule = Inr S0"
      and s1: "lookup_index_value dc indexes c d1 rule' = Inr S1"
      and nz: "\<not> dec_is_zero dc (dec_of_string dc (io_value S0))"
      and x: "rc_exact r = dec_times dc P0 (dec_plus dc a (dec_times dc b
                (dec_div dc (dec_of_string dc (io_value S1)) (dec_of_string dc (io_value S0)))))"
      for a b c d0 d1 rule rule' S0 S1
    proof -
      have "0 < val (dec_of_string dc (io_value S0))"
        using lookup_value_nonneg [OF assms(1) s0] nz by (simp add: decimal_lawsD(13) [OF assms(1)])
      then show ?thesis
        unfolding x
        by (intro times_nonneg [OF assms(1)] plus_nonneg [OF assms(1)] div_nonneg [OF assms(1)]
            r(2) parse_price_nonneg [OF assms(1) a] parse_price_nonneg [OF assms(1) b]
            lookup_value_nonneg [OF assms(1) s1])
    qed
    then show ?thesis
      using r(1) by (auto simp: compute_revision_def ebind_Inr_iff Let_def split: if_splits)
  qed
  then show ?thesis
    using assms(2,3)
    by (auto simp: apply_revision_def ebind_Inr_iff Let_def split: option.splits if_splits)
qed

text \<open>The percentage of an adjustment, of either kind, is at most 100.\<close>

lemma assert_percent_Inr:
  "decimal_laws dc val rnd \<Longrightarrow> assert_percent dc p = Inr p' \<longleftrightarrow> p' = p \<and> val p \<le> 100"
  by (auto simp: assert_percent_def decimal_lawsD not_less)

lemma threshold_percent:
  assumes "decimal_laws dc val rnd"
    and step: "\<And>best t best'. step best t = Inr best' \<Longrightarrow> best' = best \<or>
                 (\<exists>m p. best' = Some (m, p) \<and> val p \<le> 100)"
  shows "efold step best ts = Inr best' \<Longrightarrow> (\<And>m p. best = Some (m, p) \<Longrightarrow> val p \<le> 100) \<Longrightarrow>
           best' = Some (m, p) \<Longrightarrow> val p \<le> 100"
proof (induction ts arbitrary: best)
  case (Cons t ts)
  then obtain b where b: "step best t = Inr b" "efold step b ts = Inr best'"
    by (auto simp: ebind_Inr_iff)
  show ?case
    by (rule Cons.IH [OF b(2) _ Cons.prems(3)]) (use step [OF b(1)] Cons.prems(2) in auto)
qed simp

lemma adjustment_percent:
  assumes "decimal_laws dc val rnd" "adjustment_for dc rule q months lineId = Inr r"
  shows "val (ad_percent r) \<le> 100"
proof -
  have v: "val p \<le> 100" if "efold (volume_step dc q) None ts = Inr (Some (m, p))" for ts m p
    by (rule threshold_percent [OF assms(1) _ that, where m = m])
      (auto simp: volume_step_def ebind_Inr_iff assert_percent_Inr [OF assms(1)] split: if_splits)
  have c: "val p \<le> 100" if "efold (commitment_step dc k) None ts = Inr (Some (m, p))" for k ts m p
    by (rule threshold_percent [OF assms(1) _ that, where m = m])
      (auto simp: commitment_step_def ebind_Inr_iff assert_percent_Inr [OF assms(1)] split: if_splits)
  note h = decimal_lawsD(5) [OF assms(1)]
  show ?thesis
  proof (cases rule)
    case (VOLUME_DISCOUNT ruleId ts)
    then obtain chosen where "efold (volume_step dc q) None ts = Inr chosen"
        "ad_percent r = (case chosen of None \<Rightarrow> dec_of_int dc 0 | Some x \<Rightarrow> snd x)"
      using assms(2) by (auto simp: adjustment_for_def ebind_Inr_iff)
    then show ?thesis using v [of ts] by (cases chosen) (auto simp: h)
  next
    case (COMMITMENT_DISCOUNT ruleId ts)
    then obtain k chosen where "efold (commitment_step dc k) None ts = Inr chosen"
        "ad_percent r = (case chosen of None \<Rightarrow> dec_of_int dc 0 | Some x \<Rightarrow> snd x)"
      using assms(2) by (auto simp: adjustment_for_def ebind_Inr_iff split: option.splits if_splits)
    then show ?thesis using c [of k ts] by (cases chosen) (auto simp: h)
  qed (use assms(2) in \<open>simp_all add: adjustment_for_def\<close>)
qed

lemma discounted_nonneg:
  assumes "decimal_laws dc val rnd" "0 \<le> val prior" "val percent \<le> 100"
  shows "0 \<le> val (discounted dc prior percent)"
proof -
  have h: "val (dec_of_int dc 100) = 100" by (simp add: decimal_lawsD [OF assms(1)])
  have "0 \<le> val (dec_minus dc (dec_of_int dc 100) percent)"
    using assms(3) rnd_nonneg [OF assms(1), of "100 - val percent"]
    by (simp add: decimal_lawsD(7) [OF assms(1)] h)
  then show ?thesis
    unfolding discounted_def by (intro div_nonneg [OF assms(1)] times_nonneg [OF assms(1)] assms(2)) (simp_all add: h)
qed

lemma apply_adjustments_nonneg:
  assumes "decimal_laws dc val rnd" "apply_adjustments dc line q ctx acc = Inr acc'"
    and "0 \<le> val (base_value (fst acc))"
  shows "0 \<le> val (base_value (fst acc'))"
proof -
  have step: "0 \<le> val (base_value (fst b))"
    if "apply_adjustment dc line q ctx a ruleId = Inr b" "0 \<le> val (base_value (fst a))" for a b ruleId
    using that discounted_nonneg [OF assms(1)] adjustment_percent [OF assms(1)]
    by (auto simp: apply_adjustment_def ebind_Inr_iff Let_def)
  have "0 \<le> val (base_value (fst b))"
    if "efold (apply_adjustment dc line q ctx) a ids = Inr b" "0 \<le> val (base_value (fst a))" for a b ids
    using that by (induction ids arbitrary: a) (auto simp: ebind_Inr_iff dest: step)
  then show ?thesis
    using assms(2,3) by (auto simp: apply_adjustments_def split: if_splits)
qed

lemma round_unit_price_nonneg:
  assumes "decimal_laws dc val rnd" "0 \<le> val q" "0 \<le> val (base_value (fst acc))"
  shows "0 \<le> val (fst (round_unit_price dc q ctx acc))"
  using assms(2,3) round_to_scale_nonneg [OF assms(1)] div_nonneg [OF assms(1), of _ q]
  by (auto simp: round_unit_price_def base_value_def decimal_lawsD [OF assms(1)] Let_def order_less_le
      split: base_price.splits)

lemma apply_override_nonneg:
  assumes "decimal_laws dc val rnd"
    and "apply_override dc line ctx base acc = Inr (unitPrice, base', tr)"
    and "0 \<le> val (fst acc)" "0 \<le> val (base_value base)"
  shows "0 \<le> val unitPrice" "0 \<le> val (base_value base')"
proof -
  have "0 \<le> val (ao_unitPrice a)"
    if s: "select_override dc overrides date computed threshold = Inr sel" "os_applied sel = Some a"
    for overrides date computed threshold sel a
  proof -
    obtain examined where e: "emap (examine_override dc computed threshold)
          (filter (\<lambda>ov. applicable_on ov date) overrides) = Inr examined"
        "os_applied sel = pick starts_later (rights examined)"
      using select_override_Inr [OF s(1)] by metis
    then have "a \<in> set (rights examined)" using pick_in [of starts_later] s(2) by metis
    then have "Inr a \<in> set examined" by (simp add: rights_iff)
    then obtain ov where "examine_override dc computed threshold ov = Inr (Inr a)"
      using emap_in_set [OF e(1)] by blast
    then show ?thesis
      using parse_price_nonneg [OF assms(1)]
      by (auto simp: examine_override_def ebind_Inr_iff Let_def split: if_splits)
  qed
  then show "0 \<le> val unitPrice" "0 \<le> val (base_value base')"
    using assms(2-4)
    by (auto simp: apply_override_def ebind_Inr_iff Let_def base_value_def
        split: option.splits prod.splits)
qed

text \<open>No regular line is ever billed negatively: whatever its tiers, formula, index revision, cascade of
  discounts and override, and through every rounding, the total of a line that is priced is at
  least zero.\<close>

lemma regular_total_nonneg:
  assumes "decimal_laws dc val rnd" "price_regular_line dc line ctx = Inr p"
  shows "0 \<le> pl_totalHtCents p"
proof -
  obtain q tr0 acc1 acc2 acc3 unitPrice base tr where s:
      "resolve_quantity dc line ctx = Inr (q, tr0)" "line_base_price dc line q ctx tr0 = Inr acc1"
      "apply_revision dc line ctx acc1 = Inr acc2" "apply_adjustments dc line q ctx acc2 = Inr acc3"
      "apply_override dc line ctx (fst acc3) (round_unit_price dc q ctx acc3) = Inr (unitPrice, base, tr)"
      "pl_totalHtCents p = to_cents dc (exact_total dc base unitPrice q) (st_rounding (cx_settings ctx))"
    using assms(2) by (auto simp: price_regular_line_def ebind_Inr_iff Let_def)
  note q = resolve_quantity_nonneg [OF assms(1) s(1)]
  note b = apply_adjustments_nonneg [OF assms(1) s(4) apply_revision_nonneg [OF assms(1) s(3)
      line_base_price_nonneg [OF assms(1) s(2) q]]]
  note u = apply_override_nonneg [OF assms(1) s(5) round_unit_price_nonneg [OF assms(1) q b] b]
  have "0 \<le> val (exact_total dc base unitPrice q)"
    using u times_nonneg [OF assms(1) u(1) q]
    by (cases base) (simp_all add: exact_total_def base_value_def)
  then show ?thesis unfolding s(6) by (rule to_cents_nonneg [OF assms(1)])
qed

subsection \<open>Discounts\<close>

lemma to_cents_discount:
  assumes "decimal_laws dc val rnd" "val x = - y" "0 \<le> y" "y \<le> of_int B / 100" "0 \<le> B" "B < 10 ^ 40"
  shows "- B \<le> to_cents dc x mode" "to_cents dc x mode \<le> 0"
proof -
  let ?z = "rnd (- y * 100)"
  have "rnd (of_int (- B)) = of_int (- B)" using assms(5,6) by (intro decimal_lawsD(17) [OF assms(1)]) simp
  moreover have "rnd (of_int (- B)) \<le> ?z" using assms(4) by (intro rnd_le [OF assms(1)]) simp
  ultimately have "- ?z \<le> of_int B" by simp
  moreover have "?z \<le> 0"
    using rnd_le [OF assms(1), of "- y * 100" 0] assms(3) by (simp add: decimal_lawsD(2) [OF assms(1)])
  ultimately show "- B \<le> to_cents dc x mode" "to_cents dc x mode \<le> 0"
    using half_round_le_int [of "- ?z" B mode] half_round_nonpos [of ?z mode]
    unfolding to_cents_eq [OF assms(1)] assms(2) half_round_neg by simp_all
qed

lemma val_cents_to_euros:
  assumes "decimal_laws dc val rnd" "\<bar>n\<bar> < 10 ^ 40"
  shows "val (cents_to_euros dc n) = of_int n / 100"
  using decimal_lawsD(18) [OF assms] by (simp add: cents_to_euros_def decimal_lawsD [OF assms(1)])

lemma parse_decimal_Inr_nonneg:
  assumes "decimal_laws dc val rnd" "parse_decimal dc s k False = Inr v"
  shows "0 \<le> val v"
proof -
  have "v = dec_of_string dc s"
    using assms(2) by (auto simp: parse_decimal_def split: option.splits if_splits)
  then show ?thesis using parse_decimal_nonneg [OF assms(1), of s k] assms(2) by simp
qed

lemma discount_amount_bounded:
  assumes "decimal_laws dc val rnd" "0 \<le> B" "B < 10 ^ 40"
    and "discount_amount dc line d (cents_to_euros dc B) = Inr (v, exact)"
  obtains y where "val exact = - y" "0 \<le> y" "y \<le> of_int B / 100"
proof -
  note l = decimal_lawsD [OF assms(1)]
  have B: "val (cents_to_euros dc B) = of_int B / 100" "rnd (of_int B) = of_int B"
      "rnd (of_int B / 100) = of_int B / 100"
    using assms(2,3) val_cents_to_euros [OF assms(1)] l(17,18) by simp_all
  have "0 \<le> val v"
    using assms(4) parse_decimal_Inr_nonneg [OF assms(1)]
    by (cases "ds_type d") (auto simp: discount_amount_def ebind_Inr_iff split: if_splits)
  show thesis
  proof (cases "ds_type d")
    case PERCENT
    then have v: "val v \<le> 100" and x: "exact = dec_neg dc
          (dec_div dc (dec_times dc (cents_to_euros dc B) v) (dec_of_int dc 100))"
      using assms(4) by (auto simp: discount_amount_def ebind_Inr_iff l(4,5) split: if_splits)
    define y where "y = rnd (rnd (of_int B / 100 * val v) / 100)"
    have "of_int B / 100 * val v \<le> of_int B"
      using mult_left_mono [OF v, of "of_int B / 100"] assms(2) by simp
    then have "rnd (of_int B / 100 * val v) \<le> of_int B" using rnd_le [OF assms(1)] B(2) by metis
    then have "y \<le> of_int B / 100"
      unfolding y_def using rnd_le [OF assms(1), of _ "of_int B / 100"] B(3) by (simp add: divide_right_mono)
    moreover have "0 \<le> y"
      unfolding y_def using \<open>0 \<le> val v\<close> assms(2) by (intro rnd_nonneg [OF assms(1)] divide_nonneg_nonneg) simp_all
    moreover have "val exact = - y" unfolding x y_def by (simp add: l B)
    ultimately show thesis using that by blast
  next
    case AMOUNT
    then have "val v \<le> of_int B / 100" "val exact = - val v"
      using assms(4) by (auto simp: discount_amount_def ebind_Inr_iff l B not_less split: if_splits)
    with \<open>0 \<le> val v\<close> show thesis using that by blast
  qed
qed

lemma sum_list_sub:
  fixes f :: "'a \<Rightarrow> int"
  assumes "distinct xs" "set xs \<subseteq> set ys" "\<And>y. y \<in> set ys \<Longrightarrow> 0 \<le> f y"
  shows "sum_list (map f xs) \<le> sum_list (map f ys)"
proof -
  have "sum f (set xs) \<le> sum f (set ys)" using assms by (intro sum_mono2) auto
  also have "\<dots> \<le> sum_list (map f ys)"
    using assms(3) by (induction ys) (auto simp: sum.insert_if intro: add_increasing)
  finally show ?thesis using assms(1) by (simp add: sum_list_distinct_conv_sum_set)
qed

text \<open>A discount against its targets: what \<open>check_homogeneous\<close> and the bound of the amount give.\<close>

definition discount_of ::
    "'d decimal_ops \<Rightarrow> ('d \<Rightarrow> rat) \<Rightarrow> pricing_line \<Rightarrow> priced_line list \<Rightarrow> priced_line \<Rightarrow> bool" where
  "discount_of dc val line targets p \<longleftrightarrow>
     targets \<noteq> []
     \<and> - sum_list (map pl_totalHtCents targets) \<le> pl_totalHtCents p \<and> pl_totalHtCents p \<le> 0
     \<and> list_all (\<lambda>t. pl_recurrence t = pl_recurrence p
          \<and> val (dec_of_string dc (pl_vatRatePercent t)) = val (dec_of_string dc (ln_vatRatePercent line)))
        targets"

lemma priced_get_Some: "priced_get priced i = Some p \<Longrightarrow> p \<in> set priced \<and> pl_lineId p = i"
  using find_set [of _ priced p] by (fastforce simp: priced_get_def)

lemma discount_targets_Inr:
  assumes "discount_targets line schedLines priced d = Inr targets" "distinct priced"
  shows "targets \<noteq> []" "set targets \<subseteq> set priced" "distinct targets"
proof -
  have g: "p \<in> set priced \<and> pl_lineId p = i"
    if "discount_target_of line schedLines priced i = Inr p" for i p
    using that priced_get_Some by (auto simp: discount_target_of_def split: option.splits if_splits)
  have l: "set ts \<subseteq> set priced \<and> map pl_lineId ts = ids"
    if "emap (discount_target_of line schedLines priced) ids = Inr ts" for ids ts
    using that by (induction ids arbitrary: ts) (auto simp: ebind_Inr_iff dest: g)
  consider "targets = priced"
    | lineIds where "distinct lineIds"
        "emap (discount_target_of line schedLines priced) lineIds = Inr targets"
    using assms(1)
    by (auto simp: discount_targets_def ebind_Inr_iff split: discount_target.splits if_splits)
  then have "set targets \<subseteq> set priced \<and> distinct targets"
  proof cases
    case 2
    then show ?thesis using l [OF 2(2)] distinct_map [of pl_lineId targets] by simp
  qed (use assms(2) in simp)
  then show "set targets \<subseteq> set priced" "distinct targets" by simp_all
  show "targets \<noteq> []"
    using assms(1) by (auto simp: discount_targets_def ebind_Inr_iff split: if_splits)
qed

lemma check_homogeneous_Inr:
  assumes "decimal_laws dc val rnd" "check_homogeneous dc line vat targets = Inr u" "t \<in> set targets"
  shows "pl_recurrence t = pl_recurrence (hd targets)"
    and "val (dec_of_string dc (pl_vatRatePercent t)) = val vat"
  using assms(2,3)
  by (simp_all add: check_homogeneous_def Let_def list_ex_iff decimal_lawsD(12) [OF assms(1)]
      split: if_splits)

lemma discount_line_bounded:
  assumes "decimal_laws dc val rnd" "distinct priced"
    and "\<And>t. t \<in> set priced \<Longrightarrow> 0 \<le> pl_totalHtCents t" "sum_list (map pl_totalHtCents priced) < 10 ^ 40"
    and "price_discount_line dc line schedLines priced ctx = Inr p"
  shows "\<exists>targets. set targets \<subseteq> set priced \<and> discount_of dc val line targets p"
proof -
  obtain d vat targets v exact where s: "parse_vat dc line = Inr vat"
      "discount_targets line schedLines priced d = Inr targets"
      "check_homogeneous dc line vat targets = Inr ()"
      "discount_amount dc line d (cents_to_euros dc (sum_list (map pl_totalHtCents targets))) = Inr (v, exact)"
      "pl_totalHtCents p = to_cents dc exact (st_rounding (cx_settings ctx))"
      "pl_recurrence p = pl_recurrence (hd targets)"
    using assms(5)
    by (auto simp: price_discount_line_def ebind_Inr_iff Let_def split: option.splits if_splits)
  note t = discount_targets_Inr [OF s(2) assms(2)]
  let ?B = "sum_list (map pl_totalHtCents targets)"
  have B: "0 \<le> ?B" "?B < 10 ^ 40"
    using t assms(3,4) sum_list_sub [OF t(3,2), of pl_totalHtCents]
    by (force intro: sum_list_nonneg)+
  obtain y where y: "val exact = - y" "0 \<le> y" "y \<le> of_int ?B / 100"
    using discount_amount_bounded [OF assms(1) B s(4)] .
  have "dec_of_string dc (ln_vatRatePercent line) = vat"
    using s(1) by (auto simp: parse_vat_def parse_decimal_def ebind_Inr_iff split: option.splits if_splits)
  then have "list_all (\<lambda>t. pl_recurrence t = pl_recurrence p
      \<and> val (dec_of_string dc (pl_vatRatePercent t)) = val (dec_of_string dc (ln_vatRatePercent line))) targets"
    using check_homogeneous_Inr [OF assms(1) s(3)] s(6) by (simp add: list_all_iff)
  then show ?thesis
    using to_cents_discount [OF assms(1) y B] t(1,2)
    unfolding discount_of_def s(5) by (intro exI [of _ targets]) simp
qed

subsection \<open>The priced schedule\<close>

lemma regular_line_fields:
  "price_regular_line dc line ctx = Inr p \<Longrightarrow> pl_lineId p = ln_id line \<and> pl_kind p = ln_kind line"
  by (auto simp: price_regular_line_def ebind_Inr_iff Let_def)

lemma discount_line_fields:
  "price_discount_line dc line schedLines priced ctx = Inr p \<Longrightarrow>
     pl_lineId p = ln_id line \<and> pl_kind p = DISCOUNT"
  by (auto simp: price_discount_line_def ebind_Inr_iff Let_def split: option.splits if_splits)

lemma with_line_of_Inr [simp]: "with_line_of line r = Inr p \<longleftrightarrow> r = Inr p"
  by (cases r) (simp_all add: with_line_of_def)

lemma check_line_ids_Inr:
  "check_line_ids seen ls = Inr u \<longleftrightarrow> distinct (map ln_id ls) \<and> set seen \<inter> ln_id ` set ls = {}"
  by (induction ls arbitrary: seen) auto

lemma priced_get_distinct:
  "distinct (map pl_lineId ps) \<Longrightarrow> p \<in> set ps \<Longrightarrow> priced_get ps (pl_lineId p) = Some p"
  unfolding priced_get_def by (induction ps) auto

lemma emap_line_ids:
  assumes "emap f ls = Inr ps" "\<And>l p. f l = Inr p \<Longrightarrow> pl_lineId p = ln_id l"
  shows "map pl_lineId ps = map ln_id ls"
  using assms(1) by (induction ls arbitrary: ps) (auto simp: ebind_Inr_iff dest: assms(2))

definition line_priced ::
    "'d decimal_ops \<Rightarrow> pricing_line list \<Rightarrow> priced_line list \<Rightarrow> 'd pricing_ctx \<Rightarrow> pricing_line
     \<Rightarrow> priced_line priced" where
  "line_priced dc schedLines priced ctx l =
     (if ln_kind l \<noteq> DISCOUNT then price_regular_line dc l ctx
      else price_discount_line dc l schedLines priced ctx)"

lemma line_priced_fields:
  "line_priced dc schedLines priced ctx l = Inr p \<Longrightarrow> pl_lineId p = ln_id l \<and> pl_kind p = ln_kind l"
  using regular_line_fields [of dc l ctx p] discount_line_fields [of dc l schedLines priced ctx p]
  by (auto simp: line_priced_def split: if_splits)

lemma price_lines_Inr:
  assumes "price_lines dc schedule ctx = Inr lines" "distinct (map ln_id (sd_lines schedule))"
  obtains priced where
    "list_all2 (\<lambda>l p. line_priced dc (sd_lines schedule) priced ctx l = Inr p) (sd_lines schedule) lines"
    "set priced = {p \<in> set lines. pl_kind p \<noteq> DISCOUNT}" "distinct priced"
    "\<And>p. p \<in> set priced \<Longrightarrow> \<exists>l. price_regular_line dc l ctx = Inr p"
proof -
  let ?ls = "sd_lines schedule"
  let ?reg = "filter (\<lambda>l. ln_kind l \<noteq> DISCOUNT) ?ls" and ?disc = "filter (\<lambda>l. ln_kind l = DISCOUNT) ?ls"
  obtain priced discounts where p:
      "emap (\<lambda>l. with_line_of l (price_regular_line dc l ctx)) ?reg = Inr priced"
    and d: "emap (\<lambda>l. with_line_of l (price_discount_line dc l ?ls priced ctx)) ?disc = Inr discounts"
    and lines: "lines = map (\<lambda>l. the (priced_get (priced @ discounts) (ln_id l))) ?ls"
    using assms(1) by (auto simp: price_lines_def ebind_Inr_iff)
  have ids: "map pl_lineId priced = map ln_id ?reg" "map pl_lineId discounts = map ln_id ?disc"
    by (rule emap_line_ids [OF p], simp add: regular_line_fields)
      (rule emap_line_ids [OF d], simp add: discount_line_fields)
  have "distinct (map ln_id (?reg @ ?disc))"
    using assms(2) by (auto simp: distinct_map_filter distinct_map inj_on_def)
  then have dist: "distinct (map pl_lineId (priced @ discounts))" using ids by simp
  have get: "line_priced dc ?ls priced ctx l = Inr (the (priced_get (priced @ discounts) (ln_id l)))"
    if l: "l \<in> set ?ls" for l
  proof -
    have "\<exists>q \<in> set (priced @ discounts). line_priced dc ?ls priced ctx l = Inr q"
      using emap_of_set [OF p, of l] emap_of_set [OF d, of l] l
      by (cases "ln_kind l = DISCOUNT") (auto simp: line_priced_def)
    then show ?thesis using line_priced_fields priced_get_distinct [OF dist] by fastforce
  qed
  have kinds: "\<And>q. q \<in> set priced \<Longrightarrow> \<exists>l \<in> set ?reg. price_regular_line dc l ctx = Inr q"
    using emap_in_set [OF p] by auto
  show thesis
  proof (rule that)
    show all: "list_all2 (\<lambda>l p. line_priced dc ?ls priced ctx l = Inr p) ?ls lines"
      unfolding lines by (simp add: list.rel_map list.rel_refl_strong get)
    show "distinct priced" using dist by (simp add: distinct_map)
    show "\<exists>l. price_regular_line dc l ctx = Inr p" if "p \<in> set priced" for p using kinds [OF that] by blast
    show "set priced = {p \<in> set lines. pl_kind p \<noteq> DISCOUNT}"
    proof (intro set_eqI iffI)
      fix q assume "q \<in> set priced"
      then obtain l where l: "l \<in> set ?reg" "price_regular_line dc l ctx = Inr q" using kinds by blast
      then have "q = the (priced_get (priced @ discounts) (ln_id l))"
        using get [of l] by (simp add: line_priced_def)
      with l show "q \<in> {p \<in> set lines. pl_kind p \<noteq> DISCOUNT}"
        using regular_line_fields [OF l(2)] by (auto simp: lines)
    next
      fix q assume q: "q \<in> {p \<in> set lines. pl_kind p \<noteq> DISCOUNT}"
      then obtain l where l: "l \<in> set ?ls" "line_priced dc ?ls priced ctx l = Inr q"
        using get by (auto simp: lines)
      then have "ln_kind l \<noteq> DISCOUNT" using q line_priced_fields by fastforce
      then show "q \<in> set priced"
        using emap_of_set [OF p, of l] l by (auto simp: line_priced_def)
    qed
  qed
qed

lemma price_at_Inr:
  assumes "price_at dc input date = Inr res"
  obtains schedule settings where "select_schedule (in_schedules input) date = Inr schedule"
    "distinct (map ln_id (sd_lines schedule))"
    "price_lines dc schedule (context_of dc input date settings) = Inr (pr_lines res)"
    "pr_totals res = compute_totals dc (pr_lines res) settings"
    "resolve_settings dc (in_settings input) = Inr settings"
  using assms
  by (auto simp: price_at_def ebind_Inr_iff check_line_ids_Inr split: if_splits)

text \<open>C6: the amounts of a priced schedule. There is one priced line for each line of the schedule in force,
  in the same order, with its identifier and kind. No regular line is billed negatively, whatever its
  tiers, formula, index revision, cascade of discounts and override, and through every rounding;
  a discount line is never positive, never exceeds the regular lines it applies to, and has
  their recurrence and their VAT rate.\<close>

theorem priced_amounts_bounded:
  assumes "decimal_laws dc val rnd" "price_at dc input date = Inr res"
    and "sum_list (map pl_totalHtCents (filter (\<lambda>p. pl_kind p \<noteq> DISCOUNT) (pr_lines res))) < 10 ^ 40"
  shows "\<exists>schedule. select_schedule (in_schedules input) date = Inr schedule
    \<and> distinct (map ln_id (sd_lines schedule))
    \<and> list_all2 (\<lambda>l p. pl_lineId p = ln_id l \<and> pl_kind p = ln_kind l
        \<and> (if ln_kind l \<noteq> DISCOUNT then 0 \<le> pl_totalHtCents p
           else \<exists>targets. set targets \<subseteq> {t \<in> set (pr_lines res). pl_kind t \<noteq> DISCOUNT}
                  \<and> discount_of dc val l targets p))
        (sd_lines schedule) (pr_lines res)"
proof -
  obtain schedule settings where s: "select_schedule (in_schedules input) date = Inr schedule"
      "distinct (map ln_id (sd_lines schedule))"
      "price_lines dc schedule (context_of dc input date settings) = Inr (pr_lines res)"
    using price_at_Inr [OF assms(2)] .
  obtain priced where p: "list_all2 (\<lambda>l p. line_priced dc (sd_lines schedule) priced
        (context_of dc input date settings) l = Inr p) (sd_lines schedule) (pr_lines res)"
      "set priced = {p \<in> set (pr_lines res). pl_kind p \<noteq> DISCOUNT}" "distinct priced"
      "\<And>p. p \<in> set priced \<Longrightarrow> \<exists>l. price_regular_line dc l (context_of dc input date settings) = Inr p"
    using price_lines_Inr [OF s(3,2)] by blast
  have pos: "0 \<le> pl_totalHtCents t" if "t \<in> set priced" for t
    using p(4) [OF that] regular_total_nonneg [OF assms(1)] by blast
  have "sum_list (map pl_totalHtCents priced)
        \<le> sum_list (map pl_totalHtCents (filter (\<lambda>p. pl_kind p \<noteq> DISCOUNT) (pr_lines res)))"
    using p(2) by (intro sum_list_sub p(3)) (auto intro: pos)
  then have small: "sum_list (map pl_totalHtCents priced) < 10 ^ 40" using assms(3) by linarith
  have each: "pl_lineId q = ln_id l \<and> pl_kind q = ln_kind l
        \<and> (if ln_kind l \<noteq> DISCOUNT then 0 \<le> pl_totalHtCents q
           else \<exists>targets. set targets \<subseteq> {t \<in> set (pr_lines res). pl_kind t \<noteq> DISCOUNT}
                  \<and> discount_of dc val l targets q)"
    if q: "line_priced dc (sd_lines schedule) priced (context_of dc input date settings) l = Inr q" for l q
  proof (cases "ln_kind l = DISCOUNT")
    case True
    then have "price_discount_line dc l (sd_lines schedule) priced
        (context_of dc input date settings) = Inr q"
      using q by (simp add: line_priced_def)
    from discount_line_bounded [OF assms(1) p(3) pos small this] show ?thesis
      using line_priced_fields [OF q] True unfolding p(2) by simp
  next
    case False
    then show ?thesis
      using line_priced_fields [OF q] q regular_total_nonneg [OF assms(1)] by (simp add: line_priced_def)
  qed
  show ?thesis
    by (rule exI [of _ schedule], rule conjI [OF s(1)], rule conjI [OF s(2)],
        rule list_all2_mono [OF p(1)], rule each)
qed

subsection \<open>Example\<close>

text \<open>Three seats at 30, and ten percent off.\<close>

definition rebate_line :: pricing_line where
  "rebate_line =
     seats_line\<lparr>ln_id := ''L2'', ln_code := ''REMISE'', ln_kind := DISCOUNT, ln_quantity := None,
       ln_unitPrice := None,
       ln_discount := Some \<lparr>ds_type = PERCENT, ds_value = ''10'', ds_appliesTo = SUBTOTAL\<rparr>\<rparr>"

definition sample_schedule :: pricing_schedule where
  "sample_schedule =
     seats_schedule\<lparr>sd_lines := [seats_line\<lparr>ln_quantity := Some (FIXED ''3'')\<rparr>, rebate_line]\<rparr>"

definition sample_input :: pricing_input where
  "sample_input =
     \<lparr>in_schedules = [sample_schedule], in_indexes = [], in_overrides = [], in_quantities = [],
      in_ruleCatalog = None, in_settings = None, in_commitmentMonths = None\<rparr>"

lemma sample_reads:
  "parse_iso_date ''2025-06-15'' = Inr ''2025-06-15''"
  "resolve_settings rat_ops None = Inr DEFAULT_PRICING_SETTINGS"
  "select_schedule [sample_schedule] ''2025-06-15'' = Inr sample_schedule"
  "parse_decimal rat_ops ''20'' 4 False = Inr 20" "parse_decimal rat_ops ''10'' 4 False = Inr 10"
  "parse_price rat_ops ''3'' = Inr 3" "parse_price rat_ops ''30'' = Inr 30"
  "dec_of_string rat_ops (dec_to_string rat_ops 20) = 20"
  by code_simp+

lemmas price_line_defs = price_regular_line_def parse_vat_def resolve_recurrence_def check_line_def
  resolve_quantity_def line_base_price_def manual_price_def apply_revision_def
  apply_adjustments_def round_unit_price_def apply_override_def hour_pack_step_def exact_total_def
  select_override_def

lemma rat_ops_simps:
  "dec_of_int rat_ops = rat_of_int" "dec_times rat_ops = (*)" "dec_div rat_ops = (/)"
  "dec_neg rat_ops = uminus" "dec_lt rat_ops = (<)" "dec_eq rat_ops = (=)"
  "dec_to_places rat_ops = rat_round" "dec_int rat_ops = floor"
  by (auto simp: rat_ops_def)

lemma sample_regular:
  "\<exists>p. price_regular_line rat_ops (seats_line\<lparr>ln_quantity := Some (FIXED ''3'')\<rparr>)
        (context_of rat_ops sample_input ''2025-06-15'' DEFAULT_PRICING_SETTINGS) = Inr p
     \<and> pl_totalHtCents p = 9000 \<and> pl_recurrence p = MONTHLY \<and> pl_lineId p = ''L1'' \<and> pl_kind p = UNIT
     \<and> pl_vatRatePercent p = dec_to_string rat_ops 20"
  by (simp add: price_line_defs seats_line_def sample_reads context_of_def sample_input_def
      overrides_of_def Let_def rat_ops_simps to_cents_def rat_round_def half_round_def
      round_to_scale_def)

lemma sample_priced:
  "\<exists>res. price_at rat_ops sample_input ''2025-06-15'' = Inr res
     \<and> map pl_totalHtCents (pr_lines res) = [9000, - 900]
     \<and> map pl_kind (pr_lines res) = [UNIT, DISCOUNT]"
proof -
  obtain p where p: "price_regular_line rat_ops (seats_line\<lparr>ln_quantity := Some (FIXED ''3'')\<rparr>)
        (context_of rat_ops sample_input ''2025-06-15'' DEFAULT_PRICING_SETTINGS) = Inr p"
      "pl_totalHtCents p = 9000" "pl_recurrence p = MONTHLY" "pl_lineId p = ''L1''" "pl_kind p = UNIT"
      "pl_vatRatePercent p = dec_to_string rat_ops 20"
    using sample_regular by (elim exE conjE)
  have in_simps: "in_schedules sample_input = [sample_schedule]" "in_settings sample_input = None"
    by (simp_all add: sample_input_def)
  have lines: "sd_lines sample_schedule = [seats_line\<lparr>ln_quantity := Some (FIXED ''3'')\<rparr>, rebate_line]"
      "sd_currency sample_schedule = ''EUR''"
    by (simp_all add: sample_schedule_def seats_schedule_def)
  have seats: "ln_id seats_line = ''L1''" "ln_kind seats_line = UNIT"
    by (simp_all add: seats_line_def)
  have "\<exists>d. price_discount_line rat_ops rebate_line (sd_lines sample_schedule) [p]
        (context_of rat_ops sample_input ''2025-06-15'' DEFAULT_PRICING_SETTINGS) = Inr d
        \<and> pl_totalHtCents d = - 900 \<and> pl_lineId d = ''L2'' \<and> pl_kind d = DISCOUNT"
    by (simp add: price_discount_line_def rebate_line_def seats_line_def parse_vat_def sample_reads
        discount_targets_def check_homogeneous_def discount_amount_def p Let_def rat_ops_simps
        cents_to_euros_def to_cents_def rat_round_def half_round_def)
  then obtain d where d: "price_discount_line rat_ops rebate_line (sd_lines sample_schedule) [p]
        (context_of rat_ops sample_input ''2025-06-15'' DEFAULT_PRICING_SETTINGS) = Inr d"
      "pl_totalHtCents d = - 900" "pl_lineId d = ''L2''" "pl_kind d = DISCOUNT"
    by (elim exE conjE)
  have rebate: "ln_id rebate_line = ''L2''" "ln_kind rebate_line = DISCOUNT"
    by (simp_all add: rebate_line_def)
  show ?thesis
    using d(1)
    by (simp add: price_at_def in_simps sample_reads lines seats rebate invalid_line_def
        price_lines_def with_line_of_def p d priced_get_def)
qed

theorem priced_amounts_bounded_witness:
  "\<exists>res. price_at rat_ops sample_input ''2025-06-15'' = Inr res
     \<and> (\<exists>schedule. select_schedule (in_schedules sample_input) ''2025-06-15'' = Inr schedule
          \<and> distinct (map ln_id (sd_lines schedule)))"
proof -
  obtain res where r: "price_at rat_ops sample_input ''2025-06-15'' = Inr res"
      "map pl_totalHtCents (pr_lines res) = [9000, - 900]"
      "map pl_kind (pr_lines res) = [UNIT, DISCOUNT]"
    using sample_priced by (elim exE conjE)
  have "sum_list (map pl_totalHtCents (filter (\<lambda>p. pl_kind p \<noteq> DISCOUNT) (pr_lines res))) < 10 ^ 40"
    using r(2,3) by (cases "pr_lines res"; cases "tl (pr_lines res)") auto
  from priced_amounts_bounded [OF rat_laws r(1) this] show ?thesis
    using r(1) by (elim exE conjE) (intro exI conjI)
qed

end
