(* ===== verification/PriceTotals.thy ===== *)
theory PriceTotals
  imports PriceBounds
begin

text \<open>
  The totals of \<open>computeTotals\<close>: they add up, the VAT is broken down by rate and rounded once per rate,
  and the monthly and yearly recurring amounts agree up to the cent that is rounded.
\<close>

subsection \<open>Groups by rate\<close>

definition rate_key :: "'d decimal_ops \<Rightarrow> priced_line \<Rightarrow> string" where
  "rate_key dc l = dec_to_string dc (dec_of_string dc (pl_vatRatePercent l))"

definition key_cents :: "'d decimal_ops \<Rightarrow> string \<Rightarrow> priced_line list \<Rightarrow> int" where
  "key_cents dc k lines = sum_list (map pl_totalHtCents (filter (\<lambda>l. rate_key dc l = k) lines))"

lemma map_of_add_to_rate:
  "map_of (add_to_rate key rate cents gs)
     = (map_of gs)(key \<mapsto> (rate, cents + (case map_of gs key of None \<Rightarrow> 0 | Some (r, b) \<Rightarrow> b)))"
  by (induction key rate cents gs rule: add_to_rate.induct) (auto split: option.splits)

lemma keys_add_to_rate:
  "set (map fst (add_to_rate key rate cents gs)) = insert key (set (map fst gs))"
  by (induction key rate cents gs rule: add_to_rate.induct) auto

lemma distinct_add_to_rate:
  "distinct (map fst gs) \<Longrightarrow> distinct (map fst (add_to_rate key rate cents gs))"
proof (induction key rate cents gs rule: add_to_rate.induct)
  case (2 key rate cents k r base gs)
  then show ?case using keys_add_to_rate [of key rate cents gs] by (auto simp del: set_map)
qed simp

lemma sum_add_to_rate:
  "sum_list (map (\<lambda>g. snd (snd g)) (add_to_rate key rate cents gs)) = cents + sum_list (map (\<lambda>g. snd (snd g)) gs)"
  by (induction key rate cents gs rule: add_to_rate.induct) auto

lemma by_rate_snoc:
  "by_rate dc (ls @ [l]) = add_to_rate (rate_key dc l) (dec_of_string dc (pl_vatRatePercent l))
     (pl_totalHtCents l) (by_rate dc ls)"
  by (simp add: by_rate_def rate_key_def Let_def)

lemma by_rate_Nil [simp]: "by_rate dc [] = []"
  by (simp add: by_rate_def)

lemma distinct_by_rate:
  "distinct (map fst (by_rate dc ls))" "fst ` set (by_rate dc ls) = rate_key dc ` set ls"
  by (induction ls rule: rev_induct)
    (simp_all add: by_rate_snoc distinct_add_to_rate keys_add_to_rate [unfolded set_map])

lemma sum_by_rate: "sum_list (map (\<lambda>g. snd (snd g)) (by_rate dc ls)) = sum_list (map pl_totalHtCents ls)"
  by (induction ls rule: rev_induct) (simp_all add: by_rate_snoc sum_add_to_rate)

lemma map_of_by_rate:
  "map_of (by_rate dc ls) k = Some (r, b) \<Longrightarrow>
     b = key_cents dc k ls \<and> (\<exists>l \<in> set ls. rate_key dc l = k \<and> r = dec_of_string dc (pl_vatRatePercent l))"
proof (induction ls arbitrary: r b rule: rev_induct)
  case (snoc l ls)
  have none: "key_cents dc k ls = 0" if "map_of (by_rate dc ls) k = None"
  proof -
    have "k \<notin> rate_key dc ` set ls"
      using that distinct_by_rate(2) [of dc ls] by (simp add: map_of_eq_None_iff)
    then have "filter (\<lambda>l. rate_key dc l = k) ls = []" by (auto simp: filter_empty_conv)
    then show ?thesis by (simp add: key_cents_def)
  qed
  show ?case
    using snoc none
    by (auto simp: by_rate_snoc map_of_add_to_rate key_cents_def split: if_splits option.splits)
qed simp

lemma by_rate_member:
  "(k, r, b) \<in> set (by_rate dc ls) \<Longrightarrow>
     b = key_cents dc k ls \<and> dec_to_string dc r = k
     \<and> (\<exists>l \<in> set ls. r = dec_of_string dc (pl_vatRatePercent l))"
  using map_of_by_rate [of dc ls k r b] distinct_by_rate(1) [of dc ls]
  by (auto simp: map_of_eq_Some_iff rate_key_def)

subsection \<open>Sorted by rate\<close>

lemma mset_insert_rate: "mset (insert_rate dc g hs) = add_mset g (mset hs)"
  by (induction hs) auto

lemma mset_sort_rates: "mset (sort_rates dc gs) = mset gs"
  by (induction gs rule: rev_induct) (simp_all add: sort_rates_def mset_insert_rate)

lemma sorted_insert_rate:
  assumes "decimal_laws dc val rnd"
  shows "sorted (map (\<lambda>g. val (fst (snd g))) hs) \<Longrightarrow>
           sorted (map (\<lambda>h. val (fst (snd h))) (insert_rate dc g hs))"
proof (induction hs)
  case (Cons h hs)
  have "set (insert_rate dc g hs) = insert g (set hs)"
    using mset_insert_rate [of dc g hs] by (metis set_mset_add_mset_insert set_mset_mset)
  with Cons show ?case by (auto simp: decimal_lawsD(4) [OF assms])
qed simp

lemma sorted_sort_rates:
  assumes "decimal_laws dc val rnd"
  shows "sorted (map (\<lambda>g. val (fst (snd g))) (sort_rates dc gs))"
  by (induction gs rule: rev_induct) (simp_all add: sort_rates_def sorted_insert_rate [OF assms])

subsection \<open>The totals add up\<close>

lemma lines_cents_partition:
  "sum_list (map pl_totalHtCents ls)
   = lines_cents (\<lambda>r. r = MONTHLY) ls + lines_cents (\<lambda>r. r = QUARTERLY) ls
     + lines_cents (\<lambda>r. r = YEARLY) ls + lines_cents (\<lambda>r. r \<notin> {MONTHLY, QUARTERLY, YEARLY}) ls"
  by (induction ls) (auto simp: lines_cents_def)

text \<open>The totals of a price add up to the cent: the amount before tax is the sum of the lines, and also
  the sum of the four recurrences and the sum of the bases of the VAT rates; the total with tax adds
  the VAT of every rate; a year is twelve monthly, four quarterly and one yearly amount.\<close>

theorem totals_add_up:
  "let t = compute_totals dc lines settings
   in to_htCents t = sum_list (map pl_totalHtCents lines)
      \<and> to_htCents t = to_monthlyLinesCents t + to_quarterlyLinesCents t + to_yearlyLinesCents t
                       + to_oneOffCents t
      \<and> to_htCents t = sum_list (map vb_baseHtCents (to_vatByRate t))
      \<and> to_ttcCents t = to_htCents t + sum_list (map vb_vatCents (to_vatByRate t))
      \<and> to_annualRecurringCents t
          = 12 * to_monthlyLinesCents t + 4 * to_quarterlyLinesCents t + to_yearlyLinesCents t"
proof -
  have "sum_list (map (\<lambda>g. snd (snd g)) (sort_rates dc (by_rate dc lines))) = sum_list (map pl_totalHtCents lines)"
    unfolding sum_by_rate [of dc lines, symmetric]
    by (simp add: mset_sort_rates flip: sum_mset_sum_list)
  then have "sum_list (map (vb_baseHtCents \<circ> vat_of_rate dc settings) (sort_rates dc (by_rate dc lines)))
      = sum_list (map pl_totalHtCents lines)"
    by (simp add: vat_of_rate_def case_prod_beta o_def)
  then show ?thesis
    using lines_cents_partition [of lines] by (simp add: compute_totals_def Let_def)
qed

subsection \<open>Rounded once\<close>

lemma half_round_close: "\<bar>of_int (half_round mode x) - x\<bar> \<le> 1 / 2"
proof -
  have p: "\<bar>of_int (half_round mode y) - y\<bar> \<le> 1 / 2" if "0 \<le> y" for y
    using that of_int_floor_le [of y] floor_correct [of y]
    by (auto simp: half_round_def Let_def abs_le_iff)
  show ?thesis
    using p [of x] p [of "- x"] by (cases "0 \<le> x") (auto simp: half_round_neg abs_minus_commute)
qed

lemma rnd_close:
  assumes "decimal_laws dc val rnd" "\<bar>x\<bar> \<le> 10 ^ 30"
  shows "\<bar>rnd x - x\<bar> \<le> 1 / 10 ^ 9"
  using decimal_lawsD(19) [OF assms(1), of x] assms(2) by simp

lemma abs_close: "\<bar>a - b\<bar> \<le> e \<Longrightarrow> \<bar>b - c\<bar> \<le> f \<Longrightarrow> \<bar>a - c\<bar> \<le> (e + f :: rat)"
  by linarith

lemma abs_bound: "\<bar>a - b\<bar> \<le> e \<Longrightarrow> \<bar>b\<bar> \<le> f \<Longrightarrow> e + f \<le> g \<Longrightarrow> \<bar>a\<bar> \<le> (g :: rat)"
  by linarith

lemma abs_scale: "\<bar>a - b / 100\<bar> \<le> e \<Longrightarrow> \<bar>a * 100 - b\<bar> \<le> 100 * (e :: rat)"
  by linarith

lemma to_cents_close:
  assumes "decimal_laws dc val rnd" "\<bar>val x\<bar> \<le> 10 ^ 28"
  shows "\<bar>of_int (to_cents dc x mode) - val x * 100\<bar> \<le> 1 / 2 + 1 / 10 ^ 9"
  unfolding to_cents_eq [OF assms(1)]
  by (rule abs_close [OF half_round_close rnd_close [OF assms(1)]]) (use assms(2) in \<open>simp add: abs_mult\<close>)

text \<open>The monthly equivalent is rounded once: twelve times the recurring amount of a month differs from
  the recurring amount of a year by at most six cents (half a cent a month), whatever mix of
  monthly, quarterly and yearly lines, for amounts up to a billion billion euros.\<close>

theorem recurring_normalised:
  assumes "decimal_laws dc val rnd"
    and "\<bar>to_quarterlyLinesCents (compute_totals dc lines settings)\<bar> \<le> 10 ^ 20"
    and "\<bar>to_yearlyLinesCents (compute_totals dc lines settings)\<bar> \<le> 10 ^ 20"
  shows "\<bar>12 * to_monthlyRecurringCents (compute_totals dc lines settings)
           - to_annualRecurringCents (compute_totals dc lines settings)\<bar> \<le> 6"
proof -
  define Q Y where "Q = lines_cents (\<lambda>r. r = QUARTERLY) lines" and "Y = lines_cents (\<lambda>r. r = YEARLY) lines"
  have big: "\<bar>Q\<bar> \<le> 10 ^ 20" "\<bar>Y\<bar> \<le> 10 ^ 20"
    using assms(2,3) by (simp_all add: compute_totals_def Let_def Q_def Y_def)
  define q y :: rat where "q = of_int Q" and "y = of_int Y"
  have qy: "\<bar>q\<bar> \<le> 10 ^ 20" "\<bar>y\<bar> \<le> 10 ^ 20"
    using big unfolding q_def y_def by (metis of_int_abs of_int_le_iff of_int_numeral of_int_power)+
  define b where "b = rnd (q / 300)"
  define c where "c = rnd (y / 1200)"
  define d where "d = rnd (b + c)"
  define x where "x = dec_plus dc (dec_div dc (cents_to_euros dc Q) (dec_of_int dc 3))
                        (dec_div dc (cents_to_euros dc Y) (dec_of_int dc 12))"
  have v: "val (cents_to_euros dc Q) = q / 100" "val (cents_to_euros dc Y) = y / 100"
    using val_cents_to_euros [OF assms(1)] big by (simp_all add: q_def y_def)
  have x: "val x = d"
    by (simp add: x_def b_def c_def d_def decimal_lawsD [OF assms(1)] v)
  have e: "\<bar>b - q / 300\<bar> \<le> 1 / 10 ^ 9" "\<bar>c - y / 1200\<bar> \<le> 1 / 10 ^ 9"
    using qy unfolding b_def c_def by (intro rnd_close [OF assms(1)]; simp)+
  have "\<bar>b\<bar> \<le> 10 ^ 21" "\<bar>c\<bar> \<le> 10 ^ 21"
    using qy by (auto intro!: abs_bound [OF e(1)] abs_bound [OF e(2)])
  then have "\<bar>b + c\<bar> \<le> 10 ^ 27" using abs_triangle_ineq [of b c] by simp
  then have f: "\<bar>d - (b + c)\<bar> \<le> 1 / 10 ^ 9" "\<bar>d\<bar> \<le> 10 ^ 28"
    using rnd_close [OF assms(1), of "b + c"] abs_bound [of d "b + c" "1 / 10 ^ 9" "10 ^ 27" "10 ^ 28"]
    unfolding d_def by simp_all
  define m where "m = to_cents dc x (st_rounding settings)"
  have "\<bar>of_int m - d * 100\<bar> \<le> 1 / 2 + 1 / 10 ^ 9"
    using to_cents_close [OF assms(1), of x "st_rounding settings"] f(2) by (simp add: m_def x)
  then have "\<bar>of_int m - d * 100\<bar> \<le> 51 / 100" by simp
  moreover have "\<bar>d - (b + c)\<bar> \<le> 1 / 10000" "\<bar>b - q / 300\<bar> \<le> 1 / 10000" "\<bar>c - y / 1200\<bar> \<le> 1 / 10000"
    using e f(1) by simp_all
  ultimately have "\<bar>12 * of_int m - (4 * q + y)\<bar> < 7" by linarith
  then have "\<bar>of_int (12 * m - (4 * Q + Y))\<bar> < (7 :: rat)" by (simp add: q_def y_def)
  then have "\<bar>12 * m - (4 * Q + Y)\<bar> \<le> 6" by linarith
  then show ?thesis
    by (simp add: compute_totals_def Let_def monthly_recurring_def m_def x_def Q_def Y_def algebra_simps)
qed

text \<open>A VAT amount: the base of the rate times the rate, to the cent.\<close>

lemma vat_close:
  assumes "decimal_laws dc val rnd" "\<bar>base\<bar> \<le> 10 ^ 20" "\<bar>val rate\<bar> \<le> 100"
  shows "\<bar>of_int (vb_vatCents (vat_of_rate dc settings (k, rate, base))) - of_int base * val rate / 100\<bar>
         \<le> 1 / 2 + 1 / 10 ^ 6"
proof -
  define b :: rat where "b = of_int base"
  have b: "\<bar>b\<bar> \<le> 10 ^ 20"
    using assms(2) unfolding b_def by (metis of_int_abs of_int_le_iff of_int_numeral of_int_power)
  have v: "val (cents_to_euros dc base) = b / 100"
    using val_cents_to_euros [OF assms(1)] assms(2) by (simp add: b_def)
  define y where "y = rnd (b / 100 * val rate)"
  define z where "z = rnd (y / 100)"
  have "\<bar>b / 100 * val rate\<bar> \<le> 10 ^ 20 / 100 * 100"
    unfolding abs_mult using b assms(3) by (intro mult_mono) simp_all
  then have p: "\<bar>b / 100 * val rate\<bar> \<le> 10 ^ 20" by (simp only: nonzero_divide_mult_cancel_right)
  have e: "\<bar>y - b / 100 * val rate\<bar> \<le> 1 / 10 ^ 9"
    unfolding y_def by (rule rnd_close [OF assms(1) order_trans [OF p]]) simp
  then have "\<bar>y\<bar> \<le> 10 ^ 21" by (auto intro!: abs_bound [OF e p])
  then have h: "\<bar>y / 100\<bar> \<le> 10 ^ 19" by simp
  then have f: "\<bar>z - y / 100\<bar> \<le> 1 / 10 ^ 9"
    unfolding z_def by (intro rnd_close [OF assms(1) order_trans [OF h]]) simp
  have "\<bar>z\<bar> \<le> 10 ^ 28" by (rule abs_bound [OF f h]) simp
  define exact where "exact = dec_div dc (dec_times dc (cents_to_euros dc base) rate) (dec_of_int dc 100)"
  have x: "val exact = z"
    by (simp add: exact_def z_def y_def decimal_lawsD [OF assms(1)] v)
  have "\<bar>of_int (vb_vatCents (vat_of_rate dc settings (k, rate, base))) - z * 100\<bar>
      \<le> 1 / 2 + 1 / 10 ^ 9"
    using to_cents_close [OF assms(1), of exact "st_rounding settings", unfolded x] \<open>\<bar>z\<bar> \<le> 10 ^ 28\<close>
    by (simp add: vat_of_rate_def exact_def)
  note g = abs_close [OF abs_close [OF this abs_scale [OF f]] e]
  have "\<bar>of_int (vb_vatCents (vat_of_rate dc settings (k, rate, base))) - b / 100 * val rate\<bar>
      \<le> 1 / 2 + 1 / 10 ^ 9 + 100 * (1 / 10 ^ 9) + 1 / 10 ^ 9"
    by (rule g)
  then show ?thesis unfolding b_def by simp
qed

text \<open>C19: the VAT is computed rate by rate: there is one entry for each rate of the lines and no other, in
  increasing order of the rates; its base is the sum of the lines of that rate; and its VAT is the
  base times the rate, rounded to the cent once (within half a cent, and a millionth for the
  decimal arithmetic).\<close>

theorem vat_by_rate_correct:
  assumes "decimal_laws dc val rnd"
    and "\<And>l. l \<in> set lines \<Longrightarrow> \<bar>val (dec_of_string dc (pl_vatRatePercent l))\<bar> \<le> 100"
    and "\<And>k. \<bar>key_cents dc k lines\<bar> \<le> 10 ^ 20"
  shows "\<exists>rates. sorted (map val rates) \<and> distinct (map (dec_to_string dc) rates)
    \<and> set (map (dec_to_string dc) rates) = set (map (rate_key dc) lines)
    \<and> list_all2 (\<lambda>rate v. vb_ratePercent v = dec_to_string dc rate
        \<and> vb_baseHtCents v = key_cents dc (vb_ratePercent v) lines
        \<and> \<bar>of_int (vb_vatCents v) - of_int (vb_baseHtCents v) * val rate / 100\<bar> \<le> 1 / 2 + 1 / 10 ^ 6)
      rates (to_vatByRate (compute_totals dc lines settings))"
proof -
  define gs where "gs = sort_rates dc (by_rate dc lines)"
  have m: "mset gs = mset (by_rate dc lines)" by (simp add: gs_def mset_sort_rates)
  then have mem: "set gs = set (by_rate dc lines)" by (metis set_mset_mset)
  have keys: "dec_to_string dc (fst (snd g)) = fst g \<and> snd (snd g) = key_cents dc (fst g) lines
      \<and> \<bar>val (fst (snd g))\<bar> \<le> 100" if "g \<in> set gs" for g
    using by_rate_member [of "fst g" "fst (snd g)" "snd (snd g)" dc lines] that assms(2)
    unfolding mem by auto
  have ks: "map (dec_to_string dc) (map (\<lambda>g. fst (snd g)) gs) = map fst gs"
    using keys by simp
  have "mset (map fst gs) = mset (map fst (by_rate dc lines))" using m by simp
  then have d: "distinct (map fst gs)" "set (map fst gs) = set (map (rate_key dc) lines)"
    using distinct_by_rate [of dc lines] mset_eq_imp_distinct_iff mem by (blast, simp)
  have each: "vb_ratePercent v = dec_to_string dc (fst (snd g))
      \<and> vb_baseHtCents v = key_cents dc (vb_ratePercent v) lines
      \<and> \<bar>of_int (vb_vatCents v) - of_int (vb_baseHtCents v) * val (fst (snd g)) / 100\<bar> \<le> 1 / 2 + 1 / 10 ^ 6"
    if "g \<in> set gs" "v = vat_of_rate dc settings g" for g v
    using vat_close [OF assms(1), of "snd (snd g)" "fst (snd g)" settings "fst g"] keys [OF that(1)]
      assms(3) [of "fst g"] that(2)
    by (simp add: vat_of_rate_def case_prod_beta)
  have t: "to_vatByRate (compute_totals dc lines settings) = map (vat_of_rate dc settings) gs"
    by (simp add: compute_totals_def Let_def gs_def)
  have "list_all2 (\<lambda>rate v. vb_ratePercent v = dec_to_string dc rate
        \<and> vb_baseHtCents v = key_cents dc (vb_ratePercent v) lines
        \<and> \<bar>of_int (vb_vatCents v) - of_int (vb_baseHtCents v) * val rate / 100\<bar> \<le> 1 / 2 + 1 / 10 ^ 6)
      (map (\<lambda>g. fst (snd g)) gs) (to_vatByRate (compute_totals dc lines settings))"
    unfolding t list_all2_map1 list_all2_map2 by (rule list.rel_refl_strong) (rule each [OF _ refl])
  moreover have "sorted (map val (map (\<lambda>g. fst (snd g)) gs))"
    using sorted_sort_rates [OF assms(1), of "by_rate dc lines"] by (simp add: gs_def o_def)
  ultimately show ?thesis using d unfolding ks [symmetric] by blast
qed

subsection \<open>Examples\<close>

definition yearly_line :: priced_line where
  "yearly_line =
     \<lparr>pl_lineId = ''L1'', pl_code = ''F'', pl_label = ''Forfait'', pl_unit = ''an'',
      pl_kind = FLAT_YEARLY, pl_mode = MANUAL, pl_recurrence = YEARLY, pl_quantity = ''1'',
      pl_unitPrice = ''1.00'', pl_vatRatePercent = ''20'', pl_totalHtCents = 100, pl_trace = []\<rparr>"

theorem recurring_normalised_witness:
  "\<bar>12 * to_monthlyRecurringCents (compute_totals rat_ops [yearly_line] DEFAULT_PRICING_SETTINGS)
     - to_annualRecurringCents (compute_totals rat_ops [yearly_line] DEFAULT_PRICING_SETTINGS)\<bar> \<le> 6"
  by (rule recurring_normalised [OF rat_laws])
    (simp_all add: compute_totals_def Let_def lines_cents_def yearly_line_def)

lemma yearly_rate: "dec_of_string rat_ops ''20'' = 20"
  by code_simp

theorem vat_by_rate_correct_witness:
  "\<exists>rates. sorted (map id rates) \<and> distinct (map (dec_to_string rat_ops) rates)
    \<and> set (map (dec_to_string rat_ops) rates) = set (map (rate_key rat_ops) [yearly_line])"
proof -
  have "\<bar>id (dec_of_string rat_ops (pl_vatRatePercent l))\<bar> \<le> 100" if "l \<in> set [yearly_line]" for l
    using that by (simp add: yearly_line_def yearly_rate)
  moreover have "\<bar>key_cents rat_ops k [yearly_line]\<bar> \<le> 10 ^ 20" for k
    by (simp add: key_cents_def yearly_line_def)
  ultimately show ?thesis using vat_by_rate_correct [OF rat_laws, of "[yearly_line]"] by blast
qed

end
