(* ===== verification/PriceQuantities.thy ===== *)
theory PriceQuantities
  imports PriceAt
begin

text \<open>
  The composition the comment of \<open>quantity.ts\<close> asks for: \<open>resolveQuantities\<close> first, \<open>priceAt\<close> with its
  answer next. The quantity of a line is then the one its provider gave.
\<close>

lemma find_distinct:
  "distinct (map f xs) \<Longrightarrow> x \<in> set xs \<Longrightarrow> List.find (\<lambda>y. f y = f x) xs = Some x"
  by (induction xs) auto

definition article_of :: "pricing_line \<Rightarrow> string" where
  "article_of line =
     (case ln_quantity line of Some (PROVIDER (Some a)) \<Rightarrow> a | _ \<Rightarrow> ln_code line)"

lemma resolved_line:
  assumes "resolve_line_quantity dc provider contractRef date line = Inr qs" "needs_provider line"
  obtains obs q where "provider contractRef (article_of line) date = Inr obs"
    "parse_price dc (qo_quantity obs) = Inr q"
    "qs = [\<lparr>rq_lineId = ln_id line, rq_quantity = qo_quantity obs,
             rq_source = qo_source obs, rq_observedAt = qo_observedAt obs\<rparr>]"
  using assms
  by (auto simp: resolve_line_quantity_def needs_provider_def article_of_def Let_def ebind_Inr_iff
      split: option.splits quantity_spec.splits sum.splits)

text \<open>The quantities resolved at a date are the ones priced: in a context that holds them, every
  provider line of the schedule finds its quantity, which is what the provider answered for the
  contract, its article and the date, and the trace names that source. No such line can then
  miss its quantity.\<close>

theorem resolved_quantities_suffice:
  assumes "resolve_quantities dc provider schedules contractRef date = Inr qs"
    and "select_schedule schedules date = Inr schedule"
    and "distinct (map ln_id (sd_lines schedule))"
    and "line \<in> set (sd_lines schedule)" "needs_provider line" "cx_quantities ctx = qs"
  shows "\<exists>obs q. provider contractRef (article_of line) date = Inr obs
    \<and> parse_price dc (qo_quantity obs) = Inr q
    \<and> resolve_quantity dc line ctx
        = Inr (q, [TS_QUANTITY (qo_source obs) (dec_to_string dc q) (qo_observedAt obs)])"
proof -
  obtain qss where e: "emap (resolve_line_quantity dc provider contractRef date) (sd_lines schedule) = Inr qss"
    and qs: "qs = concat qss"
    using assms(1,2) by (auto simp: resolve_quantities_def ebind_Inr_iff)
  obtain rs where r: "rs \<in> set qss" "resolve_line_quantity dc provider contractRef date line = Inr rs"
    using emap_of_set [OF e assms(4)] by blast
  obtain obs q where o: "provider contractRef (article_of line) date = Inr obs"
      "parse_price dc (qo_quantity obs) = Inr q"
      "rs = [\<lparr>rq_lineId = ln_id line, rq_quantity = qo_quantity obs,
               rq_source = qo_source obs, rq_observedAt = qo_observedAt obs\<rparr>]"
    using resolved_line [OF r(2) assms(5)] .
  have "distinct (map rq_lineId qs)"
    using resolve_lines_Inr [OF e] assms(3) by (simp add: qs distinct_map_filter)
  then have "distinct (map rq_lineId (rev qs))" by (simp add: rev_map [symmetric])
  moreover have "hd rs \<in> set (rev qs)" using r(1) o(3) by (auto simp: qs intro!: bexI [of _ rs])
  ultimately have "quantity_of ctx (ln_id line) = Some (hd rs)"
    using find_distinct [of rq_lineId "rev qs" "hd rs"] o(3) by (simp add: quantity_of_def assms(6))
  then have "resolve_quantity dc line ctx
        = Inr (q, [TS_QUANTITY (qo_source obs) (dec_to_string dc q) (qo_observedAt obs)])"
    using assms(5) o(2,3)
    by (auto simp: resolve_quantity_def needs_provider_def split: option.splits quantity_spec.splits)
  with o(1,2) show ?thesis by blast
qed

definition seats_provider :: quantity_provider where
  "seats_provider c a d = Inr \<lparr>qo_quantity = ''42'', qo_source = ''rmm'', qo_observedAt = None\<rparr>"

lemma seats_resolved:
  "resolve_quantities rat_ops seats_provider [seats_schedule] ''C1'' ''2025-06-15''
     = Inr [\<lparr>rq_lineId = ''L1'', rq_quantity = ''42'', rq_source = ''rmm'', rq_observedAt = None\<rparr>]"
  by code_simp

theorem resolved_quantities_suffice_witness:
  "\<exists>obs q. seats_provider ''C1'' (article_of seats_line) ''2025-06-15'' = Inr obs
    \<and> parse_price rat_ops (qo_quantity obs) = Inr q
    \<and> resolve_quantity rat_ops seats_line
        (context_of rat_ops \<lparr>in_schedules = [seats_schedule], in_indexes = [], in_overrides = [],
           in_quantities = [\<lparr>rq_lineId = ''L1'', rq_quantity = ''42'', rq_source = ''rmm'',
                            rq_observedAt = None\<rparr>],
           in_ruleCatalog = None, in_settings = None, in_commitmentMonths = None\<rparr>
          ''2025-06-15'' DEFAULT_PRICING_SETTINGS)
        = Inr (q, [TS_QUANTITY (qo_source obs) (dec_to_string rat_ops q) (qo_observedAt obs)])"
  by (rule resolved_quantities_suffice [OF seats_resolved seats_selected])
    (simp_all add: seats_schedule_def seats_line_def needs_provider_def context_of_def)

end
