(* ===== verification/Simulate.thy ===== *)
theory Simulate
  imports PriceTotals PriceQuantities
begin

text \<open>
  The simulator: \<open>packages/pricing/src/simulate.ts\<close>. It changes a copy of the input (index values,
  quantities, base prices), prices both and compares. \<open>priceAt\<close> is the one of \<open>PriceAt\<close>.
\<close>

subsection \<open>Changes\<close>

record index_change =
  ic_indexCode :: string
  ic_period :: string
  ic_value :: string
  ic_publishedAt :: "string option"

record simulation_changes =
  sc_indexValues :: "index_change list"
  sc_quantities :: "(string \<times> string) list"
  sc_linePrices :: "(string \<times> string) list"

record line_delta =
  dl_lineId :: string
  dl_label :: string
  dl_beforeCents :: "int option"
  dl_afterCents :: "int option"
  dl_deltaCents :: int
  dl_deltaPercent :: "string option"

record totals_delta =
  td_htCents :: int
  td_vatCents :: int
  td_ttcCents :: int
  td_monthlyRecurringCents :: int
  td_annualRecurringCents :: int

record simulation_result =
  sr_before :: pricing_result
  sr_after :: pricing_result
  sr_lineDeltas :: "line_delta list"
  sr_totalsDelta :: totals_delta

text \<open>The first index of a code replaced, which is the one \<open>find\<close> gives.\<close>

fun replace_index :: "price_index \<Rightarrow> price_index list \<Rightarrow> price_index list" where
  "replace_index u [] = []"
| "replace_index u (x # xs) = (if pi_code x = pi_code u then u # xs else x # replace_index u xs)"

definition change_index ::
    "'d decimal_ops \<Rightarrow> price_index list \<Rightarrow> index_change \<Rightarrow> price_index list priced" where
  "change_index dc indexes c =
     ebind (parse_period (ic_period c)) (\<lambda>_.
     ebind (parse_decimal dc (ic_value c) 10 False) (\<lambda>_.
     ebind (parse_iso_date (case ic_publishedAt c of None \<Rightarrow> ic_period c @ ''-01'' | Some p \<Rightarrow> p))
       (\<lambda>publishedAt.
         let existing = List.find (\<lambda>x. pi_code x = ic_indexCode c) indexes;
             new = \<lparr>iv_period = ic_period c, iv_value = ic_value c, iv_publishedAt = publishedAt\<rparr>
         in case existing of
              None \<Rightarrow>
                Inr (indexes @ [\<lparr>pi_code = ic_indexCode c, pi_name = ic_indexCode c, pi_values = [new]\<rparr>])
            | Some x \<Rightarrow>
                Inr (replace_index
                  \<lparr>pi_code = ic_indexCode c, pi_name = pi_name x,
                   pi_values = filter (\<lambda>v. iv_period v \<noteq> ic_period c) (pi_values x) @ [new]\<rparr>
                  indexes))))"

definition unknown_line :: "string \<Rightarrow> pricing_error" where
  "unknown_line lineId = line_error INVALID_LINE lineId"

text \<open>\<open>Map.set\<close>: an insertion-ordered map.\<close>

fun map_set :: "'k \<Rightarrow> 'v \<Rightarrow> ('k \<times> 'v) list \<Rightarrow> ('k \<times> 'v) list" where
  "map_set k v [] = [(k, v)]"
| "map_set k v ((k', v') # xs) = (if k' = k then (k, v) # xs else (k', v') # map_set k v xs)"

definition add_change ::
    "'d decimal_ops \<Rightarrow> string list \<Rightarrow> (string \<times> string) list \<Rightarrow> string \<times> string
     \<Rightarrow> (string \<times> string) list priced" where
  "add_change dc ids changes kv =
     (if fst kv \<notin> set ids then Inl (unknown_line (fst kv))
      else ebind (parse_price dc (snd kv)) (\<lambda>_. Inr (map_set (fst kv) (snd kv) changes)))"

definition change_line ::
    "(string \<times> string) list \<Rightarrow> (string \<times> string) list \<Rightarrow> pricing_line \<Rightarrow> pricing_line priced" where
  "change_line priceChanges quantityChanges l =
     ebind (case map_of priceChanges (ln_id l) of
              None \<Rightarrow> Inr l
            | Some price \<Rightarrow>
                if ln_kind l = TIERED \<or> ln_kind l = DISCOUNT then Inl (line_error INVALID_LINE (ln_id l))
                else Inr (l\<lparr>ln_rule := None, ln_formula := None, ln_mode := MANUAL,
                            ln_unitPrice := Some price\<rparr>)) (\<lambda>out.
       Inr (if map_of quantityChanges (ln_id l) \<noteq> None
            then out\<lparr>ln_quantity := Some (PROVIDER None)\<rparr> else out))"

definition changed_quantities ::
    "resolved_quantity list \<Rightarrow> (string \<times> string) list \<Rightarrow> resolved_quantity list" where
  "changed_quantities quantities quantityChanges =
     filter (\<lambda>q. map_of quantityChanges (rq_lineId q) = None) quantities
     @ map (\<lambda>(lineId, q). \<lparr>rq_lineId = lineId, rq_quantity = q, rq_source = ''simulation'',
                            rq_observedAt = None\<rparr>) quantityChanges"

text \<open>Two versions that are equal cover the same dates: the one selected is the only one equal to it.\<close>

definition apply_changes ::
    "'d decimal_ops \<Rightarrow> pricing_input \<Rightarrow> string \<Rightarrow> simulation_changes \<Rightarrow> pricing_input priced" where
  "apply_changes dc input date changes =
     ebind (select_schedule (in_schedules input) date) (\<lambda>target.
       let ids = map ln_id (sd_lines target) in
       ebind (efold (change_index dc) (in_indexes input) (sc_indexValues changes)) (\<lambda>indexes.
       ebind (efold (add_change dc ids) [] (sc_quantities changes)) (\<lambda>quantityChanges.
       ebind (efold (add_change dc ids) [] (sc_linePrices changes)) (\<lambda>priceChanges.
       ebind (emap (change_line priceChanges quantityChanges) (sd_lines target)) (\<lambda>lines.
         Inr (input\<lparr>in_schedules := map (\<lambda>s. if s = target then s\<lparr>sd_lines := lines\<rparr> else s)
                                        (in_schedules input),
                    in_indexes := indexes,
                    in_quantities := changed_quantities (in_quantities input) quantityChanges\<rparr>))))))"

subsection \<open>Comparison\<close>

definition delta_percent :: "'d decimal_ops \<Rightarrow> int \<Rightarrow> int \<Rightarrow> string option" where
  "delta_percent dc prior delta =
     (if prior = 0 then None
      else Some (dec_to_fixed dc
        (round_to_scale dc
           (dec_times dc (dec_div dc (dec_of_string dc (int_string delta))
              (dec_of_string dc (int_string prior))) (dec_of_int dc 100)) 2 HALF_AWAY_FROM_ZERO) 2))"

definition after_delta :: "'d decimal_ops \<Rightarrow> priced_line list \<Rightarrow> priced_line \<Rightarrow> line_delta" where
  "after_delta dc prior a =
     (let beforeCents = map_option pl_totalHtCents (priced_get (rev prior) (pl_lineId a));
          delta = pl_totalHtCents a - (case beforeCents of None \<Rightarrow> 0 | Some c \<Rightarrow> c)
      in \<lparr>dl_lineId = pl_lineId a, dl_label = pl_label a, dl_beforeCents = beforeCents,
          dl_afterCents = Some (pl_totalHtCents a), dl_deltaCents = delta,
          dl_deltaPercent = (case beforeCents of None \<Rightarrow> None | Some c \<Rightarrow> delta_percent dc c delta)\<rparr>)"

definition gone_delta :: "'d decimal_ops \<Rightarrow> priced_line \<Rightarrow> line_delta" where
  "gone_delta dc b =
     \<lparr>dl_lineId = pl_lineId b, dl_label = pl_label b, dl_beforeCents = Some (pl_totalHtCents b),
      dl_afterCents = None, dl_deltaCents = - pl_totalHtCents b,
      dl_deltaPercent = delta_percent dc (pl_totalHtCents b) (- pl_totalHtCents b)\<rparr>"

definition line_deltas ::
    "'d decimal_ops \<Rightarrow> priced_line list \<Rightarrow> priced_line list \<Rightarrow> line_delta list" where
  "line_deltas dc prior after =
     map (after_delta dc prior) after
     @ map (gone_delta dc) (filter (\<lambda>b. pl_lineId b \<notin> set (map pl_lineId after)) prior)"

definition totals_delta_of :: "pricing_totals \<Rightarrow> pricing_totals \<Rightarrow> totals_delta" where
  "totals_delta_of t0 t1 =
     \<lparr>td_htCents = to_htCents t1 - to_htCents t0, td_vatCents = to_vatCents t1 - to_vatCents t0,
      td_ttcCents = to_ttcCents t1 - to_ttcCents t0,
      td_monthlyRecurringCents = to_monthlyRecurringCents t1 - to_monthlyRecurringCents t0,
      td_annualRecurringCents = to_annualRecurringCents t1 - to_annualRecurringCents t0\<rparr>"

definition simulate ::
    "'d decimal_ops \<Rightarrow> pricing_input \<Rightarrow> string \<Rightarrow> simulation_changes \<Rightarrow> string option
     \<Rightarrow> simulation_result priced" where
  "simulate dc input date changes beforeDate =
     ebind (price_at dc input (case beforeDate of None \<Rightarrow> date | Some d \<Rightarrow> d)) (\<lambda>prior.
     ebind (apply_changes dc input date changes) (\<lambda>changed.
     ebind (price_at dc changed date) (\<lambda>after.
       Inr \<lparr>sr_before = prior, sr_after = after,
            sr_lineDeltas = line_deltas dc (pr_lines prior) (pr_lines after),
            sr_totalsDelta = totals_delta_of (pr_totals prior) (pr_totals after)\<rparr>)))"

subsection \<open>What the comparison says\<close>

lemma price_at_line_ids:
  assumes "price_at dc input date = Inr res"
  shows "distinct (map pl_lineId (pr_lines res))"
proof -
  obtain schedule settings where s: "distinct (map ln_id (sd_lines schedule))"
      "price_lines dc schedule (context_of dc input date settings) = Inr (pr_lines res)"
    using price_at_Inr [OF assms] by metis
  obtain priced where "list_all2 (\<lambda>l p. line_priced dc (sd_lines schedule) priced
        (context_of dc input date settings) l = Inr p) (sd_lines schedule) (pr_lines res)"
    using price_lines_Inr [OF s(2,1)] by blast
  then have "list_all2 (\<lambda>l p. pl_lineId p = ln_id l) (sd_lines schedule) (pr_lines res)"
    by (rule list_all2_mono) (simp add: line_priced_fields)
  then have "map pl_lineId (pr_lines res) = map ln_id (sd_lines schedule)"
    by (induction rule: list_all2_induct) auto
  then show ?thesis using s(1) by simp
qed

lemma price_at_ht:
  "price_at dc input date = Inr res \<Longrightarrow> to_htCents (pr_totals res) = sum_list (map pl_totalHtCents (pr_lines res))"
  by (auto elim!: price_at_Inr simp: compute_totals_def Let_def)

lemma sum_list_partition:
  fixes f :: "'a \<Rightarrow> int"
  shows "sum_list (map f xs) = sum_list (map f (filter P xs)) + sum_list (map f (filter (\<lambda>x. \<not> P x) xs))"
  by (induction xs) auto

lemma sum_list_neg:
  fixes f :: "'a \<Rightarrow> int"
  shows "sum_list (map (\<lambda>x. - f x) xs) = - sum_list (map f xs)"
  by (induction xs) auto

lemma priced_get_None: "priced_get ps k = None \<longleftrightarrow> k \<notin> set (map pl_lineId ps)"
  by (auto simp: priced_get_def find_None_iff)

lemma deltas_sum:
  assumes "distinct (map pl_lineId prior)" "distinct (map pl_lineId after)"
  shows "sum_list (map dl_deltaCents (line_deltas dc prior after))
         = sum_list (map pl_totalHtCents after) - sum_list (map pl_totalHtCents prior)"
proof -
  define B where "B k = (case priced_get (rev prior) k of None \<Rightarrow> 0 | Some p \<Rightarrow> pl_totalHtCents p)" for k
  define A where "A = set (map pl_lineId after)"
  let ?common = "filter (\<lambda>b. pl_lineId b \<in> A) prior"
  have "distinct (map pl_lineId (rev prior))" using assms(1) by (simp flip: rev_map)
  then have B: "B (pl_lineId b) = pl_totalHtCents b" if "b \<in> set prior" for b
    using priced_get_distinct [of "rev prior" b] that by (simp add: B_def)
  have zero: "B k = 0" if "k \<notin> set (map pl_lineId prior)" for k
    using that priced_get_None [of "rev prior" k] by (simp add: B_def)
  have "sum_list (map (\<lambda>a. B (pl_lineId a)) after) = sum_list (map B (map pl_lineId after))"
    by (simp add: o_def)
  also have "\<dots> = sum B A"
    unfolding A_def by (rule sum_list_distinct_conv_sum_set [OF assms(2)])
  also have "\<dots> = sum B (set (map pl_lineId ?common))"
  proof (rule sum.mono_neutral_right)
    show "\<forall>k \<in> A - set (map pl_lineId ?common). B k = 0"
    proof
      fix k assume "k \<in> A - set (map pl_lineId ?common)"
      then have "k \<notin> set (map pl_lineId prior)" by fastforce
      then show "B k = 0" by (rule zero)
    qed
  qed (auto simp: A_def)
  also have "\<dots> = sum_list (map B (map pl_lineId ?common))"
    by (rule sum_list_distinct_conv_sum_set [symmetric]) (use assms(1) in \<open>simp add: distinct_map_filter\<close>)
  also have "\<dots> = sum_list (map pl_totalHtCents ?common)"
    unfolding map_map by (rule arg_cong [where f = sum_list]) (simp add: B)
  finally have shared: "sum_list (map (\<lambda>a. B (pl_lineId a)) after) = sum_list (map pl_totalHtCents ?common)" .
  have "dl_deltaCents (after_delta dc prior a) = pl_totalHtCents a - B (pl_lineId a)" for a
    by (auto simp: after_delta_def B_def Let_def split: option.splits)
  then have "sum_list (map dl_deltaCents (line_deltas dc prior after))
      = sum_list (map pl_totalHtCents after) - sum_list (map (\<lambda>a. B (pl_lineId a)) after)
        - sum_list (map pl_totalHtCents (filter (\<lambda>b. pl_lineId b \<notin> A) prior))"
    by (simp add: line_deltas_def gone_delta_def o_def sum_list_subtractf A_def sum_list_neg)
  then show ?thesis
    using sum_list_partition [of pl_totalHtCents prior "\<lambda>b. pl_lineId b \<in> A"] shared by simp
qed

text \<open>The comparison accounts for every cent: the differences of the lines, those that disappear
  included, add up to the difference of the totals before tax.\<close>

theorem simulation_deltas_add_up:
  assumes "simulate dc input date changes beforeDate = Inr r"
  shows "sum_list (map dl_deltaCents (sr_lineDeltas r)) = td_htCents (sr_totalsDelta r)"
proof -
  obtain prior changed after where
      b: "price_at dc input (case beforeDate of None \<Rightarrow> date | Some d \<Rightarrow> d) = Inr prior"
    and a: "price_at dc changed date = Inr after"
    and r: "sr_lineDeltas r = line_deltas dc (pr_lines prior) (pr_lines after)"
      "sr_totalsDelta r = totals_delta_of (pr_totals prior) (pr_totals after)"
    using assms by (auto simp: simulate_def ebind_Inr_iff)
  show ?thesis
    using deltas_sum [OF price_at_line_ids [OF b] price_at_line_ids [OF a]]
    by (simp add: r totals_delta_of_def price_at_ht [OF b] price_at_ht [OF a])
qed

subsection \<open>What the changes do\<close>

lemma change_line_nothing: "emap (change_line [] []) ls = Inr ls"
  by (induction ls) (simp_all add: change_line_def)

lemma apply_no_changes:
  assumes "select_schedule (in_schedules input) date = Inr target"
  shows "apply_changes dc input date \<lparr>sc_indexValues = [], sc_quantities = [], sc_linePrices = []\<rparr> = Inr input"
proof -
  have "map (\<lambda>s. if s = target then s\<lparr>sd_lines := sd_lines target\<rparr> else s) ss = ss" for ss
    by (induction ss) auto
  then show ?thesis
    using assms by (simp add: apply_changes_def change_line_nothing changed_quantities_def Let_def)
qed

text \<open>The simulator has no price rule of its own: simulating no change at the same date gives the price
  as it is, before and after, and every difference is zero; it fails exactly as the price does.\<close>

theorem simulate_without_changes:
  "case simulate dc input date \<lparr>sc_indexValues = [], sc_quantities = [], sc_linePrices = []\<rparr> None of
     Inl e \<Rightarrow> price_at dc input date = Inl e
   | Inr r \<Rightarrow> price_at dc input date = Inr (sr_before r) \<and> sr_after r = sr_before r
       \<and> list_all (\<lambda>d. dl_deltaCents d = 0) (sr_lineDeltas r) \<and> td_ttcCents (sr_totalsDelta r) = 0"
proof (cases "price_at dc input date")
  case (Inl e)
  then show ?thesis by (simp add: simulate_def)
next
  case (Inr res)
  obtain target where t: "select_schedule (in_schedules input) date = Inr target"
    using price_at_Inr [OF Inr] by metis
  have "distinct (map pl_lineId (rev (pr_lines res)))"
    using price_at_line_ids [OF Inr] by (simp flip: rev_map)
  then have "priced_get (rev (pr_lines res)) (pl_lineId a) = Some a" if "a \<in> set (pr_lines res)" for a
    using priced_get_distinct [of "rev (pr_lines res)" a] that by simp
  then show ?thesis
    by (simp add: simulate_def Inr apply_no_changes [OF t] line_deltas_def list_all_iff after_delta_def
        totals_delta_of_def Let_def)
qed

lemma map_of_map_set: "map_of (map_set k v xs) = (map_of xs)(k \<mapsto> v)"
  by (induction k v xs rule: map_set.induct) auto

lemma keys_map_set: "set (map fst (map_set k v xs)) = insert k (set (map fst xs))"
  by (induction k v xs rule: map_set.induct) auto

lemma distinct_map_set: "distinct (map fst xs) \<Longrightarrow> distinct (map fst (map_set k v xs))"
proof (induction k v xs rule: map_set.induct)
  case (2 k v k' v' xs)
  then show ?case using keys_map_set [of k v xs] by (auto simp del: set_map)
qed simp

lemma add_change_Inr:
  "add_change dc ids cs kv = Inr cs' \<longleftrightarrow>
     fst kv \<in> set ids \<and> is_ok (parse_price dc (snd kv)) \<and> cs' = map_set (fst kv) (snd kv) cs"
  by (auto simp: add_change_def ebind_Inr_iff is_ok_iff)

lemma find_append_Some: "List.find P xs = Some x \<Longrightarrow> List.find P (xs @ ys) = Some x"
  by (induction xs) (auto split: if_splits)

lemma add_changes_keys:
  "efold (add_change dc ids) cs kvs = Inr cs' \<Longrightarrow> distinct (map fst cs) \<Longrightarrow>
     list_all (\<lambda>kv. is_ok (parse_price dc (snd kv))) cs \<Longrightarrow>
     distinct (map fst cs') \<and> map_of cs' = map_of (rev kvs @ cs)
     \<and> list_all (\<lambda>kv. is_ok (parse_price dc (snd kv))) cs'"
proof (induction kvs arbitrary: cs)
  case (Cons kv kvs)
  have m: "list_all (\<lambda>kv. is_ok (parse_price dc (snd kv))) (map_set k v xs)"
    if "list_all (\<lambda>kv. is_ok (parse_price dc (snd kv))) xs" "is_ok (parse_price dc v)" for k v xs
    using that by (induction k v xs rule: map_set.induct) auto
  have p: "is_ok (parse_price dc (snd kv))"
      "efold (add_change dc ids) (map_set (fst kv) (snd kv) cs) kvs = Inr cs'"
    using Cons.prems(1) by (auto simp: ebind_Inr_iff add_change_Inr)
  show ?case
    using Cons.IH [OF p(2) distinct_map_set [OF Cons.prems(2)] m [OF Cons.prems(3) p(1)]]
    by (simp add: map_of_map_set map_add_def fun_eq_iff split: option.splits)
qed simp

text \<open>A simulated change reaches the price, and nothing else does. In the simulated input, a line whose
  quantity is changed takes the last quantity given for it, traced as simulated; a line whose base
  price is changed is a manual line at the last price given for it; a line that is not
  named is the line of the schedule as it was.\<close>

theorem simulated_changes_apply:
  assumes "apply_changes dc input date changes = Inr changed"
    and "select_schedule (in_schedules input) date = Inr target"
  shows "\<exists>lines. in_schedules changed
        = map (\<lambda>s. if s = target then s\<lparr>sd_lines := lines\<rparr> else s) (in_schedules input)
    \<and> list_all2 (\<lambda>l l'. (case map_of (rev (sc_linePrices changes)) (ln_id l) of
           None \<Rightarrow> ln_mode l' = ln_mode l \<and> ln_unitPrice l' = ln_unitPrice l
         | Some p \<Rightarrow> ln_mode l' = MANUAL \<and> ln_unitPrice l' = Some p \<and> ln_kind l \<notin> {TIERED, DISCOUNT})
        \<and> (case map_of (rev (sc_quantities changes)) (ln_id l) of
             None \<Rightarrow> ln_quantity l' = ln_quantity l
           | Some q \<Rightarrow> \<exists>v. parse_price dc q = Inr v \<and> resolve_quantity dc l' (context_of dc changed date settings)
                 = Inr (v, [TS_QUANTITY ''simulation'' (dec_to_string dc v) None]))
        \<and> (if map_of (rev (sc_linePrices changes)) (ln_id l) = None
               \<and> map_of (rev (sc_quantities changes)) (ln_id l) = None then l' = l else True))
      (sd_lines target) lines"
    (is "\<exists>lines. _ \<and> list_all2 (\<lambda>l l'. ?price l l' \<and> ?quantity l l' \<and> ?same l l') _ lines")
proof -
  obtain indexes qc pc lines where
      q: "efold (add_change dc (map ln_id (sd_lines target))) [] (sc_quantities changes) = Inr qc"
    and p: "efold (add_change dc (map ln_id (sd_lines target))) [] (sc_linePrices changes) = Inr pc"
    and l: "emap (change_line pc qc) (sd_lines target) = Inr lines"
    and c: "changed = input\<lparr>in_schedules := map (\<lambda>s. if s = target then s\<lparr>sd_lines := lines\<rparr> else s)
                                        (in_schedules input),
              in_indexes := indexes, in_quantities := changed_quantities (in_quantities input) qc\<rparr>"
    using assms(1,2) by (auto simp: apply_changes_def ebind_Inr_iff Let_def)
  have qk: "distinct (map fst qc)" "map_of qc = map_of (rev (sc_quantities changes))"
      "list_all (\<lambda>kv. is_ok (parse_price dc (snd kv))) qc"
    using add_changes_keys [OF q] by simp_all
  have pk: "map_of pc = map_of (rev (sc_linePrices changes))"
    using add_changes_keys [OF p] by simp
  have found: "quantity_of (context_of dc changed date settings) k
      = Some \<lparr>rq_lineId = k, rq_quantity = x, rq_source = ''simulation'', rq_observedAt = None\<rparr>"
    if "map_of qc k = Some x" for k x
  proof -
    let ?new = "map (\<lambda>(i, y). \<lparr>rq_lineId = i, rq_quantity = y, rq_source = ''simulation'', rq_observedAt = None\<rparr>) qc"
    have ids: "map rq_lineId ?new = map fst qc" by (simp add: case_prod_beta)
    have "distinct (map rq_lineId (rev ?new))" using qk(1) ids by (metis distinct_rev rev_map)
    then have "List.find (\<lambda>y. rq_lineId y = k) (rev ?new)
        = Some \<lparr>rq_lineId = k, rq_quantity = x, rq_source = ''simulation'', rq_observedAt = None\<rparr>"
      using find_distinct [of rq_lineId "rev ?new"
          "\<lparr>rq_lineId = k, rq_quantity = x, rq_source = ''simulation'', rq_observedAt = None\<rparr>"]
        map_of_SomeD [OF that] by (force simp: rev_map)
    from find_append_Some [OF this] show ?thesis
      by (simp add: quantity_of_def context_of_def c changed_quantities_def)
  qed
  have parsed: "is_ok (parse_price dc x)" if "map_of qc k = Some x" for k x
    using map_of_SomeD [OF that] qk(3) by (auto simp: list_all_iff)
  show ?thesis
  proof (intro exI [of _ lines] conjI)
    show "in_schedules changed
        = map (\<lambda>s. if s = target then s\<lparr>sd_lines := lines\<rparr> else s) (in_schedules input)"
      by (simp add: c)
    show "list_all2 (\<lambda>l l'. ?price l l' \<and> ?quantity l l' \<and> ?same l l') (sd_lines target) lines"
    proof (rule list_all2_mono [OF l [unfolded emap_Inr_iff]])
      fix l l' assume "change_line pc qc l = Inr l'"
      then show "?price l l' \<and> ?quantity l l' \<and> ?same l l'"
        using found [of "ln_id l"] parsed [of "ln_id l"]
        by (auto simp: change_line_def ebind_Inr_iff pk [symmetric] qk(2) [symmetric]
            resolve_quantity_def is_ok_iff split: option.splits if_splits)
    qed
  qed
qed

subsection \<open>Example\<close>

text \<open>The three seats of \<open>sample_input\<close> become five, at 28.\<close>

definition sample_changes :: simulation_changes where
  "sample_changes =
     \<lparr>sc_indexValues = [], sc_quantities = [(''L1'', ''5'')], sc_linePrices = [(''L1'', ''28'')]\<rparr>"

lemma sample_changed: "is_ok (apply_changes rat_ops sample_input ''2025-06-15'' sample_changes)"
  by code_simp

theorem simulated_changes_apply_witness:
  "\<exists>changed lines. apply_changes rat_ops sample_input ''2025-06-15'' sample_changes = Inr changed
     \<and> in_schedules changed
        = map (\<lambda>s. if s = sample_schedule then s\<lparr>sd_lines := lines\<rparr> else s) (in_schedules sample_input)"
proof -
  obtain changed where c: "apply_changes rat_ops sample_input ''2025-06-15'' sample_changes = Inr changed"
    using sample_changed by (auto simp: is_ok_iff)
  have "select_schedule (in_schedules sample_input) ''2025-06-15'' = Inr sample_schedule"
    using sample_reads(3) by (simp add: sample_input_def)
  from simulated_changes_apply [OF c this] c show ?thesis by blast
qed

lemma sample_simulated:
  "is_ok (simulate rat_ops sample_input ''2025-06-15''
     \<lparr>sc_indexValues = [], sc_quantities = [], sc_linePrices = []\<rparr> None)"
  using sample_priced apply_no_changes [of sample_input "''2025-06-15''" sample_schedule rat_ops]
    sample_reads(3)
  by (auto simp: simulate_def sample_input_def)

theorem simulation_deltas_add_up_witness:
  "\<exists>r. simulate rat_ops sample_input ''2025-06-15''
        \<lparr>sc_indexValues = [], sc_quantities = [], sc_linePrices = []\<rparr> None = Inr r
     \<and> sum_list (map dl_deltaCents (sr_lineDeltas r)) = td_htCents (sr_totalsDelta r)"
  using sample_simulated simulation_deltas_add_up by (auto simp: is_ok_iff)

end
