(* ===== verification/Serialize.thy ===== *)
theory Serialize
  imports Rules
begin

text \<open>
  Results as JSON: \<open>packages/pricing/src/serialize.ts\<close>. A JavaScript value is what \<open>convert\<close> tells
  apart: a bigint, an array, an object with its entries in order, anything else.
\<close>

datatype js_value =
    JBigInt int
  | JString string
  | JNumber int
  | JBool bool
  | JNull
  | JUndefined
  | JArray "js_value list"
  | JObject "(string \<times> js_value) list"

fun convert :: "js_value \<Rightarrow> js_value" where
  "convert (JBigInt n) = JString (int_string n)"
| "convert (JArray vs) = JArray (map convert vs)"
| "convert (JObject kvs) = JObject (map (\<lambda>(k, x). (k, convert x)) kvs)"
| "convert v = v"

text \<open>\<open>JSON.stringify\<close> throws a \<open>TypeError\<close> on a bigint, at any depth.\<close>

fun stringify_ok :: "js_value \<Rightarrow> bool" where
  "stringify_ok (JBigInt n) = False"
| "stringify_ok (JArray vs) = list_all stringify_ok vs"
| "stringify_ok (JObject kvs) = list_all (\<lambda>(k, x). stringify_ok x) kvs"
| "stringify_ok v = True"

text \<open>\<open>BigInt(s)\<close> of a text written by \<open>convert\<close>: what a client reads back.\<close>

definition read_bigint :: "string \<Rightarrow> int" where
  "read_bigint s =
     (if s \<noteq> [] \<and> hd s = CHR ''-'' then - int (digits_val (tl s)) else int (digits_val s))"

lemma nat_string_no_minus: "hd (nat_string n) \<noteq> CHR ''-''"
  using nat_string_digits [of n] by (cases "nat_string n") (auto simp: is_digit_def)

lemma read_int_string [simp]: "read_bigint (int_string n) = n"
  using nat_string_no_minus [of "nat n"]
  by (auto simp: read_bigint_def int_string_def)

text \<open>The same value, with each bigint written as a text that reads back as it.\<close>

fun written_as :: "js_value \<Rightarrow> js_value \<Rightarrow> bool" where
  "written_as (JBigInt n) w = (case w of JString s \<Rightarrow> read_bigint s = n | _ \<Rightarrow> False)"
| "written_as (JArray vs) w = (case w of JArray ws \<Rightarrow> list_all2 written_as vs ws | _ \<Rightarrow> False)"
| "written_as (JObject vs) w =
     (case w of JObject ws \<Rightarrow> list_all2 (\<lambda>(k, x) (k', y). k = k' \<and> written_as x y) vs ws | _ \<Rightarrow> False)"
| "written_as v w = (w = v)"

text \<open>Results survive JSON: what \<open>toJsonSafe\<close> gives is always accepted by \<open>JSON.stringify\<close> (no bigint
  is left at any depth), it has the same arrays, keys and other values, every amount in cents reads back
  as the same integer whatever its size, and converting twice changes nothing.\<close>

theorem json_safe:
  "stringify_ok (convert v) \<and> written_as v (convert v) \<and> convert (convert v) = convert v"
proof (induction v)
  case (JArray vs)
  then show ?case by (auto simp: list_all_iff list.rel_map intro!: list.rel_refl_strong)
next
  case (JObject kvs)
  then have "stringify_ok (convert x) \<and> written_as x (convert x) \<and> convert (convert x) = convert x"
    if "(k, x) \<in> set kvs" for k x using that by fastforce
  then show ?case
    by (auto simp: list_all_iff list.rel_map case_prod_beta intro!: list.rel_refl_strong)
qed auto

end
