(* ===== verification/ProposalConfig.thy ===== *)
theory ProposalConfig
  imports Simulate
begin

text \<open>
  Which lines of a proposal are retained and in what quantity: the first step of
  \<open>packages/pricing/src/proposal.ts\<close>. No amount is computed here.

  A finite JavaScript number is its rational value; \<open>Number(v)\<close> is \<open>None\<close> when it is not finite. The
  optional numbers of a definition come from JSON and are finite. An object is the list of its
  entries, in order. An error keeps its kind and the values its message shows.
\<close>

subsection \<open>Numbers\<close>

definition js_sign :: "string \<Rightarrow> bool \<times> string" where
  "js_sign s =
     (if s \<noteq> [] \<and> hd s = CHR ''-'' then (True, tl s)
      else if s \<noteq> [] \<and> hd s = CHR ''+'' then (False, tl s) else (False, s))"

text \<open>\<open>StrUnsignedDecimalLiteral\<close>: digits, a point with digits on one side at least, an exponent.\<close>

definition js_exponent :: "string \<Rightarrow> int option" where
  "js_exponent s =
     (if s = [] then Some 0
      else if hd s \<in> {CHR ''e'', CHR ''E''} then
        (let (neg, ds) = js_sign (tl s)
         in if ds = [] \<or> \<not> list_all is_digit ds then None
            else Some (if neg then - int (digits_val ds) else int (digits_val ds)))
      else None)"

definition js_unsigned :: "string \<Rightarrow> rat option" where
  "js_unsigned s =
     (let whole = takeWhile is_digit s; r = dropWhile is_digit s;
          dot = (r \<noteq> [] \<and> hd r = CHR ''.'');
          decimals = (if dot then takeWhile is_digit (tl r) else []);
          r' = (if dot then dropWhile is_digit (tl r) else r)
      in if whole = [] \<and> decimals = [] then None
         else case js_exponent r' of
                None \<Rightarrow> None
              | Some e \<Rightarrow>
                  let m = of_nat (digits_val (whole @ decimals)) / 10 ^ length decimals
                  in Some (if 0 \<le> e then m * 10 ^ nat e else m / 10 ^ nat (- e)))"

definition js_radix_digit :: "char \<Rightarrow> nat option" where
  "js_radix_digit c =
     (let n = of_char c in
      if 48 \<le> n \<and> n \<le> 57 then Some (n - 48)
      else if 65 \<le> n \<and> n \<le> 70 then Some (n - 55)
      else if 97 \<le> n \<and> n \<le> 102 then Some (n - 87) else None)"

definition js_radix :: "nat \<Rightarrow> string \<Rightarrow> rat option" where
  "js_radix b s =
     (if s = [] then None
      else map_option of_nat (foldl (\<lambda>acc c. case (acc, js_radix_digit c) of
             (Some n, Some d) \<Rightarrow> if d < b then Some (n * b + d) else None | _ \<Rightarrow> None) (Some 0) s))"

text \<open>\<open>Number(s)\<close> of a string, when finite: the largest double is below \<open>2^1024\<close>. The model keeps the number the
  text writes, which JavaScript rounds to a double: the same for a natural number below \<open>2^53\<close>.\<close>

definition js_number :: "string \<Rightarrow> rat option" where
  "js_number s =
     (let t = js_trim s;
          v = (if t = [] then Some 0
               else if take 2 t \<in> {''0x'', ''0X''} then js_radix 16 (drop 2 t)
               else if take 2 t \<in> {''0o'', ''0O''} then js_radix 8 (drop 2 t)
               else if take 2 t \<in> {''0b'', ''0B''} then js_radix 2 (drop 2 t)
               else let (neg, u) = js_sign t in map_option (\<lambda>x. if neg then - x else x) (js_unsigned u))
      in case v of None \<Rightarrow> None | Some x \<Rightarrow> if \<lfloor>\<bar>x\<bar>\<rfloor> < 2 ^ 1024 - 2 ^ 970 then Some x else None)"

definition is_integer :: "rat \<Rightarrow> bool" where
  "is_integer x = (of_int \<lfloor>x\<rfloor> = x)"

subsection \<open>Definition of a price table\<close>

datatype price_status = PS_VALIDATED | PS_TO_VALIDATE

datatype proposal_recurrence = PR_ONE_TIME | PR_MONTHLY | PR_QUARTERLY | PR_YEARLY | PR_INFO

datatype proposal_line_kind = LK_REQUIRED | LK_OPTIONAL | LK_SETUP | LK_INFO

datatype line_group = LG_RECURRING | LG_SETUP | LG_OPTIONS | LG_YEARLY | LG_OUT_OF_SCOPE

datatype default_quantity = QNumber rat | QTag string

record proposal_quantity_spec =
  pq_default :: default_quantity
  pq_min :: rat
  pq_max :: "rat option"
  pq_maxFrom :: "string option"
  pq_linkedTo :: "string option"
  pq_editableByClient :: bool

datatype line_pricing = UnitCents int | ByChoice string "(string \<times> int) list"

record proposal_grid_ref =
  gr_itemCode :: string
  gr_variants :: "(string \<times> string) list"
  gr_vatRatePercent :: string
  gr_on :: string

record proposal_pricing_line =
  pp_key :: string
  pp_label :: string
  pp_kind :: proposal_line_kind
  pp_unit :: string
  pp_recurrence :: proposal_recurrence
  pp_quantity :: "proposal_quantity_spec option"
  pp_pricing :: line_pricing
  pp_priceFrom :: "bool option"
  pp_priceStatus :: price_status
  pp_priceStatusByChoice :: "(string \<times> price_status) list option"
  pp_group :: line_group
  pp_grid :: "proposal_grid_ref option"

record choice_option =
  co_value :: string
  co_label :: string
  co_default :: bool
  co_commitmentMonths :: "int option"

record proposal_choice =
  ch_key :: string
  ch_label :: string
  ch_options :: "choice_option list"
  ch_editableByClient :: bool
  ch_priceStatus :: "price_status option"

record preselect_range =
  pr_min :: "rat option"
  pr_max :: "rat option"
  pr_value :: string

datatype proposal_rule =
    MINIMUM_MONTHLY (rule_key: string) int string price_status
  | REQUIRES (rule_key: string) string "string list" string
  | REQUIRED_IF_ANY (rule_key: string) string "string list" string
  | AUTO_INCLUDE (rule_key: string) string string
  | AT_LEAST_ONE (rule_key: string) "string list" string
  | DISCOUNT_PERCENT (rule_key: string) string "string list" string string price_status
  | PRESELECT_CHOICE (rule_key: string) string string "preselect_range list"

text \<open>The VAT rate and the percentage of a discount are only used through \<open>String\<close>: they are that text.\<close>

record proposal_definition =
  pd_choices :: "proposal_choice list"
  pd_lines :: "proposal_pricing_line list"
  pd_rules :: "proposal_rule list"
  pd_vatRatePercent :: string

datatype context_value = CNumber rat | CString string

record proposal_selection =
  ps_choices :: "(string \<times> string) list"
  ps_quantities :: "(string \<times> rat) list"
  ps_selectedOptions :: "string list"
  ps_context :: "(string \<times> context_value) list"

definition context_number :: "proposal_selection \<Rightarrow> string \<Rightarrow> rat option" where
  "context_number sel field =
     (case map_of (ps_context sel) field of
        None \<Rightarrow> None
      | Some (CNumber x) \<Rightarrow> Some x
      | Some (CString s) \<Rightarrow> js_number s)"

subsection \<open>Errors of a configuration\<close>

datatype config_error =
    InvalidChoiceValue string "string option"
  | UnknownChoice string
  | NotAnOption string
  | UnknownQuantityLine string
  | UnresolvedTag string string
  | InvalidQuantity string rat
  | BelowMinimum string rat rat
  | AboveMaximum string rat rat
  | AboveLinked string rat string
  | QuantityNotEditable string
  | RuleMessage string
  | NoPriceForChoice string
  | NotMultipleOf3
  | NotMultipleOf12

fun contains :: "string \<Rightarrow> string \<Rightarrow> bool" where
  "contains p [] = (p = [])"
| "contains p (c # cs) = (take (length p) (c # cs) = p \<or> contains p cs)"

text \<open>\<open>/pas de prix pour ce choix|valeur invalide/\<close> on the message. The fixed words of the other
  messages hold neither phrase, nor an end of one next to a shown value: it can only be inside a value.\<close>

definition names_fatal_phrase :: "string \<Rightarrow> bool" where
  "names_fatal_phrase s = (contains ''pas de prix pour ce choix'' s \<or> contains ''valeur invalide'' s)"

fun fatal_error :: "config_error \<Rightarrow> bool" where
  "fatal_error (InvalidChoiceValue k v) = True"
| "fatal_error (NoPriceForChoice k) = True"
| "fatal_error (UnknownChoice k) = names_fatal_phrase k"
| "fatal_error (NotAnOption k) = names_fatal_phrase k"
| "fatal_error (UnknownQuantityLine k) = names_fatal_phrase k"
| "fatal_error (UnresolvedTag k d) = (names_fatal_phrase k \<or> names_fatal_phrase d)"
| "fatal_error (InvalidQuantity k q) = names_fatal_phrase k"
| "fatal_error (BelowMinimum k q m) = names_fatal_phrase k"
| "fatal_error (AboveMaximum k q m) = names_fatal_phrase k"
| "fatal_error (AboveLinked k q f) = (names_fatal_phrase k \<or> names_fatal_phrase f)"
| "fatal_error (QuantityNotEditable k) = names_fatal_phrase k"
| "fatal_error (RuleMessage m) = names_fatal_phrase m"
| "fatal_error NotMultipleOf3 = False"
| "fatal_error NotMultipleOf12 = False"

subsection \<open>Choices\<close>

definition default_choice :: "proposal_choice \<Rightarrow> string" where
  "default_choice c =
     (case List.find co_default (ch_options c) of
        Some x \<Rightarrow> co_value x
      | None \<Rightarrow> (case ch_options c of x # xs \<Rightarrow> co_value x | [] \<Rightarrow> []))"

definition in_range :: "rat \<Rightarrow> preselect_range \<Rightarrow> bool" where
  "in_range v x =
     ((case pr_min x of None \<Rightarrow> True | Some m \<Rightarrow> m \<le> v) \<and> (case pr_max x of None \<Rightarrow> True | Some m \<Rightarrow> v \<le> m))"

definition preselect ::
    "proposal_selection \<Rightarrow> (string \<times> string) list \<Rightarrow> proposal_rule \<Rightarrow> (string \<times> string) list" where
  "preselect sel out r =
     (case r of
        PRESELECT_CHOICE key choice field ranges \<Rightarrow>
          (case context_number sel field of
             None \<Rightarrow> out
           | Some v \<Rightarrow>
               (case List.find (in_range v) ranges of
                  None \<Rightarrow> out | Some hit \<Rightarrow> map_set choice (pr_value hit) out))
      | _ \<Rightarrow> out)"

definition resolve_choices ::
    "proposal_definition \<Rightarrow> proposal_selection \<Rightarrow> (string \<times> string) list" where
  "resolve_choices def sel =
     (let defaults = foldl (\<lambda>out c. map_set (ch_key c) (default_choice c) out) [] (pd_choices def);
          preselected = foldl (preselect sel) defaults (pd_rules def)
      in foldl (\<lambda>out kv. map_set (fst kv) (snd kv) out) preselected (ps_choices sel))"

definition unit_price_cents ::
    "proposal_pricing_line \<Rightarrow> (string \<times> string) list \<Rightarrow> int option" where
  "unit_price_cents l choices =
     (case pp_pricing l of
        UnitCents cents \<Rightarrow> Some cents
      | ByChoice dependsOn byChoice \<Rightarrow>
          (case map_of choices dependsOn of None \<Rightarrow> None | Some v \<Rightarrow> map_of byChoice v))"

definition effective_price_status ::
    "proposal_pricing_line \<Rightarrow> (string \<times> string) list \<Rightarrow> price_status" where
  "effective_price_status l choices =
     (case (pp_priceStatusByChoice l, pp_pricing l) of
        (Some byChoice, ByChoice dependsOn prices) \<Rightarrow>
          (case (case map_of choices dependsOn of None \<Rightarrow> None | Some v \<Rightarrow> map_of byChoice v) of
             Some s \<Rightarrow> s | None \<Rightarrow> pp_priceStatus l)
      | _ \<Rightarrow> pp_priceStatus l)"

subsection \<open>The configuration\<close>

record configuration =
  cf_choices :: "(string \<times> string) list"
  cf_commitmentMonths :: int
  cf_included :: "(string \<times> rat) list"
  cf_errors :: "config_error list"

text \<open>\<open>byKey\<close>: the last line of a key.\<close>

definition line_of :: "proposal_definition \<Rightarrow> string \<Rightarrow> proposal_pricing_line option" where
  "line_of def k = List.find (\<lambda>l. pp_key l = k) (rev (pd_lines def))"

definition choice_errors ::
    "proposal_definition \<Rightarrow> proposal_selection \<Rightarrow> (string \<times> string) list \<Rightarrow> config_error list" where
  "choice_errors def sel choices =
     map (\<lambda>c. InvalidChoiceValue (ch_key c) (map_of choices (ch_key c)))
       (filter (\<lambda>c. \<not> list_ex (\<lambda>x. Some (co_value x) = map_of choices (ch_key c)) (ch_options c))
          (pd_choices def))
     @ map (\<lambda>kv. UnknownChoice (fst kv))
         (filter (\<lambda>kv. \<not> list_ex (\<lambda>c. ch_key c = fst kv) (pd_choices def)) (ps_choices sel))"

definition commitment_months :: "proposal_definition \<Rightarrow> (string \<times> string) list \<Rightarrow> int" where
  "commitment_months def choices =
     (case List.find (\<lambda>c. list_ex (\<lambda>x. co_commitmentMonths x \<noteq> None) (ch_options c)) (pd_choices def) of
        None \<Rightarrow> 0
      | Some c \<Rightarrow>
          (case List.find (\<lambda>x. Some (co_value x) = map_of choices (ch_key c)) (ch_options c) of
             None \<Rightarrow> 0
           | Some x \<Rightarrow> (case co_commitmentMonths x of None \<Rightarrow> 0 | Some m \<Rightarrow> m)))"

definition selection_errors :: "proposal_definition \<Rightarrow> proposal_selection \<Rightarrow> config_error list" where
  "selection_errors def sel =
     map NotAnOption
       (filter (\<lambda>k. map_option pp_kind (line_of def k) \<noteq> Some LK_OPTIONAL) (uniq (ps_selectedOptions sel)))
     @ map (\<lambda>kv. UnknownQuantityLine (fst kv))
         (filter (\<lambda>kv. line_of def (fst kv) = None) (ps_quantities sel))"

text \<open>\<open>d.slice(2, -2)\<close>\<close>

definition tag_name :: "string \<Rightarrow> string" where
  "tag_name d = take (length d - 4) (drop 2 d)"

definition raw_quantity ::
    "proposal_selection \<Rightarrow> proposal_pricing_line \<Rightarrow> rat \<times> config_error list" where
  "raw_quantity sel l =
     (case map_of (ps_quantities sel) (pp_key l) of
        Some q \<Rightarrow> (q, [])
      | None \<Rightarrow>
          (case (case pp_quantity l of None \<Rightarrow> QNumber 0 | Some spec \<Rightarrow> pq_default spec) of
             QNumber d \<Rightarrow> (d, [])
           | QTag d \<Rightarrow>
               (case context_number sel (tag_name d) of
                  Some v \<Rightarrow> (v, [])
                | None \<Rightarrow> (0, [UnresolvedTag (pp_key l) d]))))"

type_synonym inclusion = "(string \<times> rat) list \<times> config_error list"

definition include_line :: "proposal_selection \<Rightarrow> string \<Rightarrow> proposal_pricing_line \<Rightarrow> inclusion \<Rightarrow> inclusion" where
  "include_line sel k l acc =
     (let (q, errs) = raw_quantity sel l in (map_set k q (fst acc), snd acc @ errs))"

definition has_line :: "(string \<times> rat) list \<Rightarrow> string \<Rightarrow> bool" where
  "has_line included k = (map_of included k \<noteq> None)"

definition quantity_or_zero :: "(string \<times> rat) list \<Rightarrow> string \<Rightarrow> rat" where
  "quantity_or_zero included k = (case map_of included k of None \<Rightarrow> 0 | Some q \<Rightarrow> q)"

definition include_selected :: "proposal_selection \<Rightarrow> inclusion \<Rightarrow> proposal_pricing_line \<Rightarrow> inclusion" where
  "include_selected sel acc l =
     (if pp_kind l = LK_REQUIRED \<or> (pp_kind l = LK_OPTIONAL \<and> pp_key l \<in> set (ps_selectedOptions sel))
      then include_line sel (pp_key l) l acc else acc)"

definition include_required ::
    "proposal_definition \<Rightarrow> proposal_selection \<Rightarrow> inclusion \<Rightarrow> proposal_rule \<Rightarrow> inclusion" where
  "include_required def sel acc r =
     (case r of
        REQUIRED_IF_ANY key line ifAny message \<Rightarrow>
          (case line_of def line of
             None \<Rightarrow> acc
           | Some target \<Rightarrow>
               if list_ex (\<lambda>k. quantity_or_zero (fst acc) k > 0) ifAny \<and> \<not> has_line (fst acc) line
               then include_line sel line target acc else acc)
      | _ \<Rightarrow> acc)"

definition include_auto ::
    "proposal_definition \<Rightarrow> proposal_selection \<Rightarrow> inclusion \<Rightarrow> proposal_rule \<Rightarrow> inclusion" where
  "include_auto def sel acc r =
     (case r of
        AUTO_INCLUDE key line trigger \<Rightarrow>
          (case line_of def line of
             None \<Rightarrow> acc
           | Some target \<Rightarrow>
               if has_line (fst acc) trigger \<and> pp_kind target \<noteq> LK_SETUP \<and> \<not> has_line (fst acc) line
               then include_line sel line target acc else acc)
      | _ \<Rightarrow> acc)"

definition include_setup ::
    "(string \<times> rat) list \<Rightarrow> proposal_pricing_line \<Rightarrow> (string \<times> rat) list" where
  "include_setup included l =
     (case (if pp_kind l = LK_SETUP then (case pp_quantity l of None \<Rightarrow> None | Some s \<Rightarrow> pq_linkedTo s)
            else None) of
        None \<Rightarrow> included
      | Some linked \<Rightarrow>
          if linked = [] then included
          else case map_of included linked of
                 None \<Rightarrow> included
               | Some q \<Rightarrow> map_set (pp_key l) q included)"

definition bound_errors ::
    "proposal_definition \<Rightarrow> proposal_selection \<Rightarrow> (string \<times> rat) list \<Rightarrow> string \<times> rat
     \<Rightarrow> config_error list" where
  "bound_errors def sel included kq =
     (let (k, q) = kq; l = the (line_of def k) in
      if \<not> is_integer q \<or> q < 0 then [InvalidQuantity k q]
      else case pp_quantity l of
        None \<Rightarrow> []
      | Some qd \<Rightarrow>
          (if pp_kind l \<noteq> LK_SETUP \<and> q < pq_min qd then [BelowMinimum k q (pq_min qd)] else [])
          @ (case pq_max qd of None \<Rightarrow> [] | Some m \<Rightarrow> if q > m then [AboveMaximum k q m] else [])
          @ (case pq_maxFrom qd of
               None \<Rightarrow> []
             | Some f \<Rightarrow> if f \<noteq> [] \<and> q > quantity_or_zero included f then [AboveLinked k q f] else [])
          @ (if \<not> pq_editableByClient qd \<and> pp_kind l \<noteq> LK_SETUP \<and> map_of (ps_quantities sel) k \<noteq> None
             then (case pq_default qd of QNumber d \<Rightarrow> if q \<noteq> d then [QuantityNotEditable k] else []
                   | QTag d \<Rightarrow> [])
             else []))"

definition rule_errors :: "(string \<times> rat) list \<Rightarrow> proposal_rule \<Rightarrow> config_error list" where
  "rule_errors included r =
     (case r of
        REQUIRES key line requires message \<Rightarrow>
          if has_line included line \<and> list_ex (\<lambda>k. \<not> has_line included k) requires
          then [RuleMessage message] else []
      | AT_LEAST_ONE key lines message \<Rightarrow>
          if \<not> list_ex (\<lambda>k. quantity_or_zero included k > 0) lines then [RuleMessage message] else []
      | _ \<Rightarrow> [])"

definition price_errors ::
    "proposal_definition \<Rightarrow> (string \<times> string) list \<Rightarrow> (string \<times> rat) list \<Rightarrow> config_error list" where
  "price_errors def choices included =
     map (\<lambda>l. NoPriceForChoice (pp_key l))
       (filter (\<lambda>l. quantity_or_zero included (pp_key l) > 0 \<and> unit_price_cents l choices = None)
          (pd_lines def))"

definition configure :: "proposal_definition \<Rightarrow> proposal_selection \<Rightarrow> configuration" where
  "configure def sel =
     (let choices = resolve_choices def sel;
          acc1 = foldl (include_selected sel) ([], []) (pd_lines def);
          acc2 = foldl (include_required def sel) acc1 (pd_rules def);
          acc3 = foldl (include_auto def sel) acc2 (pd_rules def);
          included = foldl include_setup (fst acc3) (pd_lines def)
      in \<lparr>cf_choices = choices, cf_commitmentMonths = commitment_months def choices,
          cf_included = included,
          cf_errors = choice_errors def sel choices @ selection_errors def sel @ snd acc3
            @ concat (map (bound_errors def sel included) included)
            @ concat (map (rule_errors included) (pd_rules def))
            @ price_errors def choices included\<rparr>)"

subsection \<open>Why a line is included\<close>

lemma foldl_invariant:
  "P a \<Longrightarrow> (\<And>acc x. P acc \<Longrightarrow> x \<in> set xs \<Longrightarrow> P (f acc x)) \<Longrightarrow> P (foldl f a xs)"
  by (induction xs arbitrary: a) auto

lemma has_line_map_set [simp]: "has_line (map_set k q inc) j \<longleftrightarrow> j = k \<or> has_line inc j"
  by (simp add: has_line_def map_of_map_set)

lemma has_line_Nil [simp]: "\<not> has_line [] k"
  by (simp add: has_line_def)

lemma fst_include_line [simp]:
  "fst (include_line sel k l acc) = map_set k (fst (raw_quantity sel l)) (fst acc)"
  by (simp add: include_line_def case_prod_beta)

text \<open>A reason for \<open>k\<close>: always included, chosen by the client, asked for by a rule whose trigger is
  included, or the setup fee of an included line.\<close>

definition rule_asks :: "(string \<times> rat) list \<Rightarrow> string \<Rightarrow> proposal_rule \<Rightarrow> bool" where
  "rule_asks inc k r =
     (case r of
        REQUIRED_IF_ANY key line ifAny message \<Rightarrow> line = k \<and> list_ex (has_line inc) ifAny
      | AUTO_INCLUDE key line trigger \<Rightarrow> line = k \<and> has_line inc trigger
      | _ \<Rightarrow> False)"

definition line_wanted :: "proposal_selection \<Rightarrow> (string \<times> rat) list \<Rightarrow> proposal_pricing_line \<Rightarrow> bool" where
  "line_wanted sel inc l =
     (case pp_kind l of
        LK_REQUIRED \<Rightarrow> True
      | LK_OPTIONAL \<Rightarrow> pp_key l \<in> set (ps_selectedOptions sel)
      | LK_SETUP \<Rightarrow> (case pp_quantity l of None \<Rightarrow> False
                     | Some s \<Rightarrow> (case pq_linkedTo s of None \<Rightarrow> False | Some f \<Rightarrow> f \<noteq> [] \<and> has_line inc f))
      | LK_INFO \<Rightarrow> False)"

definition justified ::
    "proposal_definition \<Rightarrow> proposal_selection \<Rightarrow> (string \<times> rat) list \<Rightarrow> string \<Rightarrow> bool" where
  "justified def sel inc k =
     (list_ex (\<lambda>l. pp_key l = k \<and> line_wanted sel inc l) (pd_lines def)
      \<or> line_of def k \<noteq> None \<and> list_ex (rule_asks inc k) (pd_rules def))"

lemma justified_mono:
  assumes "justified def sel inc k" "\<And>j. has_line inc j \<Longrightarrow> has_line inc' j"
  shows "justified def sel inc' k"
proof -
  have "rule_asks inc' k r" if "rule_asks inc k r" for r
    using that assms(2) by (auto simp: rule_asks_def list_ex_iff split: proposal_rule.splits)
  moreover have "line_wanted sel inc' l" if "line_wanted sel inc l" for l
    using that assms(2)
    by (auto simp: line_wanted_def split: proposal_line_kind.splits option.splits)
  ultimately show ?thesis using assms(1) by (auto simp: justified_def list_ex_iff)
qed

definition all_justified :: "proposal_definition \<Rightarrow> proposal_selection \<Rightarrow> (string \<times> rat) list \<Rightarrow> bool" where
  "all_justified def sel inc \<longleftrightarrow> (\<forall>k. has_line inc k \<longrightarrow> justified def sel inc k)"

lemma all_justified_map_set:
  assumes "all_justified def sel inc" "justified def sel inc k"
  shows "all_justified def sel (map_set k q inc)"
  using assms justified_mono [of def sel inc _ "map_set k q inc"]
  by (auto simp: all_justified_def)

lemma justified_line:
  "l \<in> set (pd_lines def) \<Longrightarrow> line_wanted sel inc l \<Longrightarrow> justified def sel inc (pp_key l)"
  by (auto simp: justified_def list_ex_iff)

lemma justified_rule:
  "r \<in> set (pd_rules def) \<Longrightarrow> rule_asks inc k r \<Longrightarrow> line_of def k \<noteq> None \<Longrightarrow> justified def sel inc k"
  by (auto simp: justified_def list_ex_iff)

lemma quantity_has_line: "0 < quantity_or_zero inc k \<Longrightarrow> has_line inc k"
  by (auto simp: quantity_or_zero_def has_line_def split: option.splits)

lemma include_selected_justified:
  assumes "all_justified def sel (fst acc)" "l \<in> set (pd_lines def)"
  shows "all_justified def sel (fst (include_selected sel acc l))"
  using assms(1) justified_line [OF assms(2), of sel "fst acc"]
  by (auto simp: include_selected_def line_wanted_def intro!: all_justified_map_set)

lemma include_required_justified:
  assumes "all_justified def sel (fst acc)" "r \<in> set (pd_rules def)"
  shows "all_justified def sel (fst (include_required def sel acc r))"
proof (cases r)
  case (REQUIRED_IF_ANY key line ifAny message)
  then show ?thesis
    using assms(1) justified_rule [OF assms(2), of "fst acc" line sel] quantity_has_line
    by (fastforce simp: include_required_def rule_asks_def list_ex_iff intro: all_justified_map_set
        split: option.splits)
qed (use assms(1) in \<open>simp_all add: include_required_def\<close>)

lemma include_auto_justified:
  assumes "all_justified def sel (fst acc)" "r \<in> set (pd_rules def)"
  shows "all_justified def sel (fst (include_auto def sel acc r))"
proof (cases r)
  case (AUTO_INCLUDE key line trigger)
  then show ?thesis
    using assms(1) justified_rule [OF assms(2), of "fst acc" line sel]
    by (auto simp: include_auto_def rule_asks_def intro!: all_justified_map_set split: option.splits)
qed (use assms(1) in \<open>simp_all add: include_auto_def\<close>)

lemma include_setup_justified:
  assumes "all_justified def sel inc" "l \<in> set (pd_lines def)"
  shows "all_justified def sel (include_setup inc l)"
proof -
  have "line_wanted sel inc l"
    if "pp_kind l = LK_SETUP" "pp_quantity l = Some s" "pq_linkedTo s = Some f" "f \<noteq> []"
      "map_of inc f = Some q" for s f q
    using that by (simp add: line_wanted_def has_line_def)
  then show ?thesis
    using assms(1) justified_line [OF assms(2), of sel inc]
    by (auto simp: include_setup_def intro!: all_justified_map_set split: option.splits if_splits)
qed

lemma included_justified: "all_justified def sel (cf_included (configure def sel))"
proof -
  define acc1 where "acc1 = foldl (include_selected sel) ([], []) (pd_lines def)"
  define acc2 where "acc2 = foldl (include_required def sel) acc1 (pd_rules def)"
  define acc3 where "acc3 = foldl (include_auto def sel) acc2 (pd_rules def)"
  have "all_justified def sel (fst acc1)" unfolding acc1_def
    by (rule foldl_invariant [where P = "\<lambda>acc. all_justified def sel (fst acc)"])
      (simp_all add: all_justified_def [of _ _ "[]"] include_selected_justified)
  then have "all_justified def sel (fst acc2)" unfolding acc2_def
    by (rule foldl_invariant) (rule include_required_justified)
  then have "all_justified def sel (fst acc3)" unfolding acc3_def
    by (rule foldl_invariant) (rule include_auto_justified)
  then have "all_justified def sel (foldl include_setup (fst acc3) (pd_lines def))"
    by (rule foldl_invariant) (rule include_setup_justified)
  then show ?thesis by (simp add: configure_def Let_def acc1_def acc2_def acc3_def)
qed

text \<open>What a client is quoted is what was chosen: every line of a configuration is a required line, an
  option the client selected, a line a rule of the model asks for because of another line of the
  configuration, or the setup fee of such a line; and every required line and selected option
  is there.\<close>

theorem included_lines_justified:
  "(has_line (cf_included (configure def sel)) k
      \<longrightarrow> justified def sel (cf_included (configure def sel)) k)
   \<and> (\<forall>l \<in> set (pd_lines def).
        pp_kind l = LK_REQUIRED \<or> pp_kind l = LK_OPTIONAL \<and> pp_key l \<in> set (ps_selectedOptions sel)
        \<longrightarrow> has_line (cf_included (configure def sel)) (pp_key l))"
proof
  show "has_line (cf_included (configure def sel)) k
      \<longrightarrow> justified def sel (cf_included (configure def sel)) k"
    using included_justified by (simp add: all_justified_def)
  have grow: "has_line (foldl f inc xs) k"
    if "has_line inc k" "\<And>inc x. has_line inc k \<Longrightarrow> has_line (f inc x) k"
    for f :: "(string \<times> rat) list \<Rightarrow> proposal_pricing_line \<Rightarrow> _" and inc xs k
    using that by (induction xs arbitrary: inc) auto
  have grow2: "has_line (fst (foldl f acc xs)) k"
    if "has_line (fst acc) k" "\<And>acc x. has_line (fst acc) k \<Longrightarrow> has_line (fst (f acc x)) k"
    for f :: "inclusion \<Rightarrow> 'a \<Rightarrow> inclusion" and acc xs k
    using that by (induction xs arbitrary: acc) auto
  have grow1: "has_line (fst (foldl f acc xs)) k"
    if "x \<in> set xs" "\<And>acc. has_line (fst (f acc x)) k"
      "\<And>acc x. has_line (fst acc) k \<Longrightarrow> has_line (fst (f acc x)) k"
    for f :: "inclusion \<Rightarrow> proposal_pricing_line \<Rightarrow> inclusion" and acc xs k x
  proof -
    note members = that
    obtain us vs where "xs = us @ x # vs" using split_list [OF members(1)] by blast
    then show ?thesis using grow2 [OF members(2,3)] by simp
  qed
  show "\<forall>l \<in> set (pd_lines def).
        pp_kind l = LK_REQUIRED \<or> pp_kind l = LK_OPTIONAL \<and> pp_key l \<in> set (ps_selectedOptions sel)
        \<longrightarrow> has_line (cf_included (configure def sel)) (pp_key l)"
  proof (intro ballI impI)
    fix l assume l: "l \<in> set (pd_lines def)"
      "pp_kind l = LK_REQUIRED \<or> pp_kind l = LK_OPTIONAL \<and> pp_key l \<in> set (ps_selectedOptions sel)"
    have "has_line (fst (foldl (include_selected sel) ([], []) (pd_lines def))) (pp_key l)"
      by (rule grow1 [OF l(1)]) (use l(2) in \<open>auto simp: include_selected_def\<close>)
    then show "has_line (cf_included (configure def sel)) (pp_key l)"
      unfolding configure_def Let_def
      by (auto intro!: grow grow2 simp: include_required_def include_auto_def include_setup_def
          split: proposal_rule.splits option.splits)
  qed
qed

subsection \<open>A configuration without errors\<close>

definition within_spec ::
    "(string \<times> rat) list \<Rightarrow> proposal_pricing_line \<Rightarrow> rat \<Rightarrow> bool" where
  "within_spec included l q =
     (case pp_quantity l of
        None \<Rightarrow> True
      | Some qd \<Rightarrow> (pp_kind l = LK_SETUP \<or> pq_min qd \<le> q)
          \<and> (case pq_max qd of None \<Rightarrow> True | Some m \<Rightarrow> q \<le> m)
          \<and> (case pq_maxFrom qd of None \<Rightarrow> True
             | Some f \<Rightarrow> f = [] \<or> q \<le> quantity_or_zero included f))"

lemma no_bound_errors:
  "bound_errors def sel included (k, q) = [] \<Longrightarrow>
     is_integer q \<and> 0 \<le> q \<and> within_spec included (the (line_of def k)) q"
  by (auto simp: bound_errors_def within_spec_def Let_def not_less
      split: if_splits option.splits default_quantity.splits)

text \<open>C40: a configuration without errors is one that may be quoted and signed: every quantity is a natural
  number within the bounds of its line (its minimum, its maximum, and the quantity of the line it
  is limited by), every line a retained line requires is retained, one line of each
  at-least-one rule has a positive quantity, every choice has one of its values, only
  options were selected, and every retained line has a price.\<close>

theorem configuration_sound:
  assumes "cf_errors (configure def sel) = []"
  shows "list_all (\<lambda>(k, q). is_integer q \<and> 0 \<le> q
            \<and> within_spec (cf_included (configure def sel)) (the (line_of def k)) q)
          (cf_included (configure def sel))
    \<and> list_all (\<lambda>r. case r of
          REQUIRES key line requires message \<Rightarrow>
            if has_line (cf_included (configure def sel)) line
            then list_all (has_line (cf_included (configure def sel))) requires else True
        | AT_LEAST_ONE key lines message \<Rightarrow>
            list_ex (\<lambda>k. 0 < quantity_or_zero (cf_included (configure def sel)) k) lines
        | _ \<Rightarrow> True) (pd_rules def)
    \<and> list_all (\<lambda>c. list_ex (\<lambda>x. map_of (cf_choices (configure def sel)) (ch_key c) = Some (co_value x))
          (ch_options c)) (pd_choices def)
    \<and> list_all (\<lambda>k. map_option pp_kind (line_of def k) = Some LK_OPTIONAL) (ps_selectedOptions sel)
    \<and> list_all (\<lambda>l. if 0 < quantity_or_zero (cf_included (configure def sel)) (pp_key l)
          then unit_price_cents l (cf_choices (configure def sel)) \<noteq> None else True) (pd_lines def)"
proof -
  define inc where "inc = cf_included (configure def sel)"
  define choices where "choices = cf_choices (configure def sel)"
  have c: "choices = resolve_choices def sel" by (simp add: choices_def configure_def Let_def)
  have e: "choice_errors def sel choices = []" "selection_errors def sel = []"
      "concat (map (bound_errors def sel inc) inc) = []"
      "concat (map (rule_errors inc) (pd_rules def)) = []" "price_errors def choices inc = []"
    using assms by (simp_all add: configure_def Let_def inc_def choices_def)
  have "list_all (\<lambda>(k, q). is_integer q \<and> 0 \<le> q \<and> within_spec inc (the (line_of def k)) q) inc"
    using e(3) no_bound_errors [of def sel inc] by (auto simp: list_all_iff)
  moreover have "list_all (\<lambda>r. case r of
          REQUIRES key line requires message \<Rightarrow>
            if has_line inc line then list_all (has_line inc) requires else True
        | AT_LEAST_ONE key lines message \<Rightarrow> list_ex (\<lambda>k. 0 < quantity_or_zero inc k) lines
        | _ \<Rightarrow> True) (pd_rules def)"
    using e(4) by (fastforce simp: list_all_iff list_ex_iff rule_errors_def
        split: proposal_rule.splits if_splits)
  moreover have "list_all (\<lambda>c. list_ex (\<lambda>x. map_of choices (ch_key c) = Some (co_value x))
          (ch_options c)) (pd_choices def)"
    using e(1) by (simp add: choice_errors_def list_all_iff list_ex_iff filter_empty_conv) metis
  moreover have "list_all (\<lambda>k. map_option pp_kind (line_of def k) = Some LK_OPTIONAL) (ps_selectedOptions sel)"
    using e(2) by (simp add: selection_errors_def list_all_iff filter_empty_conv)
  moreover have "list_all (\<lambda>l. if 0 < quantity_or_zero inc (pp_key l)
          then unit_price_cents l choices \<noteq> None else True) (pd_lines def)"
    using e(5) by (auto simp: price_errors_def list_all_iff filter_empty_conv)
  ultimately show ?thesis unfolding inc_def choices_def by blast
qed

subsection \<open>Example\<close>

text \<open>Seats at 30.00 a month, a backup option, the setup of the seats, at least 500.00 a month.\<close>

definition seats_proposal :: proposal_definition where
  "seats_proposal =
     \<lparr>pd_choices = [\<lparr>ch_key = ''engagement'', ch_label = ''Engagement'',
        ch_options = [\<lparr>co_value = ''12'', co_label = ''12 mois'', co_default = True, co_commitmentMonths = Some 12\<rparr>,
                      \<lparr>co_value = ''36'', co_label = ''36 mois'', co_default = False, co_commitmentMonths = Some 36\<rparr>],
        ch_editableByClient = True, ch_priceStatus = None\<rparr>],
      pd_lines =
        [\<lparr>pp_key = ''poste'', pp_label = ''Postes'', pp_kind = LK_REQUIRED, pp_unit = ''poste'',
          pp_recurrence = PR_MONTHLY,
          pp_quantity = Some \<lparr>pq_default = QTag ''{{parc.nbPostes}}'', pq_min = 1, pq_max = None,
            pq_maxFrom = None, pq_linkedTo = None, pq_editableByClient = True\<rparr>,
          pp_pricing = ByChoice ''engagement'' [(''12'', 3000), (''36'', 2500)], pp_priceFrom = None,
          pp_priceStatus = PS_VALIDATED, pp_priceStatusByChoice = None, pp_group = LG_RECURRING,
          pp_grid = None\<rparr>,
         \<lparr>pp_key = ''mes'', pp_label = ''Mise en service'', pp_kind = LK_SETUP, pp_unit = ''poste'',
          pp_recurrence = PR_ONE_TIME,
          pp_quantity = Some \<lparr>pq_default = QNumber 0, pq_min = 0, pq_max = None, pq_maxFrom = None,
            pq_linkedTo = Some ''poste'', pq_editableByClient = False\<rparr>,
          pp_pricing = UnitCents 5000, pp_priceFrom = None,
          pp_priceStatus = PS_TO_VALIDATE, pp_priceStatusByChoice = None, pp_group = LG_SETUP,
          pp_grid = None\<rparr>],
      pd_rules = [MINIMUM_MONTHLY ''mini'' 50000 ''Minimum mensuel'' PS_VALIDATED],
      pd_vatRatePercent = ''20''\<rparr>"

definition ten_seats :: proposal_selection where
  "ten_seats =
     \<lparr>ps_choices = [], ps_quantities = [], ps_selectedOptions = [],
      ps_context = [(''parc.nbPostes'', CString ''10'')]\<rparr>"

lemma ten_seats_configured:
  "configure seats_proposal ten_seats =
     \<lparr>cf_choices = [(''engagement'', ''12'')], cf_commitmentMonths = 12,
      cf_included = [(''poste'', 10), (''mes'', 10)], cf_errors = []\<rparr>"
  by code_simp

theorem configuration_sound_witness:
  "list_all (\<lambda>(k, q). is_integer q \<and> 0 \<le> q
      \<and> within_spec (cf_included (configure seats_proposal ten_seats)) (the (line_of seats_proposal k)) q)
    (cf_included (configure seats_proposal ten_seats))"
  by (rule conjunct1 [OF configuration_sound]) (simp add: ten_seats_configured)

theorem included_lines_justified_witness:
  "justified seats_proposal ten_seats (cf_included (configure seats_proposal ten_seats)) ''mes''"
  using included_lines_justified [of seats_proposal ten_seats "''mes''"]
  by (simp add: ten_seats_configured has_line_def)

end
