(* ===== verification/ProposalQuote.thy ===== *)
theory ProposalQuote
  imports ProposalConfig Serialize
begin

text \<open>
  The quote of a proposal: the second step of \<open>packages/pricing/src/proposal.ts\<close>. The configuration
  becomes a schedule of the engine, priced by \<open>priceAt\<close> (once more when the monthly minimum adds a
  line). The labels and units are those of the definition.
\<close>

subsection \<open>The schedule of a configuration\<close>

record proposal_bucket =
  bk_htCents :: int
  bk_vatCents :: int
  bk_ttcCents :: int

definition EMPTY_BUCKET :: proposal_bucket where
  "EMPTY_BUCKET = \<lparr>bk_htCents = 0, bk_vatCents = 0, bk_ttcCents = 0\<rparr>"

definition bucket :: "'d decimal_ops \<Rightarrow> priced_line list \<Rightarrow> pricing_settings \<Rightarrow> proposal_bucket" where
  "bucket dc lines settings =
     (if lines = [] then EMPTY_BUCKET
      else let t = compute_totals dc lines settings
           in \<lparr>bk_htCents = to_htCents t, bk_vatCents = to_vatCents t, bk_ttcCents = to_ttcCents t\<rparr>)"

fun ENGINE_RECURRENCE :: "proposal_recurrence \<Rightarrow> recurrence" where
  "ENGINE_RECURRENCE PR_ONE_TIME = ONE_OFF"
| "ENGINE_RECURRENCE PR_MONTHLY = MONTHLY"
| "ENGINE_RECURRENCE PR_QUARTERLY = QUARTERLY"
| "ENGINE_RECURRENCE PR_YEARLY = YEARLY"

definition cents_to_euro_string :: "int \<Rightarrow> string" where
  "cents_to_euro_string cents =
     (if cents < 0 then ''-'' else [])
     @ nat_string (nat \<bar>cents\<bar> div 100) @ ''.''
     @ pad_start 2 (CHR ''0'') (nat_string (nat \<bar>cents\<bar> mod 100))"

definition grid_variant_code ::
    "proposal_pricing_line \<Rightarrow> (string \<times> string) list \<Rightarrow> string option" where
  "grid_variant_code l choices =
     (case pp_grid l of
        None \<Rightarrow> None
      | Some g \<Rightarrow>
          (case pp_pricing l of
             UnitCents cents \<Rightarrow> map_of (gr_variants g) ''*''
           | ByChoice dependsOn byChoice \<Rightarrow>
               (case map_of choices dependsOn of None \<Rightarrow> None | Some v \<Rightarrow> map_of (gr_variants g) v)))"

definition lower_char :: "char \<Rightarrow> char" where
  "lower_char c = (let n = of_char c in if 65 \<le> n \<and> n \<le> (90 :: nat) then char_of (n + 32) else c)"

text \<open>\<open>String(qty)\<close> of a quantity of a configuration, a natural number, shows its digits below \<open>10^21\<close>.\<close>

definition to_engine_line ::
    "proposal_pricing_line \<Rightarrow> rat \<Rightarrow> int \<Rightarrow> string \<Rightarrow> string option \<Rightarrow> pricing_line" where
  "to_engine_line l qty priceCents vat code =
     (let (kind, recurrence) =
        (case pp_recurrence l of
           PR_INFO \<Rightarrow> (if contains ''heure'' (map lower_char (pp_unit l)) then HOURLY else UNIT, Some ONE_OFF)
         | PR_ONE_TIME \<Rightarrow> (SETUP_FEE, None)
         | r \<Rightarrow> (UNIT, Some (ENGINE_RECURRENCE r)))
      in \<lparr>ln_id = pp_key l, ln_code = (case code of None \<Rightarrow> pp_key l | Some c \<Rightarrow> c),
          ln_label = pp_label l, ln_unit = pp_unit l, ln_kind = kind, ln_mode = MANUAL,
          ln_vatRatePercent = vat, ln_quantity = Some (FIXED (int_string \<lfloor>qty\<rfloor>)),
          ln_recurrence = recurrence, ln_unitPrice = Some (cents_to_euro_string priceCents),
          ln_tiers = None, ln_rule = None, ln_formula = None, ln_revision = None,
          ln_hoursPerPack = None, ln_discount = None\<rparr>)"

definition retained_lines ::
    "proposal_definition \<Rightarrow> configuration \<Rightarrow> pricing_line list" where
  "retained_lines def cfg =
     map (\<lambda>l. to_engine_line l (quantity_or_zero (cf_included cfg) (pp_key l))
                (the (unit_price_cents l (cf_choices cfg))) (pd_vatRatePercent def)
                (grid_variant_code l (cf_choices cfg)))
       (filter (\<lambda>l. pp_kind l \<noteq> LK_INFO \<and> quantity_or_zero (cf_included cfg) (pp_key l) \<noteq> 0) (pd_lines def))"

definition info_tariffs :: "proposal_definition \<Rightarrow> configuration \<Rightarrow> pricing_line list" where
  "info_tariffs def cfg =
     map (\<lambda>l. to_engine_line l 0 (the (unit_price_cents l (cf_choices cfg))) (pd_vatRatePercent def)
                (grid_variant_code l (cf_choices cfg)))
       (filter (\<lambda>l. pp_kind l = LK_INFO \<and> unit_price_cents l (cf_choices cfg) \<noteq> None) (pd_lines def))"

definition discount_line ::
    "proposal_definition \<Rightarrow> configuration \<Rightarrow> proposal_rule \<Rightarrow> pricing_line list" where
  "discount_line def cfg r =
     (case r of
        DISCOUNT_PERCENT key percent appliesTo trigger label status \<Rightarrow>
          (let targets = filter (\<lambda>k. 0 < quantity_or_zero (cf_included cfg) k) appliesTo
           in if \<not> has_line (cf_included cfg) trigger \<or> targets = [] then []
              else [\<lparr>ln_id = key, ln_code = key, ln_label = label, ln_unit = ''remise'',
                     ln_kind = DISCOUNT, ln_mode = MANUAL, ln_vatRatePercent = pd_vatRatePercent def,
                     ln_quantity = None, ln_recurrence = None, ln_unitPrice = None, ln_tiers = None,
                     ln_rule = None, ln_formula = None, ln_revision = None, ln_hoursPerPack = None,
                     ln_discount = Some \<lparr>ds_type = PERCENT, ds_value = percent,
                                         ds_appliesTo = LINES targets\<rparr>\<rparr>])
      | _ \<Rightarrow> [])"

definition engine_lines :: "proposal_definition \<Rightarrow> configuration \<Rightarrow> pricing_line list" where
  "engine_lines def cfg =
     retained_lines def cfg @ info_tariffs def cfg @ concat (map (discount_line def cfg) (pd_rules def))"

record quote_options =
  qo_date :: string
  qo_settings :: "partial_settings option"
  qo_scheduleId :: "string option"

definition proposal_schedule :: "quote_options \<Rightarrow> pricing_line list \<Rightarrow> pricing_schedule" where
  "proposal_schedule opts lines =
     \<lparr>sd_id = (case qo_scheduleId opts of None \<Rightarrow> ''proposal'' | Some i \<Rightarrow> i),
      sd_validFrom = qo_date opts, sd_validTo = None, sd_currency = ''EUR'', sd_lines = lines\<rparr>"

definition full_settings :: "pricing_settings \<Rightarrow> partial_settings" where
  "full_settings s =
     \<lparr>ps_rounding = Some (st_rounding s), ps_unitPriceScale = Some (st_unitPriceScale s),
      ps_overrideApprovalThresholdPercent = Some (st_overrideApprovalThresholdPercent s),
      ps_indexLookup = Some (st_indexLookup s)\<rparr>"

text \<open>\<open>priceAt({ schedules: [engineSchedule], settings }, opts.date)\<close>\<close>

definition price_schedule ::
    "'d decimal_ops \<Rightarrow> pricing_settings \<Rightarrow> pricing_schedule \<Rightarrow> string \<Rightarrow> pricing_result priced" where
  "price_schedule dc settings schedule date =
     price_at dc \<lparr>in_schedules = [schedule], in_indexes = [], in_overrides = [], in_quantities = [],
                  in_ruleCatalog = None, in_settings = Some (full_settings settings),
                  in_commitmentMonths = None\<rparr> date"

fun minimum_rule :: "proposal_rule list \<Rightarrow> (string \<times> int \<times> string) option" where
  "minimum_rule [] = None"
| "minimum_rule (MINIMUM_MONTHLY key amount label status # rs) = Some (key, amount, label)"
| "minimum_rule (r # rs) = minimum_rule rs"

definition minimum_line ::
    "proposal_definition \<Rightarrow> string \<Rightarrow> string \<Rightarrow> int \<Rightarrow> pricing_line" where
  "minimum_line def key label complement =
     \<lparr>ln_id = key, ln_code = key, ln_label = label, ln_unit = ''forfait / mois'',
      ln_kind = FLAT_MONTHLY, ln_mode = MANUAL, ln_vatRatePercent = pd_vatRatePercent def,
      ln_quantity = Some (FIXED ''1''), ln_recurrence = None,
      ln_unitPrice = Some (cents_to_euro_string complement), ln_tiers = None, ln_rule = None,
      ln_formula = None, ln_revision = None, ln_hoursPerPack = None, ln_discount = None\<rparr>"

definition price_with_minimum ::
    "'d decimal_ops \<Rightarrow> proposal_definition \<Rightarrow> pricing_settings \<Rightarrow> quote_options \<Rightarrow> pricing_line list
     \<Rightarrow> (pricing_schedule \<times> pricing_result) priced" where
  "price_with_minimum dc def settings opts lines =
     (let first = proposal_schedule opts lines in
      ebind (price_schedule dc settings first (qo_date opts)) (\<lambda>result.
        case minimum_rule (pd_rules def) of
          None \<Rightarrow> Inr (first, result)
        | Some (key, amount, label) \<Rightarrow>
            if to_monthlyLinesCents (pr_totals result) < amount then
              (let second = proposal_schedule opts (lines @
                 [minimum_line def key label (amount - to_monthlyLinesCents (pr_totals result))])
               in ebind (price_schedule dc settings second (qo_date opts)) (\<lambda>again. Inr (second, again)))
            else Inr (first, result)))"

subsection \<open>The quote\<close>

datatype quoted_group = QG line_group | QG_DISCOUNT | QG_MINIMUM

datatype quoted_recurrence = QR proposal_recurrence | QR_DISCOUNT | QR_MINIMUM

text \<open>The quantity is \<open>Number(p.quantity)\<close>.\<close>

record quoted_line =
  ql_key :: string
  ql_label :: string
  ql_group :: quoted_group
  ql_recurrence :: quoted_recurrence
  ql_unit :: string
  ql_quantity :: "rat option"
  ql_unitPriceCents :: int
  ql_totalHtCents :: int
  ql_priceStatus :: price_status
  ql_priceFrom :: bool

datatype validation_scope = VS_LINE | VS_RULE | VS_SECTION | VS_CHOICE

record pending_validation =
  pv_scope :: validation_scope
  pv_key :: string
  pv_label :: string
  pv_choiceValue :: "string option"

record proposal_quote =
  pt_choices :: "(string \<times> string) list"
  pt_quantities :: "(string \<times> rat) list"
  pt_selectedOptions :: "string list"
  pt_commitmentMonths :: int
  pt_lines :: "quoted_line list"
  pt_infoLines :: "quoted_line list"
  pt_oneTime :: proposal_bucket
  pt_monthly :: proposal_bucket
  pt_quarterly :: proposal_bucket
  pt_yearly :: proposal_bucket
  pt_commitment :: proposal_bucket
  pt_errors :: "config_error list"
  pt_blockingValidations :: "pending_validation list"
  pt_engineSchedule :: "pricing_schedule option"
  pt_engineResult :: "pricing_result option"

definition selected_options :: "proposal_definition \<Rightarrow> configuration \<Rightarrow> string list" where
  "selected_options def cfg =
     map pp_key (filter (\<lambda>l. pp_kind l = LK_OPTIONAL \<and> has_line (cf_included cfg) (pp_key l)) (pd_lines def))"

definition empty_quote :: "proposal_definition \<Rightarrow> configuration \<Rightarrow> proposal_quote" where
  "empty_quote def cfg =
     \<lparr>pt_choices = cf_choices cfg, pt_quantities = cf_included cfg,
      pt_selectedOptions = selected_options def cfg, pt_commitmentMonths = cf_commitmentMonths cfg,
      pt_lines = [], pt_infoLines = [], pt_oneTime = EMPTY_BUCKET, pt_monthly = EMPTY_BUCKET,
      pt_quarterly = EMPTY_BUCKET, pt_yearly = EMPTY_BUCKET, pt_commitment = EMPTY_BUCKET,
      pt_errors = cf_errors cfg, pt_blockingValidations = [], pt_engineSchedule = None,
      pt_engineResult = None\<rparr>"

definition rule_of :: "proposal_definition \<Rightarrow> string \<Rightarrow> proposal_rule option" where
  "rule_of def k = List.find (\<lambda>r. rule_key r = k) (pd_rules def)"

fun rule_price_status :: "proposal_rule \<Rightarrow> price_status option" where
  "rule_price_status (MINIMUM_MONTHLY key amount label status) = Some status"
| "rule_price_status (DISCOUNT_PERCENT key percent appliesTo trigger label status) = Some status"
| "rule_price_status r = None"

definition is_minimum :: "proposal_rule option \<Rightarrow> bool" where
  "is_minimum r = (case r of Some (MINIMUM_MONTHLY key amount label status) \<Rightarrow> True | _ \<Rightarrow> False)"

definition quoted_line_of ::
    "'d decimal_ops \<Rightarrow> proposal_definition \<Rightarrow> configuration \<Rightarrow> priced_line \<Rightarrow> quoted_line" where
  "quoted_line_of dc def cfg p =
     (let tl = line_of def (pl_lineId p);
          rule = rule_of def (pl_lineId p);
          unitCents = to_cents dc (dec_of_string dc (pl_unitPrice p)) HALF_AWAY_FROM_ZERO
      in \<lparr>ql_key = pl_lineId p, ql_label = pl_label p,
          ql_group = (case tl of Some l \<Rightarrow> QG (pp_group l)
                      | None \<Rightarrow> if is_minimum rule then QG_MINIMUM else QG_DISCOUNT),
          ql_recurrence = (case tl of Some l \<Rightarrow> QR (pp_recurrence l)
                           | None \<Rightarrow> if is_minimum rule then QR_MINIMUM else QR_DISCOUNT),
          ql_unit = pl_unit p, ql_quantity = js_number (pl_quantity p),
          ql_unitPriceCents = (if pl_kind p = DISCOUNT then pl_totalHtCents p else unitCents),
          ql_totalHtCents = pl_totalHtCents p,
          ql_priceStatus = (case tl of
              Some l \<Rightarrow> effective_price_status l (cf_choices cfg)
            | None \<Rightarrow> (case rule of None \<Rightarrow> PS_VALIDATED
                       | Some r \<Rightarrow> (case rule_price_status r of None \<Rightarrow> PS_VALIDATED | Some s \<Rightarrow> s))),
          ql_priceFrom = (case tl of None \<Rightarrow> False
                          | Some l \<Rightarrow> (case pp_priceFrom l of None \<Rightarrow> False | Some b \<Rightarrow> b))\<rparr>)"

definition is_info :: "proposal_definition \<Rightarrow> string \<Rightarrow> bool" where
  "is_info def k = (map_option pp_kind (line_of def k) = Some LK_INFO)"

definition blocking_validations ::
    "proposal_definition \<Rightarrow> quoted_line list \<Rightarrow> pending_validation list" where
  "blocking_validations def quoted =
     map (\<lambda>x. \<lparr>pv_scope = (if ql_key x \<in> set (map pp_key (pd_lines def)) then VS_LINE else VS_RULE),
               pv_key = ql_key x, pv_label = ql_label x, pv_choiceValue = None\<rparr>)
       (filter (\<lambda>x. ql_priceStatus x = PS_TO_VALIDATE) quoted)
     @ map (\<lambda>c. \<lparr>pv_scope = VS_CHOICE, pv_key = ch_key c, pv_label = ch_label c, pv_choiceValue = None\<rparr>)
         (filter (\<lambda>c. ch_priceStatus c = Some PS_TO_VALIDATE) (pd_choices def))"

text \<open>\<open>byRec\<close> and the bucket of a recurrence.\<close>

definition recurrence_bucket ::
    "'d decimal_ops \<Rightarrow> proposal_definition \<Rightarrow> pricing_result \<Rightarrow> recurrence \<Rightarrow> proposal_bucket" where
  "recurrence_bucket dc def result rec =
     bucket dc (filter (\<lambda>l. pl_recurrence l = rec \<and> \<not> is_info def (pl_lineId l)) (pr_lines result))
       (pr_settings result)"

text \<open>The division of a \<open>bigint\<close> truncates.\<close>

definition bigint_div :: "int \<Rightarrow> int \<Rightarrow> int" where
  "bigint_div m n = (if m < 0 then - ((- m) div n) else m div n)"

definition over_commitment ::
    "int \<Rightarrow> (proposal_bucket \<Rightarrow> int) \<Rightarrow> proposal_bucket \<Rightarrow> proposal_bucket \<Rightarrow> proposal_bucket \<Rightarrow> int" where
  "over_commitment m f monthly quarterly yearly =
     f monthly * m + f quarterly * bigint_div m 3 + f yearly * bigint_div m 12"

definition quote_of_result ::
    "'d decimal_ops \<Rightarrow> proposal_definition \<Rightarrow> configuration \<Rightarrow> pricing_schedule \<Rightarrow> pricing_result
     \<Rightarrow> proposal_quote" where
  "quote_of_result dc def cfg schedule result =
     (let quoted = map (quoted_line_of dc def cfg) (pr_lines result);
          lines = filter (\<lambda>x. \<not> is_info def (ql_key x)) quoted;
          infoLines = filter (\<lambda>x. is_info def (ql_key x)) quoted;
          oneTime = recurrence_bucket dc def result ONE_OFF;
          monthly = recurrence_bucket dc def result MONTHLY;
          quarterly = recurrence_bucket dc def result QUARTERLY;
          yearly = recurrence_bucket dc def result YEARLY;
          m = cf_commitmentMonths cfg;
          over = (\<lambda>f. over_commitment m f monthly quarterly yearly)
      in \<lparr>pt_choices = cf_choices cfg, pt_quantities = cf_included cfg,
          pt_selectedOptions = selected_options def cfg, pt_commitmentMonths = m,
          pt_lines = lines, pt_infoLines = infoLines, pt_oneTime = oneTime, pt_monthly = monthly,
          pt_quarterly = quarterly, pt_yearly = yearly,
          pt_commitment = \<lparr>bk_htCents = over bk_htCents, bk_vatCents = over bk_vatCents,
                           bk_ttcCents = over bk_ttcCents\<rparr>,
          pt_errors = cf_errors cfg
            @ (if bk_htCents quarterly \<noteq> 0 \<and> m mod 3 \<noteq> 0 then [NotMultipleOf3] else [])
            @ (if bk_htCents yearly \<noteq> 0 \<and> m mod 12 \<noteq> 0 then [NotMultipleOf12] else []),
          pt_blockingValidations = blocking_validations def lines,
          pt_engineSchedule = Some schedule, pt_engineResult = Some result\<rparr>)"

definition quote_proposal ::
    "'d decimal_ops \<Rightarrow> proposal_definition \<Rightarrow> proposal_selection \<Rightarrow> quote_options \<Rightarrow> proposal_quote priced" where
  "quote_proposal dc def sel opts =
     ebind (resolve_settings dc (qo_settings opts)) (\<lambda>settings.
       let cfg = configure def sel in
       if list_ex (\<lambda>kq. \<not> is_integer (snd kq) \<or> snd kq < 0) (cf_included cfg)
          \<or> list_ex fatal_error (cf_errors cfg)
       then Inr (empty_quote def cfg)
       else ebind (price_with_minimum dc def settings opts (engine_lines def cfg)) (\<lambda>(schedule, result).
         Inr (quote_of_result dc def cfg schedule result)))"

subsection \<open>Elements to validate\<close>

record proposal_section =
  se_key :: string
  se_title :: string
  se_validationStatus :: "price_status option"
  se_excluded :: bool

definition section_validation :: "proposal_section \<Rightarrow> pending_validation" where
  "section_validation s =
     \<lparr>pv_scope = VS_SECTION, pv_key = se_key s, pv_label = se_title s, pv_choiceValue = None\<rparr>"

definition blocking_section_validations :: "proposal_section list \<Rightarrow> pending_validation list" where
  "blocking_section_validations sections =
     map section_validation
       (filter (\<lambda>s. se_validationStatus s = Some PS_TO_VALIDATE \<and> \<not> se_excluded s) sections)"

definition line_validations :: "proposal_pricing_line \<Rightarrow> pending_validation list" where
  "line_validations l =
     (case pp_priceStatusByChoice l of
        Some byChoice \<Rightarrow>
          map (\<lambda>(v, s). \<lparr>pv_scope = VS_LINE, pv_key = pp_key l, pv_label = pp_label l,
                         pv_choiceValue = Some v\<rparr>)
            (filter (\<lambda>(v, s). s = PS_TO_VALIDATE) byChoice)
      | None \<Rightarrow>
          if pp_priceStatus l = PS_TO_VALIDATE
          then [\<lparr>pv_scope = VS_LINE, pv_key = pp_key l, pv_label = pp_label l, pv_choiceValue = None\<rparr>]
          else [])"

definition rule_validations :: "proposal_rule \<Rightarrow> pending_validation list" where
  "rule_validations r =
     (case r of
        MINIMUM_MONTHLY key amount label status \<Rightarrow>
          if status = PS_TO_VALIDATE
          then [\<lparr>pv_scope = VS_RULE, pv_key = key, pv_label = label, pv_choiceValue = None\<rparr>] else []
      | DISCOUNT_PERCENT key percent appliesTo trigger label status \<Rightarrow>
          if status = PS_TO_VALIDATE
          then [\<lparr>pv_scope = VS_RULE, pv_key = key, pv_label = label, pv_choiceValue = None\<rparr>] else []
      | _ \<Rightarrow> [])"

definition list_pending_validations ::
    "proposal_definition \<Rightarrow> proposal_section list \<Rightarrow> pending_validation list" where
  "list_pending_validations def sections =
     concat (map line_validations (pd_lines def)) @ concat (map rule_validations (pd_rules def))
     @ map section_validation
         (filter (\<lambda>s. se_validationStatus s = Some PS_TO_VALIDATE) sections)
     @ map (\<lambda>c. \<lparr>pv_scope = VS_CHOICE, pv_key = ch_key c, pv_label = ch_label c, pv_choiceValue = None\<rparr>)
         (filter (\<lambda>c. ch_priceStatus c = Some PS_TO_VALIDATE) (pd_choices def))"

end
