(* ===== verification/QuoteLaws.thy ===== *)
theory QuoteLaws
  imports ProposalQuote PriceTotals Codes
begin

text \<open>
  What a quote promises: the price shown is the price of the schedule that is frozen with it, and the
  monthly minimum of the model is reached exactly, through the text of the complement, its
  parsing, and the second run of the engine.
\<close>

subsection \<open>One more line\<close>

lemma emap_snoc:
  "emap f (xs @ [x]) = ebind (emap f xs) (\<lambda>ys. ebind (f x) (\<lambda>y. Inr (ys @ [y])))"
proof (induction xs)
  case (Cons a xs)
  then show ?case by (cases "f a"; cases "emap f xs"; cases "f x") auto
qed (simp add: ebind_def split: sum.splits)

lemma find_snoc_Some: "List.find P xs = Some x \<Longrightarrow> List.find P (xs @ [y]) = Some x"
  by (induction xs) (auto split: if_splits)

lemma find_app:
  "List.find P (xs @ ys) = (case List.find P xs of Some x \<Rightarrow> Some x | None \<Rightarrow> List.find P ys)"
  by (induction xs) auto

definition discounts_lines :: "pricing_line \<Rightarrow> bool" where
  "discounts_lines l =
     (case ln_discount l of
        None \<Rightarrow> True
      | Some d \<Rightarrow> (case ds_appliesTo d of SUBTOTAL \<Rightarrow> False | LINES ids \<Rightarrow> True))"

lemma discount_target_extend:
  "discount_target_of line ls priced i = Inr t \<Longrightarrow>
     discount_target_of line (ls @ [m]) (priced @ [pm]) i = Inr t"
  by (auto simp: discount_target_of_def priced_get_def find_snoc_Some split: option.splits if_splits)

lemma discount_targets_extend:
  assumes "discount_targets line ls priced d = Inr ts" "ds_appliesTo d = LINES ids"
  shows "discount_targets line (ls @ [m]) (priced @ [pm]) d = Inr ts"
proof -
  have "emap (discount_target_of line (ls @ [m]) (priced @ [pm])) ids = Inr us"
    if "emap (discount_target_of line ls priced) ids = Inr us" for us ids
    using that by (simp add: emap_Inr_iff) (erule list_all2_mono, rule discount_target_extend)
  then show ?thesis
    using assms by (auto simp: discount_targets_def ebind_Inr_iff split: if_splits)
qed

lemma discount_line_extend:
  assumes "price_discount_line dc line ls priced ctx = Inr p" "discounts_lines line"
  shows "price_discount_line dc line (ls @ [m]) (priced @ [pm]) ctx = Inr p"
  using assms discount_targets_extend
  by (fastforce simp: price_discount_line_def discounts_lines_def ebind_Inr_iff Let_def
      split: option.splits if_splits discount_target.splits)

lemma price_lines_extend:
  assumes one: "price_lines dc s ctx = Inr ps"
    and two: "price_lines dc (s\<lparr>sd_lines := sd_lines s @ [m]\<rparr>) ctx = Inr qs"
    and m: "ln_kind m \<noteq> DISCOUNT" "ln_id m \<notin> ln_id ` set (sd_lines s)"
    and discounts: "\<And>l. l \<in> set (sd_lines s) \<Longrightarrow> discounts_lines l"
  shows "\<exists>pm. price_regular_line dc m ctx = Inr pm \<and> qs = ps @ [pm]"
proof -
  let ?ls = "sd_lines s"
  let ?reg = "filter (\<lambda>l. ln_kind l \<noteq> DISCOUNT) ?ls" and ?disc = "filter (\<lambda>l. ln_kind l = DISCOUNT) ?ls"
  obtain priced ds where p: "emap (\<lambda>l. with_line_of l (price_regular_line dc l ctx)) ?reg = Inr priced"
    and d: "emap (\<lambda>l. with_line_of l (price_discount_line dc l ?ls priced ctx)) ?disc = Inr ds"
    and ps: "ps = map (\<lambda>l. the (priced_get (priced @ ds) (ln_id l))) ?ls"
    using one by (auto simp: price_lines_def ebind_Inr_iff)
  obtain pm where pm: "price_regular_line dc m ctx = Inr pm"
    using two m(1) p by (auto simp: price_lines_def ebind_Inr_iff emap_snoc)
  have "emap (\<lambda>l. with_line_of l (price_discount_line dc l (?ls @ [m]) (priced @ [pm]) ctx)) ?disc = Inr ds"
    using d unfolding emap_Inr_iff
    by (rule list.rel_mono_strong) (simp add: discount_line_extend discounts)
  then have qs: "qs = map (\<lambda>l. the (priced_get ((priced @ [pm]) @ ds) (ln_id l))) (?ls @ [m])"
    using two m(1) p pm by (simp add: price_lines_def emap_snoc with_line_of_def)
  have ids: "map pl_lineId priced = map ln_id ?reg"
    by (rule emap_line_ids [OF p]) (simp add: regular_line_fields)
  have pm_id: "pl_lineId pm = ln_id m" using regular_line_fields [OF pm] by simp
  have "List.find (\<lambda>p. pl_lineId p = ln_id m) priced = None"
  proof -
    have "pl_lineId ` set priced \<subseteq> ln_id ` set ?ls"
      using arg_cong [OF ids, of set] by auto
    then show ?thesis using m(2) unfolding find_None_iff by (metis imageI subsetD)
  qed
  then have "priced_get ((priced @ [pm]) @ ds) (ln_id m) = Some pm"
    by (simp add: priced_get_def find_app pm_id)
  moreover have "priced_get ((priced @ [pm]) @ ds) (ln_id l) = priced_get (priced @ ds) (ln_id l)"
    if "l \<in> set ?ls" for l
    using that m(2) pm_id by (auto simp: priced_get_def find_app split: option.splits)
  ultimately have "qs = ps @ [pm]" unfolding qs ps by simp
  with pm show ?thesis by blast
qed


subsection \<open>The complement to the minimum\<close>

lemma half_round_of_int [simp]: "half_round mode (of_int n) = n"
  by (simp add: half_round_def Let_def flip: of_int_abs)

lemma euro_string_parts:
  assumes "0 \<le> c"
  shows "cents_to_euro_string c =
    nat_string (nat c div 100) @ CHR ''.'' # pad_start 2 (CHR ''0'') (nat_string (nat c mod 100))"
  using assms by (simp add: cents_to_euro_string_def)

lemma first_digit: "hd (nat_string n) \<noteq> CHR ''-''"
  using nat_string_digits [of n] by (cases "nat_string n") (auto simp: is_digit_def)

lemma match_euro_string:
  assumes "0 \<le> c"
  shows "match_decimal (cents_to_euro_string c) =
    (if length (nat_string (nat c div 100)) > 20 then None
     else Some (False, nat_string (nat c div 100),
                Some (pad_start 2 (CHR ''0'') (nat_string (nat c mod 100)))))"
proof -
  let ?w = "nat_string (nat c div 100)" and ?f = "pad_start 2 (CHR ''0'') (nat_string (nat c mod 100))"
  have w: "\<And>x. x \<in> set ?w \<Longrightarrow> is_digit x"
    using nat_string_digits [of "nat c div 100"] by (simp add: list_all_iff)
  have f: "list_all is_digit ?f" by (rule pad_start_digits, rule nat_string_digits)
  have dot: "is_digit (CHR ''.'') = False" by (simp add: is_digit_def)
  have split: "takeWhile is_digit (?w @ CHR ''.'' # ?f) = ?w"
      "dropWhile is_digit (?w @ CHR ''.'' # ?f) = CHR ''.'' # ?f"
    using w dot by (simp_all only: takeWhile_append2 dropWhile_append2 takeWhile.simps dropWhile.simps
        if_False append_Nil2)
  have "?f \<noteq> []" by (simp add: pad_start_def)
  then show ?thesis
    using first_digit [of "nat c div 100"] f
    by (simp add: match_decimal_def euro_string_parts [OF assms] split hd_append)
qed

lemma euro_string_value:
  assumes "decimal_laws dc val rnd" "0 \<le> c" "parse_price dc (cents_to_euro_string c) = Inr u"
  shows "val u = of_int c / 100" "c < 10 ^ 22"
proof -
  let ?n = "nat c div 100" and ?d = "nat c mod 100"
  have len: "length (nat_string ?n) \<le> 20"
    and u: "u = dec_of_string dc (cents_to_euro_string c)"
    using assms(3) by (auto simp: parse_price_def parse_decimal_def match_euro_string [OF assms(2)]
        split: if_splits)
  have "?n < 10 ^ 20" using len length_nat_string_lower [of 20 ?n] by linarith
  then show "c < 10 ^ 22" by (simp add: div_less_iff_less_mult)
  have two: "length (pad_start 2 (CHR ''0'') (nat_string ?d)) = 2"
    using length_nat_string [of ?d 2] by (simp add: length_pad_start)
  have "rat_of_nat ?n + rat_of_nat ?d / 100 = rat_of_int c / 100"
  proof -
    have "rat_of_int c = rat_of_nat (?n * 100 + ?d)" using assms(2) by simp
    also have "\<dots> = rat_of_nat ?n * 100 + rat_of_nat ?d" by (simp only: of_nat_add of_nat_mult of_nat_numeral)
    finally show ?thesis by simp
  qed
  moreover have "match_decimal (cents_to_euro_string c)
      = Some (False, nat_string ?n, Some (pad_start 2 (CHR ''0'') (nat_string ?d)))"
    using len match_euro_string [OF assms(2)] by simp
  ultimately show "val u = of_int c / 100"
    unfolding u by (simp only: val_dec_of_string [OF assms(1)] decimal_value_def Let_def two if_False
        option.case digits_val_nat_string digits_val_pad_start) simp
qed

lemma minimum_line_total:
  assumes laws: "decimal_laws dc val rnd" and "0 < c" "2 \<le> settings_scale ctx" "cx_overrides ctx = []"
    and p: "price_regular_line dc (minimum_line def key label c) ctx = Inr p"
  shows "pl_totalHtCents p = c" "pl_recurrence p = MONTHLY"
proof -
  obtain u q where u: "parse_price dc (cents_to_euro_string c) = Inr u"
      and q: "parse_price dc ''1'' = Inr q"
      and t: "pl_totalHtCents p = to_cents dc
          (dec_times dc (round_to_scale dc u (settings_scale ctx) (st_rounding (cx_settings ctx))) q)
          (st_rounding (cx_settings ctx))"
      and r: "pl_recurrence p = MONTHLY"
    using p assms(4)
    by (auto simp: price_line_defs minimum_line_def ebind_Inr_iff Let_def overrides_of_def
        split: option.splits if_splits)
  show "pl_recurrence p = MONTHLY" by (rule r)
  note v = euro_string_value [OF laws _ u]
  have one: "val q = 1"
    using q val_dec_of_string [OF laws, of "''1''" False "''1''" None]
    by (simp add: parse_price_def parse_decimal_def match_decimal_def is_digit_def decimal_value_def
        digits_val_def digit_val_def)
  obtain k where k: "settings_scale ctx = k + 2" using assms(3) by (metis le_add_diff_inverse2)
  have "val u * 10 ^ settings_scale ctx = of_int (c * 10 ^ k)"
    using v(1) assms(2) by (simp add: k power_add)
  then have "val (round_to_scale dc u (settings_scale ctx) (st_rounding (cx_settings ctx))) = of_int c / 100"
    by (simp only: round_to_scale_def decimal_lawsD(15) [OF laws] half_round_of_int) (simp add: k power_add)
  moreover have small: "\<bar>c\<bar> < 10 ^ 40" using v(2) assms(2) by simp
  ultimately have "val (dec_times dc (round_to_scale dc u (settings_scale ctx)
      (st_rounding (cx_settings ctx))) q) = of_int c / 100"
    by (simp only: decimal_lawsD(8) [OF laws] one mult_1_right decimal_lawsD(18) [OF laws])
  then show "pl_totalHtCents p = c"
    unfolding t to_cents_eq [OF laws] using decimal_lawsD(17) [OF laws small] by simp
qed


subsection \<open>The schedule of a quote, priced\<close>

definition quote_ctx :: "'d decimal_ops \<Rightarrow> pricing_settings \<Rightarrow> string \<Rightarrow> 'd pricing_ctx" where
  "quote_ctx dc settings date =
     \<lparr>cx_date = date, cx_settings = settings,
      cx_threshold = dec_of_string dc (st_overrideApprovalThresholdPercent settings),
      cx_indexes = [], cx_catalog = None, cx_commitmentMonths = None, cx_overrides = [],
      cx_quantities = []\<rparr>"

lemma resolve_full_settings:
  "resolve_settings dc (Some (full_settings settings)) = Inr s \<Longrightarrow> s = settings"
  by (auto simp: resolve_settings_def full_settings_def or_default_def Let_def
      split: if_splits sum.splits)

lemma price_schedule_Inr:
  assumes "price_schedule dc settings s date = Inr r"
  shows "distinct (map ln_id (sd_lines s))"
    and "price_lines dc s (quote_ctx dc settings date) = Inr (pr_lines r)"
    and "pr_totals r = compute_totals dc (pr_lines r) settings"
    and "pr_settings r = settings"
proof -
  let ?in = "\<lparr>in_schedules = [s], in_indexes = [], in_overrides = [], in_quantities = [],
      in_ruleCatalog = None, in_settings = Some (full_settings settings), in_commitmentMonths = None\<rparr>"
  have p: "price_at dc ?in date = Inr r" using assms by (simp add: price_schedule_def)
  then obtain s' st where r: "select_schedule (in_schedules ?in) date = Inr s'"
      "distinct (map ln_id (sd_lines s'))"
      "price_lines dc s' (context_of dc ?in date st) = Inr (pr_lines r)"
      "pr_totals r = compute_totals dc (pr_lines r) st"
      "resolve_settings dc (in_settings ?in) = Inr st"
    by (rule price_at_Inr)
  have st: "st = settings" using r(5) resolve_full_settings by simp
  have "s' = s" using r(1) by (auto simp: select_schedule_Inr split: if_splits)
  then show "distinct (map ln_id (sd_lines s))"
    and "price_lines dc s (quote_ctx dc settings date) = Inr (pr_lines r)"
    and "pr_totals r = compute_totals dc (pr_lines r) settings"
    using r st by (simp_all add: context_of_def quote_ctx_def)
  show "pr_settings r = settings"
    using p st by (auto simp: price_at_def ebind_Inr_iff dest: resolve_full_settings split: if_splits)
qed

lemma engine_line_discounts: "l \<in> set (engine_lines def cfg) \<Longrightarrow> discounts_lines l"
  by (auto simp: engine_lines_def retained_lines_def info_tariffs_def discount_line_def
      to_engine_line_def discounts_lines_def Let_def
      split: proposal_recurrence.splits proposal_rule.splits if_splits)

lemma compute_totals_monthly:
  "to_monthlyLinesCents (compute_totals dc ls settings) = lines_cents (\<lambda>r. r = MONTHLY) ls"
  by (simp add: compute_totals_def Let_def)

lemma price_with_minimum_reaches:
  assumes laws: "decimal_laws dc val rnd"
    and p: "price_with_minimum dc def settings opts lines = Inr (s, r)"
    and rule: "minimum_rule (pd_rules def) = Some (key, amount, label)"
    and scale: "2 \<le> st_unitPriceScale settings"
    and lines: "\<And>l. l \<in> set lines \<Longrightarrow> discounts_lines l"
  shows "\<exists>first extra. price_schedule dc settings (proposal_schedule opts lines) (qo_date opts) = Inr first
    \<and> pr_lines r = pr_lines first @ extra \<and> length extra \<le> 1
    \<and> to_monthlyLinesCents (pr_totals r) = max amount (to_monthlyLinesCents (pr_totals first))"
proof -
  obtain first where first: "price_schedule dc settings (proposal_schedule opts lines) (qo_date opts) = Inr first"
    using p by (auto simp: price_with_minimum_def ebind_Inr_iff Let_def)
  note f = price_schedule_Inr [OF first]
  let ?m = "to_monthlyLinesCents (pr_totals first)"
  show ?thesis
  proof (cases "?m < amount")
    case False
    then have "r = first" using p rule first by (simp add: price_with_minimum_def Let_def)
    then show ?thesis using first False by auto
  next
    case True
    let ?extra = "minimum_line def key label (amount - ?m)"
    have second: "price_schedule dc settings (proposal_schedule opts (lines @ [?extra])) (qo_date opts) = Inr r"
      using p rule first True by (auto simp: price_with_minimum_def Let_def ebind_Inr_iff)
    note g = price_schedule_Inr [OF second]
    have sched: "proposal_schedule opts (lines @ [?extra])
        = (proposal_schedule opts lines)\<lparr>sd_lines := sd_lines (proposal_schedule opts lines) @ [?extra]\<rparr>"
      by (simp add: proposal_schedule_def)
    obtain pm where pm: "price_regular_line dc ?extra (quote_ctx dc settings (qo_date opts)) = Inr pm"
        "pr_lines r = pr_lines first @ [pm]"
    proof -
      have "\<exists>pm. price_regular_line dc ?extra (quote_ctx dc settings (qo_date opts)) = Inr pm
          \<and> pr_lines r = pr_lines first @ [pm]"
        by (rule price_lines_extend [OF f(2) g(2) [unfolded sched]])
          (use g(1) in \<open>auto simp: proposal_schedule_def minimum_line_def lines\<close>)
      then show ?thesis using that by blast
    qed
    have t: "pl_totalHtCents pm = amount - ?m" "pl_recurrence pm = MONTHLY"
      using minimum_line_total [OF laws _ _ _ pm(1)] True scale
      by (simp_all add: settings_scale_def quote_ctx_def)
    have "to_monthlyLinesCents (pr_totals r) = ?m + (amount - ?m)"
      by (simp add: f(3) g(3) compute_totals_monthly pm(2) lines_cents_def t)
    then show ?thesis using True first pm(2) by auto
  qed
qed

lemma price_with_minimum_schedule:
  "price_with_minimum dc def settings opts lines = Inr (s, r) \<Longrightarrow>
     price_schedule dc settings s (qo_date opts) = Inr r"
  by (auto simp: price_with_minimum_def ebind_Inr_iff Let_def split: option.splits prod.splits if_splits)

lemma quote_priced:
  assumes "quote_proposal dc def sel opts = Inr q" "pt_engineResult q = Some r"
  obtains settings s where "resolve_settings dc (qo_settings opts) = Inr settings"
    "price_with_minimum dc def settings opts (engine_lines def (configure def sel)) = Inr (s, r)"
    "q = quote_of_result dc def (configure def sel) s r"
    "list_all (\<lambda>(k, x). is_integer x \<and> 0 \<le> x) (cf_included (configure def sel))"
    "list_all (\<lambda>e. \<not> fatal_error e) (cf_errors (configure def sel))"
proof -
  have "pt_engineResult (quote_of_result dc def cfg s r') = Some r'" for cfg s r'
    by (simp add: quote_of_result_def Let_def)
  then show thesis
    using assms that
    by (fastforce simp: quote_proposal_def ebind_Inr_iff Let_def list_ex_iff list_all_iff empty_quote_def
        not_less case_prod_unfold split: if_splits)
qed

text \<open>C7: the monthly minimum of a model is reached exactly: with at least two decimals in unit prices, the
  monthly amount of a quote is the larger of the minimum and of what the retained lines cost, and
  the quote has the lines of the client's configuration and at most one more. The complement goes
  through its text in euros, the parser of the engine and its roundings without losing a cent.\<close>

theorem minimum_reached_exactly:
  assumes "decimal_laws dc val rnd" "quote_proposal dc def sel opts = Inr q"
    and "pt_engineResult q = Some r" "minimum_rule (pd_rules def) = Some (key, amount, label)"
    and "2 \<le> st_unitPriceScale (pr_settings r)"
  shows "\<exists>settings first extra. resolve_settings dc (qo_settings opts) = Inr settings
    \<and> price_schedule dc settings (proposal_schedule opts (engine_lines def (configure def sel)))
        (qo_date opts) = Inr first
    \<and> pr_lines r = pr_lines first @ extra \<and> length extra \<le> 1
    \<and> to_monthlyLinesCents (pr_totals r) = max amount (to_monthlyLinesCents (pr_totals first))"
proof -
  obtain settings s where q: "resolve_settings dc (qo_settings opts) = Inr settings"
      "price_with_minimum dc def settings opts (engine_lines def (configure def sel)) = Inr (s, r)"
    using quote_priced [OF assms(2,3)] .
  have "pr_settings r = settings" by (rule price_schedule_Inr(4) [OF price_with_minimum_schedule [OF q(2)]])
  then show ?thesis
    using price_with_minimum_reaches [OF assms(1) q(2) assms(4)] assms(5) q(1) engine_line_discounts
    by blast
qed


lemma quoted_totals:
  "sum_list (map ql_totalHtCents (map (quoted_line_of dc def cfg) ps)) = sum_list (map pl_totalHtCents ps)"
  by (simp add: quoted_line_of_def Let_def o_def)

lemma ql_key_of [simp]: "ql_key (quoted_line_of dc def cfg p) = pl_lineId p"
  by (simp add: quoted_line_of_def Let_def)

lemma ql_total_of [simp]: "ql_totalHtCents (quoted_line_of dc def cfg p) = pl_totalHtCents p"
  by (simp add: quoted_line_of_def Let_def)

lemma bucket_ht:
  "bk_htCents (recurrence_bucket dc def r rec) =
     sum_list (map pl_totalHtCents
       (filter (\<lambda>l. pl_recurrence l = rec) (filter (\<lambda>l. \<not> is_info def (pl_lineId l)) (pr_lines r))))"
  by (auto simp: recurrence_bucket_def bucket_def EMPTY_BUCKET_def compute_totals_def Let_def conj_commute)

lemma recurrence_partition:
  "sum_list (map pl_totalHtCents ps) =
     sum_list (map pl_totalHtCents (filter (\<lambda>l. pl_recurrence l = ONE_OFF) ps))
     + sum_list (map pl_totalHtCents (filter (\<lambda>l. pl_recurrence l = MONTHLY) ps))
     + sum_list (map pl_totalHtCents (filter (\<lambda>l. pl_recurrence l = QUARTERLY) ps))
     + sum_list (map pl_totalHtCents (filter (\<lambda>l. pl_recurrence l = YEARLY) ps))"
  by (induction ps) (auto intro: recurrence.exhaust)

text \<open>C34: the price shown is the price frozen: a quote carries a schedule and a price together, the price is
  what the engine computes for that schedule at that date, the lines shown (retained and for
  information) add up to its amount before tax, and the amounts once, monthly, quarterly and
  yearly add up to the retained lines. A quote without a schedule shows no line and no amount.\<close>

theorem quote_is_its_schedule:
  assumes "quote_proposal dc def sel opts = Inr q"
  shows "case pt_engineSchedule q of
      None \<Rightarrow> pt_engineResult q = None \<and> pt_lines q = [] \<and> pt_infoLines q = []
        \<and> pt_monthly q = EMPTY_BUCKET \<and> pt_oneTime q = EMPTY_BUCKET \<and> pt_commitment q = EMPTY_BUCKET
    | Some s \<Rightarrow> \<exists>settings r. pt_engineResult q = Some r
        \<and> resolve_settings dc (qo_settings opts) = Inr settings
        \<and> price_schedule dc settings s (qo_date opts) = Inr r
        \<and> sum_list (map ql_totalHtCents (pt_lines q)) + sum_list (map ql_totalHtCents (pt_infoLines q))
            = to_htCents (pr_totals r)
        \<and> bk_htCents (pt_oneTime q) + bk_htCents (pt_monthly q) + bk_htCents (pt_quarterly q)
            + bk_htCents (pt_yearly q) = sum_list (map ql_totalHtCents (pt_lines q))"
proof (cases "pt_engineResult q")
  case None
  then show ?thesis
    using assms
    by (auto simp: quote_proposal_def quote_of_result_def empty_quote_def ebind_Inr_iff Let_def
        split: if_splits)
next
  case (Some r)
  obtain settings s where q: "resolve_settings dc (qo_settings opts) = Inr settings"
      "price_with_minimum dc def settings opts (engine_lines def (configure def sel)) = Inr (s, r)"
      "q = quote_of_result dc def (configure def sel) s r"
    using quote_priced [OF assms Some] .
  have s: "price_schedule dc settings s (qo_date opts) = Inr r"
    by (rule price_with_minimum_schedule [OF q(2)])
  let ?ps = "pr_lines r" and ?info = "\<lambda>p. is_info def (pl_lineId p)"
  have shown: "sum_list (map ql_totalHtCents (pt_lines q)) = sum_list (map pl_totalHtCents (filter (\<lambda>p. \<not> ?info p) ?ps))"
      "sum_list (map ql_totalHtCents (pt_infoLines q)) = sum_list (map pl_totalHtCents (filter ?info ?ps))"
    by (simp_all add: q(3) quote_of_result_def Let_def filter_map o_def)
  have "to_htCents (pr_totals r) = sum_list (map pl_totalHtCents ?ps)"
    by (simp add: price_schedule_Inr(3) [OF s] compute_totals_def Let_def)
  then have total: "sum_list (map ql_totalHtCents (pt_lines q)) + sum_list (map ql_totalHtCents (pt_infoLines q))
      = to_htCents (pr_totals r)"
    using sum_list_partition [of pl_totalHtCents ?ps ?info] by (simp add: shown)
  have parts: "bk_htCents (pt_oneTime q) + bk_htCents (pt_monthly q) + bk_htCents (pt_quarterly q)
      + bk_htCents (pt_yearly q) = sum_list (map ql_totalHtCents (pt_lines q))"
    unfolding shown recurrence_partition [of "filter (\<lambda>p. \<not> ?info p) ?ps"]
    by (simp add: q(3) quote_of_result_def Let_def bucket_ht)
  have "pt_engineSchedule q = Some s" by (simp add: q(3) quote_of_result_def Let_def)
  then show ?thesis using Some q(1) s total parts by simp
qed

text \<open>The engine never prices an unusable configuration: in a quote with a schedule, every quantity is a
  natural number, every choice of the model has one of its values, and every line put in the
  schedule has a price for the choices made, so that the assertion of the code on its unit price
  holds.\<close>

theorem quoted_prices_defined:
  assumes "quote_proposal dc def sel opts = Inr q" "pt_engineResult q = Some r"
  shows "list_all (\<lambda>(k, x). is_integer x \<and> 0 \<le> x) (pt_quantities q)
    \<and> list_all (\<lambda>c. list_ex (\<lambda>x. map_of (pt_choices q) (ch_key c) = Some (co_value x)) (ch_options c))
        (pd_choices def)
    \<and> list_all (\<lambda>l. if quantity_or_zero (pt_quantities q) (pp_key l) = 0 then True
          else unit_price_cents l (pt_choices q) \<noteq> None) (pd_lines def)"
proof -
  let ?cfg = "configure def sel"
  obtain settings s where "resolve_settings dc (qo_settings opts) = Inr settings"
      "price_with_minimum dc def settings opts (engine_lines def ?cfg) = Inr (s, r)"
    and q: "q = quote_of_result dc def ?cfg s r"
      "list_all (\<lambda>(k, x). is_integer x \<and> 0 \<le> x) (cf_included ?cfg)"
      "list_all (\<lambda>e. \<not> fatal_error e) (cf_errors ?cfg)"
    using quote_priced [OF assms] .
  have shown: "pt_quantities q = cf_included ?cfg" "pt_choices q = cf_choices ?cfg"
    by (simp_all add: q(1) quote_of_result_def Let_def)
  have valid: "list_ex (\<lambda>x. map_of (cf_choices ?cfg) (ch_key c) = Some (co_value x)) (ch_options c)"
    if c: "c \<in> set (pd_choices def)" for c
  proof (rule ccontr)
    assume "\<not> ?thesis"
    then have "\<not> list_ex (\<lambda>x. Some (co_value x) = map_of (cf_choices ?cfg) (ch_key c)) (ch_options c)"
      unfolding list_ex_iff by metis
    then have "InvalidChoiceValue (ch_key c) (map_of (cf_choices ?cfg) (ch_key c))
        \<in> set (choice_errors def sel (cf_choices ?cfg))"
      using c by (simp add: choice_errors_def)
    then have "InvalidChoiceValue (ch_key c) (map_of (cf_choices ?cfg) (ch_key c)) \<in> set (cf_errors ?cfg)"
      by (simp add: configure_def Let_def)
    with q(3) show False by (force simp: list_all_iff)
  qed
  have price: "unit_price_cents l (cf_choices ?cfg) \<noteq> None"
    if l: "l \<in> set (pd_lines def)" "quantity_or_zero (cf_included ?cfg) (pp_key l) \<noteq> 0" for l
  proof
    assume none: "unit_price_cents l (cf_choices ?cfg) = None"
    have "0 < quantity_or_zero (cf_included ?cfg) (pp_key l)"
      using l(2) q(2) map_of_SomeD [of "cf_included ?cfg" "pp_key l"]
      by (fastforce simp: quantity_or_zero_def list_all_iff split: option.splits)
    then have "NoPriceForChoice (pp_key l) \<in> set (cf_errors ?cfg)"
      using l(1) none by (auto simp: configure_def Let_def price_errors_def)
    with q(3) show False by (force simp: list_all_iff)
  qed
  show ?thesis using q(2) valid price by (auto simp: shown list_all_iff)
qed


subsection \<open>Example\<close>

text \<open>Ten seats cost 300.00 a month, and 500.00 once: 200.00 are added to reach the minimum of 500.00.\<close>

definition new_year :: quote_options where
  "new_year = \<lparr>qo_date = ''2026-01-01'', qo_settings = None, qo_scheduleId = None\<rparr>"

definition seat_line :: pricing_line where
  "seat_line =
     \<lparr>ln_id = ''poste'', ln_code = ''poste'', ln_label = ''Postes'', ln_unit = ''poste'', ln_kind = UNIT,
      ln_mode = MANUAL, ln_vatRatePercent = ''20'', ln_quantity = Some (FIXED ''10''),
      ln_recurrence = Some MONTHLY, ln_unitPrice = Some ''30.00'', ln_tiers = None, ln_rule = None,
      ln_formula = None, ln_revision = None, ln_hoursPerPack = None, ln_discount = None\<rparr>"

definition setup_line :: pricing_line where
  "setup_line =
     seat_line\<lparr>ln_id := ''mes'', ln_code := ''mes'', ln_label := ''Mise en service'', ln_kind := SETUP_FEE,
       ln_recurrence := None, ln_unitPrice := Some ''50.00''\<rparr>"

lemma ten_seats_lines:
  "engine_lines seats_proposal (configure seats_proposal ten_seats) = [seat_line, setup_line]"
  unfolding ten_seats_configured by code_simp

lemma complement_text: "cents_to_euro_string 20000 = ''200.00''"
proof -
  have digits: "digit_char 0 = CHR ''0''" "digit_char 2 = CHR ''2''" by code_simp+
  show ?thesis by (simp add: cents_to_euro_string_def nat_string.simps pad_start_def digits)
qed

lemma new_year_reads:
  "parse_iso_date ''2026-01-01'' = Inr ''2026-01-01''"
  "resolve_settings rat_ops (Some (full_settings DEFAULT_PRICING_SETTINGS)) = Inr DEFAULT_PRICING_SETTINGS"
  "parse_price rat_ops ''10'' = Inr 10" "parse_price rat_ops ''1'' = Inr 1"
  "parse_price rat_ops ''30.00'' = Inr 30" "parse_price rat_ops ''50.00'' = Inr 50"
  "parse_price rat_ops ''200.00'' = Inr 200"
  by code_simp+

abbreviation new_year_ctx :: "rat pricing_ctx" where
  "new_year_ctx \<equiv> quote_ctx rat_ops DEFAULT_PRICING_SETTINGS ''2026-01-01''"

lemma seat_priced:
  "\<exists>p. price_regular_line rat_ops seat_line new_year_ctx = Inr p
     \<and> pl_totalHtCents p = 30000 \<and> pl_recurrence p = MONTHLY \<and> pl_lineId p = ''poste''"
  by (simp add: price_line_defs seat_line_def sample_reads new_year_reads quote_ctx_def
      overrides_of_def Let_def rat_ops_simps to_cents_def rat_round_def half_round_def round_to_scale_def)

lemma setup_priced:
  "\<exists>p. price_regular_line rat_ops setup_line new_year_ctx = Inr p
     \<and> pl_totalHtCents p = 50000 \<and> pl_recurrence p = ONE_OFF \<and> pl_lineId p = ''mes''"
  by (simp add: price_line_defs setup_line_def seat_line_def sample_reads new_year_reads quote_ctx_def
      overrides_of_def Let_def rat_ops_simps to_cents_def rat_round_def half_round_def round_to_scale_def)

definition complement_line :: pricing_line where
  "complement_line = minimum_line seats_proposal ''mini'' ''Minimum mensuel'' 20000"

lemma complement_fields:
  "ln_kind complement_line = FLAT_MONTHLY" "ln_id complement_line = ''mini''"
  "ln_vatRatePercent complement_line = ''20''" "ln_quantity complement_line = Some (FIXED ''1'')"
  "ln_mode complement_line = MANUAL" "ln_recurrence complement_line = None"
  "ln_unitPrice complement_line = Some ''200.00''"
  "ln_revision complement_line = None" "ln_hoursPerPack complement_line = None"
  by (simp_all add: complement_line_def minimum_line_def seats_proposal_def complement_text)

lemma complement_priced:
  "\<exists>p. price_regular_line rat_ops complement_line new_year_ctx = Inr p
     \<and> pl_totalHtCents p = 20000 \<and> pl_recurrence p = MONTHLY \<and> pl_lineId p = ''mini''"
  by (simp add: price_line_defs complement_fields sample_reads new_year_reads quote_ctx_def
      overrides_of_def Let_def rat_ops_simps to_cents_def rat_round_def half_round_def round_to_scale_def)


lemma seats_quoted:
  "\<exists>q r. quote_proposal rat_ops seats_proposal ten_seats new_year = Inr q
     \<and> pt_engineResult q = Some r \<and> pr_settings r = DEFAULT_PRICING_SETTINGS
     \<and> to_monthlyLinesCents (pr_totals r) = 50000"
proof -
  let ?S = "proposal_schedule new_year"
  obtain a b c where a: "price_regular_line rat_ops seat_line new_year_ctx = Inr a"
      "pl_totalHtCents a = 30000" "pl_recurrence a = MONTHLY" "pl_lineId a = ''poste''"
    and b: "price_regular_line rat_ops setup_line new_year_ctx = Inr b"
      "pl_totalHtCents b = 50000" "pl_recurrence b = ONE_OFF" "pl_lineId b = ''mes''"
    and c: "price_regular_line rat_ops complement_line new_year_ctx = Inr c"
      "pl_totalHtCents c = 20000" "pl_recurrence c = MONTHLY" "pl_lineId c = ''mini''"
    using seat_priced setup_priced complement_priced by (elim exE conjE)
  have ids: "ln_id seat_line = ''poste''" "ln_kind seat_line = UNIT"
      "ln_id setup_line = ''mes''" "ln_kind setup_line = SETUP_FEE"
    by (simp_all add: seat_line_def setup_line_def)
  have sched: "sd_lines (?S ls) = ls" "sd_currency (?S ls) = ''EUR''" "sd_id (?S ls) = ''proposal''"
      "sd_validFrom (?S ls) = ''2026-01-01''" "sd_validTo (?S ls) = None" for ls
    by (simp_all add: proposal_schedule_def new_year_def)
  have run: "price_schedule rat_ops DEFAULT_PRICING_SETTINGS (?S ls) ''2026-01-01'' = Inr
      \<lparr>pr_date = ''2026-01-01'', pr_scheduleId = ''proposal'', pr_scheduleValidFrom = ''2026-01-01'',
       pr_scheduleValidTo = None, pr_settings = DEFAULT_PRICING_SETTINGS, pr_lines = ps,
       pr_totals = compute_totals rat_ops ps DEFAULT_PRICING_SETTINGS\<rparr>"
    if "check_line_ids [] ls = Inr ()" "price_lines rat_ops (?S ls) new_year_ctx = Inr ps" for ls ps
    using that
    by (simp add: price_schedule_def price_at_def new_year_reads select_schedule_def check_schedule_def
        covers_def sched context_of_def quote_ctx_def)
  have first: "price_lines rat_ops (?S [seat_line, setup_line]) new_year_ctx = Inr [a, b]"
    by (simp add: price_lines_def sched ids a b with_line_of_def priced_get_def)
  have second: "price_lines rat_ops (?S [seat_line, setup_line, complement_line]) new_year_ctx = Inr [a, b, c]"
    by (simp add: price_lines_def sched ids complement_fields a b c with_line_of_def priced_get_def)
  have rule: "minimum_rule (pd_rules seats_proposal) = Some (''mini'', 50000, ''Minimum mensuel'')"
    by (simp add: seats_proposal_def)
  have monthly: "lines_cents (\<lambda>r. r = MONTHLY) [a, b] = 30000" "lines_cents (\<lambda>r. r = MONTHLY) [a, b, c] = 50000"
    by (simp_all add: lines_cents_def a b c)
  have day: "qo_date new_year = ''2026-01-01''" "qo_settings new_year = None" by (simp_all add: new_year_def)
  have pm: "\<exists>r. price_with_minimum rat_ops seats_proposal DEFAULT_PRICING_SETTINGS new_year [seat_line, setup_line]
      = Inr (?S [seat_line, setup_line, complement_line], r) \<and> pr_settings r = DEFAULT_PRICING_SETTINGS
        \<and> to_monthlyLinesCents (pr_totals r) = 50000"
    using run [OF _ first] run [OF _ second]
    by (simp add: price_with_minimum_def rule day ids complement_fields compute_totals_monthly monthly
        complement_line_def [symmetric] invalid_line_def)
  then obtain r where r: "price_with_minimum rat_ops seats_proposal DEFAULT_PRICING_SETTINGS new_year [seat_line, setup_line]
      = Inr (?S [seat_line, setup_line, complement_line], r)" "pr_settings r = DEFAULT_PRICING_SETTINGS"
      "to_monthlyLinesCents (pr_totals r) = 50000"
    by blast
  have "quote_proposal rat_ops seats_proposal ten_seats new_year
      = Inr (quote_of_result rat_ops seats_proposal (configure seats_proposal ten_seats)
          (?S [seat_line, setup_line, complement_line]) r)"
    using r(1) ten_seats_lines
    by (simp add: quote_proposal_def day sample_reads ten_seats_configured is_integer_def)
  moreover have "pt_engineResult (quote_of_result rat_ops seats_proposal cfg s r) = Some r" for cfg s
    by (simp add: quote_of_result_def Let_def)
  ultimately show ?thesis using r by blast
qed

theorem minimum_reached_exactly_witness:
  "\<exists>q r settings (first :: pricing_result). quote_proposal rat_ops seats_proposal ten_seats new_year = Inr q
     \<and> pt_engineResult q = Some r
     \<and> resolve_settings rat_ops (qo_settings new_year) = Inr settings
     \<and> to_monthlyLinesCents (pr_totals r) = max 50000 (to_monthlyLinesCents (pr_totals first))"
proof -
  obtain q r where q: "quote_proposal rat_ops seats_proposal ten_seats new_year = Inr q"
      "pt_engineResult q = Some r" "pr_settings r = DEFAULT_PRICING_SETTINGS"
    using seats_quoted by (elim exE conjE)
  have "minimum_rule (pd_rules seats_proposal) = Some (''mini'', 50000, ''Minimum mensuel'')"
      "2 \<le> st_unitPriceScale (pr_settings r)"
    by (simp_all add: seats_proposal_def q(3) DEFAULT_PRICING_SETTINGS_def)
  from minimum_reached_exactly [OF rat_laws q(1,2) this] obtain settings
        and first :: pricing_result where "resolve_settings rat_ops (qo_settings new_year) = Inr settings"
      "to_monthlyLinesCents (pr_totals r) = max 50000 (to_monthlyLinesCents (pr_totals first))"
    by (elim exE conjE)
  then show ?thesis using q(1,2) by (intro exI [of _ q] exI [of _ r] exI [of _ settings] exI [of _ first] conjI)
qed

theorem quote_is_its_schedule_witness:
  "\<exists>q s settings r. quote_proposal rat_ops seats_proposal ten_seats new_year = Inr q
     \<and> pt_engineSchedule q = Some s
     \<and> price_schedule rat_ops settings s (qo_date new_year) = Inr r"
proof -
  obtain q r where q: "quote_proposal rat_ops seats_proposal ten_seats new_year = Inr q"
      "pt_engineResult q = Some r"
    using seats_quoted by (elim exE conjE)
  from quote_is_its_schedule [OF q(1)] show ?thesis
    using q by (cases "pt_engineSchedule q") auto
qed

theorem quoted_prices_defined_witness:
  "\<exists>q r. quote_proposal rat_ops seats_proposal ten_seats new_year = Inr q
     \<and> pt_engineResult q = Some r
     \<and> list_all (\<lambda>(k, x). is_integer x \<and> 0 \<le> x) (pt_quantities q)"
proof -
  obtain q r where q: "quote_proposal rat_ops seats_proposal ten_seats new_year = Inr q"
      "pt_engineResult q = Some r"
    using seats_quoted by (elim exE conjE)
  from quoted_prices_defined [OF q] show ?thesis using q by (elim conjE) (intro exI conjI)
qed

end
