(* ===== verification/PriceStatuses.thy ===== *)
theory PriceStatuses
  imports QuoteLaws "HOL-Library.List_Lexorder" "HOL-Library.Char_ord"
begin

text \<open>
  The price table of a proposal as the API keeps it: \<open>apps/api/src/proposals/pricing-definition.ts\<close>.
  The schema of the table (the shapes, lengths and bounds of its fields, then the consistency rules of its
  \<open>superRefine\<close>; which fields there are is said by the types), the statuses an edit may not lift, those an administrator lifts, and those the origin template
  lifts. \<open>JSON.stringify\<close> compares the values, entries in order. Descriptions and price sources are
  texts of the page and are left out, with the fields that no computation reads (notes, indexation).
\<close>

subsection \<open>Shape of a price table\<close>

definition text_within :: "nat \<Rightarrow> nat \<Rightarrow> string \<Rightarrow> bool" where
  "text_within lo hi s \<longleftrightarrow> lo \<le> length s \<and> length s \<le> hi"

definition is_upper_alnum :: "char \<Rightarrow> bool" where
  "is_upper_alnum c = (is_digit c \<or> (let n = of_char c :: nat in 65 \<le> n \<and> n \<le> 90))"

definition is_alnum :: "char \<Rightarrow> bool" where
  "is_alnum c = (is_upper_alnum c \<or> (let n = of_char c :: nat in 97 \<le> n \<and> n \<le> 122))"

text \<open>\<open>Key\<close>: groups of letters and digits between single dashes or underscores.\<close>

fun key_syntax :: "bool \<Rightarrow> string \<Rightarrow> bool" where
  "key_syntax ended [] = ended"
| "key_syntax ended (c # cs) =
     (if is_alnum c then key_syntax True cs else (c = CHR ''-'' \<or> c = CHR ''_'') \<and> ended \<and> key_syntax False cs)"

definition is_key :: "string \<Rightarrow> bool" where
  "is_key s \<longleftrightarrow> length s \<le> 64 \<and> key_syntax False s"

definition is_cents :: "int \<Rightarrow> bool" where
  "is_cents n \<longleftrightarrow> 0 \<le> n \<and> n \<le> 1000000000"

text \<open>\<open>z.number().int()\<close> takes the safe integers of JavaScript.\<close>

definition is_safe_int :: "rat \<Rightarrow> bool" where
  "is_safe_int x \<longleftrightarrow> is_integer x \<and> \<bar>x\<bar> \<le> 9007199254740991"

definition is_merge_tag :: "string \<Rightarrow> bool" where
  "is_merge_tag s \<longleftrightarrow> 5 \<le> length s \<and> take 2 s = ''{{'' \<and> drop (length s - 2) s = ''}}''
     \<and> list_all (\<lambda>c. is_alnum c \<or> c = CHR ''_'' \<or> c = CHR ''.'') (drop 2 (take (length s - 2) s))"

definition quantity_shape :: "proposal_quantity_spec \<Rightarrow> bool" where
  "quantity_shape q \<longleftrightarrow>
     (case pq_default q of QNumber n \<Rightarrow> is_safe_int n \<and> 0 \<le> n | QTag t \<Rightarrow> is_merge_tag t)
     \<and> is_safe_int (pq_min q) \<and> 0 \<le> pq_min q
     \<and> (case pq_max q of None \<Rightarrow> True | Some m \<Rightarrow> is_safe_int m \<and> 0 < m)
     \<and> (case pq_maxFrom q of None \<Rightarrow> True | Some k \<Rightarrow> is_key k)
     \<and> (case pq_linkedTo q of None \<Rightarrow> True | Some k \<Rightarrow> is_key k)"

definition pricing_shape :: "line_pricing \<Rightarrow> bool" where
  "pricing_shape p =
     (case p of UnitCents c \<Rightarrow> is_cents c
      | ByChoice dependsOn byChoice \<Rightarrow> is_key dependsOn \<and> list_all (\<lambda>kv. is_cents (snd kv)) byChoice)"

definition is_grid_code :: "string \<Rightarrow> bool" where
  "is_grid_code s =
     (let prefix = takeWhile is_upper_alnum s; rest = dropWhile is_upper_alnum s
      in 2 \<le> length prefix \<and> length prefix \<le> 6 \<and> rest \<noteq> [] \<and> hd rest = CHR ''-''
         \<and> 4 \<le> length (tl rest) \<and> list_all is_digit (tl rest))"

definition is_grid_variant :: "string \<Rightarrow> bool" where
  "is_grid_variant s =
     (let n = length s - 4; tail = drop n s
      in is_grid_code (take n s) \<and> take 2 tail = ''-E'' \<and> length tail = 4 \<and> list_all is_digit (drop 2 tail))"

definition is_vat_text :: "string \<Rightarrow> bool" where
  "is_vat_text s =
     (case match_decimal s of
        None \<Rightarrow> False
      | Some (neg, whole, decimals) \<Rightarrow> \<not> neg \<and> length whole \<le> 3
          \<and> (case decimals of None \<Rightarrow> True | Some f \<Rightarrow> length f \<le> 2))"

definition is_iso_day :: "string \<Rightarrow> bool" where
  "is_iso_day s =
     (case match_date s of
        None \<Rightarrow> False
      | Some (y, m, d) \<Rightarrow> 1 \<le> m \<and> m \<le> 12 \<and> 1 \<le> d \<and> int d \<le> days_in_month (leap_year (int y)) (int m - 1))"

definition grid_shape :: "proposal_grid_ref \<Rightarrow> bool" where
  "grid_shape g \<longleftrightarrow> is_grid_code (gr_itemCode g) \<and> list_all (\<lambda>kv. is_grid_variant (snd kv)) (gr_variants g)
     \<and> is_vat_text (gr_vatRatePercent g) \<and> is_iso_day (gr_on g)"

definition line_shape :: "proposal_pricing_line \<Rightarrow> bool" where
  "line_shape l \<longleftrightarrow> is_key (pp_key l) \<and> text_within 1 300 (pp_label l) \<and> text_within 1 60 (pp_unit l)
     \<and> (case pp_quantity l of None \<Rightarrow> True | Some q \<Rightarrow> quantity_shape q) \<and> pricing_shape (pp_pricing l)
     \<and> (case pp_grid l of None \<Rightarrow> True | Some g \<Rightarrow> grid_shape g)"

definition option_shape :: "choice_option \<Rightarrow> bool" where
  "option_shape x \<longleftrightarrow> text_within 1 40 (co_value x) \<and> text_within 1 200 (co_label x)
     \<and> (case co_commitmentMonths x of None \<Rightarrow> True | Some m \<Rightarrow> 0 \<le> m \<and> m \<le> 120)"

definition choice_shape :: "proposal_choice \<Rightarrow> bool" where
  "choice_shape c \<longleftrightarrow> is_key (ch_key c) \<and> text_within 1 200 (ch_label c)
     \<and> 1 \<le> length (ch_options c) \<and> length (ch_options c) \<le> 10 \<and> list_all option_shape (ch_options c)"

definition keys_shape :: "nat \<Rightarrow> string list \<Rightarrow> bool" where
  "keys_shape n ks \<longleftrightarrow> n \<le> length ks \<and> list_all is_key ks"

definition number_within :: "rat \<Rightarrow> rat \<Rightarrow> string \<Rightarrow> bool" where
  "number_within lo hi s = (case js_number s of None \<Rightarrow> False | Some x \<Rightarrow> lo \<le> x \<and> x \<le> hi)"

definition optional_int :: "rat option \<Rightarrow> bool" where
  "optional_int x = (case x of None \<Rightarrow> True | Some n \<Rightarrow> is_safe_int n)"

fun rule_shape :: "proposal_rule \<Rightarrow> bool" where
  "rule_shape (MINIMUM_MONTHLY key amount label status) \<longleftrightarrow> is_key key \<and> is_cents amount"
| "rule_shape (REQUIRES key line requires message) \<longleftrightarrow> is_key key \<and> is_key line \<and> keys_shape 1 requires"
| "rule_shape (REQUIRED_IF_ANY key line ifAny message) \<longleftrightarrow> is_key key \<and> is_key line \<and> keys_shape 1 ifAny"
| "rule_shape (AUTO_INCLUDE key line trigger) \<longleftrightarrow> is_key key \<and> is_key line \<and> is_key trigger"
| "rule_shape (AT_LEAST_ONE key lines message) \<longleftrightarrow> is_key key \<and> keys_shape 2 lines"
| "rule_shape (DISCOUNT_PERCENT key percent appliesTo trigger label status) \<longleftrightarrow>
     is_key key \<and> number_within 0 100 percent \<and> js_number percent \<noteq> Some 0 \<and> keys_shape 1 appliesTo \<and> is_key trigger"
| "rule_shape (PRESELECT_CHOICE key choice field ranges) \<longleftrightarrow>
     is_key key \<and> is_key choice \<and> 2 \<le> length ranges
     \<and> list_all (\<lambda>r. optional_int (pr_min r) \<and> optional_int (pr_max r)) ranges"

definition table_shape :: "proposal_definition \<Rightarrow> bool" where
  "table_shape d \<longleftrightarrow> length (pd_choices d) \<le> 10 \<and> list_all choice_shape (pd_choices d)
     \<and> 1 \<le> length (pd_lines d) \<and> length (pd_lines d) \<le> 100 \<and> list_all line_shape (pd_lines d)
     \<and> length (pd_rules d) \<le> 50 \<and> list_all rule_shape (pd_rules d) \<and> number_within 0 100 (pd_vatRatePercent d)"

subsection \<open>Consistency of a price table\<close>

datatype definition_issue =
    MalformedTable
  | DuplicateLine string
  | QuantityRequired string
  | ByChoiceIncomplete string
  | GridCodesMissing string string
  | ForeignGridCode string
  | DefaultOption string
  | CommitmentChoice

fun join_comma :: "string list \<Rightarrow> string" where
  "join_comma [] = []"
| "join_comma [x] = x"
| "join_comma (x # y # ys) = x @ CHR '','' # join_comma (y # ys)"

definition sorted_join :: "string list \<Rightarrow> string" where
  "sorted_join xs = join_comma (sort xs)"

fun duplicate_lines :: "string set \<Rightarrow> proposal_pricing_line list \<Rightarrow> definition_issue list" where
  "duplicate_lines seen [] = []"
| "duplicate_lines seen (l # ls) =
     (if pp_key l \<in> seen then [DuplicateLine (pp_key l)] else [])
     @ duplicate_lines (insert (pp_key l) seen) ls"

definition find_choice :: "proposal_choice list \<Rightarrow> string \<Rightarrow> proposal_choice option" where
  "find_choice choices k = List.find (\<lambda>c. ch_key c = k) choices"

definition price_issues ::
    "proposal_choice list \<Rightarrow> proposal_pricing_line \<Rightarrow> definition_issue list" where
  "price_issues choices l =
     (case pp_pricing l of
        UnitCents cents \<Rightarrow> []
      | ByChoice dependsOn byChoice \<Rightarrow>
          (case find_choice choices dependsOn of
             None \<Rightarrow> [ByChoiceIncomplete (pp_key l)]
           | Some c \<Rightarrow>
               if sorted_join (map co_value (ch_options c)) \<noteq> sorted_join (map fst byChoice)
               then [ByChoiceIncomplete (pp_key l)] else []))"

definition wanted_codes :: "proposal_pricing_line \<Rightarrow> string" where
  "wanted_codes l =
     (case pp_pricing l of ByChoice dependsOn byChoice \<Rightarrow> sorted_join (map fst byChoice) | UnitCents c \<Rightarrow> ''*'')"

definition grid_issues :: "proposal_pricing_line \<Rightarrow> definition_issue list" where
  "grid_issues l =
     (case pp_grid l of
        None \<Rightarrow> []
      | Some g \<Rightarrow>
          (if sorted_join (map fst (gr_variants g)) \<noteq> wanted_codes l
           then [GridCodesMissing (pp_key l) (wanted_codes l)] else [])
          @ (if list_ex (\<lambda>kv. take (length (gr_itemCode g @ ''-E'')) (snd kv) \<noteq> gr_itemCode g @ ''-E'')
                  (gr_variants g)
             then [ForeignGridCode (pp_key l)] else []))"

definition line_issues :: "proposal_choice list \<Rightarrow> proposal_pricing_line \<Rightarrow> definition_issue list" where
  "line_issues choices l =
     (if pp_kind l \<noteq> LK_INFO \<and> pp_quantity l = None then [QuantityRequired (pp_key l)] else [])
     @ price_issues choices l @ grid_issues l"

definition commits :: "proposal_choice \<Rightarrow> bool" where
  "commits c = list_ex (\<lambda>x. co_commitmentMonths x \<noteq> None) (ch_options c)"

definition consistency_issues :: "proposal_definition \<Rightarrow> definition_issue list" where
  "consistency_issues d =
     duplicate_lines {} (pd_lines d)
     @ concat (map (line_issues (pd_choices d)) (pd_lines d))
     @ map (\<lambda>c. DefaultOption (ch_key c))
         (filter (\<lambda>c. length (filter co_default (ch_options c)) \<noteq> 1) (pd_choices d))
     @ (if length (filter commits (pd_choices d)) \<noteq> 1 then [CommitmentChoice] else [])"

text \<open>The issues of the shape are summed up in one.\<close>

definition definition_issues :: "proposal_definition \<Rightarrow> definition_issue list" where
  "definition_issues d = (if table_shape d then [] else [MalformedTable]) @ consistency_issues d"

lemma no_issues: "definition_issues d = [] \<longleftrightarrow> table_shape d \<and> consistency_issues d = []"
  by (simp add: definition_issues_def)

subsection \<open>Statuses\<close>

definition lifted :: "price_status \<Rightarrow> price_status \<Rightarrow> price_status" where
  "lifted s t = (if s = PS_TO_VALIDATE \<and> t = PS_VALIDATED then PS_VALIDATED else s)"

text \<open>The maps by key keep the last element of a key: \<open>line_of\<close>, and for the rules and choices:\<close>

definition last_rule :: "proposal_definition \<Rightarrow> string \<Rightarrow> proposal_rule option" where
  "last_rule d k = List.find (\<lambda>r. rule_key r = k) (rev (pd_rules d))"

definition last_choice :: "proposal_definition \<Rightarrow> string \<Rightarrow> proposal_choice option" where
  "last_choice d k = List.find (\<lambda>c. ch_key c = k) (rev (pd_choices d))"

fun with_rule_status :: "price_status \<Rightarrow> proposal_rule \<Rightarrow> proposal_rule" where
  "with_rule_status s (MINIMUM_MONTHLY key amount label status) = MINIMUM_MONTHLY key amount label s"
| "with_rule_status s (DISCOUNT_PERCENT key percent appliesTo trigger label status) =
     DISCOUNT_PERCENT key percent appliesTo trigger label s"
| "with_rule_status s r = r"

text \<open>\<open>same(comparable(a), comparable(b))\<close>, where both have a status.\<close>

definition same_rule :: "proposal_rule \<Rightarrow> proposal_rule \<Rightarrow> bool" where
  "same_rule a b = (with_rule_status PS_VALIDATED a = with_rule_status PS_VALIDATED b)"

definition template_by_choice ::
    "(string \<times> price_status) list \<Rightarrow> (string \<times> price_status) list \<Rightarrow> (string \<times> price_status) list" where
  "template_by_choice own template =
     map (\<lambda>(k, s). (k, case map_of template k of None \<Rightarrow> s | Some t \<Rightarrow> lifted s t)) own"

definition template_line ::
    "proposal_definition \<Rightarrow> proposal_pricing_line \<Rightarrow> proposal_pricing_line" where
  "template_line template l =
     (case line_of template (pp_key l) of
        None \<Rightarrow> l
      | Some t \<Rightarrow>
          if pp_pricing t \<noteq> pp_pricing l then l
          else let lifted_line = l\<lparr>pp_priceStatus := lifted (pp_priceStatus l) (pp_priceStatus t)\<rparr>
               in case (pp_priceStatusByChoice l, pp_priceStatusByChoice t) of
                    (Some own, Some ts) \<Rightarrow>
                      lifted_line\<lparr>pp_priceStatusByChoice := Some (template_by_choice own ts)\<rparr>
                  | _ \<Rightarrow> lifted_line)"

definition template_rule :: "proposal_definition \<Rightarrow> proposal_rule \<Rightarrow> proposal_rule" where
  "template_rule template r =
     (case (last_rule template (rule_key r), rule_price_status r) of
        (Some t, Some s) \<Rightarrow>
          (case rule_price_status t of
             None \<Rightarrow> r
           | Some ts \<Rightarrow> if same_rule t r then with_rule_status (lifted s ts) r else r)
      | _ \<Rightarrow> r)"

definition template_choice :: "proposal_definition \<Rightarrow> proposal_choice \<Rightarrow> proposal_choice" where
  "template_choice template c =
     (case last_choice template (ch_key c) of
        None \<Rightarrow> c
      | Some t \<Rightarrow>
          if ch_priceStatus c = Some PS_TO_VALIDATE \<and> ch_priceStatus t \<noteq> Some PS_TO_VALIDATE
          then c\<lparr>ch_priceStatus := Some PS_VALIDATED\<rparr> else c)"

definition with_template_validations ::
    "proposal_definition \<Rightarrow> proposal_definition option \<Rightarrow> proposal_definition" where
  "with_template_validations d template =
     (case template of
        None \<Rightarrow> d
      | Some t \<Rightarrow> d\<lparr>pd_lines := map (template_line t) (pd_lines d),
                     pd_rules := map (template_rule t) (pd_rules d),
                     pd_choices := map (template_choice t) (pd_choices d)\<rparr>)"

definition enforce_line ::
    "proposal_definition \<Rightarrow> proposal_pricing_line \<Rightarrow> proposal_pricing_line" where
  "enforce_line prev l =
     (case line_of prev (pp_key l) of
        Some p \<Rightarrow>
          if pp_pricing p = pp_pricing l
          then l\<lparr>pp_priceStatus := pp_priceStatus p, pp_priceStatusByChoice := pp_priceStatusByChoice p\<rparr>
          else l\<lparr>pp_priceStatus := PS_TO_VALIDATE, pp_priceStatusByChoice := None\<rparr>
      | None \<Rightarrow> l\<lparr>pp_priceStatus := PS_TO_VALIDATE, pp_priceStatusByChoice := None\<rparr>)"

definition enforce_rule :: "proposal_definition \<Rightarrow> proposal_rule \<Rightarrow> proposal_rule" where
  "enforce_rule prev r =
     (case rule_price_status r of
        None \<Rightarrow> r
      | Some s \<Rightarrow>
          (case last_rule prev (rule_key r) of
             None \<Rightarrow> with_rule_status PS_TO_VALIDATE r
           | Some p \<Rightarrow>
               (case rule_price_status p of
                  None \<Rightarrow> with_rule_status PS_TO_VALIDATE r
                | Some ps \<Rightarrow>
                    if same_rule p r then with_rule_status ps r
                    else with_rule_status PS_TO_VALIDATE r)))"

definition enforce_choice :: "proposal_definition \<Rightarrow> proposal_choice \<Rightarrow> proposal_choice" where
  "enforce_choice prev c =
     c\<lparr>ch_priceStatus :=
         Some (case last_choice prev (ch_key c) of
                 None \<Rightarrow> PS_VALIDATED
               | Some p \<Rightarrow> (case ch_priceStatus p of None \<Rightarrow> PS_VALIDATED | Some s \<Rightarrow> s))\<rparr>"

definition enforce_price_statuses ::
    "proposal_definition \<Rightarrow> proposal_definition \<Rightarrow> proposal_definition" where
  "enforce_price_statuses nxt prev =
     nxt\<lparr>pd_lines := map (enforce_line prev) (pd_lines nxt),
         pd_rules := map (enforce_rule prev) (pd_rules nxt),
         pd_choices := map (enforce_choice prev) (pd_choices nxt)\<rparr>"

subsection \<open>Validation by an administrator\<close>

datatype target_scope = TG_LINE | TG_RULE | TG_CHOICE

record validation_target =
  tg_scope :: target_scope
  tg_key :: string
  tg_choiceValue :: "string option"

definition update_line ::
    "string \<Rightarrow> (proposal_pricing_line \<Rightarrow> proposal_pricing_line) \<Rightarrow> proposal_definition \<Rightarrow> proposal_definition" where
  "update_line k f d = d\<lparr>pd_lines := map (\<lambda>x. if pp_key x = k then f x else x) (pd_lines d)\<rparr>"

definition validate_line_in ::
    "proposal_definition \<Rightarrow> proposal_pricing_line \<Rightarrow> string option \<Rightarrow> proposal_definition option" where
  "validate_line_in d l choiceValue =
     (case pp_priceStatusByChoice l of
        Some statuses \<Rightarrow>
          (case choiceValue of
             None \<Rightarrow> None
           | Some v \<Rightarrow>
               if v = [] \<or> map_of statuses v \<noteq> Some PS_TO_VALIDATE then None
               else
                 let byChoice = map_set v PS_VALIDATED statuses;
                     all = list_all (\<lambda>s. s = PS_VALIDATED) (map snd byChoice)
                 in Some (update_line (pp_key l)
                      (\<lambda>x. x\<lparr>pp_priceStatusByChoice := Some byChoice,
                              pp_priceStatus := if all then PS_VALIDATED else pp_priceStatus x\<rparr>) d))
      | None \<Rightarrow>
          if pp_priceStatus l \<noteq> PS_TO_VALIDATE then None
          else Some (update_line (pp_key l) (\<lambda>x. x\<lparr>pp_priceStatus := PS_VALIDATED\<rparr>) d))"

definition validate_in_definition ::
    "proposal_definition \<Rightarrow> validation_target \<Rightarrow> proposal_definition option" where
  "validate_in_definition d target =
     (case tg_scope target of
        TG_LINE \<Rightarrow>
          (case List.find (\<lambda>x. pp_key x = tg_key target) (pd_lines d) of
             None \<Rightarrow> None
           | Some l \<Rightarrow> validate_line_in d l (tg_choiceValue target))
      | TG_RULE \<Rightarrow>
          (case List.find (\<lambda>x. rule_key x = tg_key target) (pd_rules d) of
             None \<Rightarrow> None
           | Some r \<Rightarrow>
               if rule_price_status r \<noteq> Some PS_TO_VALIDATE then None
               else Some (d\<lparr>pd_rules := map (\<lambda>x. if rule_key x = rule_key r
                                                  then with_rule_status PS_VALIDATED x else x) (pd_rules d)\<rparr>))
      | TG_CHOICE \<Rightarrow>
          (case List.find (\<lambda>x. ch_key x = tg_key target) (pd_choices d) of
             None \<Rightarrow> None
           | Some c \<Rightarrow>
               if ch_priceStatus c \<noteq> Some PS_TO_VALIDATE then None
               else Some (d\<lparr>pd_choices := map (\<lambda>x. if ch_key x = ch_key c
                                                    then x\<lparr>ch_priceStatus := Some PS_VALIDATED\<rparr> else x)
                              (pd_choices d)\<rparr>)))"


subsection \<open>A consistent table has a price for every choice\<close>

definition plain_text :: "string \<Rightarrow> bool" where
  "plain_text s = (s \<noteq> [] \<and> CHR '','' \<notin> set s)"

lemma split_at_comma:
  assumes "CHR '','' \<notin> set x" "CHR '','' \<notin> set y" "x @ CHR '','' # r = y @ CHR '','' # s"
  shows "x = y \<and> r = s"
proof -
  have "takeWhile (\<lambda>c. c \<noteq> CHR '','') (z @ CHR '','' # q) = z" if "CHR '','' \<notin> set z" for z q
    using that by (induction z) auto
  then have "x = y" using assms by metis
  then show ?thesis using assms(3) by simp
qed

lemma comma_in_join: "CHR '','' \<in> set (join_comma (x # y # ys))"
  by simp

lemma join_comma_inj:
  "list_all plain_text xs \<Longrightarrow> list_all plain_text ys \<Longrightarrow> join_comma xs = join_comma ys \<Longrightarrow> xs = ys"
proof (induction xs arbitrary: ys rule: join_comma.induct)
  case 1
  then show ?case by (cases ys rule: join_comma.cases) (auto simp: plain_text_def)
next
  case (2 x)
  then show ?case
  proof (cases ys rule: join_comma.cases)
    case (3 u v vs)
    then show ?thesis using 2 comma_in_join [of u v vs] by (auto simp: plain_text_def)
  qed (auto simp: plain_text_def)
next
  case (3 x y xs)
  show ?case
  proof (cases ys rule: join_comma.cases)
    case 2
    then show ?thesis using 3 comma_in_join [of x y xs] by (auto simp: plain_text_def)
  next
    case (3 u v vs)
    then have "x = u \<and> join_comma (y # xs) = join_comma (v # vs)"
      using "3.prems" by (intro split_at_comma) (auto simp: plain_text_def)
    then show ?thesis using "3.IH" [of "v # vs"] "3.prems" 3 by auto
  qed (use 3 in \<open>auto simp: plain_text_def\<close>)
qed

lemma sorted_join_inj:
  assumes "list_all plain_text xs" "list_all plain_text ys" "sorted_join xs = sorted_join ys"
  shows "mset xs = mset ys"
proof -
  have "sort xs = sort ys"
    by (rule join_comma_inj) (use assms in \<open>simp_all add: sorted_join_def list_all_iff\<close>)
  then show ?thesis by (metis mset_sort)
qed

definition plain_choices :: "proposal_definition \<Rightarrow> bool" where
  "plain_choices d \<longleftrightarrow>
     list_all (\<lambda>c. list_all (\<lambda>x. plain_text (co_value x)) (ch_options c)) (pd_choices d)
     \<and> list_all (\<lambda>l. case pp_pricing l of UnitCents c \<Rightarrow> True
                    | ByChoice dependsOn byChoice \<Rightarrow> list_all (\<lambda>kv. plain_text (fst kv)) byChoice)
         (pd_lines d)"

lemma duplicate_lines_Nil:
  "duplicate_lines seen ls = [] \<longleftrightarrow> distinct (map pp_key ls) \<and> seen \<inter> pp_key ` set ls = {}"
  by (induction ls arbitrary: seen) auto

text \<open>C37: a price table that passes the schema has a price for every line whatever the client chooses: when
  every choice has one of its values, no line lacks a price, so no quote is refused for a missing
  price. Neither the values of the options nor the keys of the prices by choice hold a comma or are empty: the
  schema compares the two lists joined by commas, and without that condition it accepts a table whose one
  price is for the joined text (\<open>joined_choices_accepted\<close>).\<close>

theorem consistent_table_always_priced:
  assumes "definition_issues d = []" "plain_choices d"
    and "choice_errors d sel (cf_choices (configure d sel)) = []"
  shows "list_all (\<lambda>l. unit_price_cents l (cf_choices (configure d sel)) \<noteq> None) (pd_lines d)
    \<and> price_errors d (cf_choices (configure d sel)) (cf_included (configure d sel)) = []"
proof -
  let ?ch = "cf_choices (configure d sel)"
  have priced: "unit_price_cents l ?ch \<noteq> None" if l: "l \<in> set (pd_lines d)" for l
  proof (cases "pp_pricing l")
    case (ByChoice dep byChoice)
    have "price_issues (pd_choices d) l = []"
      using assms(1) l by (simp add: no_issues consistency_issues_def line_issues_def)
    then obtain c where c: "find_choice (pd_choices d) dep = Some c"
      and join: "sorted_join (map co_value (ch_options c)) = sorted_join (map fst byChoice)"
      by (auto simp: price_issues_def ByChoice split: option.splits if_splits)
    have cin: "c \<in> set (pd_choices d)" "ch_key c = dep"
      using find_set [of _ "pd_choices d" c] c by (auto simp: find_choice_def)
    have "list_all plain_text (map co_value (ch_options c))" "list_all plain_text (map fst byChoice)"
      using assms(2) cin(1) l ByChoice
      by (fastforce simp: plain_choices_def list_all_iff split: line_pricing.splits)+
    then have same: "set (map co_value (ch_options c)) = set (map fst byChoice)"
      using sorted_join_inj [OF _ _ join] mset_eq_setD by blast
    obtain x where x: "x \<in> set (ch_options c)" "map_of ?ch dep = Some (co_value x)"
      using assms(3) cin by (fastforce simp: choice_errors_def filter_empty_conv list_ex_iff)
    have "co_value x \<in> fst ` set byChoice" using x(1) same by auto
    then show ?thesis
      using x(2) by (auto simp: unit_price_cents_def ByChoice map_of_eq_None_iff)
  qed (simp add: unit_price_cents_def)
  then show ?thesis by (auto simp: list_all_iff price_errors_def filter_empty_conv)
qed

subsection \<open>Statuses never change an amount\<close>

definition bare_line :: "proposal_pricing_line \<Rightarrow> proposal_pricing_line" where
  "bare_line l = l\<lparr>pp_priceStatus := PS_VALIDATED, pp_priceStatusByChoice := None\<rparr>"

definition bare_choice :: "proposal_choice \<Rightarrow> proposal_choice" where
  "bare_choice c = c\<lparr>ch_priceStatus := None\<rparr>"

definition bare :: "proposal_definition \<Rightarrow> proposal_definition" where
  "bare d = d\<lparr>pd_lines := map bare_line (pd_lines d),
              pd_rules := map (with_rule_status PS_VALIDATED) (pd_rules d),
              pd_choices := map bare_choice (pd_choices d)\<rparr>"

lemma bare_fields [simp]:
  "pp_key (bare_line l) = pp_key l" "pp_kind (bare_line l) = pp_kind l"
  "pp_quantity (bare_line l) = pp_quantity l" "pp_pricing (bare_line l) = pp_pricing l"
  "pp_grid (bare_line l) = pp_grid l" "pp_recurrence (bare_line l) = pp_recurrence l"
  "pp_unit (bare_line l) = pp_unit l" "pp_label (bare_line l) = pp_label l"
  "pp_group (bare_line l) = pp_group l" "pp_priceFrom (bare_line l) = pp_priceFrom l"
  "ch_key (bare_choice c) = ch_key c" "ch_options (bare_choice c) = ch_options c"
  "rule_key (with_rule_status s r) = rule_key r"
  "pd_vatRatePercent (bare d) = pd_vatRatePercent d"
  by (simp_all add: bare_line_def bare_choice_def bare_def) (cases r; simp)

lemma find_map_same:
  "(\<And>x. P (f x) = P x) \<Longrightarrow> List.find P (map f xs) = map_option f (List.find P xs)"
  by (induction xs) auto

lemma line_of_bare [simp]: "line_of (bare d) k = map_option bare_line (line_of d k)"
  by (simp add: line_of_def bare_def rev_map find_map_same)

lemma bare_functions [simp]:
  "unit_price_cents (bare_line l) ch = unit_price_cents l ch"
  "default_choice (bare_choice c) = default_choice c"
  "raw_quantity sel (bare_line l) = raw_quantity sel l"
  "grid_variant_code (bare_line l) ch = grid_variant_code l ch"
  "to_engine_line (bare_line l) q p v code = to_engine_line l q p v code"
  by (auto simp: unit_price_cents_def default_choice_def raw_quantity_def grid_variant_code_def
      to_engine_line_def split: option.splits list.splits default_quantity.splits line_pricing.splits
      proposal_recurrence.splits)

lemma bare_steps [simp]:
  "include_line sel k (bare_line l) acc = include_line sel k l acc"
  "include_selected sel acc (bare_line l) = include_selected sel acc l"
  "include_setup inc (bare_line l) = include_setup inc l"
  by (auto simp: include_line_def include_selected_def include_setup_def split: option.splits)

lemma bare_rules [simp]:
  "preselect sel out (with_rule_status s r) = preselect sel out r"
  "rule_errors inc (with_rule_status s r) = rule_errors inc r"
  by (cases r; simp add: preselect_def rule_errors_def)+

lemma bare_lists:
  "pd_lines (bare d) = map bare_line (pd_lines d)"
  "pd_rules (bare d) = map (with_rule_status PS_VALIDATED) (pd_rules d)"
  "pd_choices (bare d) = map bare_choice (pd_choices d)"
  by (simp_all add: bare_def)

lemma include_bare [simp]:
  "include_required (bare d) sel acc (with_rule_status s r) = include_required d sel acc r"
  "include_auto (bare d) sel acc (with_rule_status s r) = include_auto d sel acc r"
  by (cases r; cases "line_of d (case r of REQUIRED_IF_ANY k l a m \<Rightarrow> l | AUTO_INCLUDE k l t \<Rightarrow> l)";
      simp add: include_required_def include_auto_def)+

lemma bound_errors_bare [simp]: "bound_errors (bare d) sel inc = bound_errors d sel inc"
proof
  fix kq :: "string \<times> rat"
  obtain k q where kq: "kq = (k, q)" by (cases kq)
  show "bound_errors (bare d) sel inc kq = bound_errors d sel inc kq"
  proof (cases "line_of d k")
    case None
    show ?thesis unfolding kq bound_errors_def prod.case Let_def line_of_bare None option.map ..
  next
    case (Some l)
    then show ?thesis by (cases "pp_quantity l") (simp_all add: kq bound_errors_def Let_def)
  qed
qed

lemma configure_bare: "configure (bare d) sel = configure d sel"
proof -
  have "resolve_choices (bare d) sel = resolve_choices d sel"
    by (simp add: resolve_choices_def bare_lists foldl_map Let_def)
  moreover have "choice_errors (bare d) sel ch = choice_errors d sel ch" for ch
    by (simp add: choice_errors_def bare_lists filter_map o_def list_ex_iff)
  moreover have "commitment_months (bare d) ch = commitment_months d ch" for ch
    by (simp add: commitment_months_def bare_lists find_map_same split: option.splits)
  moreover have "selection_errors (bare d) sel = selection_errors d sel"
    by (simp add: selection_errors_def option.map_comp o_def)
  moreover have "price_errors (bare d) ch inc = price_errors d ch inc" for ch inc
    by (simp add: price_errors_def bare_lists filter_map o_def)
  ultimately show ?thesis
    by (simp add: configure_def Let_def bare_lists foldl_map o_def)
qed

lemma discount_line_bare [simp]:
  "discount_line (bare d) cfg (with_rule_status s r) = discount_line d cfg r"
  by (cases r) (simp_all add: discount_line_def Let_def)

lemma engine_lines_bare: "engine_lines (bare d) cfg = engine_lines d cfg"
  by (simp add: engine_lines_def retained_lines_def info_tariffs_def bare_lists filter_map o_def)

lemma minimum_rule_bare [simp]: "minimum_rule (map (with_rule_status s) rs) = minimum_rule rs"
proof (induction rs)
  case (Cons r rs)
  then show ?case by (cases r) simp_all
qed simp

lemma minimum_line_bare: "minimum_line (bare d) = minimum_line d"
  by (intro ext) (simp add: minimum_line_def)

lemma price_with_minimum_bare:
  "price_with_minimum dc (bare d) settings opts ls = price_with_minimum dc d settings opts ls"
  unfolding price_with_minimum_def minimum_line_bare bare_lists minimum_rule_bare ..

lemma rule_of_bare [simp]: "rule_of (bare d) k = map_option (with_rule_status PS_VALIDATED) (rule_of d k)"
  by (simp add: rule_of_def bare_lists find_map_same)

lemma is_info_bare [simp]: "is_info (bare d) k = is_info d k"
  by (simp add: is_info_def option.map_comp o_def)

lemma is_minimum_bare [simp]: "is_minimum (map_option (with_rule_status s) r) = is_minimum r"
proof (cases r)
  case (Some x)
  then show ?thesis by (cases x) (simp_all add: is_minimum_def)
qed (simp add: is_minimum_def)

definition bare_quoted :: "quoted_line \<Rightarrow> quoted_line" where
  "bare_quoted x = x\<lparr>ql_priceStatus := PS_VALIDATED\<rparr>"

text \<open>A quote without the statuses of its lines and the list of what is to validate.\<close>

definition without_statuses :: "proposal_quote \<Rightarrow> proposal_quote" where
  "without_statuses q =
     q\<lparr>pt_lines := map bare_quoted (pt_lines q), pt_infoLines := map bare_quoted (pt_infoLines q),
       pt_blockingValidations := []\<rparr>"

lemma quoted_line_bare:
  "bare_quoted (quoted_line_of dc (bare d) cfg p) = bare_quoted (quoted_line_of dc d cfg p)"
  by (cases "line_of d (pl_lineId p)") (simp_all add: quoted_line_of_def Let_def bare_quoted_def)

lemma recurrence_bucket_bare [simp]: "recurrence_bucket dc (bare d) r rec = recurrence_bucket dc d r rec"
  by (simp add: recurrence_bucket_def)

lemma selected_options_bare [simp]: "selected_options (bare d) cfg = selected_options d cfg"
  by (simp add: selected_options_def bare_lists filter_map o_def)

lemma quote_of_result_bare:
  "without_statuses (quote_of_result dc (bare d) cfg s r) = without_statuses (quote_of_result dc d cfg s r)"
  by (simp add: without_statuses_def quote_of_result_def Let_def filter_map o_def quoted_line_bare)

lemma quote_bare:
  "map_sum id without_statuses (quote_proposal dc (bare d) sel opts)
   = map_sum id without_statuses (quote_proposal dc d sel opts)"
proof (cases "resolve_settings dc (qo_settings opts)")
  case (Inr st)
  show ?thesis
  proof (cases "price_with_minimum dc d st opts (engine_lines d (configure d sel))")
    case (Inr sr)
    then show ?thesis
      using \<open>resolve_settings dc (qo_settings opts) = Inr st\<close>
      by (cases sr) (simp add: quote_proposal_def Let_def configure_bare engine_lines_bare
          price_with_minimum_bare quote_of_result_bare empty_quote_def)
  qed (use Inr in \<open>simp add: quote_proposal_def Let_def configure_bare engine_lines_bare
          price_with_minimum_bare empty_quote_def\<close>)
qed (simp add: quote_proposal_def)

lemma bare_template_line: "bare_line (template_line t l) = bare_line l"
  by (auto simp: template_line_def bare_line_def Let_def split: option.splits)

lemma bare_rule_status [simp]: "with_rule_status s (with_rule_status s' r) = with_rule_status s r"
  by (cases r) simp_all

lemma bare_template: "bare (with_template_validations d t) = bare d"
proof -
  have "with_rule_status PS_VALIDATED (template_rule u r) = with_rule_status PS_VALIDATED r" for u r
    by (auto simp: template_rule_def split: option.splits)
  moreover have "bare_choice (template_choice u c) = bare_choice c" for u c
    by (auto simp: template_choice_def bare_choice_def split: option.splits)
  ultimately show ?thesis
    by (cases t) (simp_all add: with_template_validations_def bare_def o_def bare_template_line)
qed

lemma bare_update_line:
  "(\<And>x. bare_line (f x) = bare_line x) \<Longrightarrow> bare (update_line k f d) = bare d"
  by (simp add: bare_def update_line_def o_def if_distrib cong: if_cong)

lemma bare_validate:
  assumes "validate_in_definition d target = Some d'"
  shows "bare d' = bare d"
proof (cases "tg_scope target")
  case TG_LINE
  then obtain l where l: "validate_line_in d l (tg_choiceValue target) = Some d'"
    using assms by (auto simp: validate_in_definition_def split: option.splits)
  then show ?thesis
    by (auto simp: validate_line_in_def Let_def bare_line_def intro!: bare_update_line
        split: option.splits if_splits)
next
  case TG_RULE
  then show ?thesis
    using assms
    by (auto simp: validate_in_definition_def bare_def o_def split: option.splits if_splits)
next
  case TG_CHOICE
  then show ?thesis
    using assms
    by (auto simp: validate_in_definition_def bare_def o_def bare_choice_def split: option.splits if_splits)
qed

text \<open>C35: lifting a validation never changes an amount: whether the origin template validated elements since,
  or an administrator validates one of this proposal, the quote is the same (the same error, or the
  same lines, amounts, schedule and errors) but for the statuses of the lines and the list of what
  is still to validate.\<close>

theorem validations_keep_amounts:
  "map_sum id without_statuses (quote_proposal dc (with_template_validations d t) sel opts)
     = map_sum id without_statuses (quote_proposal dc d sel opts)
   \<and> (case validate_in_definition d target of
        None \<Rightarrow> True
      | Some d' \<Rightarrow> map_sum id without_statuses (quote_proposal dc d' sel opts)
                   = map_sum id without_statuses (quote_proposal dc d sel opts))"
proof -
  have same: "map_sum id without_statuses (quote_proposal dc d' sel opts)
      = map_sum id without_statuses (quote_proposal dc d sel opts)" if "bare d' = bare d" for d'
    using quote_bare [of dc d'] quote_bare [of dc d] that by metis
  show ?thesis
    by (auto intro: same bare_template bare_validate split: option.splits)
qed


text \<open>Two options \<open>a\<close> and \<open>b\<close> and one price for \<open>a,b\<close>: accepted, and the line has no price.\<close>

definition joined_table :: proposal_definition where
  "joined_table =
     seats_proposal\<lparr>
       pd_choices := [\<lparr>ch_key = ''engagement'', ch_label = ''Engagement'',
         ch_options = [\<lparr>co_value = ''a'', co_label = ''12 mois'', co_default = True, co_commitmentMonths = Some 12\<rparr>,
                       \<lparr>co_value = ''b'', co_label = ''36 mois'', co_default = False, co_commitmentMonths = Some 36\<rparr>],
         ch_editableByClient = True, ch_priceStatus = None\<rparr>],
       pd_lines := map (\<lambda>l. l\<lparr>pp_pricing := ByChoice ''engagement'' [(''a,b'', 3000)]\<rparr>) (take 1 (pd_lines seats_proposal))\<rparr>"

lemma joined_choices_accepted:
  "definition_issues joined_table = [] \<and> unit_price_cents (hd (pd_lines joined_table)) [(''engagement'', ''a'')] = None"
  by code_simp

lemma seats_consistent:
  "definition_issues seats_proposal = []" "plain_choices seats_proposal"
  "choice_errors seats_proposal ten_seats [(''engagement'', ''12'')] = []"
  by code_simp+

theorem consistent_table_always_priced_witness:
  "list_all (\<lambda>l. unit_price_cents l (cf_choices (configure seats_proposal ten_seats)) \<noteq> None)
     (pd_lines seats_proposal)"
  by (rule conjunct1 [OF consistent_table_always_priced [OF seats_consistent(1,2)]])
    (simp add: ten_seats_configured seats_consistent(3))

end
