(* ===== verification/GridLines.thy ===== *)
theory GridLines
  imports PriceStatuses
begin

text \<open>
  Lines of a proposal copied from the price grid of a contract kind:
  \<open>apps/api/src/proposals/proposal-grid.ts\<close>. The rate of an article is the text of the grid; both rates
  compared have at most two decimals, which a number holds. A commitment of more than 99
  months has no code: \<open>commitmentSuffix\<close> throws, which is \<open>BadSuffix\<close>.
\<close>

subsection \<open>Articles of the grid\<close>

definition PRICE_UNITS :: "(string \<times> string) list" where
  "PRICE_UNITS =
     [(''PER_USER'', ''par utilisateur''), (''PER_DEVICE'', ''par poste''), (''PER_LICENSE'', ''par licence''),
      (''PER_UNIT'', CHR 0xE0 # '' l'' @ CHR 0x27 # ''unit'' @ [CHR 0xE9]), (''FLAT'', ''forfait''),
      (''PER_HOUR'', ''heure'')]"

definition unit_label :: "string \<Rightarrow> string" where
  "unit_label code = (case map_of PRICE_UNITS code of None \<Rightarrow> code | Some l \<Rightarrow> l)"

record grid_version =
  gv_code :: string
  gv_unitPrice :: string
  gv_effectiveFrom :: string

record grid_item =
  gi_code :: string
  gi_label :: string
  gi_unit :: string
  gi_recurrence :: recurrence
  gi_vatRatePercent :: string
  gi_byMonths :: "(int \<times> grid_version) list"

datatype grid_line_error =
    NO_COMMITMENT_CHOICE
  | VAT_MISMATCH
  | MISSING_DURATIONS "string list"
  | PRICE_PRECISION
  | BadSuffix

definition commitment_choice_of :: "proposal_definition \<Rightarrow> grid_line_error + proposal_choice" where
  "commitment_choice_of d =
     (case List.find commits (pd_choices d) of None \<Rightarrow> Inl NO_COMMITMENT_CHOICE | Some c \<Rightarrow> Inr c)"

fun GRID_RECURRENCE :: "recurrence \<Rightarrow> proposal_recurrence" where
  "GRID_RECURRENCE MONTHLY = PR_MONTHLY"
| "GRID_RECURRENCE YEARLY = PR_YEARLY"
| "GRID_RECURRENCE QUARTERLY = PR_QUARTERLY"
| "GRID_RECURRENCE ONE_OFF = PR_ONE_TIME"

definition version_cents :: "grid_item \<Rightarrow> int \<Rightarrow> grid_line_error + (string \<times> int) option" where
  "version_cents item months =
     (case map_of (gi_byMonths item) months of
        None \<Rightarrow> Inr None
      | Some v \<Rightarrow>
          (case grid_price_to_cents (gv_unitPrice v) of
             Inl e \<Rightarrow> Inl PRICE_PRECISION
           | Inr c \<Rightarrow> Inr (Some (gv_code v, int c))))"

definition option_months :: "choice_option \<Rightarrow> int" where
  "option_months x = (case co_commitmentMonths x of None \<Rightarrow> 0 | Some m \<Rightarrow> m)"

text \<open>The label of a missing version: its code and the label of the option.\<close>

definition missing_label :: "string \<Rightarrow> int \<Rightarrow> string \<Rightarrow> grid_line_error + string" where
  "missing_label itemCode months label =
     (case commitment_suffix months of
        Inl e \<Rightarrow> Inl BadSuffix
      | Inr suffix \<Rightarrow> Inr (itemCode @ ''-'' @ suffix @ '' ('' @ label @ '')''))"

subsection \<open>Key of a new line\<close>

text \<open>\<open>toLowerCase\<close> of the code units below 256.\<close>

definition js_lower_char :: "char \<Rightarrow> char" where
  "js_lower_char c =
     (let n = of_char c in
      if (65 \<le> n \<and> n \<le> 90) \<or> (192 \<le> n \<and> n \<le> 222 \<and> n \<noteq> (215 :: nat)) then char_of (n + 32) else c)"

definition numbered_key :: "string \<Rightarrow> nat \<Rightarrow> string" where
  "numbered_key base i = base @ ''-'' @ nat_string i"

text \<open>The loop on \<open>i\<close> has no bound in the code; it is given as many turns as there are lines, plus one.\<close>

fun free_key :: "nat \<Rightarrow> string list \<Rightarrow> string \<Rightarrow> nat \<Rightarrow> string option" where
  "free_key 0 used base i = None"
| "free_key (Suc n) used base i =
     (if numbered_key base i \<notin> set used then Some (numbered_key base i) else free_key n used base (i + 1))"

definition grid_line_key :: "proposal_definition \<Rightarrow> string \<Rightarrow> string option" where
  "grid_line_key d itemCode =
     (let base = map js_lower_char itemCode; used = map pp_key (pd_lines d)
      in if base \<notin> set used then Some base else free_key (Suc (length used)) used base 2)"

subsection \<open>Adding a line\<close>

record grid_copy =
  gc_byChoice :: "(string \<times> int) list"
  gc_variants :: "(string \<times> string) list"
  gc_missing :: "string list"
  gc_fetched :: bool

definition no_copy :: grid_copy where
  "no_copy = \<lparr>gc_byChoice = [], gc_variants = [], gc_missing = [], gc_fetched = False\<rparr>"

definition add_version :: "string \<Rightarrow> int \<Rightarrow> string \<Rightarrow> grid_copy \<Rightarrow> grid_copy" where
  "add_version v cents code acc =
     acc\<lparr>gc_byChoice := map_set v cents (gc_byChoice acc), gc_variants := map_set v code (gc_variants acc)\<rparr>"

definition copy_option ::
    "grid_item \<Rightarrow> grid_copy \<Rightarrow> choice_option \<Rightarrow> grid_line_error + grid_copy" where
  "copy_option item acc x =
     ebind (version_cents item (option_months x)) (\<lambda>v.
       case v of
         None \<Rightarrow>
           ebind (missing_label (gi_code item) (option_months x) (co_label x)) (\<lambda>l.
             Inr (acc\<lparr>gc_missing := gc_missing acc @ [l]\<rparr>))
       | Some (code, cents) \<Rightarrow> Inr (add_version (co_value x) cents code acc))"

definition build_grid_line ::
    "proposal_definition \<Rightarrow> grid_item \<Rightarrow> string \<Rightarrow> proposal_line_kind option \<Rightarrow> rat option \<Rightarrow> string
     \<Rightarrow> grid_line_error + proposal_pricing_line" where
  "build_grid_line d item key kind quantity onDay =
     (if js_number (gi_vatRatePercent item) = None
         \<or> js_number (gi_vatRatePercent item) \<noteq> js_number (pd_vatRatePercent d)
      then Inl VAT_MISMATCH
      else
        ebind (commitment_choice_of d) (\<lambda>choice.
        ebind (efold (copy_option item) no_copy (ch_options choice)) (\<lambda>c.
          if gc_missing c \<noteq> [] then Inl (MISSING_DURATIONS (gc_missing c))
          else
            let k = (case kind of Some k \<Rightarrow> k
                     | None \<Rightarrow> if gi_recurrence item = ONE_OFF then LK_SETUP else LK_REQUIRED);
                recurrence = GRID_RECURRENCE (gi_recurrence item);
                grp = (if k = LK_OPTIONAL then LG_OPTIONS else if recurrence = PR_ONE_TIME then LG_SETUP
                       else if recurrence = PR_YEARLY then LG_YEARLY else LG_RECURRING)
            in Inr \<lparr>pp_key = key, pp_label = gi_label item, pp_kind = k, pp_unit = unit_label (gi_unit item),
                    pp_recurrence = recurrence,
                    pp_quantity = Some \<lparr>pq_default = QNumber (case quantity of None \<Rightarrow> 1 | Some q \<Rightarrow> q),
                      pq_min = 0, pq_max = None, pq_maxFrom = None, pq_linkedTo = None,
                      pq_editableByClient = False\<rparr>,
                    pp_pricing = ByChoice (ch_key choice) (gc_byChoice c), pp_priceFrom = None,
                    pp_priceStatus = PS_VALIDATED, pp_priceStatusByChoice = None, pp_group = grp,
                    pp_grid = Some \<lparr>gr_itemCode = gi_code item, gr_variants = gc_variants c,
                      gr_vatRatePercent = gi_vatRatePercent item, gr_on = onDay\<rparr>\<rparr>)))"

subsection \<open>Changing the commitments\<close>

record commitments_input =
  ci_months :: "int list"
  ci_defaultMonths :: int
  ci_switchGridLines :: bool
  ci_on :: string

text \<open>\<open>while (taken.has(value)) value = value + 'm'\<close>, with as many turns as there are values taken, plus one.\<close>

fun free_value :: "nat \<Rightarrow> string list \<Rightarrow> string \<Rightarrow> string option" where
  "free_value 0 taken v = None"
| "free_value (Suc n) taken v = (if v \<notin> set taken then Some v else free_value n taken (v @ ''m''))"

definition option_of_months :: "proposal_choice \<Rightarrow> int \<Rightarrow> choice_option option" where
  "option_of_months choice m = List.find (\<lambda>x. co_commitmentMonths x = Some m) (ch_options choice)"

definition new_option ::
    "proposal_choice \<Rightarrow> int \<Rightarrow> (int \<times> string) list \<Rightarrow> string list \<Rightarrow> int \<Rightarrow> choice_option option" where
  "new_option choice dflt labels taken m =
     (case option_of_months choice m of
        Some kept \<Rightarrow> Some (kept\<lparr>co_default := (m = dflt)\<rparr>)
      | None \<Rightarrow>
          map_option (\<lambda>v. \<lparr>co_value = v,
              co_label = (case map_of labels m of None \<Rightarrow> int_string m @ '' mois'' | Some l \<Rightarrow> l),
              co_default = (m = dflt), co_commitmentMonths = Some m\<rparr>)
            (free_value (Suc (length taken)) taken (int_string m)))"

fun new_options ::
    "proposal_choice \<Rightarrow> int \<Rightarrow> (int \<times> string) list \<Rightarrow> string list \<Rightarrow> int list \<Rightarrow> choice_option list option" where
  "new_options choice dflt labels taken [] = Some []"
| "new_options choice dflt labels taken (m # ms) =
     (case new_option choice dflt labels taken m of
        None \<Rightarrow> None
      | Some x \<Rightarrow> map_option ((#) x) (new_options choice dflt labels (taken @ [co_value x]) ms))"

text \<open>\<open>oldByMonths\<close>: the price by old duration, \<open>-1\<close> for a value that is no option of the choice.\<close>

definition old_by_months :: "proposal_choice \<Rightarrow> (string \<times> int) list \<Rightarrow> (int \<times> int) list" where
  "old_by_months choice old =
     foldl (\<lambda>acc vc. map_set (case List.find (\<lambda>x. co_value x = fst vc) (rev (ch_options choice)) of
                               None \<Rightarrow> -1 | Some x \<Rightarrow> option_months x) (snd vc) acc) [] old"

text \<open>The first duration of the list sorted by distance to \<open>m\<close>, then by duration.\<close>

definition nearer :: "int \<Rightarrow> int \<times> int \<Rightarrow> int \<times> int \<Rightarrow> bool" where
  "nearer m a b =
     (\<bar>fst a - m\<bar> < \<bar>fst b - m\<bar> \<or> (\<bar>fst a - m\<bar> = \<bar>fst b - m\<bar> \<and> fst a < fst b))"

definition nearest_price :: "int \<Rightarrow> (int \<times> int) list \<Rightarrow> int" where
  "nearest_price m old =
     (case filter (\<lambda>x. 0 \<le> fst x) old of
        [] \<Rightarrow> 0
      | x # xs \<Rightarrow> snd (foldl (\<lambda>best y. if nearer m y best then y else best) x xs))"

definition kept_variant :: "proposal_choice \<Rightarrow> proposal_grid_ref \<Rightarrow> int \<Rightarrow> string option" where
  "kept_variant choice g m =
     (case option_of_months choice m of
        None \<Rightarrow> None
      | Some x \<Rightarrow>
          if co_value x = [] then None
          else case map_of (gr_variants g) (co_value x) of
                 None \<Rightarrow> None | Some code \<Rightarrow> if code = [] then None else Some code)"

definition change_option ::
    "proposal_choice \<Rightarrow> commitments_input \<Rightarrow> (string \<times> grid_item) list \<Rightarrow> proposal_grid_ref option
     \<Rightarrow> (int \<times> int) list \<Rightarrow> grid_copy \<Rightarrow> choice_option \<Rightarrow> grid_line_error + grid_copy" where
  "change_option choice input items grid old acc x =
     (let m = option_months x in
      case grid of
        None \<Rightarrow>
          Inr (acc\<lparr>gc_byChoice := map_set (co_value x)
                 (case map_of old m of Some c \<Rightarrow> c | None \<Rightarrow> nearest_price m old) (gc_byChoice acc)\<rparr>)
      | Some g \<Rightarrow>
          (case (map_of old m, if ci_switchGridLines input then None else kept_variant choice g m) of
             (Some c, Some code) \<Rightarrow> Inr (add_version (co_value x) c code acc)
           | _ \<Rightarrow>
               ebind (case map_of items (gr_itemCode g) of
                        None \<Rightarrow> Inr None | Some item \<Rightarrow> version_cents item m) (\<lambda>v.
                 case v of
                   None \<Rightarrow>
                     ebind (missing_label (gr_itemCode g) m (co_label x)) (\<lambda>l.
                       Inr (acc\<lparr>gc_missing := gc_missing acc @ [l]\<rparr>))
                 | Some (code, cents) \<Rightarrow>
                     Inr ((add_version (co_value x) cents code acc)\<lparr>gc_fetched := True\<rparr>))))"

definition changed_status ::
    "proposal_choice \<Rightarrow> (string \<times> price_status) list \<Rightarrow> choice_option \<Rightarrow> price_status" where
  "changed_status choice statuses x =
     (case List.find (\<lambda>o'. co_commitmentMonths o' = co_commitmentMonths x) (ch_options choice) of
        None \<Rightarrow> PS_TO_VALIDATE
      | Some o' \<Rightarrow>
          if co_value o' = [] then PS_TO_VALIDATE
          else case map_of statuses (co_value o') of None \<Rightarrow> PS_TO_VALIDATE | Some s \<Rightarrow> s)"

text \<open>One line: its new version and the missing labels it adds.\<close>

definition change_line_commitments ::
    "proposal_choice \<Rightarrow> commitments_input \<Rightarrow> (string \<times> grid_item) list \<Rightarrow> choice_option list
     \<Rightarrow> string list \<Rightarrow> proposal_pricing_line \<Rightarrow> grid_line_error + proposal_pricing_line \<times> string list" where
  "change_line_commitments choice input items options missing l =
     (case pp_pricing l of
        UnitCents c \<Rightarrow> Inr (l, missing)
      | ByChoice dependsOn old \<Rightarrow>
          if dependsOn \<noteq> ch_key choice then Inr (l, missing)
          else
            ebind (efold (change_option choice input items (pp_grid l) (old_by_months choice old))
                     (no_copy\<lparr>gc_missing := missing\<rparr>) options) (\<lambda>c.
              Inr (l\<lparr>pp_pricing := ByChoice (ch_key choice) (gc_byChoice c),
                     pp_grid := map_option (\<lambda>g. g\<lparr>gr_variants := gc_variants c,
                                  gr_on := if gc_fetched c then ci_on input else gr_on g\<rparr>) (pp_grid l),
                     pp_priceStatusByChoice := map_option (\<lambda>statuses.
                       foldl (\<lambda>acc x. map_set (co_value x) (changed_status choice statuses x) acc) [] options)
                       (pp_priceStatusByChoice l)\<rparr>,
                   gc_missing c)))"

fun change_lines_commitments ::
    "proposal_choice \<Rightarrow> commitments_input \<Rightarrow> (string \<times> grid_item) list \<Rightarrow> choice_option list
     \<Rightarrow> string list \<Rightarrow> proposal_pricing_line list
     \<Rightarrow> grid_line_error + proposal_pricing_line list \<times> string list" where
  "change_lines_commitments choice input items options missing [] = Inr ([], missing)"
| "change_lines_commitments choice input items options missing (l # ls) =
     ebind (change_line_commitments choice input items options missing l) (\<lambda>(l', missing').
     ebind (change_lines_commitments choice input items options missing' ls) (\<lambda>(ls', missing'').
       Inr (l' # ls', missing'')))"

text \<open>The options are always found (\<open>new_options_found\<close> below).\<close>

definition change_commitments ::
    "proposal_definition \<Rightarrow> commitments_input \<Rightarrow> (int \<times> string) list \<Rightarrow> (string \<times> grid_item) list
     \<Rightarrow> grid_line_error + proposal_definition" where
  "change_commitments d input labels items =
     ebind (commitment_choice_of d) (\<lambda>choice.
       let options = the (new_options choice (ci_defaultMonths input) labels [] (sort (uniq (ci_months input))))
       in ebind (change_lines_commitments choice input items options [] (pd_lines d)) (\<lambda>(lines, missing).
            if missing \<noteq> [] then Inl (MISSING_DURATIONS missing)
            else Inr (d\<lparr>pd_choices := map (\<lambda>c. if ch_key c = ch_key choice then c\<lparr>ch_options := options\<rparr> else c)
                          (pd_choices d),
                        pd_lines := lines\<rparr>)))"

subsection \<open>Prices of the grid are validated\<close>

definition grid_price_of :: "grid_item \<Rightarrow> choice_option \<Rightarrow> int option" where
  "grid_price_of item x =
     (case map_of (gi_byMonths item) (option_months x) of
        None \<Rightarrow> None
      | Some v \<Rightarrow> (case grid_price_to_cents (gv_unitPrice v) of Inl e \<Rightarrow> None | Inr c \<Rightarrow> Some (int c)))"

definition validate_grid_line ::
    "proposal_choice option \<Rightarrow> (string \<times> grid_item) list \<Rightarrow> proposal_pricing_line \<Rightarrow> proposal_pricing_line" where
  "validate_grid_line choice items l =
     (case (pp_grid l, choice, pp_pricing l) of
        (Some g, Some c, ByChoice dependsOn byChoice) \<Rightarrow>
          if dependsOn \<noteq> ch_key c then l
          else (case map_of items (gr_itemCode g) of
             None \<Rightarrow> l
           | Some item \<Rightarrow>
               if list_all (\<lambda>x. grid_price_of item x \<noteq> None
                    \<and> map_of byChoice (co_value x) = grid_price_of item x) (ch_options c)
               then l\<lparr>pp_priceStatus := PS_VALIDATED, pp_priceStatusByChoice := None\<rparr> else l)
      | _ \<Rightarrow> l)"

definition validate_grid_prices ::
    "proposal_definition \<Rightarrow> (string \<times> grid_item) list \<Rightarrow> proposal_definition" where
  "validate_grid_prices d items =
     d\<lparr>pd_lines := map (validate_grid_line (List.find commits (pd_choices d)) items) (pd_lines d)\<rparr>"


subsection \<open>The loops that look for a free name end\<close>

lemma all_taken:
  assumes "inj_on f {..<n}" "\<And>j. j < n \<Longrightarrow> f j \<in> set xs"
  shows "n \<le> length xs"
proof -
  have "n = card (f ` {..<n})" using card_image [OF assms(1)] by simp
  also have "\<dots> \<le> card (set xs)" using assms(2) by (intro card_mono) auto
  also have "\<dots> \<le> length xs" by (rule card_length)
  finally show ?thesis .
qed

lemma free_key_None:
  "free_key n used base i = None \<Longrightarrow> j < n \<Longrightarrow> numbered_key base (i + j) \<in> set used"
proof (induction n arbitrary: i j)
  case (Suc n)
  then show ?case using Suc.IH [of "i + 1" "j - 1"] by (cases j) (auto split: if_splits)
qed simp

lemma free_key_Some: "free_key n used base i = Some k \<Longrightarrow> k \<notin> set used"
  by (induction n arbitrary: i) (auto split: if_splits)

lemma numbered_key_inj: "inj (\<lambda>j. numbered_key base (i + j))"
  using digits_val_nat_string by (intro injI) (metis add_left_cancel append_same_eq
      same_append_eq numbered_key_def)

lemma free_key_found: "length used < n \<Longrightarrow> free_key n used base i \<noteq> None"
  using all_taken [of "\<lambda>j. numbered_key base (i + j)" n used] free_key_None [of n used base i]
    inj_on_subset [OF numbered_key_inj subset_UNIV] by fastforce

lemma free_value_None: "free_value n taken v = None \<Longrightarrow> j < n \<Longrightarrow> v @ replicate j (CHR ''m'') \<in> set taken"
proof (induction n arbitrary: v j)
  case (Suc n)
  then show ?case using Suc.IH [of "v @ ''m''" "j - 1"] by (cases j) (auto split: if_splits)
qed simp

lemma free_value_Some: "free_value n taken v = Some w \<Longrightarrow> w \<notin> set taken"
  by (induction n arbitrary: v) (auto split: if_splits)

lemma free_value_found: "length taken < n \<Longrightarrow> free_value n taken v \<noteq> None"
proof
  assume n: "length taken < n" and none: "free_value n taken v = None"
  have "inj_on (\<lambda>j. v @ replicate j (CHR ''m'')) {..<n}"
    by (rule inj_onI) (simp add: replicate_eq_replicate)
  from all_taken [OF this, of taken] free_value_None [OF none] n show False by fastforce
qed

lemma new_options_found: "new_options choice dflt labels taken ms \<noteq> None"
proof (induction ms arbitrary: taken)
  case (Cons m ms)
  then show ?case using free_value_found [of taken "Suc (length taken)"]
    by (auto simp: new_option_def split: option.splits)
qed simp

text \<open>The two loops without a bound of the grid lines end: whatever the lines already there, a new line
  gets a key that no line has, and whatever the options, the new commitments get their options.\<close>

theorem free_names_found:
  "(\<exists>k. grid_line_key d itemCode = Some k \<and> k \<notin> set (map pp_key (pd_lines d)))
   \<and> (\<exists>options. new_options choice dflt labels [] months = Some options)"
proof
  show "\<exists>k. grid_line_key d itemCode = Some k \<and> k \<notin> set (map pp_key (pd_lines d))"
    using free_key_found [of "map pp_key (pd_lines d)" "Suc (length (pd_lines d))"
        "map js_lower_char itemCode" 2] free_key_Some
    by (fastforce simp: grid_line_key_def Let_def simp del: free_key.simps)
  show "\<exists>options. new_options choice dflt labels [] months = Some options"
    using new_options_found by blast
qed

subsection \<open>A line of the grid has the price of the grid\<close>

lemma map_set_new: "k \<notin> fst ` set xs \<Longrightarrow> map_set k v xs = xs @ [(k, v)]"
  by (induction xs) auto

lemma copy_option_missing:
  "copy_option item acc x = Inr acc' \<Longrightarrow> gc_missing acc' = [] \<Longrightarrow> gc_missing acc = []"
  by (auto simp: copy_option_def add_version_def ebind_Inr_iff split: option.splits)

lemma copies_missing:
  "efold (copy_option item) acc xs = Inr c \<Longrightarrow> gc_missing c = [] \<Longrightarrow> gc_missing acc = []"
proof (induction xs arbitrary: acc)
  case (Cons x xs)
  then show ?case using copy_option_missing by (auto simp: ebind_Inr_iff)
qed simp

lemma copy_options:
  assumes "efold (copy_option item) acc xs = Inr c" "gc_missing c = []"
    and "distinct (map co_value xs)"
    and "fst ` set (gc_byChoice acc) \<inter> co_value ` set xs = {}"
    and "fst ` set (gc_variants acc) \<inter> co_value ` set xs = {}"
  shows "\<exists>vs. list_all2 (\<lambda>x v. version_cents item (option_months x) = Inr (Some v)) xs vs
    \<and> gc_byChoice c = gc_byChoice acc @ zip (map co_value xs) (map snd vs)
    \<and> gc_variants c = gc_variants acc @ zip (map co_value xs) (map fst vs)"
  using assms
proof (induction xs arbitrary: acc)
  case (Cons x xs)
  obtain acc' where a: "copy_option item acc x = Inr acc'" "efold (copy_option item) acc' xs = Inr c"
    using Cons.prems(1) by (auto simp: ebind_Inr_iff)
  obtain v where v: "version_cents item (option_months x) = Inr (Some v)"
      "acc' = add_version (co_value x) (snd v) (fst v) acc"
    using a(1) copies_missing [OF a(2) Cons.prems(2)] by (auto simp: copy_option_def ebind_Inr_iff split: option.splits)
  have acc': "gc_byChoice acc' = gc_byChoice acc @ [(co_value x, snd v)]"
      "gc_variants acc' = gc_variants acc @ [(co_value x, fst v)]"
    using Cons.prems(4,5) by (simp_all add: v(2) add_version_def map_set_new)
  obtain vs where "list_all2 (\<lambda>x v. version_cents item (option_months x) = Inr (Some v)) xs vs"
      "gc_byChoice c = gc_byChoice acc' @ zip (map co_value xs) (map snd vs)"
      "gc_variants c = gc_variants acc' @ zip (map co_value xs) (map fst vs)"
    using Cons.IH [OF a(2) Cons.prems(2)] Cons.prems(3,4,5) by (auto simp: acc')
  then show ?case using v(1) by (intro exI [of _ "v # vs"]) (simp add: acc')
qed simp


lemma version_price:
  "version_cents item m = Inr (Some v) \<Longrightarrow> m = option_months x \<Longrightarrow> grid_price_of item x = Some (snd v)
     \<and> (\<exists>g. map_of (gi_byMonths item) m = Some g \<and> gv_code g = fst v)"
  by (auto simp: version_cents_def grid_price_of_def split: option.splits sum.splits)

text \<open>The versions of an article bear its code.\<close>

definition own_versions :: "grid_item \<Rightarrow> bool" where
  "own_versions item \<longleftrightarrow>
     list_all (\<lambda>mv. take (length (gi_code item @ ''-E'')) (gv_code (snd mv)) = gi_code item @ ''-E'')
       (gi_byMonths item)"

text \<open>The articles the grid holds: a code of the grid, texts the schema accepts, and versions that bear the code
  of the article, at a price the schema accepts.\<close>

definition grid_item_shape :: "grid_item \<Rightarrow> bool" where
  "grid_item_shape item \<longleftrightarrow>
     is_grid_code (gi_code item) \<and> length (gi_code item) \<le> 60 \<and> text_within 1 300 (gi_label item)
     \<and> text_within 1 60 (unit_label (gi_unit item)) \<and> is_vat_text (gi_vatRatePercent item)
     \<and> list_all (\<lambda>mv. is_grid_variant (gv_code (snd mv))
          \<and> (case grid_price_to_cents (gv_unitPrice (snd mv)) of Inl e \<Rightarrow> True | Inr c \<Rightarrow> is_cents (int c)))
        (gi_byMonths item)"

lemma built_line:
  assumes "build_grid_line d item key kind q onDay = Inr l"
  obtains choice c where "commitment_choice_of d = Inr choice"
    "efold (copy_option item) no_copy (ch_options choice) = Inr c" "gc_missing c = []"
    "pp_key l = key" "pp_pricing l = ByChoice (ch_key choice) (gc_byChoice c)"
    "pp_grid l = Some \<lparr>gr_itemCode = gi_code item, gr_variants = gc_variants c,
        gr_vatRatePercent = gi_vatRatePercent item, gr_on = onDay\<rparr>"
    "pp_label l = gi_label item" "pp_unit l = unit_label (gi_unit item)"
    "pp_quantity l = Some \<lparr>pq_default = QNumber (case q of None \<Rightarrow> 1 | Some n \<Rightarrow> n), pq_min = 0, pq_max = None,
        pq_maxFrom = None, pq_linkedTo = None, pq_editableByClient = False\<rparr>"
  using assms by (auto simp: build_grid_line_def ebind_Inr_iff Let_def split: if_splits)

lemma duplicate_lines_append:
  "duplicate_lines {} (ls @ [l]) = [] \<longleftrightarrow> duplicate_lines {} ls = [] \<and> pp_key l \<notin> pp_key ` set ls"
  by (auto simp: duplicate_lines_Nil)

subsubsection \<open>The key of the line\<close>

lemma key_syntax_alnum: "list_all is_alnum s \<Longrightarrow> key_syntax b s = (b \<or> s \<noteq> [])"
  by (induction s arbitrary: b) auto

lemma key_syntax_dash: "key_syntax b (s @ CHR ''-'' # t) = (key_syntax b s \<and> key_syntax False t)"
proof (induction s arbitrary: b)
  case Nil
  have "\<not> is_alnum (CHR ''-'')" by code_simp
  then show ?case by simp
qed simp

lemma digit_alnum: "is_digit c \<Longrightarrow> is_alnum c"
  by (simp add: is_alnum_def is_upper_alnum_def)

lemma lower_alnum: "is_upper_alnum c \<Longrightarrow> is_alnum (js_lower_char c)"
proof -
  assume c: "is_upper_alnum c"
  define n where "n = (of_char c :: nat)"
  have "48 \<le> n \<and> n \<le> 57 \<or> 65 \<le> n \<and> n \<le> 90" using c by (simp add: is_upper_alnum_def is_digit_def Let_def n_def)
  then show ?thesis
  proof
    assume d: "48 \<le> n \<and> n \<le> 57"
    then have "js_lower_char c = c" by (simp add: js_lower_char_def Let_def n_def)
    then show ?thesis using c by (simp add: is_alnum_def)
  next
    assume u: "65 \<le> n \<and> n \<le> 90"
    then have "js_lower_char c = char_of (n + 32)" by (simp add: js_lower_char_def Let_def n_def)
    then have "(of_char (js_lower_char c) :: nat) = n + 32" using u by (simp add: of_char_of)
    then show ?thesis using u by (simp add: is_alnum_def Let_def)
  qed
qed

lemma lower_digit: "is_digit c \<Longrightarrow> js_lower_char c = c"
  by (simp add: js_lower_char_def is_digit_def Let_def)

lemma grid_code_key:
  assumes "is_grid_code s"
  shows "key_syntax False (map js_lower_char s)"
proof -
  define prefix where "prefix = takeWhile is_upper_alnum s"
  define ds where "ds = tl (dropWhile is_upper_alnum s)"
  have "2 \<le> length prefix" "4 \<le> length ds" using assms by (simp_all only: is_grid_code_def Let_def prefix_def ds_def)
  then have p: "prefix \<noteq> []" "ds \<noteq> []" by auto
  have ds: "list_all is_digit ds" and r: "dropWhile is_upper_alnum s \<noteq> []"
      "hd (dropWhile is_upper_alnum s) = CHR ''-''"
    using assms by (auto simp: is_grid_code_def Let_def prefix_def ds_def)
  have s: "s = prefix @ CHR ''-'' # ds"
    using takeWhile_dropWhile_id [of is_upper_alnum s] list.collapse [OF r(1)] r(2) by (simp add: prefix_def ds_def)
  have "list_all is_alnum (map js_lower_char prefix)"
    by (auto simp: list_all_iff prefix_def dest!: set_takeWhileD intro: lower_alnum)
  moreover have "list_all is_alnum (map js_lower_char ds)"
    using ds by (auto simp: list_all_iff lower_digit digit_alnum)
  moreover have "js_lower_char (CHR ''-'') = CHR ''-''" by code_simp
  ultimately show ?thesis using p(1,2) by (simp add: s key_syntax_dash key_syntax_alnum)
qed

lemma free_key_bound: "free_key n used base i = Some k \<Longrightarrow> \<exists>j < i + n. k = numbered_key base j"
proof (induction n arbitrary: i)
  case (Suc n)
  show ?case
  proof (cases "numbered_key base i \<notin> set used")
    case True
    then show ?thesis using Suc.prems by (intro exI [of _ i]) simp
  next
    case False
    then have "free_key n used base (i + 1) = Some k" using Suc.prems by simp
    then show ?thesis using Suc.IH [of "i + 1"] by simp
  qed
qed simp

lemma grid_line_key_shape:
  assumes "grid_line_key d code = Some key" "is_grid_code code" "length code \<le> 60" "length (pd_lines d) < 100"
  shows "is_key key"
proof -
  let ?base = "map js_lower_char code"
  have base: "key_syntax False ?base" "length ?base \<le> 60" using grid_code_key [OF assms(2)] assms(3) by simp_all
  consider "key = ?base" | "free_key (Suc (length (pd_lines d))) (map pp_key (pd_lines d)) ?base 2 = Some key"
    using assms(1)
    by (cases "?base \<in> set (map pp_key (pd_lines d))") (simp_all add: grid_line_key_def Let_def del: free_key.simps)
  then show ?thesis
  proof cases
    case 1
    then show ?thesis using base by (simp add: is_key_def)
  next
    case 2
    then obtain j where j: "j < 2 + Suc (length (pd_lines d))" "key = numbered_key ?base j"
      using free_key_bound by blast
    then have "length (nat_string j) \<le> 3" using assms(4) by (intro length_nat_string) simp_all
    moreover have "key_syntax False (nat_string j)"
      using nat_string_digits [of j] key_syntax_alnum [of "nat_string j" False] digit_alnum by (auto simp: list_all_iff)
    ultimately show ?thesis using base j(2) by (simp add: is_key_def numbered_key_def key_syntax_dash)
  qed
qed

subsubsection \<open>The table with the line\<close>

text \<open>C36: adding an article of the grid keeps a price table valid and copies the prices of the grid: the
  new line has a key of its own, exactly one price and one code for each commitment the client may
  choose, each price is that of the version of the grid for that duration, to the cent, and the
  schema accepts the table with the line, its shapes and bounds included. The table has fewer than 100 lines, the
  quantity is a count, the article is one of the grid (its code, its texts, the codes and the prices of its versions
  fit the schema, and its versions bear its code), and the values of a choice and the keys of the choices
  are distinct.\<close>

theorem grid_line_keeps_consistency:
  assumes "definition_issues d = []" "grid_line_key d (gi_code item) = Some key"
    and "build_grid_line d item key kind q onDay = Inr l" "own_versions item" "grid_item_shape item"
    and "length (pd_lines d) < 100" "is_iso_day onDay" "case q of None \<Rightarrow> True | Some n \<Rightarrow> is_safe_int n \<and> 0 \<le> n"
    and "distinct (map ch_key (pd_choices d))"
    and "list_all (\<lambda>c. distinct (map co_value (ch_options c))) (pd_choices d)"
  shows "definition_issues (d\<lparr>pd_lines := pd_lines d @ [l]\<rparr>) = []
    \<and> (\<exists>choice. commitment_choice_of d = Inr choice
        \<and> list_all (\<lambda>x. grid_price_of item x \<noteq> None
             \<and> unit_price_cents l [(ch_key choice, co_value x)] = grid_price_of item x) (ch_options choice))"
proof -
  obtain choice c where choice: "commitment_choice_of d = Inr choice"
    and c: "efold (copy_option item) no_copy (ch_options choice) = Inr c" "gc_missing c = []"
    and l: "pp_key l = key" "pp_pricing l = ByChoice (ch_key choice) (gc_byChoice c)"
      "pp_grid l = Some \<lparr>gr_itemCode = gi_code item, gr_variants = gc_variants c,
        gr_vatRatePercent = gi_vatRatePercent item, gr_on = onDay\<rparr>"
      "pp_label l = gi_label item" "pp_unit l = unit_label (gi_unit item)"
      "pp_quantity l = Some \<lparr>pq_default = QNumber (case q of None \<Rightarrow> 1 | Some n \<Rightarrow> n), pq_min = 0, pq_max = None,
        pq_maxFrom = None, pq_linkedTo = None, pq_editableByClient = False\<rparr>"
    using built_line [OF assms(3)] .
  have cin: "choice \<in> set (pd_choices d)"
    using choice find_set [of commits "pd_choices d" choice]
    by (auto simp: commitment_choice_of_def split: option.splits)
  then have dist: "distinct (map co_value (ch_options choice))" using assms(10) by (simp add: list_all_iff)
  obtain vs where vs: "list_all2 (\<lambda>x v. version_cents item (option_months x) = Inr (Some v)) (ch_options choice) vs"
      "gc_byChoice c = zip (map co_value (ch_options choice)) (map snd vs)"
      "gc_variants c = zip (map co_value (ch_options choice)) (map fst vs)"
    using copy_options [OF c dist] by (auto simp: no_copy_def)
  have len: "length vs = length (ch_options choice)" using list_all2_lengthD [OF vs(1)] by simp
  have keys: "map fst (gc_byChoice c) = map co_value (ch_options choice)"
      "map fst (gc_variants c) = map co_value (ch_options choice)"
    by (simp_all add: vs(2,3) len)
  have version: "\<exists>m g. (m, g) \<in> set (gi_byMonths item) \<and> gv_code g = fst v
      \<and> grid_price_to_cents (gv_unitPrice g) = Inr (nat (snd v)) \<and> 0 \<le> snd v" if v: "v \<in> set vs" for v
  proof -
    obtain i where i: "i < length vs" "v = vs ! i" using v by (auto simp: in_set_conv_nth)
    then have "version_cents item (option_months (ch_options choice ! i)) = Inr (Some v)"
      using vs(1) by (simp add: list_all2_conv_all_nth)
    then show ?thesis by (fastforce simp: version_cents_def dest: map_of_SomeD split: option.splits sum.splits)
  qed
  have code: "take (length (gi_code item @ ''-E'')) (fst v) = gi_code item @ ''-E''" "is_grid_variant (fst v)" "is_cents (snd v)"
    if v: "v \<in> set vs" for v
    using version [OF v] assms(4,5) by (fastforce simp: own_versions_def grid_item_shape_def list_all_iff)+
  have find: "find_choice (pd_choices d) (ch_key choice) = Some choice"
    using find_distinct [OF assms(9) cin] by (simp add: find_choice_def)
  have "price_issues (pd_choices d) l = []"
    by (simp add: price_issues_def l(2) find keys)
  moreover have "grid_issues l = []"
  proof -
    have "\<not> list_ex (\<lambda>kv. take (length (gi_code item @ ''-E'')) (snd kv) \<noteq> gi_code item @ ''-E'') (gc_variants c)"
      using code(1) unfolding vs(3) list_ex_iff by (auto dest!: set_zip_rightD)
    then show ?thesis by (auto simp: grid_issues_def wanted_codes_def l(2,3) keys)
  qed
  moreover have "key \<notin> pp_key ` set (pd_lines d)"
    using assms(2) free_key_Some [of _ "map pp_key (pd_lines d)"]
    by (fastforce simp: grid_line_key_def Let_def split: if_splits)
  ultimately have "consistency_issues (d\<lparr>pd_lines := pd_lines d @ [l]\<rparr>) = []"
    using assms(1) l(1,6) by (simp add: no_issues consistency_issues_def duplicate_lines_append line_issues_def)
  moreover have "line_shape l"
  proof -
    have item: "is_grid_code (gi_code item)" "length (gi_code item) \<le> 60" "text_within 1 300 (gi_label item)"
      "text_within 1 60 (unit_label (gi_unit item))" "is_vat_text (gi_vatRatePercent item)"
      using assms(5) by (simp_all add: grid_item_shape_def)
    have "is_key (ch_key choice)"
      using assms(1) cin by (auto simp: no_issues table_shape_def list_all_iff choice_shape_def)
    moreover have "list_all (\<lambda>kv. is_cents (snd kv)) (gc_byChoice c)" "list_all (\<lambda>kv. is_grid_variant (snd kv)) (gc_variants c)"
      unfolding vs(2,3) list_all_iff using code(2,3) by (auto dest!: set_zip_rightD)
    moreover have "quantity_shape (the (pp_quantity l))"
      using assms(8) by (auto simp: l(6) quantity_shape_def is_safe_int_def is_integer_def split: option.splits)
    moreover have "is_key key" by (rule grid_line_key_shape [OF assms(2) item(1,2) assms(6)])
    ultimately show ?thesis
      using item assms(7) by (simp add: line_shape_def l pricing_shape_def grid_shape_def)
  qed
  then have "table_shape (d\<lparr>pd_lines := pd_lines d @ [l]\<rparr>)"
    using assms(1,6) by (simp add: no_issues table_shape_def)
  ultimately have "definition_issues (d\<lparr>pd_lines := pd_lines d @ [l]\<rparr>) = []" by (simp add: no_issues)
  moreover have "grid_price_of item x \<noteq> None
      \<and> unit_price_cents l [(ch_key choice, co_value x)] = grid_price_of item x"
    if x: "x \<in> set (ch_options choice)" for x
  proof -
    obtain i where i: "i < length (ch_options choice)" "x = ch_options choice ! i"
      using x by (auto simp: in_set_conv_nth)
    then have v: "grid_price_of item x = Some (snd (vs ! i))"
      using vs(1) version_price by (fastforce simp: list_all2_conv_all_nth)
    have "map_of (gc_byChoice c) (map co_value (ch_options choice) ! i) = Some (map snd vs ! i)"
      unfolding vs(2) by (rule map_of_zip_nth) (use i dist len in simp_all)
    then show ?thesis using i v len by (simp add: unit_price_cents_def l(2))
  qed
  ultimately show ?thesis using choice by (auto simp: list_all_iff)
qed


subsection \<open>New commitments keep the prices of the old ones\<close>

lemma option_of_months_Some:
  "option_of_months choice m = Some y \<Longrightarrow>
     y \<in> set (ch_options choice) \<and> option_months y = m \<and> co_commitmentMonths y = Some m"
  by (auto simp: option_of_months_def option_months_def find_Some_iff)

lemma change_option_other:
  "change_option choice input items g old acc x = Inr acc' \<Longrightarrow> v \<noteq> co_value x \<Longrightarrow>
     map_of (gc_byChoice acc') v = map_of (gc_byChoice acc) v"
  by (auto simp: change_option_def add_version_def Let_def ebind_Inr_iff map_of_map_set
      split: option.splits if_splits)

lemma change_options_at:
  assumes "efold (change_option choice input items g old) acc xs = Inr c" "x \<in> set xs"
    and "distinct (map co_value xs)"
  shows "\<exists>acc1 acc2. change_option choice input items g old acc1 x = Inr acc2
    \<and> map_of (gc_byChoice c) (co_value x) = map_of (gc_byChoice acc2) (co_value x)"
  using assms
proof (induction xs arbitrary: acc)
  case (Cons y ys)
  have later: "map_of (gc_byChoice c) v = map_of (gc_byChoice acc) v"
    if "efold (change_option choice input items g old) acc zs = Inr c" "v \<notin> co_value ` set zs" for acc zs v
    using that
  proof (induction zs arbitrary: acc)
    case (Cons z zs)
    then show ?case using change_option_other by (auto simp: ebind_Inr_iff)
  qed simp
  obtain acc' where y: "change_option choice input items g old acc y = Inr acc'"
      "efold (change_option choice input items g old) acc' ys = Inr c"
    using Cons.prems(1) by (auto simp: ebind_Inr_iff)
  show ?case
  proof (cases "x = y")
    case True
    then show ?thesis using y later [OF y(2), of "co_value x"] Cons.prems(3) by auto
  next
    case False
    then show ?thesis using Cons.IH [OF y(2)] Cons.prems by auto
  qed
qed simp

definition months_of_value :: "proposal_choice \<Rightarrow> string \<Rightarrow> int" where
  "months_of_value choice v =
     (case List.find (\<lambda>x. co_value x = v) (rev (ch_options choice)) of None \<Rightarrow> -1 | Some x \<Rightarrow> option_months x)"

lemma old_by_months_other:
  "\<forall>vc \<in> set old. months_of_value choice (fst vc) \<noteq> m \<Longrightarrow>
     map_of (foldl (\<lambda>acc vc. map_set (months_of_value choice (fst vc)) (snd vc) acc) acc old) m = map_of acc m"
  by (induction old arbitrary: acc) (simp_all add: map_of_map_set)

lemma old_by_months_at:
  assumes "(v, c) \<in> set old" "distinct (map fst old)"
    and "\<And>w. w \<in> fst ` set old \<Longrightarrow> months_of_value choice w = months_of_value choice v \<Longrightarrow> w = v"
  shows "map_of (old_by_months choice old) (months_of_value choice v) = Some c"
proof -
  obtain us ws where old: "old = us @ (v, c) # ws" using split_list [OF assms(1)] by blast
  have "months_of_value choice (fst vc) \<noteq> months_of_value choice v" if vc: "vc \<in> set ws" for vc
  proof
    assume "months_of_value choice (fst vc) = months_of_value choice v"
    moreover have "fst vc \<in> fst ` set old" using vc by (simp add: old)
    ultimately have "fst vc = v" using assms(3) by blast
    then show False using assms(2) vc by (auto simp: old)
  qed
  then have "\<forall>vc \<in> set ws. months_of_value choice (fst vc) \<noteq> months_of_value choice v" by blast
  from old_by_months_other [OF this] show ?thesis
    by (simp add: old_by_months_def old months_of_value_def map_of_map_set)
qed

lemma months_of_option:
  assumes "x \<in> set (ch_options choice)" "distinct (map co_value (ch_options choice))"
  shows "months_of_value choice (co_value x) = option_months x"
proof -
  have "List.find (\<lambda>y. co_value y = co_value x) (rev (ch_options choice)) = Some x"
    using find_distinct [of co_value "rev (ch_options choice)" x] assms by (simp flip: rev_map)
  then show ?thesis by (simp add: months_of_value_def)
qed

lemma months_value_inj:
  assumes "x \<in> set (ch_options choice)" "distinct (map co_value (ch_options choice))"
    and "distinct (map option_months (ch_options choice))" "0 \<le> option_months x"
    and "months_of_value choice w = option_months x"
  shows "w = co_value x"
proof (cases "List.find (\<lambda>y. co_value y = w) (rev (ch_options choice))")
  case None
  then show ?thesis using assms(4,5) by (simp add: months_of_value_def)
next
  case (Some y)
  then have y: "y \<in> set (ch_options choice)" "co_value y = w"
    using find_set [of _ "rev (ch_options choice)" y] by auto
  then have "option_months y = option_months x" using Some assms(5) by (simp add: months_of_value_def)
  then have "y = x" using assms(1,3) y(1) by (metis distinct_map inj_onD)
  then show ?thesis using y(2) by simp
qed

lemma new_options_member:
  assumes "new_options choice dflt labels taken ms = Some options" "m \<in> set ms"
    and "option_of_months choice m = Some x"
  shows "x\<lparr>co_default := (m = dflt)\<rparr> \<in> set options"
  using assms(1,2)
proof (induction ms arbitrary: taken options)
  case (Cons n ns)
  then show ?case using assms(3) by (fastforce simp: new_option_def split: option.splits)
qed simp

definition offered_code :: "proposal_pricing_line \<Rightarrow> string \<Rightarrow> bool" where
  "offered_code l v =
     (case pp_grid l of None \<Rightarrow> True
      | Some g \<Rightarrow> v \<noteq> [] \<and> map_of (gr_variants g) v \<noteq> None \<and> map_of (gr_variants g) v \<noteq> Some [])"

lemma change_line_keeps_price:
  assumes l: "change_line_commitments choice input items options missing l = Inr (l', missing')"
    and x: "x \<in> set (ch_options choice)" "co_commitmentMonths x = Some m"
      "x\<lparr>co_default := dflt\<rparr> \<in> set options"
    and dist: "distinct (map co_value (ch_options choice))" "distinct (map option_months (ch_options choice))"
      "distinct (map co_value options)"
    and m: "0 \<le> m" "\<not> ci_switchGridLines input" "offered_code l (co_value x)"
    and obj: "case pp_pricing l of UnitCents c \<Rightarrow> True | ByChoice dep old \<Rightarrow> distinct (map fst old)"
    and price: "unit_price_cents l [(ch_key choice, co_value x)] = Some p"
  shows "unit_price_cents l' [(ch_key choice, co_value x)] = Some p"
proof (cases "pp_pricing l")
  case (UnitCents c)
  then show ?thesis using l price by (simp add: change_line_commitments_def unit_price_cents_def)
next
  case (ByChoice dep old)
  show ?thesis
  proof (cases "dep = ch_key choice")
    case False
    then show ?thesis using l price ByChoice by (simp add: change_line_commitments_def)
  next
    case True
    have om: "option_months x = m" "option_months (x\<lparr>co_default := dflt\<rparr>) = m"
      using x(2) by (simp_all add: option_months_def)
    have of_m: "option_of_months choice m = Some x"
    proof -
      have "\<exists>y. option_of_months choice m = Some y"
        using x(1,2) by (cases "option_of_months choice m") (auto simp: option_of_months_def find_None_iff)
      then obtain y where y: "option_of_months choice m = Some y" by blast
      then have "y \<in> set (ch_options choice)" "option_months y = m"
        using option_of_months_Some by auto
      then have "y = x" using dist(2) x(1) om(1) by (metis distinct_map inj_onD)
      then show ?thesis using y by simp
    qed
    have p: "map_of old (co_value x) = Some p" using price ByChoice True by (simp add: unit_price_cents_def)
    have old: "map_of (old_by_months choice old) m = Some p"
      using old_by_months_at [OF map_of_SomeD [OF p], of choice] obj ByChoice
        months_value_inj [OF x(1) dist(1,2)] m(1) months_of_option [OF x(1) dist(1)] om(1)
      by simp
    obtain c where c: "efold (change_option choice input items (pp_grid l) (old_by_months choice old))
          (no_copy\<lparr>gc_missing := missing\<rparr>) options = Inr c"
        "pp_pricing l' = ByChoice (ch_key choice) (gc_byChoice c)"
      using l ByChoice True by (auto simp: change_line_commitments_def ebind_Inr_iff)
    obtain acc1 acc2 where a: "change_option choice input items (pp_grid l) (old_by_months choice old) acc1
          (x\<lparr>co_default := dflt\<rparr>) = Inr acc2"
        "map_of (gc_byChoice c) (co_value x) = map_of (gc_byChoice acc2) (co_value x)"
      using change_options_at [OF c(1) x(3) dist(3)] by auto
    have "map_of (gc_byChoice acc2) (co_value x) = Some p"
    proof (cases "pp_grid l")
      case None
      then show ?thesis using a(1) old om(2) by (auto simp: change_option_def map_of_map_set)
    next
      case (Some g)
      then obtain code where "kept_variant choice g m = Some code"
        using m(3) of_m by (auto simp: offered_code_def kept_variant_def)
      then show ?thesis
        using a(1) old om(2) m(2) Some by (auto simp: change_option_def add_version_def map_of_map_set)
    qed
    then show ?thesis using a(2) c(2) by (simp add: unit_price_cents_def)
  qed
qed

lemma change_lines_all2:
  "change_lines_commitments choice input items options missing ls = Inr (ls', missing') \<Longrightarrow>
     list_all2 (\<lambda>l l'. \<exists>m1 m2. change_line_commitments choice input items options m1 l = Inr (l', m2)) ls ls'"
proof (induction ls arbitrary: missing ls')
  case (Cons l ls)
  then show ?case by (fastforce simp: ebind_Inr_iff case_prod_unfold)
qed simp

text \<open>Changing the commitments of a proposal without switching its lines never changes a price it already
  offers: for every duration that is kept, each line keeps its price to the cent, whatever the
  grid has become since it was copied. Values and durations are distinct within the choice, before
  and after.\<close>

theorem kept_commitments_keep_prices:
  assumes "change_commitments d input labels items = Inr d'" "commitment_choice_of d = Inr choice"
    and "new_options choice (ci_defaultMonths input) labels [] (sort (uniq (ci_months input))) = Some options"
    and "distinct (map co_value (ch_options choice))" "distinct (map option_months (ch_options choice))"
      "distinct (map co_value options)"
    and "list_all (\<lambda>l. case pp_pricing l of UnitCents c \<Rightarrow> True | ByChoice dep old \<Rightarrow> distinct (map fst old))
          (pd_lines d)"
    and "\<not> ci_switchGridLines input" "x \<in> set (ch_options choice)" "co_commitmentMonths x = Some m"
      "m \<in> set (ci_months input)" "0 \<le> m"
  shows "list_all2 (\<lambda>l l'.
      if offered_code l (co_value x) \<and> unit_price_cents l [(ch_key choice, co_value x)] \<noteq> None
      then unit_price_cents l' [(ch_key choice, co_value x)] = unit_price_cents l [(ch_key choice, co_value x)]
      else True) (pd_lines d) (pd_lines d')"
proof -
  obtain missing where lines: "change_lines_commitments choice input items options [] (pd_lines d)
      = Inr (pd_lines d', missing)"
    using assms(1,2,3) by (auto simp: change_commitments_def ebind_Inr_iff Let_def split: if_splits)
  have x': "x\<lparr>co_default := (m = ci_defaultMonths input)\<rparr> \<in> set options"
  proof (rule new_options_member [OF assms(3)])
    show "m \<in> set (sort (uniq (ci_months input)))" using assms(11) by simp
    have "option_months x = m" using assms(10) by (simp add: option_months_def)
    moreover obtain y where y: "option_of_months choice m = Some y"
      using assms(9,10) by (cases "option_of_months choice m") (auto simp: option_of_months_def find_None_iff)
    moreover have "y \<in> set (ch_options choice)" "option_months y = m"
      using option_of_months_Some [OF y] by auto
    ultimately show "option_of_months choice m = Some x" using assms(5,9) by (metis distinct_map inj_onD)
  qed
  show ?thesis
  proof (rule list.rel_mono_strong [OF change_lines_all2 [OF lines]])
    fix l l'
    assume l: "l \<in> set (pd_lines d)"
      "\<exists>m1 m2. change_line_commitments choice input items options m1 l = Inr (l', m2)"
    have obj: "case pp_pricing l of UnitCents c \<Rightarrow> True | ByChoice dep old \<Rightarrow> distinct (map fst old)"
      using assms(7) l(1) by (simp add: list_all_iff)
    show "if offered_code l (co_value x) \<and> unit_price_cents l [(ch_key choice, co_value x)] \<noteq> None
      then unit_price_cents l' [(ch_key choice, co_value x)] = unit_price_cents l [(ch_key choice, co_value x)]
      else True"
      using l(2) change_line_keeps_price [OF _ assms(9,10) x' assms(4,5,6,12,8) _ obj] by auto
  qed
qed

subsection \<open>Example\<close>

text \<open>A licence at 12.50 a month, or 10.00 with a commitment of three years.\<close>

definition licence_item :: grid_item where
  "licence_item =
     \<lparr>gi_code = ''M365-0003'', gi_label = ''Licence'', gi_unit = ''PER_LICENSE'', gi_recurrence = MONTHLY,
      gi_vatRatePercent = ''20'',
      gi_byMonths =
        [(12, \<lparr>gv_code = ''M365-0003-E12'', gv_unitPrice = ''12.50'', gv_effectiveFrom = ''2026-01-01''\<rparr>),
         (36, \<lparr>gv_code = ''M365-0003-E36'', gv_unitPrice = ''10.00'', gv_effectiveFrom = ''2026-01-01''\<rparr>)]\<rparr>"

lemma licence_added:
  "grid_line_key seats_proposal (gi_code licence_item) = Some ''m365-0003''"
  "own_versions licence_item" "grid_item_shape licence_item" "length (pd_lines seats_proposal) < 100" "is_iso_day ''2026-01-01''"
  "distinct (map ch_key (pd_choices seats_proposal))"
  "list_all (\<lambda>c. distinct (map co_value (ch_options c))) (pd_choices seats_proposal)"
  "\<exists>l. build_grid_line seats_proposal licence_item ''m365-0003'' None None ''2026-01-01'' = Inr l"
proof -
  show "grid_line_key seats_proposal (gi_code licence_item) = Some ''m365-0003''" by code_simp
  show "own_versions licence_item" "grid_item_shape licence_item" "length (pd_lines seats_proposal) < 100"
    "is_iso_day ''2026-01-01''"
    by code_simp+
  show "distinct (map ch_key (pd_choices seats_proposal))" by code_simp
  show "list_all (\<lambda>c. distinct (map co_value (ch_options c))) (pd_choices seats_proposal)" by code_simp
  have "is_ok (build_grid_line seats_proposal licence_item ''m365-0003'' None None ''2026-01-01'')"
    by code_simp
  then show "\<exists>l. build_grid_line seats_proposal licence_item ''m365-0003'' None None ''2026-01-01'' = Inr l"
    by (simp add: is_ok_iff)
qed

theorem grid_line_keeps_consistency_witness:
  "\<exists>l. build_grid_line seats_proposal licence_item ''m365-0003'' None None ''2026-01-01'' = Inr l
     \<and> definition_issues (seats_proposal\<lparr>pd_lines := pd_lines seats_proposal @ [l]\<rparr>) = []"
proof -
  obtain l where l: "build_grid_line seats_proposal licence_item ''m365-0003'' None None ''2026-01-01'' = Inr l"
    using licence_added(8) by (elim exE)
  have "case None of None \<Rightarrow> True | Some n \<Rightarrow> is_safe_int n \<and> 0 \<le> n" by simp
  from grid_line_keeps_consistency [OF seats_consistent(1) licence_added(1) l licence_added(2-5) this licence_added(6,7)] l
  show ?thesis by (elim conjE) (intro exI conjI)
qed


definition one_or_two_years :: commitments_input where
  "one_or_two_years =
     \<lparr>ci_months = [24, 12], ci_defaultMonths = 12, ci_switchGridLines = False, ci_on = ''2026-01-01''\<rparr>"

definition one_year :: choice_option where
  "one_year = \<lparr>co_value = ''12'', co_label = ''12 mois'', co_default = True, co_commitmentMonths = Some 12\<rparr>"

lemma years_changed:
  "is_ok (change_commitments seats_proposal one_or_two_years [] [])"
  "commitment_choice_of seats_proposal = Inr (hd (pd_choices seats_proposal))"
  "new_options (hd (pd_choices seats_proposal)) (ci_defaultMonths one_or_two_years) [] []
     (sort (uniq (ci_months one_or_two_years)))
   = Some [one_year, \<lparr>co_value = ''24'', co_label = ''24 mois'', co_default = False, co_commitmentMonths = Some 24\<rparr>]"
  "distinct (map co_value (ch_options (hd (pd_choices seats_proposal))))"
  "distinct (map option_months (ch_options (hd (pd_choices seats_proposal))))"
  "list_all (\<lambda>l. case pp_pricing l of UnitCents c \<Rightarrow> True | ByChoice dep old \<Rightarrow> distinct (map fst old))
     (pd_lines seats_proposal)"
  "one_year \<in> set (ch_options (hd (pd_choices seats_proposal)))"
  by code_simp+

theorem kept_commitments_keep_prices_witness:
  "\<exists>d'. change_commitments seats_proposal one_or_two_years [] [] = Inr d'
     \<and> list_all2 (\<lambda>l l'.
         if offered_code l ''12'' \<and> unit_price_cents l [(''engagement'', ''12'')] \<noteq> None
         then unit_price_cents l' [(''engagement'', ''12'')] = unit_price_cents l [(''engagement'', ''12'')]
         else True) (pd_lines seats_proposal) (pd_lines d')"
proof -
  obtain d' where d': "change_commitments seats_proposal one_or_two_years [] [] = Inr d'"
    using years_changed(1) by (auto simp: is_ok_iff)
  have names: "co_value one_year = ''12''" "ch_key (hd (pd_choices seats_proposal)) = ''engagement''"
    by (simp_all add: one_year_def seats_proposal_def)
  have "list_all2 (\<lambda>l l'.
         if offered_code l (co_value one_year)
            \<and> unit_price_cents l [(ch_key (hd (pd_choices seats_proposal)), co_value one_year)] \<noteq> None
         then unit_price_cents l' [(ch_key (hd (pd_choices seats_proposal)), co_value one_year)]
            = unit_price_cents l [(ch_key (hd (pd_choices seats_proposal)), co_value one_year)]
         else True) (pd_lines seats_proposal) (pd_lines d')"
    by (rule kept_commitments_keep_prices [where m = 12, OF d' years_changed(2,3,4,5) _ years_changed(6) _ years_changed(7)])
      (simp_all add: one_year_def one_or_two_years_def)
  then show ?thesis using d' unfolding names by blast
qed

end
