(* ===== verification/MergeTags.thy ===== *)
theory MergeTags
  imports ProposalConfig
begin

text \<open>
  The merge tags of the proposals: \<open>packages/domain/src/proposal/merge-tags.ts\<close>. A text is cut into
  the tags its regular expression finds, from left to right, and the characters between them.

  The texts \<open>Intl.NumberFormat\<close> and \<open>String\<close> give for a number are those of the host: the record
  \<open>number_texts\<close>. The labels of the catalogue, shown by the editor only, are left out.
\<close>

subsection \<open>Catalogue\<close>

datatype merge_tag_type = MT_text | MT_integer | MT_date | MT_money

definition MERGE_TAG_CATALOG :: "(string \<times> merge_tag_type) list" where
  "MERGE_TAG_CATALOG =
    [(''client.raisonSociale'', MT_text),
     (''client.siren'', MT_text),
     (''client.effectif'', MT_integer),
     (''contact.civilite'', MT_text),
     (''contact.nom'', MT_text),
     (''contact.prenom'', MT_text),
     (''commercial.nom'', MT_text),
     (''proposition.numero'', MT_text),
     (''proposition.dateExpiration'', MT_date),
     (''parc.nbPostes'', MT_integer),
     (''parc.nbServeurs'', MT_integer),
     (''parc.nbEquipementsReseau'', MT_integer),
     (''parc.nbUtilisateursM365'', MT_integer),
     (''tarif.totalPonctuelHT'', MT_money),
     (''tarif.totalMensuelHT'', MT_money),
     (''tarif.totalEngagementHT'', MT_money),
     (''engagement.dureeMois'', MT_integer)]"

definition in_catalog :: "string \<Rightarrow> bool" where
  "in_catalog tag = (map_of MERGE_TAG_CATALOG tag \<noteq> None)"

text \<open>\<open>o[name]\<close> on an object of entries also reads the members of \<open>Object.prototype\<close>.\<close>

definition PROTOTYPE_MEMBERS :: "string list" where
  "PROTOTYPE_MEMBERS =
     [''constructor'', ''__defineGetter__'', ''__defineSetter__'', ''hasOwnProperty'',
      ''__lookupGetter__'', ''__lookupSetter__'', ''isPrototypeOf'', ''propertyIsEnumerable'',
      ''toString'', ''valueOf'', ''__proto__'', ''toLocaleString'']"

datatype 'a property = Own 'a | Inherited | Absent

definition js_get :: "(string \<times> 'a) list \<Rightarrow> string \<Rightarrow> 'a property" where
  "js_get entries name =
     (case map_of entries name of
        Some v \<Rightarrow> Own v
      | None \<Rightarrow> if name \<in> set PROTOTYPE_MEMBERS then Inherited else Absent)"

subsection \<open>Tags of a text\<close>

definition is_tag_char :: "char \<Rightarrow> bool" where
  "is_tag_char c =
     (let n = of_char c :: nat
      in (97 \<le> n \<and> n \<le> 122) \<or> (65 \<le> n \<and> n \<le> 90) \<or> is_digit c \<or> c = CHR ''_'' \<or> c = CHR ''.'')"

text \<open>\<open>TAG_RE\<close> at the head of a text: the name and what follows the tag. Blanks and the characters of
  a name are disjoint, so the greedy match is the only one.\<close>

definition tag_at :: "string \<Rightarrow> (string \<times> string) option" where
  "tag_at s =
     (if take 2 s \<noteq> ''{{'' then None
      else
        let r = dropWhile is_js_space (drop 2 s);
            name = takeWhile is_tag_char r;
            close = dropWhile is_js_space (dropWhile is_tag_char r)
        in if name = [] \<or> take 2 close \<noteq> ''}}'' then None else Some (name, drop 2 close))"

lemma tag_at_shorter: "tag_at s = Some (name, rest) \<Longrightarrow> length rest < length s"
proof -
  assume tag: "tag_at s = Some (name, rest)"
  let ?r = "dropWhile is_js_space (drop 2 s)"
  let ?close = "dropWhile is_js_space (dropWhile is_tag_char ?r)"
  from tag have head: "take 2 s = ''{{''" and rest: "rest = drop 2 ?close"
    by (auto simp: tag_at_def Let_def split: if_splits)
  from head have two: "2 \<le> length s"
    by (metis One_nat_def Suc_1 length_Cons length_take list.size(3) min.cobounded1 min_def)
  have "length ?close \<le> length (drop 2 s)"
    by (meson length_dropWhile_le order_trans)
  then show ?thesis using two rest by simp
qed

datatype piece = Lit char | Tag string string

function scan_tags :: "string \<Rightarrow> piece list" where
  "scan_tags [] = []"
| "scan_tags (c # cs) =
     (case tag_at (c # cs) of
        None \<Rightarrow> Lit c # scan_tags cs
      | Some (name, rest) \<Rightarrow>
          Tag (take (length (c # cs) - length rest) (c # cs)) name # scan_tags rest)"
  by pat_completeness auto

termination
  by (relation "measure length") (auto dest: tag_at_shorter)

fun tag_names :: "piece list \<Rightarrow> string list" where
  "tag_names [] = []"
| "tag_names (Lit c # ps) = tag_names ps"
| "tag_names (Tag whole name # ps) = name # tag_names ps"

definition find_merge_tags :: "string \<Rightarrow> string list" where
  "find_merge_tags txt = tag_names (scan_tags txt)"

definition unknown_merge_tags :: "string \<Rightarrow> string list" where
  "unknown_merge_tags txt = uniq (filter (\<lambda>t. \<not> in_catalog t) (find_merge_tags txt))"

subsection \<open>Values\<close>

text \<open>\<open>NUMBER_FR.format(n)\<close>, \<open>MONEY_FR.format(n / 100)\<close> and \<open>String(n)\<close>.\<close>

record number_texts =
  nt_integer :: "rat \<Rightarrow> string"
  nt_money :: "rat \<Rightarrow> string"
  nt_text :: "rat \<Rightarrow> string"

text \<open>What the function returns: \<open>null\<close>, \<open>undefined\<close> (when no case of its \<open>switch\<close> applies), or a text.\<close>

datatype formatted = F_null | F_undefined | F_text string

definition value_number :: "context_value \<Rightarrow> rat option" where
  "value_number v = (case v of CNumber x \<Rightarrow> Some x | CString s \<Rightarrow> js_number s)"

definition french_date :: "string \<Rightarrow> string option" where
  "french_date s =
     (if length s = 10 \<and> list_all is_digit (take 4 s) \<and> s ! 4 = CHR ''-''
         \<and> list_all is_digit (take 2 (drop 5 s)) \<and> s ! 7 = CHR ''-'' \<and> list_all is_digit (drop 8 s)
      then Some (drop 8 s @ ''/'' @ take 2 (drop 5 s) @ ''/'' @ take 4 s) else None)"

definition format_merge_value :: "number_texts \<Rightarrow> string \<Rightarrow> context_value option \<Rightarrow> formatted" where
  "format_merge_value nt tag v =
     (case v of
        None \<Rightarrow> F_null
      | Some x \<Rightarrow>
          if x = CString [] then F_null
          else case js_get MERGE_TAG_CATALOG tag of
                 Absent \<Rightarrow> F_null
               | Inherited \<Rightarrow> F_undefined
               | Own MT_text \<Rightarrow> F_text (case x of CString s \<Rightarrow> s | CNumber n \<Rightarrow> nt_text nt n)
               | Own MT_integer \<Rightarrow>
                   (case value_number x of
                      Some n \<Rightarrow> if is_integer n then F_text (nt_integer nt n) else F_null
                    | None \<Rightarrow> F_null)
               | Own MT_money \<Rightarrow>
                   (case value_number x of
                      Some n \<Rightarrow> if is_integer n then F_text (nt_money nt (n / 100)) else F_null
                    | None \<Rightarrow> F_null)
               | Own MT_date \<Rightarrow>
                   (case french_date (case x of CString s \<Rightarrow> s | CNumber n \<Rightarrow> nt_text nt n) of
                      Some d \<Rightarrow> F_text d | None \<Rightarrow> F_null))"

text \<open>\<open>values[tag]\<close>: a member of \<open>Object.prototype\<close> is neither null nor a string, and no case of the
  \<open>switch\<close> reads it; its name stands for it.\<close>

definition merge_value_at :: "(string \<times> context_value) list \<Rightarrow> string \<Rightarrow> context_value option" where
  "merge_value_at vals tag =
     (case js_get vals tag of Own v \<Rightarrow> Some v | Inherited \<Rightarrow> Some (CString tag) | Absent \<Rightarrow> None)"

subsection \<open>Rendering\<close>

definition escape_char :: "char \<Rightarrow> string" where
  "escape_char c =
     (if c = CHR ''&'' then ''&amp;''
      else if c = CHR ''<'' then ''&lt;''
      else if c = CHR ''>'' then ''&gt;''
      else if c = CHR 0x22 then ''&quot;''
      else if c = CHR 0x27 then ''&#39;'' else [c])"

definition escape_html :: "string \<Rightarrow> string" where
  "escape_html s = concat (map escape_char s)"

record rendered_text =
  rt_text :: string
  rt_unresolved :: "string list"

text \<open>The callback of \<open>replace\<close> on one tag: \<open>None\<close> when \<open>escapeHtml(undefined)\<close> throws a \<open>TypeError\<close>; the
  text \<open>undefined\<close> when the callback returns that value.\<close>

definition replaced_tag ::
    "number_texts \<Rightarrow> (string \<times> context_value) list \<Rightarrow> bool \<Rightarrow> string \<Rightarrow> string \<Rightarrow> string option" where
  "replaced_tag nt vals html whole tag =
     (case format_merge_value nt tag (merge_value_at vals tag) of
        F_null \<Rightarrow> Some whole
      | F_undefined \<Rightarrow> if html then None else Some ''undefined''
      | F_text v \<Rightarrow> Some (if html then escape_html v else v))"

definition is_unresolved :: "number_texts \<Rightarrow> (string \<times> context_value) list \<Rightarrow> string \<Rightarrow> bool" where
  "is_unresolved nt vals tag = (format_merge_value nt tag (merge_value_at vals tag) = F_null)"

fun render_pieces ::
    "number_texts \<Rightarrow> (string \<times> context_value) list \<Rightarrow> bool \<Rightarrow> piece list \<Rightarrow> string option" where
  "render_pieces nt vals html [] = Some []"
| "render_pieces nt vals html (Lit c # ps) = map_option ((#) c) (render_pieces nt vals html ps)"
| "render_pieces nt vals html (Tag whole name # ps) =
     (case replaced_tag nt vals html whole name of
        None \<Rightarrow> None
      | Some v \<Rightarrow> map_option ((@) v) (render_pieces nt vals html ps))"

definition render_merge_tags ::
    "number_texts \<Rightarrow> string \<Rightarrow> (string \<times> context_value) list \<Rightarrow> bool \<Rightarrow> rendered_text option" where
  "render_merge_tags nt txt vals html =
     map_option (\<lambda>out. \<lparr>rt_text = out,
                        rt_unresolved = uniq (filter (is_unresolved nt vals) (find_merge_tags txt))\<rparr>)
       (render_pieces nt vals html (scan_tags txt))"

subsection \<open>Nothing is lost\<close>

fun piece_text :: "piece \<Rightarrow> string" where
  "piece_text (Lit c) = [c]"
| "piece_text (Tag whole name) = whole"

lemma dropWhile_suffix: "\<exists>p. s = p @ dropWhile P s"
  by (metis takeWhile_dropWhile_id)

lemma tag_at_suffix: "tag_at s = Some (name, rest) \<Longrightarrow> \<exists>p. s = p @ rest"
  by (auto simp: tag_at_def Let_def split: if_splits)
    (metis append.assoc append_take_drop_id takeWhile_dropWhile_id)

lemma scan_tags_text: "concat (map piece_text (scan_tags s)) = s"
proof (induction s rule: scan_tags.induct)
  case (2 c cs)
  show ?case
  proof (cases "tag_at (c # cs)")
    case None
    with 2 show ?thesis by simp
  next
    case (Some nr)
    obtain name rest where nr: "nr = (name, rest)" by fastforce
    with Some obtain p where "c # cs = p @ rest" using tag_at_suffix by blast
    then have "take (length (c # cs) - length rest) (c # cs) @ rest = c # cs"
      by simp
    with Some nr 2 show ?thesis by simp
  qed
qed simp

subsection \<open>Where the tags are\<close>

lemma takeWhile_all: "list_all P xs \<Longrightarrow> (ys = [] \<or> \<not> P (hd ys)) \<Longrightarrow> takeWhile P (xs @ ys) = xs"
  by (induction xs) (cases ys; simp)+

lemma dropWhile_all: "list_all P xs \<Longrightarrow> (ys = [] \<or> \<not> P (hd ys)) \<Longrightarrow> dropWhile P (xs @ ys) = ys"
  by (induction xs) (cases ys; simp)+

lemma tag_char_no_space: "is_tag_char c \<Longrightarrow> \<not> is_js_space c"
  by (auto simp: is_tag_char_def is_js_space_def is_digit_def Let_def)

lemma brace_classes:
  "\<not> is_js_space (CHR ''}'')" "\<not> is_tag_char (CHR ''}'')" "\<not> is_js_space (CHR ''{'')"
  by (simp_all add: is_js_space_def is_tag_char_def is_digit_def)

lemma space_no_tag_char: "is_js_space c \<Longrightarrow> \<not> is_tag_char c"
  using tag_char_no_space by blast

lemma tag_at_tag:
  assumes sp: "list_all is_js_space sp" and sp': "list_all is_js_space sp'"
    and t: "list_all is_tag_char t" "t \<noteq> []"
  shows "tag_at (''{{'' @ sp @ t @ sp' @ ''}}'' @ post) = Some (t, post)"
proof -
  let ?close = "''}}'' @ post"
  have "hd (t @ sp' @ ?close) = hd t" "is_tag_char (hd t)"
    using t by (cases t; simp)+
  then have a: "dropWhile is_js_space (sp @ t @ sp' @ ?close) = t @ sp' @ ?close"
    using sp t by (intro dropWhile_all) (auto dest: tag_char_no_space)
  have "sp' @ ?close = [] \<or> \<not> is_tag_char (hd (sp' @ ?close))"
    using sp' by (cases sp') (auto simp: brace_classes dest: space_no_tag_char)
  then have b: "takeWhile is_tag_char (t @ sp' @ ?close) = t" "dropWhile is_tag_char (t @ sp' @ ?close) = sp' @ ?close"
    using t by (simp_all only: takeWhile_all dropWhile_all)
  have c: "dropWhile is_js_space (sp' @ ?close) = ?close"
    using sp' by (intro dropWhile_all) (simp_all add: brace_classes)
  have d: "drop 2 (''{{'' @ sp @ t @ sp' @ ?close) = sp @ t @ sp' @ ?close" "take 2 (''{{'' @ sp @ t @ sp' @ ?close) = ''{{''"
    by simp_all
  have e: "take 2 ?close = ''}}''" "drop 2 ?close = post" by simp_all
  show ?thesis
    unfolding tag_at_def Let_def d a b c e using t by simp
qed

lemma no_tag_at: "CHR ''{'' \<noteq> c \<Longrightarrow> tag_at (c # cs) = None"
  by (simp add: tag_at_def)

lemma scan_before: "CHR ''{'' \<notin> set pre \<Longrightarrow> scan_tags (pre @ s) = map Lit pre @ scan_tags s"
  by (induction pre) (simp_all add: no_tag_at)

lemma scan_tags_tag:
  assumes "tag_at (p @ rest) = Some (n, rest)" "p \<noteq> []"
  shows "scan_tags (p @ rest) = Tag p n # scan_tags rest"
  using assms by (cases p) simp_all

lemma scan_tag:
  assumes "list_all is_js_space sp" "list_all is_js_space sp'" "list_all is_tag_char t" "t \<noteq> []"
  shows "scan_tags (''{{'' @ sp @ t @ sp' @ ''}}'' @ post) = Tag (''{{'' @ sp @ t @ sp' @ ''}}'') t # scan_tags post"
  using scan_tags_tag [of "''{{'' @ sp @ t @ sp' @ ''}}''" post t] tag_at_tag [OF assms] by simp

lemma tag_names_append [simp]: "tag_names (xs @ ys) = tag_names xs @ tag_names ys"
  by (induction xs rule: tag_names.induct) auto

lemma tag_names_Lit [simp]: "tag_names (map Lit s) = []"
  by (induction s) auto

lemma render_Lit [simp]:
  "render_pieces nt vals html (map Lit s @ ps) = map_option ((@) s) (render_pieces nt vals html ps)"
  by (induction s) (simp_all add: option.map_comp comp_def option.map_ident)

text \<open>The first tag of a text, whatever the blanks inside its braces, is replaced by its value, escaped
  in HTML; what precedes is untouched and what follows is rendered on its own. Applied again
  to what follows, it gives the whole rendered text.\<close>

theorem tags_replaced_in_place:
  assumes pre: "CHR ''{'' \<notin> set pre"
    and tag: "list_all is_js_space sp" "list_all is_js_space sp'" "list_all is_tag_char t" "t \<noteq> []"
    and val: "format_merge_value nt t (merge_value_at vals t) = F_text v"
  shows "render_merge_tags nt (pre @ ''{{'' @ sp @ t @ sp' @ ''}}'' @ post) vals html
    = map_option (\<lambda>r. r\<lparr>rt_text := pre @ (if html then escape_html v else v) @ rt_text r\<rparr>)
        (render_merge_tags nt post vals html)"
proof -
  note scan = scan_before [OF pre] scan_tag [OF tag]
  have "\<not> is_unresolved nt vals t" using val by (simp add: is_unresolved_def)
  then show ?thesis
    unfolding render_merge_tags_def find_merge_tags_def scan
    by (simp add: replaced_tag_def val option.map_comp comp_def)
qed

theorem tags_replaced_in_place_witness:
  "\<exists>nt. render_merge_tags nt (''Bonjour '' @ ''{{'' @ '' '' @ ''contact.nom'' @ [] @ ''}}'' @ ''.'')
     [(''contact.nom'', CString ''A & B'')] True = Some \<lparr>rt_text = ''Bonjour A &amp; B.'', rt_unresolved = []\<rparr>"
proof -
  let ?nt = "\<lparr>nt_integer = (\<lambda>_. []), nt_money = (\<lambda>_. []), nt_text = (\<lambda>_. [])\<rparr>"
  have val: "format_merge_value ?nt ''contact.nom'' (merge_value_at [(''contact.nom'', CString ''A & B'')] ''contact.nom'')
      = F_text ''A & B''"
    by (simp add: format_merge_value_def merge_value_at_def js_get_def MERGE_TAG_CATALOG_def)
  have post: "render_merge_tags ?nt ''.'' [(''contact.nom'', CString ''A & B'')] True
      = Some \<lparr>rt_text = ''.'', rt_unresolved = []\<rparr>"
    by (simp add: render_merge_tags_def find_merge_tags_def no_tag_at)
  show ?thesis
    by (rule exI [of _ ?nt], subst tags_replaced_in_place [OF _ _ _ _ _ val])
      (simp_all add: post escape_html_def escape_char_def is_js_space_def is_tag_char_def is_digit_def)
qed

subsection \<open>Escaping\<close>

definition entities :: "string list" where
  "entities = [''&amp;'', ''&lt;'', ''&gt;'', ''&quot;'', ''&#39;'']"

text \<open>No markup: no character opens a tag or ends an attribute, and an ampersand starts an entity.\<close>

fun inert_html :: "string \<Rightarrow> bool" where
  "inert_html [] = True"
| "inert_html (c # cs) =
     (c \<notin> {CHR ''<'', CHR ''>'', CHR 0x22, CHR 0x27}
      \<and> (c = CHR ''&'' \<longrightarrow> list_ex (\<lambda>e. take (length e) (c # cs) = e) entities)
      \<and> inert_html cs)"

text \<open>Reading the entities back.\<close>

fun unescape_html :: "string \<Rightarrow> string" where
  "unescape_html [] = []"
| "unescape_html (c # cs) =
     (if take 4 cs = ''amp;'' \<and> c = CHR ''&'' then CHR ''&'' # unescape_html (drop 4 cs)
      else if take 3 cs = ''lt;'' \<and> c = CHR ''&'' then CHR ''<'' # unescape_html (drop 3 cs)
      else if take 3 cs = ''gt;'' \<and> c = CHR ''&'' then CHR ''>'' # unescape_html (drop 3 cs)
      else if take 5 cs = ''quot;'' \<and> c = CHR ''&'' then CHR 0x22 # unescape_html (drop 5 cs)
      else if take 4 cs = ''#39;'' \<and> c = CHR ''&'' then CHR 0x27 # unescape_html (drop 4 cs)
      else c # unescape_html cs)"

lemma escape_html_simps [simp]:
  "escape_html [] = []" "escape_html (c # s) = escape_char c @ escape_html s"
  by (simp_all add: escape_html_def)

lemma inert_escaped_char: "inert_html s \<Longrightarrow> inert_html (escape_char c @ s)"
  by (simp add: escape_char_def entities_def)

lemma unescape_escaped_char: "unescape_html (escape_char c @ s) = c # unescape_html s"
  by (simp add: escape_char_def)

text \<open>An escaped value is text for a browser: it opens no tag, ends no attribute, and reads back as
  the value itself, so nothing a client or a colleague types becomes markup.\<close>

theorem escaped_text_is_inert: "inert_html (escape_html s) \<and> unescape_html (escape_html s) = s"
  by (induction s) (auto intro: inert_escaped_char simp: unescape_escaped_char)

end
