(* ===== verification/ProposalContent.thy ===== *)
theory ProposalContent
  imports MergeTags ProposalQuote
begin

text \<open>
  The content of a proposal: sections and blocks, the values of the merge tags, and the controls
  made before it leaves (\<open>apps/api/src/proposals/proposal-content.ts\<close>). The content of a block has
  passed the schema of its type, so it is a constructor with the fields of that schema. Rendering to
  HTML is left to the theories about the text.
\<close>

subsection \<open>Blocks and sections\<close>

record timeline_item =
  tl_label :: string
  tl_date :: "string option"
  tl_description :: "string option"

datatype block =
    RICH_TEXT string "string option" "string option"
  | IMAGE string string
  | VIDEO string string
  | PRICING_TABLE "string option"
  | TIMELINE "timeline_item list"
  | TEAM "(string \<times> string) list"
  | REFERENCES "(string \<times> string option) list"
  | FAQ "(string \<times> string) list"
  | TERMS_BLOCK
  | SIGNATURE_BLOCK

datatype section_kind =
  SK_COVER | SK_LIBRARY | SK_TEXT | SK_CLIENT_INPUT | SK_PRICING | SK_TERMS | SK_SIGNATURE

record section_input =
  si_key :: string
  si_title :: string
  si_kind :: section_kind
  si_optional :: "bool option"
  si_excluded :: "bool option"
  si_libraryItemKey :: "string option"
  si_guidance :: "string option"
  si_blocks :: "block list"

text \<open>The cross checks of the schema of the sections.\<close>

datatype sections_issue = DuplicateSection string | NotExactlyOne section_kind

fun duplicate_sections :: "string set \<Rightarrow> section_input list \<Rightarrow> sections_issue list" where
  "duplicate_sections keys [] = []"
| "duplicate_sections keys (s # ss) =
     (if si_key s \<in> keys then [DuplicateSection (si_key s)] else [])
     @ duplicate_sections (insert (si_key s) keys) ss"

definition sections_issues :: "section_input list \<Rightarrow> sections_issue list" where
  "sections_issues sections =
     duplicate_sections {} sections
     @ concat (map (\<lambda>kind. if length (filter (\<lambda>s. si_kind s = kind) sections) \<noteq> 1
                            then [NotExactlyOne kind] else []) [SK_PRICING, SK_SIGNATURE])"

text \<open>A stored section; the sources of a text written by the AI are one text here.\<close>

record section_row =
  sr_key :: string
  sr_title :: string
  sr_kind :: section_kind
  sr_optional :: bool
  sr_excluded :: bool
  sr_validationStatus :: price_status
  sr_libraryItemKey :: "string option"
  sr_guidance :: "string option"
  sr_aiPendingReview :: bool
  sr_aiSources :: "string option"
  sr_blocks :: "block list"

subsection \<open>Values of the merge tags\<close>

record merge_sources =
  ms_customerName :: string
  ms_customerLegalName :: "string option"
  ms_customerSiren :: "string option"
  ms_contact :: "(string option \<times> string option) option"
  ms_ownerName :: "string option"
  ms_number :: string
  ms_expiryDay :: "string option"
  ms_mergeContext :: "(string \<times> context_value) list"
  ms_quote :: "proposal_quote option"

definition text_value :: "string option \<Rightarrow> context_value option" where
  "text_value = map_option CString"

definition merge_entries :: "merge_sources \<Rightarrow> (string \<times> context_value option) list" where
  "merge_entries s =
     [(''client.raisonSociale'',
        Some (CString (case ms_customerLegalName s of Some n \<Rightarrow> n | None \<Rightarrow> ms_customerName s))),
      (''client.siren'', text_value (ms_customerSiren s)),
      (''contact.prenom'', (case ms_contact s of None \<Rightarrow> None | Some c \<Rightarrow> text_value (fst c))),
      (''contact.nom'', (case ms_contact s of None \<Rightarrow> None | Some c \<Rightarrow> text_value (snd c))),
      (''commercial.nom'', text_value (ms_ownerName s)),
      (''proposition.numero'', Some (CString (ms_number s))),
      (''proposition.dateExpiration'', text_value (ms_expiryDay s)),
      (''tarif.totalPonctuelHT'',
        map_option (\<lambda>q. CNumber (of_int (bk_htCents (pt_oneTime q)))) (ms_quote s)),
      (''tarif.totalMensuelHT'',
        map_option (\<lambda>q. CNumber (of_int (bk_htCents (pt_monthly q)))) (ms_quote s)),
      (''tarif.totalEngagementHT'',
        map_option (\<lambda>q. CNumber (of_int (bk_htCents (pt_commitment q)))) (ms_quote s)),
      (''engagement.dureeMois'',
        (case ms_quote s of
           None \<Rightarrow> None
         | Some q \<Rightarrow> if pt_commitmentMonths q > 0 then Some (CNumber (of_int (pt_commitmentMonths q))) else None))]"

text \<open>A typed value of the draft fills a tag of the catalogue that has no value of its own.\<close>

definition add_typed ::
    "(string \<times> context_value option) list \<Rightarrow> string \<times> context_value
     \<Rightarrow> (string \<times> context_value option) list" where
  "add_typed out kv =
     (if in_catalog (fst kv) \<and> (case map_of out (fst kv) of Some (Some v) \<Rightarrow> False | _ \<Rightarrow> True)
      then map_set (fst kv) (Some (snd kv)) out else out)"

definition merge_values_for :: "merge_sources \<Rightarrow> (string \<times> context_value) list" where
  "merge_values_for s =
     concat (map (\<lambda>(k, v). case v of
                     Some x \<Rightarrow> if x = CString [] then [] else [(k, x)]
                   | None \<Rightarrow> [])
              (foldl add_typed (merge_entries s) (ms_mergeContext s)))"

text \<open>The context of the engine: the whole values of the catalogue.\<close>

definition context_integer :: "context_value \<Rightarrow> rat option" where
  "context_integer v =
     (case (case v of
              CNumber x \<Rightarrow> Some x
            | CString s \<Rightarrow> if s \<noteq> [] \<and> list_all is_digit s then js_number s else None) of
        Some n \<Rightarrow> if is_integer n then Some n else None
      | None \<Rightarrow> None)"

definition pricing_context_of :: "(string \<times> context_value) list \<Rightarrow> (string \<times> context_value) list" where
  "pricing_context_of mergeContext =
     foldl (\<lambda>out (k, v). case context_integer v of
                Some n \<Rightarrow> if in_catalog k then map_set k (CNumber n) out else out
              | None \<Rightarrow> out) [] mergeContext"

subsection \<open>Controls\<close>

datatype issue_code =
    I_MERGE_TAG | I_UNKNOWN_TAG | I_TO_COMPLETE | I_MISSING_TERMS | I_TO_VALIDATE | I_PRICING
  | I_CLICK_ACCEPT_THRESHOLD | I_AI_PENDING

text \<open>The message is French text around one name: the tag, the title or the label.\<close>

record readiness_entry =
  re_code :: issue_code
  re_about :: string
  re_section :: "string option"

text \<open>The pattern \<open>TO_COMPLETE\<close>: with the flag \<open>i\<close> two characters match when their capitals are equal;
  below 256 these are the letters of ASCII and of Latin-1.\<close>

definition upper_char :: "char \<Rightarrow> char" where
  "upper_char c =
     (let n = of_char c :: nat
      in if (97 \<le> n \<and> n \<le> 122) \<or> (224 \<le> n \<and> n \<le> 254 \<and> n \<noteq> 247) then char_of (n - 32) else c)"

definition TO_COMPLETE_MARK :: string where
  "TO_COMPLETE_MARK = ''['' @ [CHR 0xE0] @ '' compl'' @ [CHR 0xE9] @ ''ter]''"

definition marked_to_complete :: "string \<Rightarrow> bool" where
  "marked_to_complete txt = contains (map upper_char TO_COMPLETE_MARK) (map upper_char txt)"

definition present :: "string option \<Rightarrow> string list" where
  "present t = (case t of None \<Rightarrow> [] | Some x \<Rightarrow> [x])"

fun visible_texts :: "block \<Rightarrow> string list" where
  "visible_texts (RICH_TEXT markdown guidance source) = [markdown]"
| "visible_texts (PRICING_TABLE intro) = [case intro of None \<Rightarrow> [] | Some x \<Rightarrow> x]"
| "visible_texts (IMAGE url alt) = [alt]"
| "visible_texts (VIDEO url title) = [title]"
| "visible_texts (TIMELINE items) =
     concat (map (\<lambda>i. tl_label i # present (tl_date i) @ present (tl_description i)) items)"
| "visible_texts (REFERENCES items) = concat (map (\<lambda>(name, desc). name # present desc) items)"
| "visible_texts (FAQ items) = concat (map (\<lambda>(q, a). [q, a]) items)"
| "visible_texts (TEAM members) = concat (map (\<lambda>(name, role). [name, role]) members)"
| "visible_texts TERMS_BLOCK = []"
| "visible_texts SIGNATURE_BLOCK = []"

definition check_text ::
    "number_texts \<Rightarrow> (string \<times> context_value) list \<Rightarrow> string \<Rightarrow> string option \<Rightarrow> readiness_entry list" where
  "check_text nt vals txt sectionKey =
     concat (map (\<lambda>tag.
         if \<not> in_catalog tag then [\<lparr>re_code = I_UNKNOWN_TAG, re_about = tag, re_section = sectionKey\<rparr>]
         else if format_merge_value nt tag (merge_value_at vals tag) = F_null
         then [\<lparr>re_code = I_MERGE_TAG, re_about = tag, re_section = sectionKey\<rparr>] else [])
       (uniq (find_merge_tags txt)))
     @ (if marked_to_complete txt
        then [\<lparr>re_code = I_TO_COMPLETE, re_about = [], re_section = sectionKey\<rparr>] else [])"

definition section_texts :: "section_row \<Rightarrow> string list" where
  "section_texts s = concat (map visible_texts (sr_blocks s))"

definition section_issues ::
    "number_texts \<Rightarrow> (string \<times> context_value) list \<Rightarrow> bool \<Rightarrow> section_row \<Rightarrow> readiness_entry list" where
  "section_issues nt vals hasTerms s =
     (if sr_excluded s then []
      else check_text nt vals (sr_title s) (Some (sr_key s))
           @ concat (map (\<lambda>t. check_text nt vals t (Some (sr_key s))) (section_texts s))
           @ (if sr_kind s = SK_CLIENT_INPUT \<and> list_all js_blank (section_texts s)
              then [\<lparr>re_code = I_TO_COMPLETE, re_about = sr_title s, re_section = Some (sr_key s)\<rparr>] else [])
           @ (if sr_kind s = SK_TERMS \<and> \<not> hasTerms
              then [\<lparr>re_code = I_MISSING_TERMS, re_about = [], re_section = Some (sr_key s)\<rparr>] else []))"

definition content_issues ::
    "number_texts \<Rightarrow> string \<Rightarrow> section_row list \<Rightarrow> (string \<times> context_value) list \<Rightarrow> bool
     \<Rightarrow> readiness_entry list" where
  "content_issues nt title sections vals hasTerms =
     check_text nt vals title None @ concat (map (section_issues nt vals hasTerms) sections)"

subsection \<open>What the controls guarantee\<close>

text \<open>A text the client may be shown: every tag is of the catalogue and has a text, and nothing is left
  to complete.\<close>

definition text_complete :: "number_texts \<Rightarrow> (string \<times> context_value) list \<Rightarrow> string \<Rightarrow> bool" where
  "text_complete nt vals txt =
     ((\<forall>tag \<in> set (find_merge_tags txt). in_catalog tag \<and>
         (\<exists>v. format_merge_value nt tag (merge_value_at vals tag) = F_text v))
      \<and> \<not> marked_to_complete txt)"

definition shown_texts :: "string \<Rightarrow> section_row list \<Rightarrow> string list" where
  "shown_texts title sections =
     title # concat (map (\<lambda>s. if sr_excluded s then [] else sr_title s # section_texts s) sections)"

lemma catalog_formats:
  "in_catalog tag \<Longrightarrow> format_merge_value nt tag v \<noteq> F_undefined"
  by (auto simp: in_catalog_def format_merge_value_def js_get_def
      split: option.splits merge_tag_type.splits context_value.splits)

lemma concat_map_Nil: "concat (map f xs) = [] \<longleftrightarrow> (\<forall>x \<in> set xs. f x = [])"
  by (induction xs) auto

lemma check_text_Nil:
  assumes "check_text nt vals txt k = []"
  shows "text_complete nt vals txt"
proof -
  have tags: "in_catalog tag \<and> format_merge_value nt tag (merge_value_at vals tag) \<noteq> F_null"
    if "tag \<in> set (find_merge_tags txt)" for tag
    using assms that by (fastforce simp: check_text_def concat_map_Nil simp del: concat_eq_Nil_conv split: if_splits)
  have "\<exists>v. format_merge_value nt tag (merge_value_at vals tag) = F_text v"
    if "tag \<in> set (find_merge_tags txt)" for tag
    using tags [OF that] catalog_formats [of tag nt "merge_value_at vals tag"]
    by (cases "format_merge_value nt tag (merge_value_at vals tag)") auto
  with tags assms show ?thesis by (simp add: text_complete_def check_text_def split: if_splits)
qed

lemma section_issues_Nil:
  assumes "section_issues nt vals hasTerms s = []" and "\<not> sr_excluded s"
    and "txt \<in> set (sr_title s # section_texts s)"
  shows "text_complete nt vals txt"
  using assms by (auto simp: section_issues_def concat_map_Nil simp del: concat_eq_Nil_conv intro: check_text_Nil)

lemma content_issues_Nil:
  assumes "content_issues nt title sections vals hasTerms = []"
  shows "list_all (text_complete nt vals) (shown_texts title sections)"
proof -
  have "check_text nt vals title None = []" "\<forall>s \<in> set sections. section_issues nt vals hasTerms s = []"
    using assms by (simp_all add: content_issues_def concat_map_Nil del: concat_eq_Nil_conv)
  then show ?thesis
    by (fastforce simp: shown_texts_def list_all_iff intro: check_text_Nil section_issues_Nil split: if_splits)
qed

lemma complete_text_renders:
  assumes "text_complete nt vals txt"
  shows "\<exists>r. render_merge_tags nt txt vals html = Some r \<and> rt_unresolved r = []"
proof -
  have "render_pieces nt vals html ps \<noteq> None"
    if "\<forall>tag \<in> set (tag_names ps). \<exists>v. format_merge_value nt tag (merge_value_at vals tag) = F_text v" for ps
    using that by (induction ps rule: tag_names.induct) (auto simp: replaced_tag_def split: option.splits)
  then have "render_pieces nt vals html (scan_tags txt) \<noteq> None"
    using assms by (auto simp: text_complete_def find_merge_tags_def)
  moreover have "filter (is_unresolved nt vals) (find_merge_tags txt) = []"
    using assms by (auto simp: text_complete_def filter_empty_conv is_unresolved_def)
  ultimately show ?thesis
    by (auto simp: render_merge_tags_def)
qed

text \<open>When the controls of a proposal find nothing, every text shown to the client renders, in
  plain text and in HTML, and leaves no tag unresolved: the title, and the titles and texts of the
  sections that are not excluded.\<close>

theorem checked_content_renders:
  assumes "content_issues nt title sections vals hasTerms = []"
    and "txt \<in> set (shown_texts title sections)"
  shows "\<exists>r. render_merge_tags nt txt vals html = Some r \<and> rt_unresolved r = []"
  using content_issues_Nil [OF assms(1)] assms(2) complete_text_renders by (auto simp: list_all_iff)

end
