(* ===== verification/ProposalState.thy ===== *)
theory ProposalState
  imports ProposalContent PriceStatuses ProposalMachine FollowUps
begin

text \<open>
  The computed state of a proposal (\<open>apps/api/src/proposals/proposal-state.ts\<close>): the one place that
  tells, for the edition, the sending and the public page, what a proposal costs and what still
  stands in the way of its sending.

  What the host provides is the record \<open>proposal_host\<close>: the texts of the numbers, the calendar day in
  Paris (the time zone database of \<open>Intl\<close>) and SHA-256. The descriptions of the price lines, which
  no control reads, are left out with their sanitising.
\<close>

record proposal_host =
  ph_numbers :: number_texts
  ph_parisDay :: "jsdate \<Rightarrow> string"
  ph_sha :: "string \<Rightarrow> string"

subsection \<open>Rows\<close>

record proposal_settings =
  pg_reviewDiscountPercent :: rat
  pg_reviewAmountCents :: "int option"
  pg_clickAcceptMaxCents :: int
  pg_defaultValidityDays :: int
  pg_followUps :: "follow_up_config option"
  pg_linkGraceDays :: int
  pg_pricing :: partial_settings

record selection_input =
  sl_choices :: "(string \<times> string) list"
  sl_quantities :: "(string \<times> rat) list"
  sl_selectedOptions :: "string list"

definition EMPTY_SELECTION :: selection_input where
  "EMPTY_SELECTION = \<lparr>sl_choices = [], sl_quantities = [], sl_selectedOptions = []\<rparr>"

definition selection_of :: "selection_input option \<Rightarrow> selection_input" where
  "selection_of r = (case r of None \<Rightarrow> EMPTY_SELECTION | Some s \<Rightarrow> s)"

datatype recipient_role = DECISION_MAKER | SIGNER | READER

record recipient =
  rc_id :: string
  rc_fullName :: string
  rc_email :: string
  rc_role :: recipient_role
  rc_signingOrder :: int
  rc_contact :: "(string \<times> string) option"

record proposal_version =
  vn_id :: string
  vn_number :: nat
  vn_title :: string
  vn_pricingDefinition :: proposal_definition
  vn_pricingSettings :: "partial_settings option"
  vn_sections :: "section_row list"
  vn_terms :: "string option"
  vn_mergeValues :: "(string \<times> context_value) list option"
  vn_lockedAt :: "jsdate option"
  vn_supersededAt :: "jsdate option"

text \<open>The columns of \<open>proposals\<close> that the services read and write; the last four are the summary shown in lists.\<close>

record proposal_row =
  pw_id :: string
  pw_number :: string
  pw_title :: string
  pw_status :: proposal_status
  pw_acceptanceMode :: acceptance_mode
  pw_currentVersionId :: "string option"
  pw_validityDays :: int
  pw_fixedExpiryDate :: "jsdate option"
  pw_expiresAt :: "jsdate option"
  pw_reviewSubmittedByUserId :: "string option"
  pw_reviewApprovedVersionId :: "string option"
  pw_acceptedVersionId :: "string option"
  pw_mergeContext :: "(string \<times> context_value) list"
  pw_customerName :: string
  pw_customerLegalName :: "string option"
  pw_customerSiren :: "string option"
  pw_ownerName :: "string option"
  pw_followUpsEnabled :: bool
  pw_followUpConfig :: "follow_up_config option"
  pw_sensitive :: bool
  pw_firstViewedAt :: "jsdate option"
  pw_clientRespondedAt :: "jsdate option"
  pw_stamps :: "(proposal_status \<times> jsdate) list"
  pw_updatedAt :: jsdate
  pw_monthlyCents :: int
  pw_oneTimeCents :: int
  pw_commitmentTotalCents :: int
  pw_reviewRequired :: bool

record loaded_proposal =
  lp_proposal :: proposal_row
  lp_version :: proposal_version
  lp_recipients :: "recipient list"
  lp_latestSelection :: "selection_input option"

subsection \<open>Counters\<close>

record readiness_counters =
  rk_hasRecipients :: bool
  rk_hasSigner :: bool
  rk_unresolvedMergeTags :: nat
  rk_blockingValidations :: nat
  rk_pricingErrors :: nat
  rk_reviewRequired :: bool

definition NEUTRAL_READINESS :: readiness_counters where
  "NEUTRAL_READINESS =
     \<lparr>rk_hasRecipients = True, rk_hasSigner = True, rk_unresolvedMergeTags = 0,
      rk_blockingValidations = 0, rk_pricingErrors = 0, rk_reviewRequired = False\<rparr>"

definition to_proposal_snapshot :: "proposal_row \<Rightarrow> readiness_counters \<Rightarrow> proposal_snapshot" where
  "to_proposal_snapshot p r =
     \<lparr>ps_id = pw_id p, ps_status = pw_status p, ps_currentVersionId = pw_currentVersionId p,
      ps_acceptanceMode = pw_acceptanceMode p, ps_expiresAt = pw_expiresAt p,
      ps_reviewRequired = rk_reviewRequired r,
      ps_reviewSubmittedByUserId = pw_reviewSubmittedByUserId p,
      ps_reviewApprovedVersionId = pw_reviewApprovedVersionId p,
      ps_acceptedVersionId = pw_acceptedVersionId p, ps_hasRecipients = rk_hasRecipients r,
      ps_hasSigner = rk_hasSigner r, ps_unresolvedMergeTags = rk_unresolvedMergeTags r,
      ps_blockingValidations = rk_blockingValidations r, ps_pricingErrors = rk_pricingErrors r\<rparr>"

subsection \<open>The contact and the day of expiry\<close>

lemma split_blanks_shorter:
  assumes "dropWhile (\<lambda>c. \<not> is_js_space c) s \<noteq> []"
  shows "length (dropWhile is_js_space (dropWhile (\<lambda>c. \<not> is_js_space c) s)) < length s"
proof -
  obtain c cs where r: "dropWhile (\<lambda>c. \<not> is_js_space c) s = c # cs" "is_js_space c"
    using assms hd_dropWhile [OF assms] by (cases "dropWhile (\<lambda>c. \<not> is_js_space c) s") auto
  have "length (dropWhile is_js_space cs) \<le> length cs" by (rule length_dropWhile_le)
  also have "\<dots> < length (c # cs)" by simp
  also have "\<dots> \<le> length s" using length_dropWhile_le [of "\<lambda>c. \<not> is_js_space c" s] r by simp
  finally show ?thesis using r by simp
qed

text \<open>\<open>s.split(/\s+/)\<close>\<close>

function split_blanks :: "string \<Rightarrow> string list" where
  "split_blanks s =
     (let r = dropWhile (\<lambda>c. \<not> is_js_space c) s
      in takeWhile (\<lambda>c. \<not> is_js_space c) s
         # (if r = [] then [] else split_blanks (dropWhile is_js_space r)))"
  by pat_completeness auto

termination
  by (relation "measure length") (auto intro!: split_blanks_shorter simp del: dropWhile_eq_Nil_conv)

declare split_blanks.simps [simp del]

fun join_blank :: "string list \<Rightarrow> string" where
  "join_blank [] = []"
| "join_blank [x] = x"
| "join_blank (x # y # ys) = x @ '' '' @ join_blank (y # ys)"

definition primary_recipient :: "recipient list \<Rightarrow> recipient option" where
  "primary_recipient rs =
     (case List.find (\<lambda>r. rc_role r \<noteq> READER) rs of
        Some r \<Rightarrow> Some r
      | None \<Rightarrow> if rs = [] then None else Some (hd rs))"

definition contact_names :: "recipient list \<Rightarrow> (string option \<times> string option) option" where
  "contact_names rs =
     map_option (\<lambda>p.
         case rc_contact p of
           Some (f, l) \<Rightarrow> (Some f, Some l)
         | None \<Rightarrow>
             let parts = split_blanks (js_trim (rc_fullName p))
             in (if tl parts \<noteq> [] then Some (hd parts) else None,
                 Some (if tl parts \<noteq> [] then join_blank (tl parts) else hd parts)))
       (primary_recipient rs)"

definition expiry_day :: "proposal_host \<Rightarrow> proposal_row \<Rightarrow> string option \<Rightarrow> jsdate \<Rightarrow> string" where
  "expiry_day h p given now =
     (case given of
        Some d \<Rightarrow> d
      | None \<Rightarrow>
          (case pw_expiresAt p of
             Some e \<Rightarrow> ph_parisDay h e
           | None \<Rightarrow>
               (case pw_fixedExpiryDate p of
                  Some f \<Rightarrow> iso_date f
                | None \<Rightarrow> ph_parisDay h (now + pw_validityDays p * 86400000))))"

subsection \<open>The computed state\<close>

definition merge_settings :: "partial_settings \<Rightarrow> partial_settings \<Rightarrow> partial_settings" where
  "merge_settings base over =
     \<lparr>ps_rounding = (case ps_rounding over of Some x \<Rightarrow> Some x | None \<Rightarrow> ps_rounding base),
      ps_unitPriceScale = (case ps_unitPriceScale over of Some x \<Rightarrow> Some x | None \<Rightarrow> ps_unitPriceScale base),
      ps_overrideApprovalThresholdPercent =
        (case ps_overrideApprovalThresholdPercent over of
           Some x \<Rightarrow> Some x | None \<Rightarrow> ps_overrideApprovalThresholdPercent base),
      ps_indexLookup = (case ps_indexLookup over of Some x \<Rightarrow> Some x | None \<Rightarrow> ps_indexLookup base)\<rparr>"

definition state_quote ::
    "'d decimal_ops \<Rightarrow> proposal_host \<Rightarrow> proposal_settings \<Rightarrow> proposal_definition
     \<Rightarrow> partial_settings option \<Rightarrow> selection_input \<Rightarrow> (string \<times> context_value) list \<Rightarrow> jsdate
     \<Rightarrow> proposal_quote priced" where
  "state_quote dc h st def versionSettings sel mergeContext now =
     quote_proposal dc def
       \<lparr>ps_choices = sl_choices sel, ps_quantities = sl_quantities sel,
        ps_selectedOptions = sl_selectedOptions sel, ps_context = pricing_context_of mergeContext\<rparr>
       \<lparr>qo_date = ph_parisDay h now,
        qo_settings = Some (case versionSettings of
            None \<Rightarrow> pg_pricing st | Some s \<Rightarrow> merge_settings (pg_pricing st) s),
        qo_scheduleId = None\<rparr>"

definition section_pending :: "section_row \<Rightarrow> pending_validation" where
  "section_pending s =
     \<lparr>pv_scope = VS_SECTION, pv_key = sr_key s, pv_label = sr_title s, pv_choiceValue = None\<rparr>"

definition sections_to_validate :: "section_row list \<Rightarrow> pending_validation list" where
  "sections_to_validate sections =
     map section_pending
       (filter (\<lambda>s. sr_validationStatus s = PS_TO_VALIDATE \<and> \<not> sr_excluded s) sections)"

definition sections_to_reread :: "section_row list \<Rightarrow> pending_validation list" where
  "sections_to_reread sections =
     map section_pending (filter (\<lambda>s. sr_aiPendingReview s \<and> \<not> sr_excluded s) sections)"

datatype review_reason = RR_DISCOUNT string string | RR_REFERENCE string | RR_AMOUNT

definition discount_reasons ::
    "proposal_settings \<Rightarrow> proposal_definition \<Rightarrow> proposal_quote \<Rightarrow> review_reason list" where
  "discount_reasons st def q =
     concat (map (\<lambda>r. case r of
         DISCOUNT_PERCENT key percent appliesTo trigger label status \<Rightarrow>
           if (case js_number percent of None \<Rightarrow> False | Some x \<Rightarrow> x > pg_reviewDiscountPercent st)
              \<and> list_ex (\<lambda>l. ql_key l = key) (pt_lines q)
           then [RR_DISCOUNT label percent] else []
       | _ \<Rightarrow> []) (pd_rules def))"

definition changed_reference :: "proposal_host \<Rightarrow> block \<Rightarrow> bool" where
  "changed_reference h b =
     (case b of
        RICH_TEXT markdown guidance (Some source) \<Rightarrow> source \<noteq> [] \<and> ph_sha h markdown \<noteq> source
      | _ \<Rightarrow> False)"

definition reference_reasons :: "proposal_host \<Rightarrow> section_row list \<Rightarrow> review_reason list" where
  "reference_reasons h sections =
     concat (map (\<lambda>s.
         if sr_excluded s \<or> (sr_kind s \<noteq> SK_LIBRARY \<and> sr_kind s \<noteq> SK_TERMS) then []
         else map (\<lambda>b. RR_REFERENCE (sr_title s)) (filter (changed_reference h) (sr_blocks s))) sections)"

definition review_reasons ::
    "proposal_host \<Rightarrow> proposal_settings \<Rightarrow> proposal_definition \<Rightarrow> proposal_quote \<Rightarrow> section_row list
     \<Rightarrow> review_reason list" where
  "review_reasons h st def q sections =
     discount_reasons st def q @ reference_reasons h sections
     @ (case pg_reviewAmountCents st of
          None \<Rightarrow> []
        | Some limit \<Rightarrow> if bk_htCents (pt_commitment q) > limit then [RR_AMOUNT] else [])"

record computed_state =
  cp_definition :: proposal_definition
  cp_selection :: selection_input
  cp_quote :: proposal_quote
  cp_mergeValues :: "(string \<times> context_value) list"
  cp_issues :: "readiness_entry list"
  cp_blocking :: "pending_validation list"
  cp_reviewReasons :: "review_reason list"
  cp_counters :: readiness_counters
  cp_sections :: "section_row list"

definition plain_entry :: "issue_code \<Rightarrow> string \<Rightarrow> readiness_entry" where
  "plain_entry code about = \<lparr>re_code = code, re_about = about, re_section = None\<rparr>"

definition state_issues ::
    "proposal_host \<Rightarrow> proposal_settings \<Rightarrow> loaded_proposal \<Rightarrow> proposal_quote
     \<Rightarrow> (string \<times> context_value) list \<Rightarrow> readiness_entry list" where
  "state_issues h st ld q vals =
     (let v = lp_version ld in
      content_issues (ph_numbers h) (vn_title v) (vn_sections v) vals (vn_terms v \<noteq> None)
      @ map (\<lambda>e. plain_entry I_PRICING []) (pt_errors q)
      @ (if pw_acceptanceMode (lp_proposal ld) = CLICK_ACCEPT
            \<and> bk_htCents (pt_commitment q) \<ge> pg_clickAcceptMaxCents st
         then [plain_entry I_CLICK_ACCEPT_THRESHOLD []] else [])
      @ map (\<lambda>b. plain_entry I_TO_VALIDATE (pv_label b))
          (pt_blockingValidations q @ sections_to_validate (vn_sections v))
      @ map (\<lambda>b. \<lparr>re_code = I_AI_PENDING, re_about = pv_label b, re_section = Some (pv_key b)\<rparr>)
          (sections_to_reread (vn_sections v)))"

definition count_codes :: "issue_code list \<Rightarrow> readiness_entry list \<Rightarrow> nat" where
  "count_codes codes issues = length (filter (\<lambda>i. re_code i \<in> set codes) issues)"

definition state_counters ::
    "loaded_proposal \<Rightarrow> proposal_quote \<Rightarrow> readiness_entry list \<Rightarrow> pending_validation list
     \<Rightarrow> review_reason list \<Rightarrow> readiness_counters" where
  "state_counters ld q issues blocking reasons =
     \<lparr>rk_hasRecipients = (lp_recipients ld \<noteq> []),
      rk_hasSigner = list_ex (\<lambda>r. if pw_acceptanceMode (lp_proposal ld) = CLICK_ACCEPT
                                  then rc_role r \<noteq> READER else rc_role r = SIGNER) (lp_recipients ld),
      rk_unresolvedMergeTags =
        count_codes [I_MERGE_TAG, I_UNKNOWN_TAG, I_TO_COMPLETE, I_MISSING_TERMS] issues,
      rk_blockingValidations = length blocking,
      rk_pricingErrors = length (pt_errors q) + count_codes [I_CLICK_ACCEPT_THRESHOLD] issues,
      rk_reviewRequired = (reasons \<noteq> [])\<rparr>"

definition state_sources ::
    "proposal_host \<Rightarrow> loaded_proposal \<Rightarrow> proposal_quote \<Rightarrow> string option \<Rightarrow> jsdate \<Rightarrow> merge_sources" where
  "state_sources h ld q expiry now =
     (let p = lp_proposal ld in
      \<lparr>ms_customerName = pw_customerName p, ms_customerLegalName = pw_customerLegalName p,
       ms_customerSiren = pw_customerSiren p, ms_contact = contact_names (lp_recipients ld),
       ms_ownerName = pw_ownerName p, ms_number = pw_number p,
       ms_expiryDay = Some (expiry_day h p expiry now), ms_mergeContext = pw_mergeContext p,
       ms_quote = Some q\<rparr>)"

text \<open>The options of the call: the template, the selection to use instead of the last one, the day of expiry.\<close>

definition compute_state ::
    "'d decimal_ops \<Rightarrow> proposal_host \<Rightarrow> proposal_settings \<Rightarrow> loaded_proposal \<Rightarrow> jsdate
     \<Rightarrow> proposal_definition option \<Rightarrow> selection_input option \<Rightarrow> string option \<Rightarrow> computed_state priced" where
  "compute_state dc h st ld now template given expiry =
     (let v = lp_version ld;
          def = with_template_validations (vn_pricingDefinition v) template;
          sel = (case given of Some s \<Rightarrow> s | None \<Rightarrow> selection_of (lp_latestSelection ld))
      in ebind (state_quote dc h st def (vn_pricingSettings v) sel (pw_mergeContext (lp_proposal ld)) now) (\<lambda>q.
           let vals = merge_values_for (state_sources h ld q expiry now);
               issues = state_issues h st ld q vals;
               blocking = pt_blockingValidations q @ sections_to_validate (vn_sections v)
                 @ sections_to_reread (vn_sections v);
               reasons = review_reasons h st def q (vn_sections v)
           in Inr \<lparr>cp_definition = def, cp_selection = sel, cp_quote = q, cp_mergeValues = vals,
                   cp_issues = issues, cp_blocking = blocking, cp_reviewReasons = reasons,
                   cp_counters = state_counters ld q issues blocking reasons,
                   cp_sections = vn_sections v\<rparr>))"

subsection \<open>What the counters tell\<close>

lemma content_issue_codes:
  "i \<in> set (content_issues nt title sections vals hasTerms) \<Longrightarrow>
     re_code i \<in> {I_MERGE_TAG, I_UNKNOWN_TAG, I_TO_COMPLETE, I_MISSING_TERMS}"
  by (auto simp: content_issues_def section_issues_def check_text_def split: if_splits)

lemma compute_state_Inr:
  assumes "compute_state dc h st ld now template given expiry = Inr s"
  obtains q where
    "state_quote dc h st (with_template_validations (vn_pricingDefinition (lp_version ld)) template)
       (vn_pricingSettings (lp_version ld)) (cp_selection s) (pw_mergeContext (lp_proposal ld)) now = Inr q"
    "cp_definition s = with_template_validations (vn_pricingDefinition (lp_version ld)) template"
    "cp_quote s = q" "cp_sections s = vn_sections (lp_version ld)"
    "cp_mergeValues s = merge_values_for (state_sources h ld q expiry now)"
    "cp_issues s = state_issues h st ld q (cp_mergeValues s)"
    "cp_blocking s = pt_blockingValidations q @ sections_to_validate (cp_sections s) @ sections_to_reread (cp_sections s)"
    "cp_counters s = state_counters ld q (cp_issues s) (cp_blocking s) (cp_reviewReasons s)"
  using assms by (auto simp: compute_state_def Let_def ebind_Inr_iff)

definition nothing_left :: "readiness_counters \<Rightarrow> bool" where
  "nothing_left c =
     (rk_unresolvedMergeTags c = 0 \<and> rk_blockingValidations c = 0 \<and> rk_pricingErrors c = 0
      \<and> rk_hasRecipients c \<and> rk_hasSigner c)"

text \<open>The content of a version that may leave: complete texts, every section shown validated and read
  again when the AI wrote it, terms when a section refers to them.\<close>

definition section_ready :: "bool \<Rightarrow> section_row \<Rightarrow> bool" where
  "section_ready hasTerms s =
     (sr_excluded s \<or>
      (sr_validationStatus s = PS_VALIDATED \<and> \<not> sr_aiPendingReview s
       \<and> (sr_kind s = SK_TERMS \<longrightarrow> hasTerms)
       \<and> (sr_kind s = SK_CLIENT_INPUT \<longrightarrow> \<not> list_all js_blank (section_texts s))))"

lemma no_content_issue:
  assumes "count_codes [I_MERGE_TAG, I_UNKNOWN_TAG, I_TO_COMPLETE, I_MISSING_TERMS] (state_issues h st ld q vals) = 0"
  shows "content_issues (ph_numbers h) (vn_title (lp_version ld)) (vn_sections (lp_version ld)) vals
           (vn_terms (lp_version ld) \<noteq> None) = []"
proof (rule ccontr)
  assume "\<not> ?thesis"
  then obtain i where i: "i \<in> set (content_issues (ph_numbers h) (vn_title (lp_version ld))
      (vn_sections (lp_version ld)) vals (vn_terms (lp_version ld) \<noteq> None))"
    by (meson all_not_in_conv set_empty)
  from content_issue_codes [OF this] i assms show False
    by (auto simp: count_codes_def state_issues_def Let_def filter_empty_conv)
qed

lemma ready_sections:
  assumes "content_issues nt title sections vals hasTerms = []"
    and "sections_to_validate sections = []" "sections_to_reread sections = []"
  shows "list_all (section_ready hasTerms) sections"
proof -
  have "section_ready hasTerms s" if s: "s \<in> set sections" for s
  proof (cases "sr_excluded s")
    case False
    have none: "section_issues nt vals hasTerms s = []"
      using assms(1) s by (simp add: content_issues_def concat_map_Nil del: concat_eq_Nil_conv)
    have "sr_validationStatus s = PS_VALIDATED"
      using assms(2) s False by (cases "sr_validationStatus s") (auto simp: sections_to_validate_def filter_empty_conv)
    moreover have "\<not> sr_aiPendingReview s"
      using assms(3) s False by (auto simp: sections_to_reread_def filter_empty_conv)
    ultimately show ?thesis
      using none False by (auto simp: section_ready_def section_issues_def split: if_splits)
  qed (simp add: section_ready_def)
  then show ?thesis by (simp add: list_all_iff)
qed

text \<open>A proposal whose counters let it leave is complete: every text shown to the client renders
  with no tag left, every section shown is validated, read again when the AI wrote it, filled in
  when the salesperson had to write it, the terms are attached, and its prices are calculated
  without error and validated.\<close>

theorem ready_proposal_is_complete:
  assumes state: "compute_state dc h st ld now template given expiry = Inr s"
    and ready: "nothing_left (cp_counters s)"
  shows "list_all (text_complete (ph_numbers h) (cp_mergeValues s))
           (shown_texts (vn_title (lp_version ld)) (cp_sections s))
       \<and> list_all (section_ready (vn_terms (lp_version ld) \<noteq> None)) (cp_sections s)
       \<and> pt_errors (cp_quote s) = [] \<and> pt_blockingValidations (cp_quote s) = []
       \<and> lp_recipients ld \<noteq> []"
proof -
  obtain q where q: "cp_quote s = q" "cp_sections s = vn_sections (lp_version ld)"
    "cp_issues s = state_issues h st ld q (cp_mergeValues s)"
    "cp_blocking s = pt_blockingValidations q @ sections_to_validate (cp_sections s) @ sections_to_reread (cp_sections s)"
    "cp_counters s = state_counters ld q (cp_issues s) (cp_blocking s) (cp_reviewReasons s)"
    using compute_state_Inr [OF state] by metis
  from ready have "count_codes [I_MERGE_TAG, I_UNKNOWN_TAG, I_TO_COMPLETE, I_MISSING_TERMS]
      (state_issues h st ld q (cp_mergeValues s)) = 0"
    and rest: "cp_blocking s = []" "pt_errors q = []" "lp_recipients ld \<noteq> []"
    by (simp_all add: nothing_left_def q(3,5) state_counters_def)
  from no_content_issue [OF this(1)] have none: "content_issues (ph_numbers h) (vn_title (lp_version ld))
      (cp_sections s) (cp_mergeValues s) (vn_terms (lp_version ld) \<noteq> None) = []"
    by (simp add: q(2))
  with content_issues_Nil [OF none] ready_sections [OF none] rest q(1,4) show ?thesis by simp
qed

end
