(* ===== verification/ProposalFile.thy ===== *)
theory ProposalFile
  imports ProposalState GridLines
begin

text \<open>
  What the database holds of one proposal, and what every service does with it: load it
  (\<open>loadProposal\<close>), apply an event (\<open>apps/api/src/proposals/proposal-transition.ts\<close>), cancel its follow-ups,
  record a configuration, refresh its summary.

  A call of a service is one transaction: an error undoes it, so an operation is a function from a
  file to an error or to the new file. Identifiers and tokens drawn at random are arguments. The
  columns that only report (authors, reasons, deliveries, hashes of the documents) are left out.
\<close>

subsection \<open>Rows\<close>

record access_link =
  lk_id :: string
  lk_versionId :: string
  lk_recipientId :: string
  lk_tokenHash :: string
  lk_expiresAt :: jsdate
  lk_revokedAt :: "jsdate option"
  lk_otpHash :: "string option"
  lk_otpExpiresAt :: "jsdate option"
  lk_otpAttempts :: nat
  lk_otpSessionHash :: "string option"
  lk_otpSessionExpiresAt :: "jsdate option"

datatype follow_up_status = FS_PLANNED | FS_SENT | FS_SKIPPED | FS_CANCELLED

record follow_up_row =
  fr_kind :: follow_up_kind
  fr_dueAt :: jsdate
  fr_status :: follow_up_status
  fr_sentAt :: "jsdate option"

datatype webhook_event_type =
    EV_SENT | EV_VIEWED | EV_ACCEPTED | EV_SIGNED | EV_DECLINED | EV_EXPIRED | EV_CONVERTED

record outbound_event =
  ob_type :: webhook_event_type
  ob_status :: proposal_status
  ob_previousStatus :: proposal_status
  ob_versionNumber :: "nat option"
  ob_occurredAt :: jsdate

record price_snapshot =
  sn_versionId :: string
  sn_definition :: proposal_definition
  sn_selection :: selection_input
  sn_engineSchedule :: pricing_schedule
  sn_engineResult :: pricing_result

record acceptance_row =
  ac_versionId :: string
  ac_recipientId :: string
  ac_mode :: acceptance_mode
  ac_emailVerifiedAt :: "jsdate option"
  ac_acceptedAt :: jsdate

record proposal_file =
  pf_proposal :: proposal_row
  pf_versions :: "proposal_version list"
  pf_recipients :: "recipient list"
  pf_selections :: "(string \<times> selection_input) list"
  pf_links :: "access_link list"
  pf_followUps :: "follow_up_row list"
  pf_snapshots :: "price_snapshot list"
  pf_acceptances :: "acceptance_row list"
  pf_outbox :: "outbound_event list"
  pf_template :: "proposal_definition option"
  pf_latestTerms :: "string option"

subsection \<open>Errors\<close>

datatype proposal_failure =
    ProposalNotFound
  | SectionsRefused "sections_issue list"
  | PricingRefused "definition_issue list"
  | ProposalNotEditable
  | GridRefused grid_line_error
  | ElementNotFound
  | EngineError pricing_error
  | DomainError proposal_error
  | ProposalNotReady "readiness_entry list"
  | ProposalNotSent
  | RecipientExists
  | StillReferenced
  | EmptyImport
  | LinkNotFound
  | LinkRevoked
  | LinkExpired
  | OtpRequired
  | OtpExpired
  | OtpLocked
  | OtpInvalid
  | ReaderRefused
  | NotSigner
  | ProposalClosed
  | NotEditableByClient string
  | UnknownOption string
  | UnknownSection
  | Superseded
  | PricingInvalid "config_error list"

definition lift_error :: "('e \<Rightarrow> proposal_failure) \<Rightarrow> 'e + 'a \<Rightarrow> proposal_failure + 'a" where
  "lift_error f r = (case r of Inl e \<Rightarrow> Inl (f e) | Inr x \<Rightarrow> Inr x)"

lemma lift_error_Inr [simp]: "lift_error f r = Inr x \<longleftrightarrow> r = Inr x"
  by (simp add: lift_error_def split: sum.split)

subsection \<open>Loading\<close>

definition find_version :: "proposal_file \<Rightarrow> string \<Rightarrow> proposal_version option" where
  "find_version f i = List.find (\<lambda>v. vn_id v = i) (pf_versions f)"

text \<open>The recipients are kept in the order of their creation, the selections too.\<close>

definition latest_selection :: "proposal_file \<Rightarrow> string \<Rightarrow> selection_input option" where
  "latest_selection f i =
     (case rev (filter (\<lambda>s. fst s = i) (pf_selections f)) of [] \<Rightarrow> None | s # ss \<Rightarrow> Some (snd s))"

definition load_version :: "proposal_file \<Rightarrow> string option \<Rightarrow> proposal_failure + loaded_proposal" where
  "load_version f i =
     (case i of
        None \<Rightarrow> Inl ProposalNotFound
      | Some vid \<Rightarrow>
          (case find_version f vid of
             None \<Rightarrow> Inl ProposalNotFound
           | Some v \<Rightarrow>
               Inr \<lparr>lp_proposal = pf_proposal f, lp_version = v,
                    lp_recipients = sort_key rc_signingOrder (pf_recipients f),
                    lp_latestSelection = latest_selection f (vn_id v)\<rparr>))"

definition load_proposal :: "proposal_file \<Rightarrow> proposal_failure + loaded_proposal" where
  "load_proposal f = load_version f (pw_currentVersionId (pf_proposal f))"

text \<open>The settings of the tenant, the decimals and the host: what every operation is given.\<close>

record 'd proposal_env =
  en_decimals :: "'d decimal_ops"
  en_host :: proposal_host
  en_settings :: proposal_settings

definition state_of ::
    "'d proposal_env \<Rightarrow> proposal_file \<Rightarrow> loaded_proposal \<Rightarrow> jsdate \<Rightarrow> selection_input option \<Rightarrow> string option
     \<Rightarrow> proposal_failure + computed_state" where
  "state_of en f ld now given expiry =
     lift_error EngineError
       (compute_state (en_decimals en) (en_host en) (en_settings en) ld now (pf_template f) given expiry)"

text \<open>The answer of a call shows the computed state: an error of the engine undoes the call.\<close>

definition detail :: "'d proposal_env \<Rightarrow> proposal_file \<Rightarrow> jsdate \<Rightarrow> proposal_failure + proposal_file" where
  "detail en f now =
     ebind (load_proposal f) (\<lambda>ld. ebind (state_of en f ld now None None) (\<lambda>_. Inr f))"

definition set_row :: "(proposal_row \<Rightarrow> proposal_row) \<Rightarrow> proposal_file \<Rightarrow> proposal_file" where
  "set_row g f = f\<lparr>pf_proposal := g (pf_proposal f)\<rparr>"

definition summary :: "proposal_quote \<Rightarrow> proposal_row \<Rightarrow> proposal_row" where
  "summary q p =
     p\<lparr>pw_oneTimeCents := bk_htCents (pt_oneTime q), pw_monthlyCents := bk_htCents (pt_monthly q),
       pw_commitmentTotalCents := bk_htCents (pt_commitment q)\<rparr>"

definition refresh_summary ::
    "'d proposal_env \<Rightarrow> proposal_file \<Rightarrow> jsdate \<Rightarrow> proposal_failure + proposal_file" where
  "refresh_summary en f now =
     ebind (load_proposal f) (\<lambda>ld.
     ebind (state_of en f ld now None None) (\<lambda>s.
       Inr (set_row (\<lambda>p. (summary (cp_quote s) p)\<lparr>pw_reviewRequired := rk_reviewRequired (cp_counters s)\<rparr>) f)))"

definition record_selection :: "proposal_file \<Rightarrow> loaded_proposal \<Rightarrow> computed_state \<Rightarrow> proposal_file" where
  "record_selection f ld s =
     set_row (\<lambda>p. (summary (cp_quote s) p)\<lparr>pw_reviewRequired := rk_reviewRequired (cp_counters s)\<rparr>)
       (f\<lparr>pf_selections := pf_selections f @ [(vn_id (lp_version ld), cp_selection s)]\<rparr>)"

definition update_version :: "proposal_file \<Rightarrow> string \<Rightarrow> (proposal_version \<Rightarrow> proposal_version) \<Rightarrow> proposal_file" where
  "update_version f i g =
     f\<lparr>pf_versions := map (\<lambda>v. if vn_id v = i then g v else v) (pf_versions f)\<rparr>"

subsection \<open>Transitions\<close>

fun PROPOSAL_STATUS_EVENTS :: "proposal_status \<Rightarrow> webhook_event_type option" where
  "PROPOSAL_STATUS_EVENTS P_SENT = Some EV_SENT"
| "PROPOSAL_STATUS_EVENTS P_VIEWED = Some EV_VIEWED"
| "PROPOSAL_STATUS_EVENTS P_ACCEPTED = Some EV_ACCEPTED"
| "PROPOSAL_STATUS_EVENTS P_SIGNED = Some EV_SIGNED"
| "PROPOSAL_STATUS_EVENTS P_DECLINED = Some EV_DECLINED"
| "PROPOSAL_STATUS_EVENTS P_EXPIRED = Some EV_EXPIRED"
| "PROPOSAL_STATUS_EVENTS P_CONVERTED = Some EV_CONVERTED"
| "PROPOSAL_STATUS_EVENTS s = None"

text \<open>\<open>sentAt\<close>, \<open>acceptedAt\<close> and the other time stamps, by status.\<close>

definition stamps_for ::
    "proposal_status \<Rightarrow> jsdate \<Rightarrow> (proposal_status \<times> jsdate) list \<Rightarrow> (proposal_status \<times> jsdate) list" where
  "stamps_for s now stamps =
     (if s \<in> {P_SENT, P_ACCEPTED, P_SIGNED, P_CONVERTED, P_DECLINED, P_EXPIRED, P_WITHDRAWN}
      then map_set s now stamps else stamps)"

definition row_after :: "proposal_row \<Rightarrow> proposal_snapshot \<Rightarrow> jsdate \<Rightarrow> proposal_row" where
  "row_after prior nxt now =
     prior\<lparr>pw_status := ps_status nxt, pw_expiresAt := ps_expiresAt nxt,
       pw_reviewSubmittedByUserId := ps_reviewSubmittedByUserId nxt,
       pw_reviewApprovedVersionId := ps_reviewApprovedVersionId nxt,
       pw_acceptedVersionId := ps_acceptedVersionId nxt,
       pw_stamps := (if ps_status nxt \<noteq> pw_status prior
                     then stamps_for (ps_status nxt) now (pw_stamps prior) else pw_stamps prior),
       pw_updatedAt := now\<rparr>"

definition published ::
    "proposal_file \<Rightarrow> proposal_row \<Rightarrow> proposal_row \<Rightarrow> jsdate \<Rightarrow> outbound_event list" where
  "published f prior updated now =
     (case (if pw_status updated \<noteq> pw_status prior then PROPOSAL_STATUS_EVENTS (pw_status updated) else None) of
        None \<Rightarrow> []
      | Some t \<Rightarrow>
          [\<lparr>ob_type = t, ob_status = pw_status updated, ob_previousStatus = pw_status prior,
            ob_versionNumber = (case pw_currentVersionId updated of
                None \<Rightarrow> None | Some i \<Rightarrow> map_option vn_number (find_version f i)),
            ob_occurredAt = now\<rparr>])"

definition persist_proposal_transition ::
    "proposal_file \<Rightarrow> proposal_event \<Rightarrow> jsdate \<Rightarrow> readiness_counters \<Rightarrow> (proposal_row \<Rightarrow> proposal_row)
     \<Rightarrow> proposal_failure + proposal_file" where
  "persist_proposal_transition f event now readiness extra =
     (let prior = pf_proposal f in
      ebind (lift_error DomainError (apply_proposal_event (to_proposal_snapshot prior readiness) event now)) (\<lambda>nxt.
        let updated = extra (row_after prior nxt now)
        in Inr (f\<lparr>pf_proposal := updated, pf_outbox := pf_outbox f @ published f prior updated now\<rparr>)))"

definition cancel_follow_ups :: "proposal_file \<Rightarrow> proposal_file" where
  "cancel_follow_ups f =
     f\<lparr>pf_followUps := map (\<lambda>r. if fr_status r = FS_PLANNED then r\<lparr>fr_status := FS_CANCELLED\<rparr> else r)
         (pf_followUps f)\<rparr>"

text \<open>\<open>proposals.transition\<close>: every internal event but the sending and the revision.\<close>

definition transition ::
    "'d proposal_env \<Rightarrow> proposal_file \<Rightarrow> proposal_event \<Rightarrow> jsdate \<Rightarrow> proposal_failure + proposal_file" where
  "transition en f event now =
     ebind (load_proposal f) (\<lambda>ld.
     ebind (state_of en f ld now None None) (\<lambda>s.
     ebind (persist_proposal_transition f event now (cp_counters s) (\<lambda>p. p)) (\<lambda>f'.
       detail en (if pe_type event = PT_WITHDRAW \<or> pe_type event = PT_DECLINE then cancel_follow_ups f' else f') now)))"

end
