(* ===== verification/ProposalDrafts.thy ===== *)
theory ProposalDrafts
  imports ProposalFile
begin

text \<open>
  The edition of a proposal by the sales team: \<open>apps/api/src/proposals/proposals.service.ts\<close>. Each
  operation is the transaction of its method, its guards in their order. The items of the price
  grid are read by another service and given; so are the sections read from a Word document.
\<close>

subsection \<open>Sections\<close>

text \<open>\<open>new Map(entries).get(k)\<close>: the last entry of the key.\<close>

definition last_entry :: "('k \<times> 'v) list \<Rightarrow> 'k \<Rightarrow> 'v option" where
  "last_entry entries k = map_of (rev entries) k"

definition validation_of :: "section_row list \<Rightarrow> (string \<times> price_status) list" where
  "validation_of = map (\<lambda>s. (sr_key s, sr_validationStatus s))"

definition ai_state_of :: "section_row list \<Rightarrow> (string \<times> bool \<times> string option) list" where
  "ai_state_of = map (\<lambda>s. (sr_key s, sr_aiPendingReview s, sr_aiSources s))"

definition written_section ::
    "(string \<times> price_status) list \<Rightarrow> (string \<times> bool \<times> string option) list \<Rightarrow> section_input \<Rightarrow> section_row" where
  "written_section validation ai s =
     \<lparr>sr_key = si_key s, sr_title = si_title s, sr_kind = si_kind s,
      sr_optional = (case si_optional s of None \<Rightarrow> False | Some b \<Rightarrow> b),
      sr_excluded = (case si_excluded s of None \<Rightarrow> False | Some b \<Rightarrow> b),
      sr_validationStatus = (case last_entry validation (si_key s) of None \<Rightarrow> PS_VALIDATED | Some v \<Rightarrow> v),
      sr_libraryItemKey = si_libraryItemKey s, sr_guidance = si_guidance s,
      sr_aiPendingReview = (case last_entry ai (si_key s) of None \<Rightarrow> False | Some a \<Rightarrow> fst a),
      sr_aiSources = (case last_entry ai (si_key s) of None \<Rightarrow> None | Some a \<Rightarrow> snd a),
      sr_blocks = si_blocks s\<rparr>"

definition write_sections ::
    "proposal_file \<Rightarrow> string \<Rightarrow> section_input list \<Rightarrow> (string \<times> price_status) list
     \<Rightarrow> (string \<times> bool \<times> string option) list \<Rightarrow> proposal_file" where
  "write_sections f versionId sections validation ai =
     update_version f versionId (\<lambda>v. v\<lparr>vn_sections := map (written_section validation ai) sections\<rparr>)"

definition input_of_row :: "section_row \<Rightarrow> section_input" where
  "input_of_row s =
     \<lparr>si_key = sr_key s, si_title = sr_title s, si_kind = sr_kind s, si_optional = Some (sr_optional s),
      si_excluded = Some (sr_excluded s), si_libraryItemKey = sr_libraryItemKey s,
      si_guidance = sr_guidance s, si_blocks = sr_blocks s\<rparr>"

definition touch :: "jsdate \<Rightarrow> proposal_row \<Rightarrow> proposal_row" where
  "touch now p = p\<lparr>pw_updatedAt := now\<rparr>"

subsection \<open>Edition\<close>

definition EDITABLE :: "proposal_status list" where
  "EDITABLE = [P_DRAFT]"

definition can_edit :: "loaded_proposal \<Rightarrow> bool" where
  "can_edit ld = (pw_status (lp_proposal ld) \<in> set EDITABLE \<and> vn_lockedAt (lp_version ld) = None)"

definition editable :: "proposal_file \<Rightarrow> proposal_failure + loaded_proposal" where
  "editable f =
     ebind (load_proposal f) (\<lambda>ld. if can_edit ld then Inr ld else Inl ProposalNotEditable)"

text \<open>The body of \<open>update\<close>: a field is absent, or given. The probability and the start date, which
  nothing reads here, are left out.\<close>

record update_body =
  ub_title :: "string option"
  ub_acceptanceMode :: "acceptance_mode option"
  ub_validityDays :: "int option"
  ub_fixedExpiryDate :: "jsdate option option"
  ub_sensitive :: "bool option"
  ub_mergeContext :: "(string \<times> context_value) list option"
  ub_followUpsEnabled :: "bool option"
  ub_followUpConfig :: "follow_up_config option option"

definition given :: "'a option \<Rightarrow> 'a \<Rightarrow> 'a" where
  "given new old = (case new of None \<Rightarrow> old | Some x \<Rightarrow> x)"

text \<open>The follow-ups, the probability and the start date are piloted while the proposal lives; every other
  field is content.\<close>

definition content_change :: "update_body \<Rightarrow> bool" where
  "content_change b =
     (ub_title b \<noteq> None \<or> ub_acceptanceMode b \<noteq> None \<or> ub_validityDays b \<noteq> None
      \<or> ub_fixedExpiryDate b \<noteq> None \<or> ub_sensitive b \<noteq> None \<or> ub_mergeContext b \<noteq> None)"

definition updated_row :: "update_body \<Rightarrow> jsdate \<Rightarrow> proposal_row \<Rightarrow> proposal_row" where
  "updated_row b now p =
     p\<lparr>pw_updatedAt := now, pw_title := given (ub_title b) (pw_title p),
       pw_acceptanceMode := given (ub_acceptanceMode b) (pw_acceptanceMode p),
       pw_validityDays := given (ub_validityDays b) (pw_validityDays p),
       pw_fixedExpiryDate := given (ub_fixedExpiryDate b) (pw_fixedExpiryDate p),
       pw_sensitive := given (ub_sensitive b) (pw_sensitive p),
       pw_mergeContext := given (ub_mergeContext b) (pw_mergeContext p),
       pw_followUpsEnabled := given (ub_followUpsEnabled b) (pw_followUpsEnabled p),
       pw_followUpConfig := given (ub_followUpConfig b) (pw_followUpConfig p)\<rparr>"

definition update_proposal ::
    "'d proposal_env \<Rightarrow> proposal_file \<Rightarrow> update_body \<Rightarrow> jsdate \<Rightarrow> proposal_failure + proposal_file" where
  "update_proposal en f b now =
     ebind (load_proposal f) (\<lambda>ld.
       if content_change b \<and> \<not> can_edit ld then Inl ProposalNotEditable
       else
         let f1 = set_row (updated_row b now) f;
             f2 = (case ub_title b of
                     None \<Rightarrow> f1
                   | Some t \<Rightarrow> update_version f1 (vn_id (lp_version ld)) (\<lambda>v. v\<lparr>vn_title := t\<rparr>))
         in ebind (refresh_summary en f2 now) (\<lambda>f3. detail en f3 now))"

definition put_sections ::
    "'d proposal_env \<Rightarrow> proposal_file \<Rightarrow> section_input list \<Rightarrow> jsdate \<Rightarrow> proposal_failure + proposal_file" where
  "put_sections en f sections now =
     (if sections_issues sections \<noteq> [] then Inl (SectionsRefused (sections_issues sections))
      else ebind (editable f) (\<lambda>ld.
        let v = lp_version ld
        in detail en (set_row (touch now)
             (write_sections f (vn_id v) sections (validation_of (vn_sections v)) (ai_state_of (vn_sections v)))) now))"

definition store_definition :: "proposal_file \<Rightarrow> loaded_proposal \<Rightarrow> proposal_definition \<Rightarrow> proposal_file" where
  "store_definition f ld d =
     update_version f (vn_id (lp_version ld)) (\<lambda>v. v\<lparr>vn_pricingDefinition := d\<rparr>)"

definition put_pricing ::
    "'d proposal_env \<Rightarrow> proposal_file \<Rightarrow> proposal_definition \<Rightarrow> jsdate \<Rightarrow> proposal_failure + proposal_file" where
  "put_pricing en f d now =
     (if definition_issues d \<noteq> [] then Inl (PricingRefused (definition_issues d))
      else ebind (editable f) (\<lambda>ld.
        ebind (refresh_summary en
            (store_definition f ld (enforce_price_statuses d (vn_pricingDefinition (lp_version ld)))) now) (\<lambda>f'.
          detail en f' now)))"

definition save_definition ::
    "proposal_file \<Rightarrow> loaded_proposal \<Rightarrow> proposal_definition \<Rightarrow> (string \<times> grid_item) list
     \<Rightarrow> proposal_failure + proposal_file" where
  "save_definition f ld d items =
     (if definition_issues d \<noteq> [] then Inl (PricingRefused (definition_issues d))
      else Inr (store_definition f ld
        (validate_grid_prices (enforce_price_statuses d (vn_pricingDefinition (lp_version ld))) items)))"

text \<open>A key is always found (\<open>free_names_found\<close>).\<close>

definition add_grid_line ::
    "'d proposal_env \<Rightarrow> proposal_file \<Rightarrow> grid_item option \<Rightarrow> proposal_line_kind option \<Rightarrow> rat option
     \<Rightarrow> jsdate \<Rightarrow> proposal_failure + proposal_file" where
  "add_grid_line en f found kind quantity now =
     ebind (editable f) (\<lambda>ld.
       let prev = vn_pricingDefinition (lp_version ld)
       in case found of
            None \<Rightarrow> Inl ElementNotFound
          | Some item \<Rightarrow>
              ebind (lift_error GridRefused (build_grid_line prev item
                  (the (grid_line_key prev (gi_code item))) kind quantity (ph_parisDay (en_host en) now))) (\<lambda>line.
              ebind (save_definition f ld (prev\<lparr>pd_lines := pd_lines prev @ [line]\<rparr>) [(gi_code item, item)]) (\<lambda>f1.
              ebind (refresh_summary en f1 now) (\<lambda>f2. detail en f2 now))))"

definition no_item :: "string \<Rightarrow> grid_item" where
  "no_item code =
     \<lparr>gi_code = code, gi_label = code, gi_unit = ''PER_UNIT'', gi_recurrence = MONTHLY,
      gi_vatRatePercent = ''0'', gi_byMonths = []\<rparr>"

definition grid_items_of ::
    "(string \<Rightarrow> grid_item option) \<Rightarrow> proposal_definition \<Rightarrow> (string \<times> grid_item) list" where
  "grid_items_of grid d =
     map (\<lambda>code. (code, case grid code of None \<Rightarrow> no_item code | Some item \<Rightarrow> item))
       (uniq (concat (map (\<lambda>l. case pp_grid l of None \<Rightarrow> [] | Some g \<Rightarrow> [gr_itemCode g]) (pd_lines d))))"

definition without_choice :: "string \<Rightarrow> selection_input \<Rightarrow> selection_input" where
  "without_choice k s = s\<lparr>sl_choices := filter (\<lambda>c. fst c \<noteq> k) (sl_choices s)\<rparr>"

text \<open>The current configuration names a duration that is no longer offered.\<close>

definition dropped_duration :: "proposal_choice \<Rightarrow> selection_input option \<Rightarrow> bool" where
  "dropped_duration choice sel =
     (case sel of
        None \<Rightarrow> False
      | Some s \<Rightarrow>
          (case map_of (sl_choices s) (ch_key choice) of
             None \<Rightarrow> False
           | Some current \<Rightarrow> \<not> list_ex (\<lambda>x. co_value x = current) (ch_options choice)))"

definition set_commitments ::
    "'d proposal_env \<Rightarrow> proposal_file \<Rightarrow> int list \<Rightarrow> int \<Rightarrow> bool \<Rightarrow> (int \<times> string) list
     \<Rightarrow> (string \<Rightarrow> grid_item option) \<Rightarrow> jsdate \<Rightarrow> proposal_failure + proposal_file" where
  "set_commitments en f months defaultMonths switch labels grid now =
     ebind (editable f) (\<lambda>ld.
       let prev = vn_pricingDefinition (lp_version ld);
           items = grid_items_of grid prev;
           input = \<lparr>ci_months = months, ci_defaultMonths = defaultMonths, ci_switchGridLines = switch,
                    ci_on = ph_parisDay (en_host en) now\<rparr>
       in ebind (lift_error GridRefused (change_commitments prev input labels items)) (\<lambda>nxt.
          ebind (save_definition f ld nxt items) (\<lambda>f1.
          ebind (lift_error GridRefused (commitment_choice_of nxt)) (\<lambda>choice.
          ebind (if dropped_duration choice (lp_latestSelection ld)
                 then ebind (load_proposal f1) (\<lambda>ld1.
                        let sel = without_choice (ch_key choice) (selection_of (lp_latestSelection ld1))
                        in ebind (state_of en f1 ld1 now (Some sel) None) (\<lambda>s. Inr (record_selection f1 ld1 s)))
                 else Inr f1) (\<lambda>f2.
          ebind (refresh_summary en f2 now) (\<lambda>f3. detail en f3 now))))))"

definition validate_price ::
    "'d proposal_env \<Rightarrow> proposal_file \<Rightarrow> validation_target \<Rightarrow> jsdate \<Rightarrow> proposal_failure + proposal_file" where
  "validate_price en f target now =
     ebind (editable f) (\<lambda>ld.
       case validate_in_definition (vn_pricingDefinition (lp_version ld)) target of
         None \<Rightarrow> Inl ElementNotFound
       | Some d \<Rightarrow> ebind (refresh_summary en (store_definition f ld d) now) (\<lambda>f'. detail en f' now))"

record selection_body =
  sb_choices :: "(string \<times> string) list option"
  sb_quantities :: "(string \<times> rat) list option"
  sb_selectedOptions :: "string list option"

definition spread :: "(string \<times> 'v) list \<Rightarrow> (string \<times> 'v) list option \<Rightarrow> (string \<times> 'v) list" where
  "spread old new = (case new of None \<Rightarrow> old | Some kvs \<Rightarrow> foldl (\<lambda>acc (k, v). map_set k v acc) old kvs)"

definition merged_selection :: "selection_input \<Rightarrow> selection_body \<Rightarrow> selection_input" where
  "merged_selection prev b =
     \<lparr>sl_choices = spread (sl_choices prev) (sb_choices b),
      sl_quantities = spread (sl_quantities prev) (sb_quantities b),
      sl_selectedOptions = given (sb_selectedOptions b) (sl_selectedOptions prev)\<rparr>"

definition set_selection ::
    "'d proposal_env \<Rightarrow> proposal_file \<Rightarrow> selection_body \<Rightarrow> jsdate \<Rightarrow> proposal_failure + proposal_file" where
  "set_selection en f b now =
     ebind (load_proposal f) (\<lambda>ld.
       if pw_status (lp_proposal ld) \<notin> {P_DRAFT, P_READY} then Inl ProposalNotEditable
       else ebind (state_of en f ld now (Some (merged_selection (selection_of (lp_latestSelection ld)) b)) None) (\<lambda>s.
         detail en (record_selection f ld s) now))"

definition before_sending :: "proposal_status set" where
  "before_sending = {P_DRAFT, P_READY, P_IN_INTERNAL_REVIEW}"

text \<open>One recipient by address (a unique index); \<open>foundContact\<close> tells whether the contact named is one of
  the customer.\<close>

definition add_recipient ::
    "'d proposal_env \<Rightarrow> proposal_file \<Rightarrow> recipient \<Rightarrow> bool \<Rightarrow> jsdate \<Rightarrow> proposal_failure + proposal_file" where
  "add_recipient en f r foundContact now =
     ebind (load_proposal f) (\<lambda>ld.
       if pw_status (lp_proposal ld) \<notin> before_sending then Inl ProposalNotEditable
       else if \<not> foundContact then Inl ElementNotFound
       else if list_ex (\<lambda>x. rc_email x = rc_email r) (pf_recipients f) then Inl RecipientExists
       else detail en (f\<lparr>pf_recipients := pf_recipients f @ [r]\<rparr>) now)"

text \<open>The foreign key of the links keeps a recipient who was ever sent one.\<close>

definition remove_recipient ::
    "'d proposal_env \<Rightarrow> proposal_file \<Rightarrow> string \<Rightarrow> jsdate \<Rightarrow> proposal_failure + proposal_file" where
  "remove_recipient en f recipientId now =
     ebind (load_proposal f) (\<lambda>ld.
       if pw_status (lp_proposal ld) \<notin> before_sending then Inl ProposalNotEditable
       else if \<not> list_ex (\<lambda>x. rc_id x = recipientId) (pf_recipients f) then Inl ElementNotFound
       else if list_ex (\<lambda>l. lk_recipientId l = recipientId) (pf_links f) then Inl StillReferenced
       else detail en (f\<lparr>pf_recipients := filter (\<lambda>x. rc_id x \<noteq> recipientId) (pf_recipients f)\<rparr>) now)"

text \<open>\<open>updateMany\<close> on the sections of the version: nothing found is an error.\<close>

definition update_sections ::
    "'d proposal_env \<Rightarrow> proposal_file \<Rightarrow> (section_row \<Rightarrow> bool) \<Rightarrow> (section_row \<Rightarrow> section_row) \<Rightarrow> jsdate
     \<Rightarrow> proposal_failure + proposal_file" where
  "update_sections en f P g now =
     ebind (editable f) (\<lambda>ld.
       if \<not> list_ex P (vn_sections (lp_version ld)) then Inl ElementNotFound
       else detail en (set_row (touch now)
         (update_version f (vn_id (lp_version ld))
            (\<lambda>v. v\<lparr>vn_sections := map (\<lambda>s. if P s then g s else s) (vn_sections v)\<rparr>))) now)"

definition validate_section ::
    "'d proposal_env \<Rightarrow> proposal_file \<Rightarrow> string \<Rightarrow> jsdate \<Rightarrow> proposal_failure + proposal_file" where
  "validate_section en f key now =
     update_sections en f (\<lambda>s. sr_key s = key \<and> sr_validationStatus s = PS_TO_VALIDATE)
       (\<lambda>s. s\<lparr>sr_validationStatus := PS_VALIDATED\<rparr>) now"

definition validate_ai_section ::
    "'d proposal_env \<Rightarrow> proposal_file \<Rightarrow> string \<Rightarrow> jsdate \<Rightarrow> proposal_failure + proposal_file" where
  "validate_ai_section en f key now =
     update_sections en f (\<lambda>s. sr_key s = key \<and> sr_aiPendingReview s)
       (\<lambda>s. s\<lparr>sr_aiPendingReview := False\<rparr>) now"

subsection \<open>Sections written by the AI or imported\<close>

record drafted_section =
  dr_key :: string
  dr_title :: string
  dr_markdown :: string

definition drafted_blocks :: "drafted_section \<Rightarrow> block list" where
  "drafted_blocks d = [RICH_TEXT (dr_markdown d) None None]"

text \<open>After the last cover, and after the sections inserted before.\<close>

fun after_covers :: "nat \<Rightarrow> nat \<Rightarrow> section_input list \<Rightarrow> nat" where
  "after_covers i acc [] = acc"
| "after_covers i acc (s # ss) = after_covers (Suc i) (if si_kind s = SK_COVER then Suc i else acc) ss"

definition insert_section :: "nat \<Rightarrow> section_input \<Rightarrow> section_input list \<Rightarrow> section_input list" where
  "insert_section i s ss = take i ss @ [s] @ drop i ss"

definition replace_section :: "drafted_section \<Rightarrow> section_input \<Rightarrow> section_input" where
  "replace_section d s = s\<lparr>si_title := dr_title d, si_blocks := drafted_blocks d, si_excluded := Some False\<rparr>"

fun replace_first :: "('a \<Rightarrow> bool) \<Rightarrow> ('a \<Rightarrow> 'a) \<Rightarrow> 'a list \<Rightarrow> 'a list" where
  "replace_first P g [] = []"
| "replace_first P g (x # xs) = (if P x then g x # xs else x # replace_first P g xs)"

text \<open>The state of the loop: the sections, and how many were inserted.\<close>

definition place_draft ::
    "nat \<Rightarrow> section_input list \<times> nat \<Rightarrow> drafted_section \<Rightarrow> section_input list \<times> nat" where
  "place_draft insertAt st d =
     (let (ss, offset) = st in
      if list_ex (\<lambda>s. si_key s = dr_key d) ss
      then (replace_first (\<lambda>s. si_key s = dr_key d) (replace_section d) ss, offset)
      else (insert_section (insertAt + offset)
              \<lparr>si_key = dr_key d, si_title = dr_title d, si_kind = SK_TEXT, si_optional = None,
               si_excluded = None, si_libraryItemKey = None, si_guidance = None,
               si_blocks = drafted_blocks d\<rparr> ss, Suc offset))"

definition apply_ai_sections ::
    "'d proposal_env \<Rightarrow> proposal_file \<Rightarrow> drafted_section list \<Rightarrow> string option \<Rightarrow> jsdate
     \<Rightarrow> proposal_failure + proposal_file" where
  "apply_ai_sections en f drafted sources now =
     ebind (editable f) (\<lambda>ld.
       let rows = vn_sections (lp_version ld);
           existing = map input_of_row rows;
           sections = fst (foldl (place_draft (after_covers 0 0 existing)) (existing, 0) drafted);
           ai = ai_state_of rows @ map (\<lambda>d. (dr_key d, True, sources)) drafted
       in detail en (set_row (touch now)
            (write_sections f (vn_id (lp_version ld)) sections (validation_of rows) ai)) now)"

definition import_docx ::
    "'d proposal_env \<Rightarrow> proposal_file \<Rightarrow> section_input list \<Rightarrow> jsdate \<Rightarrow> proposal_failure + proposal_file" where
  "import_docx en f imported now =
     (if imported = [] then Inl EmptyImport
      else ebind (editable f) (\<lambda>ld.
        let rows = vn_sections (lp_version ld);
            existing = map input_of_row rows;
            keys = map si_key (filter (\<lambda>s. si_kind s \<noteq> SK_TEXT) existing);
            cover = filter (\<lambda>s. si_kind s = SK_COVER) existing;
            rest = filter (\<lambda>s. si_kind s \<noteq> SK_COVER \<and> si_kind s \<noteq> SK_TEXT) existing;
            renamed = map (\<lambda>s. if si_key s \<in> set keys then s\<lparr>si_key := ''import-'' @ si_key s\<rparr> else s) imported
        in detail en (set_row (touch now)
             (write_sections f (vn_id (lp_version ld)) (cover @ renamed @ rest) (validation_of rows)
               (ai_state_of rows))) now))"

end
