(* ===== verification/ProposalSending.thy ===== *)
theory ProposalSending
  imports ProposalDrafts
begin

text \<open>
  Sending a proposal, sending it again, revising it (\<open>apps/api/src/proposals/proposal-send.service.ts\<close>) and the jobs
  that expire it and remind the client (\<open>proposal-jobs.service.ts\<close>). The PDF and the e-mails, which
  come after the transaction and cannot undo it, are not modelled. A new link is the identifier and
  the hash of the token drawn for a recipient.
\<close>

type_synonym new_token = "recipient \<Rightarrow> string \<times> string"

definition DAY :: int where
  "DAY = 86400000"

subsection \<open>End of a day in Paris\<close>

text \<open>\<open>new Date(`${day}T00:00:00Z`)\<close> of a day \<open>YYYY-MM-DD\<close>, and the instants tried by \<open>parisEndOfDay\<close>.\<close>

definition utc_day_of :: "string \<Rightarrow> jsdate" where
  "utc_day_of d0 =
     make_day (int (digits_val (take 4 d0))) (int (digits_val (take 2 (drop 5 d0))) - 1)
       (int (digits_val (drop 8 d0))) * ms_per_day"

definition ends_day :: "proposal_host \<Rightarrow> string \<Rightarrow> jsdate \<Rightarrow> bool" where
  "ends_day h d0 d = (ph_parisDay h d = d0 \<and> ph_parisDay h (d + 1) \<noteq> d0)"

definition paris_end_of_day :: "proposal_host \<Rightarrow> string \<Rightarrow> jsdate" where
  "paris_end_of_day h d0 =
     (let end_utc = utc_day_of d0 + DAY - 1;
          winter = end_utc - 3600000;
          summer = end_utc - 7200000
      in if ends_day h d0 winter then winter
         else if ends_day h d0 summer then summer else end_utc - 3600000)"

subsection \<open>Links and follow-ups\<close>

definition revoke_links :: "(access_link \<Rightarrow> bool) \<Rightarrow> jsdate \<Rightarrow> proposal_file \<Rightarrow> proposal_file" where
  "revoke_links P now f =
     f\<lparr>pf_links := map (\<lambda>l. if lk_revokedAt l = None \<and> P l then l\<lparr>lk_revokedAt := Some now\<rparr> else l) (pf_links f)\<rparr>"

definition new_link :: "string \<Rightarrow> jsdate \<Rightarrow> new_token \<Rightarrow> recipient \<Rightarrow> access_link" where
  "new_link versionId expiresAt fresh r =
     \<lparr>lk_id = fst (fresh r), lk_versionId = versionId, lk_recipientId = rc_id r,
      lk_tokenHash = snd (fresh r), lk_expiresAt = expiresAt, lk_revokedAt = None,
      lk_otpHash = None, lk_otpExpiresAt = None, lk_otpAttempts = 0,
      lk_otpSessionHash = None, lk_otpSessionExpiresAt = None\<rparr>"

definition create_links ::
    "string \<Rightarrow> jsdate \<Rightarrow> new_token \<Rightarrow> recipient list \<Rightarrow> proposal_file \<Rightarrow> proposal_file" where
  "create_links versionId expiresAt fresh rs f =
     f\<lparr>pf_links := pf_links f @ map (new_link versionId expiresAt fresh) rs\<rparr>"

text \<open>\<open>createMany\<close> with \<open>skipDuplicates\<close>: a follow-up of the same kind and due date, whatever its status,
  is kept and the new one is not written.\<close>

definition add_follow_up :: "follow_up_row list \<Rightarrow> follow_up_kind \<times> jsdate \<Rightarrow> follow_up_row list" where
  "add_follow_up rows plan =
     (if list_ex (\<lambda>r. fr_kind r = fst plan \<and> fr_dueAt r = snd plan) rows then rows
      else rows @ [\<lparr>fr_kind = fst plan, fr_dueAt = snd plan, fr_status = FS_PLANNED, fr_sentAt = None\<rparr>])"

definition follow_up_settings :: "proposal_settings \<Rightarrow> proposal_row \<Rightarrow> follow_up_config" where
  "follow_up_settings st p =
     (case pw_followUpConfig p of
        Some c \<Rightarrow> c
      | None \<Rightarrow> (case pg_followUps st of Some c \<Rightarrow> c | None \<Rightarrow> DEFAULT_FOLLOW_UPS))"

definition add_follow_ups ::
    "proposal_settings \<Rightarrow> proposal_row \<Rightarrow> jsdate \<Rightarrow> jsdate \<Rightarrow> proposal_file \<Rightarrow> proposal_file" where
  "add_follow_ups st p now expiresAt f =
     (if pw_followUpsEnabled p
      then f\<lparr>pf_followUps := foldl add_follow_up (pf_followUps f)
                (plan_follow_ups now expiresAt (follow_up_settings st p))\<rparr>
      else f)"

subsection \<open>Sending\<close>

definition send_expiry :: "proposal_host \<Rightarrow> proposal_row \<Rightarrow> proposal_version \<Rightarrow> jsdate \<Rightarrow> jsdate" where
  "send_expiry h p v now =
     (case (vn_lockedAt v, pw_expiresAt p) of
        (Some lockedAt, Some e) \<Rightarrow>
          if e > now then e
          else (case pw_fixedExpiryDate p of
                  Some d \<Rightarrow> paris_end_of_day h (iso_date d) | None \<Rightarrow> now + pw_validityDays p * DAY)
      | _ \<Rightarrow> (case pw_fixedExpiryDate p of
                Some d \<Rightarrow> paris_end_of_day h (iso_date d) | None \<Rightarrow> now + pw_validityDays p * DAY))"

definition freeze_version ::
    "'d proposal_env \<Rightarrow> proposal_file \<Rightarrow> loaded_proposal \<Rightarrow> jsdate \<Rightarrow> jsdate \<Rightarrow> proposal_failure + proposal_file" where
  "freeze_version en f ld expiresAt now =
     (if vn_lockedAt (lp_version ld) \<noteq> None then Inr f
      else ebind (state_of en f ld now None (Some (ph_parisDay (en_host en) expiresAt))) (\<lambda>frozen.
        Inr (update_version f (vn_id (lp_version ld)) (\<lambda>v.
          v\<lparr>vn_mergeValues := Some (cp_mergeValues frozen), vn_pricingDefinition := cp_definition frozen,
            vn_lockedAt := Some now\<rparr>))))"

definition send ::
    "'d proposal_env \<Rightarrow> proposal_file \<Rightarrow> new_token \<Rightarrow> jsdate \<Rightarrow> proposal_failure + proposal_file" where
  "send en f fresh now =
     ebind (load_proposal f) (\<lambda>ld.
     ebind (state_of en f ld now None None) (\<lambda>s.
       if \<not> nothing_left (cp_counters s) then Inl (ProposalNotReady (cp_issues s))
       else
         let p = lp_proposal ld; v = lp_version ld; expiresAt = send_expiry (en_host en) p v now
         in ebind (freeze_version en f ld expiresAt now) (\<lambda>f1.
            let f2 = create_links (vn_id v) (expiresAt + pg_linkGraceDays (en_settings en) * DAY) fresh
                       (lp_recipients ld) (revoke_links (\<lambda>_. True) now f1)
            in ebind (persist_proposal_transition f2 (PE_SEND expiresAt) now (cp_counters s) (\<lambda>r. r)) (\<lambda>f3.
                 Inr (add_follow_ups (en_settings en) p now expiresAt (cancel_follow_ups f3))))))"

definition OPEN_STATUSES :: "proposal_status set" where
  "OPEN_STATUSES = {P_SENT, P_VIEWED, P_IN_DISCUSSION}"

definition resend ::
    "'d proposal_env \<Rightarrow> proposal_file \<Rightarrow> string option \<Rightarrow> new_token \<Rightarrow> jsdate \<Rightarrow> proposal_failure + proposal_file" where
  "resend en f recipientId fresh now =
     ebind (load_proposal f) (\<lambda>ld.
       case pw_expiresAt (lp_proposal ld) of
         None \<Rightarrow> Inl ProposalNotSent
       | Some e \<Rightarrow>
           if pw_status (lp_proposal ld) \<notin> OPEN_STATUSES then Inl ProposalNotSent
           else
             let targets = filter (\<lambda>r. js_falsy recipientId \<or> Some (rc_id r) = recipientId) (lp_recipients ld)
             in if targets = [] then Inl ElementNotFound
                else Inr (create_links (vn_id (lp_version ld)) (e + pg_linkGraceDays (en_settings en) * DAY) fresh targets
                  (revoke_links (\<lambda>l. lk_recipientId l \<in> set (map rc_id targets)) now f)))"

text \<open>The new version of a revision: the sections are written again without the state of the AI review
  (the argument \<open>ai\<close> of \<open>writeSections\<close> is left to its default).\<close>

definition next_version :: "proposal_file \<Rightarrow> proposal_version \<Rightarrow> string \<Rightarrow> proposal_version" where
  "next_version f v nextId =
     \<lparr>vn_id = nextId, vn_number = vn_number v + 1, vn_title = vn_title v,
      vn_pricingDefinition = vn_pricingDefinition v, vn_pricingSettings = vn_pricingSettings v,
      vn_sections = map (written_section (validation_of (vn_sections v)) []) (map input_of_row (vn_sections v)),
      vn_terms = (case pf_latestTerms f of Some t \<Rightarrow> Some t | None \<Rightarrow> vn_terms v),
      vn_mergeValues = None, vn_lockedAt = None, vn_supersededAt = None\<rparr>"

definition revise ::
    "'d proposal_env \<Rightarrow> proposal_file \<Rightarrow> string \<Rightarrow> string \<Rightarrow> jsdate \<Rightarrow> proposal_failure + proposal_file" where
  "revise en f reason nextId now =
     ebind (load_proposal f) (\<lambda>ld.
     ebind (state_of en f ld now None None) (\<lambda>s.
     ebind (persist_proposal_transition f (PE_REVISE reason) now (cp_counters s) (\<lambda>r. r)) (\<lambda>f1.
       let v = lp_version ld in
       if vn_lockedAt v = None then Inr f1
       else
         let f2 = cancel_follow_ups (revoke_links (\<lambda>_. True) now
                    (update_version f1 (vn_id v) (\<lambda>x. x\<lparr>vn_supersededAt := Some now\<rparr>)));
             f3 = f2\<lparr>pf_versions := pf_versions f2 @ [next_version f v nextId],
                     pf_selections := pf_selections f2 @
                       (case lp_latestSelection ld of None \<Rightarrow> [] | Some sel \<Rightarrow> [(nextId, sel)])\<rparr>
         in Inr (set_row (\<lambda>p. p\<lparr>pw_currentVersionId := Some nextId, pw_updatedAt := now\<rparr>) f3))))"

definition reactivate ::
    "'d proposal_env \<Rightarrow> proposal_file \<Rightarrow> string \<Rightarrow> string \<Rightarrow> jsdate \<Rightarrow> proposal_failure + proposal_file" where
  "reactivate en f reason expiresOn now =
     transition en f (PE_REACTIVATE (paris_end_of_day (en_host en) expiresOn) reason) now"

subsection \<open>Jobs\<close>

definition expire_proposal :: "proposal_file \<Rightarrow> jsdate \<Rightarrow> proposal_failure + proposal_file" where
  "expire_proposal f now =
     (if pw_status (pf_proposal f) \<notin> OPEN_STATUSES then Inr f
      else ebind (persist_proposal_transition f PE_EXPIRE now NEUTRAL_READINESS (\<lambda>r. r)) (\<lambda>f'.
        Inr (cancel_follow_ups f')))"

definition last_follow_up :: "proposal_file \<Rightarrow> jsdate option" where
  "last_follow_up f =
     foldl (\<lambda>acc r. case (if fr_status r = FS_SENT then fr_sentAt r else None) of
                None \<Rightarrow> acc
              | Some t \<Rightarrow> Some (case acc of None \<Rightarrow> t | Some u \<Rightarrow> max t u)) None (pf_followUps f)"

definition follow_up_context_of :: "proposal_file \<Rightarrow> follow_up_context" where
  "follow_up_context_of f =
     (let p = pf_proposal f in
      \<lparr>fx_status = pw_status p, fx_enabled = pw_followUpsEnabled p, fx_firstViewedAt = pw_firstViewedAt p,
       fx_clientRespondedAt = pw_clientRespondedAt p, fx_lastFollowUpSentAt = last_follow_up f,
       fx_expiresAt = pw_expiresAt p\<rparr>)"

definition set_follow_up ::
    "nat \<Rightarrow> (follow_up_row \<Rightarrow> follow_up_row) \<Rightarrow> proposal_file \<Rightarrow> proposal_file" where
  "set_follow_up i g f = f\<lparr>pf_followUps := (pf_followUps f)[i := g (pf_followUps f ! i)]\<rparr>"

text \<open>The follow-up is named by its place in the list.\<close>

definition follow_up :: "'d proposal_env \<Rightarrow> proposal_file \<Rightarrow> nat \<Rightarrow> new_token \<Rightarrow> jsdate \<Rightarrow> proposal_file" where
  "follow_up en f i fresh now =
     (if i \<ge> length (pf_followUps f) \<or> fr_status (pf_followUps f ! i) \<noteq> FS_PLANNED then f
      else case decide_follow_up (fr_kind (pf_followUps f ! i)) (follow_up_context_of f) now of
             SKIP reason \<Rightarrow> set_follow_up i (\<lambda>r. r\<lparr>fr_status := FS_SKIPPED\<rparr>) f
           | POSTPONE until \<Rightarrow> set_follow_up i (\<lambda>r. r\<lparr>fr_dueAt := until\<rparr>) f
           | SEND \<Rightarrow>
               (case pw_currentVersionId (pf_proposal f) of
                  None \<Rightarrow> f
                | Some v \<Rightarrow>
                    let e = (case pw_expiresAt (pf_proposal f) of None \<Rightarrow> now | Some e \<Rightarrow> e)
                    in set_follow_up i (\<lambda>r. r\<lparr>fr_status := FS_SENT, fr_sentAt := Some now\<rparr>)
                         (create_links v (e + pg_linkGraceDays (en_settings en) * DAY) fresh (pf_recipients f)
                            (revoke_links (\<lambda>_. True) now f))))"

end
