(* ===== verification/ProposalPublic.thy ===== *)
theory ProposalPublic
  imports ProposalSending
begin

text \<open>
  The public page of a proposal, opened by the link of a recipient:
  \<open>apps/api/src/proposals/proposal-public.service.ts\<close> and the tokens of \<open>proposal-links.ts\<close>. The tracking of the reader,
  the comments themselves, the notices and the start of the signature, which follow the transaction,
  are left out; so is the flag that enables the module. A call is one step: \<open>select\<close> checks that the
  proposal is open and writes in two transactions, and a sale closed in between is not seen.
\<close>

subsection \<open>Tokens\<close>

definition is_token_char :: "char \<Rightarrow> bool" where
  "is_token_char c =
     (let n = of_char c :: nat
      in (65 \<le> n \<and> n \<le> 90) \<or> (97 \<le> n \<and> n \<le> 122) \<or> is_digit c \<or> c = CHR ''_'' \<or> c = CHR ''-'')"

definition token_shape :: "string \<Rightarrow> bool" where
  "token_shape t = (length t = 43 \<and> list_all is_token_char t)"

definition hash_token :: "proposal_host \<Rightarrow> string \<Rightarrow> string" where
  "hash_token h t = ph_sha h t"

definition otp_hash :: "proposal_host \<Rightarrow> string \<Rightarrow> string \<Rightarrow> string" where
  "otp_hash h linkId code = ph_sha h (linkId @ '':'' @ code)"

definition same_hash :: "string option \<Rightarrow> string \<Rightarrow> bool" where
  "same_hash a b =
     (case a of None \<Rightarrow> False | Some x \<Rightarrow> x \<noteq> [] \<and> length x = length b \<and> x = b)"

definition OTP_TTL_MS :: int where "OTP_TTL_MS = 10 * 60 * 1000"

definition OTP_SESSION_TTL_MS :: int where "OTP_SESSION_TTL_MS = 60 * 60 * 1000"

definition OTP_MAX_ATTEMPTS :: nat where "OTP_MAX_ATTEMPTS = 5"

subsection \<open>The link\<close>

definition find_link :: "proposal_file \<Rightarrow> (access_link \<Rightarrow> bool) \<Rightarrow> access_link option" where
  "find_link f P = List.find P (pf_links f)"

definition resolve ::
    "proposal_host \<Rightarrow> proposal_file \<Rightarrow> string \<Rightarrow> jsdate \<Rightarrow> proposal_failure + access_link" where
  "resolve h f token now =
     (if \<not> token_shape token then Inl LinkNotFound
      else case find_link f (\<lambda>l. lk_tokenHash l = hash_token h token) of
             None \<Rightarrow> Inl LinkNotFound
           | Some l \<Rightarrow>
               if lk_revokedAt l \<noteq> None then Inl LinkRevoked
               else if lk_expiresAt l \<le> now then Inl LinkExpired else Inr l)"

definition otp_verified :: "proposal_host \<Rightarrow> access_link \<Rightarrow> string option \<Rightarrow> jsdate \<Rightarrow> bool" where
  "otp_verified h l session now =
     (case session of
        None \<Rightarrow> False
      | Some s \<Rightarrow>
          s \<noteq> [] \<and> (case lk_otpSessionExpiresAt l of None \<Rightarrow> False | Some e \<Rightarrow> e > now)
          \<and> same_hash (lk_otpSessionHash l) (hash_token h s))"

record public_view =
  pu_version :: proposal_version
  pu_recipient :: recipient
  pu_latestSelection :: "selection_input option"

definition load_for_link :: "proposal_file \<Rightarrow> access_link \<Rightarrow> proposal_failure + public_view" where
  "load_for_link f l =
     (case (find_version f (lk_versionId l), List.find (\<lambda>r. rc_id r = lk_recipientId l) (pf_recipients f)) of
        (Some v, Some r) \<Rightarrow>
          Inr \<lparr>pu_version = v, pu_recipient = r, pu_latestSelection = latest_selection f (vn_id v)\<rparr>
      | _ \<Rightarrow> Inl LinkNotFound)"

definition public_quote ::
    "'d proposal_env \<Rightarrow> proposal_row \<Rightarrow> proposal_version \<Rightarrow> selection_input \<Rightarrow> jsdate
     \<Rightarrow> proposal_failure + proposal_quote" where
  "public_quote en p v sel now =
     lift_error EngineError (quote_proposal (en_decimals en) (vn_pricingDefinition v)
       \<lparr>ps_choices = sl_choices sel, ps_quantities = sl_quantities sel,
        ps_selectedOptions = sl_selectedOptions sel, ps_context = pricing_context_of (pw_mergeContext p)\<rparr>
       \<lparr>qo_date = ph_parisDay (en_host en) now, qo_settings = vn_pricingSettings v, qo_scheduleId = None\<rparr>)"

definition is_open :: "proposal_row \<Rightarrow> proposal_version \<Rightarrow> jsdate \<Rightarrow> bool" where
  "is_open p v now =
     (pw_status p \<in> OPEN_STATUSES
      \<and> (case pw_expiresAt p of None \<Rightarrow> True | Some e \<Rightarrow> e > now)
      \<and> vn_supersededAt v = None \<and> Some (vn_id v) = pw_currentVersionId p)"

subsection \<open>What the page shows\<close>

record page_actions =
  pa_canConfigure :: bool
  pa_canComment :: bool
  pa_canDecline :: bool
  pa_canAccept :: bool
  pa_acceptRequiresOtp :: bool

text \<open>A sensitive proposal without its code shows no content: \<open>None\<close>.\<close>

definition view_actions ::
    "'d proposal_env \<Rightarrow> proposal_file \<Rightarrow> string \<Rightarrow> string option \<Rightarrow> jsdate
     \<Rightarrow> proposal_failure + (proposal_quote \<times> page_actions) option" where
  "view_actions en f token session now =
     ebind (resolve (en_host en) f token now) (\<lambda>l.
     ebind (load_for_link f l) (\<lambda>d.
       let p = pf_proposal f; v = pu_version d; open_now = is_open p v now;
           decider = (rc_role (pu_recipient d) \<noteq> READER)
       in if pw_sensitive p \<and> \<not> otp_verified (en_host en) l session now then Inr None
          else ebind (public_quote en p v (selection_of (pu_latestSelection d)) now) (\<lambda>q.
            Inr (Some (q, \<lparr>pa_canConfigure = open_now,
                           pa_canComment = (open_now \<or> pw_status p = P_ACCEPTED),
                           pa_canDecline = (open_now \<and> decider),
                           pa_canAccept = (open_now \<and> decider \<and> pt_errors q = []),
                           pa_acceptRequiresOtp = (pw_acceptanceMode p = CLICK_ACCEPT)\<rparr>)))))"

text \<open>\<open>track\<close>: the first opening moves a sent proposal to viewed.\<close>

definition track ::
    "'d proposal_env \<Rightarrow> proposal_file \<Rightarrow> string \<Rightarrow> bool \<Rightarrow> jsdate \<Rightarrow> proposal_failure + proposal_file" where
  "track en f token opened now =
     ebind (resolve (en_host en) f token now) (\<lambda>l.
     ebind (if opened \<and> pw_status (pf_proposal f) = P_SENT
            then persist_proposal_transition f PE_VIEW now NEUTRAL_READINESS (\<lambda>r. r) else Inr f) (\<lambda>f'.
       Inr (set_row (\<lambda>p. p\<lparr>pw_firstViewedAt :=
              (if opened \<and> pw_firstViewedAt p = None then Some now else pw_firstViewedAt p)\<rparr>) f')))"

subsection \<open>Configuration by the client\<close>

definition choice_editable :: "proposal_definition \<Rightarrow> string \<Rightarrow> bool" where
  "choice_editable d k =
     (case find_choice (pd_choices d) k of None \<Rightarrow> False | Some c \<Rightarrow> ch_editableByClient c)"

definition quantity_editable :: "proposal_definition \<Rightarrow> string \<Rightarrow> bool" where
  "quantity_editable d k =
     (case line_of d k of
        None \<Rightarrow> False
      | Some l \<Rightarrow> (case pp_quantity l of None \<Rightarrow> False | Some q \<Rightarrow> pq_editableByClient q))"

definition option_line :: "proposal_definition \<Rightarrow> string \<Rightarrow> bool" where
  "option_line d k = (case line_of d k of None \<Rightarrow> False | Some l \<Rightarrow> pp_kind l = LK_OPTIONAL)"

definition given_keys :: "(string \<times> 'v) list option \<Rightarrow> string list" where
  "given_keys o' = (case o' of None \<Rightarrow> [] | Some kvs \<Rightarrow> map fst kvs)"

definition refused_keys ::
    "(string \<Rightarrow> bool) \<Rightarrow> (string \<Rightarrow> proposal_failure) \<Rightarrow> string list \<Rightarrow> proposal_failure + unit" where
  "refused_keys ok failure ks =
     (case List.find (\<lambda>k. \<not> ok k) ks of None \<Rightarrow> Inr () | Some k \<Rightarrow> Inl (failure k))"

definition public_select ::
    "'d proposal_env \<Rightarrow> proposal_file \<Rightarrow> string \<Rightarrow> string option \<Rightarrow> selection_body \<Rightarrow> jsdate
     \<Rightarrow> proposal_failure + proposal_file" where
  "public_select en f token session b now =
     ebind (resolve (en_host en) f token now) (\<lambda>l.
     ebind (load_for_link f l) (\<lambda>d.
       let p = pf_proposal f; v = pu_version d; def = vn_pricingDefinition v in
       if pw_sensitive p \<and> \<not> otp_verified (en_host en) l session now then Inl OtpRequired
       else if \<not> is_open p v now then Inl ProposalClosed
       else
         ebind (refused_keys (choice_editable def) NotEditableByClient (given_keys (sb_choices b))) (\<lambda>_.
         ebind (refused_keys (quantity_editable def) NotEditableByClient (given_keys (sb_quantities b))) (\<lambda>_.
         ebind (refused_keys (option_line def) UnknownOption (given (sb_selectedOptions b) [])) (\<lambda>_.
           let sel = merged_selection (selection_of (pu_latestSelection d)) b
           in ebind (public_quote en p v sel now) (\<lambda>q.
              Inr (set_row (summary q) (f\<lparr>pf_selections := pf_selections f @ [(vn_id v, sel)]\<rparr>))))))))"

subsection \<open>Questions and refusal\<close>

definition comment ::
    "'d proposal_env \<Rightarrow> proposal_file \<Rightarrow> string \<Rightarrow> string option \<Rightarrow> string option \<Rightarrow> jsdate
     \<Rightarrow> proposal_failure + proposal_file" where
  "comment en f token session sectionKey now =
     ebind (resolve (en_host en) f token now) (\<lambda>l.
     ebind (load_for_link f l) (\<lambda>d.
       let p = pf_proposal f; v = pu_version d in
       if pw_sensitive p \<and> \<not> otp_verified (en_host en) l session now then Inl OtpRequired
       else if \<not> is_open p v now \<and> pw_status p \<noteq> P_ACCEPTED then Inl ProposalClosed
       else if \<not> js_falsy sectionKey \<and> \<not> list_ex (\<lambda>s. Some (sr_key s) = sectionKey) (vn_sections v)
       then Inl UnknownSection
       else
         ebind (if pw_status p = P_SENT
                then persist_proposal_transition f PE_VIEW now NEUTRAL_READINESS (\<lambda>r. r) else Inr f) (\<lambda>f1.
         ebind (if pw_status p = P_SENT \<or> pw_status p = P_VIEWED
                then persist_proposal_transition f1 PE_OPEN_DISCUSSION now NEUTRAL_READINESS (\<lambda>r. r)
                else Inr f1) (\<lambda>f2.
           Inr (set_row (\<lambda>r. r\<lparr>pw_clientRespondedAt := Some now\<rparr>) f2)))))"

definition decline ::
    "'d proposal_env \<Rightarrow> proposal_file \<Rightarrow> string \<Rightarrow> string option \<Rightarrow> string \<Rightarrow> string \<Rightarrow> jsdate
     \<Rightarrow> proposal_failure + proposal_file" where
  "decline en f token session reasonCode reason now =
     ebind (resolve (en_host en) f token now) (\<lambda>l.
     ebind (load_for_link f l) (\<lambda>d.
       if pw_sensitive (pf_proposal f) \<and> \<not> otp_verified (en_host en) l session now then Inl OtpRequired
       else if rc_role (pu_recipient d) = READER then Inl ReaderRefused
       else
         ebind (persist_proposal_transition f (PE_DECLINE reasonCode reason) now NEUTRAL_READINESS
             (\<lambda>r. r\<lparr>pw_clientRespondedAt := Some now\<rparr>)) (\<lambda>f'.
           Inr (cancel_follow_ups f'))))"

subsection \<open>One-time code\<close>

definition update_link :: "string \<Rightarrow> (access_link \<Rightarrow> access_link) \<Rightarrow> proposal_file \<Rightarrow> proposal_file" where
  "update_link i g f = f\<lparr>pf_links := map (\<lambda>l. if lk_id l = i then g l else l) (pf_links f)\<rparr>"

definition request_otp ::
    "'d proposal_env \<Rightarrow> proposal_file \<Rightarrow> string \<Rightarrow> string \<Rightarrow> jsdate \<Rightarrow> proposal_failure + proposal_file" where
  "request_otp en f token code now =
     ebind (resolve (en_host en) f token now) (\<lambda>l.
     ebind (load_for_link f l) (\<lambda>d.
       Inr (update_link (lk_id l) (\<lambda>x. x\<lparr>lk_otpHash := Some (otp_hash (en_host en) (lk_id l) code),
              lk_otpExpiresAt := Some (now + OTP_TTL_MS), lk_otpAttempts := 0\<rparr>) f)))"

text \<open>\<open>withScope\<close> runs its body in a database transaction: what the body wrote is kept when it returns, and
  undone when it throws.\<close>

definition with_scope :: "('s \<Rightarrow> ('e + 'a) \<times> 's) \<Rightarrow> 's \<Rightarrow> ('e + 'a) \<times> 's" where
  "with_scope body s = (case body s of (Inr x, s') \<Rightarrow> (Inr x, s') | (Inl e, s') \<Rightarrow> (Inl e, s))"

definition verify_body ::
    "proposal_host \<Rightarrow> string \<Rightarrow> string \<Rightarrow> string \<Rightarrow> jsdate \<Rightarrow> proposal_file
     \<Rightarrow> (proposal_failure + string) \<times> proposal_file" where
  "verify_body h linkId code session now f =
     (case find_link f (\<lambda>l. lk_id l = linkId) of
        None \<Rightarrow> (Inl OtpExpired, f)
      | Some row \<Rightarrow>
          if js_falsy (lk_otpHash row) \<or> (case lk_otpExpiresAt row of None \<Rightarrow> True | Some e \<Rightarrow> e \<le> now)
          then (Inl OtpExpired, f)
          else if lk_otpAttempts row \<ge> OTP_MAX_ATTEMPTS then (Inl OtpLocked, f)
          else if \<not> same_hash (lk_otpHash row) (otp_hash h (lk_id row) code)
          then (Inl OtpInvalid, update_link (lk_id row) (\<lambda>x. x\<lparr>lk_otpAttempts := lk_otpAttempts x + 1\<rparr>) f)
          else (Inr session, update_link (lk_id row) (\<lambda>x. x\<lparr>lk_otpHash := None, lk_otpExpiresAt := None,
                  lk_otpAttempts := 0, lk_otpSessionHash := Some (hash_token h session),
                  lk_otpSessionExpiresAt := Some (now + OTP_SESSION_TTL_MS)\<rparr>) f))"

text \<open>The answer, and what the database holds afterwards; \<open>session\<close> is the token drawn.\<close>

definition verify_otp ::
    "'d proposal_env \<Rightarrow> proposal_file \<Rightarrow> string \<Rightarrow> string \<Rightarrow> string \<Rightarrow> jsdate
     \<Rightarrow> (proposal_failure + string) \<times> proposal_file" where
  "verify_otp en f token code session now =
     (case resolve (en_host en) f token now of
        Inl e \<Rightarrow> (Inl e, f)
      | Inr l \<Rightarrow> with_scope (verify_body (en_host en) (lk_id l) code session now) f)"

subsection \<open>Acceptance\<close>

definition acceptance_guard ::
    "proposal_host \<Rightarrow> proposal_row \<Rightarrow> access_link \<Rightarrow> public_view \<Rightarrow> string option \<Rightarrow> jsdate
     \<Rightarrow> proposal_failure + unit" where
  "acceptance_guard h p l d session now =
     (let v = pu_version d; role = rc_role (pu_recipient d) in
      if role = READER then Inl ReaderRefused
      else if (pw_sensitive p \<or> pw_acceptanceMode p = CLICK_ACCEPT) \<and> \<not> otp_verified h l session now
      then Inl OtpRequired
      else if pw_acceptanceMode p = DOCUSEAL_SIGNATURE \<and> role \<noteq> SIGNER then Inl NotSigner
      else if vn_supersededAt v \<noteq> None \<or> Some (vn_id v) \<noteq> pw_currentVersionId p then Inl Superseded
      else Inr ())"

definition frozen_price ::
    "proposal_version \<Rightarrow> selection_input \<Rightarrow> proposal_quote \<Rightarrow> proposal_failure + price_snapshot" where
  "frozen_price v sel q =
     (case (pt_errors q, pt_engineSchedule q, pt_engineResult q) of
        ([], Some schedule, Some result) \<Rightarrow>
          Inr \<lparr>sn_versionId = vn_id v, sn_definition = vn_pricingDefinition v,
               sn_selection = sel\<lparr>sl_quantities := pt_quantities q, sl_choices := pt_choices q\<rparr>,
               sn_engineSchedule = schedule, sn_engineResult = result\<rparr>
      | _ \<Rightarrow> Inl (PricingInvalid (pt_errors q)))"

definition accept ::
    "'d proposal_env \<Rightarrow> proposal_file \<Rightarrow> string \<Rightarrow> string option \<Rightarrow> jsdate \<Rightarrow> proposal_failure + proposal_file" where
  "accept en f token session now =
     ebind (resolve (en_host en) f token now) (\<lambda>l.
     ebind (load_for_link f l) (\<lambda>d.
     ebind (acceptance_guard (en_host en) (pf_proposal f) l d session now) (\<lambda>_.
       let p = pf_proposal f; v = pu_version d; sel = selection_of (pu_latestSelection d) in
       ebind (public_quote en p v sel now) (\<lambda>q.
       ebind (frozen_price v sel q) (\<lambda>snap.
         let f1 = f\<lparr>pf_selections := pf_selections f @ [(vn_id v, sel)],
                    pf_snapshots := pf_snapshots f @ [snap],
                    pf_acceptances := pf_acceptances f @
                      [\<lparr>ac_versionId = vn_id v, ac_recipientId = rc_id (pu_recipient d),
                        ac_mode = pw_acceptanceMode p,
                        ac_emailVerifiedAt =
                          (if otp_verified (en_host en) l session now then Some now else None),
                        ac_acceptedAt = now\<rparr>]\<rparr>
         in ebind (if pw_status p = P_SENT
                   then persist_proposal_transition f1 PE_VIEW now NEUTRAL_READINESS (\<lambda>r. r) else Inr f1) (\<lambda>f2.
            ebind (persist_proposal_transition f2 (PE_ACCEPT (vn_id v)) now NEUTRAL_READINESS
                (\<lambda>r. (summary q r)\<lparr>pw_clientRespondedAt := Some now\<rparr>)) (\<lambda>f3.
            let f4 = cancel_follow_ups f3 in
            if pw_acceptanceMode p = CLICK_ACCEPT
            then persist_proposal_transition f4 PE_COMPLETE_CLICK_ACCEPT now NEUTRAL_READINESS (\<lambda>r. r)
            else Inr f4)))))))"

end
