(* ===== verification/ProposalLife.thy ===== *)
theory ProposalLife
  imports ProposalPublic
begin

text \<open>
  The life of a proposal: the relation of all the calls that change it, whoever makes them (the sales
  team, the client, the jobs, the signature), the few kinds of moves they amount to, and what holds
  of every file they can reach.
\<close>

subsection \<open>Calls\<close>

text \<open>Events applied by the services of the signature and of the conversion.\<close>

definition provider_events :: "proposal_event_type set" where
  "provider_events =
     {PT_START_SIGNATURE, PT_SIGNATURE_COMPLETED, PT_SIGNATURE_DECLINED, PT_SIGNATURE_EXPIRED, PT_CONVERT}"

text \<open>Identifiers of recipients and versions are drawn: they are new.\<close>

inductive file_step :: "'d proposal_env \<Rightarrow> proposal_file \<Rightarrow> proposal_file \<Rightarrow> bool" for en where
  update: "update_proposal en f b now = Inr f' \<Longrightarrow> file_step en f f'"
| sections: "put_sections en f ss now = Inr f' \<Longrightarrow> file_step en f f'"
| pricing: "put_pricing en f d now = Inr f' \<Longrightarrow> file_step en f f'"
| grid_line: "add_grid_line en f item kind quantity now = Inr f' \<Longrightarrow> file_step en f f'"
| commitments: "set_commitments en f months dflt switch labels grid now = Inr f' \<Longrightarrow> file_step en f f'"
| price: "validate_price en f target now = Inr f' \<Longrightarrow> file_step en f f'"
| selection: "set_selection en f body now = Inr f' \<Longrightarrow> file_step en f f'"
| recipient: "add_recipient en f r known now = Inr f' \<Longrightarrow> rc_id r \<notin> rc_id ` set (pf_recipients f) \<Longrightarrow>
    file_step en f f'"
| no_recipient: "remove_recipient en f i now = Inr f' \<Longrightarrow> file_step en f f'"
| section_validated: "validate_section en f k now = Inr f' \<Longrightarrow> file_step en f f'"
| drafted: "apply_ai_sections en f drafts sources now = Inr f' \<Longrightarrow> file_step en f f'"
| reread: "validate_ai_section en f k now = Inr f' \<Longrightarrow> file_step en f f'"
| imported: "import_docx en f ss now = Inr f' \<Longrightarrow> file_step en f f'"
| internal: "transition en f e now = Inr f' \<Longrightarrow> pe_type e \<notin> {PT_SEND, PT_REVISE} \<Longrightarrow> file_step en f f'"
| send: "send en f fresh now = Inr f' \<Longrightarrow> file_step en f f'"
| resend: "resend en f i fresh now = Inr f' \<Longrightarrow> file_step en f f'"
| revise: "revise en f reason i now = Inr f' \<Longrightarrow> i \<notin> vn_id ` set (pf_versions f) \<Longrightarrow> file_step en f f'"
| expire: "expire_proposal f now = Inr f' \<Longrightarrow> file_step en f f'"
| remind: "file_step en f (follow_up en f i fresh now)"
| track: "track en f token opened now = Inr f' \<Longrightarrow> file_step en f f'"
| configure: "public_select en f token session body now = Inr f' \<Longrightarrow> file_step en f f'"
| question: "comment en f token session k now = Inr f' \<Longrightarrow> file_step en f f'"
| decline: "decline en f token session code reason now = Inr f' \<Longrightarrow> file_step en f f'"
| ask_code: "request_otp en f token code now = Inr f' \<Longrightarrow> file_step en f f'"
| answer_code: "verify_otp en f token code session now = (answer, f') \<Longrightarrow> file_step en f f'"
| accept: "accept en f token session now = Inr f' \<Longrightarrow> file_step en f f'"
| provider: "persist_proposal_transition f e now NEUTRAL_READINESS (\<lambda>r. r) = Inr f' \<Longrightarrow>
    pe_type e \<in> provider_events \<Longrightarrow> file_step en f f'"
| template: "file_step en f (f\<lparr>pf_template := t, pf_latestTerms := terms\<rparr>)"

subsection \<open>Moves\<close>

text \<open>What identifies a link and tells whether it is live.\<close>

definition link_core :: "access_link \<Rightarrow> string \<times> string \<times> jsdate option" where
  "link_core l = (lk_versionId l, lk_recipientId l, lk_revokedAt l)"

definition recipient_ids :: "proposal_file \<Rightarrow> string list" where
  "recipient_ids f = map rc_id (pf_recipients f)"

text \<open>Nothing of the life of the proposal changed: versions, links, status.\<close>

definition same_row :: "proposal_row \<Rightarrow> proposal_row \<Rightarrow> bool" where
  "same_row p q \<longleftrightarrow> pw_status q = pw_status p \<and> pw_currentVersionId q = pw_currentVersionId p"

definition frame :: "proposal_file \<Rightarrow> proposal_file \<Rightarrow> bool" where
  "frame f f' \<longleftrightarrow>
     pf_versions f' = pf_versions f \<and> map link_core (pf_links f') = map link_core (pf_links f)
     \<and> same_row (pf_proposal f) (pf_proposal f')
     \<and> (distinct (recipient_ids f) \<longrightarrow> distinct (recipient_ids f'))"

text \<open>A change of the content of a version.\<close>

definition content_only :: "(proposal_version \<Rightarrow> proposal_version) \<Rightarrow> bool" where
  "content_only g \<longleftrightarrow>
     (\<forall>v. vn_id (g v) = vn_id v \<and> vn_lockedAt (g v) = vn_lockedAt v \<and> vn_supersededAt (g v) = vn_supersededAt v)"

inductive life :: "'d proposal_env \<Rightarrow> proposal_file \<Rightarrow> proposal_file \<Rightarrow> bool" for en where
  quiet: "frame f f' \<Longrightarrow> life en f f'"
| edit: "editable f = Inr ld \<Longrightarrow> content_only g \<Longrightarrow> life en f (update_version f (vn_id (lp_version ld)) g)"
| event: "persist_proposal_transition f e now c extra = Inr f' \<Longrightarrow> pe_type e \<notin> {PT_SEND, PT_REVISE} \<Longrightarrow>
    \<forall>p. same_row p (extra p) \<Longrightarrow> life en f f'"
| send: "send en f fresh now = Inr f' \<Longrightarrow> life en f f'"
| revise: "revise en f reason i now = Inr f' \<Longrightarrow> i \<notin> vn_id ` set (pf_versions f) \<Longrightarrow> life en f f'"
| renew_links: "pw_status (pf_proposal f) \<in> OPEN_STATUSES \<Longrightarrow> pw_currentVersionId (pf_proposal f) = Some v \<Longrightarrow>
    distinct (recipient_ids f) \<longrightarrow> distinct (map rc_id rs) \<Longrightarrow> \<forall>r \<in> set rs. \<forall>l. lk_recipientId l = rc_id r \<longrightarrow> P l \<Longrightarrow>
    life en f (create_links v expiresAt fresh rs (revoke_links P now f))"

lemma frame_refl [simp]: "frame f f"
  by (simp add: frame_def same_row_def)

lemma frame_trans: "frame f g \<Longrightarrow> frame g h \<Longrightarrow> frame f h"
  by (simp add: frame_def same_row_def)

lemma frame_set_row: "\<forall>p. same_row p (g p) \<Longrightarrow> frame f (set_row g f)"
  by (simp add: frame_def set_row_def recipient_ids_def)

lemma detail_same: "detail en f now = Inr f' \<Longrightarrow> f' = f"
  by (auto simp: detail_def ebind_Inr_iff)

lemma same_row_summary [simp]: "same_row p (summary q p)"
  by (simp add: same_row_def summary_def)

lemma refresh_frame: "refresh_summary en f now = Inr f' \<Longrightarrow> frame f f'"
  by (auto simp: refresh_summary_def ebind_Inr_iff summary_def same_row_def intro!: frame_set_row)

lemma record_frame: "frame f (record_selection f ld s)"
  by (simp add: record_selection_def frame_def set_row_def recipient_ids_def summary_def same_row_def)

lemma cancel_frame: "frame f (cancel_follow_ups f)"
  by (simp add: frame_def cancel_follow_ups_def recipient_ids_def same_row_def)

lemma follow_up_frame: "frame f (set_follow_up i g f)"
  by (simp add: frame_def set_follow_up_def recipient_ids_def same_row_def)

lemma touch_frame: "frame f (set_row (touch now) f)"
  by (rule frame_set_row) (simp add: touch_def same_row_def)

lemma link_frame: "\<forall>l. link_core (g l) = link_core l \<Longrightarrow> frame f (update_link i g f)"
  by (simp add: frame_def update_link_def recipient_ids_def same_row_def comp_def)

lemma content_only_simps [simp]:
  "content_only (\<lambda>v. v\<lparr>vn_sections := s v\<rparr>)" "content_only (\<lambda>v. v\<lparr>vn_title := t\<rparr>)"
  "content_only (\<lambda>v. v\<lparr>vn_pricingDefinition := d\<rparr>)"
  by (simp_all add: content_only_def)

text \<open>An edition: a change of the content of the version being written, then nothing but a frame.\<close>

lemma edited:
  assumes "editable f = Inr ld" "content_only g" "frame (update_version f (vn_id (lp_version ld)) g) f'"
  shows "(life en)\<^sup>*\<^sup>* f f'"
  using life.edit [OF assms(1,2)] life.quiet [OF assms(3)]
  by (meson r_into_rtranclp rtranclp_trans)

lemma framed: "frame f f' \<Longrightarrow> (life en)\<^sup>*\<^sup>* f f'"
  by (rule r_into_rtranclp) (rule life.quiet)

lemma then_framed: "(life en)\<^sup>*\<^sup>* f g \<Longrightarrow> frame g f' \<Longrightarrow> (life en)\<^sup>*\<^sup>* f f'"
  by (meson framed rtranclp_trans)

lemma eventful:
  assumes "persist_proposal_transition f e now c extra = Inr f1" "pe_type e \<notin> {PT_SEND, PT_REVISE}"
    and "\<forall>p. same_row p (extra p)" "frame f1 f'"
  shows "(life en)\<^sup>*\<^sup>* f f'"
  using life.event [OF assms(1-3)] life.quiet [OF assms(4)]
  by (meson r_into_rtranclp rtranclp_trans)

subsection \<open>Every call is a sequence of moves\<close>

lemma editable_Inr: "editable f = Inr ld \<longleftrightarrow> load_proposal f = Inr ld \<and> can_edit ld"
  by (auto simp: editable_def ebind_Inr_iff split: if_splits)

lemma edited_touch:
  assumes "editable f = Inr ld" "content_only g"
  shows "(life en)\<^sup>*\<^sup>* f (set_row (touch now) (update_version f (vn_id (lp_version ld)) g))"
  by (rule edited [OF assms touch_frame])


lemma put_sections_life: "put_sections en f ss now = Inr f' \<Longrightarrow> (life en)\<^sup>*\<^sup>* f f'"
  by (auto simp: put_sections_def ebind_Inr_iff Let_def write_sections_def
      split: if_splits dest!: detail_same intro!: edited_touch)

lemma update_sections_life: "update_sections en f P g now = Inr f' \<Longrightarrow> (life en)\<^sup>*\<^sup>* f f'"
  by (auto simp: update_sections_def ebind_Inr_iff split: if_splits dest!: detail_same intro!: edited_touch)

lemma apply_ai_life: "apply_ai_sections en f ds sources now = Inr f' \<Longrightarrow> (life en)\<^sup>*\<^sup>* f f'"
  by (auto simp: apply_ai_sections_def ebind_Inr_iff Let_def write_sections_def
      dest!: detail_same intro!: edited_touch)

lemma import_life: "import_docx en f ss now = Inr f' \<Longrightarrow> (life en)\<^sup>*\<^sup>* f f'"
  by (auto simp: import_docx_def ebind_Inr_iff Let_def write_sections_def
      split: if_splits dest!: detail_same intro!: edited_touch)

lemma stored:
  assumes "editable f = Inr ld" "frame (store_definition f ld d) f'"
  shows "(life en)\<^sup>*\<^sup>* f f'"
  using assms unfolding store_definition_def by (rule_tac edited) simp_all

lemma put_pricing_life: "put_pricing en f d now = Inr f' \<Longrightarrow> (life en)\<^sup>*\<^sup>* f f'"
  by (auto simp: put_pricing_def ebind_Inr_iff split: if_splits dest!: detail_same intro: stored refresh_frame)

lemma save_definition_Inr: "save_definition f ld d items = Inr f' \<Longrightarrow> \<exists>d'. f' = store_definition f ld d'"
  by (auto simp: save_definition_def split: if_splits)

lemma add_grid_line_life: "add_grid_line en f item kind quantity now = Inr f' \<Longrightarrow> (life en)\<^sup>*\<^sup>* f f'"
  by (auto simp: add_grid_line_def ebind_Inr_iff Let_def split: option.splits
      dest!: detail_same save_definition_Inr intro: stored refresh_frame)

lemma validate_price_life: "validate_price en f target now = Inr f' \<Longrightarrow> (life en)\<^sup>*\<^sup>* f f'"
  by (auto simp: validate_price_def ebind_Inr_iff split: option.splits
      dest!: detail_same intro: stored refresh_frame)

lemma set_commitments_life:
  assumes "set_commitments en f months dflt switch labels grid now = Inr f'"
  shows "(life en)\<^sup>*\<^sup>* f f'"
proof -
  obtain ld d items choice f1 f2 where ld: "editable f = Inr ld"
    and f1: "save_definition f ld d items = Inr f1"
    and f2: "(if dropped_duration choice (lp_latestSelection ld)
         then ebind (load_proposal f1) (\<lambda>ld1. ebind (state_of en f1 ld1 now
                (Some (without_choice (ch_key choice) (selection_of (lp_latestSelection ld1)))) None)
                (\<lambda>s. Inr (record_selection f1 ld1 s)))
         else Inr f1) = Inr f2"
    and f': "refresh_summary en f2 now = Inr f'"
    using assms unfolding set_commitments_def Let_def ebind_Inr_iff
    by (elim exE conjE) (blast dest: detail_same)
  obtain d' where d': "f1 = store_definition f ld d'" using save_definition_Inr [OF f1] by blast
  have "frame f1 f2" using f2 by (auto simp: ebind_Inr_iff record_frame split: if_splits)
  from stored [OF ld, of d'] frame_trans [OF this refresh_frame [OF f']] d' show ?thesis by simp
qed

lemma update_life:
  assumes "update_proposal en f b now = Inr f'"
  shows "(life en)\<^sup>*\<^sup>* f f'"
proof -
  have row: "frame x (set_row (updated_row b now) x)" for x
    by (rule frame_set_row) (simp add: updated_row_def same_row_def)
  obtain ld where ld: "load_proposal f = Inr ld" "\<not> (content_change b \<and> \<not> can_edit ld)"
    and f': "refresh_summary en (case ub_title b of None \<Rightarrow> set_row (updated_row b now) f
        | Some t \<Rightarrow> update_version (set_row (updated_row b now) f) (vn_id (lp_version ld)) (\<lambda>v. v\<lparr>vn_title := t\<rparr>)) now = Inr f'"
    using assms by (auto simp: update_proposal_def ebind_Inr_iff Let_def split: if_splits dest!: detail_same)
  show ?thesis
  proof (cases "ub_title b")
    case None
    with f' have "refresh_summary en (set_row (updated_row b now) f) now = Inr f'" by simp
    from frame_trans [OF row refresh_frame [OF this]] show ?thesis by (rule framed)
  next
    case (Some t)
    then have ed: "editable f = Inr ld" using ld by (simp add: editable_Inr content_change_def)
    have swap: "update_version (set_row (updated_row b now) f) i g = set_row (updated_row b now) (update_version f i g)" for i g
      by (simp add: update_version_def set_row_def)
    from f' Some have "refresh_summary en (set_row (updated_row b now)
        (update_version f (vn_id (lp_version ld)) (\<lambda>v. v\<lparr>vn_title := t\<rparr>))) now = Inr f'"
      by (simp add: swap)
    from edited [OF ed content_only_simps(2) frame_trans [OF row refresh_frame [OF this]]] show ?thesis .
  qed
qed

lemma set_selection_life: "set_selection en f b now = Inr f' \<Longrightarrow> (life en)\<^sup>*\<^sup>* f f'"
  by (auto simp: set_selection_def ebind_Inr_iff split: if_splits dest!: detail_same
      intro: framed record_frame)

lemma add_recipient_life:
  "add_recipient en f r known now = Inr f' \<Longrightarrow> rc_id r \<notin> rc_id ` set (pf_recipients f) \<Longrightarrow> (life en)\<^sup>*\<^sup>* f f'"
  by (rule framed) (auto simp: add_recipient_def ebind_Inr_iff frame_def recipient_ids_def same_row_def
      split: if_splits dest!: detail_same)

lemma remove_recipient_life: "remove_recipient en f i now = Inr f' \<Longrightarrow> (life en)\<^sup>*\<^sup>* f f'"
  by (rule framed) (auto simp: remove_recipient_def ebind_Inr_iff frame_def recipient_ids_def same_row_def
      distinct_map_filter split: if_splits dest!: detail_same)

lemma transition_life:
  assumes "transition en f e now = Inr f'" "pe_type e \<notin> {PT_SEND, PT_REVISE}"
  shows "(life en)\<^sup>*\<^sup>* f f'"
proof -
  obtain c f1 where "persist_proposal_transition f e now c (\<lambda>p. p) = Inr f1" and "f' = cancel_follow_ups f1 \<or> f' = f1"
    using assms(1) by (auto simp: transition_def ebind_Inr_iff split: if_splits dest!: detail_same)
  with assms(2) cancel_frame show ?thesis by (intro eventful [of f e now c "\<lambda>p. p" f1]) (auto simp: same_row_def)
qed

lemma load_Inr:
  "load_proposal f = Inr ld \<longleftrightarrow>
     (\<exists>i v. pw_currentVersionId (pf_proposal f) = Some i \<and> find_version f i = Some v
        \<and> ld = \<lparr>lp_proposal = pf_proposal f, lp_version = v,
                 lp_recipients = sort_key rc_signingOrder (pf_recipients f),
                 lp_latestSelection = latest_selection f (vn_id v)\<rparr>)"
  by (auto simp: load_proposal_def load_version_def split: option.splits)

lemma find_version_Some: "find_version f i = Some v \<Longrightarrow> v \<in> set (pf_versions f) \<and> vn_id v = i"
  by (auto simp: find_version_def find_Some_iff)

lemma resend_life:
  assumes "resend en f i fresh now = Inr f'"
  shows "(life en)\<^sup>*\<^sup>* f f'"
proof -
  obtain ld e where ld: "load_proposal f = Inr ld" and st: "pw_status (lp_proposal ld) \<in> OPEN_STATUSES"
    and f': "f' = (let targets = filter (\<lambda>r. js_falsy i \<or> Some (rc_id r) = i) (lp_recipients ld) in
        create_links (vn_id (lp_version ld)) (e + pg_linkGraceDays (en_settings en) * DAY) fresh targets
          (revoke_links (\<lambda>l. lk_recipientId l \<in> set (map rc_id targets)) now f))"
    using assms by (auto simp: resend_def ebind_Inr_iff Let_def split: option.splits if_splits)
  obtain v where v: "pw_currentVersionId (pf_proposal f) = Some (vn_id v)" "lp_version ld = v"
      "lp_proposal ld = pf_proposal f" "lp_recipients ld = sort_key rc_signingOrder (pf_recipients f)"
    using ld find_version_Some by (fastforce simp: load_Inr)
  have ids: "distinct (recipient_ids f) \<longrightarrow> distinct (map rc_id (filter Q (lp_recipients ld)))" for Q
  proof
    assume d: "distinct (recipient_ids f)"
    have "distinct (map rc_id (sort_key rc_signingOrder (pf_recipients f)))"
      using d unfolding recipient_ids_def distinct_map by simp
    then show "distinct (map rc_id (filter Q (lp_recipients ld)))"
      by (simp add: v(4) distinct_map_filter)
  qed
  show ?thesis
    unfolding f' Let_def v(2)
    by (rule r_into_rtranclp, rule life.renew_links) (use st v(1,3) ids in auto)
qed

lemma expire_life: "expire_proposal f now = Inr f' \<Longrightarrow> (life en)\<^sup>*\<^sup>* f f'"
  by (auto simp: expire_proposal_def ebind_Inr_iff same_row_def split: if_splits
      intro: eventful cancel_frame)

lemma sending_decided: "decide_follow_up k ctx now = SEND \<Longrightarrow> fx_status ctx \<in> {P_SENT, P_VIEWED}"
  by (auto simp: decide_follow_up_def split: if_splits)

lemma follow_up_life: "(life en)\<^sup>*\<^sup>* f (follow_up en f i fresh now)"
proof (cases "i \<ge> length (pf_followUps f) \<or> fr_status (pf_followUps f ! i) \<noteq> FS_PLANNED")
  case False
  show ?thesis
  proof (cases "decide_follow_up (fr_kind (pf_followUps f ! i)) (follow_up_context_of f) now")
    case SEND
    then have st: "pw_status (pf_proposal f) \<in> OPEN_STATUSES"
      using sending_decided by (fastforce simp: follow_up_context_of_def Let_def OPEN_STATUSES_def)
    show ?thesis
    proof (cases "pw_currentVersionId (pf_proposal f)")
      case (Some v)
      have "(life en)\<^sup>*\<^sup>* f (create_links v e fresh (pf_recipients f) (revoke_links (\<lambda>_. True) now f))" for e
        by (rule r_into_rtranclp, rule life.renew_links) (use st Some in \<open>auto simp: recipient_ids_def\<close>)
      then show ?thesis
        using False SEND Some by (auto simp: follow_up_def Let_def intro: then_framed follow_up_frame)
    qed (use False SEND in \<open>simp add: follow_up_def\<close>)
  qed (use False in \<open>auto simp: follow_up_def intro: framed follow_up_frame\<close>)
qed (auto simp: follow_up_def)

lemma seen_frame:
  "frame f (set_row (\<lambda>p. p\<lparr>pw_firstViewedAt := w p\<rparr>) f)"
  "frame f (set_row (\<lambda>p. p\<lparr>pw_clientRespondedAt := t\<rparr>) f)"
  by (rule frame_set_row, simp add: same_row_def)+

lemma event_life:
  assumes "persist_proposal_transition f e now c (\<lambda>r. r) = Inr f'" "pe_type e \<notin> {PT_SEND, PT_REVISE}"
  shows "(life en)\<^sup>*\<^sup>* f f'"
  by (rule eventful [OF assms _ frame_refl]) (simp add: same_row_def)

lemma track_life:
  assumes "track en f token opened now = Inr f'"
  shows "(life en)\<^sup>*\<^sup>* f f'"
proof -
  obtain f1 where f1: "(if opened \<and> pw_status (pf_proposal f) = P_SENT
        then persist_proposal_transition f PE_VIEW now NEUTRAL_READINESS (\<lambda>r. r) else Inr f) = Inr f1"
    and f': "f' = set_row (\<lambda>p. p\<lparr>pw_firstViewedAt :=
              (if opened \<and> pw_firstViewedAt p = None then Some now else pw_firstViewedAt p)\<rparr>) f1"
    using assms unfolding track_def ebind_Inr_iff by (elim exE conjE) simp
  have "(life en)\<^sup>*\<^sup>* f f1" using f1 by (auto split: if_splits intro: event_life)
  then show ?thesis unfolding f' by (rule then_framed [OF _ seen_frame(1)])
qed

lemma public_select_life:
  assumes "public_select en f token session b now = Inr f'"
  shows "(life en)\<^sup>*\<^sup>* f f'"
proof -
  obtain q v sel where "f' = set_row (summary q) (f\<lparr>pf_selections := pf_selections f @ [(v, sel)]\<rparr>)"
    using assms by (auto simp: public_select_def ebind_Inr_iff Let_def split: if_splits)
  then have "frame f f'"
    by (simp add: frame_def set_row_def recipient_ids_def summary_def same_row_def)
  then show ?thesis by (rule framed)
qed

lemma comment_life:
  assumes "comment en f token session k now = Inr f'"
  shows "(life en)\<^sup>*\<^sup>* f f'"
proof -
  let ?p = "pf_proposal f"
  obtain f1 f2 where f1: "(if pw_status ?p = P_SENT
        then persist_proposal_transition f PE_VIEW now NEUTRAL_READINESS (\<lambda>r. r) else Inr f) = Inr f1"
    and f2: "(if pw_status ?p = P_SENT \<or> pw_status ?p = P_VIEWED
        then persist_proposal_transition f1 PE_OPEN_DISCUSSION now NEUTRAL_READINESS (\<lambda>r. r) else Inr f1) = Inr f2"
    and f': "f' = set_row (\<lambda>r. r\<lparr>pw_clientRespondedAt := Some now\<rparr>) f2"
    using assms unfolding comment_def Let_def ebind_Inr_iff
    by (elim exE conjE) (auto simp: ebind_Inr_iff split: if_splits)
  have "(life en)\<^sup>*\<^sup>* f f1" using f1 by (auto split: if_splits intro: event_life)
  moreover have "(life en)\<^sup>*\<^sup>* f1 f2" using f2 by (auto split: if_splits intro: event_life)
  moreover have "(life en)\<^sup>*\<^sup>* f2 f'" unfolding f' by (rule framed [OF seen_frame(2)])
  ultimately show ?thesis by (meson rtranclp_trans)
qed

lemma decline_life: "decline en f token session code reason now = Inr f' \<Longrightarrow> (life en)\<^sup>*\<^sup>* f f'"
  by (auto simp: decline_def ebind_Inr_iff same_row_def split: if_splits intro: eventful cancel_frame)

lemma request_otp_life: "request_otp en f token code now = Inr f' \<Longrightarrow> (life en)\<^sup>*\<^sup>* f f'"
  by (auto simp: request_otp_def ebind_Inr_iff link_core_def intro!: framed link_frame)

lemma verify_otp_life:
  assumes "verify_otp en f token code session now = (answer, f')"
  shows "(life en)\<^sup>*\<^sup>* f f'"
proof -
  have "frame f (snd (verify_body h i code session now f))" for h i
    by (auto simp: verify_body_def link_core_def split: option.splits intro!: link_frame)
  then have "frame f (snd (with_scope (verify_body h i code session now) f))" for h i
    by (auto simp: with_scope_def split: prod.splits sum.splits) (metis snd_conv)
  then have "frame f (snd (verify_otp en f token code session now))"
    by (simp add: verify_otp_def split: sum.split)
  then show ?thesis using assms by (auto intro: framed)
qed

lemma accept_life:
  assumes "accept en f token session now = Inr f'"
  shows "(life en)\<^sup>*\<^sup>* f f'"
proof -
  let ?p = "pf_proposal f"
  obtain f1 q v f2 f3 where f1: "frame f f1"
    and f2: "(if pw_status ?p = P_SENT
        then persist_proposal_transition f1 PE_VIEW now NEUTRAL_READINESS (\<lambda>r. r) else Inr f1) = Inr f2"
    and f3: "persist_proposal_transition f2 (PE_ACCEPT v) now NEUTRAL_READINESS
        (\<lambda>r. (summary q r)\<lparr>pw_clientRespondedAt := Some now\<rparr>) = Inr f3"
    and f': "(if pw_acceptanceMode ?p = CLICK_ACCEPT
        then persist_proposal_transition (cancel_follow_ups f3) PE_COMPLETE_CLICK_ACCEPT now NEUTRAL_READINESS (\<lambda>r. r)
        else Inr (cancel_follow_ups f3)) = Inr f'"
    using assms unfolding accept_def Let_def ebind_Inr_iff
    by (elim exE conjE) (rule that, auto simp: frame_def same_row_def recipient_ids_def)
  have "(life en)\<^sup>*\<^sup>* f f1" using f1 by (rule framed)
  moreover have "(life en)\<^sup>*\<^sup>* f1 f2" using f2 by (auto split: if_splits intro: event_life)
  moreover have "(life en)\<^sup>*\<^sup>* f2 (cancel_follow_ups f3)"
    by (rule eventful [OF f3 _ _ cancel_frame]) (auto simp: same_row_def summary_def)
  moreover have "(life en)\<^sup>*\<^sup>* (cancel_follow_ups f3) f'" using f' by (auto split: if_splits intro: event_life)
  ultimately show ?thesis by (meson rtranclp_trans)
qed

theorem moves_of_step: "file_step en f f' \<Longrightarrow> (life en)\<^sup>*\<^sup>* f f'"
proof (induction rule: file_step.induct)
  case (send f fresh now f')
  show ?case by (rule r_into_rtranclp) (rule life.send [OF send])
next
  case (revise f reason i now f')
  show ?case by (rule r_into_rtranclp) (rule life.revise [OF revise])
next
  case (template f t terms)
  show ?case by (rule framed) (simp add: frame_def same_row_def recipient_ids_def)
next
  case (provider f e now f')
  then show ?case by (intro event_life) (auto simp: provider_events_def)
qed (simp_all add: update_life put_sections_life put_pricing_life add_grid_line_life set_commitments_life
    validate_price_life set_selection_life add_recipient_life remove_recipient_life update_sections_life
    validate_section_def validate_ai_section_def apply_ai_life import_life transition_life resend_life expire_life
    follow_up_life track_life public_select_life comment_life decline_life request_otp_life verify_otp_life
    accept_life)

end
