(* ===== verification/ProposalGuarantees.thy ===== *)
theory ProposalGuarantees
  imports ProposalLife
begin

text \<open>
  What holds of every file the calls can reach: a version that was sent is complete and never changes
  again, the live links open the current version, and each recipient holds at most one.
\<close>

subsection \<open>The day of expiry\<close>

abbreviation expiry_tag :: string where
  "expiry_tag \<equiv> ''proposition.dateExpiration''"

text \<open>\<open>Intl.DateTimeFormat('en-CA', ...)\<close> writes a day \<open>YYYY-MM-DD\<close>.\<close>

definition writes_days :: "proposal_host \<Rightarrow> bool" where
  "writes_days h \<longleftrightarrow> (\<forall>t. french_date (ph_parisDay h t) \<noteq> None)"

definition agree_but_expiry ::
    "(string \<times> context_value option) list \<Rightarrow> (string \<times> context_value option) list \<Rightarrow> bool" where
  "agree_but_expiry a b \<longleftrightarrow>
     distinct (map fst a) \<and> distinct (map fst b)
     \<and> (\<forall>k. k \<noteq> expiry_tag \<longrightarrow> map_of a k = map_of b k)
     \<and> (\<exists>x. map_of a expiry_tag = Some (Some x))"

lemma agree_add_typed:
  assumes "agree_but_expiry a b" "map_of b expiry_tag = Some (Some y)"
  shows "agree_but_expiry (add_typed a kv) (add_typed b kv)
     \<and> map_of (add_typed b kv) expiry_tag = Some (Some y)"
proof (cases "fst kv = expiry_tag")
  case True
  with assms show ?thesis by (auto simp: add_typed_def agree_but_expiry_def)
next
  case False
  with assms have "map_of a (fst kv) = map_of b (fst kv)" by (simp add: agree_but_expiry_def)
  with assms False show ?thesis
    by (auto simp: add_typed_def agree_but_expiry_def map_of_map_set distinct_map_set
        simp del: map_of_eq_Some_iff split: option.splits)
qed

lemma agree_typed:
  assumes "agree_but_expiry a b" "map_of b expiry_tag = Some (Some y)"
  shows "agree_but_expiry (foldl add_typed a kvs) (foldl add_typed b kvs)
     \<and> map_of (foldl add_typed b kvs) expiry_tag = Some (Some y)"
  using assms
proof (induction kvs arbitrary: a b)
  case (Cons kv kvs)
  from agree_add_typed [OF Cons.prems, of kv] show ?case
    unfolding foldl_Cons by (intro Cons.IH) blast+
qed simp

definition kept_value :: "context_value option option \<Rightarrow> context_value option" where
  "kept_value o' = (case o' of Some (Some x) \<Rightarrow> if x = CString [] then None else Some x | _ \<Rightarrow> None)"

lemma map_of_kept:
  "distinct (map fst kvs) \<Longrightarrow>
   map_of (concat (map (\<lambda>(k, v). case v of Some x \<Rightarrow> if x = CString [] then [] else [(k, x)] | None \<Rightarrow> []) kvs)) k
     = kept_value (map_of kvs k)"
proof (induction kvs)
  case (Cons kv kvs)
  have "k \<notin> fst ` set kvs \<Longrightarrow> map_of (concat (map (\<lambda>(k, v). case v of Some x \<Rightarrow> if x = CString [] then [] else [(k, x)]
      | None \<Rightarrow> []) kvs)) k = None"
    using Cons by (simp add: kept_value_def) (metis map_of_eq_None_iff option.simps(4))
  with Cons show ?case by (cases kv) (auto simp: kept_value_def map_add_def split: option.splits)
qed (simp add: kept_value_def)

lemma merge_entries_keys:
  "distinct (map fst (merge_entries s))"
  by (simp add: merge_entries_def)

lemma expiry_entry: "map_of (merge_entries s) expiry_tag = Some (text_value (ms_expiryDay s))"
  by (simp add: merge_entries_def)

lemma merged_values:
  fixes d :: string
  assumes "ms_expiryDay s = Some d0"
  defines "t \<equiv> s\<lparr>ms_expiryDay := Some d\<rparr>"
  shows "(\<forall>k. k \<noteq> expiry_tag \<longrightarrow> map_of (merge_values_for t) k = map_of (merge_values_for s) k)
     \<and> map_of (merge_values_for t) expiry_tag = (if d = [] then None else Some (CString d))"
proof -
  have "agree_but_expiry (merge_entries s) (merge_entries t)"
    using assms(1)
    by (simp add: agree_but_expiry_def merge_entries_keys expiry_entry text_value_def del: map_of_eq_Some_iff)
      (simp add: t_def merge_entries_def cong: option.case_cong)
  moreover have "map_of (merge_entries t) expiry_tag = Some (Some (CString d))"
    by (simp add: expiry_entry t_def text_value_def)
  ultimately have a: "agree_but_expiry (foldl add_typed (merge_entries s) (ms_mergeContext s))
        (foldl add_typed (merge_entries t) (ms_mergeContext s))"
    and b: "map_of (foldl add_typed (merge_entries t) (ms_mergeContext s)) expiry_tag = Some (Some (CString d))"
    using agree_typed by blast+
  have "ms_mergeContext t = ms_mergeContext s" by (simp add: t_def)
  with a b show ?thesis
    unfolding merge_values_for_def by (simp add: map_of_kept agree_but_expiry_def) (simp add: kept_value_def)
qed

lemma french_date_nonempty: "french_date d \<noteq> None \<Longrightarrow> d \<noteq> []"
  by (auto simp: french_date_def)

lemma complete_with_expiry:
  assumes "text_complete nt vals txt"
    and "\<forall>k. k \<noteq> expiry_tag \<longrightarrow> map_of vals' k = map_of vals k"
    and "map_of vals' expiry_tag = Some (CString d)" "french_date d \<noteq> None"
  shows "text_complete nt vals' txt"
proof -
  have "\<exists>v. format_merge_value nt tag (merge_value_at vals' tag) = F_text v"
    if "tag \<in> set (find_merge_tags txt)" for tag
  proof (cases "tag = expiry_tag")
    case True
    have "js_get MERGE_TAG_CATALOG expiry_tag = Own MT_date"
      by (simp add: js_get_def MERGE_TAG_CATALOG_def)
    with True assms(3,4) french_date_nonempty [OF assms(4)] show ?thesis
      by (auto simp: format_merge_value_def merge_value_at_def js_get_def)
  next
    case False
    with assms(2) have "merge_value_at vals' tag = merge_value_at vals tag"
      by (simp add: merge_value_at_def js_get_def)
    with assms(1) that show ?thesis by (simp add: text_complete_def)
  qed
  with assms(1) show ?thesis by (simp add: text_complete_def)
qed

subsection \<open>The invariant\<close>

text \<open>A version that was sent: its texts render with the values frozen with it and its sections are ready.
  Its prices are those of a configuration, which the client may change after the sending: what
  holds of them is said of the sending itself, in the theory of the safety of the calls.\<close>

definition version_complete :: "'d proposal_env \<Rightarrow> proposal_version \<Rightarrow> bool" where
  "version_complete en v \<longleftrightarrow>
     (\<exists>vals. vn_mergeValues v = Some vals
        \<and> list_all (text_complete (ph_numbers (en_host en)) vals) (shown_texts (vn_title v) (vn_sections v)))
     \<and> list_all (section_ready (vn_terms v \<noteq> None)) (vn_sections v)"

definition status_fits :: "proposal_status \<Rightarrow> bool \<Rightarrow> bool" where
  "status_fits s locked \<longleftrightarrow>
     (s \<in> {P_DRAFT, P_IN_INTERNAL_REVIEW} \<longrightarrow> \<not> locked)
     \<and> (s \<notin> {P_DRAFT, P_IN_INTERNAL_REVIEW, P_READY} \<longrightarrow> locked)"

definition current_version :: "proposal_file \<Rightarrow> proposal_version option" where
  "current_version f = Option.bind (pw_currentVersionId (pf_proposal f)) (find_version f)"

definition versions_ok :: "proposal_file \<Rightarrow> bool" where
  "versions_ok f \<longleftrightarrow>
     distinct (map vn_id (pf_versions f))
     \<and> (\<exists>v. current_version f = Some v \<and> vn_supersededAt v = None
          \<and> status_fits (pw_status (pf_proposal f)) (vn_lockedAt v \<noteq> None))
     \<and> (\<forall>v \<in> set (pf_versions f). Some (vn_id v) \<noteq> pw_currentVersionId (pf_proposal f) \<longrightarrow>
          vn_lockedAt v \<noteq> None \<and> vn_supersededAt v \<noteq> None)"

definition live_cores :: "proposal_file \<Rightarrow> (string \<times> string \<times> jsdate option) list" where
  "live_cores f = filter (\<lambda>c. snd (snd c) = None) (map link_core (pf_links f))"

definition links_ok :: "proposal_file \<Rightarrow> bool" where
  "links_ok f \<longleftrightarrow>
     (\<forall>c \<in> set (live_cores f). Some (fst c) = pw_currentVersionId (pf_proposal f)
        \<and> (\<exists>v. current_version f = Some v \<and> vn_lockedAt v \<noteq> None))
     \<and> distinct (map (\<lambda>c. fst (snd c)) (live_cores f)) \<and> distinct (recipient_ids f)"

definition file_ok :: "'d proposal_env \<Rightarrow> proposal_file \<Rightarrow> bool" where
  "file_ok en f \<longleftrightarrow> versions_ok f \<and> links_ok f
     \<and> (\<forall>v \<in> set (pf_versions f). vn_lockedAt v \<noteq> None \<longrightarrow> version_complete en v)"

text \<open>What is frozen: everything but the date a version is superseded.\<close>

definition frozen_in :: "proposal_file \<Rightarrow> proposal_file \<Rightarrow> bool" where
  "frozen_in f f' \<longleftrightarrow>
     (\<forall>v \<in> set (pf_versions f). vn_lockedAt v \<noteq> None \<longrightarrow>
        (\<exists>v' \<in> set (pf_versions f'). v'\<lparr>vn_supersededAt := None\<rparr> = v\<lparr>vn_supersededAt := None\<rparr>))"

lemma frozen_refl [simp]: "frozen_in f f"
  by (auto simp: frozen_in_def)

lemma unsuperseded_locked:
  "v'\<lparr>vn_supersededAt := None\<rparr> = v\<lparr>vn_supersededAt := None\<rparr> \<Longrightarrow> vn_lockedAt v' = vn_lockedAt v"
  by (metis (no_types, lifting) proposal_version.ext_inject proposal_version.surjective proposal_version.update_convs(10))

lemma frozen_trans: "frozen_in f g \<Longrightarrow> frozen_in g h \<Longrightarrow> frozen_in f h"
  unfolding frozen_in_def by (metis unsuperseded_locked)

lemma frozen_same: "pf_versions f' = pf_versions f \<Longrightarrow> frozen_in f f'"
  by (auto simp: frozen_in_def)

subsection \<open>Moves keep it\<close>

lemma find_version_same: "pf_versions f' = pf_versions f \<Longrightarrow> find_version f' = find_version f"
  by (rule ext) (simp add: find_version_def)

lemma frame_ok:
  assumes "frame f f'" "file_ok en f"
  shows "file_ok en f'"
proof -
  have vs: "pf_versions f' = pf_versions f" and cs: "live_cores f' = live_cores f"
    and row: "pw_status (pf_proposal f') = pw_status (pf_proposal f)"
      "pw_currentVersionId (pf_proposal f') = pw_currentVersionId (pf_proposal f)"
    and ids: "distinct (recipient_ids f) \<longrightarrow> distinct (recipient_ids f')"
    using assms(1) by (simp_all add: frame_def same_row_def live_cores_def)
  have "current_version f' = current_version f"
    by (simp add: current_version_def row find_version_same [OF vs])
  with assms(2) ids show ?thesis
    unfolding file_ok_def versions_ok_def links_ok_def vs cs row by simp
qed

lemma find_version_update:
  "content_only g \<Longrightarrow>
   find_version (update_version f i g) j = map_option (\<lambda>v. if vn_id v = i then g v else v) (find_version f j)"
  unfolding find_version_def update_version_def
  by (simp, rule find_map_same) (simp add: content_only_def)

lemma update_version_ids:
  "content_only g \<Longrightarrow> map vn_id (pf_versions (update_version f i g)) = map vn_id (pf_versions f)"
  by (simp add: update_version_def comp_def content_only_def)

lemma edit_ok:
  assumes ed: "editable f = Inr ld" and g: "content_only g" and ok: "file_ok en f"
  defines "f' \<equiv> update_version f (vn_id (lp_version ld)) g"
  shows "file_ok en f' \<and> frozen_in f f'"
proof -
  let ?i = "vn_id (lp_version ld)"
  obtain v where v: "find_version f ?i = Some v" "pw_currentVersionId (pf_proposal f) = Some ?i"
      "vn_lockedAt v = None" "vn_id v = ?i"
    using ed find_version_Some by (fastforce simp: editable_Inr load_Inr can_edit_def)
  have ids: "distinct (map vn_id (pf_versions f))" using ok by (simp add: file_ok_def versions_ok_def)
  have unlocked: "vn_lockedAt w = None" if "w \<in> set (pf_versions f)" "vn_id w = ?i" for w
  proof -
    have "w = v" using that ids v find_version_Some [OF v(1)] by (metis inj_onD distinct_map)
    then show ?thesis by (simp add: v(3))
  qed
  have row: "pf_proposal f' = pf_proposal f" "pf_links f' = pf_links f" "recipient_ids f' = recipient_ids f"
    "pf_versions f' = map (\<lambda>w. if vn_id w = ?i then g w else w) (pf_versions f)"
    by (simp_all add: f'_def update_version_def recipient_ids_def)
  have cur: "current_version f' = map_option g (current_version f)"
    using v by (simp add: current_version_def row(1) find_version_update [OF g, of f ?i, folded f'_def])
  have ids': "map vn_id (pf_versions f') = map vn_id (pf_versions f)"
    by (simp add: f'_def update_version_ids [OF g])
  have others: "\<forall>w \<in> set (pf_versions f'). Some (vn_id w) \<noteq> pw_currentVersionId (pf_proposal f) \<longrightarrow>
      vn_lockedAt w \<noteq> None \<and> vn_supersededAt w \<noteq> None"
    using ok g by (auto simp: file_ok_def versions_ok_def row(4) content_only_def)
  have "versions_ok f'"
    using ok g others unfolding file_ok_def versions_ok_def ids' row(1) cur
    by (auto simp: content_only_def)
  moreover have "links_ok f'"
  proof -
    have "live_cores f' = live_cores f" by (simp add: live_cores_def row)
    moreover have "(\<exists>w. current_version f' = Some w \<and> vn_lockedAt w \<noteq> None)
        \<longleftrightarrow> (\<exists>w. current_version f = Some w \<and> vn_lockedAt w \<noteq> None)"
      using g by (cases "current_version f") (simp_all add: cur content_only_def)
    ultimately show ?thesis
      using ok unfolding file_ok_def links_ok_def row(1,3) by simp
  qed
  moreover have "\<forall>w \<in> set (pf_versions f'). vn_lockedAt w \<noteq> None \<longrightarrow> version_complete en w"
    using ok g unlocked by (auto simp: file_ok_def row(4) content_only_def)
  moreover have "frozen_in f f'"
    unfolding frozen_in_def row(4) using unlocked by fastforce
  ultimately show ?thesis by (simp add: file_ok_def)
qed

lemma event_ids:
  "apply_proposal_event p e now = Inr p' \<Longrightarrow> ps_currentVersionId p' = ps_currentVersionId p"
  by (cases e) (auto simp: p_event_cases split: if_splits)

lemma event_fits:
  "apply_proposal_event p e now = Inr p' \<Longrightarrow> pe_type e \<notin> {PT_SEND, PT_REVISE} \<Longrightarrow>
   status_fits (ps_status p) locked \<Longrightarrow> status_fits (ps_status p') locked"
  by (cases e) (auto simp: p_event_cases status_fits_def split: if_splits)

lemma send_status:
  "apply_proposal_event p (PE_SEND d) now = Inr p' \<Longrightarrow> ps_status p = P_READY \<and> ps_status p' = P_SENT"
  by (auto simp: p_event_cases split: if_splits)

lemma revise_status:
  "apply_proposal_event p (PE_REVISE reason) now = Inr p' \<Longrightarrow>
     ps_status p \<notin> {P_DRAFT, P_IN_INTERNAL_REVIEW} \<and> ps_status p' = P_DRAFT"
  by (auto simp: p_event_cases split: if_splits)

lemma persist_Inr:
  assumes "persist_proposal_transition f e now c extra = Inr f'"
  obtains nxt where "apply_proposal_event (to_proposal_snapshot (pf_proposal f) c) e now = Inr nxt"
    "pf_proposal f' = extra (row_after (pf_proposal f) nxt now)"
    "pf_versions f' = pf_versions f" "pf_links f' = pf_links f" "pf_recipients f' = pf_recipients f"
  using assms by (auto simp: persist_proposal_transition_def ebind_Inr_iff Let_def)

lemma event_ok:
  assumes e: "persist_proposal_transition f e now c extra = Inr f'" "pe_type e \<notin> {PT_SEND, PT_REVISE}"
    and x: "\<forall>p. same_row p (extra p)" and ok: "file_ok en f"
  shows "file_ok en f'"
proof -
  obtain nxt where nxt: "apply_proposal_event (to_proposal_snapshot (pf_proposal f) c) e now = Inr nxt"
    "pf_proposal f' = extra (row_after (pf_proposal f) nxt now)"
    and vs: "pf_versions f' = pf_versions f" "pf_links f' = pf_links f" "pf_recipients f' = pf_recipients f"
    by (rule persist_Inr [OF e(1)])
  have row: "pw_status (pf_proposal f') = ps_status nxt"
      "pw_currentVersionId (pf_proposal f') = pw_currentVersionId (pf_proposal f)"
    using x by (simp_all add: nxt(2) same_row_def row_after_def)
  have "status_fits (pw_status (pf_proposal f)) b \<Longrightarrow> status_fits (ps_status nxt) b" for b
    using event_fits [OF nxt(1) e(2)] by (simp add: to_proposal_snapshot_def)
  moreover have "current_version f' = current_version f"
    by (simp add: current_version_def row find_version_same [OF vs(1)])
  moreover have "live_cores f' = live_cores f" "recipient_ids f' = recipient_ids f"
    by (simp_all add: live_cores_def recipient_ids_def vs)
  ultimately show ?thesis
    using ok unfolding file_ok_def versions_ok_def links_ok_def row vs(1) by auto
qed

subsection \<open>Links\<close>

lemma revoked_cores: "live_cores (revoke_links P now f) =
    map link_core (filter (\<lambda>l. lk_revokedAt l = None \<and> \<not> P l) (pf_links f))"
proof -
  have "filter (\<lambda>c. snd (snd c) = None) (map link_core
      (map (\<lambda>l. if lk_revokedAt l = None \<and> P l then l\<lparr>lk_revokedAt := Some now\<rparr> else l) ls))
    = map link_core (filter (\<lambda>l. lk_revokedAt l = None \<and> \<not> P l) ls)" for ls
    by (induction ls) (auto simp: link_core_def)
  then show ?thesis by (simp add: live_cores_def revoke_links_def)
qed

lemma created_cores: "live_cores (create_links v e fresh rs f) =
    live_cores f @ map (\<lambda>r. (v, rc_id r, None)) rs"
  by (simp add: live_cores_def create_links_def filter_map comp_def new_link_def link_core_def)

lemma links_rows [simp]:
  "pf_versions (create_links v e fresh rs f) = pf_versions f"
  "pf_proposal (create_links v e fresh rs f) = pf_proposal f"
  "recipient_ids (create_links v e fresh rs f) = recipient_ids f"
  "pf_versions (revoke_links P now f) = pf_versions f"
  "pf_proposal (revoke_links P now f) = pf_proposal f"
  "recipient_ids (revoke_links P now f) = recipient_ids f"
  by (simp_all add: create_links_def revoke_links_def recipient_ids_def)

lemma renewed_links:
  fixes e now :: jsdate and fresh :: new_token
  assumes ok: "\<forall>c \<in> set (live_cores f). fst c = v" "distinct (map (\<lambda>c. fst (snd c)) (live_cores f))"
    and rs: "distinct (map rc_id rs)" "\<forall>r \<in> set rs. \<forall>l. lk_recipientId l = rc_id r \<longrightarrow> P l"
  defines "cs \<equiv> live_cores (create_links v e fresh rs (revoke_links P now f))"
  shows "(\<forall>c \<in> set cs. fst c = v) \<and> distinct (map (\<lambda>c. fst (snd c)) cs)"
proof -
  have live: "live_cores f = map link_core (filter (\<lambda>l. lk_revokedAt l = None) (pf_links f))"
    by (simp add: live_cores_def filter_map comp_def link_core_def)
  have cs: "cs = map link_core (filter (\<lambda>l. lk_revokedAt l = None \<and> \<not> P l) (pf_links f))
      @ map (\<lambda>r. (v, rc_id r, None)) rs"
    by (simp add: cs_def created_cores revoked_cores)
  have split: "filter (\<lambda>l. lk_revokedAt l = None \<and> \<not> P l) (pf_links f)
      = filter (\<lambda>l. \<not> P l) (filter (\<lambda>l. lk_revokedAt l = None) (pf_links f))"
    by (simp add: conj_commute)
  have "distinct (map lk_recipientId (filter (\<lambda>l. lk_revokedAt l = None) (pf_links f)))"
    using ok(2) by (simp add: live comp_def link_core_def)
  then have "distinct (map lk_recipientId (filter (\<lambda>l. lk_revokedAt l = None \<and> \<not> P l) (pf_links f)))"
    unfolding split by (rule distinct_map_filter)
  with rs have "distinct (map (\<lambda>c. fst (snd c)) cs)"
    by (auto simp: cs comp_def link_core_def)
  moreover have "\<forall>c \<in> set cs. fst c = v"
    using ok(1) by (auto simp: cs live)
  ultimately show ?thesis by blast
qed

lemma renew_ok:
  assumes st: "pw_status (pf_proposal f) \<in> OPEN_STATUSES"
    and v: "pw_currentVersionId (pf_proposal f) = Some v"
    and rs: "distinct (recipient_ids f) \<longrightarrow> distinct (map rc_id rs)"
      "\<forall>r \<in> set rs. \<forall>l. lk_recipientId l = rc_id r \<longrightarrow> P l"
    and ok: "file_ok en f"
  shows "file_ok en (create_links v e fresh rs (revoke_links P now f))"
proof -
  let ?f' = "create_links v e fresh rs (revoke_links P now f)"
  have cur: "current_version ?f' = current_version f"
    by (simp add: current_version_def find_version_same [of "create_links v e fresh rs (revoke_links P now f)" f])
  obtain w where w: "current_version f = Some w" "vn_lockedAt w \<noteq> None"
    using ok st by (auto simp: file_ok_def versions_ok_def status_fits_def OPEN_STATUSES_def)
  have ids: "distinct (recipient_ids f)" using ok by (simp add: file_ok_def links_ok_def)
  have "(\<forall>c \<in> set (live_cores ?f'). fst c = v) \<and> distinct (map (\<lambda>c. fst (snd c)) (live_cores ?f'))"
    using ok v rs ids by (intro renewed_links) (auto simp: file_ok_def links_ok_def)
  then have "links_ok ?f'" using w v ids by (simp add: links_ok_def cur)
  then show ?thesis using ok by (simp add: file_ok_def versions_ok_def cur)
qed

subsection \<open>Sending and revising\<close>

lemma frozen_complete:
  assumes s: "state_of en f ld now None None = Inr s" and ready: "nothing_left (cp_counters s)"
    and fr: "state_of en f ld now None (Some (ph_parisDay (en_host en) d)) = Inr fr"
    and days: "writes_days (en_host en)"
  shows "version_complete en ((lp_version ld)\<lparr>vn_mergeValues := Some (cp_mergeValues fr),
           vn_pricingDefinition := cp_definition fr, vn_lockedAt := Some now\<rparr>)"
proof -
  let ?h = "en_host en" and ?v = "lp_version ld" and ?d = "ph_parisDay (en_host en) d"
  let ?def = "with_template_validations (vn_pricingDefinition ?v) (pf_template f)"
  let ?sel = "selection_of (lp_latestSelection ld)"
  have cs: "compute_state (en_decimals en) ?h (en_settings en) ld now (pf_template f) None None = Inr s"
    using s by (simp add: state_of_def)
  obtain q where q: "state_quote (en_decimals en) ?h (en_settings en) ?def (vn_pricingSettings ?v) ?sel
        (pw_mergeContext (lp_proposal ld)) now = Inr q"
    and vals: "cp_mergeValues s = merge_values_for (state_sources ?h ld q None now)" "cp_quote s = q"
      "cp_sections s = vn_sections ?v"
    and vals': "cp_mergeValues fr = merge_values_for (state_sources ?h ld q (Some ?d) now)"
      "cp_definition fr = ?def"
    using s fr by (auto simp: state_of_def compute_state_def Let_def ebind_Inr_iff)
  have src: "state_sources ?h ld q (Some ?d) now = (state_sources ?h ld q None now)\<lparr>ms_expiryDay := Some ?d\<rparr>"
    by (simp add: state_sources_def Let_def expiry_day_def)
  have d: "french_date ?d \<noteq> None" using days by (simp add: writes_days_def)
  have "(\<forall>k. k \<noteq> expiry_tag \<longrightarrow> map_of (cp_mergeValues fr) k = map_of (cp_mergeValues s) k)
      \<and> map_of (cp_mergeValues fr) expiry_tag = (if ?d = [] then None else Some (CString ?d))"
    unfolding vals(1) vals'(1) src by (rule merged_values) (simp add: state_sources_def Let_def)
  with french_date_nonempty [OF d] have agree:
    "\<forall>k. k \<noteq> expiry_tag \<longrightarrow> map_of (cp_mergeValues fr) k = map_of (cp_mergeValues s) k"
    "map_of (cp_mergeValues fr) expiry_tag = Some (CString ?d)" by simp_all
  note complete = ready_proposal_is_complete [OF cs ready, unfolded vals(2,3)]
  have "text_complete (ph_numbers ?h) (cp_mergeValues fr) t"
    if "t \<in> set (shown_texts (vn_title ?v) (vn_sections ?v))" for t
    using complete that complete_with_expiry [OF _ agree d] by (auto simp: list_all_iff)
  then show ?thesis
    using complete by (auto simp: version_complete_def vals'(2) list_all_iff)
qed

lemma add_follow_ups_frame: "frame f (add_follow_ups st p now e f)"
  by (simp add: add_follow_ups_def frame_def recipient_ids_def same_row_def)

lemma sorted_recipient_ids:
  "distinct (recipient_ids f) \<Longrightarrow> distinct (map rc_id (sort_key rc_signingOrder (pf_recipients f)))"
  unfolding recipient_ids_def distinct_map by simp

lemma freeze_Inr:
  assumes "freeze_version en f ld expiresAt now = Inr f1"
  shows "(vn_lockedAt (lp_version ld) \<noteq> None \<and> f1 = f)
    \<or> (vn_lockedAt (lp_version ld) = None \<and>
        (\<exists>fr. state_of en f ld now None (Some (ph_parisDay (en_host en) expiresAt)) = Inr fr
          \<and> f1 = update_version f (vn_id (lp_version ld)) (\<lambda>v. v\<lparr>vn_mergeValues := Some (cp_mergeValues fr),
              vn_pricingDefinition := cp_definition fr, vn_lockedAt := Some now\<rparr>)))"
  using assms by (auto simp: freeze_version_def ebind_Inr_iff split: if_splits)

text \<open>The version sent is locked and complete, the others are as they were.\<close>

lemma freeze_ok:
  assumes ld: "load_proposal f = Inr ld" and s: "state_of en f ld now None None = Inr s"
    and ready: "nothing_left (cp_counters s)" and fz: "freeze_version en f ld expiresAt now = Inr f1"
    and ok: "file_ok en f" and days: "writes_days (en_host en)"
  shows "pf_proposal f1 = pf_proposal f \<and> pf_links f1 = pf_links f \<and> recipient_ids f1 = recipient_ids f
    \<and> distinct (map vn_id (pf_versions f1))
    \<and> (\<exists>v. current_version f1 = Some v \<and> vn_supersededAt v = None \<and> vn_lockedAt v \<noteq> None)
    \<and> (\<forall>v \<in> set (pf_versions f1). Some (vn_id v) \<noteq> pw_currentVersionId (pf_proposal f) \<longrightarrow>
          vn_lockedAt v \<noteq> None \<and> vn_supersededAt v \<noteq> None)
    \<and> (\<forall>v \<in> set (pf_versions f1). vn_lockedAt v \<noteq> None \<longrightarrow> version_complete en v) \<and> frozen_in f f1"
proof -
  let ?v = "lp_version ld"
  obtain i where v: "find_version f i = Some ?v" "pw_currentVersionId (pf_proposal f) = Some i" "vn_id ?v = i"
      "?v \<in> set (pf_versions f)"
    using ld find_version_Some by (fastforce simp: load_Inr)
  have vok: "versions_ok f" and vc: "\<forall>w \<in> set (pf_versions f). vn_lockedAt w \<noteq> None \<longrightarrow> version_complete en w"
    using ok by (simp_all add: file_ok_def)
  have cur: "current_version f = Some ?v" by (simp add: current_version_def v)
  show ?thesis
    using freeze_Inr [OF fz]
  proof (elim disjE conjE exE)
    assume "vn_lockedAt ?v \<noteq> None" "f1 = f"
    then show ?thesis using vok vc cur by (simp add: versions_ok_def)
  next
    fix fr
    assume un: "vn_lockedAt ?v = None"
      and fr: "state_of en f ld now None (Some (ph_parisDay (en_host en) expiresAt)) = Inr fr"
      and f1: "f1 = update_version f (vn_id ?v) (\<lambda>v. v\<lparr>vn_mergeValues := Some (cp_mergeValues fr),
              vn_pricingDefinition := cp_definition fr, vn_lockedAt := Some now\<rparr>)"
    let ?g = "\<lambda>v. v\<lparr>vn_mergeValues := Some (cp_mergeValues fr),
              vn_pricingDefinition := cp_definition fr, vn_lockedAt := Some now\<rparr>"
    have only: "w = ?v" if "w \<in> set (pf_versions f)" "vn_id w = i" for w
      using vok that v unfolding versions_ok_def by (metis distinct_map inj_onD)
    have row: "pf_versions f1 = map (\<lambda>w. if vn_id w = i then ?g w else w) (pf_versions f)"
        "pf_proposal f1 = pf_proposal f" "pf_links f1 = pf_links f" "recipient_ids f1 = recipient_ids f"
      by (simp_all add: f1 update_version_def v(3) recipient_ids_def)
    have ids: "map vn_id (pf_versions f1) = map vn_id (pf_versions f)" by (simp add: row(1) comp_def if_distrib cong: if_cong)
    have "find_version f1 i = Some (?g ?v)"
      using find_map_same [of "\<lambda>w. vn_id w = i" "\<lambda>w. if vn_id w = i then ?g w else w" "pf_versions f"] v
      by (simp add: find_version_def row(1))
    then have cur1: "current_version f1 = Some (?g ?v)" by (simp add: current_version_def row v)
    have "version_complete en (?g ?v)" by (rule frozen_complete [OF s ready fr days])
    then have "\<forall>w \<in> set (pf_versions f1). vn_lockedAt w \<noteq> None \<longrightarrow> version_complete en w"
      using vc only by (auto simp: row(1))
    moreover have "frozen_in f f1"
      using only un unfolding frozen_in_def row(1) by fastforce
    moreover have "vn_supersededAt ?v = None" using vok cur by (simp add: versions_ok_def)
    moreover have "\<forall>w \<in> set (pf_versions f1). Some (vn_id w) \<noteq> pw_currentVersionId (pf_proposal f) \<longrightarrow>
          vn_lockedAt w \<noteq> None \<and> vn_supersededAt w \<noteq> None"
      using vok v by (auto simp: versions_ok_def row(1))
    moreover have "distinct (map vn_id (pf_versions f1))"
      using vok by (simp add: ids versions_ok_def del: distinct_map)
    ultimately show ?thesis
      using cur1 row(2-4) by simp
  qed
qed

lemma send_ok:
  assumes send: "send en f fresh now = Inr f'" and ok: "file_ok en f" and days: "writes_days (en_host en)"
  shows "file_ok en f' \<and> frozen_in f f'"
proof -
  obtain ld s expiresAt f1 f3 where ld: "load_proposal f = Inr ld" and s: "state_of en f ld now None None = Inr s"
    and ready: "nothing_left (cp_counters s)" and fz: "freeze_version en f ld expiresAt now = Inr f1"
    and f3: "persist_proposal_transition (create_links (vn_id (lp_version ld))
        (expiresAt + pg_linkGraceDays (en_settings en) * DAY) fresh (lp_recipients ld) (revoke_links (\<lambda>_. True) now f1))
        (PE_SEND expiresAt) now (cp_counters s) (\<lambda>r. r) = Inr f3"
    and f': "f' = add_follow_ups (en_settings en) (lp_proposal ld) now expiresAt (cancel_follow_ups f3)"
    using send by (auto simp: send_def ebind_Inr_iff Let_def split: if_splits)
  let ?f2 = "create_links (vn_id (lp_version ld)) (expiresAt + pg_linkGraceDays (en_settings en) * DAY) fresh
        (lp_recipients ld) (revoke_links (\<lambda>_. True) now f1)"
  obtain i where v: "pw_currentVersionId (pf_proposal f) = Some i" "vn_id (lp_version ld) = i"
      "lp_recipients ld = sort_key rc_signingOrder (pf_recipients f)"
    using ld find_version_Some by (fastforce simp: load_Inr)
  note fz' = freeze_ok [OF ld s ready fz ok days]
  obtain nxt where nxt: "apply_proposal_event (to_proposal_snapshot (pf_proposal ?f2) (cp_counters s)) (PE_SEND expiresAt) now = Inr nxt"
      "pf_proposal f3 = row_after (pf_proposal ?f2) nxt now"
    and same: "pf_versions f3 = pf_versions ?f2" "pf_links f3 = pf_links ?f2" "pf_recipients f3 = pf_recipients ?f2"
    by (rule persist_Inr [OF f3]) simp
  have row: "pw_status (pf_proposal f3) = P_SENT" "pw_currentVersionId (pf_proposal f3) = Some i"
    using send_status [OF nxt(1)] fz' v by (simp_all add: nxt(2) row_after_def)
  have vs: "pf_versions f3 = pf_versions f1" by (simp add: same)
  have rid: "recipient_ids f3 = recipient_ids f"
    using fz' by (simp add: recipient_ids_def same(3)) (simp add: create_links_def revoke_links_def)
  have cores: "live_cores f3 = map (\<lambda>r. (i, rc_id r, None)) (lp_recipients ld)"
    using created_cores [of i _ fresh "lp_recipients ld" "revoke_links (\<lambda>_. True) now f1"]
    by (simp add: live_cores_def same(2) v(2)) (simp add: revoked_cores [unfolded live_cores_def])
  have ids: "distinct (recipient_ids f)" using ok by (simp add: file_ok_def links_ok_def)
  have cur: "current_version f3 = current_version f1"
    using fz' v by (simp add: current_version_def row find_version_same [OF vs])
  have "links_ok f3"
    using fz' sorted_recipient_ids [OF ids] ids
    by (auto simp: links_ok_def cores row cur rid v(3) comp_def)
  moreover have "versions_ok f3"
    using fz' v unfolding versions_ok_def vs cur row by (auto simp: status_fits_def)
  moreover have "\<forall>w \<in> set (pf_versions f3). vn_lockedAt w \<noteq> None \<longrightarrow> version_complete en w"
    using fz' by (simp add: vs)
  ultimately have ok3: "file_ok en f3" by (simp add: file_ok_def)
  have fr: "frame f3 f'" unfolding f' by (rule frame_trans [OF cancel_frame add_follow_ups_frame])
  then have "pf_versions f' = pf_versions f1" by (simp add: frame_def vs)
  then have "frozen_in f f'" using fz' by (simp add: frozen_in_def)
  with frame_ok [OF fr ok3] show ?thesis ..
qed

lemma revise_Inr:
  assumes "revise en f reason i now = Inr f'"
  obtains ld c f1 where "load_proposal f = Inr ld"
    "persist_proposal_transition f (PE_REVISE reason) now c (\<lambda>r. r) = Inr f1"
    "vn_lockedAt (lp_version ld) = None \<Longrightarrow> f' = f1"
    "vn_lockedAt (lp_version ld) \<noteq> None \<Longrightarrow>
       pf_versions f' = map (\<lambda>v. if vn_id v = vn_id (lp_version ld) then v\<lparr>vn_supersededAt := Some now\<rparr> else v) (pf_versions f1)
         @ [next_version f (lp_version ld) i]
       \<and> live_cores f' = [] \<and> recipient_ids f' = recipient_ids f1
       \<and> pw_currentVersionId (pf_proposal f') = Some i \<and> pw_status (pf_proposal f') = pw_status (pf_proposal f1)"
proof -
  have none: "filter (\<lambda>c. snd (snd c) = None)
      (map (link_core \<circ> (\<lambda>l. if lk_revokedAt l = None then l\<lparr>lk_revokedAt := Some now\<rparr> else l)) ls) = []" for ls
    by (induction ls) (auto simp: link_core_def)
  obtain ld c f1 where ld: "load_proposal f = Inr ld"
    and f1: "persist_proposal_transition f (PE_REVISE reason) now c (\<lambda>r. r) = Inr f1"
    and f': "f' = (if vn_lockedAt (lp_version ld) = None then f1 else
        let f2 = cancel_follow_ups (revoke_links (\<lambda>_. True) now
                   (update_version f1 (vn_id (lp_version ld)) (\<lambda>x. x\<lparr>vn_supersededAt := Some now\<rparr>)));
            f3 = f2\<lparr>pf_versions := pf_versions f2 @ [next_version f (lp_version ld) i],
                    pf_selections := pf_selections f2 @
                      (case lp_latestSelection ld of None \<Rightarrow> [] | Some sel \<Rightarrow> [(i, sel)])\<rparr>
        in set_row (\<lambda>p. p\<lparr>pw_currentVersionId := Some i, pw_updatedAt := now\<rparr>) f3)"
    using assms by (auto simp: revise_def ebind_Inr_iff Let_def split: if_splits)
  show thesis
    by (rule that [OF ld f1])
      (auto simp: f' Let_def set_row_def cancel_follow_ups_def revoke_links_def update_version_def
        live_cores_def recipient_ids_def none)
qed

lemma revise_ok:
  assumes revise: "revise en f reason i now = Inr f'" and fresh: "i \<notin> vn_id ` set (pf_versions f)"
    and ok: "file_ok en f"
  shows "file_ok en f' \<and> frozen_in f f'"
proof (rule revise_Inr [OF revise])
  fix ld c f1
  assume ld: "load_proposal f = Inr ld"
    and f1: "persist_proposal_transition f (PE_REVISE reason) now c (\<lambda>r. r) = Inr f1"
    and same: "vn_lockedAt (lp_version ld) = None \<Longrightarrow> f' = f1"
    and new: "vn_lockedAt (lp_version ld) \<noteq> None \<Longrightarrow>
       pf_versions f' = map (\<lambda>v. if vn_id v = vn_id (lp_version ld) then v\<lparr>vn_supersededAt := Some now\<rparr> else v) (pf_versions f1)
         @ [next_version f (lp_version ld) i]
       \<and> live_cores f' = [] \<and> recipient_ids f' = recipient_ids f1
       \<and> pw_currentVersionId (pf_proposal f') = Some i \<and> pw_status (pf_proposal f') = pw_status (pf_proposal f1)"
  let ?v = "lp_version ld"
  have v: "find_version f (vn_id ?v) = Some ?v" "pw_currentVersionId (pf_proposal f) = Some (vn_id ?v)"
    using ld find_version_Some by (fastforce simp: load_Inr)+
  obtain nxt where nxt: "apply_proposal_event (to_proposal_snapshot (pf_proposal f) c) (PE_REVISE reason) now = Inr nxt"
      "pf_proposal f1 = row_after (pf_proposal f) nxt now"
    and vs: "pf_versions f1 = pf_versions f" "pf_links f1 = pf_links f" "pf_recipients f1 = pf_recipients f"
    by (rule persist_Inr [OF f1]) simp
  have row: "pw_status (pf_proposal f1) = P_DRAFT" "pw_currentVersionId (pf_proposal f1) = Some (vn_id ?v)"
    using revise_status [OF nxt(1)] v(2) by (simp_all add: nxt(2) row_after_def)
  have cur: "current_version f = Some ?v" by (simp add: current_version_def v)
  have keeps: "versions_ok f" "links_ok f" "\<forall>w \<in> set (pf_versions f). vn_lockedAt w \<noteq> None \<longrightarrow> version_complete en w"
    using ok by (simp_all add: file_ok_def)
  show ?thesis
  proof (cases "vn_lockedAt ?v = None")
    case True
    have cur1: "current_version f1 = Some ?v"
      by (simp add: current_version_def row find_version_same [OF vs(1)] v(1))
    have "live_cores f1 = live_cores f" "recipient_ids f1 = recipient_ids f"
      by (simp_all add: live_cores_def recipient_ids_def vs)
    then have "file_ok en f1"
      using keeps True cur v(2) unfolding file_ok_def versions_ok_def links_ok_def cur1 row vs(1)
      by (auto simp: status_fits_def)
    with same [OF True] show ?thesis by (simp add: frozen_same vs)
  next
    case False
    note new' = new [OF False, unfolded vs(1)]
    let ?n = "next_version f ?v i"
    let ?vs = "map (\<lambda>v. if vn_id v = vn_id ?v then v\<lparr>vn_supersededAt := Some now\<rparr> else v) (pf_versions f)"
    have n: "vn_id ?n = i" "vn_lockedAt ?n = None" "vn_supersededAt ?n = None"
      by (simp_all add: next_version_def)
    have ids: "map vn_id ?vs = map vn_id (pf_versions f)" by (simp add: comp_def if_distrib cong: if_cong)
    have locked: "vn_lockedAt w \<noteq> None" if "w \<in> set (pf_versions f)" for w
    proof (cases "vn_id w = vn_id ?v")
      case True
      have "w = ?v" using True that keeps(1) find_version_Some [OF v(1)]
        unfolding versions_ok_def by (metis distinct_map inj_onD)
      with False show ?thesis by simp
    qed (use keeps(1) that v(2) in \<open>auto simp: versions_ok_def\<close>)
    have fv: "find_version f' i = Some ?n"
    proof -
      have "i \<notin> vn_id ` set ?vs" using fresh ids by (metis list.set_map)
      then have "List.find (\<lambda>w. vn_id w = i) ?vs = None" by (auto simp: find_None_iff)
      moreover have "List.find P xs = None \<Longrightarrow> List.find P (xs @ [y]) = (if P y then Some y else None)" for P y and xs :: "proposal_version list"
        by (induction xs) (auto split: if_splits)
      ultimately show ?thesis using new' n(1) by (simp add: find_version_def)
    qed
    then have "current_version f' = Some ?n" using new' by (simp add: current_version_def)
    moreover have "distinct (map vn_id (?vs @ [?n]))"
      using keeps(1) fresh n(1) by (simp add: ids versions_ok_def del: distinct_map map_map)
    moreover have "\<forall>w \<in> set (?vs @ [?n]). Some (vn_id w) \<noteq> Some i \<longrightarrow> vn_lockedAt w \<noteq> None \<and> vn_supersededAt w \<noteq> None"
      using keeps(1) locked n(1) v(2) by (auto simp: versions_ok_def)
    ultimately have "versions_ok f'"
      using new' n row(1) by (auto simp: versions_ok_def status_fits_def simp del: map_append map_map)
    moreover have "links_ok f'"
      using new' keeps(2) vs(3) by (simp add: links_ok_def recipient_ids_def)
    moreover have "version_complete en (w\<lparr>vn_supersededAt := Some now\<rparr>) = version_complete en w" for w
      by (simp add: version_complete_def)
    then have "\<forall>w \<in> set (pf_versions f'). vn_lockedAt w \<noteq> None \<longrightarrow> version_complete en w"
      using new' keeps(3) n(2) by auto
    moreover have "frozen_in f f'"
      unfolding frozen_in_def
    proof (intro ballI impI)
      fix v assume "v \<in> set (pf_versions f)"
      then have "(if vn_id v = vn_id ?v then v\<lparr>vn_supersededAt := Some now\<rparr> else v) \<in> set (pf_versions f')"
        unfolding conjunct1 [OF new'] by (simp del: if_image_distrib)
      then show "\<exists>v' \<in> set (pf_versions f'). v'\<lparr>vn_supersededAt := None\<rparr> = v\<lparr>vn_supersededAt := None\<rparr>"
        by (rule rev_bexI) simp
    qed
    ultimately show ?thesis by (simp add: file_ok_def)
  qed
qed

lemma life_ok:
  assumes "life en f f'" "file_ok en f" "writes_days (en_host en)"
  shows "file_ok en f' \<and> frozen_in f f'"
  using assms
proof (induction rule: life.induct)
  case (quiet f f')
  then show ?case using frame_ok by (auto simp: frame_def intro: frozen_same)
next
  case (edit f ld g)
  then show ?case using edit_ok by blast
next
  case (event f e now c extra f')
  then show ?case using event_ok persist_Inr frozen_same by metis
next
  case (send f fresh now f')
  then show ?case using send_ok by blast
next
  case (revise f reason i now f')
  then show ?case using revise_ok by blast
next
  case (renew_links f v rs P expiresAt fresh now)
  then show ?case by (simp add: renew_ok frozen_same)
qed

lemma lives_ok:
  assumes "(life en)\<^sup>*\<^sup>* f f'" "file_ok en f" "writes_days (en_host en)"
  shows "file_ok en f' \<and> frozen_in f f'"
  using assms
proof (induction rule: rtranclp_induct)
  case (step g h)
  then show ?case using life_ok [of en g h] frozen_trans by blast
qed simp

end
