(* ===== verification/ProposalSample.thy ===== *)
theory ProposalSample
  imports ProposalGuarantees QuoteLaws
begin

text \<open>
  A small proposal used by the examples: ten seats at 30.00 a month, three sections, one signer. It is
  made ready, then sent.
\<close>

definition sample_line :: proposal_pricing_line where
  "sample_line =
     \<lparr>pp_key = ''poste'', pp_label = ''Postes'', pp_kind = LK_REQUIRED, pp_unit = ''poste'',
      pp_recurrence = PR_MONTHLY,
      pp_quantity = Some \<lparr>pq_default = QNumber 10, pq_min = 0, pq_max = None, pq_maxFrom = None,
        pq_linkedTo = None, pq_editableByClient = True\<rparr>,
      pp_pricing = UnitCents 3000, pp_priceFrom = None, pp_priceStatus = PS_VALIDATED,
      pp_priceStatusByChoice = None, pp_group = LG_RECURRING, pp_grid = None\<rparr>"

definition sample_definition :: proposal_definition where
  "sample_definition = \<lparr>pd_choices = [], pd_lines = [sample_line], pd_rules = [], pd_vatRatePercent = ''20''\<rparr>"

definition sample_section :: "string \<Rightarrow> section_kind \<Rightarrow> block list \<Rightarrow> section_row" where
  "sample_section k kind blocks =
     \<lparr>sr_key = k, sr_title = k, sr_kind = kind, sr_optional = False, sr_excluded = False,
      sr_validationStatus = PS_VALIDATED, sr_libraryItemKey = None, sr_guidance = None,
      sr_aiPendingReview = False, sr_aiSources = None, sr_blocks = blocks\<rparr>"

definition sample_version :: proposal_version where
  "sample_version =
     \<lparr>vn_id = ''v1'', vn_number = 1, vn_title = ''Proposition {{proposition.numero}}'',
      vn_pricingDefinition = sample_definition, vn_pricingSettings = None,
      vn_sections = [sample_section ''couverture'' SK_COVER [], sample_section ''prix'' SK_PRICING [PRICING_TABLE None],
        sample_section ''signature'' SK_SIGNATURE [SIGNATURE_BLOCK]],
      vn_terms = None, vn_mergeValues = None, vn_lockedAt = None, vn_supersededAt = None\<rparr>"

definition sample_row :: proposal_row where
  "sample_row =
     \<lparr>pw_id = ''p1'', pw_number = ''PROP-2026-0001'', pw_title = ''Proposition'', pw_status = P_DRAFT,
      pw_acceptanceMode = DOCUSEAL_SIGNATURE, pw_currentVersionId = Some ''v1'', pw_validityDays = 30,
      pw_fixedExpiryDate = None, pw_expiresAt = None, pw_reviewSubmittedByUserId = None,
      pw_reviewApprovedVersionId = None, pw_acceptedVersionId = None, pw_mergeContext = [],
      pw_customerName = ''Durand'', pw_customerLegalName = None, pw_customerSiren = None, pw_ownerName = None,
      pw_followUpsEnabled = False, pw_followUpConfig = None, pw_sensitive = False,
      pw_firstViewedAt = None, pw_clientRespondedAt = None, pw_stamps = [], pw_updatedAt = 0,
      pw_monthlyCents = 0, pw_oneTimeCents = 0, pw_commitmentTotalCents = 0, pw_reviewRequired = False\<rparr>"

definition sample_recipient :: recipient where
  "sample_recipient =
     \<lparr>rc_id = ''r1'', rc_fullName = ''Anne Durand'', rc_email = ''anne@durand.fr'', rc_role = SIGNER,
      rc_signingOrder = 0, rc_contact = None\<rparr>"

definition sample_file :: proposal_file where
  "sample_file =
     \<lparr>pf_proposal = sample_row, pf_versions = [sample_version], pf_recipients = [sample_recipient],
      pf_selections = [], pf_links = [], pf_followUps = [], pf_snapshots = [], pf_acceptances = [],
      pf_outbox = [], pf_template = None, pf_latestTerms = None\<rparr>"

definition sample_env :: "rat proposal_env" where
  "sample_env =
     \<lparr>en_decimals = rat_ops,
      en_host = \<lparr>ph_numbers = \<lparr>nt_integer = rat_to_string, nt_money = rat_to_string, nt_text = rat_to_string\<rparr>,
        ph_parisDay = (\<lambda>t. ''2026-01-01''), ph_sha = (\<lambda>s. s)\<rparr>,
      en_settings = \<lparr>pg_reviewDiscountPercent = 10, pg_reviewAmountCents = None, pg_clickAcceptMaxCents = 1000000,
        pg_defaultValidityDays = 30, pg_followUps = None, pg_linkGraceDays = 7,
        pg_pricing = full_settings DEFAULT_PRICING_SETTINGS\<rparr>\<rparr>"

lemma sample_configured:
  "configure sample_definition \<lparr>ps_choices = [], ps_quantities = [], ps_selectedOptions = [], ps_context = []\<rparr>
   = \<lparr>cf_choices = [], cf_commitmentMonths = 0, cf_included = [(''poste'', 10)], cf_errors = []\<rparr>"
  by code_simp

lemma sample_engine_lines:
  "engine_lines sample_definition
     \<lparr>cf_choices = [], cf_commitmentMonths = 0, cf_included = [(''poste'', 10)], cf_errors = []\<rparr> = [seat_line]"
  by code_simp

definition sample_opts :: "partial_settings option \<Rightarrow> quote_options" where
  "sample_opts settings = \<lparr>qo_date = ''2026-01-01'', qo_settings = settings, qo_scheduleId = None\<rparr>"

lemma sample_quoted:
  assumes "resolve_settings rat_ops ss = Inr DEFAULT_PRICING_SETTINGS"
  shows "\<exists>q. quote_proposal rat_ops sample_definition
         \<lparr>ps_choices = [], ps_quantities = [], ps_selectedOptions = [], ps_context = []\<rparr> (sample_opts ss) = Inr q
     \<and> pt_errors q = [] \<and> pt_blockingValidations q = []
     \<and> pt_engineSchedule q \<noteq> None \<and> pt_engineResult q \<noteq> None"
proof -
  let ?S = "proposal_schedule (sample_opts ss) [seat_line]"
  let ?cfg = "\<lparr>cf_choices = [], cf_commitmentMonths = 0, cf_included = [(''poste'', 10)], cf_errors = []\<rparr> :: configuration"
  obtain a where a: "price_regular_line rat_ops seat_line new_year_ctx = Inr a" "pl_lineId a = ''poste''"
    using seat_priced by (elim exE conjE)
  have ids: "ln_id seat_line = ''poste''" "ln_kind seat_line = UNIT"
    by (simp_all add: seat_line_def)
  have sched: "sd_lines ?S = [seat_line]" "sd_currency ?S = ''EUR''" "sd_id ?S = ''proposal''"
      "sd_validFrom ?S = ''2026-01-01''" "sd_validTo ?S = None"
    by (simp_all add: proposal_schedule_def sample_opts_def)
  have day: "qo_date (sample_opts ss) = ''2026-01-01''" "qo_settings (sample_opts ss) = ss"
    by (simp_all add: sample_opts_def)
  have lines: "price_lines rat_ops ?S new_year_ctx = Inr [a]"
    by (simp add: price_lines_def sched ids a with_line_of_def priced_get_def)
  have "price_schedule rat_ops DEFAULT_PRICING_SETTINGS ?S ''2026-01-01'' = Inr
      \<lparr>pr_date = ''2026-01-01'', pr_scheduleId = ''proposal'', pr_scheduleValidFrom = ''2026-01-01'',
       pr_scheduleValidTo = None, pr_settings = DEFAULT_PRICING_SETTINGS, pr_lines = [a],
       pr_totals = compute_totals rat_ops [a] DEFAULT_PRICING_SETTINGS\<rparr>"
    using lines
    by (simp add: price_schedule_def price_at_def new_year_reads select_schedule_def check_schedule_def
        covers_def sched context_of_def quote_ctx_def)
  moreover have "minimum_rule (pd_rules sample_definition) = None" by (simp add: sample_definition_def)
  ultimately obtain r where r: "price_with_minimum rat_ops sample_definition DEFAULT_PRICING_SETTINGS (sample_opts ss) [seat_line] = Inr (?S, r)"
    by (simp add: price_with_minimum_def day)
  have q: "quote_proposal rat_ops sample_definition
      \<lparr>ps_choices = [], ps_quantities = [], ps_selectedOptions = [], ps_context = []\<rparr> (sample_opts ss)
      = Inr (quote_of_result rat_ops sample_definition ?cfg ?S r)"
    using r assms by (simp add: quote_proposal_def day sample_configured sample_engine_lines is_integer_def)
  have validated: "ql_priceStatus (quoted_line_of rat_ops sample_definition cfg p) = PS_VALIDATED" for cfg p
    by (simp add: quoted_line_of_def Let_def line_of_def rule_of_def sample_definition_def sample_line_def
        effective_price_status_def)
  have none: "blocking_validations sample_definition (filter P (map (quoted_line_of rat_ops sample_definition cfg) ls)) = []"
    for cfg ls P
    by (simp add: blocking_validations_def filter_empty_conv validated) (simp add: sample_definition_def)
  then have "pt_errors (quote_of_result rat_ops sample_definition ?cfg ?S r) = []
      \<and> pt_blockingValidations (quote_of_result rat_ops sample_definition ?cfg ?S r) = []
      \<and> pt_engineSchedule (quote_of_result rat_ops sample_definition ?cfg ?S r) \<noteq> None
      \<and> pt_engineResult (quote_of_result rat_ops sample_definition ?cfg ?S r) \<noteq> None"
    by (simp add: quote_of_result_def Let_def none del: filter_map)
  with q show ?thesis by blast
qed

text \<open>The proposal in a status, at a date of update, with or without a date of expiry.\<close>

definition sample_at :: "proposal_status \<Rightarrow> jsdate \<Rightarrow> proposal_row" where
  "sample_at st t = sample_row\<lparr>pw_status := st, pw_updatedAt := t\<rparr>"

definition sample_loaded :: "proposal_status \<Rightarrow> jsdate \<Rightarrow> loaded_proposal" where
  "sample_loaded st t =
     \<lparr>lp_proposal = sample_at st t, lp_version = sample_version, lp_recipients = [sample_recipient],
      lp_latestSelection = None\<rparr>"

definition sample_counters :: readiness_counters where
  "sample_counters =
     \<lparr>rk_hasRecipients = True, rk_hasSigner = True, rk_unresolvedMergeTags = 0, rk_blockingValidations = 0,
      rk_pricingErrors = 0, rk_reviewRequired = False\<rparr>"

lemma sample_texts:
  "content_issues (ph_numbers (en_host sample_env)) (vn_title sample_version) (vn_sections sample_version)
     (merge_values_for (state_sources (en_host sample_env) (sample_loaded st t) q e now)) False = []"
  by code_simp

lemma sample_state:
  "\<exists>s. compute_state rat_ops (en_host sample_env) (en_settings sample_env) (sample_loaded st t) now None None e = Inr s
     \<and> cp_counters s = sample_counters \<and> cp_definition s = sample_definition"
proof -
  obtain q where q: "quote_proposal rat_ops sample_definition
         \<lparr>ps_choices = [], ps_quantities = [], ps_selectedOptions = [], ps_context = []\<rparr>
         (sample_opts (Some (full_settings DEFAULT_PRICING_SETTINGS))) = Inr q"
     "pt_errors q = []" "pt_blockingValidations q = []"
    using sample_quoted [OF new_year_reads(2)] by (elim exE conjE)
  let ?ld = "sample_loaded st t"
  have quote: "state_quote rat_ops (en_host sample_env) (en_settings sample_env) sample_definition
      (vn_pricingSettings sample_version) EMPTY_SELECTION (pw_mergeContext (sample_at st t)) now = Inr q"
    using q(1) by (simp add: state_quote_def sample_env_def sample_version_def EMPTY_SELECTION_def
        sample_at_def sample_row_def pricing_context_of_def sample_opts_def)
  have secs: "sections_to_validate (vn_sections sample_version) = []"
      "sections_to_reread (vn_sections sample_version) = []"
      "reference_reasons (en_host sample_env) (vn_sections sample_version) = []"
    by (simp_all add: sections_to_validate_def sections_to_reread_def reference_reasons_def
        sample_version_def sample_section_def)
  have issues: "state_issues (en_host sample_env) (en_settings sample_env) ?ld q
      (merge_values_for (state_sources (en_host sample_env) ?ld q e now)) = []"
    using q(2,3) secs sample_texts [of st t q e now]
    by (simp add: state_issues_def sample_loaded_def sample_at_def sample_row_def)
      (simp add: sample_version_def)
  have reasons: "review_reasons (en_host sample_env) (en_settings sample_env) sample_definition q
      (vn_sections sample_version) = []"
    using secs(3) by (simp add: review_reasons_def discount_reasons_def sample_definition_def)
      (simp add: sample_env_def)
  have "state_counters ?ld q [] [] [] = sample_counters"
    using q(2) by (simp add: state_counters_def sample_counters_def count_codes_def sample_loaded_def
        sample_at_def sample_row_def sample_recipient_def)
  moreover have "lp_version ?ld = sample_version" "lp_proposal ?ld = sample_at st t"
      "lp_latestSelection ?ld = None" "vn_pricingDefinition sample_version = sample_definition"
    by (simp_all add: sample_loaded_def sample_version_def)
  ultimately show ?thesis
    using quote secs issues reasons q(3)
    by (simp add: compute_state_def Let_def with_template_validations_def selection_of_def)
qed

subsection \<open>Made ready, then sent\<close>

definition sample_ready :: proposal_file where
  "sample_ready = sample_file\<lparr>pf_proposal := sample_at P_READY 1000\<rparr>"

definition sample_token :: string where
  "sample_token = replicate 43 (CHR ''a'')"

definition sample_expiry :: jsdate where
  "sample_expiry = 2592002000"

definition sample_link :: access_link where
  "sample_link =
     \<lparr>lk_id = ''l1'', lk_versionId = ''v1'', lk_recipientId = ''r1'', lk_tokenHash = sample_token,
      lk_expiresAt = sample_expiry + 604800000, lk_revokedAt = None, lk_otpHash = None, lk_otpExpiresAt = None,
      lk_otpAttempts = 0, lk_otpSessionHash = None, lk_otpSessionExpiresAt = None\<rparr>"

definition sample_frozen :: "(string \<times> context_value) list \<Rightarrow> proposal_version" where
  "sample_frozen vals = sample_version\<lparr>vn_mergeValues := Some vals, vn_lockedAt := Some 2000\<rparr>"

definition sample_sent_row :: proposal_row where
  "sample_sent_row =
     (sample_at P_SENT 2000)\<lparr>pw_expiresAt := Some sample_expiry, pw_stamps := [(P_SENT, 2000)]\<rparr>"

definition sample_sent :: "(string \<times> context_value) list \<Rightarrow> proposal_file" where
  "sample_sent vals =
     sample_file\<lparr>pf_proposal := sample_sent_row, pf_versions := [sample_frozen vals], pf_links := [sample_link],
       pf_outbox := [\<lparr>ob_type = EV_SENT, ob_status = P_SENT, ob_previousStatus = P_READY,
                      ob_versionNumber = Some 1, ob_occurredAt = 2000\<rparr>]\<rparr>"

lemma sample_loads:
  "load_proposal sample_file = Inr (sample_loaded P_DRAFT 0)"
  "load_proposal sample_ready = Inr (sample_loaded P_READY 1000)"
  by (simp_all add: load_proposal_def load_version_def find_version_def latest_selection_def sample_ready_def
      sample_file_def sample_loaded_def sample_at_def sample_row_def sample_version_def)

lemma sample_state_of:
  assumes "pf_template f = None"
  shows "\<exists>s. state_of sample_env f (sample_loaded st t) now None e = Inr s
     \<and> cp_counters s = sample_counters \<and> cp_definition s = sample_definition"
  using sample_state [of st t now e] assms by (auto simp: state_of_def) (simp add: sample_env_def)

lemma sample_marked:
  "persist_proposal_transition sample_file (PE_MARK_READY ''u'') 1000 sample_counters (\<lambda>r. r) = Inr sample_ready"
  by code_simp

lemma sample_made_ready: "transition sample_env sample_file (PE_MARK_READY ''u'') 1000 = Inr sample_ready"
proof -
  have "pf_template sample_file = None" "pf_template sample_ready = None"
    by (simp_all add: sample_file_def sample_ready_def)
  then obtain s s' where s: "state_of sample_env sample_file (sample_loaded P_DRAFT 0) 1000 None None = Inr s"
      "cp_counters s = sample_counters"
    and s': "state_of sample_env sample_ready (sample_loaded P_READY 1000) 1000 None None = Inr s'"
    using sample_state_of by meson
  then show ?thesis
    by (simp add: transition_def sample_loads sample_marked detail_def)
qed

lemma sample_persist_send:
  "persist_proposal_transition
     (sample_ready\<lparr>pf_versions := [sample_frozen vals], pf_links := [sample_link]\<rparr>)
     (PE_SEND sample_expiry) 2000 sample_counters (\<lambda>r. r) = Inr (sample_sent vals)"
  by code_simp

lemma sample_was_sent: "\<exists>vals. send sample_env sample_ready (\<lambda>_. (''l1'', sample_token)) 2000 = Inr (sample_sent vals)"
proof -
  have t: "pf_template sample_ready = None" by (simp add: sample_file_def sample_ready_def)
  obtain s where s: "state_of sample_env sample_ready (sample_loaded P_READY 1000) 2000 None None = Inr s"
      "cp_counters s = sample_counters"
    using sample_state_of [OF t] by meson
  obtain z where z: "state_of sample_env sample_ready (sample_loaded P_READY 1000) 2000 None (Some ''2026-01-01'') = Inr z"
      "cp_definition z = sample_definition"
    using sample_state_of [OF t] by meson
  let ?vals = "cp_mergeValues z"
  have ld: "lp_version (sample_loaded P_READY 1000) = sample_version" "lp_proposal (sample_loaded P_READY 1000) = sample_at P_READY 1000"
      "lp_recipients (sample_loaded P_READY 1000) = [sample_recipient]"
    by (simp_all add: sample_loaded_def)
  have row: "send_expiry (en_host sample_env) (sample_at P_READY 1000) sample_version 2000 = sample_expiry"
      "ph_parisDay (en_host sample_env) x = ''2026-01-01''" "vn_lockedAt sample_version = None" "vn_id sample_version = ''v1''"
      "pw_followUpsEnabled (sample_at P_READY 1000) = False" for x
    by (simp_all add: send_expiry_def sample_version_def sample_at_def sample_row_def sample_expiry_def DAY_def
        sample_env_def)
  have frozen: "freeze_version sample_env sample_ready (sample_loaded P_READY 1000) sample_expiry 2000
      = Inr (sample_ready\<lparr>pf_versions := [sample_frozen ?vals]\<rparr>)"
    using z by (simp add: freeze_version_def ld row)
      (simp add: update_version_def sample_ready_def sample_file_def sample_frozen_def sample_version_def)
  have links: "create_links ''v1'' (sample_expiry + pg_linkGraceDays (en_settings sample_env) * DAY)
      (\<lambda>_. (''l1'', sample_token)) [sample_recipient] (revoke_links (\<lambda>_. True) 2000 (sample_ready\<lparr>pf_versions := vs\<rparr>))
      = sample_ready\<lparr>pf_versions := vs, pf_links := [sample_link]\<rparr>" for vs
    by (simp add: create_links_def revoke_links_def new_link_def sample_ready_def sample_file_def sample_link_def
        sample_recipient_def sample_env_def DAY_def)
  have "cancel_follow_ups (sample_sent v) = sample_sent v" for v
    by (simp add: cancel_follow_ups_def sample_sent_def sample_file_def)
  then have "send sample_env sample_ready (\<lambda>_. (''l1'', sample_token)) 2000 = Inr (sample_sent ?vals)"
    using s by (simp add: send_def sample_loads ld row frozen links sample_persist_send add_follow_ups_def Let_def)
      (simp add: sample_counters_def nothing_left_def)
  then show ?thesis ..
qed

end
