(* ===== verification/ProposalSafety.thy ===== *)
theory ProposalSafety
  imports ProposalSample
begin

text \<open>
  What the calls guarantee of a proposal from its creation on, whoever makes them and in whatever
  order: the statements of the invariant of \<open>ProposalGuarantees\<close>, and an example they apply to.
\<close>

text \<open>What \<open>create\<close> writes: one version being written, the current one, and no link.\<close>

definition new_file :: "proposal_file \<Rightarrow> bool" where
  "new_file f =
     (case pf_versions f of
        [v] \<Rightarrow> vn_lockedAt v = None \<and> vn_supersededAt v = None
               \<and> pw_currentVersionId (pf_proposal f) = Some (vn_id v)
               \<and> pw_status (pf_proposal f) = P_DRAFT \<and> pf_links f = [] \<and> distinct (recipient_ids f)
      | _ \<Rightarrow> False)"

definition reached :: "'d proposal_env \<Rightarrow> proposal_file \<Rightarrow> proposal_file \<Rightarrow> bool" where
  "reached en f0 f \<longleftrightarrow> new_file f0 \<and> (file_step en)\<^sup>*\<^sup>* f0 f"

lemma new_file_ok: "new_file f \<Longrightarrow> file_ok en f"
  by (auto simp: new_file_def file_ok_def versions_ok_def links_ok_def live_cores_def current_version_def
      find_version_def status_fits_def split: list.splits)

lemma steps_ok:
  assumes "(file_step en)\<^sup>*\<^sup>* f g" "file_ok en f" "writes_days (en_host en)"
  shows "file_ok en g \<and> frozen_in f g"
  using assms
proof (induction rule: rtranclp_induct)
  case (step g h)
  then have "file_ok en g" "frozen_in f g" by simp_all
  with lives_ok [OF moves_of_step [OF step.hyps(2)]] step.prems(2) frozen_trans show ?case by blast
qed simp

lemma reached_ok: "reached en f0 f \<Longrightarrow> writes_days (en_host en) \<Longrightarrow> file_ok en f"
  by (metis steps_ok new_file_ok reached_def)

definition sent_before :: "proposal_version \<Rightarrow> proposal_file \<Rightarrow> bool" where
  "sent_before v f \<longleftrightarrow> v \<in> set (pf_versions f) \<and> vn_lockedAt v \<noteq> None"

text \<open>C4: A version that was sent never changes again. Whatever is called afterwards, the file still holds
  a version with the same identifier, the same title, sections, prices, terms, frozen values and
  date of sending: only the date it is superseded may have been written.\<close>

theorem sent_version_never_changes:
  assumes "reached en f0 f" "writes_days (en_host en)" "sent_before v f" "(file_step en)\<^sup>*\<^sup>* f g"
  shows "\<exists>w. sent_before w g \<and> w\<lparr>vn_supersededAt := None\<rparr> = v\<lparr>vn_supersededAt := None\<rparr>"
proof -
  have "frozen_in f g" using steps_ok [OF assms(4) reached_ok [OF assms(1,2)] assms(2)] ..
  then obtain w where "w \<in> set (pf_versions g)" "w\<lparr>vn_supersededAt := None\<rparr> = v\<lparr>vn_supersededAt := None\<rparr>"
    using assms(3) by (auto simp: frozen_in_def sent_before_def)
  with unsuperseded_locked [OF this(2)] assms(3) show ?thesis by (auto simp: sent_before_def)
qed

definition live_link :: "access_link \<Rightarrow> proposal_file \<Rightarrow> bool" where
  "live_link l f \<longleftrightarrow> l \<in> set (pf_links f) \<and> lk_revokedAt l = None"

lemma live_link_core: "live_link l f \<Longrightarrow> link_core l \<in> set (live_cores f)"
  by (auto simp: live_link_def live_cores_def link_core_def)

text \<open>A revision writes the sections without the state of the AI drafts: a section left out of the sent version
  because its draft was still to be reviewed is no longer marked when it is put back.\<close>

lemma revision_forgets_ai_review: "s \<in> set (vn_sections (next_version f v i)) \<Longrightarrow> \<not> sr_aiPendingReview s"
  by (auto simp: next_version_def written_section_def last_entry_def)


text \<open>What a first sending writes: the version is frozen, the selections and the values stay.\<close>

lemma first_sending:
  assumes "send en f fresh now = Inr f'" "load_proposal f = Inr ld" "vn_lockedAt (lp_version ld) = None"
  obtains s where "state_of en f ld now None None = Inr s" "nothing_left (cp_counters s)"
    "\<exists>vals. find_version f' (vn_id (lp_version ld)) = Some ((lp_version ld)\<lparr>vn_mergeValues := Some vals,
        vn_pricingDefinition := cp_definition s, vn_lockedAt := Some now\<rparr>)"
    "pf_selections f' = pf_selections f" "pf_recipients f' = pf_recipients f"
    "pw_mergeContext (pf_proposal f') = pw_mergeContext (pf_proposal f)"
    "set (live_cores f') = (\<lambda>r. (vn_id (lp_version ld), rc_id r, None)) ` set (pf_recipients f)"
proof -
  obtain s expiresAt f1 f3 where s: "state_of en f ld now None None = Inr s"
    and ready: "nothing_left (cp_counters s)" and fz: "freeze_version en f ld expiresAt now = Inr f1"
    and f3: "persist_proposal_transition (create_links (vn_id (lp_version ld))
        (expiresAt + pg_linkGraceDays (en_settings en) * DAY) fresh (lp_recipients ld) (revoke_links (\<lambda>_. True) now f1))
        (PE_SEND expiresAt) now (cp_counters s) (\<lambda>r. r) = Inr f3"
    and f': "f' = add_follow_ups (en_settings en) (lp_proposal ld) now expiresAt (cancel_follow_ups f3)"
    using assms(1,2) by (auto simp: send_def ebind_Inr_iff Let_def split: if_splits)
  obtain fr where fr: "state_of en f ld now None (Some (ph_parisDay (en_host en) expiresAt)) = Inr fr"
    and f1: "f1 = update_version f (vn_id (lp_version ld)) (\<lambda>v. v\<lparr>vn_mergeValues := Some (cp_mergeValues fr),
              vn_pricingDefinition := cp_definition fr, vn_lockedAt := Some now\<rparr>)"
    using freeze_Inr [OF fz] assms(3) by auto
  have defs: "cp_definition fr = cp_definition s"
    using s fr by (auto simp: state_of_def compute_state_def Let_def ebind_Inr_iff)
  have v: "find_version f (vn_id (lp_version ld)) = Some (lp_version ld)"
    and rs: "set (lp_recipients ld) = set (pf_recipients f)"
    using assms(2) find_version_Some by (fastforce simp: load_Inr)+
  let ?f2 = "create_links (vn_id (lp_version ld)) (expiresAt + pg_linkGraceDays (en_settings en) * DAY) fresh
        (lp_recipients ld) (revoke_links (\<lambda>_. True) now f1)"
  have sel: "pf_selections f3 = pf_selections ?f2"
    using f3 by (auto simp: persist_proposal_transition_def ebind_Inr_iff Let_def)
  obtain nxt where "pf_proposal f3 = row_after (pf_proposal ?f2) nxt now"
    and same: "pf_versions f3 = pf_versions ?f2" "pf_links f3 = pf_links ?f2" "pf_recipients f3 = pf_recipients ?f2"
    by (rule persist_Inr [OF f3]) simp
  then have ctx: "pw_mergeContext (pf_proposal f') = pw_mergeContext (pf_proposal f)"
    by (simp add: f' add_follow_ups_def cancel_follow_ups_def row_after_def f1 update_version_def)
  have keep: "pf_versions f' = pf_versions f1" "pf_links f' = pf_links ?f2"
      "pf_selections f' = pf_selections f" "pf_recipients f' = pf_recipients f"
    by (simp_all add: f' add_follow_ups_def cancel_follow_ups_def same sel)
      (simp_all add: f1 update_version_def create_links_def revoke_links_def)
  let ?g = "\<lambda>v. v\<lparr>vn_mergeValues := Some (cp_mergeValues fr), vn_pricingDefinition := cp_definition s,
      vn_lockedAt := Some now\<rparr>"
  have "find_version f' (vn_id (lp_version ld)) = Some (?g (lp_version ld))"
    using find_map_same [of "\<lambda>w. vn_id w = vn_id (lp_version ld)"
        "\<lambda>w. if vn_id w = vn_id (lp_version ld) then ?g w else w" "pf_versions f"] v
    by (simp add: find_version_def keep(1) f1 defs update_version_def)
  moreover have "live_cores f' = map (\<lambda>r. (vn_id (lp_version ld), rc_id r, None)) (lp_recipients ld)"
    using created_cores [of "vn_id (lp_version ld)" _ fresh "lp_recipients ld" "revoke_links (\<lambda>_. True) now f1"]
    by (simp add: live_cores_def keep(2)) (simp add: revoked_cores [unfolded live_cores_def])
  then have "set (live_cores f') = (\<lambda>r. (vn_id (lp_version ld), rc_id r, None)) ` set (pf_recipients f)"
    by (simp add: rs)
  ultimately show thesis
    by (intro that [OF s ready _ keep(3,4) ctx]) (rule exI)
qed

text \<open>A quote depends on the settings by what they resolve to.\<close>

lemma quote_settings:
  assumes "resolve_settings dc a = resolve_settings dc b"
  shows "quote_proposal dc def sel \<lparr>qo_date = d, qo_settings = a, qo_scheduleId = i\<rparr>
     = quote_proposal dc def sel \<lparr>qo_date = d, qo_settings = b, qo_scheduleId = i\<rparr>"
proof -
  have same: "price_with_minimum dc def st \<lparr>qo_date = d, qo_settings = a, qo_scheduleId = i\<rparr>
     = price_with_minimum dc def st \<lparr>qo_date = d, qo_settings = b, qo_scheduleId = i\<rparr>" for st
    unfolding price_with_minimum_def proposal_schedule_def quote_options.select_convs by (rule refl)
  show ?thesis unfolding quote_proposal_def quote_options.select_convs assms same by (rule refl)
qed

text \<open>C39: When a version is sent for the first time, the link of each recipient opens that version, locked,
  with the selection its prices were computed for. The prices frozen in the version, quoted with that
  selection, the values of the proposal and the settings of the tenant, give the quote of the
  sending: without error and with nothing left to validate. When the settings of the version, copied
  from the tenant at its creation, resolve alone to the same ones, this is the quote of the page.
  An option not selected then may still be to validate, and the client may select it afterwards.\<close>

theorem sending_shows_validated_prices:
  assumes "send en f fresh now = Inr f'" "load_proposal f = Inr ld" "vn_lockedAt (lp_version ld) = None"
    and "live_link l f'"
  shows "\<exists>d q. load_for_link f' l = Inr d \<and> vn_id (pu_version d) = vn_id (lp_version ld)
     \<and> vn_lockedAt (pu_version d) = Some now \<and> pu_latestSelection d = lp_latestSelection ld
     \<and> state_quote (en_decimals en) (en_host en) (en_settings en) (vn_pricingDefinition (pu_version d))
          (vn_pricingSettings (pu_version d)) (selection_of (pu_latestSelection d))
          (pw_mergeContext (pf_proposal f')) now = Inr q
     \<and> pt_errors q = [] \<and> pt_blockingValidations q = []
     \<and> (resolve_settings (en_decimals en) (vn_pricingSettings (pu_version d))
           = resolve_settings (en_decimals en) (Some (case vn_pricingSettings (pu_version d) of
               None \<Rightarrow> pg_pricing (en_settings en) | Some t \<Rightarrow> merge_settings (pg_pricing (en_settings en)) t))
         \<longrightarrow> public_quote en (pf_proposal f') (pu_version d) (selection_of (pu_latestSelection d)) now = Inr q)"
proof -
  obtain s vals where s: "state_of en f ld now None None = Inr s" and ready: "nothing_left (cp_counters s)"
    and v: "find_version f' (vn_id (lp_version ld)) = Some ((lp_version ld)\<lparr>vn_mergeValues := Some vals,
        vn_pricingDefinition := cp_definition s, vn_lockedAt := Some now\<rparr>)"
    and keep: "pf_selections f' = pf_selections f" "pf_recipients f' = pf_recipients f"
      "pw_mergeContext (pf_proposal f') = pw_mergeContext (pf_proposal f)"
    and cores: "set (live_cores f') = (\<lambda>r. (vn_id (lp_version ld), rc_id r, None)) ` set (pf_recipients f)"
    by (rule first_sending [OF assms(1-3)]) blast
  have loaded: "lp_proposal ld = pf_proposal f" "lp_latestSelection ld = latest_selection f (vn_id (lp_version ld))"
    using assms(2) find_version_Some by (fastforce simp: load_Inr)+
  obtain r where r: "lk_versionId l = vn_id (lp_version ld)" "r \<in> set (pf_recipients f)" "rc_id r = lk_recipientId l"
    using live_link_core [OF assms(4)] cores by (auto simp: link_core_def)
  then obtain r' where r': "List.find (\<lambda>r. rc_id r = lk_recipientId l) (pf_recipients f') = Some r'"
    using keep(2) by (cases "List.find (\<lambda>r. rc_id r = lk_recipientId l) (pf_recipients f')") (auto simp: find_None_iff)
  let ?v = "(lp_version ld)\<lparr>vn_mergeValues := Some vals, vn_pricingDefinition := cp_definition s,
      vn_lockedAt := Some now\<rparr>"
  let ?d = "\<lparr>pu_version = ?v, pu_recipient = r', pu_latestSelection = lp_latestSelection ld\<rparr> :: public_view"
  have d: "load_for_link f' l = Inr ?d"
    using v r' r(1) by (simp add: load_for_link_def loaded(2) latest_selection_def keep(1))
  have cs: "compute_state (en_decimals en) (en_host en) (en_settings en) ld now (pf_template f) None None = Inr s"
    using s by (simp add: state_of_def)
  then have q: "state_quote (en_decimals en) (en_host en) (en_settings en) (cp_definition s)
      (vn_pricingSettings (lp_version ld)) (selection_of (lp_latestSelection ld))
      (pw_mergeContext (pf_proposal f')) now = Inr (cp_quote s)"
    by (auto simp: compute_state_def Let_def ebind_Inr_iff keep(3) loaded(1))
  have page: "public_quote en (pf_proposal f') ?v (selection_of (lp_latestSelection ld)) now = Inr (cp_quote s)"
    if "resolve_settings (en_decimals en) (vn_pricingSettings ?v)
           = resolve_settings (en_decimals en) (Some (case vn_pricingSettings ?v of
               None \<Rightarrow> pg_pricing (en_settings en) | Some t \<Rightarrow> merge_settings (pg_pricing (en_settings en)) t))"
    using q quote_settings [OF that] by (simp add: public_quote_def state_quote_def)
  show ?thesis
    using d q page ready_proposal_is_complete [OF cs ready] by (intro exI [of _ ?d] exI [of _ "cp_quote s"]) simp
qed

text \<open>C25: At any time a recipient holds at most one link that was not revoked, however often the proposal
  was sent again, revised or recalled by a follow-up.\<close>

theorem one_live_link_per_recipient:
  assumes "reached en f0 f" "writes_days (en_host en)"
  shows "distinct (map lk_recipientId (filter (\<lambda>l. lk_revokedAt l = None) (pf_links f)))"
proof -
  have "distinct (map (\<lambda>c. fst (snd c)) (live_cores f))"
    using reached_ok [OF assms(1,2)] by (simp add: file_ok_def links_ok_def)
  then show ?thesis by (simp add: live_cores_def filter_map comp_def link_core_def)
qed

text \<open>C24: Two versions of a proposal are never being written at the same time, and never two are current: every
  version but the current one was sent and is superseded, and the current one is not; it is locked
  in every status after the sending and unlocked in a draft.\<close>

theorem one_version_at_a_time:
  assumes "reached en f0 f" "writes_days (en_host en)"
  shows "distinct (map vn_id (pf_versions f))
     \<and> (\<exists>v \<in> set (pf_versions f). pw_currentVersionId (pf_proposal f) = Some (vn_id v)
          \<and> vn_supersededAt v = None \<and> status_fits (pw_status (pf_proposal f)) (vn_lockedAt v \<noteq> None)
          \<and> (\<forall>w \<in> set (pf_versions f). w \<noteq> v \<longrightarrow> vn_lockedAt w \<noteq> None \<and> vn_supersededAt w \<noteq> None))"
proof -
  have ok: "versions_ok f" using reached_ok [OF assms] by (simp add: file_ok_def)
  then obtain v where v: "current_version f = Some v" "vn_supersededAt v = None"
      "status_fits (pw_status (pf_proposal f)) (vn_lockedAt v \<noteq> None)"
    by (auto simp: versions_ok_def)
  then obtain i where i: "pw_currentVersionId (pf_proposal f) = Some i" "find_version f i = Some v"
    by (auto simp: current_version_def bind_eq_Some_conv)
  with find_version_Some [OF i(2)] have mem: "v \<in> set (pf_versions f)" "vn_id v = i" by simp_all
  have "vn_lockedAt w \<noteq> None \<and> vn_supersededAt w \<noteq> None" if w: "w \<in> set (pf_versions f)" "w \<noteq> v" for w
  proof -
    have "inj_on vn_id (set (pf_versions f))" using ok by (simp add: versions_ok_def distinct_map)
    then have "vn_id w \<noteq> i" using w mem by (auto dest: inj_onD)
    with ok w i show ?thesis by (auto simp: versions_ok_def)
  qed
  with ok v i mem show ?thesis by (auto simp: versions_ok_def)
qed

subsection \<open>The example\<close>

lemma sample_writes_days: "writes_days (en_host sample_env)"
  by (simp add: writes_days_def sample_env_def french_date_def is_digit_def)

lemma sample_reached: "\<exists>vals. reached sample_env sample_file (sample_sent vals)"
proof -
  have "new_file sample_file"
    by (simp add: new_file_def sample_file_def sample_version_def sample_row_def recipient_ids_def)
  moreover have "file_step sample_env sample_file sample_ready"
    by (rule file_step.internal [OF sample_made_ready]) simp
  ultimately show ?thesis
    unfolding reached_def
    by (metis sample_was_sent file_step.send converse_rtranclp_into_rtranclp r_into_rtranclp)
qed

lemma sample_is_sent: "sent_before (sample_frozen vals) (sample_sent vals)" "live_link sample_link (sample_sent vals)"
  by (simp_all add: sent_before_def live_link_def sample_sent_def sample_frozen_def sample_link_def)

lemma sample_expires: "\<exists>g. expire_proposal (sample_sent vals) (sample_expiry + 1) = Inr g"
proof -
  have "is_ok (expire_proposal (sample_sent vals) (sample_expiry + 1))" by code_simp
  then show ?thesis by (cases "expire_proposal (sample_sent vals) (sample_expiry + 1)") simp_all
qed

theorem sent_version_never_changes_witness:
  "\<exists>vals g w. reached sample_env sample_file (sample_sent vals)
     \<and> expire_proposal (sample_sent vals) (sample_expiry + 1) = Inr g
     \<and> sent_before w g \<and> w\<lparr>vn_supersededAt := None\<rparr> = (sample_frozen vals)\<lparr>vn_supersededAt := None\<rparr>"
proof -
  obtain vals g where r: "reached sample_env sample_file (sample_sent vals)"
    and g: "expire_proposal (sample_sent vals) (sample_expiry + 1) = Inr g"
    using sample_reached sample_expires by meson
  have "(file_step sample_env)\<^sup>*\<^sup>* (sample_sent vals) g"
    by (rule r_into_rtranclp) (rule file_step.expire [OF g])
  from sent_version_never_changes [OF r sample_writes_days sample_is_sent(1) this] r g show ?thesis by blast
qed


theorem sending_shows_validated_prices_witness:
  "\<exists>vals q. state_quote rat_ops (en_host sample_env) (en_settings sample_env) sample_definition None
       (selection_of None) [] 2000 = Inr q
     \<and> public_quote sample_env (pf_proposal (sample_sent vals)) (sample_frozen vals) (selection_of None) 2000 = Inr q
     \<and> pt_errors q = [] \<and> pt_blockingValidations q = []"
proof -
  obtain vals where sent: "send sample_env sample_ready (\<lambda>_. (''l1'', sample_token)) 2000 = Inr (sample_sent vals)"
    using sample_was_sent by blast
  have un: "vn_lockedAt (lp_version (sample_loaded P_READY 1000)) = None"
    by (simp add: sample_loaded_def sample_version_def)
  have opened: "load_for_link (sample_sent vals) sample_link = Inr \<lparr>pu_version = sample_frozen vals,
      pu_recipient = sample_recipient, pu_latestSelection = None\<rparr>"
    by (simp add: load_for_link_def find_version_def sample_sent_def sample_frozen_def sample_version_def
        sample_link_def sample_recipient_def sample_file_def latest_selection_def)
  have parts: "vn_pricingSettings (sample_frozen vals) = None" "vn_pricingDefinition (sample_frozen vals) = sample_definition"
      "pw_mergeContext (pf_proposal (sample_sent vals)) = []" "en_decimals sample_env = rat_ops"
      "pg_pricing (en_settings sample_env) = full_settings DEFAULT_PRICING_SETTINGS"
    by (simp_all add: sample_frozen_def sample_version_def sample_sent_def sample_sent_row_def sample_at_def
        sample_row_def sample_env_def)
  have "resolve_settings rat_ops None = resolve_settings rat_ops (Some (full_settings DEFAULT_PRICING_SETTINGS))"
    unfolding new_year_reads(2) by code_simp
  with sending_shows_validated_prices [OF sent sample_loads(2) un sample_is_sent(2)]
  show ?thesis by (auto simp: opened parts)
qed

theorem one_live_link_per_recipient_witness:
  "\<exists>vals. pf_links (sample_sent vals) = [sample_link] \<and> lk_revokedAt sample_link = None
     \<and> distinct (map lk_recipientId (filter (\<lambda>l. lk_revokedAt l = None) (pf_links (sample_sent vals))))"
proof -
  obtain vals where r: "reached sample_env sample_file (sample_sent vals)" using sample_reached by blast
  from one_live_link_per_recipient [OF r sample_writes_days] show ?thesis
    by (intro exI [of _ vals]) (simp add: sample_sent_def sample_link_def)
qed

theorem one_version_at_a_time_witness:
  "\<exists>vals v. v \<in> set (pf_versions (sample_sent vals)) \<and> vn_supersededAt v = None
     \<and> status_fits P_SENT (vn_lockedAt v \<noteq> None)"
proof -
  obtain vals where r: "reached sample_env sample_file (sample_sent vals)" using sample_reached by blast
  have "pw_status (pf_proposal (sample_sent vals)) = P_SENT"
    by (simp add: sample_sent_def sample_sent_row_def sample_at_def)
  with one_version_at_a_time [OF r sample_writes_days] show ?thesis by (intro exI [of _ vals]) auto
qed

end
