(* ===== verification/ProposalClient.thy ===== *)
theory ProposalClient
  imports ProposalSample
begin

text \<open>
  What the page of the client guarantees (\<open>ProposalPublic\<close>): an acceptance is made by the right person, on
  the current version, at the price shown; a configuration touches only what the price table opens
  to the client; a one-time code opens a session and nothing else does.
\<close>

subsection \<open>Links\<close>

definition usable_link :: "proposal_host \<Rightarrow> proposal_file \<Rightarrow> string \<Rightarrow> jsdate \<Rightarrow> access_link \<Rightarrow> bool" where
  "usable_link h f token now l \<longleftrightarrow>
     l \<in> set (pf_links f) \<and> token_shape token \<and> lk_tokenHash l = hash_token h token
     \<and> lk_revokedAt l = None \<and> now < lk_expiresAt l"

lemma resolve_usable: "resolve h f token now = Inr l \<Longrightarrow> usable_link h f token now l"
  by (auto simp: resolve_def usable_link_def find_link_def find_Some_iff split: if_splits option.splits)

lemma load_for_link_Inr:
  "load_for_link f l = Inr d \<longleftrightarrow>
     (\<exists>v r. find_version f (lk_versionId l) = Some v
        \<and> List.find (\<lambda>r. rc_id r = lk_recipientId l) (pf_recipients f) = Some r
        \<and> d = \<lparr>pu_version = v, pu_recipient = r, pu_latestSelection = latest_selection f (vn_id v)\<rparr>)"
  by (auto simp: load_for_link_def split: option.splits)

subsection \<open>Acceptance\<close>

text \<open>Who may accept: a decider, a signer when the proposal is signed, whose address was verified by a code
  when the proposal is sensitive or accepted by a click.\<close>

definition may_accept :: "proposal_host \<Rightarrow> proposal_row \<Rightarrow> access_link \<Rightarrow> recipient \<Rightarrow> string option \<Rightarrow> jsdate \<Rightarrow> bool" where
  "may_accept h p l r session now \<longleftrightarrow>
     rc_id r = lk_recipientId l \<and> rc_role r \<noteq> READER
     \<and> (pw_acceptanceMode p = DOCUSEAL_SIGNATURE \<longrightarrow> rc_role r = SIGNER)
     \<and> (pw_sensitive p \<or> pw_acceptanceMode p = CLICK_ACCEPT \<longrightarrow> otp_verified h l session now)"

lemma acceptance_guard_Inr:
  "acceptance_guard h p l d session now = Inr u \<Longrightarrow> rc_id (pu_recipient d) = lk_recipientId l \<Longrightarrow>
     may_accept h p l (pu_recipient d) session now \<and> vn_supersededAt (pu_version d) = None
     \<and> pw_currentVersionId p = Some (vn_id (pu_version d))"
  by (auto simp: acceptance_guard_def may_accept_def Let_def split: if_splits)

lemma frozen_price_Inr:
  "frozen_price v sel q = Inr snap \<longleftrightarrow>
     pt_errors q = [] \<and> (\<exists>s r. pt_engineSchedule q = Some s \<and> pt_engineResult q = Some r
       \<and> snap = \<lparr>sn_versionId = vn_id v, sn_definition = vn_pricingDefinition v,
               sn_selection = sel\<lparr>sl_quantities := pt_quantities q, sl_choices := pt_choices q\<rparr>,
               sn_engineSchedule = s, sn_engineResult = r\<rparr>)"
  by (auto simp: frozen_price_def split: list.splits option.splits)

text \<open>What an event leaves alone: everything but the row and the events sent out.\<close>

definition recorded_alike :: "proposal_file \<Rightarrow> proposal_file \<Rightarrow> bool" where
  "recorded_alike f f' \<longleftrightarrow>
     pf_versions f' = pf_versions f \<and> pf_links f' = pf_links f \<and> pf_recipients f' = pf_recipients f
     \<and> pf_selections f' = pf_selections f \<and> pf_snapshots f' = pf_snapshots f
     \<and> pf_acceptances f' = pf_acceptances f"

lemma persist_alike: "persist_proposal_transition f e now c extra = Inr f' \<Longrightarrow> recorded_alike f f'"
  by (auto simp: persist_proposal_transition_def ebind_Inr_iff Let_def recorded_alike_def)

lemma cancel_alike [simp]: "recorded_alike f (cancel_follow_ups g) = recorded_alike f g"
  by (simp add: recorded_alike_def cancel_follow_ups_def)

lemma alike_trans: "recorded_alike f g \<Longrightarrow> recorded_alike g h \<Longrightarrow> recorded_alike f h"
  by (simp add: recorded_alike_def)

lemma alike_refl [simp]: "recorded_alike f f"
  by (simp add: recorded_alike_def)

lemma viewed_alike:
  "(if b then persist_proposal_transition f e now c extra else Inr f) = Inr g \<Longrightarrow> recorded_alike f g"
  by (auto split: if_splits intro: persist_alike)

lemma accept_event:
  "apply_proposal_event p (PE_ACCEPT v) now = Inr p' \<Longrightarrow>
     ps_status p' = P_ACCEPTED \<and> ps_acceptedVersionId p' = Some v"
  by (auto simp: p_event_cases split: if_splits)

lemma click_event:
  "apply_proposal_event p PE_COMPLETE_CLICK_ACCEPT now = Inr p' \<Longrightarrow>
     ps_status p' = P_SIGNED \<and> ps_acceptedVersionId p' = ps_acceptedVersionId p"
  by (auto simp: p_event_cases split: if_splits)

text \<open>The row after an acceptance: accepted, or signed when a click was enough, with the amounts of the quote.\<close>

definition accepted_row :: "proposal_quote \<Rightarrow> string \<Rightarrow> proposal_row \<Rightarrow> proposal_row \<Rightarrow> bool" where
  "accepted_row q v p p' \<longleftrightarrow>
     pw_status p' = (if pw_acceptanceMode p = CLICK_ACCEPT then P_SIGNED else P_ACCEPTED)
     \<and> pw_acceptedVersionId p' = Some v \<and> pw_monthlyCents p' = bk_htCents (pt_monthly q)
     \<and> pw_oneTimeCents p' = bk_htCents (pt_oneTime q)
     \<and> pw_commitmentTotalCents p' = bk_htCents (pt_commitment q)"

lemma accepted_row_after:
  assumes "persist_proposal_transition f (PE_ACCEPT v) now c
      (\<lambda>r. (summary q r)\<lparr>pw_clientRespondedAt := Some now\<rparr>) = Inr g"
    and "(if pw_acceptanceMode p = CLICK_ACCEPT
          then persist_proposal_transition (cancel_follow_ups g) PE_COMPLETE_CLICK_ACCEPT now d (\<lambda>r. r)
          else Inr (cancel_follow_ups g)) = Inr f'"
  shows "accepted_row q v p (pf_proposal f')"
proof -
  obtain n where n: "apply_proposal_event (to_proposal_snapshot (pf_proposal f) c) (PE_ACCEPT v) now = Inr n"
      "pf_proposal g = (summary q (row_after (pf_proposal f) n now))\<lparr>pw_clientRespondedAt := Some now\<rparr>"
    using persist_Inr [OF assms(1)] by blast
  have g: "pf_proposal (cancel_follow_ups g) = pf_proposal g" by (simp add: cancel_follow_ups_def)
  note row = n(2) accept_event [OF n(1)] summary_def row_after_def
  show ?thesis
  proof (cases "pw_acceptanceMode p = CLICK_ACCEPT")
    case True
    then obtain m where m: "apply_proposal_event (to_proposal_snapshot (pf_proposal g) d) PE_COMPLETE_CLICK_ACCEPT now = Inr m"
        "pf_proposal f' = row_after (pf_proposal g) m now"
      using assms(2) persist_Inr g by (metis (no_types, lifting))
    with click_event [OF m(1)] True show ?thesis
      by (simp add: accepted_row_def to_proposal_snapshot_def row)
  next
    case False
    with assms(2) have "pf_proposal f' = pf_proposal g" using g by auto
    with False show ?thesis by (simp add: accepted_row_def row)
  qed
qed

text \<open>C3: An acceptance is sound: it comes from a link that was not revoked and has not expired, from a recipient
  who may decide, on the current version; its quote is recomputed without error, and exactly one
  frozen price and one acceptance are added, with the schedule and the result the engine gave for
  the configuration the page shows; the proposal becomes accepted, or signed when a click is enough.\<close>

theorem acceptance_is_sound:
  assumes "accept en f token session now = Inr f'"
  shows "\<exists>l v r q s res.
       usable_link (en_host en) f token now l
     \<and> find_version f (lk_versionId l) = Some v \<and> vn_supersededAt v = None
     \<and> pw_currentVersionId (pf_proposal f) = Some (vn_id v)
     \<and> r \<in> set (pf_recipients f) \<and> may_accept (en_host en) (pf_proposal f) l r session now
     \<and> public_quote en (pf_proposal f) v (selection_of (latest_selection f (vn_id v))) now = Inr q
     \<and> pt_errors q = [] \<and> pt_engineSchedule q = Some s \<and> pt_engineResult q = Some res
     \<and> pf_snapshots f' = pf_snapshots f @
         [\<lparr>sn_versionId = vn_id v, sn_definition = vn_pricingDefinition v,
           sn_selection = (selection_of (latest_selection f (vn_id v)))
             \<lparr>sl_quantities := pt_quantities q, sl_choices := pt_choices q\<rparr>,
           sn_engineSchedule = s, sn_engineResult = res\<rparr>]
     \<and> map ac_versionId (pf_acceptances f') = map ac_versionId (pf_acceptances f) @ [vn_id v]
     \<and> pf_versions f' = pf_versions f
     \<and> accepted_row q (vn_id v) (pf_proposal f) (pf_proposal f')"
proof -
  let ?p = "pf_proposal f"
  obtain l d q snap f1 f2 f3 where l: "resolve (en_host en) f token now = Inr l"
    and d: "load_for_link f l = Inr d"
    and guard: "acceptance_guard (en_host en) ?p l d session now = Inr ()"
    and q: "public_quote en ?p (pu_version d) (selection_of (pu_latestSelection d)) now = Inr q"
    and snap: "frozen_price (pu_version d) (selection_of (pu_latestSelection d)) q = Inr snap"
    and f1: "pf_snapshots f1 = pf_snapshots f @ [snap]" "pf_versions f1 = pf_versions f"
      "map ac_versionId (pf_acceptances f1) = map ac_versionId (pf_acceptances f) @ [vn_id (pu_version d)]"
    and f2: "(if pw_status ?p = P_SENT
        then persist_proposal_transition f1 PE_VIEW now NEUTRAL_READINESS (\<lambda>r. r) else Inr f1) = Inr f2"
    and f3: "persist_proposal_transition f2 (PE_ACCEPT (vn_id (pu_version d))) now NEUTRAL_READINESS
        (\<lambda>r. (summary q r)\<lparr>pw_clientRespondedAt := Some now\<rparr>) = Inr f3"
    and f': "(if pw_acceptanceMode ?p = CLICK_ACCEPT
        then persist_proposal_transition (cancel_follow_ups f3) PE_COMPLETE_CLICK_ACCEPT now NEUTRAL_READINESS (\<lambda>r. r)
        else Inr (cancel_follow_ups f3)) = Inr f'"
    using assms unfolding accept_def Let_def ebind_Inr_iff
    by (elim exE conjE) (rule that, assumption+, simp_all)
  obtain v r where v: "find_version f (lk_versionId l) = Some v"
      "List.find (\<lambda>r. rc_id r = lk_recipientId l) (pf_recipients f) = Some r"
    and dd: "pu_version d = v" "pu_recipient d = r" "pu_latestSelection d = latest_selection f (vn_id v)"
    using d by (auto simp: load_for_link_Inr)
  have r: "r \<in> set (pf_recipients f)" "rc_id r = lk_recipientId l" using v(2) by (auto simp: find_Some_iff)
  have "recorded_alike f3 f'" using f' by (auto split: if_splits dest: persist_alike simp: recorded_alike_def cancel_follow_ups_def)
  then have alike: "recorded_alike f1 f'"
    using viewed_alike [OF f2] persist_alike [OF f3] alike_trans by blast
  obtain s res where price: "pt_errors q = []" "pt_engineSchedule q = Some s" "pt_engineResult q = Some res"
    "snap = \<lparr>sn_versionId = vn_id v, sn_definition = vn_pricingDefinition v,
       sn_selection = (selection_of (latest_selection f (vn_id v)))\<lparr>sl_quantities := pt_quantities q, sl_choices := pt_choices q\<rparr>,
       sn_engineSchedule = s, sn_engineResult = res\<rparr>"
    using snap by (auto simp: frozen_price_Inr dd)
  note who = acceptance_guard_Inr [OF guard, unfolded dd, OF r(2)]
  note row = accepted_row_after [OF f3 f', unfolded dd]
  show ?thesis
    using resolve_usable [OF l] v(1) r(1) who q price f1 alike row
    by (intro exI [of _ l] exI [of _ v] exI [of _ r] exI [of _ q] exI [of _ s] exI [of _ res])
      (simp add: dd recorded_alike_def)
qed

lemma sample_taken:
  fixes vals :: "(string \<times> context_value) list"
  defines "F \<equiv> \<lambda>a b c. (sample_sent vals)\<lparr>pf_selections := a, pf_snapshots := b, pf_acceptances := c\<rparr>"
  shows "\<exists>g. persist_proposal_transition (F a b c) PE_VIEW 5000 NEUTRAL_READINESS (\<lambda>r. r) = Inr g
     \<and> is_ok (persist_proposal_transition g (PE_ACCEPT ''v1'') 5000 NEUTRAL_READINESS
          (\<lambda>r. (summary q r)\<lparr>pw_clientRespondedAt := Some 5000\<rparr>))"
proof -
  have "case persist_proposal_transition (F a b c) PE_VIEW 5000 NEUTRAL_READINESS (\<lambda>r. r) of
      Inl _ \<Rightarrow> False
    | Inr g \<Rightarrow> is_ok (persist_proposal_transition g (PE_ACCEPT ''v1'') 5000 NEUTRAL_READINESS
          (\<lambda>r. (summary q r)\<lparr>pw_clientRespondedAt := Some 5000\<rparr>))"
    unfolding F_def by code_simp
  then show ?thesis by (auto split: sum.splits)
qed

lemma sample_resolves: "resolve (en_host sample_env) (sample_sent vals) sample_token 5000 = Inr sample_link"
  unfolding sample_env_def sample_sent_def by code_simp

lemma sample_link_loads:
  "load_for_link (sample_sent vals) sample_link
     = Inr \<lparr>pu_version = sample_frozen vals, pu_recipient = sample_recipient, pu_latestSelection = None\<rparr>"
  by (simp add: load_for_link_def find_version_def latest_selection_def sample_sent_def sample_file_def
      sample_frozen_def sample_version_def sample_link_def sample_recipient_def)

lemma sample_shown:
  "\<exists>q. public_quote sample_env (pf_proposal (sample_sent vals)) (sample_frozen vals) (selection_of None) 5000 = Inr q
     \<and> pt_errors q = [] \<and> pt_engineSchedule q \<noteq> None \<and> pt_engineResult q \<noteq> None"
proof -
  have "resolve_settings rat_ops None = Inr DEFAULT_PRICING_SETTINGS" by code_simp
  then show ?thesis
    using sample_quoted by (simp add: public_quote_def sample_sent_def sample_sent_row_def sample_at_def sample_row_def
        sample_frozen_def sample_version_def selection_of_def EMPTY_SELECTION_def pricing_context_of_def
        sample_env_def sample_opts_def) meson
qed

lemma sample_accepts: "\<exists>f'. accept sample_env (sample_sent vals) sample_token None 5000 = Inr f'"
proof -
  obtain q where quote: "public_quote sample_env (pf_proposal (sample_sent vals)) (sample_frozen vals) (selection_of None) 5000 = Inr q"
     and q: "pt_errors q = []" "pt_engineSchedule q \<noteq> None" "pt_engineResult q \<noteq> None"
    using sample_shown by blast
  let ?f = "sample_sent vals" and ?v = "sample_frozen vals"
  let ?d = "\<lparr>pu_version = ?v, pu_recipient = sample_recipient, pu_latestSelection = None\<rparr>"
  note l = sample_resolves [of vals] and d = sample_link_loads [of vals]
  have guard: "acceptance_guard (en_host sample_env) (pf_proposal ?f) sample_link ?d None 5000 = Inr ()"
    by (simp add: acceptance_guard_def sample_sent_def sample_sent_row_def sample_at_def sample_row_def
        sample_recipient_def sample_frozen_def sample_version_def)
  obtain snap where snap: "frozen_price ?v (selection_of None) q = Inr snap"
    using q by (auto simp: frozen_price_Inr)
  have st: "pw_status (pf_proposal ?f) = P_SENT" "pw_acceptanceMode (pf_proposal ?f) = DOCUSEAL_SIGNATURE"
    by (simp_all add: sample_sent_def sample_sent_row_def sample_at_def sample_row_def)
  let ?F = "\<lambda>a b c. ?f\<lparr>pf_selections := a, pf_snapshots := b, pf_acceptances := c\<rparr>"
  have "\<exists>g h. persist_proposal_transition (?F a b c) PE_VIEW 5000 NEUTRAL_READINESS (\<lambda>r. r) = Inr g
     \<and> persist_proposal_transition g (PE_ACCEPT (vn_id ?v)) 5000 NEUTRAL_READINESS
          (\<lambda>r. (summary q r)\<lparr>pw_clientRespondedAt := Some 5000\<rparr>) = Inr h" for a b c
    using sample_taken [where vals = vals and a = a and b = b and c = c and q = q]
    by (auto simp: is_ok_iff sample_frozen_def sample_version_def)
  then show ?thesis
    unfolding accept_def l ebind_simps d guard Let_def
    by (simp add: quote snap st) (metis ebind_simps(2))
qed

theorem acceptance_is_sound_witness:
  "\<exists>vals f' q. accept sample_env (sample_sent vals) sample_token None 5000 = Inr f'
     \<and> length (pf_snapshots f') = 1 \<and> pt_errors q = []
     \<and> accepted_row q ''v1'' sample_sent_row (pf_proposal f')"
proof -
  let ?f = "sample_sent []"
  obtain f' where f': "accept sample_env ?f sample_token None 5000 = Inr f'" using sample_accepts by blast
  have row: "pf_proposal ?f = sample_sent_row" "pf_snapshots ?f = []"
      "pw_currentVersionId sample_sent_row = Some ''v1''"
    by (simp_all add: sample_sent_def sample_file_def sample_sent_row_def sample_at_def sample_row_def)
  obtain v :: proposal_version and q :: proposal_quote and snap where "pf_snapshots f' = pf_snapshots ?f @ [snap]" "pt_errors q = []"
      "pw_currentVersionId (pf_proposal ?f) = Some (vn_id v)"
      "accepted_row q (vn_id v) (pf_proposal ?f) (pf_proposal f')"
    using acceptance_is_sound [OF f'] by (elim exE conjE) (rule that)
  with f' row show ?thesis by (intro exI [of _ "[]"] exI [of _ f'] exI [of _ q]) simp
qed

subsection \<open>Configuration\<close>

lemma map_of_spread: "k \<notin> set (given_keys new) \<Longrightarrow> map_of (spread old new) k = map_of old k"
proof -
  have "k \<notin> fst ` set kvs \<Longrightarrow> map_of (foldl (\<lambda>acc (k, v). map_set k v acc) old kvs) k = map_of old k" for kvs
    by (induction kvs arbitrary: old) (auto simp: map_of_map_set)
  then show "k \<notin> set (given_keys new) \<Longrightarrow> ?thesis"
    by (auto simp: spread_def given_keys_def split: option.splits)
qed

lemma refused_keys_Inr: "refused_keys ok failure ks = Inr u \<longleftrightarrow> list_all ok ks"
  by (auto simp: refused_keys_def find_None_iff find_Some_iff list_all_iff split: option.splits)

text \<open>C8: A configuration sent by the client is recorded only while the proposal is open, on the current version,
  and whatever the browser forges: a choice or a quantity the price table does not open keeps its
  value, and an option retained is one of the table or was already retained. Nothing changes but the list
  of the configurations and the amounts of the summary, so no version, no price.\<close>

theorem client_edits_only_open_items:
  assumes "public_select en f token session b now = Inr f'"
  shows "\<exists>l v sel q. usable_link (en_host en) f token now l \<and> find_version f (lk_versionId l) = Some v
     \<and> is_open (pf_proposal f) v now
     \<and> f' = f\<lparr>pf_selections := pf_selections f @ [(vn_id v, sel)], pf_proposal := summary q (pf_proposal f)\<rparr>
     \<and> (let d = vn_pricingDefinition v; prev = selection_of (latest_selection f (vn_id v)) in
          (\<forall>k. choice_editable d k \<or> map_of (sl_choices sel) k = map_of (sl_choices prev) k)
        \<and> (\<forall>k. quantity_editable d k \<or> map_of (sl_quantities sel) k = map_of (sl_quantities prev) k)
        \<and> set (sl_selectedOptions sel) \<subseteq> {k. option_line d k} \<union> set (sl_selectedOptions prev))"
proof -
  obtain l d q where l: "resolve (en_host en) f token now = Inr l" and d: "load_for_link f l = Inr d"
    and opn: "is_open (pf_proposal f) (pu_version d) now"
    and keys: "list_all (choice_editable (vn_pricingDefinition (pu_version d))) (given_keys (sb_choices b))"
      "list_all (quantity_editable (vn_pricingDefinition (pu_version d))) (given_keys (sb_quantities b))"
      "list_all (option_line (vn_pricingDefinition (pu_version d))) (given (sb_selectedOptions b) [])"
    and f': "f' = set_row (summary q) (f\<lparr>pf_selections := pf_selections f @
        [(vn_id (pu_version d), merged_selection (selection_of (pu_latestSelection d)) b)]\<rparr>)"
    using assms by (auto simp: public_select_def ebind_Inr_iff Let_def refused_keys_Inr split: if_splits)
  obtain v where v: "find_version f (lk_versionId l) = Some v" "pu_version d = v"
      "pu_latestSelection d = latest_selection f (vn_id v)"
    using d by (auto simp: load_for_link_Inr)
  let ?prev = "selection_of (latest_selection f (vn_id v))"
  have "choice_editable (vn_pricingDefinition v) k
      \<or> map_of (sl_choices (merged_selection ?prev b)) k = map_of (sl_choices ?prev) k" for k
    using keys(1) v map_of_spread by (fastforce simp: merged_selection_def list_all_iff)
  moreover have "quantity_editable (vn_pricingDefinition v) k
      \<or> map_of (sl_quantities (merged_selection ?prev b)) k = map_of (sl_quantities ?prev) k" for k
    using keys(2) v map_of_spread by (fastforce simp: merged_selection_def list_all_iff)
  moreover have "set (sl_selectedOptions (merged_selection ?prev b))
      \<subseteq> {k. option_line (vn_pricingDefinition v) k} \<union> set (sl_selectedOptions ?prev)"
    using keys(3) v by (auto simp: merged_selection_def given_def list_all_iff split: option.splits)
  moreover have "f' = f\<lparr>pf_selections := pf_selections f @ [(vn_id v, merged_selection ?prev b)],
      pf_proposal := summary q (pf_proposal f)\<rparr>"
    by (simp add: f' set_row_def v)
  ultimately show ?thesis
    using resolve_usable [OF l] v(1) opn v(2) unfolding Let_def by blast
qed

lemma refused_nothing:
  "refused_keys ok failure (given_keys None) = Inr ()" "refused_keys ok failure (given (Some []) []) = Inr ()"
  by (simp_all add: refused_keys_def given_keys_def given_def)

theorem client_edits_only_open_items_witness:
  "\<exists>f' q. public_select sample_env (sample_sent []) sample_token None
       \<lparr>sb_choices = None, sb_quantities = None, sb_selectedOptions = Some []\<rparr> 5000 = Inr f'
     \<and> length (pf_selections f') = 1 \<and> pf_proposal f' = summary q sample_sent_row"
proof -
  let ?b = "\<lparr>sb_choices = None, sb_quantities = None, sb_selectedOptions = Some []\<rparr>"
  let ?f = "sample_sent []" and ?v = "sample_frozen []"
  have opn: "is_open (pf_proposal ?f) ?v 5000" "\<not> pw_sensitive (pf_proposal ?f)"
    by (simp_all add: is_open_def sample_sent_def sample_sent_row_def sample_at_def sample_row_def sample_frozen_def
        sample_version_def sample_expiry_def OPEN_STATUSES_def)
  have sel: "merged_selection (selection_of None) ?b = selection_of None"
    by (simp add: merged_selection_def spread_def given_def selection_of_def EMPTY_SELECTION_def)
  obtain q where "public_quote sample_env (pf_proposal ?f) ?v (selection_of None) 5000 = Inr q"
    using sample_shown by blast
  then obtain f' where f': "public_select sample_env ?f sample_token None ?b 5000 = Inr f'"
    using sample_resolves [of "[]"] sample_link_loads [of "[]"] opn sel by (simp add: public_select_def Let_def refused_nothing)
  have row: "pf_proposal ?f = sample_sent_row" "pf_selections ?f = []"
    by (simp_all add: sample_sent_def sample_file_def)
  obtain v :: proposal_version and sel q where
      "f' = ?f\<lparr>pf_selections := pf_selections ?f @ [(vn_id v, sel)], pf_proposal := summary q (pf_proposal ?f)\<rparr>"
    using client_edits_only_open_items [OF f'] by (elim exE conjE) (rule that)
  with f' row show ?thesis by (intro exI [of _ f'] exI [of _ q]) simp
qed

subsection \<open>One-time codes\<close>

lemma verify_refused: "verify_otp en f token code session now = (Inl e, f') \<Longrightarrow> f' = f"
  by (auto simp: verify_otp_def with_scope_def split: sum.splits prod.splits)

text \<open>What a series of attempts leaves.\<close>

definition attempts ::
    "'d proposal_env \<Rightarrow> string \<Rightarrow> string \<Rightarrow> jsdate \<Rightarrow> string list \<Rightarrow> proposal_file \<Rightarrow> proposal_file" where
  "attempts en token session now = fold (\<lambda>code g. snd (verify_otp en g token code session now))"

text \<open>Wrong codes are never counted: the transaction that increments the counter is the one the refusal
  undoes. However many wrong codes are tried, the file is the same, and the right one still opens a
  session: the limit of \<open>OTP_MAX_ATTEMPTS\<close> is never reached.\<close>

theorem wrong_codes_never_counted:
  assumes "\<forall>code \<in> set codes. \<exists>e f'. verify_otp en f token code session now = (Inl e, f')"
  shows "attempts en token session now codes f = f"
  using assms
proof (induction codes)
  case (Cons c cs)
  then obtain e f' where "verify_otp en f token c session now = (Inl e, f')" by auto
  with verify_refused [OF this] Cons show ?case by (simp add: attempts_def)
qed (simp add: attempts_def)

lemma find_link_update:
  assumes "\<forall>l. P (g l) = P l"
  shows "find_link (update_link i g f) P = map_option (\<lambda>l. if lk_id l = i then g l else l) (find_link f P)"
proof -
  have "List.find P (map (\<lambda>l. if lk_id l = i then g l else l) ls)
      = map_option (\<lambda>l. if lk_id l = i then g l else l) (List.find P ls)" for ls
    using assms by (induction ls) auto
  then show ?thesis by (simp add: find_link_def update_link_def)
qed

lemma find_link_by_id:
  assumes "find_link f P = Some l" "distinct (map lk_id (pf_links f))"
  shows "find_link f (\<lambda>x. lk_id x = lk_id l) = Some l"
proof -
  have "l \<in> set ls \<Longrightarrow> distinct (map lk_id ls) \<Longrightarrow> List.find (\<lambda>x. lk_id x = lk_id l) ls = Some l" for ls
    by (induction ls) auto
  moreover have "l \<in> set (pf_links f)" using assms(1) by (auto simp: find_link_def find_Some_iff)
  ultimately show ?thesis using assms(2) by (simp add: find_link_def)
qed

lemma resolve_Inr:
  "resolve h f token now = Inr l \<longleftrightarrow>
     token_shape token \<and> find_link f (\<lambda>l. lk_tokenHash l = hash_token h token) = Some l
     \<and> lk_revokedAt l = None \<and> now < lk_expiresAt l"
  by (auto simp: resolve_def split: option.splits)

text \<open>C9: A code sent to the client opens a session, and only once. Within ten minutes and while the link is
  good, the code gives back the session drawn, and for an hour that session is verified on the link; the
  same code is then refused as expired.\<close>

theorem requested_code_opens_session:
  assumes link: "resolve (en_host en) f token now = Inr l" and keys: "distinct (map lk_id (pf_links f))"
    and req: "request_otp en f token code now = Inr f1"
    and t: "t < now + OTP_TTL_MS" "t < lk_expiresAt l"
    and u: "u < t + OTP_SESSION_TTL_MS" "u < lk_expiresAt l"
    and host: "\<forall>x. ph_sha (en_host en) x \<noteq> []" and session: "session \<noteq> []"
  shows "\<exists>f2 l2. verify_otp en f1 token code session t = (Inr session, f2)
     \<and> resolve (en_host en) f2 token u = Inr l2 \<and> otp_verified (en_host en) l2 (Some session) u
     \<and> verify_otp en f2 token code session u = (Inl OtpExpired, f2)"
proof -
  let ?h = "en_host en" and ?P = "\<lambda>x. lk_tokenHash x = hash_token (en_host en) token" and ?i = "lk_id l"
  define g1 :: "access_link \<Rightarrow> access_link" where "g1 = (\<lambda>x. x\<lparr>lk_otpHash := Some (otp_hash ?h ?i code),
      lk_otpExpiresAt := Some (now + OTP_TTL_MS), lk_otpAttempts := 0\<rparr>)"
  define g2 :: "access_link \<Rightarrow> access_link" where "g2 = (\<lambda>x. x\<lparr>lk_otpHash := None, lk_otpExpiresAt := None,
      lk_otpAttempts := 0, lk_otpSessionHash := Some (hash_token ?h session),
      lk_otpSessionExpiresAt := Some (t + OTP_SESSION_TTL_MS)\<rparr>)"
  have f1: "f1 = update_link ?i g1 f" using req link by (auto simp: request_otp_def ebind_Inr_iff g1_def)
  let ?f2 = "update_link ?i g2 f1"
  have found: "find_link f ?P = Some l" "find_link f (\<lambda>x. lk_id x = ?i) = Some l"
    using link find_link_by_id [OF _ keys] by (auto simp: resolve_Inr)
  have g: "\<forall>x. ?P (g1 x) = ?P x" "\<forall>x. ?P (g2 x) = ?P x"
      "\<forall>x. (lk_id (g1 x) = ?i) = (lk_id x = ?i)" "\<forall>x. (lk_id (g2 x) = ?i) = (lk_id x = ?i)"
    by (simp_all add: g1_def g2_def)
  have in1: "find_link f1 ?P = Some (g1 l)" "find_link f1 (\<lambda>x. lk_id x = ?i) = Some (g1 l)"
    by (simp_all add: f1 find_link_update [OF g(1)] find_link_update [OF g(3)] found)
  have id1: "lk_id (g1 l) = ?i" by (simp add: g1_def)
  have in2: "find_link ?f2 ?P = Some (g2 (g1 l))" "find_link ?f2 (\<lambda>x. lk_id x = ?i) = Some (g2 (g1 l))"
    by (simp_all add: find_link_update [OF g(2)] find_link_update [OF g(4)] in1 id1)
  have shape: "token_shape token" "lk_revokedAt l = None" using link by (simp_all add: resolve_Inr)
  have r1: "resolve ?h f1 token t = Inr (g1 l)"
    using shape t(2) by (simp add: resolve_Inr in1) (simp add: g1_def)
  have r2: "resolve ?h ?f2 token u = Inr (g2 (g1 l))"
    using shape u(2) by (simp add: resolve_Inr in2) (simp add: g1_def g2_def)
  have "verify_body ?h ?i code session t f1 = (Inr session, ?f2)"
    using t(1) host by (simp add: verify_body_def in1) (simp add: g1_def g2_def js_falsy_def same_hash_def otp_hash_def OTP_MAX_ATTEMPTS_def)
  then have v1: "verify_otp en f1 token code session t = (Inr session, ?f2)"
    by (simp add: verify_otp_def r1 id1 with_scope_def)
  have "verify_body ?h ?i code session u ?f2 = (Inl OtpExpired, ?f2)"
    by (simp add: verify_body_def in2) (simp add: g2_def js_falsy_def)
  then have v2: "verify_otp en ?f2 token code session u = (Inl OtpExpired, ?f2)"
    by (simp add: verify_otp_def r2 with_scope_def) (simp add: g1_def g2_def)
  have "otp_verified ?h (g2 (g1 l)) (Some session) u"
    using u(1) session host by (simp add: otp_verified_def g2_def same_hash_def hash_token_def)
  with v1 v2 r2 show ?thesis by blast
qed

text \<open>The host of the example, whose digest is never empty.\<close>

definition digest_env :: "rat proposal_env" where
  "digest_env = sample_env\<lparr>en_host := (en_host sample_env)\<lparr>ph_sha := (\<lambda>x. CHR ''#'' # x)\<rparr>\<rparr>"

definition digest_file :: proposal_file where
  "digest_file = (sample_sent [])\<lparr>pf_links := [sample_link\<lparr>lk_tokenHash := CHR ''#'' # sample_token\<rparr>]\<rparr>"

theorem requested_code_opens_session_witness:
  "\<exists>f1 f2. request_otp digest_env digest_file sample_token ''123456'' 3000 = Inr f1
     \<and> verify_otp digest_env f1 sample_token ''123456'' ''s'' 4000 = (Inr ''s'', f2)
     \<and> verify_otp digest_env f2 sample_token ''123456'' ''s'' 5000 = (Inl OtpExpired, f2)"
proof -
  let ?l = "sample_link\<lparr>lk_tokenHash := CHR ''#'' # sample_token\<rparr>"
  have link: "resolve (en_host digest_env) digest_file sample_token 3000 = Inr ?l"
    unfolding digest_env_def digest_file_def by code_simp
  have "is_ok (request_otp digest_env digest_file sample_token ''123456'' 3000)"
    unfolding digest_env_def digest_file_def by code_simp
  then obtain f1 where req: "request_otp digest_env digest_file sample_token ''123456'' 3000 = Inr f1"
    by (auto simp: is_ok_iff)
  have rest: "distinct (map lk_id (pf_links digest_file))" "(5000 :: int) < lk_expiresAt ?l" "(4000 :: int) < lk_expiresAt ?l"
      "\<forall>x. ph_sha (en_host digest_env) x \<noteq> []"
    by (simp_all add: digest_file_def digest_env_def sample_link_def sample_expiry_def)
  have times: "(4000 :: int) < 3000 + OTP_TTL_MS" "(5000 :: int) < 4000 + OTP_SESSION_TTL_MS"
    by (simp_all add: OTP_TTL_MS_def OTP_SESSION_TTL_MS_def)
  from requested_code_opens_session [OF link rest(1) req times(1) rest(3) times(2) rest(2,4), of "''s''"] req
  show ?thesis by blast
qed

end
