(* ===== verification/ProposalCreation.thy ===== *)
theory ProposalCreation
  imports ProposalSafety Codes
begin

text \<open>
  The creation of a proposal, blank or from a template (\<open>create\<close> in
  \<open>apps/api/src/proposals/proposals.service.ts\<close>). Two texts hold a character above 255, the label of the
  durations and the dash of the title: they are arguments. The number of the sequence and the
  identifiers are drawn by the database and given.
\<close>

subsection \<open>Templates and customers\<close>

record template_section =
  ts_key :: string
  ts_title :: string
  ts_kind :: section_kind
  ts_optional :: bool
  ts_validationStatus :: price_status
  ts_libraryItemKey :: "string option"
  ts_guidance :: "string option"
  ts_body :: "string option"

record proposal_template =
  tm_name :: string
  tm_archived :: bool
  tm_acceptanceMode :: acceptance_mode
  tm_validityDays :: int
  tm_followUps :: follow_up_config
  tm_sections :: "template_section list"
  tm_definition :: proposal_definition

record customer_row =
  cu_id :: string
  cu_name :: string
  cu_legalName :: "string option"
  cu_siren :: "string option"

record contact_row =
  ct_customerId :: string
  ct_firstName :: string
  ct_lastName :: string
  ct_email :: string
  ct_isSignatory :: bool

record create_body =
  cb_templateSlug :: "string option"
  cb_title :: "string option"
  cb_acceptanceMode :: "acceptance_mode option"
  cb_mergeContext :: "(string \<times> context_value) list option"
  cb_contactIds :: "string list option"

datatype creation_failure =
    CustomerNotFound
  | TemplateNotFound
  | ContactNotFound
  | NumberRefused code_error
  | DuplicateAddress
  | CreationFailed proposal_failure

text \<open>What the database of the tenant answers.\<close>

record tenant_data =
  td_customer :: "customer_row option"
  td_template :: "string \<Rightarrow> proposal_template option"
  td_library :: "string \<Rightarrow> string option"
  td_contact :: "string \<Rightarrow> contact_row option"
  td_terms :: "string option"
  td_owner :: "string option"
  td_sequence :: int
  td_engagement :: string
  td_dash :: string

subsection \<open>Sections and prices to start from\<close>

definition duration_option :: "bool \<Rightarrow> int \<Rightarrow> string \<Rightarrow> choice_option" where
  "duration_option dflt months txt =
     \<lparr>co_value = txt, co_label = txt @ '' mois'', co_default = dflt, co_commitmentMonths = Some months\<rparr>"

definition BLANK_DEFINITION :: "string \<Rightarrow> proposal_definition" where
  "BLANK_DEFINITION engagement =
     \<lparr>pd_choices =
        [\<lparr>ch_key = ''engagement'', ch_label = engagement,
          ch_options = [duration_option True 12 ''12'', duration_option False 24 ''24'', duration_option False 36 ''36''],
          ch_editableByClient = True, ch_priceStatus = None\<rparr>],
      pd_lines =
        [\<lparr>pp_key = ''prestation'', pp_label = ''Prestation'', pp_kind = LK_REQUIRED, pp_unit = ''forfait / mois'',
          pp_recurrence = PR_MONTHLY,
          pp_quantity = Some \<lparr>pq_default = QNumber 1, pq_min = 1, pq_max = Some 1, pq_maxFrom = None,
            pq_linkedTo = None, pq_editableByClient = False\<rparr>,
          pp_pricing = UnitCents 0, pp_priceFrom = None, pp_priceStatus = PS_TO_VALIDATE,
          pp_priceStatusByChoice = None, pp_group = LG_RECURRING, pp_grid = None\<rparr>],
      pd_rules = [], pd_vatRatePercent = ''20''\<rparr>"

definition blank_section :: "string \<Rightarrow> string \<Rightarrow> section_kind \<Rightarrow> block \<Rightarrow> section_input" where
  "blank_section k title kind b =
     \<lparr>si_key = k, si_title = title, si_kind = kind, si_optional = None, si_excluded = None,
      si_libraryItemKey = None, si_guidance = None, si_blocks = [b]\<rparr>"

definition NL2 :: string where
  "NL2 = [CHR 0x0A, CHR 0x0A]"

definition BLANK_SECTIONS :: "section_input list" where
  "BLANK_SECTIONS =
     [blank_section ''couverture'' ''Couverture'' SK_COVER
        (RICH_TEXT (''# Proposition'' @ NL2 @ ''**{{client.raisonSociale}}**'' @ NL2 @ ''Proposition n''
           @ [CHR 0xB0] @ '' {{proposition.numero}}'') None None),
      blank_section ''contexte'' ''Votre contexte'' SK_CLIENT_INPUT (RICH_TEXT [] None None),
      blank_section ''investissement'' ''Votre investissement'' SK_PRICING (PRICING_TABLE None),
      blank_section ''cgv'' (''Conditions g'' @ [CHR 0xE9] @ ''n'' @ [CHR 0xE9] @ ''rales de vente'') SK_TERMS TERMS_BLOCK,
      blank_section ''signature'' ''Acceptation et signature'' SK_SIGNATURE SIGNATURE_BLOCK]"

definition filled_text :: "string option \<Rightarrow> string option" where
  "filled_text t = (case t of Some s \<Rightarrow> if s = [] then None else Some s | None \<Rightarrow> None)"

definition template_block :: "proposal_host \<Rightarrow> (string \<Rightarrow> string option) \<Rightarrow> template_section \<Rightarrow> block" where
  "template_block h library s =
     (case ts_kind s of
        SK_LIBRARY \<Rightarrow>
          let body = (case Option.bind (ts_libraryItemKey s) library of Some b \<Rightarrow> b | None \<Rightarrow> TO_COMPLETE_MARK)
          in RICH_TEXT body None (Some (ph_sha h body))
      | SK_CLIENT_INPUT \<Rightarrow> RICH_TEXT [] (filled_text (ts_guidance s)) None
      | SK_PRICING \<Rightarrow> PRICING_TABLE (filled_text (ts_body s))
      | SK_TERMS \<Rightarrow> TERMS_BLOCK
      | SK_SIGNATURE \<Rightarrow> SIGNATURE_BLOCK
      | _ \<Rightarrow> RICH_TEXT (given (ts_body s) []) None None)"

definition from_template_section ::
    "proposal_host \<Rightarrow> (string \<Rightarrow> string option) \<Rightarrow> template_section \<Rightarrow> section_input" where
  "from_template_section h library s =
     \<lparr>si_key = ts_key s, si_title = ts_title s, si_kind = ts_kind s, si_optional = Some (ts_optional s),
      si_excluded = None, si_libraryItemKey = ts_libraryItemKey s, si_guidance = ts_guidance s,
      si_blocks = [template_block h library s]\<rparr>"

subsection \<open>Recipients\<close>

definition contact_recipient :: "string \<Rightarrow> nat \<Rightarrow> contact_row \<Rightarrow> recipient" where
  "contact_recipient i n c =
     \<lparr>rc_id = i, rc_fullName = ct_firstName c @ '' '' @ ct_lastName c, rc_email = map js_lower_char (ct_email c),
      rc_role = (if ct_isSignatory c then SIGNER else DECISION_MAKER), rc_signingOrder = int n,
      rc_contact = Some (ct_firstName c, ct_lastName c)\<rparr>"

text \<open>One recipient by address: the unique index refuses the second.\<close>

definition add_contact ::
    "tenant_data \<Rightarrow> string \<Rightarrow> (nat \<Rightarrow> string) \<Rightarrow> recipient list \<Rightarrow> string \<Rightarrow> creation_failure + recipient list" where
  "add_contact td customerId fresh rs contactId =
     (case td_contact td contactId of
        None \<Rightarrow> Inl ContactNotFound
      | Some c \<Rightarrow>
          if ct_customerId c \<noteq> customerId then Inl ContactNotFound
          else let r = contact_recipient (fresh (length rs)) (length rs) c
               in if list_ex (\<lambda>x. rc_email x = rc_email r) rs then Inl DuplicateAddress else Inr (rs @ [r]))"

fun add_contacts ::
    "tenant_data \<Rightarrow> string \<Rightarrow> (nat \<Rightarrow> string) \<Rightarrow> recipient list \<Rightarrow> string list \<Rightarrow> creation_failure + recipient list" where
  "add_contacts td customerId fresh rs [] = Inr rs"
| "add_contacts td customerId fresh rs (c # cs) =
     ebind (add_contact td customerId fresh rs c) (\<lambda>rs'. add_contacts td customerId fresh rs' cs)"

subsection \<open>Creation\<close>

definition chosen_template :: "tenant_data \<Rightarrow> string option \<Rightarrow> creation_failure + proposal_template option" where
  "chosen_template td slug =
     (if js_falsy slug then Inr None
      else case td_template td (the slug) of
             None \<Rightarrow> Inl TemplateNotFound
           | Some t \<Rightarrow> if tm_archived t then Inl TemplateNotFound else Inr (Some t))"

definition created_title :: "tenant_data \<Rightarrow> create_body \<Rightarrow> proposal_template option \<Rightarrow> customer_row \<Rightarrow> string" where
  "created_title td b template c =
     (case cb_title b of
        Some t \<Rightarrow> t
      | None \<Rightarrow> (case template of Some t \<Rightarrow> tm_name t | None \<Rightarrow> ''Proposition'') @ td_dash td
                @ given (cu_legalName c) (cu_name c))"

definition created_row ::
    "proposal_settings \<Rightarrow> tenant_data \<Rightarrow> create_body \<Rightarrow> proposal_template option \<Rightarrow> customer_row
     \<Rightarrow> string \<Rightarrow> string \<Rightarrow> string \<Rightarrow> jsdate \<Rightarrow> proposal_row" where
  "created_row st td b template c pid versionId number now =
     \<lparr>pw_id = pid, pw_number = number, pw_title = created_title td b template c, pw_status = P_DRAFT,
      pw_acceptanceMode = given (cb_acceptanceMode b)
        (case template of Some t \<Rightarrow> tm_acceptanceMode t | None \<Rightarrow> DOCUSEAL_SIGNATURE),
      pw_currentVersionId = Some versionId,
      pw_validityDays = (case template of Some t \<Rightarrow> tm_validityDays t | None \<Rightarrow> pg_defaultValidityDays st),
      pw_fixedExpiryDate = None, pw_expiresAt = None, pw_reviewSubmittedByUserId = None,
      pw_reviewApprovedVersionId = None, pw_acceptedVersionId = None,
      pw_mergeContext = given (cb_mergeContext b) [], pw_customerName = cu_name c,
      pw_customerLegalName = cu_legalName c, pw_customerSiren = cu_siren c, pw_ownerName = td_owner td,
      pw_followUpsEnabled = True, pw_followUpConfig = map_option tm_followUps template, pw_sensitive = False,
      pw_firstViewedAt = None, pw_clientRespondedAt = None, pw_stamps = [], pw_updatedAt = now,
      pw_monthlyCents = 0, pw_oneTimeCents = 0, pw_commitmentTotalCents = 0, pw_reviewRequired = False\<rparr>"

definition created_version ::
    "proposal_host \<Rightarrow> proposal_settings \<Rightarrow> tenant_data \<Rightarrow> create_body \<Rightarrow> proposal_template option
     \<Rightarrow> customer_row \<Rightarrow> string \<Rightarrow> proposal_version" where
  "created_version h st td b template c versionId =
     \<lparr>vn_id = versionId, vn_number = 1, vn_title = created_title td b template c,
      vn_pricingDefinition =
        (case template of Some t \<Rightarrow> tm_definition t | None \<Rightarrow> BLANK_DEFINITION (td_engagement td)),
      vn_pricingSettings = Some (pg_pricing st),
      vn_sections = (case template of
          Some t \<Rightarrow> map (written_section (map (\<lambda>s. (ts_key s, ts_validationStatus s)) (tm_sections t)) [])
                     (map (from_template_section h (td_library td)) (tm_sections t))
        | None \<Rightarrow> map (written_section [] []) BLANK_SECTIONS),
      vn_terms = td_terms td, vn_mergeValues = None, vn_lockedAt = None, vn_supersededAt = None\<rparr>"

text \<open>\<open>Number(parisDay(now).slice(0, 4))\<close>.\<close>

definition created_year :: "proposal_host \<Rightarrow> jsdate \<Rightarrow> int" where
  "created_year h now = int (digits_val (take 4 (ph_parisDay h now)))"

definition lift_creation :: "('e \<Rightarrow> creation_failure) \<Rightarrow> 'e + 'a \<Rightarrow> creation_failure + 'a" where
  "lift_creation g r = (case r of Inl e \<Rightarrow> Inl (g e) | Inr x \<Rightarrow> Inr x)"

lemma lift_creation_Inr [simp]: "lift_creation g r = Inr x \<longleftrightarrow> r = Inr x"
  by (simp add: lift_creation_def split: sum.split)

definition create ::
    "'d proposal_env \<Rightarrow> tenant_data \<Rightarrow> create_body \<Rightarrow> string \<Rightarrow> string \<Rightarrow> (nat \<Rightarrow> string) \<Rightarrow> jsdate
     \<Rightarrow> creation_failure + proposal_file" where
  "create en td b pid versionId fresh now =
     (case td_customer td of
        None \<Rightarrow> Inl CustomerNotFound
      | Some c \<Rightarrow>
          ebind (chosen_template td (cb_templateSlug b)) (\<lambda>template.
          ebind (lift_creation NumberRefused
              (format_proposal_number (created_year (en_host en) now) (td_sequence td))) (\<lambda>number.
          ebind (add_contacts td (cu_id c) fresh [] (given (cb_contactIds b) [])) (\<lambda>rs.
            let f = \<lparr>pf_proposal = created_row (en_settings en) td b template c pid versionId number now,
                     pf_versions = [created_version (en_host en) (en_settings en) td b template c versionId],
                     pf_recipients = rs, pf_selections = [], pf_links = [], pf_followUps = [],
                     pf_snapshots = [], pf_acceptances = [], pf_outbox = [],
                     pf_template = map_option tm_definition template, pf_latestTerms = td_terms td\<rparr>
            in lift_creation CreationFailed (ebind (refresh_summary en f now) (\<lambda>f'. detail en f' now))))))"

subsection \<open>What is created\<close>

lemma add_contact_ids:
  "add_contact td i fresh rs c = Inr rs' \<Longrightarrow> map rc_id rs' = map rc_id rs @ [fresh (length rs)]"
  by (auto simp: add_contact_def contact_recipient_def Let_def split: option.splits if_splits)

lemma add_contacts_ids:
  "add_contacts td i fresh rs cs = Inr rs' \<Longrightarrow> map rc_id rs = map fresh [0..<length rs] \<Longrightarrow>
     map rc_id rs' = map fresh [0..<length rs']"
proof (induction cs arbitrary: rs)
  case (Cons c cs)
  then obtain rs1 where rs1: "add_contact td i fresh rs c = Inr rs1" "add_contacts td i fresh rs1 cs = Inr rs'"
    by (auto simp: ebind_Inr_iff)
  have ids: "map rc_id rs1 = map fresh [0..<length rs] @ [fresh (length rs)]"
    using add_contact_ids [OF rs1(1)] Cons.prems(2) by simp
  from arg_cong [OF this, of length] have "length rs1 = Suc (length rs)" by simp
  with ids have "map rc_id rs1 = map fresh [0..<length rs1]" by simp
  from Cons.IH [OF rs1(2) this] show ?case .
qed simp

lemma template_statuses:
  assumes "distinct (map ts_key ts)"
  shows "validation_of (map (written_section (map (\<lambda>s. (ts_key s, ts_validationStatus s)) ts) [])
      (map (from_template_section h library) ts)) = map (\<lambda>s. (ts_key s, ts_validationStatus s)) ts"
proof -
  let ?kvs = "map (\<lambda>s. (ts_key s, ts_validationStatus s)) ts"
  have "map_of (rev ?kvs) = map_of ?kvs" using assms by (intro map_of_inject_set [THEN iffD2]) (simp_all add: comp_def rev_map [symmetric])
  moreover have "map_of ?kvs (ts_key s) = Some (ts_validationStatus s)" if "s \<in> set ts" for s
    using assms that by (intro map_of_is_SomeI) (auto simp: comp_def)
  ultimately show ?thesis
    by (simp add: validation_of_def written_section_def from_template_section_def last_entry_def del: map_of_eq_Some_iff)
qed

lemma create_Inr:
  assumes "create en td b pid versionId fresh now = Inr f"
  obtains c template number rs f0 where
    "chosen_template td (cb_templateSlug b) = Inr template"
    "format_proposal_number (created_year (en_host en) now) (td_sequence td) = Inr number"
    "add_contacts td (cu_id c) fresh [] (given (cb_contactIds b) []) = Inr rs"
    "frame f0 f" "pf_links f0 = []" "pf_recipients f0 = rs"
    "pf_proposal f0 = created_row (en_settings en) td b template c pid versionId number now"
    "pf_versions f0 = [created_version (en_host en) (en_settings en) td b template c versionId]"
    "pw_number (pf_proposal f) = number"
proof -
  obtain c template number rs f0 f1 where 0: "chosen_template td (cb_templateSlug b) = Inr template"
    "format_proposal_number (created_year (en_host en) now) (td_sequence td) = Inr number"
    "add_contacts td (cu_id c) fresh [] (given (cb_contactIds b) []) = Inr rs"
    and f0: "pf_links f0 = []" "pf_recipients f0 = rs"
    "pf_proposal f0 = created_row (en_settings en) td b template c pid versionId number now"
    "pf_versions f0 = [created_version (en_host en) (en_settings en) td b template c versionId]"
    and f1: "refresh_summary en f0 now = Inr f1" "detail en f1 now = Inr f"
    using assms unfolding create_def Let_def
    by (auto simp: ebind_Inr_iff split: option.splits) (rule that, assumption+, simp_all)
  have "f = f1" using detail_same [OF f1(2)] .
  moreover have "pw_number (pf_proposal f1) = pw_number (pf_proposal f0)"
    using f1(1) by (auto simp: refresh_summary_def ebind_Inr_iff set_row_def summary_def)
  ultimately show thesis
    using that [OF 0 _ f0] refresh_frame [OF f1(1)] f0(3) by (simp add: created_row_def)
qed

text \<open>C26: A created proposal is a draft with one version being written and no link, the state every
  guarantee of its life starts from; its number says its year and its place in the sequence; and every
  section its template still has to validate has to be validated in it.\<close>

theorem created_proposal_is_new:
  assumes "create en td b pid versionId fresh now = Inr f" "inj fresh"
  shows "new_file f
     \<and> parse_proposal_number (pw_number (pf_proposal f))
         = Some (nat (created_year (en_host en) now), nat (td_sequence td))
     \<and> (case chosen_template td (cb_templateSlug b) of
           Inr (Some t) \<Rightarrow> distinct (map ts_key (tm_sections t)) \<longrightarrow>
             map (\<lambda>v. validation_of (vn_sections v)) (pf_versions f)
               = [map (\<lambda>s. (ts_key s, ts_validationStatus s)) (tm_sections t)]
         | _ \<Rightarrow> True)"
proof (rule create_Inr [OF assms(1)])
  fix c template number rs f0
  assume t: "chosen_template td (cb_templateSlug b) = Inr template"
    and n: "format_proposal_number (created_year (en_host en) now) (td_sequence td) = Inr number"
    and rs: "add_contacts td (cu_id c) fresh [] (given (cb_contactIds b) []) = Inr rs"
    and fr: "frame f0 f" and f0: "pf_links f0 = []" "pf_recipients f0 = rs"
      "pf_proposal f0 = created_row (en_settings en) td b template c pid versionId number now"
      "pf_versions f0 = [created_version (en_host en) (en_settings en) td b template c versionId]"
    and num: "pw_number (pf_proposal f) = number"
  have "distinct (recipient_ids f0)"
    using add_contacts_ids [OF rs] assms(2) 
    by (simp add: recipient_ids_def f0(2) distinct_map) (rule inj_on_subset [OF assms(2)], simp)
  then have "new_file f"
    using fr by (simp add: new_file_def frame_def same_row_def f0) (simp add: created_version_def created_row_def)
  moreover have "parse_proposal_number number = Some (nat (created_year (en_host en) now), nat (td_sequence td))"
    using proposal_number_round_trip [of "created_year (en_host en) now" "td_sequence td"] n by simp
  moreover have "pf_versions f = pf_versions f0" using fr by (simp add: frame_def)
  then have "case template of Some t \<Rightarrow> distinct (map ts_key (tm_sections t)) \<longrightarrow>
      map (\<lambda>v. validation_of (vn_sections v)) (pf_versions f)
        = [map (\<lambda>s. (ts_key s, ts_validationStatus s)) (tm_sections t)] | None \<Rightarrow> True"
    using template_statuses by (simp add: f0(4) created_version_def split: option.split)
  ultimately show ?thesis by (simp add: num t split: option.splits)
qed

subsection \<open>Example\<close>

definition sample_template :: proposal_template where
  "sample_template =
     \<lparr>tm_name = ''Infogerance'', tm_archived = False, tm_acceptanceMode = DOCUSEAL_SIGNATURE, tm_validityDays = 30,
      tm_followUps = DEFAULT_FOLLOW_UPS,
      tm_sections =
        [\<lparr>ts_key = ''offre'', ts_title = ''Notre offre'', ts_kind = SK_LIBRARY, ts_optional = False,
          ts_validationStatus = PS_TO_VALIDATE, ts_libraryItemKey = Some ''offre'', ts_guidance = None, ts_body = None\<rparr>,
         \<lparr>ts_key = ''prix'', ts_title = ''Prix'', ts_kind = SK_PRICING, ts_optional = False,
          ts_validationStatus = PS_VALIDATED, ts_libraryItemKey = None, ts_guidance = None, ts_body = Some []\<rparr>],
      tm_definition = sample_definition\<rparr>"

definition sample_tenant :: tenant_data where
  "sample_tenant =
     \<lparr>td_customer = Some \<lparr>cu_id = ''k1'', cu_name = ''Durand'', cu_legalName = None, cu_siren = None\<rparr>,
      td_template = (\<lambda>slug. if slug = ''modele'' then Some sample_template else None),
      td_library = (\<lambda>_. None),
      td_contact = (\<lambda>_. Some \<lparr>ct_customerId = ''k1'', ct_firstName = ''Anne'', ct_lastName = ''Durand'',
        ct_email = ''Anne@Durand.fr'', ct_isSignatory = True\<rparr>),
      td_terms = None, td_owner = None, td_sequence = 7, td_engagement = ''Engagement'', td_dash = '' - ''\<rparr>"

definition sample_body :: create_body where
  "sample_body =
     \<lparr>cb_templateSlug = Some ''modele'', cb_title = None, cb_acceptanceMode = None, cb_mergeContext = None,
      cb_contactIds = Some [''c1'']\<rparr>"

definition nth_id :: "nat \<Rightarrow> string" where
  "nth_id n = replicate n (CHR ''i'')"

lemma sample_computable:
  assumes "load_proposal g = Inr ld" "pf_template g = Some sample_definition"
    and "vn_pricingDefinition (lp_version ld) = sample_definition"
    and "vn_pricingSettings (lp_version ld) = Some (full_settings DEFAULT_PRICING_SETTINGS)"
    and "lp_latestSelection ld = None" "pw_mergeContext (lp_proposal ld) = []"
  shows "\<exists>s. state_of sample_env g ld now None None = Inr s"
proof -
  have "with_template_validations sample_definition (Some sample_definition) = sample_definition" by code_simp
  moreover have "merge_settings (full_settings st) (full_settings st) = full_settings st" for st
    by (simp add: merge_settings_def full_settings_def)
  moreover obtain q where "quote_proposal rat_ops sample_definition
         \<lparr>ps_choices = [], ps_quantities = [], ps_selectedOptions = [], ps_context = []\<rparr>
         (sample_opts (Some (full_settings DEFAULT_PRICING_SETTINGS))) = Inr q"
    using sample_quoted [OF new_year_reads(2)] by blast
  ultimately show ?thesis
    using assms by (simp add: state_of_def compute_state_def Let_def state_quote_def selection_of_def EMPTY_SELECTION_def
        pricing_context_of_def) (simp add: sample_env_def sample_opts_def)
qed

lemma created_state:
  assumes "pf_versions g = [v]" "pw_currentVersionId (pf_proposal g) = Some (vn_id v)" "pf_selections g = []"
    and "pf_template g = Some sample_definition" "vn_pricingDefinition v = sample_definition"
    and "vn_pricingSettings v = Some (full_settings DEFAULT_PRICING_SETTINGS)" "pw_mergeContext (pf_proposal g) = []"
  shows "\<exists>ld s. load_proposal g = Inr ld \<and> state_of sample_env g ld now None None = Inr s"
proof -
  obtain ld where ld: "load_proposal g = Inr ld" "lp_version ld = v" "lp_latestSelection ld = None"
      "lp_proposal ld = pf_proposal g"
    using assms(1-3) by (simp add: load_proposal_def load_version_def find_version_def latest_selection_def)
  have "\<exists>s. state_of sample_env g ld now None None = Inr s"
    by (rule sample_computable [OF ld(1) assms(4) _ _ ld(3)]) (simp_all add: ld(2,4) assms(5-7))
  with ld(1) show ?thesis by blast
qed

lemma create_InrI:
  assumes "td_customer td = Some c" "chosen_template td (cb_templateSlug b) = Inr template"
    and "format_proposal_number (created_year (en_host en) now) (td_sequence td) = Inr number"
    and "add_contacts td (cu_id c) fresh [] (given (cb_contactIds b) []) = Inr rs"
    and "refresh_summary en \<lparr>pf_proposal = created_row (en_settings en) td b template c pid versionId number now,
           pf_versions = [created_version (en_host en) (en_settings en) td b template c versionId],
           pf_recipients = rs, pf_selections = [], pf_links = [], pf_followUps = [],
           pf_snapshots = [], pf_acceptances = [], pf_outbox = [],
           pf_template = map_option tm_definition template, pf_latestTerms = td_terms td\<rparr> now = Inr f1"
    and "detail en f1 now = Inr f1"
  shows "create en td b pid versionId fresh now = Inr f1"
  using assms by (simp add: create_def Let_def lift_creation_def)

lemma sample_creation: "\<exists>f. create sample_env sample_tenant sample_body ''p1'' ''v1'' nth_id 0 = Inr f"
proof -
  let ?c = "\<lparr>cu_id = ''k1'', cu_name = ''Durand'', cu_legalName = None, cu_siren = None\<rparr> :: customer_row"
  let ?h = "en_host sample_env" and ?st = "en_settings sample_env"
  have customer: "td_customer sample_tenant = Some ?c" and terms: "td_terms sample_tenant = None"
      "map_option tm_definition (Some sample_template) = Some sample_definition"
    by (simp_all add: sample_tenant_def sample_template_def)
  have number: "format_proposal_number (created_year ?h 0) (td_sequence sample_tenant) = Inr ''PROP-2026-0007''"
    unfolding sample_env_def sample_tenant_def by code_simp
  have template: "chosen_template sample_tenant (cb_templateSlug sample_body) = Inr (Some sample_template)"
    by (simp add: chosen_template_def sample_tenant_def sample_body_def sample_template_def js_falsy_def)
  obtain rs where rs: "add_contacts sample_tenant ''k1'' nth_id [] (given (cb_contactIds sample_body) []) = Inr rs"
    by (simp add: sample_body_def given_def add_contact_def sample_tenant_def Let_def)
  let ?f = "\<lparr>pf_proposal = created_row ?st sample_tenant sample_body (Some sample_template) ?c ''p1'' ''v1'' ''PROP-2026-0007'' 0,
      pf_versions = [created_version ?h ?st sample_tenant sample_body (Some sample_template) ?c ''v1''],
      pf_recipients = rs, pf_selections = [], pf_links = [], pf_followUps = [], pf_snapshots = [],
      pf_acceptances = [], pf_outbox = [], pf_template = Some sample_definition, pf_latestTerms = None\<rparr>"
  have ok: "\<exists>ld s. load_proposal (set_row g ?f) = Inr ld \<and> state_of sample_env (set_row g ?f) ld 0 None None = Inr s"
    if "\<forall>p. pw_currentVersionId (g p) = pw_currentVersionId p \<and> pw_mergeContext (g p) = pw_mergeContext p" for g
    by (rule created_state [where v = "created_version ?h ?st sample_tenant sample_body (Some sample_template) ?c ''v1''"])
      (simp_all add: that set_row_def, simp_all add: created_row_def created_version_def sample_body_def given_def
        sample_template_def sample_env_def)
  have "set_row (\<lambda>p. p) ?f = ?f" by (simp add: set_row_def)
  with ok [of "\<lambda>p. p"] obtain ld s
    where s: "load_proposal ?f = Inr ld" "state_of sample_env ?f ld 0 None None = Inr s" by auto
  let ?g = "\<lambda>p. (summary (cp_quote s) p)\<lparr>pw_reviewRequired := rk_reviewRequired (cp_counters s)\<rparr>"
  have f1: "refresh_summary sample_env ?f 0 = Inr (set_row ?g ?f)"
    by (simp only: refresh_summary_def s ebind_simps)
  from ok [of ?g] have "detail sample_env (set_row ?g ?f) 0 = Inr (set_row ?g ?f)"
    by (auto simp: detail_def summary_def)
  then have "create sample_env sample_tenant sample_body ''p1'' ''v1'' nth_id 0 = Inr (set_row ?g ?f)"
    using f1 by (intro create_InrI [where c = ?c, OF _ template number])
      (simp_all only: rs customer customer_row.simps terms)
  then show ?thesis by blast
qed

theorem created_proposal_is_new_witness:
  "\<exists>f. create sample_env sample_tenant sample_body ''p1'' ''v1'' nth_id 0 = Inr f \<and> new_file f
     \<and> map (\<lambda>v. validation_of (vn_sections v)) (pf_versions f) = [[(''offre'', PS_TO_VALIDATE), (''prix'', PS_VALIDATED)]]"
proof -
  obtain f where f: "create sample_env sample_tenant sample_body ''p1'' ''v1'' nth_id 0 = Inr f"
    using sample_creation by blast
  have "inj nth_id" by (rule injI) (auto simp: nth_id_def dest: arg_cong [of _ _ length])
  moreover have "chosen_template sample_tenant (cb_templateSlug sample_body) = Inr (Some sample_template)"
    by (simp add: chosen_template_def sample_tenant_def sample_body_def sample_template_def js_falsy_def)
  ultimately show ?thesis
    using created_proposal_is_new [OF f] f by (intro exI [of _ f]) (simp add: sample_template_def)
qed

end
