(* ===== verification/IsoDays.thy ===== *)
theory IsoDays
  imports PricingTypes Codes
begin

text \<open>
  Calendar days as the pricing services exchange them: the columns of the database are dates, read at midnight
  UTC, and the engine compares texts \<open>YYYY-MM-DD\<close> (\<open>isoDay\<close> and \<open>dayToDate\<close> in
  \<open>apps/api/src/pricing/pricing-snapshot.ts\<close>). The order of the texts is the order of the days, for the
  years the engine reads.
\<close>

text \<open>\<open>dayToDate(s)\<close>, \<open>new Date(`${s}T00:00:00Z`)\<close> of the text of a day.\<close>

definition day_to_date :: "string \<Rightarrow> jsdate" where
  "day_to_date s =
     make_day (int (digits_val (take 4 s))) (int (digits_val (take 2 (drop 5 s))) - 1)
       (int (digits_val (drop 8 s))) * ms_per_day"

text \<open>\<open>previousDay(day)\<close>.\<close>

definition previous_day :: "string \<Rightarrow> string" where
  "previous_day s = (let d = day_to_date s in iso_date (set_utc_date d (get_utc_date d - 1)))"

subsection \<open>Texts of digits\<close>

lemma append_less_iff:
  "length s = length t \<Longrightarrow> (s :: string) @ u < t @ v \<longleftrightarrow> s < t \<or> s = t \<and> u < v"
  by (induction s t rule: list_induct2) auto

lemma digit_val_less: "is_digit c \<Longrightarrow> digit_val c < 10"
  unfolding is_digit_def digit_val_def by linarith

lemma digit_less_iff: "is_digit c \<Longrightarrow> is_digit d \<Longrightarrow> c < d \<longleftrightarrow> digit_val c < digit_val d"
  by (auto simp: is_digit_def digit_val_def less_char_def)

lemma digit_eq_iff: "is_digit c \<Longrightarrow> is_digit d \<Longrightarrow> c = d \<longleftrightarrow> digit_val c = digit_val d"
  by (auto simp: is_digit_def digit_val_def dest: eq_diff_iff [THEN iffD1, rotated 2])

lemma digits_val_Cons: "digits_val (c # s) = digit_val c * 10 ^ length s + digits_val s"
  using digits_val_app [of "[c]" s] by (simp add: digits_val_def)

lemma digits_val_bound: "list_all is_digit s \<Longrightarrow> digits_val s < 10 ^ length s"
proof (induction s)
  case (Cons c s)
  then have "digit_val c * 10 ^ length s \<le> 9 * 10 ^ length s"
    using digit_val_less [of c] by (intro mult_le_mono1) simp
  moreover have "digits_val s < 10 ^ length s" using Cons by simp
  ultimately have "digit_val c * 10 ^ length s + digits_val s < 10 * 10 ^ length s" by linarith
  then show ?case by (simp add: digits_val_Cons)
qed (simp add: digits_val_def)

lemma digits_less_iff:
  "length s = length t \<Longrightarrow> list_all is_digit s \<Longrightarrow> list_all is_digit t \<Longrightarrow>
     s < t \<longleftrightarrow> digits_val s < digits_val t"
proof (induction s t rule: list_induct2)
  case (Cons c s d t)
  have b: "digits_val s < 10 ^ length t" "digits_val t < 10 ^ length t"
    using digits_val_bound [of s] digits_val_bound [of t] Cons by simp_all
  have lex: "a * n + x < b' * n + y \<longleftrightarrow> a < b' \<or> a = b' \<and> x < y" if "x < n" "y < n" for a b' n x y :: nat
  proof (cases a b' rule: linorder_cases)
    case less
    then have "Suc a * n \<le> b' * n" by (intro mult_le_mono1) simp
    with that less show ?thesis by simp
  next
    case greater
    then have "Suc b' * n \<le> a * n" by (intro mult_le_mono1) simp
    with that greater show ?thesis by simp
  qed simp
  show ?case
    using Cons digit_less_iff [of c d] digit_eq_iff [of c d] lex [OF b]
    by (auto simp: digits_val_Cons)
qed simp

lemma digits_eq_iff:
  "length s = length t \<Longrightarrow> list_all is_digit s \<Longrightarrow> list_all is_digit t \<Longrightarrow>
     s = t \<longleftrightarrow> digits_val s = digits_val t"
  by (metis digits_less_iff less_irrefl linorder_less_linear)

subsection \<open>The order of the days\<close>

definition four_digits :: "jsdate \<Rightarrow> bool" where
  "four_digits t \<longleftrightarrow> 0 \<le> get_utc_full_year t \<and> get_utc_full_year t \<le> 9999"

definition padded :: "nat \<Rightarrow> int \<Rightarrow> string" where
  "padded w n = pad_start w (CHR ''0'') (nat_string (nat n))"

lemma padded_digits: "list_all is_digit (padded w n)" "digits_val (padded w n) = nat n"
  by (simp_all add: padded_def pad_start_digits nat_string_digits)

lemma length_padded: "nat n < 10 ^ w \<Longrightarrow> 0 < w \<Longrightarrow> length (padded w n) = w"
  using length_nat_string [of "nat n" w] by (simp add: padded_def length_pad_start)

lemma padded_less: "nat m < 10 ^ w \<Longrightarrow> nat n < 10 ^ w \<Longrightarrow> 0 < w \<Longrightarrow> padded w m < padded w n \<longleftrightarrow> nat m < nat n"
  and padded_eq: "nat m < 10 ^ w \<Longrightarrow> nat n < 10 ^ w \<Longrightarrow> 0 < w \<Longrightarrow> padded w m = padded w n \<longleftrightarrow> nat m = nat n"
  using digits_less_iff [of "padded w m" "padded w n"] digits_eq_iff [of "padded w m" "padded w n"]
  by (simp_all add: padded_digits length_padded)

lemma month_bounds: "0 \<le> get_utc_month t" "get_utc_month t \<le> 11"
  by (simp_all add: get_utc_month_def month_of_day_range)

lemma mday_bounds: "1 \<le> get_utc_date t" "get_utc_date t \<le> 31"
  using mday_of_day_range [of "day t"] days_in_month_bounds [OF month_of_day_range, of "leap_year (year_from_day (day t))" "day t"]
  by (simp_all add: get_utc_date_def)

lemma iso_date_four:
  assumes "four_digits t"
  shows "iso_date t = padded 4 (get_utc_full_year t) @ ''-'' @ padded 2 (get_utc_month t + 1) @ ''-''
     @ padded 2 (get_utc_date t)"
    and "length (padded 4 (get_utc_full_year t)) = 4" "length (padded 2 (get_utc_month t + 1)) = 2"
    "length (padded 2 (get_utc_date t)) = 2"
proof -
  show l: "length (padded 4 (get_utc_full_year t)) = 4" "length (padded 2 (get_utc_month t + 1)) = 2"
    "length (padded 2 (get_utc_date t)) = 2"
    using assms month_bounds [of t] mday_bounds [of t] by (simp_all add: length_padded four_digits_def nat_less_iff)
  then show "iso_date t = padded 4 (get_utc_full_year t) @ ''-'' @ padded 2 (get_utc_month t + 1) @ ''-''
     @ padded 2 (get_utc_date t)"
    using assms by (simp add: iso_date_def iso_year_def four_digits_def padded_def)
qed

text \<open>The fields of a day are in the order of the days.\<close>

lemma days_before_month_mono:
  assumes "0 \<le> m" "m < n" "n \<le> 11"
  shows "days_before_month l (m + 1) \<le> days_before_month l n"
proof -
  have "m \<in> {0, 1, 2, 3, 4, 5, 6, 7, 8, 9, 10, 11}" "n \<in> {0, 1, 2, 3, 4, 5, 6, 7, 8, 9, 10, 11}"
    using month_cases [of m] month_cases [of n] assms by linarith+
  then show ?thesis
    using assms(2) unfolding days_before_month_def leap_add_def
    by (elim insertE emptyE) simp_all
qed

lemma day_order:
  "day a < day b \<longleftrightarrow>
     get_utc_full_year a < get_utc_full_year b
     \<or> get_utc_full_year a = get_utc_full_year b \<and>
        (get_utc_month a < get_utc_month b
         \<or> get_utc_month a = get_utc_month b \<and> get_utc_date a < get_utc_date b)"
proof -
  have fwd: "x < y" if "year_from_day x < year_from_day y
     \<or> year_from_day x = year_from_day y \<and>
        (month_of_day x < month_of_day y \<or> month_of_day x = month_of_day y \<and> mday_of_day x < mday_of_day y)" for x y
  proof (cases "year_from_day x < year_from_day y")
    case True
    have "day_from_year (year_from_day x + 1) \<le> day_from_year (year_from_day y)"
      using True day_from_year_strict [of "year_from_day x + 1" "year_from_day y"]
      by (cases "year_from_day x + 1 = year_from_day y") auto
    then show ?thesis using year_from_day_upper [of x] year_from_day_lower [of y] by linarith
  next
    case False
    with that have y: "year_from_day x = year_from_day y" by auto
    let ?l = "leap_year (year_from_day y)"
    show ?thesis
    proof (cases "month_of_day x < month_of_day y")
      case True
      have "days_before_month ?l (month_of_day x + 1) \<le> days_before_month ?l (month_of_day y)"
        using days_before_month_mono [OF _ True] month_of_day_range by blast
      then have "year_day x < year_day y"
        using days_before_month_yday [OF year_day_range [of x]] days_before_month_yday [OF year_day_range [of y]]
        by (simp add: month_of_day_def y)
      then show ?thesis by (simp add: year_day_def y)
    next
      case False
      with that y show ?thesis by (auto simp: mday_of_day_def year_day_def)
    qed
  qed
  have eq: "x = y" if "year_from_day x = year_from_day y" "month_of_day x = month_of_day y" "mday_of_day x = mday_of_day y" for x y
    using that by (simp add: mday_of_day_def year_day_def)
  let ?P = "\<lambda>x y. year_from_day x < year_from_day y
     \<or> year_from_day x = year_from_day y \<and>
        (month_of_day x < month_of_day y \<or> month_of_day x = month_of_day y \<and> mday_of_day x < mday_of_day y)"
  have total: "?P x y \<or> ?P y x \<or> x = y" for x y
    using eq [of x y] by linarith
  have "x < y \<longleftrightarrow> ?P x y" for x y
  proof
    assume less: "x < y"
    then have "\<not> ?P y x" using fwd [of y x] by linarith
    then show "?P x y" using total [of x y] less by blast
  qed (rule fwd)
  then show ?thesis
    unfolding get_utc_full_year_def get_utc_month_def get_utc_date_def .
qed

lemma nat_order:
  fixes x y :: int
  shows "0 \<le> x \<Longrightarrow> 0 \<le> y \<Longrightarrow> nat x < nat y \<longleftrightarrow> x < y" "0 \<le> x \<Longrightarrow> 0 \<le> y \<Longrightarrow> nat x = nat y \<longleftrightarrow> x = y"
  by auto

lemma iso_date_less:
  assumes "four_digits a" "four_digits b"
  shows "iso_date a < iso_date b \<longleftrightarrow> day a < day b"
proof -
  note la = iso_date_four [OF assms(1)] and lb = iso_date_four [OF assms(2)]
  have y: "nat (get_utc_full_year a) < 10 ^ 4" "nat (get_utc_full_year b) < 10 ^ 4"
    using assms by (simp_all add: four_digits_def nat_less_iff)
  have m: "nat (get_utc_month t + 1) < 10 ^ 2" "nat (get_utc_date t) < 10 ^ 2" for t
    using month_bounds [of t] mday_bounds [of t] by (simp_all add: nat_less_iff)
  have y0: "0 \<le> get_utc_full_year a" "0 \<le> get_utc_full_year b" using assms by (simp_all add: four_digits_def)
  have lt: "iso_date a < iso_date b \<longleftrightarrow>
      nat (get_utc_full_year a) < nat (get_utc_full_year b)
      \<or> nat (get_utc_full_year a) = nat (get_utc_full_year b) \<and>
        (nat (get_utc_month a + 1) < nat (get_utc_month b + 1)
         \<or> nat (get_utc_month a + 1) = nat (get_utc_month b + 1) \<and> nat (get_utc_date a) < nat (get_utc_date b))"
    unfolding la(1) lb(1)
    using padded_less [OF y] padded_eq [OF y] padded_less [OF m(1) m(1)] padded_eq [OF m(1) m(1)]
      padded_less [OF m(2) m(2)]
    by (simp add: append_less_iff la lb)
  show ?thesis
    unfolding lt day_order using y0 month_bounds [of a] month_bounds [of b] mday_bounds [of a] mday_bounds [of b]
      nat_order [of "get_utc_full_year a" "get_utc_full_year b"]
      nat_order [of "get_utc_month a + 1" "get_utc_month b + 1"] nat_order [of "get_utc_date a" "get_utc_date b"]
    by (simp add: add1_zle_eq)
qed

lemma iso_date_le:
  assumes "four_digits a" "four_digits b"
  shows "iso_date a \<le> iso_date b \<longleftrightarrow> day a \<le> day b"
  using iso_date_less [OF assms(2,1)] by (simp add: not_less [symmetric])

subsection \<open>Back to a date\<close>

lemma day_to_date_iso:
  assumes "four_digits t"
  shows "day_to_date (iso_date t) = day t * ms_per_day"
proof -
  note l = iso_date_four [OF assms]
  have "0 \<le> get_utc_full_year t" using assms by (simp add: four_digits_def)
  then have "day_to_date (iso_date t) = make_day (get_utc_full_year t) (get_utc_month t) (get_utc_date t) * ms_per_day"
    using month_bounds [of t] mday_bounds [of t]
    by (simp add: day_to_date_def l padded_digits)
  then show ?thesis
    by (simp add: get_utc_full_year_def get_utc_month_def get_utc_date_def make_day_fields)
qed

lemma previous_day_iso:
  assumes "four_digits t"
  shows "previous_day (iso_date t) = iso_date ((day t - 1) * ms_per_day)"
proof -
  have "set_utc_date d (get_utc_date d - 1) = d - ms_per_day" for d
    using set_utc_date_shift [of d "-1"] by simp
  from this [of "day t * ms_per_day"] show ?thesis
    by (simp add: previous_day_def day_to_date_iso [OF assms] Let_def left_diff_distrib)
qed

lemma iso_date_parses:
  assumes "100 \<le> get_utc_full_year t" "get_utc_full_year t \<le> 9999"
  shows "parse_iso_date (iso_date t) = Inr (iso_date t)"
proof -
  have f: "four_digits t" using assms by (simp add: four_digits_def)
  note l = iso_date_four [OF f]
  have "match_date (iso_date t)
      = Some (nat (get_utc_full_year t), nat (get_utc_month t + 1), nat (get_utc_date t))"
    by (simp add: match_date_def l padded_digits nth_append)
  moreover have "date_utc (get_utc_full_year t) (get_utc_month t) (get_utc_date t) = day t * ms_per_day"
    using date_utc_fields [of t 0] assms by simp
  ultimately show ?thesis
    using assms month_bounds [of t] mday_bounds [of t]
    by (simp add: parse_iso_date_def get_utc_full_year_def get_utc_month_def get_utc_date_def)
qed

end
