(* ===== verification/ScheduleVersions.thy ===== *)
theory ScheduleVersions
  imports PriceBounds Schedules IsoDays
begin

text \<open>
  The versions of the schedule of a contract: \<open>apps/api/src/pricing/schedules.service.ts\<close> and the
  translation of its rows to the input of the engine, \<open>pricing-snapshot.ts\<close>. A version is drafted,
  activated, then closed by the next one. The rows of a contract are kept in the order of their version
  numbers, the lines of a version as \<open>toEngineSchedule\<close> sorts and translates them. What the database holds
  beside them, the rule catalogue and the index series, is given.
\<close>

subsection \<open>Rows\<close>

datatype schedule_status = SV_DRAFT | SV_ACTIVE | SV_SUPERSEDED

record schedule_version =
  sv_id :: string
  sv_versionNumber :: int
  sv_status :: schedule_status
  sv_validFrom :: jsdate
  sv_validTo :: "jsdate option"
  sv_commitmentMonths :: "int option"
  sv_lines :: "pricing_line list"
  sv_activatedAt :: "jsdate option"
  sv_supersededAt :: "jsdate option"

definition engaged :: "schedule_version \<Rightarrow> bool" where
  "engaged s \<longleftrightarrow> sv_status s = SV_ACTIVE \<or> sv_status s = SV_SUPERSEDED"

definition to_engine_schedule :: "schedule_version \<Rightarrow> pricing_schedule" where
  "to_engine_schedule s =
     \<lparr>sd_id = sv_id s, sd_validFrom = iso_date (sv_validFrom s),
      sd_validTo = map_option iso_date (sv_validTo s), sd_currency = ''EUR'', sd_lines = sv_lines s\<rparr>"

definition engine_schedules :: "schedule_version list \<Rightarrow> pricing_schedule list" where
  "engine_schedules rows = map to_engine_schedule (filter engaged rows)"

text \<open>The codes of the indexes a schedule refers to.\<close>

definition line_index_codes :: "pricing_line \<Rightarrow> string list" where
  "line_index_codes l =
     (case ln_revision l of None \<Rightarrow> [] | Some r \<Rightarrow> [rv_indexCode r])
     @ (case ln_formula l of None \<Rightarrow> [] | Some f \<Rightarrow> map (\<lambda>b. ib_indexCode (snd b)) (fo_indexVariables f))"

definition referenced_index_codes :: "pricing_schedule list \<Rightarrow> string list" where
  "referenced_index_codes ss = sort (remdups (concat (map (\<lambda>s. concat (map line_index_codes (sd_lines s))) ss)))"

record pricing_catalog =
  pc_indexes :: "string list \<Rightarrow> price_index list"
  pc_rules :: "pricing_rule list"
  pc_settings :: partial_settings

subsection \<open>Drafts\<close>

datatype schedule_failure =
    VersionNotFound
  | ScheduleNotDraft
  | EmptySchedule
  | NotComputable pricing_error
  | ScheduleOverlap int

record schedule_body =
  sb_validFrom :: string
  sb_validTo :: "string option"
  sb_commitment :: "int option"

datatype draft_lines = GivenLines "pricing_line list" | CopyFromVersion int

text \<open>The body the schema lets through: two days of the calendar, in order.\<close>

definition iso_day_text :: "string \<Rightarrow> bool" where
  "iso_day_text s \<longleftrightarrow> four_digits (day_to_date s) \<and> iso_date (day_to_date s) = s"

definition body_accepted :: "schedule_body \<Rightarrow> bool" where
  "body_accepted b \<longleftrightarrow>
     iso_day_text (sb_validFrom b)
     \<and> (case sb_validTo b of None \<Rightarrow> True | Some t \<Rightarrow> iso_day_text t \<and> sb_validFrom b \<le> t)"

definition find_schedule :: "schedule_version list \<Rightarrow> int \<Rightarrow> schedule_version option" where
  "find_schedule rows version = List.find (\<lambda>s. sv_versionNumber s = version) rows"

definition draft_or_throw :: "schedule_version list \<Rightarrow> int \<Rightarrow> schedule_failure + schedule_version" where
  "draft_or_throw rows version =
     (case find_schedule rows version of
        None \<Rightarrow> Inl VersionNotFound
      | Some s \<Rightarrow> if sv_status s \<noteq> SV_DRAFT then Inl ScheduleNotDraft else Inr s)"

definition last_version :: "schedule_version list \<Rightarrow> int" where
  "last_version rows = foldl (\<lambda>n s. max n (sv_versionNumber s)) 0 rows"

definition create_draft ::
    "schedule_version list \<Rightarrow> string \<Rightarrow> schedule_body \<Rightarrow> draft_lines \<Rightarrow> schedule_failure + schedule_version list" where
  "create_draft rows i b src =
     ebind (case src of
         CopyFromVersion n \<Rightarrow> (case find_schedule rows n of None \<Rightarrow> Inl VersionNotFound | Some s \<Rightarrow> Inr (sv_lines s))
       | GivenLines ls \<Rightarrow> Inr ls) (\<lambda>ls.
       Inr (rows @ [\<lparr>sv_id = i, sv_versionNumber = last_version rows + 1, sv_status = SV_DRAFT,
              sv_validFrom = day_to_date (sb_validFrom b), sv_validTo = map_option day_to_date (sb_validTo b),
              sv_commitmentMonths = sb_commitment b, sv_lines = ls, sv_activatedAt = None,
              sv_supersededAt = None\<rparr>]))"

definition update_schedule ::
    "schedule_version list \<Rightarrow> string \<Rightarrow> (schedule_version \<Rightarrow> schedule_version) \<Rightarrow> schedule_version list" where
  "update_schedule rows i g = map (\<lambda>s. if sv_id s = i then g s else s) rows"

definition update_draft ::
    "schedule_version list \<Rightarrow> int \<Rightarrow> schedule_body \<Rightarrow> pricing_line list \<Rightarrow> schedule_failure + schedule_version list" where
  "update_draft rows version b ls =
     ebind (draft_or_throw rows version) (\<lambda>s.
       Inr (update_schedule rows (sv_id s) (\<lambda>x.
         x\<lparr>sv_validFrom := day_to_date (sb_validFrom b), sv_validTo := map_option day_to_date (sb_validTo b),
           sv_commitmentMonths := sb_commitment b, sv_lines := ls\<rparr>)))"

definition delete_draft :: "schedule_version list \<Rightarrow> int \<Rightarrow> schedule_failure + schedule_version list" where
  "delete_draft rows version =
     ebind (draft_or_throw rows version) (\<lambda>s. Inr (filter (\<lambda>x. sv_id x \<noteq> sv_id s) rows))"

subsection \<open>Activation\<close>

definition STRUCTURAL_ERRORS :: "pricing_error_code set" where
  "STRUCTURAL_ERRORS =
     {INVALID_DECIMAL, INVALID_DATE, INVALID_LINE, INVALID_SETTINGS, RULE_NOT_FOUND, NEGATIVE_PRICE,
      MISSING_CONTEXT, INVALID_REVISION_COEFFICIENTS, DISCOUNT_TARGET_MISMATCH, DISCOUNT_EXCEEDS_BASE,
      FORMULA_SYNTAX, FORMULA_UNKNOWN_VARIABLE, FORMULA_UNKNOWN_FUNCTION, FORMULA_ARITY, FORMULA_LIMIT,
      FORMULA_EVALUATION, DIVISION_BY_ZERO}"

definition provided :: "pricing_line \<Rightarrow> bool" where
  "provided l \<longleftrightarrow> (case ln_quantity l of Some (PROVIDER a) \<Rightarrow> True | _ \<Rightarrow> False)"

definition activation_input :: "pricing_catalog \<Rightarrow> schedule_version \<Rightarrow> pricing_input" where
  "activation_input cat draft =
     (let s = to_engine_schedule draft in
      \<lparr>in_schedules = [s], in_indexes = pc_indexes cat (referenced_index_codes [s]), in_overrides = [],
       in_quantities = map (\<lambda>l. \<lparr>rq_lineId = ln_id l, rq_quantity = ''1'', rq_source = ''activation-check'',
                              rq_observedAt = None\<rparr>) (filter provided (sd_lines s)),
       in_ruleCatalog = Some (pc_rules cat), in_settings = Some (pc_settings cat),
       in_commitmentMonths = (if sv_commitmentMonths draft = Some 0 then None else sv_commitmentMonths draft)\<rparr>)"

definition assert_computable ::
    "'d decimal_ops \<Rightarrow> pricing_catalog \<Rightarrow> schedule_version \<Rightarrow> schedule_failure + unit" where
  "assert_computable dc cat draft =
     (if sv_lines draft = [] then Inl EmptySchedule
      else case price_at dc (activation_input cat draft) (iso_date (sv_validFrom draft)) of
             Inl e \<Rightarrow> if er_code e \<in> STRUCTURAL_ERRORS then Inl (NotComputable e) else Inr ()
           | Inr r \<Rightarrow> Inr ())"

definition FAR_DAY :: string where
  "FAR_DAY = ''9999-12-31''"

definition overlaps :: "schedule_version \<Rightarrow> string \<Rightarrow> string option \<Rightarrow> bool" where
  "overlaps e from to =
     (iso_date (sv_validFrom e) \<le> or_default to FAR_DAY
      \<and> from \<le> or_default (map_option iso_date (sv_validTo e)) FAR_DAY)"

text \<open>One turn of the loop on the engaged versions: untouched, refused, or closed the day before.\<close>

definition close_engaged ::
    "string \<Rightarrow> string option \<Rightarrow> jsdate \<Rightarrow> schedule_version \<Rightarrow> schedule_failure + schedule_version" where
  "close_engaged from to now e =
     (if \<not> engaged e \<or> \<not> overlaps e from to then Inr e
      else if from \<le> iso_date (sv_validFrom e) then Inl (ScheduleOverlap (sv_versionNumber e))
      else Inr (e\<lparr>sv_status := SV_SUPERSEDED, sv_validTo := Some (day_to_date (previous_day from)),
                  sv_supersededAt := Some now\<rparr>))"

definition activate ::
    "'d decimal_ops \<Rightarrow> pricing_catalog \<Rightarrow> schedule_version list \<Rightarrow> int \<Rightarrow> jsdate
     \<Rightarrow> schedule_failure + schedule_version list" where
  "activate dc cat rows version now =
     ebind (draft_or_throw rows version) (\<lambda>draft.
     ebind (assert_computable dc cat draft) (\<lambda>_.
     ebind (emap (close_engaged (iso_date (sv_validFrom draft)) (map_option iso_date (sv_validTo draft)) now) rows)
       (\<lambda>rows'. Inr (update_schedule rows' (sv_id draft)
          (\<lambda>s. s\<lparr>sv_status := SV_ACTIVE, sv_activatedAt := Some now\<rparr>)))))"

subsection \<open>The life of the versions\<close>

inductive version_step :: "'d decimal_ops \<Rightarrow> schedule_version list \<Rightarrow> schedule_version list \<Rightarrow> bool" for dc where
  create: "body_accepted b \<Longrightarrow> i \<notin> sv_id ` set rows \<Longrightarrow> create_draft rows i b src = Inr rows' \<Longrightarrow> version_step dc rows rows'"
| update: "body_accepted b \<Longrightarrow> update_draft rows version b ls = Inr rows' \<Longrightarrow> version_step dc rows rows'"
| delete: "delete_draft rows version = Inr rows' \<Longrightarrow> version_step dc rows rows'"
| activate: "activate dc cat rows version now = Inr rows' \<Longrightarrow> version_step dc rows rows'"

text \<open>The periods as numbers of days.\<close>

definition first_day :: "schedule_version \<Rightarrow> int" where
  "first_day s = day (sv_validFrom s)"

definition ends_by :: "schedule_version \<Rightarrow> int \<Rightarrow> bool" where
  "ends_by s d \<longleftrightarrow> (case sv_validTo s of None \<Rightarrow> False | Some t \<Rightarrow> day t < d)"

definition in_force :: "schedule_version \<Rightarrow> int \<Rightarrow> bool" where
  "in_force s d \<longleftrightarrow> first_day s \<le> d \<and> \<not> ends_by s d"

definition dates_ok :: "schedule_version \<Rightarrow> bool" where
  "dates_ok s \<longleftrightarrow> four_digits (sv_validFrom s)
     \<and> (case sv_validTo s of None \<Rightarrow> True | Some t \<Rightarrow> four_digits t \<and> day (sv_validFrom s) \<le> day t)"

definition read_by_engine :: "schedule_version \<Rightarrow> bool" where
  "read_by_engine s \<longleftrightarrow> is_ok (check_schedule (to_engine_schedule s))"

definition versions_ok :: "schedule_version list \<Rightarrow> bool" where
  "versions_ok rows \<longleftrightarrow>
     distinct (map sv_id rows)
     \<and> (\<forall>s \<in> set rows. dates_ok s \<and> (engaged s \<longrightarrow> read_by_engine s))
     \<and> (\<forall>s \<in> set rows. \<forall>t \<in> set rows. \<forall>d. engaged s \<and> engaged t \<and> in_force s d \<and> in_force t d \<longrightarrow> s = t)"

subsection \<open>Days and texts\<close>

lemma iso_day_parsed:
  assumes "parse_iso_date s = Inr x"
  shows "x = s" "four_digits (day_to_date s)" "iso_date (day_to_date s) = s" "100 \<le> get_utc_full_year (day_to_date s)"
proof -
  let ?y = "digits_val (take 4 s)" and ?m = "digits_val (take 2 (drop 5 s))" and ?d = "digits_val (drop 8 s)"
  have shape: "length s = 10" "list_all is_digit (take 4 s)" "s ! 4 = CHR ''-''"
      "list_all is_digit (take 2 (drop 5 s))" "s ! 7 = CHR ''-''" "list_all is_digit (drop 8 s)"
    and "x = s"
    and f: "get_utc_full_year (date_utc (int ?y) (int ?m - 1) (int ?d)) = int ?y"
      "get_utc_month (date_utc (int ?y) (int ?m - 1) (int ?d)) = int ?m - 1"
      "get_utc_date (date_utc (int ?y) (int ?m - 1) (int ?d)) = int ?d"
    using assms by (auto simp: parse_iso_date_def match_date_def Let_def split: option.splits if_splits)
  then show "x = s" by simp
  have big: "100 \<le> ?y"
  proof (rule ccontr)
    assume "\<not> 100 \<le> ?y"
    then have u: "date_utc (int ?y) (int ?m - 1) (int ?d) = make_day (1900 + int ?y) (int ?m - 1) (int ?d) * ms_per_day"
      by (simp add: date_utc_def)
    have mo: "0 \<le> int ?m - 1" "int ?m - 1 \<le> 11" using month_bounds [of "date_utc (int ?y) (int ?m - 1) (int ?d)"] f(2) by simp_all
    have "1 \<le> int ?d" "int ?d \<le> 31" using mday_bounds [of "date_utc (int ?y) (int ?m - 1) (int ?d)"] f(3) by simp_all
    then have "day_from_year (1900 + int ?y) \<le> make_day (1900 + int ?y) (int ?m - 1) (int ?d)"
      using days_before_month_bounds [OF mo, of "leap_year (1900 + int ?y)"] by (simp add: make_day_month_range [OF mo])
    moreover have "make_day (1900 + int ?y) (int ?m - 1) (int ?d) < day_from_year (int ?y + 1)"
      using year_from_day_upper [of "make_day (1900 + int ?y) (int ?m - 1) (int ?d)"] f(1)
      by (simp add: u get_utc_full_year_def)
    moreover have "day_from_year (int ?y + 1) \<le> day_from_year (1900 + int ?y)"
      using day_from_year_strict [of "int ?y + 1" "1900 + int ?y"] by simp
    ultimately show False by linarith
  qed
  have date: "date_utc (int ?y) (int ?m - 1) (int ?d) = day_to_date s"
    using big by (simp add: date_utc_def day_to_date_def)
  have "?y < 10 ^ 4" using digits_val_bound [OF shape(2)] shape(1) by simp
  then show four: "four_digits (day_to_date s)" using f(1) by (simp add: four_digits_def date)
  show "100 \<le> get_utc_full_year (day_to_date s)" using f(1) big by (simp add: date)
  note l = iso_date_four [OF four]
  have "padded 4 (get_utc_full_year (day_to_date s)) = take 4 s"
    "padded 2 (get_utc_month (day_to_date s) + 1) = take 2 (drop 5 s)" "padded 2 (get_utc_date (day_to_date s)) = drop 8 s"
    using shape l f by (simp_all add: digits_eq_iff padded_digits date)
  moreover have "s = take 4 s @ s ! 4 # take 2 (drop 5 s) @ s ! 7 # drop 8 s"
    using shape(1) by (auto simp: numeral_eq_Suc length_Suc_conv)
  ultimately show "iso_date (day_to_date s) = s" using shape(3,5) by (simp add: l)
qed

lemma year_mono: "day a \<le> day b \<Longrightarrow> get_utc_full_year a \<le> get_utc_full_year b"
  using day_order [of b a] by linarith

lemma covers_iff:
  assumes "dates_ok s" "four_digits t"
  shows "covers (to_engine_schedule s) (iso_date t) \<longleftrightarrow> in_force s (day t)"
  using assms
  by (auto simp: covers_def to_engine_schedule_def in_force_def first_day_def ends_by_def dates_ok_def iso_date_le
      not_less split: option.splits)

subsection \<open>The version of a day\<close>

lemma distinct_singleton: "distinct xs \<Longrightarrow> (\<And>t. t \<in> set xs \<Longrightarrow> t = s) \<Longrightarrow> s \<in> set xs \<Longrightarrow> xs = [s]"
proof (cases xs)
  case (Cons a ys)
  assume "distinct xs" "\<And>t. t \<in> set xs \<Longrightarrow> t = s"
  with Cons have "a = s" "set ys \<subseteq> {s}" "s \<notin> set ys" by auto
  with Cons show ?thesis by (cases ys) auto
qed simp

lemma select_on:
  assumes ok: "versions_ok rows" and d: "parse_iso_date d = Inr x"
  shows "s \<in> set rows \<Longrightarrow> engaged s \<Longrightarrow> in_force s (day (day_to_date d)) \<Longrightarrow>
      select_schedule (engine_schedules rows) d = Inr (to_engine_schedule s)"
    and "(\<And>s. s \<in> set rows \<Longrightarrow> engaged s \<Longrightarrow> \<not> in_force s (day (day_to_date d))) \<Longrightarrow>
      select_schedule (engine_schedules rows) d = Inl (pricing_error NO_SCHEDULE)"
proof -
  note p = iso_day_parsed [OF d]
  let ?n = "day (day_to_date d)"
  have cov: "covers (to_engine_schedule s) d \<longleftrightarrow> in_force s ?n" if "s \<in> set rows" for s
    using covers_iff [OF _ p(2), of s] ok that by (simp add: versions_ok_def p(3))
  then have f: "filter (\<lambda>s. covers s d) (engine_schedules rows)
      = map to_engine_schedule (filter (\<lambda>s. engaged s \<and> in_force s ?n) rows)"
    by (simp add: engine_schedules_def filter_map o_def conj_commute cong: filter_cong)
  have "\<forall>s \<in> set (engine_schedules rows). is_ok (check_schedule s)"
    using ok by (auto simp: versions_ok_def engine_schedules_def read_by_engine_def)
  then obtain us where us: "emap check_schedule (engine_schedules rows) = Inr us"
    using emap_Inl [of check_schedule "engine_schedules rows"]
    by (cases "emap check_schedule (engine_schedules rows)") (auto simp: is_ok_iff)
  show "select_schedule (engine_schedules rows) d = Inl (pricing_error NO_SCHEDULE)"
    if "\<And>s. s \<in> set rows \<Longrightarrow> engaged s \<Longrightarrow> \<not> in_force s ?n"
    using that by (simp add: select_schedule_def d us f filter_empty_conv)
  show "select_schedule (engine_schedules rows) d = Inr (to_engine_schedule s)"
    if "s \<in> set rows" "engaged s" "in_force s ?n"
  proof -
    have "distinct (filter (\<lambda>s. engaged s \<and> in_force s ?n) rows)"
      using ok by (simp add: versions_ok_def distinct_map)
    moreover have "t = s" if "t \<in> set (filter (\<lambda>s. engaged s \<and> in_force s ?n) rows)" for t
      using ok that \<open>s \<in> set rows\<close> \<open>engaged s\<close> \<open>in_force s ?n\<close> unfolding versions_ok_def by auto
    moreover have "s \<in> set (filter (\<lambda>s. engaged s \<and> in_force s ?n) rows)" using that by simp
    ultimately have "filter (\<lambda>s. engaged s \<and> in_force s ?n) rows = [s]" by (rule distinct_singleton)
    then show ?thesis by (simp add: select_schedule_def d us f)
  qed
qed

subsection \<open>What an activation does\<close>

lemma draft_or_throw_Inr:
  "draft_or_throw rows version = Inr s \<Longrightarrow> s \<in> set rows \<and> sv_versionNumber s = version \<and> sv_status s = SV_DRAFT"
  by (auto simp: draft_or_throw_def find_schedule_def find_Some_iff split: option.splits if_splits)

lemma draft_not_engaged: "sv_status s = SV_DRAFT \<Longrightarrow> \<not> engaged s"
  by (simp add: engaged_def)

lemma same_row: "versions_ok rows \<Longrightarrow> s \<in> set rows \<Longrightarrow> t \<in> set rows \<Longrightarrow> sv_id s = sv_id t \<longleftrightarrow> s = t"
  by (auto simp: versions_ok_def distinct_map dest: inj_onD)

text \<open>The row of a version after the activation of \<open>draft\<close>.\<close>

definition closed_version :: "schedule_version \<Rightarrow> jsdate \<Rightarrow> schedule_version \<Rightarrow> schedule_version" where
  "closed_version draft now e = e\<lparr>sv_status := SV_SUPERSEDED,
     sv_validTo := Some (day_to_date (previous_day (iso_date (sv_validFrom draft)))), sv_supersededAt := Some now\<rparr>"

definition overlapped :: "schedule_version \<Rightarrow> schedule_version \<Rightarrow> bool" where
  "overlapped draft e \<longleftrightarrow>
     engaged e \<and> overlaps e (iso_date (sv_validFrom draft)) (map_option iso_date (sv_validTo draft))"

definition after_activation :: "schedule_version \<Rightarrow> jsdate \<Rightarrow> schedule_version \<Rightarrow> schedule_version" where
  "after_activation draft now e =
     (if e = draft then e\<lparr>sv_status := SV_ACTIVE, sv_activatedAt := Some now\<rparr>
      else if overlapped draft e then closed_version draft now e else e)"

lemma close_engaged_Inr:
  "close_engaged (iso_date (sv_validFrom draft)) (map_option iso_date (sv_validTo draft)) now e = Inr z \<longleftrightarrow>
     (overlapped draft e \<longrightarrow> iso_date (sv_validFrom e) < iso_date (sv_validFrom draft))
     \<and> z = (if overlapped draft e then closed_version draft now e else e)"
  by (auto simp: close_engaged_def overlapped_def closed_version_def not_le)

lemma activate_Inr:
  assumes ok: "versions_ok rows" and a: "activate dc cat rows version now = Inr rows'"
  obtains draft where "draft_or_throw rows version = Inr draft" "assert_computable dc cat draft = Inr ()"
    "rows' = map (after_activation draft now) rows"
    "\<forall>e \<in> set rows. overlapped draft e \<longrightarrow> first_day e < first_day draft"
proof -
  obtain draft zs where d: "draft_or_throw rows version = Inr draft" "assert_computable dc cat draft = Inr ()"
    and zs: "emap (close_engaged (iso_date (sv_validFrom draft)) (map_option iso_date (sv_validTo draft)) now) rows = Inr zs"
    and rows': "rows' = update_schedule zs (sv_id draft) (\<lambda>s. s\<lparr>sv_status := SV_ACTIVE, sv_activatedAt := Some now\<rparr>)"
    using a by (auto simp: activate_def ebind_Inr_iff)
  note dr = draft_or_throw_Inr [OF d(1)]
  have z: "list_all2 (\<lambda>e z. (overlapped draft e \<longrightarrow> iso_date (sv_validFrom e) < iso_date (sv_validFrom draft))
      \<and> z = (if overlapped draft e then closed_version draft now e else e)) rows zs"
    using zs by (simp add: emap_Inr_iff close_engaged_Inr)
  then have "zs = map (\<lambda>e. if overlapped draft e then closed_version draft now e else e) rows"
    by (induction rule: list_all2_induct) auto
  then have "rows' = map (after_activation draft now) rows"
    using dr draft_not_engaged [of draft] same_row [OF ok]
    by (auto simp: rows' update_schedule_def after_activation_def closed_version_def overlapped_def)
  moreover have "first_day e < first_day draft" if "e \<in> set rows" "overlapped draft e" for e
  proof -
    have "iso_date (sv_validFrom e) < iso_date (sv_validFrom draft)"
      using z that by (induction rule: list_all2_induct) auto
    then show ?thesis
      using ok that(1) dr iso_date_less by (auto simp: versions_ok_def dates_ok_def first_day_def)
  qed
  ultimately show thesis using that d by blast
qed

lemma resolve_settings_error: "resolve_settings dc p = Inl e \<Longrightarrow> er_code e = INVALID_SETTINGS"
  by (auto simp: resolve_settings_def Let_def pricing_error_def split: if_splits sum.splits option.splits)

lemma iso_date_error: "parse_iso_date d = Inl e \<Longrightarrow> er_code e = INVALID_DATE"
  by (auto simp: parse_iso_date_def pricing_error_def Let_def split: option.splits if_splits)

lemma check_schedule_error: "check_schedule s = Inl e \<Longrightarrow> er_code e = INVALID_DATE"
  by (auto simp: check_schedule_def ebind_Inl_iff pricing_error_def dest: iso_date_error
      split: option.splits if_splits)

lemma computable_read:
  assumes "assert_computable dc cat draft = Inr ()"
  shows "read_by_engine draft"
proof (rule ccontr)
  assume "\<not> read_by_engine draft"
  then obtain e where e: "check_schedule (to_engine_schedule draft) = Inl e"
    by (auto simp: read_by_engine_def is_ok_iff) (metis sum.exhaust old.unit.exhaust)
  have "\<exists>f. price_at dc (activation_input cat draft) (iso_date (sv_validFrom draft)) = Inl f
      \<and> er_code f \<in> {INVALID_DATE, INVALID_SETTINGS}"
  proof (cases "parse_iso_date (iso_date (sv_validFrom draft))")
    case (Inl f)
    then show ?thesis using iso_date_error by (auto simp: price_at_def)
  next
    case (Inr d)
    then have "select_schedule (in_schedules (activation_input cat draft)) (iso_date (sv_validFrom draft)) = Inl e"
      using e by (simp add: select_schedule_def activation_input_def Let_def)
    then show ?thesis
      using Inr check_schedule_error [OF e] resolve_settings_error
      by (cases "resolve_settings dc (in_settings (activation_input cat draft))") (auto simp: price_at_def)
  qed
  then show False
    using assms by (auto simp: assert_computable_def STRUCTURAL_ERRORS_def split: if_splits)
qed

subsection \<open>The invariant\<close>

lemma read_by_engine_year: "read_by_engine s \<Longrightarrow> four_digits (sv_validFrom s) \<Longrightarrow> 100 \<le> get_utc_full_year (sv_validFrom s)"
proof -
  assume "read_by_engine s" and f: "four_digits (sv_validFrom s)"
  then obtain x where "parse_iso_date (iso_date (sv_validFrom s)) = Inr x"
    by (auto simp: read_by_engine_def check_schedule_def to_engine_schedule_def is_ok_iff ebind_Inr_iff)
  from iso_day_parsed(4) [OF this] show "100 \<le> get_utc_full_year (sv_validFrom s)"
    by (simp add: day_to_date_iso [OF f] get_utc_full_year_def)
qed

lemma day_before:
  assumes e: "dates_ok e" "read_by_engine e" and d: "dates_ok draft" and less: "first_day e < first_day draft"
  defines "p \<equiv> day_to_date (previous_day (iso_date (sv_validFrom draft)))"
  shows "day p = first_day draft - 1" "100 \<le> get_utc_full_year p" "get_utc_full_year p \<le> 9999"
proof -
  let ?q = "(first_day draft - 1) * ms_per_day"
  have f: "four_digits (sv_validFrom draft)" "four_digits (sv_validFrom e)" using d e(1) by (simp_all add: dates_ok_def)
  have "day (sv_validFrom e) \<le> day ?q" "day ?q \<le> day (sv_validFrom draft)"
    using less by (simp_all add: first_day_def)
  then have y: "100 \<le> get_utc_full_year ?q" "get_utc_full_year ?q \<le> 9999"
    using year_mono [of "sv_validFrom e" ?q] year_mono [of ?q "sv_validFrom draft"] read_by_engine_year [OF e(2) f(2)] f(1)
    by (simp_all add: four_digits_def)
  then have "four_digits ?q" by (simp add: four_digits_def)
  then have "p = ?q"
    using previous_day_iso [OF f(1)] day_to_date_iso [of ?q] by (simp add: p_def first_day_def)
  with y show "day p = first_day draft - 1" "100 \<le> get_utc_full_year p" "get_utc_full_year p \<le> 9999" by simp_all
qed

lemma closed_ok:
  assumes e: "dates_ok e" "read_by_engine e" and d: "dates_ok draft" and less: "first_day e < first_day draft"
  shows "dates_ok (closed_version draft now e)" "read_by_engine (closed_version draft now e)"
    "in_force (closed_version draft now e) n \<longleftrightarrow> first_day e \<le> n \<and> n < first_day draft"
proof -
  let ?p = "day_to_date (previous_day (iso_date (sv_validFrom draft)))"
  note p = day_before [OF assms]
  have fp: "four_digits ?p" and fe: "four_digits (sv_validFrom e)" using p e(1) by (simp_all add: four_digits_def dates_ok_def)
  show "dates_ok (closed_version draft now e)"
    using p fp fe less by (simp add: dates_ok_def closed_version_def first_day_def)
  have "is_ok (parse_iso_date (iso_date (sv_validFrom e)))"
    using e(2) by (auto simp: read_by_engine_def check_schedule_def to_engine_schedule_def is_ok_iff ebind_Inr_iff)
  moreover have "\<not> iso_date ?p < iso_date (sv_validFrom e)"
    using p less fp fe by (simp add: iso_date_less first_day_def)
  ultimately show "read_by_engine (closed_version draft now e)"
    using iso_date_parses [OF p(2,3)]
    by (auto simp: read_by_engine_def check_schedule_def to_engine_schedule_def closed_version_def is_ok_iff)
  show "in_force (closed_version draft now e) n \<longleftrightarrow> first_day e \<le> n \<and> n < first_day draft"
    using p(1) by (auto simp: in_force_def first_day_def ends_by_def closed_version_def)
qed

lemma far_day_parsed: "parse_iso_date FAR_DAY = Inr FAR_DAY"
  by code_simp

lemma far_day_fields:
  "get_utc_full_year (day_to_date FAR_DAY) = 9999" "get_utc_month (day_to_date FAR_DAY) = 11"
  "get_utc_date (day_to_date FAR_DAY) = 31"
  by code_simp+

lemma overlap_if_both:
  assumes "dates_ok e" "dates_ok draft" "engaged e" "in_force e n" "in_force draft n"
  shows "overlapped draft e"
proof -
  note far = iso_day_parsed(2,3) [OF far_day_parsed] and fields = far_day_fields
  have last: "day t \<le> day (day_to_date FAR_DAY)" if "four_digits t" for t
    using that month_bounds [of t] mday_bounds [of t] unfolding not_less [symmetric] day_order four_digits_def fields
    by linarith
  have f: "four_digits (sv_validFrom e)" "four_digits (sv_validFrom draft)" using assms(1,2) by (simp_all add: dates_ok_def)
  have le: "iso_date (sv_validFrom a) \<le> or_default (map_option iso_date (sv_validTo b)) FAR_DAY"
    if "dates_ok a" "dates_ok b" "in_force a n" "in_force b n" for a b
  proof (cases "sv_validTo b")
    case None
    have "iso_date (sv_validFrom a) \<le> iso_date (day_to_date FAR_DAY)"
      using that(1) last far(1) by (simp add: iso_date_le dates_ok_def)
    then show ?thesis by (simp add: None or_default_def far(2))
  next
    case (Some t)
    then show ?thesis
      using that by (auto simp: or_default_def iso_date_le dates_ok_def in_force_def first_day_def ends_by_def)
  qed
  show ?thesis
    using le [of e draft] le [of draft e] assms by (simp add: overlapped_def overlaps_def)
qed

lemma in_force_after: "in_force (s\<lparr>sv_status := x, sv_activatedAt := y\<rparr>) n = in_force s n"
  by (simp add: in_force_def first_day_def ends_by_def)

lemma dates_ok_after: "dates_ok (s\<lparr>sv_status := x, sv_activatedAt := y\<rparr>) = dates_ok s"
  by (cases "sv_validTo s") (simp_all add: dates_ok_def)

lemma versions_ok_map:
  assumes ok: "versions_ok rows"
    and g: "\<And>e. e \<in> set rows \<Longrightarrow> sv_id (g e) = sv_id e \<and> dates_ok (g e) \<and> (engaged (g e) \<longrightarrow> read_by_engine (g e))"
    and one: "\<And>e f n. e \<in> set rows \<Longrightarrow> f \<in> set rows \<Longrightarrow> engaged (g e) \<Longrightarrow> engaged (g f) \<Longrightarrow>
      in_force (g e) n \<Longrightarrow> in_force (g f) n \<Longrightarrow> e = f"
  shows "versions_ok (map g rows)"
proof -
  have "map sv_id (map g rows) = map sv_id rows" using g by simp
  then have "distinct (map sv_id (map g rows))" using ok by (simp only: versions_ok_def)
  then show ?thesis
    using g one unfolding versions_ok_def set_map by fastforce
qed

text \<open>A version after an activation: dates, identifier, and the days it is in force.\<close>

lemma after_activation_ok:
  assumes ok: "versions_ok rows" and d: "draft_or_throw rows version = Inr draft" "assert_computable dc cat draft = Inr ()"
    and less: "\<forall>e \<in> set rows. overlapped draft e \<longrightarrow> first_day e < first_day draft"
    and e: "e \<in> set rows"
  shows "sv_id (after_activation draft now e) = sv_id e" "dates_ok (after_activation draft now e)"
    "engaged (after_activation draft now e) \<longleftrightarrow> engaged e \<or> e = draft"
    "engaged (after_activation draft now e) \<Longrightarrow> read_by_engine (after_activation draft now e)"
    "in_force (after_activation draft now e) n \<longleftrightarrow>
       in_force e n \<and> (e \<noteq> draft \<and> overlapped draft e \<longrightarrow> n < first_day draft)"
proof -
  have rows: "dates_ok x" "engaged x \<Longrightarrow> read_by_engine x" if "x \<in> set rows" for x
    using ok that by (simp_all add: versions_ok_def)
  note dr = draft_or_throw_Inr [OF d(1)]
  have "dates_ok draft" using rows dr by simp
  have c: "dates_ok (closed_version draft now e)" "read_by_engine (closed_version draft now e)"
      "in_force (closed_version draft now e) n \<longleftrightarrow> first_day e \<le> n \<and> n < first_day draft"
      if "overlapped draft e" for n
    using closed_ok [OF rows(1) [OF e] rows(2) [OF e] \<open>dates_ok draft\<close>] less e that
    by (auto simp: overlapped_def)
  show "sv_id (after_activation draft now e) = sv_id e" by (simp add: after_activation_def closed_version_def)
  show "engaged (after_activation draft now e) \<longleftrightarrow> engaged e \<or> e = draft"
    by (simp add: after_activation_def closed_version_def engaged_def overlapped_def split: if_split)
  show "dates_ok (after_activation draft now e)"
    using rows(1) [OF e] \<open>dates_ok draft\<close> c(1) dates_ok_after by (simp add: after_activation_def)
  show "read_by_engine (after_activation draft now e)" if "engaged (after_activation draft now e)"
  proof (cases "e = draft")
    case True
    have "to_engine_schedule (draft\<lparr>sv_status := x, sv_activatedAt := y\<rparr>) = to_engine_schedule draft" for x y
      by (simp add: to_engine_schedule_def)
    with True computable_read [OF d(2)] show ?thesis by (simp add: after_activation_def read_by_engine_def)
  next
    case False
    with that have "engaged e"
      by (auto simp: after_activation_def closed_version_def engaged_def overlapped_def split: if_splits)
    with False rows(2) [OF e] c(2) show ?thesis by (simp add: after_activation_def)
  qed
  show "in_force (after_activation draft now e) n \<longleftrightarrow>
       in_force e n \<and> (e \<noteq> draft \<and> overlapped draft e \<longrightarrow> n < first_day draft)"
  proof (cases "e \<noteq> draft \<and> overlapped draft e")
    case True
    have "\<not> ends_by e n" if "first_day e \<le> n" "n < first_day draft"
    proof (cases "sv_validTo e")
      case (Some t)
      have "four_digits t" "four_digits (sv_validFrom draft)"
        using rows(1) [OF e] \<open>dates_ok draft\<close> Some by (simp_all add: dates_ok_def)
      moreover have "iso_date (sv_validFrom draft) \<le> iso_date t"
        using True Some by (simp add: overlapped_def overlaps_def or_default_def)
      ultimately show ?thesis using Some that(2) by (simp add: iso_date_le first_day_def ends_by_def)
    qed (simp add: ends_by_def)
    then show ?thesis using True c(3) by (auto simp: after_activation_def in_force_def)
  next
    case False
    then show ?thesis by (auto simp: after_activation_def in_force_after)
  qed
qed

lemma activate_ok:
  assumes ok: "versions_ok rows" and a: "activate dc cat rows version now = Inr rows'"
  shows "versions_ok rows'"
proof (rule activate_Inr [OF ok a])
  fix draft
  assume d: "draft_or_throw rows version = Inr draft" "assert_computable dc cat draft = Inr ()"
    and rows': "rows' = map (after_activation draft now) rows"
    and less: "\<forall>e \<in> set rows. overlapped draft e \<longrightarrow> first_day e < first_day draft"
  note aft = after_activation_ok [OF ok d less]
  have dr: "draft \<in> set rows" "\<not> engaged draft" using draft_or_throw_Inr [OF d(1)] draft_not_engaged by blast+
  have clash: False if "e \<in> set rows" "e \<noteq> draft" "engaged e" "in_force (after_activation draft now e) n"
      "in_force draft n" for e n
  proof -
    have "overlapped draft e"
      using overlap_if_both [of e draft n] that ok dr(1) aft(5) [OF that(1), of now n] by (simp add: versions_ok_def)
    then show False using aft(5) [OF that(1), of now n] that by (simp add: in_force_def)
  qed
  have "e = f" if "e \<in> set rows" "f \<in> set rows" "engaged (after_activation draft now e)"
      "engaged (after_activation draft now f)" "in_force (after_activation draft now e) n"
      "in_force (after_activation draft now f) n" for e f n
  proof -
    have u: "x = y" if "x \<in> set rows" "y \<in> set rows" "engaged x" "engaged y" "in_force x n" "in_force y n" for x y
      using ok that unfolding versions_ok_def by blast
    show ?thesis
      using that clash [of e n] clash [of f n] u [of e f] aft(3,5) [of e now] aft(3,5) [of f now] by metis
  qed
  then show "versions_ok rows'"
    using aft(1,2,4) unfolding rows' by (intro versions_ok_map [OF ok]) blast+
qed

lemma body_dates:
  assumes "body_accepted b" "sv_validFrom s = day_to_date (sb_validFrom b)"
    "sv_validTo s = map_option day_to_date (sb_validTo b)"
  shows "dates_ok s"
proof (cases "sb_validTo b")
  case None
  then show ?thesis using assms by (simp add: body_accepted_def iso_day_text_def dates_ok_def)
next
  case (Some t)
  then show ?thesis
    using assms iso_date_le [of "day_to_date (sb_validFrom b)" "day_to_date t"]
    by (simp add: body_accepted_def iso_day_text_def dates_ok_def)
qed

lemma version_step_ok: "version_step dc rows rows' \<Longrightarrow> versions_ok rows \<Longrightarrow> versions_ok rows'"
proof (induction rule: version_step.induct)
  case (create b i rows src rows')
  then obtain s where "rows' = rows @ [s]" "sv_id s = i" "\<not> engaged s" "dates_ok s"
    using body_dates [OF create(1)] by (auto simp: create_draft_def ebind_Inr_iff engaged_def)
  with create show ?case by (auto simp: versions_ok_def)
next
  case (update b rows version ls rows')
  then obtain s where s: "draft_or_throw rows version = Inr s" by (auto simp: update_draft_def ebind_Inr_iff)
  note dr = draft_or_throw_Inr [OF s]
  let ?g = "\<lambda>x. x\<lparr>sv_validFrom := day_to_date (sb_validFrom b), sv_validTo := map_option day_to_date (sb_validTo b),
           sv_commitmentMonths := sb_commitment b, sv_lines := ls\<rparr>"
  have rows': "rows' = map (\<lambda>x. if x = s then ?g s else x) rows"
    using update(2) s dr same_row [OF update(3)] by (auto simp: update_draft_def update_schedule_def)
  have g: "\<not> engaged (?g s)" "dates_ok (?g s)" "sv_id (?g s) = sv_id s"
    using dr body_dates [OF update(1)] by (simp_all add: engaged_def)
  have old: "dates_ok e" "engaged e \<Longrightarrow> read_by_engine e" if "e \<in> set rows" for e
    using update(3) that by (simp_all add: versions_ok_def)
  have one: "e = f" if "e \<in> set rows" "f \<in> set rows" "engaged e" "engaged f" "in_force e n" "in_force f n" for e f n
    using update(3) that unfolding versions_ok_def by blast
  show ?case
    unfolding rows' using g(1,2) old one by (intro versions_ok_map [OF update(3)]) (auto split: if_splits)
next
  case (delete rows version rows')
  then obtain x :: schedule_version where rows': "rows' = filter (\<lambda>y. sv_id y \<noteq> sv_id x) rows"
    by (auto simp: delete_draft_def ebind_Inr_iff)
  have "distinct (map sv_id rows')" using delete(2) by (simp add: rows' versions_ok_def distinct_map_filter)
  moreover have "set rows' \<subseteq> set rows" by (simp add: rows')
  ultimately show ?case using delete(2) unfolding versions_ok_def by blast
next
  case (activate cat rows version now rows')
  then show ?case by (metis activate_ok)
qed

lemma versions_reached: "(version_step dc)\<^sup>*\<^sup>* [] rows \<Longrightarrow> versions_ok rows"
  by (induction rule: rtranclp_induct) (simp_all add: version_step_ok, simp add: versions_ok_def)

subsection \<open>Properties\<close>

text \<open>C10: The versions in force never overlap. Whatever drafts are written and activated, and however often,
  the engine finds at most one version of the schedule at any day of the calendar: the only error it
  can have in choosing one is that the contract has no price yet, or none any more, at that day.\<close>

theorem engaged_versions_never_overlap:
  assumes "(version_step dc)\<^sup>*\<^sup>* [] rows" "parse_iso_date d = Inr x"
    "select_schedule (engine_schedules rows) d = Inl e"
  shows "er_code e = NO_SCHEDULE"
  using select_on [OF versions_reached [OF assms(1)] assms(2)] assms(3)
  by (cases "\<exists>s \<in> set rows. engaged s \<and> in_force s (day (day_to_date d))") (auto simp: pricing_error_def)

text \<open>C29: An activation changes the prices from its first day on and never before. Before that day the
  version of every day is the one it was, but for its end; within the period of the new version, it
  is the new version; after it, only a version that was already planned there applies.\<close>

theorem activation_leaves_the_past:
  assumes "(version_step dc)\<^sup>*\<^sup>* [] rows" "activate dc cat rows version now = Inr rows'"
    "find_schedule rows version = Some draft" "parse_iso_date d = Inr x"
  shows "let old = select_schedule (engine_schedules rows) d; new = select_schedule (engine_schedules rows') d in
    if d < iso_date (sv_validFrom draft)
    then (case (old, new) of
            (Inr s, Inr t) \<Rightarrow> t = s\<lparr>sd_validTo := sd_validTo t\<rparr>
          | (Inl e, Inl f) \<Rightarrow> e = f
          | _ \<Rightarrow> False)
    else if covers (to_engine_schedule draft) d then new = Inr (to_engine_schedule draft)
    else new = Inl (pricing_error NO_SCHEDULE) \<or> new = old"
proof (rule activate_Inr [OF versions_reached [OF assms(1)] assms(2)])
  note ok = versions_reached [OF assms(1)] and d = assms(4)
  fix dr
  assume dr0: "draft_or_throw rows version = Inr dr" "assert_computable dc cat dr = Inr ()"
    and rows': "rows' = map (after_activation dr now) rows"
    and less: "\<forall>e \<in> set rows. overlapped dr e \<longrightarrow> first_day e < first_day dr"
  have dr: "draft = dr" "draft \<in> set rows" "\<not> engaged draft"
    using draft_or_throw_Inr [OF dr0(1)] dr0(1) assms(3) draft_not_engaged
    by (auto simp: draft_or_throw_def split: if_splits)
  let ?n = "day (day_to_date d)" and ?a = "after_activation draft now"
  note aft = after_activation_ok [OF ok dr0 less, folded dr(1)]
  have ok': "versions_ok rows'" by (rule activate_ok [OF ok assms(2)])
  have dates: "dates_ok draft" using ok dr(2) by (simp add: versions_ok_def)
  note p = iso_day_parsed [OF d]
  have early: "d < iso_date (sv_validFrom draft) \<longleftrightarrow> ?n < first_day draft"
    using iso_date_less [OF p(2), of "sv_validFrom draft"] dates by (simp add: p(3) dates_ok_def first_day_def)
  have cov: "covers (to_engine_schedule draft) d \<longleftrightarrow> in_force draft ?n"
    using covers_iff [OF dates p(2)] by (simp add: p(3))
  have eng: "to_engine_schedule (?a e) = (to_engine_schedule e)\<lparr>sd_validTo := sd_validTo (to_engine_schedule (?a e))\<rparr>" for e
    by (simp add: to_engine_schedule_def after_activation_def closed_version_def)
  have engd: "to_engine_schedule (?a draft) = to_engine_schedule draft"
    by (simp add: to_engine_schedule_def after_activation_def)
  have new: "select_schedule (engine_schedules rows') d = Inr (to_engine_schedule (?a e))"
    if "e \<in> set rows" "engaged (?a e)" "in_force (?a e) ?n" for e
    using select_on(1) [OF ok' d, of "?a e"] that by (simp add: rows' dr(1))
  have none: "select_schedule (engine_schedules rows') d = Inl (pricing_error NO_SCHEDULE)"
    if "\<And>e. e \<in> set rows \<Longrightarrow> engaged (?a e) \<Longrightarrow> \<not> in_force (?a e) ?n"
    using select_on(2) [OF ok' d] that by (auto simp: rows' dr(1))
  consider (before) "?n < first_day draft" | (during) "in_force draft ?n" | (past) "\<not> ?n < first_day draft" "\<not> in_force draft ?n"
    by blast
  then show ?thesis
  proof cases
    case before
    then have same: "engaged (?a e) \<and> in_force (?a e) ?n \<longleftrightarrow> engaged e \<and> in_force e ?n" if "e \<in> set rows" for e
      using aft(3,5) [OF that] by (auto simp: in_force_def)
    show ?thesis
    proof (cases "\<exists>e \<in> set rows. engaged e \<and> in_force e ?n")
      case True
      then obtain e where e: "e \<in> set rows" "engaged e" "in_force e ?n" by blast
      then have "select_schedule (engine_schedules rows') d = Inr (to_engine_schedule (?a e))"
        using new same by blast
      with before early select_on(1) [OF ok d e] eng [of e] show ?thesis by (simp add: Let_def)
    next
      case False
      then have "select_schedule (engine_schedules rows) d = Inl (pricing_error NO_SCHEDULE)"
          "select_schedule (engine_schedules rows') d = Inl (pricing_error NO_SCHEDULE)"
        using select_on(2) [OF ok d] none same by blast+
      with before early show ?thesis by (simp add: Let_def)
    qed
  next
    case during
    then have "select_schedule (engine_schedules rows') d = Inr (to_engine_schedule draft)"
      using new [OF dr(2)] aft(3,5) [OF dr(2)] engd by simp
    with during early cov show ?thesis by (simp add: Let_def in_force_def)
  next
    case past
    have "select_schedule (engine_schedules rows') d = Inl (pricing_error NO_SCHEDULE)
        \<or> select_schedule (engine_schedules rows') d = select_schedule (engine_schedules rows) d"
    proof (cases "\<exists>e \<in> set rows. engaged (?a e) \<and> in_force (?a e) ?n")
      case True
      then obtain e where e: "e \<in> set rows" "engaged (?a e)" "in_force (?a e) ?n" by blast
      then have "e \<noteq> draft" "engaged e" "in_force e ?n" "\<not> overlapped draft e"
        using aft(3,5) [OF e(1)] past by auto
      then have "?a e = e" by (simp add: after_activation_def)
      with new [OF e] select_on(1) [OF ok d e(1) \<open>engaged e\<close> \<open>in_force e ?n\<close>] show ?thesis by simp
    next
      case False
      with none show ?thesis by blast
    qed
    with past early cov show ?thesis by (auto simp: Let_def)
  qed
qed

subsection \<open>Example\<close>

text \<open>Postes at a price of 30, from January, then a new version from July.\<close>

definition plain_line :: pricing_line where
  "plain_line =
     \<lparr>ln_id = ''poste'', ln_code = ''poste'', ln_label = ''Postes'', ln_unit = ''poste'', ln_kind = UNIT,
      ln_mode = MANUAL, ln_vatRatePercent = ''20'', ln_quantity = Some (PROVIDER None),
      ln_recurrence = Some MONTHLY, ln_unitPrice = Some ''30'', ln_tiers = None, ln_rule = None,
      ln_formula = None, ln_revision = None, ln_hoursPerPack = None, ln_discount = None\<rparr>"

definition sample_catalog :: pricing_catalog where
  "sample_catalog = \<lparr>pc_indexes = (\<lambda>_. []), pc_rules = [],
     pc_settings = \<lparr>ps_rounding = None, ps_unitPriceScale = None, ps_overrideApprovalThresholdPercent = None,
       ps_indexLookup = None\<rparr>\<rparr>"

definition plain_version :: "string \<Rightarrow> int \<Rightarrow> schedule_status \<Rightarrow> string \<Rightarrow> jsdate option \<Rightarrow> schedule_version" where
  "plain_version i n st from since =
     \<lparr>sv_id = i, sv_versionNumber = n, sv_status = st, sv_validFrom = day_to_date from, sv_validTo = None,
      sv_commitmentMonths = None, sv_lines = [plain_line], sv_activatedAt = since, sv_supersededAt = None\<rparr>"

lemma catalog_reads:
  "resolve_settings rat_ops (Some (pc_settings sample_catalog)) = Inr DEFAULT_PRICING_SETTINGS"
  "parse_price rat_ops ''1'' = Inr 1"
  by code_simp+

lemma plain_computable:
  assumes "parse_iso_date from = Inr from"
  shows "assert_computable rat_ops sample_catalog (plain_version i n st from since) = Inr ()"
proof -
  let ?s = "plain_version i n st from since"
  let ?in = "activation_input sample_catalog ?s"
  have d: "iso_date (sv_validFrom ?s) = from" "sv_lines ?s = [plain_line]" "sv_validTo ?s = None"
    using iso_day_parsed(3) [OF assms] by (simp_all add: plain_version_def)
  have prov: "provided plain_line" by (simp add: provided_def plain_line_def)
  have input: "in_schedules ?in = [to_engine_schedule ?s]" "in_settings ?in = Some (pc_settings sample_catalog)"
      "in_overrides ?in = []" "in_quantities ?in = [\<lparr>rq_lineId = ''poste'', rq_quantity = ''1'',
         rq_source = ''activation-check'', rq_observedAt = None\<rparr>]"
    using prov by (simp_all add: activation_input_def Let_def to_engine_schedule_def d) (simp add: plain_line_def)
  have sched: "sd_lines (to_engine_schedule ?s) = [plain_line]" "sd_currency (to_engine_schedule ?s) = ''EUR''"
      "sd_validFrom (to_engine_schedule ?s) = from" "sd_validTo (to_engine_schedule ?s) = None"
    by (simp_all add: to_engine_schedule_def d)
  have "\<exists>p. price_regular_line rat_ops plain_line (context_of rat_ops ?in from DEFAULT_PRICING_SETTINGS) = Inr p"
    by (simp add: price_line_defs plain_line_def catalog_reads sample_reads context_of_def input
        overrides_of_def Let_def rat_ops_simps to_cents_def rat_round_def half_round_def round_to_scale_def quantity_of_def)
  then obtain p where p: "price_regular_line rat_ops plain_line (context_of rat_ops ?in from DEFAULT_PRICING_SETTINGS) = Inr p"
    by blast
  have kind: "ln_kind plain_line = UNIT" by (simp add: plain_line_def)
  have "is_ok (price_at rat_ops ?in from)"
    by (simp add: price_at_def assms catalog_reads input select_schedule_def check_schedule_def covers_def sched
        price_lines_def kind p with_line_of_def is_ok_def)
  then show ?thesis
    by (auto simp: assert_computable_def d is_ok_iff)
qed

definition first_version :: "schedule_version list" where
  "first_version = [plain_version ''a'' 1 SV_ACTIVE ''2026-01-01'' (Some 0)]"

definition second_drafted :: "schedule_version list" where
  "second_drafted = first_version @ [plain_version ''b'' 2 SV_DRAFT ''2026-07-01'' None]"

definition second_active :: "schedule_version list" where
  "second_active =
     [(plain_version ''a'' 1 SV_SUPERSEDED ''2026-01-01'' (Some 0))
        \<lparr>sv_validTo := Some (day_to_date ''2026-06-30''), sv_supersededAt := Some 9\<rparr>,
      plain_version ''b'' 2 SV_ACTIVE ''2026-07-01'' (Some 9)]"

lemma sample_days: "parse_iso_date ''2026-01-01'' = Inr ''2026-01-01''" "parse_iso_date ''2026-07-01'' = Inr ''2026-07-01''"
  "parse_iso_date ''2026-06-30'' = Inr ''2026-06-30''" "parse_iso_date ''2026-03-15'' = Inr ''2026-03-15''"
  "parse_iso_date ''2025-03-15'' = Inr ''2025-03-15''" "previous_day ''2026-07-01'' = ''2026-06-30''"
  by code_simp+

lemma first_activated:
  "activate rat_ops sample_catalog [plain_version ''a'' 1 SV_DRAFT ''2026-01-01'' None] 1 0 = Inr first_version"
proof -
  let ?v = "plain_version ''a'' 1 SV_DRAFT ''2026-01-01'' None"
  have "draft_or_throw [?v] 1 = Inr ?v" by (simp add: draft_or_throw_def find_schedule_def plain_version_def)
  moreover have "\<not> engaged ?v" by (simp add: engaged_def plain_version_def)
  ultimately show ?thesis
    by (simp add: activate_def plain_computable [OF sample_days(1)] close_engaged_def update_schedule_def)
      (simp add: first_version_def plain_version_def)
qed

lemma second_activated: "activate rat_ops sample_catalog second_drafted 2 9 = Inr second_active"
proof -
  let ?v = "plain_version ''a'' 1 SV_ACTIVE ''2026-01-01'' (Some 0)" and ?w = "plain_version ''b'' 2 SV_DRAFT ''2026-07-01'' None"
  have "draft_or_throw second_drafted 2 = Inr ?w"
    by (simp add: draft_or_throw_def find_schedule_def second_drafted_def first_version_def plain_version_def)
  moreover have "\<not> engaged ?w" "engaged ?v" by (simp_all add: engaged_def plain_version_def)
  moreover have dates: "iso_date (sv_validFrom ?v) = ''2026-01-01''" "iso_date (sv_validFrom ?w) = ''2026-07-01''"
    "sv_validTo ?v = None" "sv_validTo ?w = None"
    using iso_day_parsed(3) [OF sample_days(1)] iso_day_parsed(3) [OF sample_days(2)] by (simp_all add: plain_version_def)
  ultimately show ?thesis
    by (simp add: activate_def plain_computable [OF sample_days(2)] close_engaged_def overlaps_def or_default_def FAR_DAY_def
        update_schedule_def second_drafted_def first_version_def sample_days(6))
      (simp add: second_active_def plain_version_def)
qed

lemma second_reached: "(version_step rat_ops)\<^sup>*\<^sup>* [] second_drafted" "(version_step rat_ops)\<^sup>*\<^sup>* [] second_active"
proof -
  have body: "body_accepted \<lparr>sb_validFrom = b0, sb_validTo = None, sb_commitment = None\<rparr>" if "parse_iso_date b0 = Inr b0" for b0
    using iso_day_parsed [OF that] by (simp add: body_accepted_def iso_day_text_def)
  have "version_step rat_ops [] [plain_version ''a'' 1 SV_DRAFT ''2026-01-01'' None]"
    by (rule version_step.create [OF body [OF sample_days(1)], where i = "''a''" and src = "GivenLines [plain_line]"])
      (simp_all add: create_draft_def last_version_def plain_version_def)
  moreover have "version_step rat_ops [plain_version ''a'' 1 SV_DRAFT ''2026-01-01'' None] first_version"
    using first_activated by (rule version_step.activate)
  moreover have "version_step rat_ops first_version second_drafted"
    by (rule version_step.create [OF body [OF sample_days(2)], where i = "''b''" and src = "CopyFromVersion 1"])
      (simp_all add: create_draft_def last_version_def find_schedule_def second_drafted_def first_version_def plain_version_def)
  ultimately show "(version_step rat_ops)\<^sup>*\<^sup>* [] second_drafted" by (meson converse_rtranclp_into_rtranclp rtranclp.rtrancl_refl)
  then show "(version_step rat_ops)\<^sup>*\<^sup>* [] second_active"
    using version_step.activate [OF second_activated] by (rule rtranclp.rtrancl_into_rtrancl)
qed

theorem engaged_versions_never_overlap_witness:
  "\<exists>e. select_schedule (engine_schedules second_active) ''2025-03-15'' = Inl e \<and> er_code e = NO_SCHEDULE
     \<and> length (engine_schedules second_active) = 2"
proof -
  have "\<not> is_ok (select_schedule (engine_schedules second_active) ''2025-03-15'')" by code_simp
  then obtain e where e: "select_schedule (engine_schedules second_active) ''2025-03-15'' = Inl e"
    by (cases "select_schedule (engine_schedules second_active) ''2025-03-15''") (auto simp: is_ok_iff)
  with engaged_versions_never_overlap [OF second_reached(2) sample_days(5) e] show ?thesis
    by (simp add: engine_schedules_def second_active_def engaged_def plain_version_def)
qed

theorem activation_leaves_the_past_witness:
  "activate rat_ops sample_catalog second_drafted 2 9 = Inr second_active
     \<and> (case (select_schedule (engine_schedules second_drafted) ''2026-03-15'',
              select_schedule (engine_schedules second_active) ''2026-03-15'') of
          (Inr s, Inr t) \<Rightarrow> t = s\<lparr>sd_validTo := sd_validTo t\<rparr> | (Inl e, Inl f) \<Rightarrow> e = f | _ \<Rightarrow> False)"
proof -
  let ?w = "plain_version ''b'' 2 SV_DRAFT ''2026-07-01'' None"
  have "find_schedule second_drafted 2 = Some ?w"
    by (simp add: find_schedule_def second_drafted_def first_version_def plain_version_def)
  moreover have "''2026-03-15'' < iso_date (sv_validFrom ?w)"
    using iso_day_parsed(3) [OF sample_days(2)] by (simp add: plain_version_def)
  ultimately show ?thesis
    using activation_leaves_the_past [OF second_reached(1) second_activated _ sample_days(4), of ?w] second_activated
    by (simp add: Let_def)
qed

end
