(* ===== verification/IndexSeries.thy ===== *)
theory IndexSeries
  imports Indexes Schedules
begin

text \<open>
  The published values of an index: \<open>apps/api/src/pricing/indexes.service.ts\<close> and \<open>currentValues\<close> of
  \<open>pricing-snapshot.ts\<close>. The table is append only; a correction is a new row that names the one it
  replaces. A request reads the rows, decides, and writes; another may write in between, so an
  operation is given the rows it read and the rows it writes to, and the unique indexes of the table
  decide. Of the columns, those the code reads are kept; a numeric column is the text it is written
  as (\<open>toFixed\<close>), a date column its day.
\<close>

subsection \<open>Rows\<close>

record index_row =
  iw_id :: string
  iw_period :: string
  iw_value :: string
  iw_publishedAt :: string
  iw_revision :: nat
  iw_supersedesId :: "string option"

datatype index_failure =
    IndexValueNotFound
  | NotCurrentValue string
  | PeriodAlreadyPublished string
  | UnknownConnector
  | InvalidImport "(nat \<times> string) list"
  | EmptyImport
  | ConcurrentWrite

definition is_superseded :: "index_row list \<Rightarrow> index_row \<Rightarrow> bool" where
  "is_superseded vs v \<longleftrightarrow> Some (iw_id v) \<in> set (map iw_supersedesId vs)"

definition tip_of :: "index_row list \<Rightarrow> index_row option" where
  "tip_of vs = List.find (\<lambda>v. \<not> is_superseded vs v) vs"

definition period_chain :: "index_row list \<Rightarrow> string \<Rightarrow> index_row list" where
  "period_chain rows p = sort_key iw_revision (filter (\<lambda>v. iw_period v = p) rows)"

text \<open>\<open>currentValues\<close> of the rows ordered by period and revision, as the snapshot of a contract loads them.\<close>

definition current_values :: "index_row list \<Rightarrow> price_index_value list" where
  "current_values rows =
     map (\<lambda>v. \<lparr>iv_period = iw_period v, iv_value = iw_value v, iv_publishedAt = iw_publishedAt v\<rparr>)
       (filter (\<lambda>v. \<not> is_superseded rows v) (sort_key iw_period (sort_key iw_revision rows)))"

definition load_index :: "string \<Rightarrow> string \<Rightarrow> index_row list \<Rightarrow> price_index" where
  "load_index code name rows = \<lparr>pi_code = code, pi_name = name, pi_values = current_values rows\<rparr>"

text \<open>The unique indexes: one row by period and revision, one correction by row.\<close>

definition insert_values :: "index_row list \<Rightarrow> index_row list \<Rightarrow> index_failure + index_row list" where
  "insert_values rows vs =
     (let all = rows @ vs in
      if distinct (map (\<lambda>v. (iw_period v, iw_revision v)) all)
         \<and> distinct (filter (\<lambda>s. s \<noteq> None) (map iw_supersedesId all))
      then Inr all else Inl ConcurrentWrite)"

subsection \<open>Operations\<close>

record value_body =
  vb_period :: string
  vb_value :: string
  vb_publishedAt :: string
  vb_supersedesId :: "string option"

definition value_row :: "string \<Rightarrow> value_body \<Rightarrow> nat \<Rightarrow> string option \<Rightarrow> index_row" where
  "value_row i b revision target =
     \<lparr>iw_id = i, iw_period = vb_period b, iw_value = vb_value b, iw_publishedAt = vb_publishedAt b,
      iw_revision = revision, iw_supersedesId = target\<rparr>"

definition add_value ::
    "index_row list \<Rightarrow> index_row list \<Rightarrow> string \<Rightarrow> value_body \<Rightarrow> index_failure + index_row list" where
  "add_value seen rows i b =
     (let chain = period_chain seen (vb_period b); tip = tip_of chain in
      if \<not> js_falsy (vb_supersedesId b) then
        (case List.find (\<lambda>v. Some (iw_id v) = vb_supersedesId b) chain of
           None \<Rightarrow> Inl IndexValueNotFound
         | Some target \<Rightarrow>
             (case tip of
                Some t \<Rightarrow>
                  if iw_id t \<noteq> iw_id target then Inl (NotCurrentValue (iw_id t))
                  else insert_values rows [value_row i b (iw_revision target + 1) (Some (iw_id target))]
              | None \<Rightarrow> insert_values rows [value_row i b (iw_revision target + 1) (Some (iw_id target))]))
      else
        (case tip of
           Some t \<Rightarrow> Inl (PeriodAlreadyPublished (iw_id t))
         | None \<Rightarrow> insert_values rows [value_row i b 0 None]))"

record import_row =
  ir_line :: nat
  ir_period :: string
  ir_value :: string
  ir_publishedAt :: "string option"

text \<open>\<open>importFile\<close>, after the connector has translated the file to rows and errors: \<open>today\<close> is the day of
  Paris, \<open>fresh\<close> the identifiers drawn.\<close>

definition missing_rows :: "index_row list \<Rightarrow> import_row list \<Rightarrow> import_row list" where
  "missing_rows seen rs = filter (\<lambda>r. tip_of (period_chain seen (ir_period r)) = None) rs"

definition contradicted :: "'d decimal_ops \<Rightarrow> index_row list \<Rightarrow> import_row \<Rightarrow> bool" where
  "contradicted dc seen r =
     (case tip_of (period_chain seen (ir_period r)) of
        None \<Rightarrow> False
      | Some t \<Rightarrow> \<not> dec_eq dc (dec_of_string dc (iw_value t)) (dec_of_string dc (ir_value r)))"

definition import_values ::
    "'d decimal_ops \<Rightarrow> index_row list \<Rightarrow> index_row list \<Rightarrow> (nat \<Rightarrow> string) \<Rightarrow> string
     \<Rightarrow> import_row list \<times> (nat \<times> string) list \<Rightarrow> index_failure + index_row list" where
  "import_values dc seen rows fresh today parsed =
     (let rs = fst parsed;
          errors = snd parsed @ map (\<lambda>r. (ir_line r, ir_period r)) (filter (contradicted dc seen) rs);
          toCreate = missing_rows seen rs in
      if errors \<noteq> [] then Inl (InvalidImport (sort_key fst errors))
      else if rs = [] then Inl EmptyImport
      else if toCreate = [] then Inr rows
      else insert_values rows (map (\<lambda>(n, r).
             \<lparr>iw_id = fresh n, iw_period = ir_period r, iw_value = ir_value r,
              iw_publishedAt = or_default (ir_publishedAt r) today, iw_revision = 0, iw_supersedesId = None\<rparr>)
             (enumerate 0 toCreate)))"

subsection \<open>The life of a series\<close>

text \<open>A request works on the rows it read, those of an earlier state.\<close>

inductive series_step :: "'d decimal_ops \<Rightarrow> index_row list \<Rightarrow> index_row list \<Rightarrow> bool" for dc where
  add: "set seen \<subseteq> set rows \<Longrightarrow> i \<notin> iw_id ` set rows \<Longrightarrow> add_value seen rows i b = Inr rows' \<Longrightarrow>
     series_step dc rows rows'"
| import: "set seen \<subseteq> set rows \<Longrightarrow> inj fresh \<Longrightarrow> range fresh \<inter> iw_id ` set rows = {} \<Longrightarrow>
     import_values dc seen rows fresh today parsed = Inr rows' \<Longrightarrow> series_step dc rows rows'"

definition chain_ok :: "index_row list \<Rightarrow> bool" where
  "chain_ok rows \<longleftrightarrow>
     distinct (map iw_id rows)
     \<and> distinct (map (\<lambda>v. (iw_period v, iw_revision v)) rows)
     \<and> (\<forall>v \<in> set rows. case iw_supersedesId v of
          None \<Rightarrow> iw_revision v = 0
        | Some s \<Rightarrow> \<exists>t \<in> set rows. iw_id t = s \<and> iw_period t = iw_period v \<and> iw_revision v = iw_revision t + 1)"

lemma chain_ok_row:
  assumes "chain_ok rows" "v \<in> set rows" "iw_supersedesId v = Some s"
  obtains t where "t \<in> set rows" "iw_id t = s" "iw_period t = iw_period v" "iw_revision v = iw_revision t + 1"
  using assms by (force simp: chain_ok_def)

lemma chain_same_revision:
  "chain_ok rows \<Longrightarrow> v \<in> set rows \<Longrightarrow> w \<in> set rows \<Longrightarrow> iw_period v = iw_period w \<Longrightarrow> iw_revision v = iw_revision w \<Longrightarrow> v = w"
  unfolding chain_ok_def distinct_map inj_on_def by blast

lemma chain_same_id: "chain_ok rows \<Longrightarrow> v \<in> set rows \<Longrightarrow> w \<in> set rows \<Longrightarrow> iw_id v = iw_id w \<Longrightarrow> v = w"
  unfolding chain_ok_def distinct_map inj_on_def by blast

lemma superseded_iff:
  assumes ok: "chain_ok rows" and v: "v \<in> set rows"
  shows "is_superseded rows v \<longleftrightarrow> (\<exists>w \<in> set rows. iw_period w = iw_period v \<and> iw_revision w = iw_revision v + 1)"
proof
  assume "is_superseded rows v"
  then obtain w where w: "w \<in> set rows" "iw_supersedesId w = Some (iw_id v)" by (auto simp: is_superseded_def)
  then obtain t where "t \<in> set rows" "iw_id t = iw_id v" "iw_period t = iw_period w" "iw_revision w = iw_revision t + 1"
    using chain_ok_row [OF ok] by metis
  with w v chain_same_id [OF ok] show "\<exists>w \<in> set rows. iw_period w = iw_period v \<and> iw_revision w = iw_revision v + 1"
    by metis
next
  assume "\<exists>w \<in> set rows. iw_period w = iw_period v \<and> iw_revision w = iw_revision v + 1"
  then obtain w where w: "w \<in> set rows" "iw_period w = iw_period v" "iw_revision w = iw_revision v + 1" by blast
  then obtain s where s: "iw_supersedesId w = Some s"
    using ok by (cases "iw_supersedesId w") (auto simp: chain_ok_def)
  then obtain t where "t \<in> set rows" "iw_id t = s" "iw_period t = iw_period w" "iw_revision w = iw_revision t + 1"
    using chain_ok_row [OF ok w(1)] by metis
  with w v chain_same_revision [OF ok, of t v] have "s = iw_id v" by simp
  with s w(1) show "is_superseded rows v" by (auto simp: is_superseded_def image_iff intro: bexI [of _ w])
qed

lemma revisions_below:
  assumes ok: "chain_ok rows"
  shows "w \<in> set rows \<Longrightarrow> n \<le> iw_revision w \<Longrightarrow> \<exists>v \<in> set rows. iw_period v = iw_period w \<and> iw_revision v = n"
proof (induction "iw_revision w - n" arbitrary: w)
  case 0
  then show ?case by (intro bexI [of _ w]) auto
next
  case (Suc k)
  then obtain s where "iw_supersedesId w = Some s"
    using ok by (cases "iw_supersedesId w") (auto simp: chain_ok_def)
  then obtain t where t: "t \<in> set rows" "iw_period t = iw_period w" "iw_revision w = iw_revision t + 1"
    using chain_ok_row [OF ok Suc(3)] by metis
  with Suc(1) [of t] Suc(2) show ?case by auto
qed

text \<open>One row of a period is not superseded, and one only.\<close>

lemma one_current:
  assumes ok: "chain_ok rows" and "v \<in> set rows" "w \<in> set rows" "iw_period v = iw_period w"
    "\<not> is_superseded rows v" "\<not> is_superseded rows w"
  shows "v = w"
proof -
  have "\<not> iw_revision a < iw_revision b"
    if "a \<in> set rows" "b \<in> set rows" "iw_period a = iw_period b" "\<not> is_superseded rows a" for a b
    using that superseded_iff [OF ok that(1)] revisions_below [OF ok that(2), of "iw_revision a + 1"] by auto
  then have "iw_revision v = iw_revision w" using assms by (metis linorder_neqE_nat)
  with assms chain_same_revision [OF ok] show ?thesis by blast
qed

lemma some_current:
  assumes ok: "chain_ok rows" and v: "v \<in> set rows"
  shows "\<exists>w \<in> set rows. iw_period w = iw_period v \<and> \<not> is_superseded rows w"
proof -
  let ?S = "{w \<in> set rows. iw_period w = iw_period v}"
  have "finite ?S" "?S \<noteq> {}" using v by auto
  then obtain w where w: "w \<in> ?S" "\<forall>u \<in> ?S. iw_revision u \<le> iw_revision w"
    using obtains_MAX [of ?S iw_revision] by (metis (no_types, lifting) Max_ge finite_imageI imageI)
  then have "\<not> is_superseded rows w" using superseded_iff [OF ok, of w] by fastforce
  with w show ?thesis by blast
qed

lemma tip_iff:
  assumes ok: "chain_ok rows"
  shows "tip_of (period_chain rows p) = Some t \<longleftrightarrow> t \<in> set rows \<and> iw_period t = p \<and> \<not> is_superseded rows t"
    and "tip_of (period_chain rows p) = None \<longleftrightarrow> (\<forall>v \<in> set rows. iw_period v \<noteq> p)"
proof -
  have set: "set (period_chain rows p) = {v \<in> set rows. iw_period v = p}" by (simp add: period_chain_def)
  have local: "is_superseded (period_chain rows p) v \<longleftrightarrow> is_superseded rows v" if "v \<in> set rows" "iw_period v = p" for v
  proof
    assume "is_superseded rows v"
    then obtain w where w: "w \<in> set rows" "iw_supersedesId w = Some (iw_id v)" by (auto simp: is_superseded_def)
    then have "iw_period w = p" using that chain_ok_row [OF ok w] chain_same_id [OF ok] by metis
    with w show "is_superseded (period_chain rows p) v"
      by (auto simp: is_superseded_def set image_iff intro!: exI [of _ w])
  qed (auto simp: is_superseded_def set)
  have none: "tip_of (period_chain rows p) = None \<longleftrightarrow> (\<forall>v \<in> set rows. iw_period v \<noteq> p)"
  proof
    assume "tip_of (period_chain rows p) = None"
    then have all: "is_superseded (period_chain rows p) v" if "v \<in> set rows" "iw_period v = p" for v
      using that by (simp add: tip_of_def find_None_iff set)
    show "\<forall>v \<in> set rows. iw_period v \<noteq> p"
    proof (intro ballI notI)
      fix v assume "v \<in> set rows" "iw_period v = p"
      then obtain w where "w \<in> set rows" "iw_period w = p" "\<not> is_superseded rows w"
        using some_current [OF ok] by blast
      with all local show False by blast
    qed
  qed (auto simp: tip_of_def find_None_iff set)
  show "tip_of (period_chain rows p) = None \<longleftrightarrow> (\<forall>v \<in> set rows. iw_period v \<noteq> p)" by (rule none)
  have some: "t \<in> set rows \<and> iw_period t = p \<and> \<not> is_superseded rows t" if "tip_of (period_chain rows p) = Some t" for t
    using find_set [OF that [unfolded tip_of_def]] local [of t] by (auto simp: set)
  show "tip_of (period_chain rows p) = Some t \<longleftrightarrow> t \<in> set rows \<and> iw_period t = p \<and> \<not> is_superseded rows t"
    using some none one_current [OF ok] by (cases "tip_of (period_chain rows p)") auto
qed

subsection \<open>The chains are kept\<close>

lemma insert_values_Inr:
  "insert_values rows vs = Inr rows' \<longleftrightarrow>
     rows' = rows @ vs \<and> distinct (map (\<lambda>v. (iw_period v, iw_revision v)) (rows @ vs))
     \<and> distinct (filter (\<lambda>s. s \<noteq> None) (map iw_supersedesId (rows @ vs)))"
  by (auto simp: insert_values_def Let_def)

text \<open>What a request adds: rows of revision 0, or one correction of a row.\<close>

definition appended :: "index_row list \<Rightarrow> index_row list \<Rightarrow> bool" where
  "appended rows vs \<longleftrightarrow>
     distinct (map iw_id vs) \<and> iw_id ` set vs \<inter> iw_id ` set rows = {}
     \<and> (\<forall>v \<in> set vs. case iw_supersedesId v of
          None \<Rightarrow> iw_revision v = 0
        | Some s \<Rightarrow> \<exists>t \<in> set rows. iw_id t = s \<and> iw_period t = iw_period v \<and> iw_revision v = iw_revision t + 1)"

lemma appended_row:
  assumes "appended rows vs" "v \<in> set vs" "iw_supersedesId v = Some s"
  shows "\<exists>t \<in> set rows. iw_id t = s \<and> iw_period t = iw_period v \<and> iw_revision v = iw_revision t + 1"
proof -
  have "case iw_supersedesId v of None \<Rightarrow> iw_revision v = 0
        | Some s \<Rightarrow> \<exists>t \<in> set rows. iw_id t = s \<and> iw_period t = iw_period v \<and> iw_revision v = iw_revision t + 1"
    using assms(1,2) unfolding appended_def by blast
  then show ?thesis by (simp add: assms(3))
qed

lemma series_step_appends:
  assumes "series_step dc rows rows'"
  obtains "rows' = rows"
  | vs where "insert_values rows vs = Inr rows'" "appended rows vs"
  using assms
proof cases
  case (add seen i b)
  let ?chain = "period_chain seen (vb_period b)"
  have target: "appended rows [value_row i b (iw_revision t + 1) (Some (iw_id t))]" if "t \<in> set ?chain" for t
    using that add by (auto simp: appended_def value_row_def period_chain_def)
  have root: "appended rows [value_row i b 0 None]" using add by (auto simp: appended_def value_row_def)
  obtain vs where "insert_values rows vs = Inr rows'" "appended rows vs"
    using add(3) root find_set target
    by (fastforce simp: add_value_def Let_def split: if_splits option.splits)
  then show thesis by (rule that(2))
next
  case (import seen fresh today parsed)
  let ?new = "\<lambda>(n, r). \<lparr>iw_id = fresh n, iw_period = ir_period r, iw_value = ir_value r,
              iw_publishedAt = or_default (ir_publishedAt r) today, iw_revision = 0, iw_supersedesId = None\<rparr>"
  let ?vs = "map ?new (enumerate 0 (missing_rows seen (fst parsed)))"
  have ids: "map iw_id ?vs = map fresh [0..<length (missing_rows seen (fst parsed))]"
    by (simp add: enumerate_eq_zip comp_def case_prod_unfold map_fst_zip [unfolded comp_def] flip: map_map [of fresh fst, unfolded comp_def])
  have "appended rows ?vs"
    unfolding appended_def
  proof (intro conjI)
    show "distinct (map iw_id ?vs)"
      unfolding ids distinct_map using inj_on_subset [OF import(2)] by simp
    have "iw_id ` set ?vs \<subseteq> range fresh" by auto
    with import(3) show "iw_id ` set ?vs \<inter> iw_id ` set rows = {}" by blast
  qed auto
  moreover have "rows' = rows \<or> insert_values rows ?vs = Inr rows'"
    using import(4) by (auto simp: import_values_def Let_def split: if_splits)
  ultimately show thesis using that by blast
qed

lemma series_step_ok: "series_step dc rows rows' \<Longrightarrow> chain_ok rows \<Longrightarrow> chain_ok rows'"
proof (erule series_step_appends)
  fix vs assume ok: "chain_ok rows" and i: "insert_values rows vs = Inr rows'" and a: "appended rows vs"
  note i = i [unfolded insert_values_Inr]
  have "distinct (map iw_id rows')" using i a ok by (auto simp: chain_ok_def appended_def)
  moreover have "distinct (map (\<lambda>v. (iw_period v, iw_revision v)) rows')" using i by simp
  moreover have "case iw_supersedesId v of
          None \<Rightarrow> iw_revision v = 0
        | Some s \<Rightarrow> \<exists>t \<in> set rows'. iw_id t = s \<and> iw_period t = iw_period v \<and> iw_revision v = iw_revision t + 1"
    if "v \<in> set rows'" for v
  proof (cases "iw_supersedesId v")
    case None
    then show ?thesis using i a ok that by (auto simp: chain_ok_def appended_def)
  next
    case (Some s)
    have "\<exists>t \<in> set rows. iw_id t = s \<and> iw_period t = iw_period v \<and> iw_revision v = iw_revision t + 1"
    proof (cases "v \<in> set rows")
      case True
      from chain_ok_row [OF ok True Some] show ?thesis by blast
    next
      case False
      with i that have "v \<in> set vs" by simp
      from appended_row [OF a this Some] show ?thesis .
    qed
    then show ?thesis using i Some by auto
  qed
  ultimately show "chain_ok rows'" unfolding chain_ok_def by blast
qed simp

lemma series_reached: "(series_step dc)\<^sup>*\<^sup>* [] rows \<Longrightarrow> chain_ok rows"
proof (induction rule: rtranclp_induct)
  case base
  show ?case by (simp add: chain_ok_def)
qed (rule series_step_ok)

lemma unsuperseded_appended:
  assumes "insert_values rows vs = Inr rows'" "\<not> is_superseded rows' v"
  shows "\<not> is_superseded rows v"
  using assms by (auto simp: insert_values_Inr is_superseded_def)

subsection \<open>Properties\<close>

text \<open>C30: A series has one value by period: whatever is published, imported and corrected, in whatever order
  concurrent requests read and write, the values given to the engine are of distinct periods, one
  for each period ever published, so a price never stops on two values of the same month.\<close>

theorem series_single_valued:
  assumes "(series_step dc)\<^sup>*\<^sup>* [] rows"
  shows "distinct (map iv_period (current_values rows))
     \<and> set (map iv_period (current_values rows)) = iw_period ` set rows
     \<and> (case lookup_index_value dc [load_index code name rows] code date rule of
          Inl e \<Rightarrow> er_code e \<noteq> DUPLICATE_INDEX_VALUE
        | Inr obs \<Rightarrow> True)"
proof -
  note ok = series_reached [OF assms]
  let ?cur = "filter (\<lambda>v. \<not> is_superseded rows v) (sort_key iw_period (sort_key iw_revision rows))"
  have periods: "map iv_period (current_values rows) = map iw_period ?cur"
    by (simp add: current_values_def comp_def)
  have "distinct rows" using ok by (simp add: chain_ok_def distinct_map)
  then have "distinct ?cur" by simp
  moreover have "inj_on iw_period (set ?cur)"
    using one_current [OF ok] by (intro inj_onI) simp
  ultimately have d: "distinct (map iv_period (current_values rows))"
    by (simp add: periods distinct_map)
  have all: "set (map iv_period (current_values rows)) = iw_period ` set rows"
  proof (rule set_eqI)
    fix p
    show "p \<in> set (map iv_period (current_values rows)) \<longleftrightarrow> p \<in> iw_period ` set rows"
      unfolding periods using some_current [OF ok] by (fastforce simp: image_iff)
  qed
  have "er_code e \<noteq> DUPLICATE_INDEX_VALUE"
    if "efold (check_index_value dc) seen vs = Inl e" "distinct (map iv_period vs)" "set seen \<inter> iv_period ` set vs = {}"
    for seen vs e
    using that
  proof (induction vs arbitrary: seen)
    case (Cons v vs)
    have code: "er_code f \<noteq> DUPLICATE_INDEX_VALUE" if "check_index_value dc seen v = Inl f" for f
      using that Cons(4)
      by (auto simp: check_index_value_def ebind_Inl_iff pricing_error_def parse_period_def parse_iso_date_def
          parse_decimal_def Let_def split: if_splits option.splits)
    show ?case
    proof (cases "check_index_value dc seen v")
      case (Inl f)
      with Cons(2) code show ?thesis by simp
    next
      case (Inr seen')
      then have "set seen' \<inter> iv_period ` set vs = {}"
        using Cons(3,4) by (auto simp: check_index_value_Inr)
      with Cons Inr show ?thesis by simp
    qed
  qed simp
  from this [OF _ d, of "[]"] show ?thesis
    using d all
    by (auto simp: lookup_index_value_def load_index_def ebind_Inl_iff parse_iso_date_def pricing_error_def Let_def
        split: sum.splits option.splits if_splits)
qed

text \<open>C31: A published value is never rewritten in silence: when the value of a period changes, the new one is a
  correction that names the one it replaces. Neither an import nor a second publication does it,
  however the requests interleave.\<close>

theorem value_rewritten_only_by_correction:
  assumes "(series_step dc)\<^sup>*\<^sup>* [] rows" "series_step dc rows rows'"
    "tip_of (period_chain rows p) = Some old" "tip_of (period_chain rows' p) = Some new" "new \<noteq> old"
  shows "iw_supersedesId new = Some (iw_id old) \<and> iw_revision new = iw_revision old + 1 \<and> new \<notin> set rows"
  using assms(2)
proof (rule series_step_appends)
  assume "rows' = rows"
  with assms(3-5) show ?thesis by simp
next
  fix vs assume i: "insert_values rows vs = Inr rows'" and a: "appended rows vs"
  note ok = series_reached [OF assms(1)]
  note ok' = series_step_ok [OF assms(2) ok]
  have old: "old \<in> set rows" "iw_period old = p" "\<not> is_superseded rows old"
    using assms(3) by (simp_all add: tip_iff [OF ok])
  have new: "new \<in> set rows'" "iw_period new = p" "\<not> is_superseded rows' new"
    using assms(4) by (simp_all add: tip_iff [OF ok'])
  have sub: "set rows' = set rows \<union> set vs" using i by (auto simp: insert_values_Inr)
  have fresh: "new \<notin> set rows"
    using one_current [OF ok, of new old] unsuperseded_appended [OF i new(3)] new(2) old assms(5) by auto
  then have vs: "new \<in> set vs" using new sub by blast
  have "iw_supersedesId new \<noteq> None"
  proof
    assume "iw_supersedesId new = None"
    then have "iw_revision new = 0" using a vs by (auto simp: appended_def)
    moreover obtain root where "root \<in> set rows" "iw_period root = p" "iw_revision root = 0"
      using revisions_below [OF ok old(1)] old(2) by blast
    ultimately show False using chain_same_revision [OF ok', of new root] new sub fresh by auto
  qed
  then obtain t where t: "t \<in> set rows" "iw_supersedesId new = Some (iw_id t)" "iw_period t = p" "iw_revision new = iw_revision t + 1"
    using appended_row [OF a vs] new(2) by auto
  have "t = old"
  proof (rule ccontr)
    assume "t \<noteq> old"
    then have "is_superseded rows t" using one_current [OF ok t(1) old(1)] t(3) old by auto
    then obtain u where "u \<in> set rows" "iw_period u = p" "iw_revision u = iw_revision t + 1"
      using superseded_iff [OF ok t(1)] t(3) by auto
    then show False using chain_same_revision [OF ok', of new u] new sub t(4) fresh by auto
  qed
  with t fresh show ?thesis by simp
qed

subsection \<open>Example\<close>

text \<open>Two months of an index, then a correction of the second.\<close>

definition june :: value_body where
  "june = \<lparr>vb_period = ''2025-06'', vb_value = ''309'', vb_publishedAt = ''2025-08-01'', vb_supersedesId = None\<rparr>"

definition july :: value_body where
  "july = \<lparr>vb_period = ''2025-07'', vb_value = ''310'', vb_publishedAt = ''2025-09-01'', vb_supersedesId = None\<rparr>"

definition july_corrected :: value_body where
  "july_corrected =
     \<lparr>vb_period = ''2025-07'', vb_value = ''311'', vb_publishedAt = ''2025-11-01'', vb_supersedesId = Some ''b''\<rparr>"

definition published :: "index_row list" where
  "published = [value_row ''a'' june 0 None, value_row ''b'' july 0 None]"

definition corrected :: "index_row list" where
  "corrected = published @ [value_row ''c'' july_corrected 1 (Some ''b'')]"

lemma sample_series:
  "add_value [] [] ''a'' june = Inr [value_row ''a'' june 0 None]"
  "add_value [value_row ''a'' june 0 None] [value_row ''a'' june 0 None] ''b'' july = Inr published"
  "add_value published published ''c'' july_corrected = Inr corrected"
  by code_simp+

lemma sample_published: "(series_step rat_ops)\<^sup>*\<^sup>* [] published" "series_step rat_ops published corrected"
proof -
  have "series_step rat_ops [] [value_row ''a'' june 0 None]"
    by (rule series_step.add [OF _ _ sample_series(1)]) simp_all
  moreover have "series_step rat_ops [value_row ''a'' june 0 None] published"
    by (rule series_step.add [OF _ _ sample_series(2)]) (simp_all add: value_row_def)
  ultimately show "(series_step rat_ops)\<^sup>*\<^sup>* [] published"
    by (meson converse_rtranclp_into_rtranclp rtranclp.rtrancl_refl)
  show "series_step rat_ops published corrected"
    by (rule series_step.add [OF _ _ sample_series(3)]) (simp_all add: published_def value_row_def)
qed

theorem series_single_valued_witness:
  "(series_step rat_ops)\<^sup>*\<^sup>* [] published \<and> distinct (map iv_period (current_values published))
     \<and> length (current_values published) = 2"
proof -
  have "length (current_values published) = 2" by code_simp
  with series_single_valued [OF sample_published(1), of "''SYNTEC''" "''Syntec''" "''2025-10-15''" LATEST_PUBLISHED]
  show ?thesis using sample_published(1) by blast
qed

theorem value_rewritten_only_by_correction_witness:
  "series_step rat_ops published corrected
     \<and> iw_supersedesId (value_row ''c'' july_corrected 1 (Some ''b'')) = Some (iw_id (value_row ''b'' july 0 None))"
proof -
  have "tip_of (period_chain published ''2025-07'') = Some (value_row ''b'' july 0 None)"
    "tip_of (period_chain corrected ''2025-07'') = Some (value_row ''c'' july_corrected 1 (Some ''b''))" by code_simp+
  moreover have "value_row ''c'' july_corrected 1 (Some ''b'') \<noteq> value_row ''b'' july 0 None" by (simp add: value_row_def)
  ultimately show ?thesis
    using value_rewritten_only_by_correction [OF sample_published] sample_published(2) by blast
qed

text \<open>A correction is dated by its own publication: between the two publications the month it corrects has
  no value any more, neither the old nor the new one, and the lookup falls back to the month before.\<close>

lemma correction_hides_its_period:
  "map_option io_value (case lookup_index_value rat_ops [load_index ''SYNTEC'' ''Syntec'' published] ''SYNTEC'' ''2025-10-15''
       LATEST_PUBLISHED of Inl e \<Rightarrow> None | Inr obs \<Rightarrow> Some obs) = Some ''310''"
  "map_option io_value (case lookup_index_value rat_ops [load_index ''SYNTEC'' ''Syntec'' corrected] ''SYNTEC'' ''2025-10-15''
       LATEST_PUBLISHED of Inl e \<Rightarrow> None | Inr obs \<Rightarrow> Some obs) = Some ''309''"
  by code_simp+

end
