(* ===== verification/OverrideFlow.thy ===== *)
theory OverrideFlow
  imports Overrides
begin

text \<open>
  The life of a price override, \<open>apps/api/src/pricing/overrides.service.ts\<close>: created by one user, active
  at once when its gap is small, otherwise waiting for a second user, then approved, rejected or
  cancelled. A request reads the row, decides, and writes under a condition on the row as it is then;
  requests interleave, so the two halves are separate steps. A numeric column is the text it is
  written as, a date column its day; below \<open>GAP_MAX\<close>, \<open>toFixed\<close> and \<open>toString\<close> write the same text.
\<close>

subsection \<open>Rows\<close>

datatype override_status = OV_PENDING_APPROVAL | OV_ACTIVE | OV_REJECTED | OV_CANCELLED

record override_row =
  or_id :: string
  or_lineKey :: string
  or_unitPrice :: string
  or_validFrom :: string
  or_validTo :: string
  or_reason :: string
  or_computedUnitPrice :: string
  or_gapPercent :: "string option"
  or_requiresSecondApproval :: bool
  or_status :: override_status
  or_authorUserId :: string
  or_approvedByUserId :: "string option"
  or_rejectedByUserId :: "string option"
  or_rejectionReason :: "string option"
  or_cancelledByUserId :: "string option"

datatype override_failure =
    UnknownUser
  | InvalidOverride "override_issue list"
  | OverrideNotFound
  | AuthorForbidden
  | OverrideNotPending
  | OverrideChanged
  | OverrideClosed

text \<open>\<open>userOf(scope)\<close>: the identifier of a user, in hexadecimal groups of 8, 4, 4, 4 and 12.\<close>

definition is_hex :: "char \<Rightarrow> bool" where
  "is_hex c = (let n = of_char c :: nat in 48 \<le> n \<and> n \<le> 57 \<or> 65 \<le> n \<and> n \<le> 70 \<or> 97 \<le> n \<and> n \<le> 102)"

definition is_user_id :: "string \<Rightarrow> bool" where
  "is_user_id s \<longleftrightarrow> length s = 36
     \<and> list_all (\<lambda>(i, c). if i \<in> {8, 13, 18, 23} then c = CHR ''-'' else is_hex c) (enumerate 0 s)"

definition user_of :: "string \<Rightarrow> override_failure + string" where
  "user_of userId = (if is_user_id userId then Inr userId else Inl UnknownUser)"

text \<open>\<open>toEngineOverride\<close>, and the overrides given to the engine: the active ones.\<close>

definition to_engine_override :: "override_row \<Rightarrow> price_override" where
  "to_engine_override o' =
     \<lparr>po_id = or_id o', po_lineId = or_lineKey o', po_unitPrice = or_unitPrice o', po_validFrom = or_validFrom o',
      po_validTo = or_validTo o', po_reason = or_reason o', po_authorId = or_authorUserId o',
      po_approvedBy = or_approvedByUserId o'\<rparr>"

definition engine_overrides :: "override_row list \<Rightarrow> price_override list" where
  "engine_overrides rows =
     map to_engine_override (filter (\<lambda>x. or_status x = OV_ACTIVE) (sort_key or_validFrom rows))"

subsection \<open>Creation\<close>

record override_body =
  ob_lineKey :: string
  ob_unitPrice :: string
  ob_validFrom :: string
  ob_validTo :: string
  ob_reason :: string

definition GAP_MAX :: string where
  "GAP_MAX = ''9999999999''"

definition gap_column :: "'d decimal_ops \<Rightarrow> 'd option \<Rightarrow> string option" where
  "gap_column dc gap =
     (case gap of
        None \<Rightarrow> None
      | Some g \<Rightarrow> if \<not> dec_lt dc g (dec_of_string dc GAP_MAX) then None
                  else Some (dec_to_string dc (dec_to_places dc g 4 HALF_AWAY_FROM_ZERO)))"

text \<open>\<open>computed\<close> is the price of the line without overrides at the first day, \<open>threshold\<close> that of the tenant.\<close>

definition create_override ::
    "'d decimal_ops \<Rightarrow> string \<Rightarrow> override_body \<Rightarrow> string \<Rightarrow> string \<Rightarrow> string \<Rightarrow> override_failure + override_row" where
  "create_override dc userId b computed threshold i =
     ebind (user_of userId) (\<lambda>author.
       let issues = validate_override dc
             \<lparr>po_id = ''new'', po_lineId = ob_lineKey b, po_unitPrice = ob_unitPrice b,
              po_validFrom = ob_validFrom b, po_validTo = ob_validTo b, po_reason = ob_reason b,
              po_authorId = author, po_approvedBy = None\<rparr>;
           gap = override_gap_percent dc (dec_of_string dc (ob_unitPrice b)) (dec_of_string dc computed);
           needs = gap_exceeds dc gap (dec_of_string dc threshold)
       in if issues \<noteq> [] then Inl (InvalidOverride issues)
          else Inr \<lparr>or_id = i, or_lineKey = ob_lineKey b, or_unitPrice = ob_unitPrice b,
                    or_validFrom = ob_validFrom b, or_validTo = ob_validTo b, or_reason = ob_reason b,
                    or_computedUnitPrice = computed, or_gapPercent = gap_column dc gap,
                    or_requiresSecondApproval = needs,
                    or_status = (if needs then OV_PENDING_APPROVAL else OV_ACTIVE),
                    or_authorUserId = author, or_approvedByUserId = None, or_rejectedByUserId = None,
                    or_rejectionReason = None, or_cancelledByUserId = None\<rparr>)"

subsection \<open>Decisions\<close>

definition find_override :: "override_row list \<Rightarrow> string \<Rightarrow> override_failure + override_row" where
  "find_override rows i =
     (case List.find (\<lambda>x. or_id x = i) rows of None \<Rightarrow> Inl OverrideNotFound | Some x \<Rightarrow> Inr x)"

text \<open>\<open>updateMany\<close> and its count.\<close>

definition update_where ::
    "override_failure \<Rightarrow> (override_row \<Rightarrow> bool) \<Rightarrow> (override_row \<Rightarrow> override_row) \<Rightarrow> override_row list
     \<Rightarrow> override_failure + override_row list" where
  "update_where failure P g rows =
     (if length (filter P rows) \<noteq> 1 then Inl failure else Inr (map (\<lambda>x. if P x then g x else x) rows))"

text \<open>What a request holds between its read and its write: the user, and the row it read.\<close>

datatype override_request =
    Approving string override_row
  | Rejecting string string override_row
  | Cancelling string override_row

definition read_approve :: "override_row list \<Rightarrow> string \<Rightarrow> string \<Rightarrow> override_failure + override_request" where
  "read_approve rows userId i =
     ebind (user_of userId) (\<lambda>approver.
     ebind (find_override rows i) (\<lambda>x.
       if or_authorUserId x = approver then Inl AuthorForbidden
       else if \<not> (or_status x = OV_PENDING_APPROVAL
                  \<or> or_status x = OV_ACTIVE \<and> or_approvedByUserId x = None) then Inl OverrideNotPending
       else Inr (Approving approver x)))"

definition read_reject :: "override_row list \<Rightarrow> string \<Rightarrow> string \<Rightarrow> string \<Rightarrow> override_failure + override_request" where
  "read_reject rows userId i reason =
     ebind (user_of userId) (\<lambda>rejecter.
     ebind (find_override rows i) (\<lambda>x.
       if or_authorUserId x = rejecter then Inl AuthorForbidden else Inr (Rejecting rejecter reason x)))"

definition read_cancel :: "override_row list \<Rightarrow> string \<Rightarrow> string \<Rightarrow> override_failure + override_request" where
  "read_cancel rows userId i =
     ebind (user_of userId) (\<lambda>user. ebind (find_override rows i) (\<lambda>x. Inr (Cancelling user x)))"

fun write_decision :: "override_request \<Rightarrow> override_row list \<Rightarrow> override_failure + override_row list" where
  "write_decision (Approving approver seen) rows =
     update_where OverrideChanged
       (\<lambda>x. or_id x = or_id seen \<and> or_status x = or_status seen \<and> or_approvedByUserId x = None)
       (\<lambda>x. x\<lparr>or_status := OV_ACTIVE, or_approvedByUserId := Some approver\<rparr>) rows"
| "write_decision (Rejecting rejecter reason seen) rows =
     update_where OverrideNotPending
       (\<lambda>x. or_id x = or_id seen \<and> or_status x = OV_PENDING_APPROVAL)
       (\<lambda>x. x\<lparr>or_status := OV_REJECTED, or_rejectedByUserId := Some rejecter, or_rejectionReason := Some reason\<rparr>) rows"
| "write_decision (Cancelling user seen) rows =
     update_where OverrideClosed
       (\<lambda>x. or_id x = or_id seen \<and> (or_status x = OV_PENDING_APPROVAL \<or> or_status x = OV_ACTIVE))
       (\<lambda>x. x\<lparr>or_status := OV_CANCELLED, or_cancelledByUserId := Some user\<rparr>) rows"

subsection \<open>Interleaved requests\<close>

type_synonym override_state = "override_row list \<times> override_request list"

definition request_read :: "override_row list \<Rightarrow> override_request \<Rightarrow> bool" where
  "request_read rows q \<longleftrightarrow>
     (\<exists>userId i reason. read_approve rows userId i = Inr q \<or> read_reject rows userId i reason = Inr q
        \<or> read_cancel rows userId i = Inr q)"

inductive override_step :: "'d decimal_ops \<Rightarrow> override_state \<Rightarrow> override_state \<Rightarrow> bool" for dc where
  creation: "create_override dc userId b computed threshold i = Inr x \<Longrightarrow> i \<notin> or_id ` set rows \<Longrightarrow>
     override_step dc (rows, qs) (rows @ [x], qs)"
| reading: "request_read rows q \<Longrightarrow> override_step dc (rows, qs) (rows, q # qs)"
| writing: "q \<in> set qs \<Longrightarrow> write_decision q rows = Inr rows' \<Longrightarrow> override_step dc (rows, qs) (rows', remove1 q qs)"
| refused: "q \<in> set qs \<Longrightarrow> write_decision q rows = Inl e \<Longrightarrow> override_step dc (rows, qs) (rows, remove1 q qs)"

text \<open>Approved by somebody else than the author.\<close>

definition approved_by_other :: "override_row \<Rightarrow> bool" where
  "approved_by_other x \<longleftrightarrow>
     (case or_approvedByUserId x of None \<Rightarrow> False | Some u \<Rightarrow> is_user_id u \<and> u \<noteq> or_authorUserId x)"

definition override_closed :: "override_row \<Rightarrow> bool" where
  "override_closed x \<longleftrightarrow> or_status x = OV_REJECTED \<or> or_status x = OV_CANCELLED"

definition row_ok :: "override_row \<Rightarrow> bool" where
  "row_ok x \<longleftrightarrow>
     (or_approvedByUserId x \<noteq> None \<longrightarrow> approved_by_other x)
     \<and> (or_status x = OV_ACTIVE \<and> or_requiresSecondApproval x \<longrightarrow> approved_by_other x)
     \<and> (or_status x = OV_REJECTED \<longrightarrow> or_rejectedByUserId x \<noteq> None \<and> or_rejectedByUserId x \<noteq> Some (or_authorUserId x))"

text \<open>The row a request read is the one of the table, as it was: its identifier and its author never change.\<close>

definition reads_row :: "override_row list \<Rightarrow> override_row \<Rightarrow> bool" where
  "reads_row rows seen \<longleftrightarrow> (\<exists>x \<in> set rows. or_id x = or_id seen \<and> or_authorUserId x = or_authorUserId seen)"

fun request_ok :: "override_row list \<Rightarrow> override_request \<Rightarrow> bool" where
  "request_ok rows (Approving u seen) \<longleftrightarrow> reads_row rows seen \<and> is_user_id u \<and> u \<noteq> or_authorUserId seen
     \<and> \<not> override_closed seen"
| "request_ok rows (Rejecting u reason seen) \<longleftrightarrow> reads_row rows seen \<and> u \<noteq> or_authorUserId seen"
| "request_ok rows (Cancelling u seen) \<longleftrightarrow> reads_row rows seen"

definition overrides_ok :: "override_state \<Rightarrow> bool" where
  "overrides_ok st \<longleftrightarrow>
     distinct (map or_id (fst st)) \<and> (\<forall>x \<in> set (fst st). row_ok x) \<and> (\<forall>q \<in> set (snd st). request_ok (fst st) q)"

text \<open>A row and what a step made of it.\<close>

definition row_follows :: "override_row \<Rightarrow> override_row \<Rightarrow> bool" where
  "row_follows x y \<longleftrightarrow>
     or_id y = or_id x \<and> or_authorUserId y = or_authorUserId x
     \<and> (override_closed x \<longrightarrow> y = x)
     \<and> (or_approvedByUserId x \<noteq> None \<longrightarrow> or_approvedByUserId y = or_approvedByUserId x)
     \<and> y = x\<lparr>or_status := or_status y, or_approvedByUserId := or_approvedByUserId y,
             or_rejectedByUserId := or_rejectedByUserId y, or_rejectionReason := or_rejectionReason y,
             or_cancelledByUserId := or_cancelledByUserId y\<rparr>"

subsection \<open>The invariant\<close>

lemma approved_by_other_iff:
  "approved_by_other x \<longleftrightarrow> (\<exists>u. or_approvedByUserId x = Some u \<and> is_user_id u \<and> u \<noteq> or_authorUserId x)"
  by (simp add: approved_by_other_def split: option.split)

lemma row_follows_refl [simp]: "row_follows x x"
  by (simp add: row_follows_def)

lemma reads_row_follows:
  "list_all2 row_follows rows rows' \<Longrightarrow> reads_row rows seen \<Longrightarrow> reads_row rows' seen"
  unfolding reads_row_def by (induction rule: list_all2_induct) (auto simp: row_follows_def)

lemma request_ok_follows:
  "list_all2 row_follows rows rows' \<Longrightarrow> request_ok rows q \<Longrightarrow> request_ok rows' q"
  by (cases q) (auto intro: reads_row_follows)

lemma update_where_Inr:
  "update_where failure P g rows = Inr rows' \<Longrightarrow> rows' = map (\<lambda>x. if P x then g x else x) rows"
  by (auto simp: update_where_def split: if_splits)

lemma seen_author:
  assumes "distinct (map or_id rows)" "reads_row rows seen" "x \<in> set rows" "or_id x = or_id seen"
  shows "or_authorUserId x = or_authorUserId seen"
proof -
  obtain y where "y \<in> set rows" "or_id y = or_id seen" "or_authorUserId y = or_authorUserId seen"
    using assms(2) by (auto simp: reads_row_def)
  moreover from this assms have "y = x" by (auto simp: distinct_map inj_on_def)
  ultimately show ?thesis by simp
qed

lemma update_follows:
  assumes "update_where failure P g rows = Inr rows'" "\<forall>x \<in> set rows. row_ok x"
    and "\<And>x. x \<in> set rows \<Longrightarrow> P x \<Longrightarrow> row_ok x \<Longrightarrow> row_follows x (g x) \<and> row_ok (g x)"
  shows "list_all2 row_follows rows rows' \<and> (\<forall>x \<in> set rows'. row_ok x)"
  using assms update_where_Inr [OF assms(1)] by (auto simp: list_all2_map2 list_all2_same)

lemma write_ok:
  assumes d: "distinct (map or_id rows)" and ok: "\<forall>x \<in> set rows. row_ok x" and q: "request_ok rows q"
    and w: "write_decision q rows = Inr rows'"
  shows "list_all2 row_follows rows rows'" "\<forall>x \<in> set rows'. row_ok x"
proof -
  have "list_all2 row_follows rows rows' \<and> (\<forall>x \<in> set rows'. row_ok x)"
  proof (cases q)
    case (Approving u seen)
    show ?thesis
    proof (rule update_follows [OF w [unfolded Approving write_decision.simps] ok])
      fix x assume x: "x \<in> set rows" "or_id x = or_id seen \<and> or_status x = or_status seen \<and> or_approvedByUserId x = None"
      then have "or_authorUserId x = or_authorUserId seen" using seen_author [OF d] q Approving by simp
      then show "row_follows x (x\<lparr>or_status := OV_ACTIVE, or_approvedByUserId := Some u\<rparr>)
          \<and> row_ok (x\<lparr>or_status := OV_ACTIVE, or_approvedByUserId := Some u\<rparr>)"
        using q x Approving by (simp add: row_follows_def override_closed_def row_ok_def approved_by_other_iff)
    qed
  next
    case (Rejecting u reason seen)
    show ?thesis
    proof (rule update_follows [OF w [unfolded Rejecting write_decision.simps] ok])
      fix x assume x: "x \<in> set rows" "or_id x = or_id seen \<and> or_status x = OV_PENDING_APPROVAL" "row_ok x"
      then have "or_authorUserId x = or_authorUserId seen" using seen_author [OF d] q Rejecting by simp
      then show "row_follows x (x\<lparr>or_status := OV_REJECTED, or_rejectedByUserId := Some u, or_rejectionReason := Some reason\<rparr>)
          \<and> row_ok (x\<lparr>or_status := OV_REJECTED, or_rejectedByUserId := Some u, or_rejectionReason := Some reason\<rparr>)"
        using q x Rejecting by (simp add: row_follows_def override_closed_def row_ok_def approved_by_other_iff)
    qed
  next
    case (Cancelling u seen)
    show ?thesis
    proof (rule update_follows [OF w [unfolded Cancelling write_decision.simps] ok])
      fix x assume "or_id x = or_id seen \<and> (or_status x = OV_PENDING_APPROVAL \<or> or_status x = OV_ACTIVE)" "row_ok x"
      then show "row_follows x (x\<lparr>or_status := OV_CANCELLED, or_cancelledByUserId := Some u\<rparr>)
          \<and> row_ok (x\<lparr>or_status := OV_CANCELLED, or_cancelledByUserId := Some u\<rparr>)"
        by (elim conjE disjE) (simp_all add: row_follows_def override_closed_def row_ok_def approved_by_other_iff)
    qed
  qed
  then show "list_all2 row_follows rows rows'" "\<forall>x \<in> set rows'. row_ok x" by blast+
qed

lemma find_override_Inr:
  assumes "find_override rows i = Inr x"
  shows "reads_row rows x"
proof -
  have "List.find (\<lambda>y. or_id y = i) rows = Some x"
    using assms by (auto simp: find_override_def split: option.splits)
  then have "x \<in> set rows" by (auto simp: find_Some_iff)
  then show ?thesis by (auto simp: reads_row_def)
qed

lemma request_read_ok: "request_read rows q \<Longrightarrow> request_ok rows q"
  by (auto simp: request_read_def read_approve_def read_reject_def read_cancel_def ebind_Inr_iff user_of_def
      override_closed_def split: if_splits dest: find_override_Inr)

lemma created_ok: "create_override dc userId b computed threshold i = Inr x \<Longrightarrow> row_ok x \<and> or_id x = i"
  by (auto simp: create_override_def ebind_Inr_iff Let_def row_ok_def approved_by_other_iff split: if_splits)

lemma step_follows:
  assumes "override_step dc st st'" "overrides_ok st"
  shows "overrides_ok st' \<and> (\<exists>xs. list_all2 row_follows (fst st) (take (length (fst st)) (fst st'))
           \<and> fst st' = take (length (fst st)) (fst st') @ xs)"
  using assms
proof cases
  case (creation userId b computed threshold i x rows qs)
  have "request_ok (rows @ [x]) q" if "request_ok rows q" for q
    using that by (cases q) (auto simp: reads_row_def)
  then show ?thesis
    using creation assms(2) created_ok [OF creation(3)] by (auto simp: overrides_ok_def list_all2_same)
next
  case (reading rows q qs)
  then show ?thesis using assms(2) request_read_ok by (auto simp: overrides_ok_def list_all2_same)
next
  case (writing q qs rows rows')
  have ok: "distinct (map or_id rows)" "\<forall>x \<in> set rows. row_ok x" "request_ok rows q"
    using assms(2) writing(1,3) by (simp_all add: overrides_ok_def)
  note w = write_ok [OF ok writing(4)]
  have "map or_id rows' = map or_id rows"
    using w(1) by (induction rule: list_all2_induct) (auto simp: row_follows_def)
  then have "overrides_ok st'"
    using writing w assms(2) request_ok_follows [OF w(1)] set_remove1_subset [of q qs]
    by (auto simp: overrides_ok_def)
  then show ?thesis using writing w(1) list_all2_lengthD [OF w(1)] by simp
next
  case (refused q qs rows e)
  then show ?thesis
    using assms(2) set_remove1_subset [of q qs] by (auto simp: overrides_ok_def list_all2_same)
qed

lemma overrides_reached: "(override_step dc)\<^sup>*\<^sup>* ([], []) st \<Longrightarrow> overrides_ok st"
proof (induction rule: rtranclp_induct)
  case base
  show ?case by (simp add: overrides_ok_def)
next
  case (step st st')
  then show ?case using step_follows by blast
qed

subsection \<open>Properties\<close>

text \<open>C11: An override that needed a second person had one. Whatever requests were made, by whomever and however
  they interleaved, when the engine applies an override it is an active one of the table, and if it
  was beyond the threshold when it was created, or is at the price of today, a known user other than
  its author approved it.\<close>

theorem applied_override_was_approved:
  assumes "(override_step dc)\<^sup>*\<^sup>* ([], []) (rows, qs)"
    "select_override dc (engine_overrides rows) date computed threshold = Inr sel" "os_applied sel = Some a"
  shows "\<exists>x \<in> set rows. ao_override a = to_engine_override x \<and> or_status x = OV_ACTIVE
     \<and> (or_requiresSecondApproval x \<or> requires_second_approval dc (ao_unitPrice a) computed threshold
          \<longrightarrow> approved_by_other x)"
proof -
  note ok = overrides_reached [OF assms(1)]
  have a: "ao_override a \<in> set (engine_overrides rows)" "guarded dc computed threshold a"
    using select_override_sound [OF assms(2,3)] by blast+
  then obtain x where x: "x \<in> set rows" "or_status x = OV_ACTIVE" "ao_override a = to_engine_override x"
    by (auto simp: engine_overrides_def)
  have "row_ok x" using ok x(1) by (simp add: overrides_ok_def)
  moreover have "or_approvedByUserId x \<noteq> None" if "requires_second_approval dc (ao_unitPrice a) computed threshold"
    using a(2) that x(3) by (auto simp: guarded_def Let_def to_engine_override_def)
  ultimately show ?thesis using x by (auto simp: row_ok_def)
qed

lemma approval_written:
  assumes "write_decision (Approving u seen) rows = Inr rows'" "distinct (map or_id rows)"
    and x: "x \<in> set rows" "or_id x = or_id seen" and y: "y \<in> set rows'" "or_id y = or_id x"
  shows "or_approvedByUserId x = None \<and> or_approvedByUserId y = Some u"
proof -
  let ?P = "\<lambda>x. or_id x = or_id seen \<and> or_status x = or_status seen \<and> or_approvedByUserId x = None"
  let ?g = "\<lambda>x. x\<lparr>or_status := OV_ACTIVE, or_approvedByUserId := Some u\<rparr>"
  have one: "length (filter ?P rows) = 1" and rows': "rows' = map (\<lambda>x. if ?P x then ?g x else x) rows"
    using assms(1) by (auto simp: update_where_def split: if_splits)
  have same: "z = x" if "z \<in> set rows" "or_id z = or_id x" for z
    using that assms(2) x(1) by (auto simp: distinct_map inj_on_def)
  have "\<exists>z. z \<in> set (filter ?P rows)" using one by (cases "filter ?P rows") auto
  then obtain z where "z \<in> set rows" "?P z" by auto
  then have Px: "?P x" using same [of z] x(2) by simp
  obtain w where "w \<in> set rows" "y = (if ?P w then ?g w else w)" using y(1) rows' by auto
  moreover from this have "or_id w = or_id x" using y(2) by (cases "?P w") simp_all
  ultimately have "y = ?g x" using same Px by simp
  with Px show ?thesis by simp
qed

lemma approval_too_late:
  assumes "distinct (map or_id rows)" "y \<in> set rows" "or_approvedByUserId y \<noteq> None" "or_id seen = or_id y"
  shows "write_decision (Approving u seen) rows = Inl OverrideChanged"
proof -
  have "z = y" if "z \<in> set rows" "or_id z = or_id seen" for z
    using that assms(1,2,4) by (auto simp: distinct_map inj_on_def)
  then have "filter (\<lambda>x. or_id x = or_id seen \<and> or_status x = or_status seen \<and> or_approvedByUserId x = None) rows = []"
    using assms(3) by (auto simp: filter_empty_conv)
  then show ?thesis by (simp add: update_where_def)
qed

text \<open>C32: A decision is taken once: whatever request writes next, an override that was rejected or cancelled
  stays exactly as it is, one that was approved keeps its approver, and no decision changes its price,
  its period, its reason or its author. Of two approvals of the same override, whenever they read it, one writes,
  names its approver and found no other; the other answers that the override has changed.\<close>

theorem override_decided_once:
  assumes "(override_step dc)\<^sup>*\<^sup>* ([], []) (rows, qs)" "override_step dc (rows, qs) (rows', qs')" "x \<in> set rows"
  shows "\<exists>y \<in> set rows'. row_follows x y \<and> (\<forall>z \<in> set rows'. or_id z = or_id x \<longrightarrow> z = y)
     \<and> (\<forall>u seen. write_decision (Approving u seen) rows = Inr rows' \<and> or_id seen = or_id x \<longrightarrow>
          or_approvedByUserId x = None \<and> or_approvedByUserId y = Some u)
     \<and> (or_approvedByUserId y \<noteq> None \<longrightarrow>
          (\<forall>u seen. or_id seen = or_id x \<longrightarrow> write_decision (Approving u seen) rows' = Inl OverrideChanged))"
proof -
  note ok = overrides_reached [OF assms(1)]
  obtain xs where f: "list_all2 row_follows rows (take (length rows) rows')" and xs: "rows' = take (length rows) rows' @ xs"
    and ok': "overrides_ok (rows', qs')"
    using step_follows [OF assms(2) ok] by auto
  have d: "distinct (map or_id rows)" "distinct (map or_id rows')" using ok ok' by (simp_all add: overrides_ok_def)
  obtain n where n: "n < length rows" "x = rows ! n" using assms(3) by (auto simp: in_set_conv_nth)
  have len: "length (take (length rows) rows') = length rows" using list_all2_lengthD [OF f] by simp
  let ?y = "take (length rows) rows' ! n"
  have y: "row_follows x ?y" using list_all2_nthD [OF f n(1)] n(2) by simp
  then have id: "or_id ?y = or_id x" by (simp add: row_follows_def)
  have "?y \<in> set (take (length rows) rows')" using n(1) len nth_mem by metis
  then have mem: "?y \<in> set rows'" by (meson in_set_takeD)
  have "z = ?y" if "z \<in> set rows'" "or_id z = or_id x" for z
    using that mem d(2) id by (auto simp: distinct_map inj_on_def)
  moreover have "or_approvedByUserId x = None \<and> or_approvedByUserId ?y = Some u"
    if "write_decision (Approving u seen) rows = Inr rows'" "or_id seen = or_id x" for u seen
    using approval_written [OF that(1) d(1) assms(3) that(2) [symmetric] mem id] .
  moreover have "write_decision (Approving u seen) rows' = Inl OverrideChanged"
    if "or_approvedByUserId ?y \<noteq> None" "or_id seen = or_id x" for u seen
    using approval_too_late [OF d(2) mem that(1)] that(2) id by simp
  ultimately show ?thesis using y mem by blast
qed

subsection \<open>Example\<close>

text \<open>A price of 30 brought to 20 for June: waiting, then approved by another user.\<close>

definition june_body :: override_body where
  "june_body =
     \<lparr>ob_lineKey = ''poste'', ob_unitPrice = ''20'', ob_validFrom = ''2025-06-01'', ob_validTo = ''2025-06-30'',
      ob_reason = ''promo''\<rparr>"

definition alice :: string where "alice = ''00000000-0000-4000-8000-00000000000a''"

definition bob :: string where "bob = ''00000000-0000-4000-8000-00000000000b''"

definition june_row :: override_row where
  "june_row =
     \<lparr>or_id = ''o1'', or_lineKey = ''poste'', or_unitPrice = ''20'', or_validFrom = ''2025-06-01'',
      or_validTo = ''2025-06-30'', or_reason = ''promo'', or_computedUnitPrice = ''30'',
      or_gapPercent = gap_column rat_ops (override_gap_percent rat_ops 20 30), or_requiresSecondApproval = True,
      or_status = OV_PENDING_APPROVAL, or_authorUserId = alice, or_approvedByUserId = None,
      or_rejectedByUserId = None, or_rejectionReason = None, or_cancelledByUserId = None\<rparr>"

definition june_approved :: override_row where
  "june_approved = june_row\<lparr>or_status := OV_ACTIVE, or_approvedByUserId := Some bob\<rparr>"

lemma june_reads:
  "is_user_id alice" "is_user_id bob" "alice \<noteq> bob" "dec_of_string rat_ops ''20'' = 20" "dec_of_string rat_ops ''30'' = 30"
  "dec_of_string rat_ops ''10'' = 10"
  "validate_override rat_ops
     \<lparr>po_id = ''new'', po_lineId = ''poste'', po_unitPrice = ''20'', po_validFrom = ''2025-06-01'',
      po_validTo = ''2025-06-30'', po_reason = ''promo'', po_authorId = alice, po_approvedBy = None\<rparr> = []"
  by code_simp+

lemma june_created: "create_override rat_ops alice june_body ''30'' ''10'' ''o1'' = Inr june_row"
  by (simp add: create_override_def user_of_def june_reads june_body_def promo_gap Let_def)
    (simp add: june_row_def june_reads)

lemma june_decided:
  "read_approve [june_row] bob ''o1'' = Inr (Approving bob june_row)"
  "write_decision (Approving bob june_row) [june_row] = Inr [june_approved]"
  using june_reads(3) by (auto simp: read_approve_def user_of_def june_reads find_override_def update_where_def june_row_def june_approved_def)

lemma june_steps:
  "(override_step rat_ops)\<^sup>*\<^sup>* ([], []) ([june_row], [Approving bob june_row])"
  "override_step rat_ops ([june_row], [Approving bob june_row]) ([june_approved], [])"
proof -
  have "override_step rat_ops ([], []) ([june_row], [])"
    using override_step.creation [OF june_created, where rows = "[]" and qs = "[]"] by simp
  moreover have "override_step rat_ops ([june_row], []) ([june_row], [Approving bob june_row])"
    using june_decided(1) by (intro override_step.reading) (unfold request_read_def, blast)
  ultimately show "(override_step rat_ops)\<^sup>*\<^sup>* ([], []) ([june_row], [Approving bob june_row])"
    by (meson converse_rtranclp_into_rtranclp rtranclp.rtrancl_refl)
  show "override_step rat_ops ([june_row], [Approving bob june_row]) ([june_approved], [])"
    using override_step.writing [OF _ june_decided(2), where qs = "[Approving bob june_row]"] by simp
qed

lemma june_applied:
  "\<exists>sel a. select_override rat_ops (engine_overrides [june_approved]) ''2025-06-15'' 30 10 = Inr sel \<and> os_applied sel = Some a
     \<and> requires_second_approval rat_ops (ao_unitPrice a) 30 10"
proof -
  have e: "engine_overrides [june_approved] = [to_engine_override june_approved]"
    by (simp add: engine_overrides_def june_approved_def)
  have june: "''2025-06-01'' \<le> ''2025-06-15''" "''2025-06-15'' \<le> ''2025-06-30''" "\<not> js_blank ''promo''" "bob \<noteq> []"
    by code_simp+
  have f: "po_unitPrice (to_engine_override june_approved) = ''20''" "po_reason (to_engine_override june_approved) = ''promo''"
    "po_approvedBy (to_engine_override june_approved) = Some bob" "po_authorId (to_engine_override june_approved) = alice"
    "applicable_on (to_engine_override june_approved) ''2025-06-15''"
    using june by (simp_all add: to_engine_override_def june_approved_def june_row_def applicable_on_def)
  have x: "examine_override rat_ops 30 10 (to_engine_override june_approved)
     = Inr (Inr \<lparr>ao_override = to_engine_override june_approved, ao_unitPrice = 20,
                ao_gapPercent = override_gap_percent rat_ops 20 30, ao_requiresSecondApproval = True\<rparr>)"
    using june_reads(3) f june by (simp add: examine_override_def promo_price promo_gap js_falsy_def)
  show ?thesis
    by (simp add: select_override_def e f x same_start_def requires_second_approval_def promo_gap)
qed

theorem applied_override_was_approved_witness:
  "\<exists>sel a. select_override rat_ops (engine_overrides [june_approved]) ''2025-06-15'' 30 10 = Inr sel
     \<and> os_applied sel = Some a \<and> ao_override a = to_engine_override june_approved \<and> approved_by_other june_approved"
proof -
  obtain sel a where s: "select_override rat_ops (engine_overrides [june_approved]) ''2025-06-15'' 30 10 = Inr sel"
      "os_applied sel = Some a" "requires_second_approval rat_ops (ao_unitPrice a) 30 10"
    using june_applied by (elim exE conjE)
  have "(override_step rat_ops)\<^sup>*\<^sup>* ([], []) ([june_approved], [])"
    using june_steps by (rule rtranclp.rtrancl_into_rtrancl)
  from applied_override_was_approved [OF this s(1,2)] s show ?thesis by auto
qed

theorem override_decided_once_witness:
  "\<exists>y. row_follows june_row y \<and> or_approvedByUserId y = Some bob
     \<and> write_decision (Approving alice june_row) [june_approved] = Inl OverrideChanged"
proof -
  have "june_row \<in> set [june_row]" by simp
  from override_decided_once [OF june_steps this] obtain y where
    "row_follows june_row y" "y \<in> set [june_approved]"
    "or_approvedByUserId y \<noteq> None \<longrightarrow>
       (\<forall>u seen. or_id seen = or_id june_row \<longrightarrow> write_decision (Approving u seen) [june_approved] = Inl OverrideChanged)"
    by blast
  then show ?thesis by (auto simp: june_approved_def simp del: write_decision.simps)
qed

end
