(* ===== verification/WebhookDelivery.thy ===== *)
theory WebhookDelivery
  imports Prelude JsDate
begin

text \<open>
  The delivery of the outgoing webhooks: \<open>apps/api/src/webhooks-out\<close> (\<open>backoff.ts\<close>,
  \<open>webhook-delivery.service.ts\<close>, and of \<open>webhooks-admin.service.ts\<close> what changes deliveries and
  subscriptions). An attempt reserves the delivery, sends, and records the result; the three are
  separate transactions, and workers interleave between them. What the consumer answers is given,
  and so are the clocks. The rows a publication adds are those of the SQL function of the outbox.
\<close>

subsection \<open>Retries\<close>

definition RETRY_DELAYS_MS :: "int list" where
  "RETRY_DELAYS_MS = [60000, 5 * 60000, 30 * 60000, 2 * 60 * 60000, 12 * 60 * 60000]"

definition MAX_ATTEMPTS :: nat where
  "MAX_ATTEMPTS = length RETRY_DELAYS_MS + 1"

definition next_attempt_after_failure :: "nat \<Rightarrow> jsdate \<Rightarrow> jsdate option" where
  "next_attempt_after_failure attempt now =
     (if 1 \<le> attempt \<and> attempt - 1 < length RETRY_DELAYS_MS
      then Some (now + RETRY_DELAYS_MS ! (attempt - 1)) else None)"

text \<open>\<open>Number(env ?? '20')\<close> when it is an integer.\<close>

definition disable_after_dead :: "int option \<Rightarrow> nat" where
  "disable_after_dead n = (case n of Some k \<Rightarrow> if 1 \<le> k then nat k else 20 | None \<Rightarrow> 20)"

definition LEASE_MS :: int where
  "LEASE_MS = 2 * 60000"

subsection \<open>Rows\<close>

datatype delivery_status = WD_PENDING | WD_DELIVERED | WD_FAILED | WD_DEAD

record delivery =
  dv_id :: string
  dv_subscriptionId :: string
  dv_status :: delivery_status
  dv_attempt :: nat
  dv_nextAttemptAt :: "jsdate option"
  dv_deliveredAt :: "jsdate option"
  dv_responseStatus :: "int option"

record subscription =
  su_id :: string
  su_active :: bool
  su_consecutiveFailures :: nat
  su_disabledAt :: "jsdate option"

record webhook_state =
  ws_deliveries :: "delivery list"
  ws_subscriptions :: "subscription list"

definition to_be_tried :: "delivery \<Rightarrow> bool" where
  "to_be_tried d \<longleftrightarrow> dv_status d = WD_PENDING \<or> dv_status d = WD_FAILED"

definition find_delivery :: "webhook_state \<Rightarrow> string \<Rightarrow> delivery option" where
  "find_delivery st i = List.find (\<lambda>d. dv_id d = i) (ws_deliveries st)"

definition find_subscription :: "webhook_state \<Rightarrow> string \<Rightarrow> subscription option" where
  "find_subscription st i = List.find (\<lambda>s. su_id s = i) (ws_subscriptions st)"

definition update_delivery :: "string \<Rightarrow> (delivery \<Rightarrow> delivery) \<Rightarrow> webhook_state \<Rightarrow> webhook_state" where
  "update_delivery i g st = st\<lparr>ws_deliveries := map (\<lambda>d. if dv_id d = i then g d else d) (ws_deliveries st)\<rparr>"

definition update_subscription :: "string \<Rightarrow> (subscription \<Rightarrow> subscription) \<Rightarrow> webhook_state \<Rightarrow> webhook_state" where
  "update_subscription i g st = st\<lparr>ws_subscriptions := map (\<lambda>s. if su_id s = i then g s else s) (ws_subscriptions st)\<rparr>"

subsection \<open>An attempt\<close>

datatype attempt_outcome = O_DELIVERED | O_FAILED | O_DEAD | O_SKIPPED

text \<open>The answer of the consumer: its HTTP status, or an exception before any.\<close>

datatype send_result = Answered int | SendError

definition send_failed :: "send_result \<Rightarrow> bool" where
  "send_failed r = (case r of SendError \<Rightarrow> True | Answered s \<Rightarrow> s < 200 \<or> s \<ge> 300)"

definition response_status :: "send_result \<Rightarrow> int option" where
  "response_status r = (case r of SendError \<Rightarrow> None | Answered s \<Rightarrow> Some s)"

text \<open>The reservation: the due date read, then an update under the condition that it is still that one.\<close>

definition seen_due :: "webhook_state \<Rightarrow> string \<Rightarrow> jsdate \<Rightarrow> bool \<Rightarrow> jsdate option" where
  "seen_due st i now force =
     (case find_delivery st i of
        None \<Rightarrow> None
      | Some d \<Rightarrow>
          (case find_subscription st (dv_subscriptionId d) of
             None \<Rightarrow> None
           | Some s \<Rightarrow>
               if \<not> to_be_tried d \<or> \<not> su_active s then None
               else (case dv_nextAttemptAt d of
                       None \<Rightarrow> None
                     | Some t \<Rightarrow> if \<not> force \<and> now < t then None else Some t)))"

definition reserve :: "webhook_state \<Rightarrow> string \<Rightarrow> jsdate \<Rightarrow> jsdate \<Rightarrow> (delivery \<times> webhook_state) option" where
  "reserve st i seen now =
     (case find_delivery st i of
        None \<Rightarrow> None
      | Some d \<Rightarrow>
          if to_be_tried d \<and> dv_nextAttemptAt d = Some seen
          then let g = (\<lambda>d. d\<lparr>dv_nextAttemptAt := Some (max now seen + LEASE_MS)\<rparr>)
               in Some (g d, update_delivery i g st)
          else None)"

definition record_result ::
    "nat \<Rightarrow> delivery \<Rightarrow> send_result \<Rightarrow> jsdate \<Rightarrow> webhook_state \<Rightarrow> attempt_outcome \<times> webhook_state" where
  "record_result threshold claimed r finished st =
     (let attempt = dv_attempt claimed + 1; i = dv_id claimed; sub = dv_subscriptionId claimed in
      if \<not> send_failed r then
        (O_DELIVERED,
         update_subscription sub (\<lambda>s. s\<lparr>su_consecutiveFailures := 0\<rparr>)
          (update_delivery i (\<lambda>d. d\<lparr>dv_status := WD_DELIVERED, dv_attempt := attempt, dv_nextAttemptAt := None,
              dv_deliveredAt := Some finished, dv_responseStatus := response_status r\<rparr>) st))
      else
        let retry = next_attempt_after_failure attempt finished;
            st1 = update_delivery i (\<lambda>d. d\<lparr>dv_status := (if retry \<noteq> None then WD_FAILED else WD_DEAD),
              dv_attempt := attempt, dv_nextAttemptAt := retry, dv_responseStatus := response_status r\<rparr>) st
        in if retry \<noteq> None then (O_FAILED, st1)
           else (O_DEAD, update_subscription sub
             (\<lambda>s. let n = su_consecutiveFailures s + 1 in
               if \<not> su_active s \<or> n < threshold then s\<lparr>su_consecutiveFailures := n\<rparr>
               else s\<lparr>su_consecutiveFailures := n, su_active := False, su_disabledAt := Some finished\<rparr>) st1))"

text \<open>\<open>attempt\<close>, alone: reservation, sending, recording; it returns nothing when the process dies during the
  sending (there is then no answer to record, and only the lease is written).\<close>

definition attempt_delivery ::
    "nat \<Rightarrow> webhook_state \<Rightarrow> string \<Rightarrow> jsdate \<Rightarrow> bool \<Rightarrow> send_result option \<Rightarrow> jsdate
      \<Rightarrow> attempt_outcome option \<times> webhook_state" where
  "attempt_delivery threshold st i now force r finished =
     (case Option.bind (seen_due st i now force) (\<lambda>seen. reserve st i seen now) of
        None \<Rightarrow> (Some O_SKIPPED, st)
      | Some (claimed, st1) \<Rightarrow>
          (case r of
             None \<Rightarrow> (None, st1)
           | Some r \<Rightarrow> (let (x, st2) = record_result threshold claimed r finished st1 in (Some x, st2))))"

text \<open>A pass of the job, or any series of attempts: the delivery, its clocks, whether it is forced, the answer if
  the process lived to record it.\<close>

type_synonym delivery_call = "string \<times> jsdate \<times> bool \<times> send_result option \<times> jsdate"

fun deliver_all :: "nat \<Rightarrow> webhook_state \<Rightarrow> delivery_call list \<Rightarrow> (string \<times> attempt_outcome option) list \<times> webhook_state" where
  "deliver_all threshold st [] = ([], st)"
| "deliver_all threshold st ((i, now, force, r, finished) # calls) =
     (let (x, st1) = attempt_delivery threshold st i now force r finished;
          (xs, st2) = deliver_all threshold st1 calls
      in ((i, x) # xs, st2))"

subsection \<open>Administration\<close>

datatype webhook_failure = SubscriptionNotFound | DeliveryNotFound | SubscriptionDisabled

definition set_active :: "webhook_state \<Rightarrow> string \<Rightarrow> bool \<Rightarrow> jsdate \<Rightarrow> webhook_failure + webhook_state" where
  "set_active st i active now =
     (case find_subscription st i of
        None \<Rightarrow> Inl SubscriptionNotFound
      | Some s \<Rightarrow> Inr (update_subscription i (\<lambda>s.
          if active then s\<lparr>su_active := True, su_disabledAt := None, su_consecutiveFailures := 0\<rparr>
          else s\<lparr>su_active := False, su_disabledAt := Some now\<rparr>) st))"

text \<open>The first half of \<open>redeliver\<close>; the second is a forced attempt.\<close>

definition reset_delivery :: "webhook_state \<Rightarrow> string \<Rightarrow> jsdate \<Rightarrow> webhook_failure + webhook_state" where
  "reset_delivery st i now =
     (case find_delivery st i of
        None \<Rightarrow> Inl DeliveryNotFound
      | Some d \<Rightarrow>
          (case find_subscription st (dv_subscriptionId d) of
             None \<Rightarrow> Inl DeliveryNotFound
           | Some s \<Rightarrow>
               if \<not> su_active s then Inl SubscriptionDisabled
               else Inr (update_delivery i (\<lambda>d. d\<lparr>dv_status := WD_PENDING, dv_attempt := 0,
                           dv_nextAttemptAt := Some now, dv_deliveredAt := None\<rparr>) st)))"

definition publish_to :: "webhook_state \<Rightarrow> string \<Rightarrow> string \<Rightarrow> jsdate \<Rightarrow> webhook_state" where
  "publish_to st sub i now =
     st\<lparr>ws_deliveries := ws_deliveries st @ [\<lparr>dv_id = i, dv_subscriptionId = sub, dv_status = WD_PENDING, dv_attempt = 0,
          dv_nextAttemptAt = Some now, dv_deliveredAt = None, dv_responseStatus = None\<rparr>]\<rparr>"

definition subscribe :: "webhook_state \<Rightarrow> string \<Rightarrow> webhook_state" where
  "subscribe st i =
     st\<lparr>ws_subscriptions := ws_subscriptions st @
          [\<lparr>su_id = i, su_active = True, su_consecutiveFailures = 0, su_disabledAt = None\<rparr>]\<rparr>"

subsection \<open>Interleaved workers\<close>

text \<open>The due dates read and not yet reserved, and the deliveries being sent.\<close>

type_synonym worker_state = "webhook_state \<times> (string \<times> jsdate) list \<times> delivery list"

inductive webhook_step :: "nat \<Rightarrow> worker_state \<Rightarrow> worker_state \<Rightarrow> bool" for threshold where
  subscribed: "i \<notin> su_id ` set (ws_subscriptions st) \<Longrightarrow> webhook_step threshold (st, ss, cs) (subscribe st i, ss, cs)"
| published: "i \<notin> dv_id ` set (ws_deliveries st) \<Longrightarrow> webhook_step threshold (st, ss, cs) (publish_to st sub i now, ss, cs)"
| switched: "set_active st i active now = Inr st' \<Longrightarrow> webhook_step threshold (st, ss, cs) (st', ss, cs)"
| redelivered: "reset_delivery st i now = Inr st' \<Longrightarrow> webhook_step threshold (st, ss, cs) (st', ss, cs)"
| seen: "seen_due st i now force = Some t \<Longrightarrow> webhook_step threshold (st, ss, cs) (st, (i, t) # ss, cs)"
| reserved: "(i, t) \<in> set ss \<Longrightarrow> reserve st i t now = Some (c, st') \<Longrightarrow>
     webhook_step threshold (st, ss, cs) (st', remove1 (i, t) ss, c # cs)"
| not_reserved: "(i, t) \<in> set ss \<Longrightarrow> reserve st i t now = None \<Longrightarrow>
     webhook_step threshold (st, ss, cs) (st, remove1 (i, t) ss, cs)"
| recorded: "c \<in> set cs \<Longrightarrow> record_result threshold c r finished st = (x, st') \<Longrightarrow>
     webhook_step threshold (st, ss, cs) (st', ss, remove1 c cs)"
| lost: "c \<in> set cs \<Longrightarrow> webhook_step threshold (st, ss, cs) (st, ss, remove1 c cs)"

definition delivery_ok :: "delivery \<Rightarrow> bool" where
  "delivery_ok d \<longleftrightarrow>
     (if to_be_tried d then dv_attempt d < MAX_ATTEMPTS \<and> dv_nextAttemptAt d \<noteq> None
      else dv_attempt d \<le> MAX_ATTEMPTS \<and> dv_nextAttemptAt d = None)
     \<and> (dv_status d = WD_DEAD \<longrightarrow> dv_attempt d = MAX_ATTEMPTS)
     \<and> (dv_status d = WD_DELIVERED \<longrightarrow> dv_deliveredAt d \<noteq> None \<and> 1 \<le> dv_attempt d)"

definition subscription_ok :: "nat \<Rightarrow> subscription \<Rightarrow> bool" where
  "subscription_ok threshold s \<longleftrightarrow>
     (if su_active s then su_consecutiveFailures s < threshold \<and> su_disabledAt s = None else su_disabledAt s \<noteq> None)"

definition webhooks_ok :: "nat \<Rightarrow> worker_state \<Rightarrow> bool" where
  "webhooks_ok threshold ws \<longleftrightarrow>
     distinct (map dv_id (ws_deliveries (fst ws))) \<and>
     (\<forall>d \<in> set (ws_deliveries (fst ws)). delivery_ok d)
     \<and> (\<forall>s \<in> set (ws_subscriptions (fst ws)). subscription_ok threshold s)
     \<and> (\<forall>c \<in> set (snd (snd ws)). dv_attempt c < MAX_ATTEMPTS)"

lemma next_attempt_iff:
  "next_attempt_after_failure (Suc n) t = None \<longleftrightarrow> MAX_ATTEMPTS \<le> Suc n"
  by (simp add: next_attempt_after_failure_def MAX_ATTEMPTS_def)

lemma update_simps [simp]:
  "ws_subscriptions (update_delivery i g st) = ws_subscriptions st"
  "ws_deliveries (update_subscription j h st) = ws_deliveries st"
  by (simp_all add: update_delivery_def update_subscription_def)

lemma update_delivery_all:
  "(\<And>d. P d \<Longrightarrow> P (g d)) \<Longrightarrow> \<forall>d \<in> set (ws_deliveries st). P d \<Longrightarrow>
     \<forall>d \<in> set (ws_deliveries (update_delivery i g st)). P d"
  by (auto simp: update_delivery_def)

lemma update_subscription_all:
  "(\<And>s. P s \<Longrightarrow> P (g s)) \<Longrightarrow> \<forall>s \<in> set (ws_subscriptions st). P s \<Longrightarrow>
     \<forall>s \<in> set (ws_subscriptions (update_subscription i g st)). P s"
  by (auto simp: update_subscription_def)

lemma reserve_Some:
  "reserve st i t now = Some (c, st') \<Longrightarrow>
     \<exists>d. find_delivery st i = Some d \<and> to_be_tried d \<and> dv_nextAttemptAt d = Some t
       \<and> c = d\<lparr>dv_nextAttemptAt := Some (max now t + LEASE_MS)\<rparr>
       \<and> st' = update_delivery i (\<lambda>d. d\<lparr>dv_nextAttemptAt := Some (max now t + LEASE_MS)\<rparr>) st"
  by (auto simp: reserve_def Let_def split: option.splits if_splits)

lemma find_delivery_in: "find_delivery st i = Some d \<Longrightarrow> d \<in> set (ws_deliveries st) \<and> dv_id d = i"
  by (auto simp: find_delivery_def find_Some_iff)

lemma ids_kept: "(\<And>d. dv_id (g d) = dv_id d) \<Longrightarrow> map dv_id (ws_deliveries (update_delivery i g st)) = map dv_id (ws_deliveries st)"
  by (simp add: update_delivery_def)

lemma same_delivery:
  "distinct (map dv_id (ws_deliveries st)) \<Longrightarrow> find_delivery st i = Some d \<Longrightarrow> e \<in> set (ws_deliveries st) \<Longrightarrow> dv_id e = i \<Longrightarrow> e = d"
  using find_delivery_in [of st i d] by (auto simp: distinct_map inj_on_def)

lemma record_success_ok:
  assumes "\<not> send_failed r" "record_result threshold c r finished st = (x, st')" "dv_attempt c < MAX_ATTEMPTS" "1 \<le> threshold"
    and d: "\<forall>d \<in> set (ws_deliveries st). delivery_ok d" "\<forall>s \<in> set (ws_subscriptions st). subscription_ok threshold s"
  shows "(\<forall>d \<in> set (ws_deliveries st'). delivery_ok d) \<and> (\<forall>s \<in> set (ws_subscriptions st'). subscription_ok threshold s)
    \<and> map dv_id (ws_deliveries st') = map dv_id (ws_deliveries st)"
proof -
  have st': "st' = update_subscription (dv_subscriptionId c) (\<lambda>s. s\<lparr>su_consecutiveFailures := 0\<rparr>)
       (update_delivery (dv_id c) (\<lambda>d. d\<lparr>dv_status := WD_DELIVERED, dv_attempt := Suc (dv_attempt c), dv_nextAttemptAt := None,
            dv_deliveredAt := Some finished, dv_responseStatus := response_status r\<rparr>) st)"
    using assms(1,2) by (simp add: record_result_def Let_def)
  show ?thesis
    unfolding st' using assms(3,4) d
    by (auto simp: ids_kept delivery_ok_def to_be_tried_def subscription_ok_def update_delivery_def update_subscription_def)
qed

lemma record_failure_ok:
  assumes "send_failed r" "record_result threshold c r finished st = (x, st')" "dv_attempt c < MAX_ATTEMPTS"
    and d: "\<forall>d \<in> set (ws_deliveries st). delivery_ok d" "\<forall>s \<in> set (ws_subscriptions st). subscription_ok threshold s"
  shows "(\<forall>d \<in> set (ws_deliveries st'). delivery_ok d) \<and> (\<forall>s \<in> set (ws_subscriptions st'). subscription_ok threshold s)
    \<and> map dv_id (ws_deliveries st') = map dv_id (ws_deliveries st)"
proof -
  let ?n = "Suc (dv_attempt c)"
  let ?retry = "next_attempt_after_failure ?n finished"
  let ?g = "\<lambda>d. d\<lparr>dv_status := (if ?retry \<noteq> None then WD_FAILED else WD_DEAD),
            dv_attempt := ?n, dv_nextAttemptAt := ?retry, dv_responseStatus := response_status r\<rparr>"
  have del: "\<forall>d \<in> set (ws_deliveries (update_delivery (dv_id c) ?g st)). delivery_ok d"
    using assms(3) next_attempt_iff [of "dv_attempt c" finished]
    by (intro update_delivery_all [OF _ d(1)]) (auto simp: delivery_ok_def to_be_tried_def)
  have "st' = update_delivery (dv_id c) ?g st \<or> (\<exists>h. st' = update_subscription (dv_subscriptionId c) h (update_delivery (dv_id c) ?g st)
      \<and> (\<forall>s. subscription_ok threshold s \<longrightarrow> subscription_ok threshold (h s)))"
  proof (cases ?retry)
    case None
    let ?h = "\<lambda>s. let n = su_consecutiveFailures s + 1 in
               if \<not> su_active s \<or> n < threshold then s\<lparr>su_consecutiveFailures := n\<rparr>
               else s\<lparr>su_consecutiveFailures := n, su_active := False, su_disabledAt := Some finished\<rparr>"
    have "st' = update_subscription (dv_subscriptionId c) ?h (update_delivery (dv_id c) ?g st)"
      using None assms(1,2) by (simp add: record_result_def Let_def)
    moreover have "\<forall>s. subscription_ok threshold s \<longrightarrow> subscription_ok threshold (?h s)"
      by (simp add: subscription_ok_def Let_def)
    ultimately show ?thesis by blast
  next
    case (Some t)
    with assms(1,2) show ?thesis by (simp add: record_result_def Let_def)
  qed
  then show ?thesis
  proof
    assume "st' = update_delivery (dv_id c) ?g st"
    then show ?thesis using del d(2) by (simp add: ids_kept)
  next
    assume "\<exists>h. st' = update_subscription (dv_subscriptionId c) h (update_delivery (dv_id c) ?g st)
      \<and> (\<forall>s. subscription_ok threshold s \<longrightarrow> subscription_ok threshold (h s))"
    then obtain h where h: "st' = update_subscription (dv_subscriptionId c) h (update_delivery (dv_id c) ?g st)"
      "\<And>s. subscription_ok threshold s \<Longrightarrow> subscription_ok threshold (h s)" by blast
    have "\<forall>s \<in> set (ws_subscriptions st'). subscription_ok threshold s"
      unfolding h(1) using d(2) by (intro update_subscription_all [where P = "subscription_ok threshold"]) (simp_all add: h(2))
    then show ?thesis using del by (simp add: h(1) ids_kept)
  qed
qed

lemma record_ok:
  assumes "record_result threshold c r finished st = (x, st')" "dv_attempt c < MAX_ATTEMPTS" "1 \<le> threshold"
    "\<forall>d \<in> set (ws_deliveries st). delivery_ok d" "\<forall>s \<in> set (ws_subscriptions st). subscription_ok threshold s"
  shows "(\<forall>d \<in> set (ws_deliveries st'). delivery_ok d) \<and> (\<forall>s \<in> set (ws_subscriptions st'). subscription_ok threshold s)
    \<and> map dv_id (ws_deliveries st') = map dv_id (ws_deliveries st)"
  using record_success_ok [OF _ assms] record_failure_ok [OF _ assms(1,2,4,5)] by blast

lemma reserve_ok:
  assumes "reserve st i t now = Some (c, st')" "distinct (map dv_id (ws_deliveries st))" "\<forall>d \<in> set (ws_deliveries st). delivery_ok d"
  shows "dv_attempt c < MAX_ATTEMPTS" "\<forall>d \<in> set (ws_deliveries st'). delivery_ok d" "ws_subscriptions st' = ws_subscriptions st"
    "map dv_id (ws_deliveries st') = map dv_id (ws_deliveries st)"
proof -
  obtain d where d: "find_delivery st i = Some d" "to_be_tried d" "c = d\<lparr>dv_nextAttemptAt := Some (max now t + LEASE_MS)\<rparr>"
      "st' = update_delivery i (\<lambda>d. d\<lparr>dv_nextAttemptAt := Some (max now t + LEASE_MS)\<rparr>) st"
    using reserve_Some [OF assms(1)] by blast
  then show "dv_attempt c < MAX_ATTEMPTS" using assms(3) find_delivery_in [OF d(1)] by (auto simp: delivery_ok_def)
  have "delivery_ok (e\<lparr>dv_nextAttemptAt := Some (max now t + LEASE_MS)\<rparr>)" if "e \<in> set (ws_deliveries st)" "dv_id e = i" for e
    using same_delivery [OF assms(2) d(1) that] d(2) assms(3) that(1) by (auto simp: delivery_ok_def to_be_tried_def)
  then show "\<forall>d \<in> set (ws_deliveries st'). delivery_ok d"
    using assms(3) by (auto simp: d(4) update_delivery_def)
  show "ws_subscriptions st' = ws_subscriptions st" "map dv_id (ws_deliveries st') = map dv_id (ws_deliveries st)"
    by (simp_all add: d(4) ids_kept)
qed

lemma webhook_step_ok:
  assumes "webhook_step threshold ws ws'" "1 \<le> threshold" "webhooks_ok threshold ws"
  shows "webhooks_ok threshold ws'"
  using assms(1)
proof cases
  case (subscribed i st ss cs)
  with assms show ?thesis by (auto simp: webhooks_ok_def subscribe_def subscription_ok_def)
next
  case (published i st ss cs sub now)
  with assms show ?thesis
    by (auto simp: webhooks_ok_def publish_to_def delivery_ok_def to_be_tried_def MAX_ATTEMPTS_def)
next
  case (switched st i active now st' ss cs)
  have "\<forall>s \<in> set (ws_subscriptions st'). subscription_ok threshold s" "ws_deliveries st' = ws_deliveries st"
    using switched(3) assms(2,3) unfolding webhooks_ok_def switched(1)
    by (auto simp: set_active_def subscription_ok_def update_subscription_def split: option.splits if_splits)
  with switched assms(3) show ?thesis by (auto simp: webhooks_ok_def)
next
  case (redelivered st i now st' ss cs)
  let ?g = "\<lambda>d. d\<lparr>dv_status := WD_PENDING, dv_attempt := 0, dv_nextAttemptAt := Some now, dv_deliveredAt := None\<rparr>"
  have st': "st' = update_delivery i ?g st"
    using redelivered(3) by (auto simp: reset_delivery_def split: option.splits if_splits)
  have "\<forall>d \<in> set (ws_deliveries st'). delivery_ok d"
    using redelivered(1) assms(3) unfolding st' webhooks_ok_def
    by (intro update_delivery_all) (auto simp: delivery_ok_def to_be_tried_def MAX_ATTEMPTS_def)
  with redelivered assms(3) show ?thesis by (auto simp: webhooks_ok_def st' ids_kept)
next
  case (reserved i t ss st now c st' cs)
  with assms(3) reserve_ok [OF reserved(4)] show ?thesis by (auto simp: webhooks_ok_def)
next
  case (recorded c cs r finished st x st' ss)
  have c: "dv_attempt c < MAX_ATTEMPTS" using assms(3) recorded(1,3) by (auto simp: webhooks_ok_def)
  have "\<forall>d \<in> set (ws_deliveries st'). delivery_ok d" "\<forall>s \<in> set (ws_subscriptions st'). subscription_ok threshold s"
    "map dv_id (ws_deliveries st') = map dv_id (ws_deliveries st)"
    using record_ok [OF recorded(4) c assms(2)] assms(3) recorded(1) by (simp_all add: webhooks_ok_def)
  then show ?thesis using recorded assms(3) set_remove1_subset [of c cs] by (auto simp: webhooks_ok_def)
next
  case (lost c cs st ss)
  then show ?thesis using assms(3) set_remove1_subset [of c cs] by (auto simp: webhooks_ok_def)
qed (use assms(3) in \<open>auto simp: webhooks_ok_def\<close>)

definition no_webhooks :: worker_state where
  "no_webhooks = (\<lparr>ws_deliveries = [], ws_subscriptions = []\<rparr>, [], [])"

lemma webhooks_reached:
  assumes "(webhook_step threshold)\<^sup>*\<^sup>* no_webhooks ws" "1 \<le> threshold"
  shows "webhooks_ok threshold ws"
  using assms(1)
proof (induction rule: rtranclp_induct)
  case base
  show ?case by (simp add: webhooks_ok_def no_webhooks_def)
next
  case (step ws ws')
  then show ?case using webhook_step_ok assms(2) by blast
qed


subsection \<open>The attempts end\<close>


lemma find_update:
  "(\<And>d. dv_id (g d) = dv_id d) \<Longrightarrow> find_delivery (update_delivery i g st) j =
     map_option (\<lambda>d. if j = i then g d else d) (find_delivery st j)"
proof -
  assume g: "\<And>d. dv_id (g d) = dv_id d"
  have "List.find (\<lambda>d. dv_id d = j) (map (\<lambda>d. if dv_id d = i then g d else d) ds) =
     map_option (\<lambda>d. if j = i then g d else d) (List.find (\<lambda>d. dv_id d = j) ds)" for ds :: "delivery list"
    by (induction ds) (auto simp: g)
  then show ?thesis by (simp add: find_delivery_def update_delivery_def)
qed

lemma find_update_subscription [simp]: "find_delivery (update_subscription k h st) j = find_delivery st j"
  by (simp add: find_delivery_def)












text \<open>How a subscription stops being active.\<close>

lemma find_subscription_update:
  "(\<And>s. su_id (h s) = su_id s) \<Longrightarrow> find_subscription (update_subscription k h st) i =
     map_option (\<lambda>s. if i = k then h s else s) (find_subscription st i)"
proof -
  assume h: "\<And>s. su_id (h s) = su_id s"
  have "List.find (\<lambda>s. su_id s = i) (map (\<lambda>s. if su_id s = k then h s else s) ss) =
     map_option (\<lambda>s. if i = k then h s else s) (List.find (\<lambda>s. su_id s = i) ss)" for ss
    by (induction ss) (auto simp: h)
  then show ?thesis by (simp add: find_subscription_def update_subscription_def)
qed

lemma find_subscription_kept [simp]: "find_subscription (update_delivery i g st) = find_subscription st"
  by (rule ext) (simp add: find_subscription_def)

lemma find_append_kept: "List.find P xs = Some x \<Longrightarrow> List.find P (xs @ ys) = Some x"
  by (induction xs) (auto split: if_splits)

definition disabled_by_deaths :: "nat \<Rightarrow> webhook_state \<Rightarrow> webhook_state \<Rightarrow> subscription \<Rightarrow> subscription \<Rightarrow> bool" where
  "disabled_by_deaths threshold st st' s s' \<longleftrightarrow>
     (\<exists>c r finished. dv_subscriptionId c = su_id s \<and> record_result threshold c r finished st = (O_DEAD, st')
        \<and> su_consecutiveFailures s + 1 = threshold \<and> su_disabledAt s' = Some finished)"

lemma record_disables:
  assumes r: "record_result threshold c r finished st = (x, st')"
    and s: "find_subscription st i = Some s" "find_subscription st' i = Some s'"
    and a: "su_active s" "\<not> su_active s'" "su_consecutiveFailures s < threshold"
  shows "disabled_by_deaths threshold st st' s s'"
proof -
  let ?h = "\<lambda>s. let n = su_consecutiveFailures s + 1 in
               if \<not> su_active s \<or> n < threshold then s\<lparr>su_consecutiveFailures := n\<rparr>
               else s\<lparr>su_consecutiveFailures := n, su_active := False, su_disabledAt := Some finished\<rparr>"
  have id: "su_id s = i" using s(1) by (auto simp: find_subscription_def find_Some_iff)
  consider g where "st' = update_subscription (dv_subscriptionId c) (\<lambda>s. s\<lparr>su_consecutiveFailures := 0\<rparr>) (update_delivery (dv_id c) g st)"
    | g where "st' = update_delivery (dv_id c) g st"
    | g where "x = O_DEAD" "st' = update_subscription (dv_subscriptionId c) ?h (update_delivery (dv_id c) g st)"
    using r by (auto simp: record_result_def Let_def split: if_splits)
  then show ?thesis
  proof cases
    case 1
    then show ?thesis using s a by (auto simp: find_subscription_update split: if_splits)
  next
    case 2
    then show ?thesis using s a by simp
  next
    case 3
    have "find_subscription st' i = map_option (\<lambda>s. if i = dv_subscriptionId c then ?h s else s) (find_subscription st i)"
      unfolding 3(2) by (subst find_subscription_update) (simp_all add: Let_def)
    then have "s' = (if i = dv_subscriptionId c then ?h s else s)" using s by simp
    then have "i = dv_subscriptionId c" "s' = ?h s" using a(1,2) by (auto split: if_splits)
    then show ?thesis
      using r a id 3(1) unfolding disabled_by_deaths_def by (intro exI [of _ c] exI [of _ r] exI [of _ finished]) (auto simp: Let_def split: if_splits)
  qed
qed

lemma step_disables:
  assumes "webhook_step threshold (st, ss, cs) (st', ss', cs')"
    and s: "find_subscription st i = Some s" "find_subscription st' i = Some s'"
    and a: "su_active s" "\<not> su_active s'" "su_consecutiveFailures s < threshold"
  shows "(\<exists>now. set_active st i False now = Inr st') \<or> disabled_by_deaths threshold st st' s s'"
  using assms(1)
proof cases
  case (subscribed j)
  then show ?thesis using s a by (auto simp: find_subscription_def subscribe_def find_append_kept)
next
  case (published j sub now)
  then show ?thesis using s a by (simp add: find_subscription_def publish_to_def)
next
  case (switched j active now)
  then have "j = i" "\<not> active"
    using s a by (auto simp: set_active_def find_subscription_update split: option.splits if_splits)
  then show ?thesis using switched by auto
next
  case (redelivered j now)
  then show ?thesis using s a by (auto simp: reset_delivery_def split: option.splits if_splits)
next
  case (reserved j t now c)
  then show ?thesis using s a by (auto dest!: reserve_Some)
next
  case (recorded c r finished x)
  then show ?thesis using record_disables [OF _ s a] by blast
qed (use s a in auto)

text \<open>C33: Whatever the order in which the workers read due dates, reserve, record or get lost, and the
  administration subscribes, publishes, switches and redelivers, every delivery to be tried has a due
  date and an attempt left, every other one has none, a dead one used all six, a delivered one says
  when. An active subscription counts fewer dead deliveries than the threshold, an inactive one bears the date
  at which it was disabled, and an active one becomes inactive only by somebody switching it off or by the
  recording of a dead delivery of its own with which its count reaches the threshold.\<close>

theorem webhooks_always_ok:
  assumes "(webhook_step threshold)\<^sup>*\<^sup>* no_webhooks (st, seen_dates, claimed)" "1 \<le> threshold"
  shows "(\<forall>d \<in> set (ws_deliveries st). delivery_ok d) \<and> (\<forall>s \<in> set (ws_subscriptions st). subscription_ok threshold s)
    \<and> (\<forall>st' seen' claimed' i s s'. webhook_step threshold (st, seen_dates, claimed) (st', seen', claimed')
         \<and> find_subscription st i = Some s \<and> find_subscription st' i = Some s' \<and> su_active s \<and> \<not> su_active s' \<longrightarrow>
         (\<exists>now. set_active st i False now = Inr st') \<or> disabled_by_deaths threshold st st' s s')"
proof -
  have ok: "webhooks_ok threshold (st, seen_dates, claimed)" by (rule webhooks_reached [OF assms])
  have "su_consecutiveFailures s < threshold" if "find_subscription st i = Some s" "su_active s" for i s
    using that ok by (auto simp: webhooks_ok_def subscription_ok_def find_subscription_def find_Some_iff)
  then show ?thesis using ok step_disables by (simp add: webhooks_ok_def) blast
qed

text \<open>Of two reservations of the same reading, one wins; but a later forced reading sees the lease as a
  due date, and reserves it.\<close>

lemma second_reservation_loses:
  assumes "reserve st i t now = Some (c, st1)"
  shows "reserve st1 i t later = None"
proof -
  obtain e where e: "find_delivery st i = Some e" "st1 = update_delivery i (\<lambda>d. d\<lparr>dv_nextAttemptAt := Some (max now t + LEASE_MS)\<rparr>) st"
    using reserve_Some [OF assms] by blast
  have "find_delivery st1 i = Some (e\<lparr>dv_nextAttemptAt := Some (max now t + LEASE_MS)\<rparr>)"
    unfolding e(2) by (subst find_update) (simp_all add: e(1))
  then show ?thesis by (simp add: reserve_def LEASE_MS_def max_def)
qed

lemma forced_attempt_ignores_lease:
  assumes "reserve st i t now = Some (c, st1)" "find_subscription st (dv_subscriptionId c) = Some s" "su_active s"
  shows "\<exists>u. seen_due st1 i later True = Some u \<and> reserve st1 i u later \<noteq> None"
proof -
  obtain e where e: "find_delivery st i = Some e" "to_be_tried e" "c = e\<lparr>dv_nextAttemptAt := Some (max now t + LEASE_MS)\<rparr>"
      "st1 = update_delivery i (\<lambda>d. d\<lparr>dv_nextAttemptAt := Some (max now t + LEASE_MS)\<rparr>) st"
    using reserve_Some [OF assms(1)] by blast
  have c: "find_delivery st1 i = Some c"
    unfolding e(4) by (subst find_update) (simp_all add: e(1,3))
  have "find_subscription st1 = find_subscription st"
    by (rule ext) (simp add: find_subscription_def e(4))
  moreover have "to_be_tried c" "dv_nextAttemptAt c = Some (max now t + LEASE_MS)"
    using e(2,3) by (simp_all add: to_be_tried_def)
  ultimately show ?thesis
    using c assms(2,3) by (simp add: seen_due_def reserve_def Let_def)
qed


subsection \<open>At a concrete state\<close>

definition sample_webhooks :: webhook_state where
  "sample_webhooks = publish_to (subscribe \<lparr>ws_deliveries = [], ws_subscriptions = []\<rparr> ''erp'') ''erp'' ''d1'' 0"

definition sample_calls :: "delivery_call list" where
  "sample_calls = [(''d1'', 0, True, Some (Answered 500), 10), (''d1'', 20, False, Some (Answered 200), 30),
     (''d1'', 60010, False, Some SendError, 60020), (''d1'', 60030, True, None, 0), (''d1'', 60040, False, Some (Answered 204), 60050),
     (''d1'', 60060, True, Some (Answered 204), 60070), (''d1'', 90000, True, Some (Answered 204), 90010)]"



theorem webhooks_always_ok_witness:
  "list_all delivery_ok (ws_deliveries sample_webhooks) \<and> list_all (subscription_ok 20) (ws_subscriptions sample_webhooks)"
proof -
  let ?st = "subscribe \<lparr>ws_deliveries = [], ws_subscriptions = []\<rparr> ''erp''"
  have "webhook_step 20 no_webhooks (?st, [], [])"
    unfolding no_webhooks_def by (rule webhook_step.subscribed) simp
  moreover have "webhook_step 20 (?st, [], []) (sample_webhooks, [], [])"
    unfolding sample_webhooks_def by (rule webhook_step.published) (simp add: subscribe_def)
  ultimately have "(webhook_step 20)\<^sup>*\<^sup>* no_webhooks (sample_webhooks, [], [])" by simp
  from webhooks_always_ok [OF this] show ?thesis by (simp add: list_all_iff)
qed

lemma sample_delivery_outcomes:
  "map snd (fst (deliver_all 20 sample_webhooks sample_calls)) =
     [Some O_FAILED, Some O_SKIPPED, Some O_FAILED, None, Some O_SKIPPED, Some O_DELIVERED, Some O_SKIPPED]"
  by (simp add: sample_calls_def sample_webhooks_def publish_to_def subscribe_def attempt_delivery_def seen_due_def reserve_def
      record_result_def find_delivery_def find_subscription_def to_be_tried_def update_delivery_def update_subscription_def
      send_failed_def response_status_def next_attempt_after_failure_def RETRY_DELAYS_MS_def LEASE_MS_def Let_def)

end
