(* ===== verification/LifecycleJobs.thy ===== *)
theory LifecycleJobs
  imports ContractService Reminders
begin

text \<open>
  The daily job of the contracts, \<open>apps/api/src/jobs/lifecycle.service.ts\<close>, and the decisions of a user on a
  renewal, \<open>apps/api/src/renewal/renewal.service.ts\<close>: both write what the contract machine returns,
  with the periods and the reminders of the contract. Which contracts a phase of the job looks at is
  decided by SQL functions; they are the argument \<open>found\<close>, and every operation checks the row again.
\<close>

subsection \<open>Rows\<close>

datatype period_kind = INITIAL | TACIT_RENEWAL | EXPRESS_RENEWAL

record contract_period =
  pd_number :: nat
  pd_kind :: period_kind
  pd_startDate :: jsdate
  pd_endDate :: jsdate

record lifecycle_file =
  lf_row :: contract_row
  lf_reminderCycle :: int
  lf_successorSigned :: bool
  lf_periods :: "contract_period list"
  lf_reminders :: "reminder_draft list"

abbreviation file_contract :: "lifecycle_file \<Rightarrow> contract_snapshot" where
  "file_contract f \<equiv> cr_contract (lf_row f)"

abbreviation file_status :: "lifecycle_file \<Rightarrow> contract_status" where
  "file_status f \<equiv> cs_status (file_contract f)"

text \<open>The snapshot of a row loaded alone, without its signers, amendments and counters.\<close>

definition job_snapshot :: "lifecycle_file \<Rightarrow> bool \<Rightarrow> contract_snapshot" where
  "job_snapshot f signedSuccessor =
     (to_snapshot (lf_row f) None signedSuccessor)
       \<lparr>cs_hasLsiSigner := True, cs_hasClientSigner := True, cs_openAmendmentExists := False,
        cs_hasUnreviewedAiClauses := False, cs_hasMissingVariables := False\<rparr>"

definition advance :: "lifecycle_file \<Rightarrow> contract_event \<Rightarrow> bool \<Rightarrow> jsdate \<Rightarrow> contract_error + lifecycle_file" where
  "advance f event signedSuccessor now =
     ebind (apply_event (job_snapshot f signedSuccessor) event now) (\<lambda>next.
       Inr (f\<lparr>lf_row := persist_transition (lf_row f) next\<rparr>))"

definition last_period :: "lifecycle_file \<Rightarrow> nat" where
  "last_period f = foldl max 0 (map pd_number (lf_periods f))"

definition add_period :: "period_kind \<Rightarrow> jsdate \<Rightarrow> jsdate \<Rightarrow> lifecycle_file \<Rightarrow> lifecycle_file" where
  "add_period kind start end f =
     f\<lparr>lf_periods := lf_periods f @
         [\<lparr>pd_number = last_period f + 1, pd_kind = kind, pd_startDate = start, pd_endDate = end\<rparr>]\<rparr>"

text \<open>\<open>updateMany\<close> on the pending reminders, and \<open>createMany\<close> with \<open>skipDuplicates\<close>.\<close>

definition cancel_pending :: "lifecycle_file \<Rightarrow> lifecycle_file" where
  "cancel_pending f =
     f\<lparr>lf_reminders := map (\<lambda>r. if rd_status r = RS_PENDING then r\<lparr>rd_status := RS_CANCELLED\<rparr> else r) (lf_reminders f)\<rparr>"

fun insert_new :: "reminder_draft list \<Rightarrow> reminder_draft list \<Rightarrow> reminder_draft list" where
  "insert_new rows [] = rows"
| "insert_new rows (d # ds) =
     insert_new (if reminder_key d \<in> reminder_key ` set rows then rows else rows @ [d]) ds"

definition file_plan :: "lifecycle_file \<Rightarrow> jsdate \<Rightarrow> reminder_draft list" where
  "file_plan f now =
     plan_reminders \<lparr>rp_endDate = cs_endDate (file_contract f), rp_noticePeriodDays = cs_noticePeriodDays (file_contract f),
       rp_reminderCycle = lf_reminderCycle f\<rparr> now"

definition materialize_reminders :: "lifecycle_file \<Rightarrow> jsdate \<Rightarrow> lifecycle_file" where
  "materialize_reminders f now = f\<lparr>lf_reminders := insert_new (lf_reminders f) (file_plan f now)\<rparr>"

subsection \<open>The phases of the job\<close>

definition activate_due :: "jsdate \<Rightarrow> lifecycle_file \<Rightarrow> bool \<times> lifecycle_file" where
  "activate_due now f =
     (if file_status f \<noteq> SIGNED \<or> cs_type (file_contract f) = AMENDMENT then (False, f)
      else case advance f ACTIVATE False now of
             Inl e \<Rightarrow> (False, f)
           | Inr f' \<Rightarrow> if file_status f' \<noteq> ACTIVE then (False, f) else (True, materialize_reminders f' now))"

text \<open>The loop of the tacit renewals; the first argument is what is left of its guard.\<close>

fun renew_loop :: "nat \<Rightarrow> jsdate \<Rightarrow> int \<Rightarrow> jsdate \<Rightarrow> lifecycle_file \<Rightarrow> bool \<times> lifecycle_file" where
  "renew_loop 0 today months now f = (True, f)"
| "renew_loop (Suc g) today months now f =
     (case cs_endDate (file_contract f) of
        None \<Rightarrow> (True, f)
      | Some currentEnd \<Rightarrow>
          if \<not> currentEnd < today then (True, f)
          else
            let newEnd = next_period_end currentEnd months in
            case (if file_status f = ACTIVE then advance f OPEN_RENEWAL False now else Inr f) of
              Inl e \<Rightarrow> (False, f)
            | Inr f1 \<Rightarrow>
                (case advance f1 (RENEW_PERIOD newEnd) False now of
                   Inl e \<Rightarrow> (False, f1)
                 | Inr f2 \<Rightarrow>
                     renew_loop g today months now (add_period TACIT_RENEWAL (currentEnd + ms_per_day) newEnd f2)))"

definition RENEWAL_GUARD :: nat where
  "RENEWAL_GUARD = 50"

definition renew_tacit :: "jsdate \<Rightarrow> lifecycle_file \<Rightarrow> bool \<times> lifecycle_file" where
  "renew_tacit now f =
     (case cr_renewalPeriodMonths (lf_row f) of
        None \<Rightarrow> (False, f)
      | Some months \<Rightarrow>
          if \<not> cr_renewalTacit (lf_row f) \<or> months = 0 \<or> cs_endDate (file_contract f) = None then (False, f)
          else renew_loop RENEWAL_GUARD (start_of_utc_day now) months now f)"

definition open_express :: "jsdate \<Rightarrow> lifecycle_file \<Rightarrow> bool \<times> lifecycle_file" where
  "open_express now f =
     (if file_status f \<noteq> ACTIVE then (False, f)
      else case advance f OPEN_RENEWAL False now of Inl e \<Rightarrow> (False, f) | Inr f' \<Rightarrow> (True, f'))"

definition expire_due :: "jsdate \<Rightarrow> lifecycle_file \<Rightarrow> bool \<times> lifecycle_file" where
  "expire_due now f =
     (if file_status f \<noteq> ACTIVE \<and> file_status f \<noteq> RENEWAL_DUE then (False, f)
      else case advance f EXPIRE (lf_successorSigned f) now of
             Inl e \<Rightarrow> (False, f) | Inr f' \<Rightarrow> (True, cancel_pending f'))"

definition complete_due :: "jsdate \<Rightarrow> lifecycle_file \<Rightarrow> bool \<times> lifecycle_file" where
  "complete_due now f =
     (if file_status f \<noteq> TERMINATION_PENDING then (False, f)
      else case advance f COMPLETE_TERMINATION False now of
             Inl e \<Rightarrow> (False, f) | Inr f' \<Rightarrow> (True, cancel_pending f'))"

datatype job_phase = Activation | TacitRenewal | ExpressRenewal | Expiration | Termination

fun phase_of :: "job_phase \<Rightarrow> jsdate \<Rightarrow> lifecycle_file \<Rightarrow> bool \<times> lifecycle_file" where
  "phase_of Activation = activate_due"
| "phase_of TacitRenewal = renew_tacit"
| "phase_of ExpressRenewal = open_express"
| "phase_of Expiration = expire_due"
| "phase_of Termination = complete_due"

definition sweep ::
    "(job_phase \<Rightarrow> lifecycle_file \<Rightarrow> bool) \<Rightarrow> jsdate \<Rightarrow> job_phase \<Rightarrow> lifecycle_file list \<Rightarrow> nat \<times> lifecycle_file list" where
  "sweep found now ph fs =
     (let rs = map (\<lambda>f. if found ph f then phase_of ph now f else (False, f)) fs
      in (length (filter fst rs), map snd rs))"

text \<open>\<open>run\<close>: the counts in the order of the phases.\<close>

fun run_phases ::
    "(job_phase \<Rightarrow> lifecycle_file \<Rightarrow> bool) \<Rightarrow> jsdate \<Rightarrow> job_phase list \<Rightarrow> lifecycle_file list
     \<Rightarrow> (job_phase \<times> nat) list \<times> lifecycle_file list" where
  "run_phases found now [] fs = ([], fs)"
| "run_phases found now (ph # phs) fs =
     (let (n, fs1) = sweep found now ph fs; (ns, fs2) = run_phases found now phs fs1 in ((ph, n) # ns, fs2))"

definition run_lifecycle ::
    "(job_phase \<Rightarrow> lifecycle_file \<Rightarrow> bool) \<Rightarrow> jsdate \<Rightarrow> lifecycle_file list \<Rightarrow> (job_phase \<times> nat) list \<times> lifecycle_file list" where
  "run_lifecycle found now fs =
     run_phases found now [Activation, TacitRenewal, ExpressRenewal, Expiration, Termination] fs"

subsection \<open>Decisions on a renewal\<close>

datatype renewal_failure = UnknownDuration | RenewalRefused contract_error

definition renew_period_now :: "lifecycle_file \<Rightarrow> int option \<Rightarrow> jsdate \<Rightarrow> renewal_failure + lifecycle_file" where
  "renew_period_now f months now =
     (case (cs_endDate (file_contract f), if months = None then cr_renewalPeriodMonths (lf_row f) else months) of
        (Some endDate, Some duration) \<Rightarrow>
          if duration = 0 then Inl UnknownDuration
          else (let newEnd = next_period_end endDate duration in
                case advance f (RENEW_PERIOD newEnd) False now of
                  Inl e \<Rightarrow> Inl (RenewalRefused e)
                | Inr f' \<Rightarrow> Inr (add_period (if cr_renewalTacit (lf_row f) then TACIT_RENEWAL else EXPRESS_RENEWAL)
                                     (endDate + ms_per_day) newEnd f'))
      | _ \<Rightarrow> Inl UnknownDuration)"

definition simple_decision :: "lifecycle_file \<Rightarrow> contract_event \<Rightarrow> jsdate \<Rightarrow> renewal_failure + lifecycle_file" where
  "simple_decision f event now =
     (case advance f event False now of Inl e \<Rightarrow> Inl (RenewalRefused e) | Inr f' \<Rightarrow> Inr f')"

definition close_renewal_now :: "lifecycle_file \<Rightarrow> string \<Rightarrow> string \<Rightarrow> jsdate \<Rightarrow> renewal_failure + lifecycle_file" where
  "close_renewal_now f userId reason now = simple_decision f (CLOSE_RENEWAL userId reason) now"

definition withdraw_termination_now :: "lifecycle_file \<Rightarrow> string \<Rightarrow> string \<Rightarrow> jsdate \<Rightarrow> renewal_failure + lifecycle_file" where
  "withdraw_termination_now f userId reason now = simple_decision f (WITHDRAW_TERMINATION userId reason) now"

subsection \<open>A transition of the job\<close>

lemma job_snapshot_fields [simp]:
  "cs_status (job_snapshot f s) = file_status f" "cs_endDate (job_snapshot f s) = cs_endDate (file_contract f)"
  "cs_startDate (job_snapshot f s) = cs_startDate (file_contract f)"
  "cs_terminationEffectiveDate (job_snapshot f s) = cs_terminationEffectiveDate (file_contract f)"
  "cs_hasSignedSuccessor (job_snapshot f s) = s"
  by (simp_all add: job_snapshot_def to_snapshot_def)

lemma advance_Inr_iff:
  "advance f event s now = Inr f' \<longleftrightarrow>
     (\<exists>c. apply_event (job_snapshot f s) event now = Inr c \<and> f' = f\<lparr>lf_row := persist_transition (lf_row f) c\<rparr>)"
  by (auto simp: advance_def ebind_Inr_iff)

lemma kept_columns [simp]:
  "cs_status (cr_contract (persist_transition r c)) = cs_status c" "cs_endDate (cr_contract (persist_transition r c)) = cs_endDate c"
  "cs_type (cr_contract (persist_transition r c)) = cs_type (cr_contract r)"
  "cs_noticePeriodDays (cr_contract (persist_transition r c)) = cs_noticePeriodDays (cr_contract r)"
  "cs_startDate (cr_contract (persist_transition r c)) = cs_startDate (cr_contract r)"
  "cr_renewalTacit (persist_transition r c) = cr_renewalTacit r"
  "cr_renewalPeriodMonths (persist_transition r c) = cr_renewalPeriodMonths r"
  by (simp_all add: persist_transition_def)

lemma advance_keeps:
  assumes "advance f event s now = Inr f'"
  shows "lf_reminders f' = lf_reminders f" "lf_periods f' = lf_periods f" "lf_reminderCycle f' = lf_reminderCycle f"
    "cs_type (file_contract f') = cs_type (file_contract f)" "cs_startDate (file_contract f') = cs_startDate (file_contract f)"
    "cs_noticePeriodDays (file_contract f') = cs_noticePeriodDays (file_contract f)"
    "cr_renewalTacit (lf_row f') = cr_renewalTacit (lf_row f)"
    "cr_renewalPeriodMonths (lf_row f') = cr_renewalPeriodMonths (lf_row f)"
  using assms by (auto simp: advance_Inr_iff)

lemma advance_open:
  assumes "file_status f = ACTIVE" "cs_endDate (file_contract f) = Some e"
  shows "\<exists>f1. advance f OPEN_RENEWAL False now = Inr f1 \<and> file_status f1 = RENEWAL_DUE \<and> cs_endDate (file_contract f1) = Some e"
  using assms by (auto simp: advance_Inr_iff apply_event_Inr_iff open_renewal_def)

lemma advance_renew:
  assumes "file_status f = RENEWAL_DUE" "cs_endDate (file_contract f) = Some e" "e < newEnd"
  shows "\<exists>f2. advance f (RENEW_PERIOD newEnd) False now = Inr f2 \<and> file_status f2 = ACTIVE
           \<and> cs_endDate (file_contract f2) = Some newEnd"
  using assms by (auto simp: advance_Inr_iff apply_event_Inr_iff renew_period_def)


subsection \<open>Tacit renewals catch up\<close>

text \<open>The \<open>k\<close> periods that follow the term \<open>e\<close>, numbered after \<open>n\<close>.\<close>

fun tacit_periods :: "nat \<Rightarrow> jsdate \<Rightarrow> int \<Rightarrow> nat \<Rightarrow> contract_period list" where
  "tacit_periods n e months 0 = []"
| "tacit_periods n e months (Suc k) =
     \<lparr>pd_number = n + 1, pd_kind = TACIT_RENEWAL, pd_startDate = e + ms_per_day, pd_endDate = next_period_end e months\<rparr>
       # tacit_periods (n + 1) (next_period_end e months) months k"

definition midnight :: "jsdate \<Rightarrow> bool" where
  "midnight t \<longleftrightarrow> 0 \<le> t \<and> day t * ms_per_day = t"

lemma next_period_end_later:
  assumes "midnight e" "0 < months"
  shows "e < next_period_end e months" "midnight (next_period_end e months)"
proof -
  have d: "0 \<le> day e" "e = day e * ms_per_day" using assms(1) by (simp_all add: midnight_def day_mono)
  have n: "next_period_end e months = (shift_months (day e + 1) months - 1) * ms_per_day"
    using next_period_end_recent(1) [of "day e" months] d assms(2) by simp
  have "day e < shift_months (day e + 1) months - 1"
    using shift_months_forward [of months "day e + 1"] assms(2) by simp
  then have "day e * ms_per_day < (shift_months (day e + 1) months - 1) * ms_per_day"
    by (intro mult_strict_right_mono) (simp_all add: ms_per_day_def)
  moreover have "0 \<le> day e * ms_per_day" using d(1) by (simp add: ms_per_day_def)
  ultimately show "e < next_period_end e months" "midnight (next_period_end e months)"
    using d(2) n by (simp_all add: midnight_def)
qed

lemma last_period_add [simp]: "last_period (add_period k st en f) = Suc (last_period f)"
proof -
  have "x \<le> foldl max y xs" if "x = y" for x y :: nat and xs
    using that by (induction xs arbitrary: y x) (auto intro: order_trans [OF max.cobounded1])
  then show ?thesis by (simp add: add_period_def last_period_def)
qed

lemma add_period_fields [simp]:
  "lf_row (add_period k st en f) = lf_row f" "lf_reminders (add_period k st en f) = lf_reminders f"
  "lf_periods (add_period k st en f) = lf_periods f @
     [\<lparr>pd_number = last_period f + 1, pd_kind = k, pd_startDate = st, pd_endDate = en\<rparr>]"
  by (simp_all add: add_period_def)

lemma renew_once:
  assumes "file_status f = ACTIVE \<or> file_status f = RENEWAL_DUE" "cs_endDate (file_contract f) = Some e" "e < newEnd"
  shows "\<exists>f1 f2. (if file_status f = ACTIVE then advance f OPEN_RENEWAL False now else Inr f) = Inr f1
     \<and> advance f1 (RENEW_PERIOD newEnd) False now = Inr f2 \<and> file_status f2 = ACTIVE
     \<and> cs_endDate (file_contract f2) = Some newEnd \<and> lf_periods f2 = lf_periods f \<and> lf_reminders f2 = lf_reminders f"
proof (cases "file_status f = ACTIVE")
  case True
  obtain f1 where f1: "advance f OPEN_RENEWAL False now = Inr f1" "file_status f1 = RENEWAL_DUE" "cs_endDate (file_contract f1) = Some e"
    using advance_open [OF True assms(2)] by blast
  obtain f2 where f2: "advance f1 (RENEW_PERIOD newEnd) False now = Inr f2" "file_status f2 = ACTIVE"
      "cs_endDate (file_contract f2) = Some newEnd"
    using advance_renew [OF f1(2,3) assms(3)] by blast
  show ?thesis using True f1 f2 advance_keeps [OF f1(1)] advance_keeps [OF f2(1)] by auto
next
  case False
  with assms(1) have "file_status f = RENEWAL_DUE" by simp
  then obtain f2 where f2: "advance f (RENEW_PERIOD newEnd) False now = Inr f2" "file_status f2 = ACTIVE"
      "cs_endDate (file_contract f2) = Some newEnd"
    using advance_renew [OF _ assms(2,3)] by blast
  show ?thesis using False f2 advance_keeps [OF f2(1)] by auto
qed

lemma renew_loop_catches_up:
  assumes "file_status f = ACTIVE \<or> file_status f = RENEWAL_DUE" "cs_endDate (file_contract f) = Some e"
    "midnight e" "0 < months" "today \<le> renewed_end e months g"
  shows "\<exists>k f'. renew_loop g today months now f = (True, f') \<and> k \<le> g
     \<and> cs_endDate (file_contract f') = Some (renewed_end e months k) \<and> today \<le> renewed_end e months k
     \<and> (\<forall>j < k. renewed_end e months j < today)
     \<and> file_status f' = (if k = 0 then file_status f else ACTIVE)
     \<and> lf_periods f' = lf_periods f @ tacit_periods (last_period f) e months k \<and> lf_reminders f' = lf_reminders f"
  using assms
proof (induction g arbitrary: f e)
  case 0
  then show ?case by simp
next
  case (Suc g)
  show ?case
  proof (cases "e < today")
    case False
    with Suc.prems show ?thesis by (intro exI [of _ 0]) simp
  next
    case True
    let ?n = "next_period_end e months"
    note n = next_period_end_later [OF Suc.prems(3,4)]
    obtain f1 f2 where f: "(if file_status f = ACTIVE then advance f OPEN_RENEWAL False now else Inr f) = Inr f1"
        "advance f1 (RENEW_PERIOD ?n) False now = Inr f2" "file_status f2 = ACTIVE"
        "cs_endDate (file_contract f2) = Some ?n" "lf_periods f2 = lf_periods f" "lf_reminders f2 = lf_reminders f"
      using renew_once [OF Suc.prems(1,2) n(1)] by blast
    define f3 where "f3 = add_period TACIT_RENEWAL (e + ms_per_day) ?n f2"
    have f3: "file_status f3 = ACTIVE \<or> file_status f3 = RENEWAL_DUE" "cs_endDate (file_contract f3) = Some ?n"
      using f by (simp_all add: f3_def)
    have "today \<le> renewed_end ?n months g" using Suc.prems(5) by simp
    from Suc.IH [OF f3 n(2) Suc.prems(4) this] obtain k f' where k: "renew_loop g today months now f3 = (True, f')" "k \<le> g"
        "cs_endDate (file_contract f') = Some (renewed_end ?n months k)" "today \<le> renewed_end ?n months k"
        "\<forall>j < k. renewed_end ?n months j < today" "file_status f' = (if k = 0 then file_status f3 else ACTIVE)"
        "lf_periods f' = lf_periods f3 @ tacit_periods (last_period f3) ?n months k" "lf_reminders f' = lf_reminders f3"
      by blast
    have loop: "renew_loop (Suc g) today months now f = (True, f')"
      using Suc.prems(2) True f(1,2) k(1) by (simp add: Let_def f3_def)
    have before: "\<forall>j < Suc k. renewed_end e months j < today"
      using k(5) True by (auto simp: less_Suc_eq_0_disj)
    have lp: "last_period f2 = last_period f" using f(5) by (simp add: last_period_def)
    show ?thesis
      using loop before k f by (intro exI [of _ "Suc k"] exI [of _ f']) (simp add: f3_def lp)
  qed
qed

text \<open>C13: The daily job renews an overdue contract tacitly as many times as needed, even when it has not run for
  long, up to its guard of fifty periods: afterwards the contract is active, its new term is the first
  one that is not over, and the periods recorded follow each other from the old term to the new
  one, numbered after the last; its reminders are left to the deadlines.\<close>

theorem tacit_renewal_catches_up:
  assumes "cr_renewalTacit (lf_row f)" "cr_renewalPeriodMonths (lf_row f) = Some months" "0 < months"
    "file_status f = ACTIVE \<or> file_status f = RENEWAL_DUE" "cs_endDate (file_contract f) = Some e" "midnight e"
    "e < start_of_utc_day now" "start_of_utc_day now \<le> renewed_end e months 50"
  shows "\<exists>k f'. renew_tacit now f = (True, f') \<and> 1 \<le> k \<and> k \<le> 50 \<and> file_status f' = ACTIVE
     \<and> cs_endDate (file_contract f') = Some (renewed_end e months k) \<and> start_of_utc_day now \<le> renewed_end e months k
     \<and> (\<forall>j < k. renewed_end e months j < start_of_utc_day now)
     \<and> lf_periods f' = lf_periods f @ tacit_periods (last_period f) e months k \<and> lf_reminders f' = lf_reminders f"
proof -
  obtain k f' where k: "renew_loop 50 (start_of_utc_day now) months now f = (True, f')" "k \<le> 50"
     "cs_endDate (file_contract f') = Some (renewed_end e months k)" "start_of_utc_day now \<le> renewed_end e months k"
     "\<forall>j < k. renewed_end e months j < start_of_utc_day now"
     "file_status f' = (if k = 0 then file_status f else ACTIVE)"
     "lf_periods f' = lf_periods f @ tacit_periods (last_period f) e months k" "lf_reminders f' = lf_reminders f"
    using renew_loop_catches_up [OF assms(4,5,6,3,8)] by blast
  have "k \<noteq> 0" using k(4) assms(7) by (cases k) auto
  then show ?thesis
    using k assms(1,2,3,5) by (intro exI [of _ k] exI [of _ f']) (simp add: renew_tacit_def RENEWAL_GUARD_def)
qed

subsection \<open>Reminders through the job\<close>

definition closed_statuses :: "contract_status set" where
  "closed_statuses = {EXPIRED, RENEWED, TERMINATED}"

text \<open>What the job keeps of a contract: no reminder twice, none pending once it is over, and from the moment
  it is in force, one for each date of the plan.\<close>

definition reminders_kept :: "lifecycle_file \<Rightarrow> bool" where
  "reminders_kept f \<longleftrightarrow>
     distinct (map reminder_key (lf_reminders f))
     \<and> (file_status f \<in> closed_statuses \<longrightarrow> RS_PENDING \<notin> rd_status ` set (lf_reminders f))"

lemma insert_new_distinct: "distinct (map reminder_key rows) \<Longrightarrow> distinct (map reminder_key (insert_new rows ds))"
  by (induction rows ds rule: insert_new.induct) auto

lemma insert_new_keys: "reminder_key ` set (insert_new rows ds) = reminder_key ` set rows \<union> reminder_key ` set ds"
  by (induction rows ds rule: insert_new.induct) auto

lemma cancel_pending_keys: "map reminder_key (lf_reminders (cancel_pending f)) = map reminder_key (lf_reminders f)"
  by (simp add: cancel_pending_def reminder_key_def)

lemma cancel_pending_none: "RS_PENDING \<notin> rd_status ` set (lf_reminders (cancel_pending f))"
  by (auto simp: cancel_pending_def)

lemma cancel_pending_row [simp]: "lf_row (cancel_pending f) = lf_row f"
  by (simp add: cancel_pending_def)

lemma materialize_fields [simp]:
  "lf_row (materialize_reminders f now) = lf_row f"
  "lf_reminders (materialize_reminders f now) = insert_new (lf_reminders f) (file_plan f now)"
  by (simp_all add: materialize_reminders_def)

lemma renew_loop_keeps:
  "renew_loop g today months now f = (b, f') \<Longrightarrow>
     lf_reminders f' = lf_reminders f \<and> (file_status f' = file_status f \<or> file_status f' \<in> {ACTIVE, RENEWAL_DUE})
     \<and> (file_status f = SIGNED \<longrightarrow> file_status f' = SIGNED) \<and> cs_type (file_contract f') = cs_type (file_contract f)"
proof (induction g arbitrary: f b f')
  case (Suc g)
  show ?case
  proof (cases "cs_endDate (file_contract f)")
    case None
    with Suc.prems show ?thesis by simp
  next
    case (Some e)
    let ?n = "next_period_end e months"
    show ?thesis
    proof (cases "e < today")
      case False
      with Suc.prems Some show ?thesis by simp
    next
      case True
      show ?thesis
      proof (cases "if file_status f = ACTIVE then advance f OPEN_RENEWAL False now else Inr f")
        case (Inl x)
        with Suc.prems Some True show ?thesis by (simp add: Let_def)
      next
        case (Inr f1)
        have k1: "lf_reminders f1 = lf_reminders f" "file_status f1 = file_status f \<or> file_status f1 \<in> {ACTIVE, RENEWAL_DUE}"
          "file_status f = SIGNED \<longrightarrow> file_status f1 = SIGNED" "cs_type (file_contract f1) = cs_type (file_contract f)"
          using Inr advance_keeps [of f OPEN_RENEWAL False now f1]
          by (auto simp: advance_Inr_iff apply_event_Inr_iff open_renewal_def split: if_splits)
        show ?thesis
        proof (cases "advance f1 (RENEW_PERIOD ?n) False now")
          case (Inl x)
          with Suc.prems Some True Inr k1 show ?thesis by (simp add: Let_def)
        next
          case Inr2: (Inr f2)
          have k2: "lf_reminders f2 = lf_reminders f1" "file_status f2 = ACTIVE" "file_status f1 = RENEWAL_DUE"
            "cs_type (file_contract f2) = cs_type (file_contract f1)"
            using Inr2 advance_keeps [OF Inr2]
            by (auto simp: advance_Inr_iff apply_event_Inr_iff renew_period_def permitted_iff split: if_splits)
          have "renew_loop g today months now (add_period TACIT_RENEWAL (e + ms_per_day) ?n f2) = (b, f')"
            using Suc.prems Some True Inr Inr2 by (simp add: Let_def)
          from Suc.IH [OF this] k1 k2 show ?thesis by auto
        qed
      qed
    qed
  qed
qed simp


lemma renew_loop_signed: "file_status f = SIGNED \<Longrightarrow> snd (renew_loop g today months now f) = f"
  by (cases g) (simp_all add: advance_def apply_event_def ebind_def Let_def split: option.split)

abbreviation reminder_keys :: "lifecycle_file \<Rightarrow> (reminder_kind \<times> int \<times> int) set" where
  "reminder_keys f \<equiv> reminder_key ` set (lf_reminders f)"

text \<open>What a phase, and hence the job, may do to a contract.\<close>

definition job_follows :: "jsdate \<Rightarrow> lifecycle_file \<Rightarrow> lifecycle_file \<Rightarrow> bool" where
  "job_follows now f f' \<longleftrightarrow>
     reminders_kept f' \<and> reminder_keys f \<subseteq> reminder_keys f'
     \<and> (file_status f' = SIGNED \<longrightarrow> f' = f)
     \<and> (file_status f = SIGNED \<and> file_status f' \<noteq> SIGNED \<longrightarrow>
          cs_type (file_contract f) = MAIN \<and> reminder_key ` set (file_plan f now) \<subseteq> reminder_keys f')"

lemma job_follows_refl: "reminders_kept f \<Longrightarrow> job_follows now f f"
  by (simp add: job_follows_def)

lemma job_follows_trans:
  assumes "job_follows now f g" "job_follows now g h"
  shows "job_follows now f h"
proof (cases "file_status g = SIGNED")
  case True
  with assms show ?thesis by (simp add: job_follows_def)
next
  case False
  have "reminder_keys f \<subseteq> reminder_keys h"
    using assms unfolding job_follows_def by (meson subset_trans)
  moreover have "reminder_key ` set (file_plan f now) \<subseteq> reminder_keys h" if "file_status f = SIGNED"
    using assms False that unfolding job_follows_def by (meson subset_trans)
  ultimately show ?thesis
    using assms False by (simp add: job_follows_def) (metis)
qed

lemma activate_follows:
  assumes "reminders_kept f"
  shows "job_follows now f (snd (activate_due now f))"
proof (cases "file_status f \<noteq> SIGNED \<or> cs_type (file_contract f) = AMENDMENT")
  case True
  then show ?thesis using assms by (auto simp: activate_due_def job_follows_refl)
next
  case False
  then have t: "cs_type (file_contract f) = MAIN" by (cases "cs_type (file_contract f)") auto
  show ?thesis
  proof (cases "advance f ACTIVATE False now")
    case (Inl e)
    with False show ?thesis using assms by (simp add: activate_due_def job_follows_refl)
  next
    case (Inr f')
    have p: "file_plan f' now = file_plan f now" "lf_reminders f' = lf_reminders f"
      using advance_keeps [OF Inr] Inr
      by (auto simp: file_plan_def advance_Inr_iff apply_event_Inr_iff activate_def ContractMachine.activate_def split: if_splits option.splits)
    show ?thesis
    proof (cases "file_status f' = ACTIVE")
      case True
      then show ?thesis
        using False Inr assms t p insert_new_distinct [of "lf_reminders f" "file_plan f now"]
        by (simp add: activate_due_def job_follows_def reminders_kept_def closed_statuses_def insert_new_keys)
    next
      case False': False
      with False Inr show ?thesis using assms by (simp add: activate_due_def job_follows_refl)
    qed
  qed
qed

lemma renew_follows:
  assumes "reminders_kept f"
  shows "job_follows now f (snd (renew_tacit now f))"
proof -
  have "job_follows now f (snd (renew_loop g (start_of_utc_day now) months now f))" for g months
  proof (cases "file_status f = SIGNED")
    case True
    then show ?thesis using assms by (simp add: renew_loop_signed job_follows_refl)
  next
    case False
    obtain b f' where r: "renew_loop g (start_of_utc_day now) months now f = (b, f')" by fastforce
    then show ?thesis
      using renew_loop_keeps [OF r] False assms
      by (auto simp: job_follows_def reminders_kept_def closed_statuses_def)
  qed
  then show ?thesis
    using assms by (auto simp: renew_tacit_def job_follows_refl split: option.split)
qed

lemma open_follows:
  assumes "reminders_kept f"
  shows "job_follows now f (snd (open_express now f))"
proof (cases "advance f OPEN_RENEWAL False now")
  case (Inr f')
  then have "file_status f' = RENEWAL_DUE"
    by (auto simp: advance_Inr_iff apply_event_Inr_iff open_renewal_def split: if_splits)
  then show ?thesis
    using assms Inr advance_keeps(1) [OF Inr]
    by (auto simp: open_express_def job_follows_refl) (simp add: job_follows_def reminders_kept_def closed_statuses_def)
qed (use assms in \<open>simp add: open_express_def job_follows_refl\<close>)

lemma closing_follows:
  assumes "reminders_kept f" "advance f event s now = Inr f'" "file_status f' \<noteq> SIGNED" "file_status f \<noteq> SIGNED"
  shows "job_follows now f (cancel_pending f')"
proof -
  have "map reminder_key (lf_reminders (cancel_pending f')) = map reminder_key (lf_reminders f)"
    using advance_keeps(1) [OF assms(2)] cancel_pending_keys [of f'] by simp
  moreover from this have "reminder_keys (cancel_pending f') = reminder_keys f" by (metis set_map)
  ultimately show ?thesis
    using assms(1,3,4) cancel_pending_none [of f'] by (simp add: job_follows_def reminders_kept_def)
qed

lemma expire_follows:
  assumes "reminders_kept f"
  shows "job_follows now f (snd (expire_due now f))"
proof (cases "advance f EXPIRE (lf_successorSigned f) now")
  case (Inr f')
  have "file_status f' \<noteq> SIGNED"
    using Inr by (auto simp: advance_Inr_iff apply_event_Inr_iff expire_def split: option.splits if_splits)
  then show ?thesis
    using assms Inr closing_follows [OF assms Inr] by (auto simp: expire_due_def job_follows_refl)
qed (use assms in \<open>simp add: expire_due_def job_follows_refl\<close>)

lemma complete_follows:
  assumes "reminders_kept f"
  shows "job_follows now f (snd (complete_due now f))"
proof (cases "advance f COMPLETE_TERMINATION False now")
  case (Inr f')
  have "file_status f' \<noteq> SIGNED"
    using Inr by (auto simp: advance_Inr_iff apply_event_Inr_iff complete_termination_def split: option.splits if_splits)
  then show ?thesis
    using assms Inr closing_follows [OF assms Inr] by (auto simp: complete_due_def job_follows_refl)
qed (use assms in \<open>simp add: complete_due_def job_follows_refl\<close>)

lemma phase_follows: "reminders_kept f \<Longrightarrow> job_follows now f (snd (phase_of ph now f))"
  using activate_follows renew_follows open_follows expire_follows complete_follows by (cases ph) simp_all

lemma sweep_follows:
  "\<forall>f \<in> set fs. reminders_kept f \<Longrightarrow> list_all2 (job_follows now) fs (snd (sweep found now ph fs))"
  using phase_follows by (simp add: sweep_def Let_def list_all2_map2 list_all2_same job_follows_refl)

lemma follows_kept: "list_all2 (job_follows now) fs gs \<Longrightarrow> \<forall>g \<in> set gs. reminders_kept g"
  by (induction rule: list_all2_induct) (auto simp: job_follows_def)

lemma phases_follow:
  "\<forall>f \<in> set fs. reminders_kept f \<Longrightarrow> list_all2 (job_follows now) fs (snd (run_phases found now phs fs))"
proof (induction phs arbitrary: fs)
  case Nil
  then show ?case by (simp add: list_all2_same job_follows_refl)
next
  case (Cons ph phs)
  have a: "list_all2 (job_follows now) fs (snd (sweep found now ph fs))" using Cons.prems by (rule sweep_follows)
  have b: "list_all2 (job_follows now) (snd (sweep found now ph fs)) (snd (run_phases found now phs (snd (sweep found now ph fs))))"
    using Cons.IH follows_kept [OF a] by blast
  show ?case
    using list_all2_trans [of "job_follows now" "job_follows now" "job_follows now", OF job_follows_trans a b]
    by (simp add: split_def Let_def)
qed

text \<open>C16: Whichever contracts the SQL functions find, a run of the daily job keeps the reminders right: none is
  written twice and none is lost, a contract that is over has none pending, and a signed contract
  leaves that status only if it is not an amendment, with a reminder for every date of its plan;
  one that stays signed is untouched.\<close>

theorem job_keeps_reminders:
  assumes "\<forall>f \<in> set fs. reminders_kept f"
  shows "list_all2 (job_follows now) fs (snd (run_lifecycle found now fs))"
  unfolding run_lifecycle_def by (rule phases_follow [OF assms])

subsection \<open>A refused renewal\<close>

text \<open>The decision not to renew gives the contract back to the job: as long as the SQL function finds it, active
  and past its notice deadline, the next run opens the renewal again.\<close>

lemma closed_renewal_opens_again:
  assumes "close_renewal_now f userId reason now = Inr f'" "cs_endDate (file_contract f) \<noteq> None"
  shows "file_status f' = ACTIVE \<and> (\<exists>f''. open_express later f' = (True, f'') \<and> file_status f'' = RENEWAL_DUE)"
proof -
  obtain e where e: "cs_endDate (file_contract f) = Some e" using assms(2) by blast
  have "file_status f' = ACTIVE" "cs_endDate (file_contract f') = Some e"
    using assms(1) e
    by (auto simp: close_renewal_now_def simple_decision_def advance_def apply_event_def ebind_def close_renewal_def
        split: sum.splits if_splits)
  then show ?thesis
    using advance_open [of f' e later] by (auto simp: open_express_def)
qed


subsection \<open>At a concrete contract\<close>

text \<open>A contract of the year 2023, renewed for a year, looked at in March 2025.\<close>

definition overdue_file :: lifecycle_file where
  "overdue_file =
     \<lparr>lf_row = (sample_row ACTIVE None [])
        \<lparr>cr_contract := (cr_contract (sample_row ACTIVE None []))\<lparr>cs_endDate := Some (month_end 24287)\<rparr>,
         cr_renewalTacit := True, cr_renewalPeriodMonths := Some 12\<rparr>,
      lf_reminderCycle = 0, lf_successorSigned = False, lf_periods = [], lf_reminders = []\<rparr>"

definition march_2025 :: jsdate where
  "march_2025 = 20162 * ms_per_day"

lemma overdue_dates:
  "midnight (month_end 24287)" "month_end 24287 < march_2025" "start_of_utc_day march_2025 = march_2025"
  "march_2025 \<le> renewed_end (month_end 24287) 12 50"
proof -
  show "midnight (month_end 24287)" "month_end 24287 < march_2025" "start_of_utc_day march_2025 = march_2025"
    by code_simp+
  have "march_2025 \<le> month_end 24887" by code_simp
  then show "march_2025 \<le> renewed_end (month_end 24287) 12 50"
    using renewals_do_not_drift [of 24287 12 50] by simp
qed

theorem tacit_renewal_catches_up_witness:
  "\<exists>k f'. renew_tacit march_2025 overdue_file = (True, f') \<and> 1 \<le> k \<and> file_status f' = ACTIVE
     \<and> lf_periods f' = tacit_periods 0 (month_end 24287) 12 k"
proof -
  have lp: "last_period overdue_file = 0" "lf_periods overdue_file = []"
    by (simp_all add: overdue_file_def last_period_def)
  have "\<exists>k f'. renew_tacit march_2025 overdue_file = (True, f') \<and> 1 \<le> k \<and> k \<le> 50 \<and> file_status f' = ACTIVE
     \<and> cs_endDate (file_contract f') = Some (renewed_end (month_end 24287) 12 k)
     \<and> start_of_utc_day march_2025 \<le> renewed_end (month_end 24287) 12 k
     \<and> (\<forall>j < k. renewed_end (month_end 24287) 12 j < start_of_utc_day march_2025)
     \<and> lf_periods f' = lf_periods overdue_file @ tacit_periods (last_period overdue_file) (month_end 24287) 12 k
     \<and> lf_reminders f' = lf_reminders overdue_file"
    by (rule tacit_renewal_catches_up) (simp_all add: overdue_dates, simp_all add: overdue_file_def sample_row_def sample_snapshot_def)
  then show ?thesis by (auto simp: lp)
qed

theorem job_keeps_reminders_witness:
  "list_all2 (job_follows march_2025) [overdue_file] (snd (run_lifecycle (\<lambda>ph f. True) march_2025 [overdue_file]))"
  by (rule job_keeps_reminders) (simp add: reminders_kept_def overdue_file_def)

end
