(* ===== verification/DeadlineBook.thy ===== *)
theory DeadlineBook
  imports Deadlines Reminders "HOL-Library.AList"
begin

text \<open>
  The deadlines of a contract in the database, \<open>apps/api/src/deadlines/deadlines.service.ts\<close>: \<open>recompute\<close>
  brings the rows to what \<open>computeDeadlines\<close> returns and creates their alerts. A due date is a date
  column, midnight UTC; the identifiers of the rows created are given.
\<close>

subsection \<open>Rows\<close>

datatype deadline_status = DS_OPEN | DS_DONE | DS_OBSOLETE

datatype alert_kind =
    A_EXPIRY | A_NOTICE_DEADLINE | A_PRICE_REVISION | A_RENEWAL_DECISION | A_CHATEL_NOTICE | A_TERMINATION_EFFECTIVE

fun REMINDER_KIND :: "deadline_kind \<Rightarrow> alert_kind" where
  "REMINDER_KIND PERIOD_END = A_EXPIRY"
| "REMINDER_KIND NOTICE_DEADLINE = A_NOTICE_DEADLINE"
| "REMINDER_KIND PRICE_REVISION = A_PRICE_REVISION"
| "REMINDER_KIND RENEWAL_DECISION = A_RENEWAL_DECISION"
| "REMINDER_KIND CHATEL_NOTICE = A_CHATEL_NOTICE"
| "REMINDER_KIND TERMINATION_EFFECTIVE = A_TERMINATION_EFFECTIVE"

record deadline_row =
  dl_id :: string
  dl_kind :: deadline_kind
  dl_dueDate :: jsdate
  dl_status :: deadline_status
  dl_details :: "(string \<times> string) list"

record alert_row =
  al_kind :: alert_kind
  al_offsetDays :: int
  al_cycle :: int
  al_dueAt :: jsdate
  al_status :: reminder_status
  al_deadlineId :: "string option"

record deadline_book =
  bk_deadlines :: "deadline_row list"
  bk_alerts :: "alert_row list"

record recompute_result =
  rs_created :: nat
  rs_obsoleted :: nat
  rs_remindersCreated :: nat

definition day_of :: "jsdate \<Rightarrow> jsdate" where
  "day_of d = date_utc (get_utc_full_year d) (get_utc_month d) (get_utc_date d)"

type_synonym deadline_key = "deadline_kind \<times> string"

definition deadline_key :: "deadline_kind \<Rightarrow> jsdate \<Rightarrow> deadline_key" where
  "deadline_key kind due = (kind, iso_date (day_of due))"

definition row_key :: "deadline_row \<Rightarrow> deadline_key" where
  "row_key e = deadline_key (dl_kind e) (dl_dueDate e)"

definition wanted_key :: "computed_deadline \<Rightarrow> deadline_key" where
  "wanted_key d = deadline_key (cd_kind d) (cd_dueDate d)"

definition update_row :: "string \<Rightarrow> (deadline_row \<Rightarrow> deadline_row) \<Rightarrow> deadline_book \<Rightarrow> deadline_book" where
  "update_row i g b = b\<lparr>bk_deadlines := map (\<lambda>e. if dl_id e = i then g e else e) (bk_deadlines b)\<rparr>"

definition update_alerts :: "(alert_row \<Rightarrow> bool) \<Rightarrow> (alert_row \<Rightarrow> alert_row) \<Rightarrow> deadline_book \<Rightarrow> deadline_book" where
  "update_alerts P g b = b\<lparr>bk_alerts := map (\<lambda>r. if P r then g r else r) (bk_alerts b)\<rparr>"

subsection \<open>Alerts of a deadline\<close>

definition alert_target :: "alert_row \<Rightarrow> jsdate" where
  "alert_target r = day_of (al_dueAt r) + al_offsetDays r * DAY_MS"

definition alert_key :: "alert_row \<Rightarrow> alert_kind \<times> int \<times> int" where
  "alert_key r = (al_kind r, al_offsetDays r, al_cycle r)"

fun insert_alerts :: "alert_row list \<Rightarrow> alert_row list \<Rightarrow> nat \<times> alert_row list" where
  "insert_alerts rows [] = (0, rows)"
| "insert_alerts rows (r # rs) =
     (if alert_key r \<in> alert_key ` set rows then insert_alerts rows rs
      else (let (n, rows') = insert_alerts (rows @ [r]) rs in (Suc n, rows')))"

definition materialize_alerts ::
    "int list \<Rightarrow> int \<Rightarrow> jsdate \<Rightarrow> deadline_row \<Rightarrow> deadline_book \<Rightarrow> nat \<times> deadline_book" where
  "materialize_alerts thresholds reminderCycle now row b =
     (let kind = REMINDER_KIND (dl_kind row);
          due = day_of (dl_dueDate row);
          existing = filter (\<lambda>r. al_kind r = kind) (bk_alerts b);
          orphan = (\<lambda>r. al_kind r = kind \<and> al_deadlineId r = None \<and> alert_target r = due);
          b1 = update_alerts orphan (\<lambda>r. r\<lparr>al_deadlineId := Some (dl_id row)\<rparr>) b;
          mine = filter (\<lambda>r. al_deadlineId r = Some (dl_id row)) existing @ filter orphan existing;
          cycle = (if mine \<noteq> [] then al_cycle (hd mine)
                   else if existing \<noteq> [] then Max (al_cycle ` set existing) + 1 else reminderCycle);
          data = map (\<lambda>t. let dueAt = due - t * DAY_MS in
                    \<lparr>al_kind = kind, al_offsetDays = t, al_cycle = cycle, al_dueAt = dueAt,
                     al_status = (if dueAt \<le> now then RS_SKIPPED_OBSOLETE else RS_PENDING),
                     al_deadlineId = Some (dl_id row)\<rparr>)
                   (filter (\<lambda>t. t \<notin> al_offsetDays ` set mine) thresholds);
          (n, rows) = insert_alerts (bk_alerts b1) data
      in (n, b1\<lparr>bk_alerts := rows\<rparr>))"

subsection \<open>recompute\<close>

definition obsolete_missing :: "deadline_key set \<Rightarrow> deadline_book \<Rightarrow> nat \<times> deadline_book" where
  "obsolete_missing wanted b =
     (let gone = filter (\<lambda>e. dl_status e = DS_OPEN \<and> row_key e \<notin> wanted) (bk_deadlines b)
      in (length gone,
          foldl (\<lambda>b e. update_alerts (\<lambda>r. al_deadlineId r = Some (dl_id e) \<and> al_status r = RS_PENDING)
                         (\<lambda>r. r\<lparr>al_status := RS_CANCELLED\<rparr>)
                       (update_row (dl_id e) (\<lambda>x. x\<lparr>dl_status := DS_OBSOLETE\<rparr>) b)) b gone))"

text \<open>A \<open>Map\<close> of the rows by key: the last one written is found.\<close>

definition find_row :: "deadline_key \<Rightarrow> deadline_row list \<Rightarrow> deadline_row option" where
  "find_row k rows = List.find (\<lambda>e. row_key e = k) (rev rows)"

definition live :: "deadline_row \<Rightarrow> bool" where
  "live e \<longleftrightarrow> dl_status e = DS_OPEN \<or> dl_status e = DS_DONE"

definition due_past :: "jsdate \<Rightarrow> computed_deadline \<Rightarrow> bool" where
  "due_past now d \<longleftrightarrow> day_of (cd_dueDate d) < day_of now"

text \<open>The row of a computed deadline, brought up to date or created, and whether it was created.\<close>

definition settle_row ::
    "jsdate \<Rightarrow> deadline_row list \<Rightarrow> computed_deadline \<Rightarrow> string \<Rightarrow> deadline_book \<Rightarrow> deadline_row \<times> nat \<times> deadline_book" where
  "settle_row now rows d i b =
     (let past = due_past now d; status = (if past then DS_DONE else DS_OPEN) in
      case find_row (wanted_key d) (filter live rows) of
        Some e \<Rightarrow>
          if dl_status e = DS_OPEN \<and> past
          then (e, 0, update_row (dl_id e) (\<lambda>x. x\<lparr>dl_status := DS_DONE\<rparr>) b)
          else (e, 0, b)
      | None \<Rightarrow>
          (case find_row (wanted_key d) (filter (\<lambda>e. dl_status e = DS_OBSOLETE) rows) of
             Some e \<Rightarrow>
               (e\<lparr>dl_status := status, dl_details := cd_details d\<rparr>, 1,
                update_alerts (\<lambda>r. al_deadlineId r = Some (dl_id e) \<and> al_status r = RS_CANCELLED \<and> now < al_dueAt r)
                  (\<lambda>r. r\<lparr>al_status := RS_PENDING\<rparr>)
                  (update_row (dl_id e) (\<lambda>x. x\<lparr>dl_status := status, dl_details := cd_details d\<rparr>) b))
           | None \<Rightarrow>
               (let e = \<lparr>dl_id = i, dl_kind = cd_kind d, dl_dueDate = day_of (cd_dueDate d), dl_status = status,
                         dl_details = cd_details d\<rparr>
                in (e, 1, b\<lparr>bk_deadlines := bk_deadlines b @ [e]\<rparr>))))"

definition process_deadline ::
    "int list \<Rightarrow> int \<Rightarrow> jsdate \<Rightarrow> deadline_row list \<Rightarrow> computed_deadline \<times> string
     \<Rightarrow> (nat \<times> nat) \<times> deadline_book \<Rightarrow> (nat \<times> nat) \<times> deadline_book" where
  "process_deadline thresholds reminderCycle now rows di acc =
     (let ((created, reminders), b) = acc;
          (row, c, b1) = settle_row now rows (fst di) (snd di) b
      in if due_past now (fst di) then ((created + c, reminders), b1)
         else (let (n, b2) = materialize_alerts thresholds reminderCycle now row b1
               in ((created + c, reminders + n), b2)))"

definition wanted_deadlines :: "computed_deadline list \<Rightarrow> computed_deadline list" where
  "wanted_deadlines computed = map snd (foldl (\<lambda>m d. AList.update (wanted_key d) d m) [] computed)"

definition recompute_rows ::
    "int list \<Rightarrow> int \<Rightarrow> jsdate \<Rightarrow> (nat \<Rightarrow> string) \<Rightarrow> computed_deadline list \<Rightarrow> deadline_book
     \<Rightarrow> recompute_result \<times> deadline_book" where
  "recompute_rows thresholds reminderCycle now fresh computed b =
     (let wanted = wanted_deadlines computed;
          (gone, b1) = obsolete_missing (wanted_key ` set wanted) b;
          ((created, reminders), b2) =
            fold (process_deadline thresholds reminderCycle now (bk_deadlines b))
              (zip wanted (map fresh [0..<length wanted])) ((0, 0), b1)
      in (\<lparr>rs_created = created, rs_obsoleted = gone, rs_remindersCreated = reminders\<rparr>, b2))"

definition recompute ::
    "contract_type \<Rightarrow> deadline_facts \<Rightarrow> int list \<Rightarrow> int \<Rightarrow> jsdate \<Rightarrow> (nat \<Rightarrow> string) \<Rightarrow> deadline_book
     \<Rightarrow> notice_error + recompute_result \<times> deadline_book" where
  "recompute ty facts thresholds reminderCycle now fresh b =
     ebind (if ty = MAIN then compute_deadlines facts now else Inr []) (\<lambda>computed.
       Inr (recompute_rows thresholds reminderCycle now fresh computed b))"


subsection \<open>Days and keys\<close>

lemma day_of_recent: "- 40000 \<le> day d \<Longrightarrow> day_of d = day d * ms_per_day"
  using utc_day_recent [of d] by (simp add: day_of_def utc_day_def)

lemma day_of_again: "0 \<le> d \<Longrightarrow> day_of (day_of d) = day_of d"
  using day_mono [of d] by (simp add: day_of_recent)

lemma DAY_MS_day: "day (n * ms_per_day - t * DAY_MS) = n - t"
proof -
  have "n * ms_per_day - t * DAY_MS = (n - t) * ms_per_day" by (simp add: DAY_MS_eq left_diff_distrib)
  then show ?thesis by simp
qed

lemma find_row_iff:
  assumes "distinct (map row_key rows)"
  shows "find_row k (filter P rows) = Some e \<longleftrightarrow> e \<in> set rows \<and> P e \<and> row_key e = k"
proof
  assume "find_row k (filter P rows) = Some e"
  then have "e \<in> set (rev (filter P rows)) \<and> row_key e = k"
    unfolding find_row_def find_Some_iff using nth_mem by (metis length_rev)
  then show "e \<in> set rows \<and> P e \<and> row_key e = k" by simp
next
  assume e: "e \<in> set rows \<and> P e \<and> row_key e = k"
  have "find_row k (filter P rows) \<noteq> None" using e by (auto simp: find_row_def find_None_iff)
  then obtain x where x: "find_row k (filter P rows) = Some x" by blast
  then have "x \<in> set (rev (filter P rows)) \<and> row_key x = k"
    unfolding find_row_def find_Some_iff using nth_mem by (metis length_rev)
  with e assms have "x = e" by (auto simp: distinct_map dest: inj_onD)
  with x show "find_row k (filter P rows) = Some e" by simp
qed

lemma find_row_None:
  "find_row k (filter P rows) = None \<longleftrightarrow> (\<forall>e \<in> set rows. P e \<longrightarrow> row_key e \<noteq> k)"
  by (auto simp: find_row_def find_None_iff)

lemma update_row_fields [simp]:
  "bk_alerts (update_row i g b) = bk_alerts b"
  "bk_deadlines (update_row i g b) = map (\<lambda>e. if dl_id e = i then g e else e) (bk_deadlines b)"
  by (simp_all add: update_row_def)

lemma update_alerts_fields [simp]:
  "bk_deadlines (update_alerts P h b) = bk_deadlines b"
  "bk_alerts (update_alerts P h b) = map (\<lambda>r. if P r then h r else r) (bk_alerts b)"
  by (simp_all add: update_alerts_def)

subsection \<open>The rows after a recomputation\<close>

definition marked :: "deadline_key set \<Rightarrow> deadline_row \<Rightarrow> deadline_row" where
  "marked W e = (if dl_status e = DS_OPEN \<and> row_key e \<notin> W then e\<lparr>dl_status := DS_OBSOLETE\<rparr> else e)"

definition settled :: "jsdate \<Rightarrow> computed_deadline \<Rightarrow> deadline_row \<Rightarrow> deadline_row" where
  "settled now d e =
     (if dl_status e = DS_OBSOLETE
      then e\<lparr>dl_status := (if due_past now d then DS_DONE else DS_OPEN), dl_details := cd_details d\<rparr>
      else if dl_status e = DS_OPEN \<and> due_past now d then e\<lparr>dl_status := DS_DONE\<rparr> else e)"

definition new_row :: "jsdate \<Rightarrow> computed_deadline \<times> string \<Rightarrow> deadline_row" where
  "new_row now di =
     \<lparr>dl_id = snd di, dl_kind = cd_kind (fst di), dl_dueDate = day_of (cd_dueDate (fst di)),
      dl_status = (if due_past now (fst di) then DS_DONE else DS_OPEN), dl_details = cd_details (fst di)\<rparr>"

lemma kept_fields [simp]:
  "dl_id (marked W e) = dl_id e" "row_key (marked W e) = row_key e" "dl_kind (marked W e) = dl_kind e"
  "dl_dueDate (marked W e) = dl_dueDate e"
  "dl_id (settled now d e) = dl_id e" "row_key (settled now d e) = row_key e" "dl_kind (settled now d e) = dl_kind e"
  "dl_dueDate (settled now d e) = dl_dueDate e"
  by (simp_all add: marked_def settled_def row_key_def)

lemma same_id: "distinct (map dl_id rows) \<Longrightarrow> e \<in> set rows \<Longrightarrow> f \<in> set rows \<Longrightarrow> dl_id e = dl_id f \<longleftrightarrow> e = f"
  by (auto simp: distinct_map dest: inj_onD)

lemma same_key: "distinct (map row_key rows) \<Longrightarrow> e \<in> set rows \<Longrightarrow> f \<in> set rows \<Longrightarrow> row_key e = row_key f \<longleftrightarrow> e = f"
  by (auto simp: distinct_map dest: inj_onD)

lemma obsolete_foldl:
  "bk_deadlines (foldl (\<lambda>b e. update_alerts (P e) h (update_row (dl_id e) (\<lambda>x. x\<lparr>dl_status := DS_OBSOLETE\<rparr>) b)) b gs) =
     map (\<lambda>e. if dl_id e \<in> dl_id ` set gs then e\<lparr>dl_status := DS_OBSOLETE\<rparr> else e) (bk_deadlines b)"
  by (induction gs arbitrary: b) (auto simp: o_def)

lemma obsolete_rows:
  assumes "distinct (map dl_id (bk_deadlines b))"
  shows "bk_deadlines (snd (obsolete_missing W b)) = map (marked W) (bk_deadlines b)"
proof -
  have "dl_id e \<in> dl_id ` {x \<in> set (bk_deadlines b). dl_status x = DS_OPEN \<and> row_key x \<notin> W}
      \<longleftrightarrow> dl_status e = DS_OPEN \<and> row_key e \<notin> W" if "e \<in> set (bk_deadlines b)" for e
    using same_id [OF assms that] that by auto
  then show ?thesis
    by (simp add: obsolete_missing_def Let_def obsolete_foldl marked_def)
qed

text \<open>An alert whose status alone has changed.\<close>

definition same_alert :: "alert_row \<Rightarrow> alert_row \<Rightarrow> bool" where
  "same_alert r s \<longleftrightarrow> al_kind s = al_kind r \<and> al_offsetDays s = al_offsetDays r \<and> al_cycle s = al_cycle r
     \<and> al_dueAt s = al_dueAt r \<and> al_deadlineId s = al_deadlineId r"

definition same_place :: "deadline_row \<Rightarrow> deadline_row \<Rightarrow> bool" where
  "same_place e x \<longleftrightarrow> dl_id x = dl_id e \<and> dl_kind x = dl_kind e \<and> dl_dueDate x = dl_dueDate e"

lemma settle_cases:
  assumes "distinct (map row_key rows)" "settle_row now rows d i b = (row, c, b1)"
  shows "(\<exists>e h f. e \<in> set rows \<and> row_key e = wanted_key d \<and> same_place e row \<and> h e = settled now d e
            \<and> (\<forall>x. same_place x (h x))
            \<and> bk_deadlines b1 = map (\<lambda>x. if dl_id x = dl_id e then h x else x) (bk_deadlines b)
            \<and> bk_alerts b1 = map f (bk_alerts b) \<and> (\<forall>r. same_alert r (f r)))
      \<or> wanted_key d \<notin> row_key ` set rows \<and> row = new_row now (d, i)
            \<and> b1 = b\<lparr>bk_deadlines := bk_deadlines b @ [new_row now (d, i)]\<rparr>"
proof (cases "find_row (wanted_key d) (filter live rows)")
  case (Some e)
  from iffD1 [OF find_row_iff [OF assms(1)] this]
  have e: "e \<in> set rows" "live e" "row_key e = wanted_key d" by simp_all
  show ?thesis
  proof (cases "dl_status e = DS_OPEN \<and> due_past now d")
    case True
    have r: "row = e" "b1 = update_row (dl_id e) (\<lambda>x. x\<lparr>dl_status := DS_DONE\<rparr>) b"
      using assms(2) Some True by (auto simp: settle_row_def)
    show ?thesis
      using True e
      by (intro disjI1 exI [of _ e] exI [of _ "\<lambda>x. x\<lparr>dl_status := DS_DONE\<rparr>"] exI [of _ id])
        (simp add: r settled_def same_place_def same_alert_def)
  next
    case False
    have r: "row = e" "b1 = b" using assms(2) Some False by (auto simp: settle_row_def Let_def)
    have "settled now d e = e" using False e(2) by (auto simp: settled_def live_def)
    then show ?thesis
      using e by (intro disjI1 exI [of _ e] exI [of _ "\<lambda>x. x"] exI [of _ id]) (simp add: r same_place_def same_alert_def)
  qed
next
  case None
  show ?thesis
  proof (cases "find_row (wanted_key d) (filter (\<lambda>e. dl_status e = DS_OBSOLETE) rows)")
    case (Some e)
    from iffD1 [OF find_row_iff [OF assms(1)] this]
    have e: "e \<in> set rows" "dl_status e = DS_OBSOLETE" "row_key e = wanted_key d" by simp_all
    let ?h = "\<lambda>x. x\<lparr>dl_status := (if due_past now d then DS_DONE else DS_OPEN), dl_details := cd_details d\<rparr>"
    let ?f = "\<lambda>r. if al_deadlineId r = Some (dl_id e) \<and> al_status r = RS_CANCELLED \<and> now < al_dueAt r
                  then r\<lparr>al_status := RS_PENDING\<rparr> else r"
    have r: "row = ?h e" "bk_deadlines b1 = map (\<lambda>x. if dl_id x = dl_id e then ?h x else x) (bk_deadlines b)"
      "bk_alerts b1 = map ?f (bk_alerts b)"
      using assms(2) None Some by (auto simp: settle_row_def Let_def)
    have "settled now d e = ?h e" using e(2) by (simp add: settled_def)
    then show ?thesis
      using e r(2,3) by (intro disjI1 exI [of _ e] exI [of _ ?h] exI [of _ ?f]) (simp add: r(1) same_place_def same_alert_def)
  next
    case none: None
    have "wanted_key d \<noteq> row_key e" if "e \<in> set rows" for e
      using None none that unfolding find_row_None live_def by (metis deadline_status.exhaust)
    then show ?thesis
      using assms(2) None none by (auto simp: settle_row_def Let_def new_row_def)
  qed
qed

lemma settle_rows:
  assumes rows: "distinct (map dl_id rows)" "distinct (map row_key rows)"
    and s: "settle_row now rows d i b = (row, c, b1)"
    and b: "bk_deadlines b = map G rows @ news" "\<And>e. dl_id (G e) = dl_id e"
    and G: "\<And>e. e \<in> set rows \<Longrightarrow> row_key e = wanted_key d \<Longrightarrow> G e = e"
    and fresh: "dl_id ` set rows \<inter> dl_id ` set news = {}"
  shows "bk_deadlines b1 = map (\<lambda>e. if row_key e = wanted_key d then settled now d e else G e) rows
        @ (if wanted_key d \<in> row_key ` set rows then news else news @ [new_row now (d, i)])"
  using settle_cases [OF rows(2) s]
proof (elim disjE exE conjE)
  fix e h f
  assume e: "e \<in> set rows" "row_key e = wanted_key d" "h e = settled now d e"
    and b1: "bk_deadlines b1 = map (\<lambda>x. if dl_id x = dl_id e then h x else x) (bk_deadlines b)"
  have "(if dl_id (G x) = dl_id e then h (G x) else G x) = (if row_key x = wanted_key d then settled now d x else G x)"
    if "x \<in> set rows" for x
  proof (cases "x = e")
    case True
    then show ?thesis using e G [OF e(1,2)] by simp
  next
    case False
    then have "dl_id x \<noteq> dl_id e" "row_key x \<noteq> wanted_key d"
      using same_id [OF rows(1) that e(1)] same_key [OF rows(2) that e(1)] e(2) by simp_all
    then show ?thesis by (simp add: b(2))
  qed
  moreover have "(if dl_id x = dl_id e then h x else x) = x" if "x \<in> set news" for x
    using fresh that e(1) by force
  moreover have "wanted_key d \<in> row_key ` set rows" using e by force
  ultimately show ?thesis by (simp add: b1 b(1) map_idI)
next
  assume a: "wanted_key d \<notin> row_key ` set rows" "b1 = b\<lparr>bk_deadlines := bk_deadlines b @ [new_row now (d, i)]\<rparr>"
  have "map (\<lambda>e. if row_key e = wanted_key d then settled now d e else G e) rows = map G rows"
    using a(1) by force
  with a show ?thesis by (simp add: b(1))
qed

lemma materialize_deadlines [simp]: "bk_deadlines (snd (materialize_alerts th rc now row b)) = bk_deadlines b"
  by (simp add: materialize_alerts_def Let_def split_def)

lemma process_deadlines [simp]:
  "bk_deadlines (snd (process_deadline th rc now rows di acc)) = bk_deadlines (snd (snd (settle_row now rows (fst di) (snd di) (snd acc))))"
  by (simp add: process_deadline_def split_def Let_def)

fun final_row :: "jsdate \<Rightarrow> (computed_deadline \<times> string) list \<Rightarrow> (deadline_row \<Rightarrow> deadline_row) \<Rightarrow> deadline_row \<Rightarrow> deadline_row" where
  "final_row now [] G e = G e"
| "final_row now (di # ps) G e =
     final_row now ps (\<lambda>e. if row_key e = wanted_key (fst di) then settled now (fst di) e else G e) e"

lemma process_all:
  assumes rows: "distinct (map dl_id rows)" "distinct (map row_key rows)"
    and "distinct (map (wanted_key \<circ> fst) ps)"
    and b: "bk_deadlines (snd acc) = map G rows @ news" "\<And>e. dl_id (G e) = dl_id e"
    and G: "\<And>e. e \<in> set rows \<Longrightarrow> row_key e \<in> set (map (wanted_key \<circ> fst) ps) \<Longrightarrow> G e = e"
    and fresh: "dl_id ` set rows \<inter> (dl_id ` set news \<union> snd ` set ps) = {}"
  shows "bk_deadlines (snd (fold (process_deadline th rc now rows) ps acc)) =
     map (final_row now ps G) rows @ news @ map (new_row now) (filter (\<lambda>di. wanted_key (fst di) \<notin> row_key ` set rows) ps)"
  using assms(3-)
proof (induction ps arbitrary: acc G news)
  case Nil
  then show ?case by simp
next
  case (Cons di ps)
  obtain d i where di: "di = (d, i)" by (cases di)
  obtain row c b1 where s: "settle_row now rows d i (snd acc) = (row, c, b1)" by (metis prod.exhaust)
  let ?G = "\<lambda>e. if row_key e = wanted_key d then settled now d e else G e"
  let ?news = "if wanted_key d \<in> row_key ` set rows then news else news @ [new_row now (d, i)]"
  have fr: "dl_id ` set rows \<inter> dl_id ` set news = {}" using Cons.prems(5) by blast
  have "bk_deadlines b1 = map ?G rows @ ?news"
    using settle_rows [OF rows s Cons.prems(2) Cons.prems(3) _ fr] Cons.prems(4) by (simp add: di)
  then have p: "bk_deadlines (snd (process_deadline th rc now rows di acc)) = map ?G rows @ ?news"
    by (simp add: s di)
  have G': "?G e = e" if "e \<in> set rows" "row_key e \<in> set (map (wanted_key \<circ> fst) ps)" for e
  proof -
    have "row_key e \<noteq> wanted_key d" using that(2) Cons.prems(1) by (force simp: di)
    then show ?thesis using that Cons.prems(4) by simp
  qed
  have fr': "dl_id ` set rows \<inter> (dl_id ` set ?news \<union> snd ` set ps) = {}"
    using Cons.prems(5) by (auto simp: di new_row_def)
  have "bk_deadlines (snd (fold (process_deadline th rc now rows) ps (process_deadline th rc now rows di acc))) =
     map (final_row now ps ?G) rows @ ?news @ map (new_row now) (filter (\<lambda>di. wanted_key (fst di) \<notin> row_key ` set rows) ps)"
    using Cons.prems(1) by (intro Cons.IH [OF _ p _ G' fr']) (simp_all add: Cons.prems(3))
  then show ?case by (simp add: di cong: if_cong)
qed

lemma final_row_outside:
  "row_key e \<notin> set (map (wanted_key \<circ> fst) ps) \<Longrightarrow> final_row now ps G e = G e"
  by (induction ps arbitrary: G) auto

lemma final_row_inside:
  assumes "distinct (map (wanted_key \<circ> fst) ps)" "(d, i) \<in> set ps" "row_key e = wanted_key d"
  shows "final_row now ps G e = settled now d e"
  using assms
proof (induction ps arbitrary: G)
  case (Cons p ps)
  show ?case
  proof (cases "p = (d, i)")
    case True
    then show ?thesis using Cons.prems(1,3) by (auto simp: final_row_outside)
  next
    case False
    then show ?thesis using Cons by simp
  qed
qed simp


lemma wanted_all:
  assumes "distinct (map wanted_key ds)"
  shows "wanted_deadlines ds = ds"
proof -
  have new: "AList.update k v al = al @ [(k, v)]" if "k \<notin> fst ` set al" for k :: deadline_key and v :: computed_deadline and al
    using that by (induction al) auto
  have "foldl (\<lambda>m d. AList.update (wanted_key d) d m) m ds = m @ map (\<lambda>d. (wanted_key d, d)) ds"
    if "distinct (map wanted_key ds)" "fst ` set m \<inter> wanted_key ` set ds = {}" for m ds
    using that
  proof (induction ds arbitrary: m)
    case (Cons d ds)
    then have "AList.update (wanted_key d) d m = m @ [(wanted_key d, d)]" by (intro new) auto
    then show ?case using Cons by auto
  qed simp
  from this [of ds "[]"] assms show ?thesis by (simp add: wanted_deadlines_def o_def)
qed

lemma computed_keys: "compute_deadlines f now = Inr ds \<Longrightarrow> distinct (map wanted_key ds)"
  using deadlines_by_status [of f now ds]
  by (auto simp: distinct_map inj_on_def wanted_key_def deadline_key_def)

text \<open>The rows of a contract, as the database constrains them, when the job last ran before \<open>now\<close>.\<close>

definition book_ok :: "jsdate \<Rightarrow> deadline_book \<Rightarrow> bool" where
  "book_ok now b \<longleftrightarrow>
     distinct (map dl_id (bk_deadlines b)) \<and> distinct (map row_key (bk_deadlines b))
     \<and> (\<forall>e \<in> set (bk_deadlines b). 0 \<le> dl_dueDate e
          \<and> (dl_status e = DS_DONE \<longrightarrow> (\<forall>d. wanted_key d = row_key e \<longrightarrow> due_past now d)))"

definition fresh_ids :: "(nat \<Rightarrow> string) \<Rightarrow> deadline_book \<Rightarrow> bool" where
  "fresh_ids fresh b \<longleftrightarrow> inj fresh \<and> range fresh \<inter> dl_id ` set (bk_deadlines b) = {}"

lemma fresh_new: "fresh_ids fresh b \<Longrightarrow> e \<in> set (bk_deadlines b) \<Longrightarrow> fresh n \<noteq> dl_id e"
  unfolding fresh_ids_def by (metis IntI emptyE imageI rangeI)

lemma zip_fresh: "i \<in> snd ` set (zip ds (map fresh [0..<length ds])) \<Longrightarrow> \<exists>n. i = fresh n"
  by (auto dest!: set_zip_rightD)

lemma recompute_deadlines:
  assumes ok: "book_ok now b" "fresh_ids fresh b" and ds: "distinct (map wanted_key ds)"
    and r: "recompute_rows th rc now fresh ds b = (res, b')"
  shows "bk_deadlines b' = map (final_row now (zip ds (map fresh [0..<length ds])) (marked (wanted_key ` set ds))) (bk_deadlines b)
     @ map (new_row now) (filter (\<lambda>di. wanted_key (fst di) \<notin> row_key ` set (bk_deadlines b)) (zip ds (map fresh [0..<length ds])))"
proof -
  let ?W = "wanted_key ` set ds" and ?ps = "zip ds (map fresh [0..<length ds])"
  have d: "distinct (map dl_id (bk_deadlines b))" "distinct (map row_key (bk_deadlines b))"
    using ok(1) by (simp_all add: book_ok_def)
  have keys: "map (wanted_key \<circ> fst) ?ps = map wanted_key ds" by (simp add: map_map [symmetric])
  have "b' = snd (fold (process_deadline th rc now (bk_deadlines b)) ?ps ((0, 0), snd (obsolete_missing ?W b)))"
    using r by (auto simp: recompute_rows_def wanted_all [OF ds] Let_def split_def)
  moreover have "bk_deadlines (snd (fold (process_deadline th rc now (bk_deadlines b)) ?ps ((0, 0), snd (obsolete_missing ?W b))))
     = map (final_row now ?ps (marked ?W)) (bk_deadlines b) @ []
       @ map (new_row now) (filter (\<lambda>di. wanted_key (fst di) \<notin> row_key ` set (bk_deadlines b)) ?ps)"
  proof (rule process_all [OF d])
    show "distinct (map (wanted_key \<circ> fst) ?ps)" using ds by (simp add: keys)
    show "bk_deadlines (snd ((0, 0), snd (obsolete_missing ?W b))) = map (marked ?W) (bk_deadlines b) @ []"
      using obsolete_rows [OF d(1)] by simp
    show "marked ?W e = e" if "row_key e \<in> set (map (wanted_key \<circ> fst) ?ps)" for e
      using that by (auto simp: keys marked_def)
    show "dl_id ` set (bk_deadlines b) \<inter> (dl_id ` set [] \<union> snd ` set ?ps) = {}"
      using zip_fresh [of _ ds fresh] fresh_new [OF ok(2)] by fastforce
  qed simp
  ultimately show ?thesis by simp
qed

lemma final_row_fields [simp]:
  "(\<And>e. dl_id (G e) = dl_id e) \<Longrightarrow> dl_id (final_row now ps G e) = dl_id e"
  "(\<And>e. row_key (G e) = row_key e) \<Longrightarrow> row_key (final_row now ps G e) = row_key e"
  by (induction ps arbitrary: G) simp_all

lemma new_row_key: "0 \<le> cd_dueDate (fst di) \<Longrightarrow> row_key (new_row now di) = wanted_key (fst di)"
  by (simp add: row_key_def wanted_key_def deadline_key_def new_row_def day_of_again)

text \<open>The computed deadlines with the identifiers they would be created with.\<close>

abbreviation paired :: "(nat \<Rightarrow> string) \<Rightarrow> computed_deadline list \<Rightarrow> (computed_deadline \<times> string) list" where
  "paired fresh ds \<equiv> zip ds (map fresh [0..<length ds])"

lemma paired_keys: "map (wanted_key \<circ> fst) (paired fresh ds) = map wanted_key ds"
  by (simp add: map_map [symmetric])

lemma paired_in: "d \<in> set ds \<Longrightarrow> \<exists>i. (d, i) \<in> set (paired fresh ds)"
  by (auto simp: set_zip in_set_conv_nth)

lemma paired_fst: "di \<in> set (paired fresh ds) \<Longrightarrow> fst di \<in> set ds"
  by (cases di) (auto dest: set_zip_leftD)

lemma paired_ids: "fresh_ids fresh b \<Longrightarrow> distinct (map snd (paired fresh ds))"
  by (simp add: fresh_ids_def distinct_map inj_on_def inj_def)

text \<open>The rows the loop ends with.\<close>

definition recomputed ::
    "jsdate \<Rightarrow> computed_deadline list \<Rightarrow> (computed_deadline \<times> string) list \<Rightarrow> deadline_row list \<Rightarrow> deadline_row list" where
  "recomputed now ds ps rows =
     map (final_row now ps (marked (wanted_key ` set ds))) rows
     @ map (new_row now) (filter (\<lambda>di. wanted_key (fst di) \<notin> row_key ` set rows) ps)"

lemma recomputed_in:
  "e \<in> set (recomputed now ds ps rows) \<longleftrightarrow>
     (\<exists>x \<in> set rows. e = final_row now ps (marked (wanted_key ` set ds)) x)
     \<or> (\<exists>di \<in> set ps. wanted_key (fst di) \<notin> row_key ` set rows \<and> e = new_row now di)"
  unfolding recomputed_def set_append set_map set_filter by blast

lemma recomputed_distinct:
  assumes b: "book_ok now b" "fresh_ids fresh b"
    and ds: "distinct (map wanted_key ds)" "\<forall>d \<in> set ds. 0 \<le> cd_dueDate d"
  shows "distinct (map row_key (recomputed now ds (paired fresh ds) (bk_deadlines b)))"
    and "distinct (map dl_id (recomputed now ds (paired fresh ds) (bk_deadlines b)))"
    and "map dl_id (bk_deadlines b) = take (length (bk_deadlines b)) (map dl_id (recomputed now ds (paired fresh ds) (bk_deadlines b)))"
proof -
  let ?ps = "paired fresh ds" and ?rows = "bk_deadlines b"
  let ?new = "filter (\<lambda>di. wanted_key (fst di) \<notin> row_key ` set ?rows) ?ps"
  have rows: "distinct (map dl_id ?rows)" "distinct (map row_key ?rows)" using b(1) by (simp_all add: book_ok_def)
  have "row_key (new_row now di) = wanted_key (fst di)" if "di \<in> set ?new" for di
    using ds(2) paired_fst [of di ds fresh] that by (intro new_row_key) simp
  then have "map row_key (map (new_row now) ?new) = map (wanted_key \<circ> fst) ?new" by simp
  then have k: "map row_key (recomputed now ds ?ps ?rows) = map row_key ?rows @ map (wanted_key \<circ> fst) ?new"
    by (simp add: recomputed_def o_def)
  have "distinct (map (wanted_key \<circ> fst) ?new)"
    using ds(1) by (intro distinct_map_filter) (simp add: paired_keys)
  then show "distinct (map row_key (recomputed now ds ?ps ?rows))"
    unfolding k using rows(2) by (auto simp: image_iff)
  have i: "map dl_id (recomputed now ds ?ps ?rows) = map dl_id ?rows @ map snd ?new"
    by (simp add: recomputed_def o_def new_row_def)
  have "distinct (map snd ?new)" using paired_ids [OF b(2)] by (rule distinct_map_filter)
  moreover have "dl_id ` set ?rows \<inter> snd ` set ?new = {}"
    using zip_fresh [of _ ds fresh] fresh_new [OF b(2)] by fastforce
  ultimately show "distinct (map dl_id (recomputed now ds ?ps ?rows))" unfolding i using rows(1) by simp
  show "map dl_id ?rows = take (length ?rows) (map dl_id (recomputed now ds ?ps ?rows))" by (simp add: i)
qed

lemma recomputed_has_computed:
  assumes b: "book_ok now b" and ds: "distinct (map wanted_key ds)" "0 \<le> cd_dueDate d" "d \<in> set ds"
  shows "\<exists>e \<in> set (recomputed now ds (paired fresh ds) (bk_deadlines b)).
     row_key e = wanted_key d \<and> dl_status e = (if due_past now d then DS_DONE else DS_OPEN)"
proof -
  let ?ps = "paired fresh ds" and ?rows = "bk_deadlines b"
  let ?F = "final_row now ?ps (marked (wanted_key ` set ds))"
  obtain i where i: "(d, i) \<in> set ?ps" using paired_in [OF ds(3)] by blast
  show ?thesis
  proof (cases "wanted_key d \<in> row_key ` set ?rows")
    case True
    then obtain e where e: "e \<in> set ?rows" "row_key e = wanted_key d" by auto
    have "?F e = settled now d e" using ds(1) by (intro final_row_inside [OF _ i e(2)]) (simp add: paired_keys)
    moreover have "dl_status (settled now d e) = (if due_past now d then DS_DONE else DS_OPEN)"
    proof (cases "dl_status e")
      case DS_DONE
      then have "due_past now d" using b e by (simp add: book_ok_def)
      with DS_DONE show ?thesis by (simp add: settled_def)
    qed (simp_all add: settled_def)
    moreover have "row_key (?F e) = wanted_key d" "?F e \<in> set (recomputed now ds ?ps ?rows)"
      using e by (auto simp: recomputed_in)
    ultimately show ?thesis by (intro bexI [of _ "?F e"]) simp_all
  next
    case False
    have "new_row now (d, i) \<in> set (recomputed now ds ?ps ?rows)"
      unfolding recomputed_in using False i by (intro disjI2 bexI [of _ "(d, i)"]) simp_all
    moreover have "row_key (new_row now (d, i)) = wanted_key d"
      "dl_status (new_row now (d, i)) = (if due_past now d then DS_DONE else DS_OPEN)"
      using new_row_key [of "(d, i)" now] ds(2) by (simp_all add: new_row_def)
    ultimately show ?thesis by blast
  qed
qed

lemma recomputed_open_wanted:
  assumes "e \<in> set (recomputed now ds (paired fresh ds) rows)" "dl_status e = DS_OPEN" "\<forall>d \<in> set ds. 0 \<le> cd_dueDate d"
  shows "row_key e \<in> wanted_key ` set ds"
proof (rule ccontr)
  let ?ps = "paired fresh ds"
  assume no: "row_key e \<notin> wanted_key ` set ds"
  have "row_key (new_row now di) \<in> wanted_key ` set ds" if "di \<in> set ?ps" for di
    using assms(3) paired_fst [OF that] by (simp add: new_row_key)
  then obtain x where x: "e = final_row now ?ps (marked (wanted_key ` set ds)) x"
    using assms(1) no unfolding recomputed_in by blast
  then have k: "row_key x \<notin> wanted_key ` set ds" using no by simp
  then have "row_key x \<notin> set (map (wanted_key \<circ> fst) ?ps)" by (simp add: paired_keys del: map_map)
  then have "e = marked (wanted_key ` set ds) x" using x final_row_outside by simp
  then show False using assms(2) k by (auto simp: marked_def split: if_splits)
qed

lemma recomputed_gone:
  assumes "e \<in> set rows" "dl_status e = DS_OPEN" "row_key e \<notin> wanted_key ` set ds"
  shows "e\<lparr>dl_status := DS_OBSOLETE\<rparr> \<in> set (recomputed now ds (paired fresh ds) rows)"
proof -
  have "row_key e \<notin> set (map (wanted_key \<circ> fst) (paired fresh ds))"
    using assms(3) by (simp add: paired_keys del: map_map)
  then have "final_row now (paired fresh ds) (marked (wanted_key ` set ds)) e = e\<lparr>dl_status := DS_OBSOLETE\<rparr>"
    using assms(2,3) by (simp add: final_row_outside marked_def)
  then show ?thesis using assms(1) unfolding recomputed_in by (intro disjI1 bexI [of _ e]) simp_all
qed

text \<open>C14: After a recomputation the rows of a contract are exactly what the contract gives rise to: the open
  ones are the computed deadlines that are not past, each once, the computed ones that are past
  are done, and a row that was open and is no longer computed is still there, obsolete and otherwise unchanged.\<close>

theorem open_deadlines_are_computed:
  assumes ok: "book_ok now b" "fresh_ids fresh b"
    and c: "compute_deadlines facts now = Inr ds" "\<forall>d \<in> set ds. 0 \<le> cd_dueDate d"
    and r: "recompute MAIN facts thresholds reminderCycle now fresh b = Inr (res, b')"
  shows "row_key ` {e \<in> set (bk_deadlines b'). dl_status e = DS_OPEN} = wanted_key ` {d \<in> set ds. \<not> due_past now d}
     \<and> distinct (map row_key (bk_deadlines b')) \<and> distinct (map dl_id (bk_deadlines b'))
     \<and> (\<forall>d \<in> set ds. \<exists>e \<in> set (bk_deadlines b'). row_key e = wanted_key d \<and>
          dl_status e = (if due_past now d then DS_DONE else DS_OPEN))
     \<and> (\<forall>e \<in> set (bk_deadlines b). dl_status e = DS_OPEN \<and> row_key e \<notin> wanted_key ` set ds \<longrightarrow>
          e\<lparr>dl_status := DS_OBSOLETE\<rparr> \<in> set (bk_deadlines b'))
     \<and> map dl_id (bk_deadlines b) = take (length (bk_deadlines b)) (map dl_id (bk_deadlines b'))"
proof -
  note keys = computed_keys [OF c(1)]
  have r': "recompute_rows thresholds reminderCycle now fresh ds b = (res, b')"
    using r c(1) by (simp add: recompute_def)
  have b': "bk_deadlines b' = recomputed now ds (paired fresh ds) (bk_deadlines b)"
    unfolding recomputed_def by (rule recompute_deadlines [OF ok keys r'])
  note dist = recomputed_distinct [OF ok keys c(2), folded b']
  have computed: "\<exists>e \<in> set (bk_deadlines b'). row_key e = wanted_key d \<and>
          dl_status e = (if due_past now d then DS_DONE else DS_OPEN)" if "d \<in> set ds" for d
    using recomputed_has_computed [OF ok(1) keys _ that] c(2) that by (simp add: b')
  have "row_key e \<in> wanted_key ` {d \<in> set ds. \<not> due_past now d}"
    if e: "e \<in> set (bk_deadlines b')" "dl_status e = DS_OPEN" for e
  proof -
    obtain d where d: "d \<in> set ds" "row_key e = wanted_key d"
      using recomputed_open_wanted [OF _ e(2) c(2)] e(1) unfolding b' by blast
    then obtain e' where e': "e' \<in> set (bk_deadlines b')" "row_key e' = wanted_key d"
        "dl_status e' = (if due_past now d then DS_DONE else DS_OPEN)"
      using computed by blast
    then have "e' = e" using same_key [OF dist(1) e'(1) e(1)] d(2) by simp
    then show ?thesis using d e' e(2) by (auto split: if_splits)
  qed
  moreover have "wanted_key d \<in> row_key ` {e \<in> set (bk_deadlines b'). dl_status e = DS_OPEN}"
    if "d \<in> set ds" "\<not> due_past now d" for d
    using computed [OF that(1)] that(2) by force
  ultimately have "row_key ` {e \<in> set (bk_deadlines b'). dl_status e = DS_OPEN} = wanted_key ` {d \<in> set ds. \<not> due_past now d}"
    by blast
  moreover have "e\<lparr>dl_status := DS_OBSOLETE\<rparr> \<in> set (bk_deadlines b')"
    if "e \<in> set (bk_deadlines b)" "dl_status e = DS_OPEN" "row_key e \<notin> wanted_key ` set ds" for e
    unfolding b' by (rule recomputed_gone [OF that])
  ultimately show ?thesis using dist computed by blast
qed

subsection \<open>The alerts after a recomputation\<close>

text \<open>An alert attached to a deadline is for its date, and a cycle of alerts is for one date.\<close>

definition alerts_ok :: "deadline_book \<Rightarrow> bool" where
  "alerts_ok b \<longleftrightarrow>
     (\<forall>r \<in> set (bk_alerts b). \<forall>i. al_deadlineId r = Some i \<longrightarrow>
        (\<exists>e \<in> set (bk_deadlines b). dl_id e = i \<and> al_kind r = REMINDER_KIND (dl_kind e)
           \<and> alert_target r = day_of (dl_dueDate e)))
     \<and> (\<forall>r \<in> set (bk_alerts b). \<forall>s \<in> set (bk_alerts b).
          al_kind r = al_kind s \<and> al_cycle r = al_cycle s \<longrightarrow> alert_target r = alert_target s)"

definition has_alert :: "deadline_book \<Rightarrow> string \<Rightarrow> int \<Rightarrow> bool" where
  "has_alert b i t \<longleftrightarrow> (\<exists>r \<in> set (bk_alerts b). al_deadlineId r = Some i \<and> al_offsetDays r = t)"

lemma insert_alerts_rows:
  "insert_alerts rows rs = (n, rows') \<Longrightarrow>
     set rows \<subseteq> set rows' \<and> set rows' \<subseteq> set rows \<union> set rs \<and> (\<forall>r \<in> set rs. alert_key r \<in> alert_key ` set rows')"
proof (induction rows rs arbitrary: n rows' rule: insert_alerts.induct)
  case (2 rows r rs)
  show ?case
  proof (cases "alert_key r \<in> alert_key ` set rows")
    case True
    then have "insert_alerts rows rs = (n, rows')" using "2.prems" by simp
    from "2.IH"(1) [OF True this] True show ?thesis by (auto 0 3)
  next
    case False
    obtain m rows1 where r1: "insert_alerts (rows @ [r]) rs = (m, rows1)" by fastforce
    then have "rows' = rows1" using False "2.prems" by simp
    moreover note "2.IH"(2) [OF False r1]
    ultimately show ?thesis by (simp add: image_iff) blast
  qed
qed simp

lemma REMINDER_KIND_inj: "REMINDER_KIND k = REMINDER_KIND l \<longleftrightarrow> k = l"
  by (cases k; cases l) simp_all

lemma same_deadline:
  assumes "distinct (map row_key (bk_deadlines b))" "e \<in> set (bk_deadlines b)" "f \<in> set (bk_deadlines b)"
    "dl_kind e = dl_kind f" "day_of (dl_dueDate e) = day_of (dl_dueDate f)"
  shows "e = f"
  using same_key [OF assms(1,2,3)] assms(4,5) by (simp add: row_key_def deadline_key_def)

lemma materialize_ok:
  assumes ok: "alerts_ok b" and d: "distinct (map dl_id (bk_deadlines b))" "distinct (map row_key (bk_deadlines b))"
    and e: "e \<in> set (bk_deadlines b)" "same_place e row" "0 \<le> dl_dueDate e" and th: "\<forall>t \<in> set thresholds. t \<le> 40000"
    and m: "materialize_alerts thresholds rc now row b = (n, b')"
  shows "alerts_ok b' \<and> (\<forall>t \<in> set thresholds. has_alert b' (dl_id row) t) \<and> (\<forall>i t. has_alert b i t \<longrightarrow> has_alert b' i t)"
proof -
  define kind where "kind = REMINDER_KIND (dl_kind row)"
  define due where "due = day_of (dl_dueDate row)"
  define existing where "existing = filter (\<lambda>r. al_kind r = kind) (bk_alerts b)"
  define orphan where "orphan = (\<lambda>r. al_kind r = kind \<and> al_deadlineId r = None \<and> alert_target r = due)"
  define adopt where "adopt = (\<lambda>r. if orphan r then r\<lparr>al_deadlineId := Some (dl_id row)\<rparr> else r)"
  define mine where "mine = filter (\<lambda>r. al_deadlineId r = Some (dl_id row)) existing @ filter orphan existing"
  define cycle where "cycle = (if mine \<noteq> [] then al_cycle (hd mine)
                   else if existing \<noteq> [] then Max (al_cycle ` set existing) + 1 else rc)"
  define new where "new = (\<lambda>t. \<lparr>al_kind = kind, al_offsetDays = t, al_cycle = cycle, al_dueAt = due - t * DAY_MS,
                     al_status = (if due - t * DAY_MS \<le> now then RS_SKIPPED_OBSOLETE else RS_PENDING),
                     al_deadlineId = Some (dl_id row)\<rparr>)"
  define wanted where "wanted = filter (\<lambda>t. t \<notin> al_offsetDays ` set mine) thresholds"
  obtain n' rows where ins: "insert_alerts (map adopt (bk_alerts b)) (map new wanted) = (n', rows)" by fastforce
  have b': "bk_alerts b' = rows" "bk_deadlines b' = bk_deadlines b"
    using m ins unfolding materialize_alerts_def Let_def kind_def due_def existing_def orphan_def adopt_def mine_def cycle_def new_def wanted_def
    by auto
  have row: "dl_id e = dl_id row" "kind = REMINDER_KIND (dl_kind e)" "day_of (dl_dueDate e) = due"
    using e(2) by (simp_all add: same_place_def due_def kind_def)
  have old1: "\<exists>f \<in> set (bk_deadlines b). dl_id f = i \<and> al_kind r = REMINDER_KIND (dl_kind f) \<and> alert_target r = day_of (dl_dueDate f)"
    if "r \<in> set (bk_alerts b)" "al_deadlineId r = Some i" for r i
    using ok that unfolding alerts_ok_def by blast
  have old2: "alert_target r = alert_target s"
    if "r \<in> set (bk_alerts b)" "s \<in> set (bk_alerts b)" "al_kind r = al_kind s" "al_cycle r = al_cycle s" for r s
    using ok that unfolding alerts_ok_def by blast
  have due_day: "due = day (dl_dueDate e) * ms_per_day" "0 \<le> day (dl_dueDate e)"
    using day_of_recent [of "dl_dueDate e"] day_mono [OF e(3)] row(3) by simp_all
  have target: "alert_target (new t) = due" if "t \<in> set wanted" for t
  proof -
    have "t \<le> 40000" using th that by (simp add: wanted_def)
    then have "day_of (due - t * DAY_MS) = (day (dl_dueDate e) - t) * ms_per_day"
      using day_of_recent [of "due - t * DAY_MS"] due_day by (simp add: DAY_MS_day)
    then show ?thesis
      using due_day(1) by (simp add: alert_target_def new_def DAY_MS_eq left_diff_distrib)
  qed
  have owner: "f = e" if "f \<in> set (bk_deadlines b)" "dl_id f = dl_id row" for f
    using same_id [OF d(1) that(1) e(1)] that(2) row(1) by simp
  have mine_iff: "r \<in> set mine \<longleftrightarrow> r \<in> set (bk_alerts b) \<and> al_kind r = kind \<and> alert_target r = due" for r
  proof
    assume r: "r \<in> set mine"
    then have "r \<in> set (bk_alerts b)" "al_kind r = kind" "orphan r \<or> al_deadlineId r = Some (dl_id row)"
      by (auto simp: mine_def existing_def)
    then show "r \<in> set (bk_alerts b) \<and> al_kind r = kind \<and> alert_target r = due"
      using old1 [of r "dl_id row"] owner row(3) by (auto simp: orphan_def)
  next
    assume r: "r \<in> set (bk_alerts b) \<and> al_kind r = kind \<and> alert_target r = due"
    show "r \<in> set mine"
    proof (cases "al_deadlineId r")
      case None
      with r show ?thesis by (simp add: mine_def existing_def orphan_def)
    next
      case (Some i)
      then obtain f where f: "f \<in> set (bk_deadlines b)" "dl_id f = i" "al_kind r = REMINDER_KIND (dl_kind f)"
          "alert_target r = day_of (dl_dueDate f)"
        using old1 [OF conjunct1 [OF r] Some] by (elim bexE conjE)
      have "dl_kind f = dl_kind e" using f(3) conjunct1 [OF conjunct2 [OF r]] row(2) by (metis REMINDER_KIND_inj)
      moreover have "day_of (dl_dueDate f) = day_of (dl_dueDate e)"
        using f(4) conjunct2 [OF conjunct2 [OF r]] row(3) by metis
      ultimately have "f = e" by (rule same_deadline [OF d(2) f(1) e(1)])
      with f Some r row(1) show ?thesis by (simp add: mine_def existing_def)
    qed
  qed
  have cycle_mine: "r \<in> set mine" if "r \<in> set (bk_alerts b)" "al_kind r = kind" "al_cycle r = cycle" for r
  proof (cases "mine = []")
    case True
    have "r \<in> set existing" using that by (simp add: existing_def)
    then have "al_cycle r \<le> Max (al_cycle ` set existing)" "existing \<noteq> []" by auto
    with True that(3) show ?thesis by (simp add: cycle_def)
  next
    case False
    then have "hd mine \<in> set mine" by simp
    then have h: "hd mine \<in> set (bk_alerts b)" "al_kind (hd mine) = kind" "alert_target (hd mine) = due"
      using mine_iff by blast+
    have "alert_target r = alert_target (hd mine)"
      using old2 [OF that(1) h(1)] that h(2) False by (simp add: cycle_def)
    then show ?thesis using mine_iff that h by simp
  qed
  have adopt: "al_kind (adopt r) = al_kind r" "al_cycle (adopt r) = al_cycle r" "alert_target (adopt r) = alert_target r"
    "al_offsetDays (adopt r) = al_offsetDays r" for r
    by (simp_all add: adopt_def alert_target_def)
  have adopted: "al_deadlineId (adopt r) = Some (dl_id row)" if "r \<in> set mine" for r
    using that by (auto simp: mine_def existing_def adopt_def)
  note rows = insert_alerts_rows [OF ins]
  have inrows: "(\<exists>s \<in> set (bk_alerts b). r = adopt s) \<or> (\<exists>t \<in> set wanted. r = new t)" if "r \<in> set rows" for r
    using that rows by auto
  have "alerts_ok b'"
    unfolding alerts_ok_def b'
  proof (intro conjI ballI allI impI)
    fix r i assume r: "r \<in> set rows" "al_deadlineId r = Some i"
    from inrows [OF r(1)]
    show "\<exists>f \<in> set (bk_deadlines b). dl_id f = i \<and> al_kind r = REMINDER_KIND (dl_kind f) \<and> alert_target r = day_of (dl_dueDate f)"
    proof (elim disjE bexE)
      fix s assume s: "s \<in> set (bk_alerts b)" "r = adopt s"
      show ?thesis
      proof (cases "orphan s")
        case True
        then show ?thesis using r(2) s e(1) row by (auto simp: adopt_def orphan_def alert_target_def intro!: bexI [of _ e])
      next
        case False
        then show ?thesis using r(2) s old1 [OF s(1)] by (simp add: adopt_def)
      qed
    next
      fix t assume "t \<in> set wanted" "r = new t"
      then show ?thesis using r(2) e(1) row target by (auto simp: new_def intro!: bexI [of _ e])
    qed
  next
    fix r s assume rs: "r \<in> set rows" "s \<in> set rows" "al_kind r = al_kind s \<and> al_cycle r = al_cycle s"
    have due: "alert_target x = due" if "x \<in> set rows" "al_kind x = kind" "al_cycle x = cycle" for x
      using inrows [OF that(1)] that cycle_mine mine_iff target by (auto simp: adopt)
    show "alert_target r = alert_target s"
    proof (cases "al_kind r = kind \<and> al_cycle r = cycle")
      case True
      then show ?thesis using due rs by simp
    next
      case False
      then have "\<forall>t. r \<noteq> new t" "\<forall>t. s \<noteq> new t" using rs(3) by (auto simp: new_def)
      then obtain r0 s0 where "r0 \<in> set (bk_alerts b)" "r = adopt r0" "s0 \<in> set (bk_alerts b)" "s = adopt s0"
        using inrows [OF rs(1)] inrows [OF rs(2)] by blast
      then show ?thesis using old2 [of r0 s0] rs(3) by (simp add: adopt)
    qed
  qed
  moreover have "has_alert b' (dl_id row) t" if t: "t \<in> set thresholds" for t
  proof (cases "t \<in> al_offsetDays ` set mine")
    case True
    then obtain r where r: "r \<in> set mine" "al_offsetDays r = t" by blast
    then have "adopt r \<in> set rows" using mine_iff rows by auto
    then show ?thesis using adopted [OF r(1)] r(2) by (auto simp: has_alert_def b' adopt)
  next
    case False
    then have "t \<in> set wanted" using t by (simp add: wanted_def)
    then have "alert_key (new t) \<in> alert_key ` set rows" using rows by simp
    then obtain r where r: "r \<in> set rows" "alert_key r = alert_key (new t)" by (metis imageE)
    from inrows [OF r(1)] show ?thesis
    proof (elim disjE bexE)
      fix s assume s: "s \<in> set (bk_alerts b)" "r = adopt s"
      then have "al_kind s = kind" "al_cycle s = cycle" "al_offsetDays s = t"
        using r(2) by (simp_all add: alert_key_def new_def adopt)
      then show ?thesis using cycle_mine [OF s(1)] False by (auto simp: image_iff)
    next
      fix u assume "u \<in> set wanted" "r = new u"
      then show ?thesis using r by (auto simp: has_alert_def b' new_def alert_key_def intro!: bexI [of _ r])
    qed
  qed
  moreover have "has_alert b' i t" if h: "has_alert b i t" for i t
  proof -
    obtain r where r: "r \<in> set (bk_alerts b)" "al_deadlineId r = Some i" "al_offsetDays r = t"
      using h by (auto simp: has_alert_def)
    then have "adopt r = r" "adopt r \<in> set rows" using rows by (auto simp: adopt_def orphan_def)
    then show ?thesis using r by (auto simp: has_alert_def b')
  qed
  ultimately show ?thesis by blast
qed


definition placed :: "deadline_row list \<Rightarrow> deadline_row list \<Rightarrow> bool" where
  "placed xs ys \<longleftrightarrow> (\<forall>e \<in> set xs. \<exists>e' \<in> set ys. same_place e e')"

lemma same_place_trans: "same_place e f \<Longrightarrow> same_place f g \<Longrightarrow> same_place e g"
  by (simp add: same_place_def)

lemma placed_trans: "placed xs ys \<Longrightarrow> placed ys zs \<Longrightarrow> placed xs zs"
  unfolding placed_def using same_place_trans by blast

lemma placed_map: "(\<And>e. same_place e (g e)) \<Longrightarrow> placed xs (map g xs)"
  by (auto simp: placed_def)

lemma placed_append: "placed xs (xs @ ys)"
  by (auto simp: placed_def same_place_def)

lemma same_place_key: "same_place e f \<Longrightarrow> row_key f = row_key e"
  by (simp add: same_place_def row_key_def)

lemma alerts_transport:
  assumes "alerts_ok b" "bk_alerts b1 = map f (bk_alerts b)" "\<And>r. same_alert r (f r)" "placed (bk_deadlines b) (bk_deadlines b1)"
  shows "alerts_ok b1" "has_alert b i t \<Longrightarrow> has_alert b1 i t"
proof -
  have f: "al_kind (f r) = al_kind r" "al_cycle (f r) = al_cycle r" "alert_target (f r) = alert_target r"
    "al_deadlineId (f r) = al_deadlineId r" "al_offsetDays (f r) = al_offsetDays r" for r
    using assms(3) [of r] by (simp_all add: same_alert_def alert_target_def)
  show "alerts_ok b1"
    unfolding alerts_ok_def assms(2)
  proof (intro conjI ballI allI impI)
    fix r i assume r: "r \<in> set (map f (bk_alerts b))" "al_deadlineId r = Some i"
    then obtain s where s: "s \<in> set (bk_alerts b)" "r = f s" by auto
    then obtain e where e: "e \<in> set (bk_deadlines b)" "dl_id e = i" "al_kind s = REMINDER_KIND (dl_kind e)"
        "alert_target s = day_of (dl_dueDate e)"
      using assms(1) r(2) unfolding alerts_ok_def by (metis f(4))
    obtain e' where e': "e' \<in> set (bk_deadlines b1)" "same_place e e'"
      using assms(4) e(1) unfolding placed_def by blast
    show "\<exists>e \<in> set (bk_deadlines b1). dl_id e = i \<and> al_kind r = REMINDER_KIND (dl_kind e)
           \<and> alert_target r = day_of (dl_dueDate e)"
      using e e' by (intro bexI [of _ e']) (simp_all add: s(2) f same_place_def)
  next
    fix r s assume rs: "r \<in> set (map f (bk_alerts b))" "s \<in> set (map f (bk_alerts b))"
      "al_kind r = al_kind s \<and> al_cycle r = al_cycle s"
    then obtain r0 s0 where o: "r0 \<in> set (bk_alerts b)" "r = f r0" "s0 \<in> set (bk_alerts b)" "s = f s0" by auto
    then have "al_kind r0 = al_kind s0 \<and> al_cycle r0 = al_cycle s0" using rs(3) by (simp add: f)
    then have "alert_target r0 = alert_target s0" using assms(1) o(1,3) unfolding alerts_ok_def by blast
    then show "alert_target r = alert_target s" by (simp add: o f)
  qed
  show "has_alert b1 i t" if h: "has_alert b i t"
  proof -
    obtain r where "r \<in> set (bk_alerts b)" "al_deadlineId r = Some i" "al_offsetDays r = t"
      using h by (auto simp: has_alert_def)
    then show ?thesis unfolding has_alert_def assms(2) by (intro bexI [of _ "f r"]) (simp_all add: f)
  qed
qed

text \<open>What the loop keeps, apart from the alerts.\<close>

definition book_shape :: "deadline_row list \<Rightarrow> (computed_deadline \<times> string) list \<Rightarrow> deadline_book \<Rightarrow> bool" where
  "book_shape rows ps b \<longleftrightarrow>
     placed rows (bk_deadlines b) \<and> distinct (map dl_id (bk_deadlines b)) \<and> distinct (map row_key (bk_deadlines b))
     \<and> (\<forall>e \<in> set (bk_deadlines b). 0 \<le> dl_dueDate e \<and> dl_id e \<notin> snd ` set ps
          \<and> (row_key e \<in> row_key ` set rows \<or> row_key e \<notin> wanted_key ` fst ` set ps))"

lemma day_of_nonneg: "0 \<le> d \<Longrightarrow> 0 \<le> day_of d"
  using day_mono [of d] by (simp add: day_of_recent ms_per_day_def)

lemma settle_shape:
  assumes rows: "distinct (map row_key rows)" and s: "settle_row now rows d i b = (row, c, b1)"
    and b: "book_shape rows ((d, i) # ps) b" and ps: "distinct (map (wanted_key \<circ> fst) ((d, i) # ps))" "distinct (map snd ((d, i) # ps))"
    and due: "0 \<le> cd_dueDate d" and al: "alerts_ok b"
  shows "book_shape rows ps b1" "alerts_ok b1" "has_alert b j t \<Longrightarrow> has_alert b1 j t"
    "row_key row = wanted_key d" "\<exists>e \<in> set (bk_deadlines b1). same_place e row" "placed (bk_deadlines b) (bk_deadlines b1)"
proof -
  have "book_shape rows ps b1 \<and> alerts_ok b1 \<and> (\<forall>j t. has_alert b j t \<longrightarrow> has_alert b1 j t)
      \<and> row_key row = wanted_key d \<and> (\<exists>e \<in> set (bk_deadlines b1). same_place e row) \<and> placed (bk_deadlines b) (bk_deadlines b1)"
    using settle_cases [OF rows s]
  proof (elim disjE exE conjE)
    fix e h f
    assume e: "e \<in> set rows" "row_key e = wanted_key d" "same_place e row" "\<forall>x. same_place x (h x)"
      and b1: "bk_deadlines b1 = map (\<lambda>x. if dl_id x = dl_id e then h x else x) (bk_deadlines b)"
        "bk_alerts b1 = map f (bk_alerts b)" "\<forall>r. same_alert r (f r)"
    let ?g = "\<lambda>x. if dl_id x = dl_id e then h x else x"
    have g: "same_place x (?g x)" for x using e(4) by (simp add: same_place_def)
    have gf: "dl_id (?g x) = dl_id x" "dl_dueDate (?g x) = dl_dueDate x" "row_key (?g x) = row_key x" for x
      using g [of x] same_place_key [OF g [of x]] by (simp_all add: same_place_def)
    have pl: "placed (bk_deadlines b) (bk_deadlines b1)" unfolding b1(1) using g by (rule placed_map)
    have m: "map dl_id (bk_deadlines b1) = map dl_id (bk_deadlines b)" "map row_key (bk_deadlines b1) = map row_key (bk_deadlines b)"
      unfolding b1(1) by (simp_all add: gf(1,3) del: if_split)
    have "0 \<le> dl_dueDate y \<and> dl_id y \<notin> snd ` set ps \<and> (row_key y \<in> row_key ` set rows \<or> row_key y \<notin> wanted_key ` fst ` set ps)"
      if y: "y \<in> set (bk_deadlines b1)" for y
    proof -
      obtain x where "x \<in> set (bk_deadlines b)" "y = ?g x" using y unfolding b1(1) set_map by blast
      moreover from this b have "0 \<le> dl_dueDate x \<and> dl_id x \<notin> snd ` set ((d, i) # ps)
          \<and> (row_key x \<in> row_key ` set rows \<or> row_key x \<notin> wanted_key ` fst ` set ((d, i) # ps))"
        unfolding book_shape_def by blast
      ultimately show ?thesis using gf [of x] by (simp del: if_split) blast
    qed
    moreover have prows: "placed rows (bk_deadlines b1)"
      by (rule placed_trans [OF _ pl]) (use b in \<open>simp add: book_shape_def\<close>)
    moreover have "distinct (map dl_id (bk_deadlines b1))" "distinct (map row_key (bk_deadlines b1))"
      unfolding m using b by (simp_all add: book_shape_def)
    ultimately have "book_shape rows ps b1" unfolding book_shape_def by blast
    moreover obtain x where "x \<in> set (bk_deadlines b1)" "same_place e x"
      using prows e(1) unfolding placed_def by blast
    moreover from this e(3) have "same_place x row" by (simp add: same_place_def)
    ultimately show ?thesis
      using alerts_transport [OF al b1(2) _ pl] b1(3) same_place_key [OF e(3)] e(2) pl by auto
  next
    assume a: "wanted_key d \<notin> row_key ` set rows" "row = new_row now (d, i)"
      "b1 = b\<lparr>bk_deadlines := bk_deadlines b @ [new_row now (d, i)]\<rparr>"
    have k: "row_key (new_row now (d, i)) = wanted_key d" using new_row_key [of "(d, i)" now] due by simp
    have pl: "placed (bk_deadlines b) (bk_deadlines b1)" by (simp add: a(3) placed_append)
    have "wanted_key d \<notin> row_key ` set (bk_deadlines b)" "i \<notin> dl_id ` set (bk_deadlines b)"
      using b a(1) by (auto simp: book_shape_def)
    then have "book_shape rows ps b1"
      using b ps k placed_trans [OF _ pl] day_of_nonneg [OF due]
      by (auto simp: book_shape_def a(3) new_row_def image_iff)
    moreover have "alerts_ok b1" "has_alert b j t \<Longrightarrow> has_alert b1 j t" for j t
      using alerts_transport [OF al _ _ pl, of id] by (simp_all add: a(3) same_alert_def)
    ultimately show ?thesis
      using k pl by (auto simp: a(2,3) same_place_def)
  qed
  then show "book_shape rows ps b1" "alerts_ok b1" "has_alert b j t \<Longrightarrow> has_alert b1 j t"
    "row_key row = wanted_key d" "\<exists>e \<in> set (bk_deadlines b1). same_place e row" "placed (bk_deadlines b) (bk_deadlines b1)"
    by blast+
qed


lemma process_alerts:
  assumes rows: "distinct (map row_key rows)" and th: "\<forall>t \<in> set th. t \<le> 40000"
    and "book_shape rows ps (snd acc)" "distinct (map (wanted_key \<circ> fst) ps)" "distinct (map snd ps)"
    and "\<forall>di \<in> set ps. 0 \<le> cd_dueDate (fst di)" "alerts_ok (snd acc)"
    and "b' = snd (fold (process_deadline th rc now rows) ps acc)"
  shows "alerts_ok b' \<and> (\<forall>i t. has_alert (snd acc) i t \<longrightarrow> has_alert b' i t) \<and> placed (bk_deadlines (snd acc)) (bk_deadlines b')
     \<and> (\<forall>di \<in> set ps. \<not> due_past now (fst di) \<longrightarrow>
          (\<exists>e \<in> set (bk_deadlines b'). row_key e = wanted_key (fst di) \<and> (\<forall>t \<in> set th. has_alert b' (dl_id e) t)))"
  using assms(3-)
proof (induction ps arbitrary: acc)
  case Nil
  then show ?case by (simp add: placed_def same_place_def) blast
next
  case (Cons di ps)
  obtain d i where di: "di = (d, i)" by (cases di)
  obtain row c b1 where s: "settle_row now rows d i (snd acc) = (row, c, b1)" by (metis prod.exhaust)
  have due: "0 \<le> cd_dueDate d" using Cons.prems(4) by (simp add: di)
  note st = settle_shape [OF rows s Cons.prems(1) [unfolded di] Cons.prems(2) [unfolded di] Cons.prems(3) [unfolded di] due Cons.prems(5)]
  let ?acc = "process_deadline th rc now rows di acc"
  obtain e where e: "e \<in> set (bk_deadlines b1)" "same_place e row" using st(5) by blast
  have e0: "0 \<le> dl_dueDate e" "distinct (map dl_id (bk_deadlines b1))" "distinct (map row_key (bk_deadlines b1))"
    using st(1) e(1) by (simp_all add: book_shape_def)
  have sd: "bk_deadlines (snd ?acc) = bk_deadlines b1" by (simp add: s di)
  have step: "alerts_ok (snd ?acc) \<and> (\<forall>j t. has_alert b1 j t \<longrightarrow> has_alert (snd ?acc) j t)
      \<and> (\<not> due_past now d \<longrightarrow> (\<forall>t \<in> set th. has_alert (snd ?acc) (dl_id row) t))"
  proof (cases "due_past now d")
    case True
    then have "snd ?acc = b1" by (simp add: process_deadline_def split_def s di)
    with True st(2) show ?thesis by simp
  next
    case False
    obtain n b2 where m: "materialize_alerts th rc now row b1 = (n, b2)" by fastforce
    have "snd ?acc = b2" using False by (simp add: process_deadline_def split_def s di m)
    then show ?thesis using materialize_ok [OF st(2) e0(2,3) e e0(1) th m] by simp
  qed
  have "book_shape rows ps (snd ?acc)" using st(1) unfolding book_shape_def sd .
  then have ih: "alerts_ok b' \<and> (\<forall>i t. has_alert (snd ?acc) i t \<longrightarrow> has_alert b' i t) \<and> placed (bk_deadlines (snd ?acc)) (bk_deadlines b')
     \<and> (\<forall>di \<in> set ps. \<not> due_past now (fst di) \<longrightarrow>
          (\<exists>e \<in> set (bk_deadlines b'). row_key e = wanted_key (fst di) \<and> (\<forall>t \<in> set th. has_alert b' (dl_id e) t)))"
    using Cons.prems(2-6) step by (intro Cons.IH) simp_all
  have pl: "placed (bk_deadlines (snd acc)) (bk_deadlines b')"
    using placed_trans [OF st(6)] ih unfolding sd by blast
  obtain e' where e': "e' \<in> set (bk_deadlines b')" "same_place e e'" using ih e(1) sd unfolding placed_def by metis
  then have "row_key e' = wanted_key d" "dl_id e' = dl_id row"
    using st(4) same_place_key [OF e'(2)] same_place_key [OF e(2)] e(2) by (simp_all add: same_place_def)
  then show ?case
    using ih step st(3) pl e'(1) by (auto simp: di)
qed

lemma obsolete_alerts:
  assumes "alerts_ok b"
  shows "alerts_ok (snd (obsolete_missing W b))"
proof -
  have "alerts_ok (foldl (\<lambda>b e. update_alerts (P e) (\<lambda>r. r\<lparr>al_status := RS_CANCELLED\<rparr>)
      (update_row (dl_id e) (\<lambda>x. x\<lparr>dl_status := DS_OBSOLETE\<rparr>) b)) b gs)" if "alerts_ok b" for P gs b
    using that
  proof (induction gs arbitrary: b)
    case (Cons e gs)
    let ?b = "update_alerts (P e) (\<lambda>r. r\<lparr>al_status := RS_CANCELLED\<rparr>) (update_row (dl_id e) (\<lambda>x. x\<lparr>dl_status := DS_OBSOLETE\<rparr>) b)"
    have "alerts_ok ?b"
      by (rule alerts_transport(1) [OF Cons.prems, where f = "\<lambda>r. if P e r then r\<lparr>al_status := RS_CANCELLED\<rparr> else r"])
        (simp_all add: same_alert_def placed_map same_place_def)
    from Cons.IH [OF this] show ?case by simp
  qed simp
  from this [OF assms] show ?thesis by (simp add: obsolete_missing_def Let_def)
qed

text \<open>When no alert is missing: provided the reminders of one kind and one cycle are for one date
  (\<open>alerts_ok\<close>), after a recomputation every open deadline has, attached to it, an
  alert at each threshold of the tenant, adopted from the activation of the contract or created in
  a cycle that is its own, so that the unique index of the reminders, which silently skips
  duplicates, never swallows one; and the cycles stay apart for the next run. The proviso is not an
  invariant of the whole program: an amendment signed after a tacit renewal plans its reminders in the
  cycle that this function has given to the new term (the theory of the signature requests).\<close>

theorem open_deadlines_have_alerts:
  assumes ok: "book_ok now b" "fresh_ids fresh b" "alerts_ok b"
    and c: "compute_deadlines facts now = Inr ds" "\<forall>d \<in> set ds. 0 \<le> cd_dueDate d" "\<forall>t \<in> set thresholds. t \<le> 40000"
    and r: "recompute MAIN facts thresholds reminderCycle now fresh b = Inr (res, b')"
  shows "alerts_ok b' \<and> (\<forall>d \<in> set ds. \<not> due_past now d \<longrightarrow>
     (\<exists>e \<in> set (bk_deadlines b'). row_key e = wanted_key d \<and> (\<forall>t \<in> set thresholds. has_alert b' (dl_id e) t)))"
proof -
  let ?rows = "bk_deadlines b" and ?W = "wanted_key ` set ds" and ?ps = "zip ds (map fresh [0..<length ds])"
  let ?b1 = "snd (obsolete_missing ?W b)"
  note keys = computed_keys [OF c(1)]
  have dd: "distinct (map dl_id ?rows)" "distinct (map row_key ?rows)" using ok(1) by (simp_all add: book_ok_def)
  have b': "b' = snd (fold (process_deadline thresholds reminderCycle now ?rows) ?ps ((0, 0), ?b1))"
    using r c(1) by (auto simp: recompute_def recompute_rows_def wanted_all [OF keys] Let_def split_def)
  have b1: "bk_deadlines ?b1 = map (marked ?W) ?rows" by (rule obsolete_rows [OF dd(1)])
  have "placed ?rows (bk_deadlines ?b1)" unfolding b1 by (rule placed_map) (simp add: same_place_def)
  moreover have "dl_id e \<notin> snd ` set ?ps" if "e \<in> set ?rows" for e
    using zip_fresh [of _ ds fresh] fresh_new [OF ok(2) that] by metis
  ultimately have shape: "book_shape ?rows ?ps ?b1"
    using ok(1) by (simp add: book_shape_def b1 o_def book_ok_def)
  have ds: "distinct (map (wanted_key \<circ> fst) ?ps)" using keys by (simp add: paired_keys)
  have nn: "\<forall>di \<in> set ?ps. 0 \<le> cd_dueDate (fst di)" using c(2) paired_fst by blast
  have "alerts_ok b' \<and> (\<forall>di \<in> set ?ps. \<not> due_past now (fst di) \<longrightarrow>
          (\<exists>e \<in> set (bk_deadlines b'). row_key e = wanted_key (fst di) \<and> (\<forall>t \<in> set thresholds. has_alert b' (dl_id e) t)))"
    using process_alerts [OF dd(2) c(3) _ ds paired_ids [OF ok(2)] nn, of "((0, 0), ?b1)" b' reminderCycle now] shape obsolete_alerts [OF ok(3)] b' by simp
  then show ?thesis using paired_in [of _ ds fresh] by fastforce
qed


subsection \<open>At a concrete contract\<close>

definition new_book :: deadline_book where
  "new_book = \<lparr>bk_deadlines = [], bk_alerts = []\<rparr>"

definition sample_ids :: "nat \<Rightarrow> string" where
  "sample_ids n = replicate n (CHR ''x'')"

lemma new_book_ok: "book_ok now new_book" "alerts_ok new_book" "fresh_ids sample_ids new_book"
  by (simp_all add: book_ok_def alerts_ok_def fresh_ids_def new_book_def inj_def sample_ids_def)

text \<open>A contract that ends in fifty days, with a revision of its prices in a hundred.\<close>

definition ending_facts :: deadline_facts where
  "ending_facts = (sample_facts TERMINATION_PENDING)\<lparr>df_endDate := None,
     df_terminationEffectiveDate := Some (50 * ms_per_day), df_nextPriceRevisionDate := Some (100 * ms_per_day)\<rparr>"

lemma sample_computed: "\<exists>ds. compute_deadlines ending_facts 0 = Inr ds \<and> (\<forall>d \<in> set ds. 0 \<le> cd_dueDate d)"
  by (simp add: compute_deadlines_def ending_facts_def sample_facts_def ENGAGED_def ms_per_day_def)

lemma sample_recompute:
  "compute_deadlines ending_facts 0 = Inr ds \<Longrightarrow>
     \<exists>res b'. recompute MAIN ending_facts [90, 60, 30, 7] 0 0 sample_ids new_book = Inr (res, b')"
  by (auto simp: recompute_def)

theorem open_deadlines_are_computed_witness:
  "\<exists>ds res b'. compute_deadlines ending_facts 0 = Inr ds
     \<and> recompute MAIN ending_facts [90, 60, 30, 7] 0 0 sample_ids new_book = Inr (res, b')
     \<and> row_key ` set (filter (\<lambda>e. dl_status e = DS_OPEN) (bk_deadlines b')) = wanted_key ` set (filter (\<lambda>d. \<not> due_past 0 d) ds)"
proof -
  obtain ds where ds: "compute_deadlines ending_facts 0 = Inr ds" "\<forall>d \<in> set ds. 0 \<le> cd_dueDate d"
    using sample_computed by blast
  obtain res b' where r: "recompute MAIN ending_facts [90, 60, 30, 7] 0 0 sample_ids new_book = Inr (res, b')"
    using sample_recompute [OF ds(1)] by blast
  show ?thesis
    using open_deadlines_are_computed [OF new_book_ok(1,3) ds r] ds(1) r by simp
qed

theorem open_deadlines_have_alerts_witness:
  "\<exists>ds res b'. compute_deadlines ending_facts 0 = Inr ds
     \<and> recompute MAIN ending_facts [90, 60, 30, 7] 0 0 sample_ids new_book = Inr (res, b')
     \<and> list_all (\<lambda>d. due_past 0 d \<or> list_ex (\<lambda>e. row_key e = wanted_key d \<and>
          list_all (has_alert b' (dl_id e)) [90, 60, 30, 7]) (bk_deadlines b')) ds"
proof -
  obtain ds where ds: "compute_deadlines ending_facts 0 = Inr ds" "\<forall>d \<in> set ds. 0 \<le> cd_dueDate d"
    using sample_computed by blast
  obtain res b' where r: "recompute MAIN ending_facts [90, 60, 30, 7] 0 0 sample_ids new_book = Inr (res, b')"
    using sample_recompute [OF ds(1)] by blast
  have th: "\<forall>t \<in> set [90, 60, 30, 7]. t \<le> (40000 :: int)" by simp
  show ?thesis
    using open_deadlines_have_alerts [OF new_book_ok(1,3,2) ds th r] ds(1) r by (auto simp: list_all_iff list_ex_iff)
qed

end
