(* ===== verification/SignatureRequests.thy ===== *)
theory SignatureRequests
  imports LifecycleJobs SigningOrder
begin

text \<open>
  The electronic signature of a contract: \<open>apps/api/src/signature/send-for-signature.service.ts\<close> and
  \<open>signature-actions.service.ts\<close> (\<open>revoke\<close>), \<open>apps/api/src/webhooks/docuseal-webhook.service.ts\<close> (\<open>process\<close>
  and what it applies) and \<open>reconciliation-events.ts\<close>. One function is one database transaction; what
  happens between two of them, the calls to the provider, is an argument. A transaction that throws
  leaves the tables as they were. An event that names no request of the contract is left to the proposals.
\<close>

subsection \<open>Rows\<close>

datatype signer_status = SG_PENDING | SG_SENT | SG_VIEWED | SG_SIGNED | SG_DECLINED

datatype request_status =
    RQ_CREATING | RQ_SENT | RQ_PARTIALLY_COMPLETED | RQ_COMPLETED | RQ_DECLINED | RQ_EXPIRED | RQ_REVOKED | RQ_FAILED

datatype renewal_status = RN_PENDING | RN_ACCEPTED | RN_REFUSED | RN_EXPIRED

record contract_signer =
  sg_id :: string
  sg_party :: party
  sg_status :: signer_status
  sg_signedAt :: "jsdate option"
  sg_declineReason :: "string option"
  sg_submitterId :: "string option"

record signature_request =
  rq_id :: string
  rq_idempotencyKey :: string
  rq_versionId :: string
  rq_status :: request_status
  rq_submissionId :: "string option"

record signature_event_row =
  sv_eventId :: string
  sv_requestId :: string
  sv_processed :: bool

text \<open>The contract an amendment amends, with its amount.\<close>

record parent_contract =
  pa_file :: lifecycle_file
  pa_amountCents :: "int option"

text \<open>A contract with its signers, the requests and events of its signature (in the order they were
  created), the renewal requests it answers and, for an amendment, the contract it amends.\<close>

record signature_case =
  sc_row :: contract_row
  sc_amountCents :: "int option"
  sc_hasSuccessor :: bool
  sc_hasPredecessor :: bool
  sc_renewals :: "renewal_status list"
  sc_parent :: "parent_contract option"
  sc_signers :: "contract_signer list"
  sc_requests :: "signature_request list"
  sc_events :: "signature_event_row list"

abbreviation case_status :: "signature_case \<Rightarrow> contract_status" where
  "case_status c \<equiv> cs_status (cr_contract (sc_row c))"

definition CLOSED_REQUEST_STATUSES :: "request_status list" where
  "CLOSED_REQUEST_STATUSES = [RQ_REVOKED, RQ_DECLINED, RQ_EXPIRED, RQ_COMPLETED, RQ_FAILED]"

definition request_closed :: "signature_request \<Rightarrow> bool" where
  "request_closed r \<longleftrightarrow> rq_status r \<in> set CLOSED_REQUEST_STATUSES"

definition update_request :: "string \<Rightarrow> (signature_request \<Rightarrow> signature_request) \<Rightarrow> signature_case \<Rightarrow> signature_case" where
  "update_request i g c = c\<lparr>sc_requests := map (\<lambda>r. if rq_id r = i then g r else r) (sc_requests c)\<rparr>"

definition set_request :: "string \<Rightarrow> request_status \<Rightarrow> signature_case \<Rightarrow> signature_case" where
  "set_request i s = update_request i (\<lambda>r. r\<lparr>rq_status := s\<rparr>)"

definition update_signers ::
    "(contract_signer \<Rightarrow> bool) \<Rightarrow> (contract_signer \<Rightarrow> contract_signer) \<Rightarrow> signature_case \<Rightarrow> signature_case" where
  "update_signers P g c = c\<lparr>sc_signers := map (\<lambda>s. if P s then g s else s) (sc_signers c)\<rparr>"

text \<open>The snapshot of a row loaded without its signers and amendments.\<close>

definition row_snapshot :: "contract_row \<Rightarrow> bool \<Rightarrow> contract_snapshot" where
  "row_snapshot r signedSuccessor =
     (to_snapshot r None signedSuccessor)
       \<lparr>cs_hasLsiSigner := True, cs_hasClientSigner := True, cs_openAmendmentExists := False\<rparr>"

subsection \<open>Sending for signature\<close>

datatype send_failure =
    AlreadyRequested string request_status
  | MissingSigners
  | SendRefused contract_error
  | NoVersionToSend
  | SIGNATURE_ALREADY_IN_PROGRESS

text \<open>What the call keeps from its first transaction to the last: the contract as it was read.\<close>

record send_call =
  sl_requestId :: string
  sl_read :: contract_row

text \<open>The index \<open>signature_requests_one_active\<close>.\<close>

definition request_active :: "signature_request \<Rightarrow> bool" where
  "request_active r \<longleftrightarrow> rq_status r \<in> {RQ_CREATING, RQ_SENT, RQ_PARTIALLY_COMPLETED}"

definition prepare_send ::
    "string \<Rightarrow> string \<Rightarrow> jsdate \<Rightarrow> signature_case \<Rightarrow> send_failure + send_call \<times> signature_case" where
  "prepare_send idempotencyKey i now c =
     (case List.find (\<lambda>r. rq_idempotencyKey r = idempotencyKey) (sc_requests c) of
        Some r \<Rightarrow> Inl (AlreadyRequested (rq_id r) (rq_status r))
      | None \<Rightarrow>
          if \<not> list_ex (\<lambda>s. sg_party s = LSI) (sc_signers c) \<or> \<not> list_ex (\<lambda>s. sg_party s = CLIENT) (sc_signers c)
          then Inl MissingSigners
          else case apply_event (row_snapshot (sc_row c) False) (SEND_FOR_SIGNATURE ''check'') now of
            Inl e \<Rightarrow> Inl (SendRefused e)
          | Inr _ \<Rightarrow>
              (case cs_currentVersionId (cr_contract (sc_row c)) of
                 None \<Rightarrow> Inl NoVersionToSend
               | Some v \<Rightarrow>
                   if list_ex request_active (sc_requests c) then Inl SIGNATURE_ALREADY_IN_PROGRESS
                   else Inr (\<lparr>sl_requestId = i, sl_read = sc_row c\<rparr>,
                     c\<lparr>sc_requests := sc_requests c @
                       [\<lparr>rq_id = i, rq_idempotencyKey = idempotencyKey, rq_versionId = v, rq_status = RQ_CREATING,
                         rq_submissionId = None\<rparr>]\<rparr>)))"

text \<open>The provider refused.\<close>

definition fail_send :: "send_call \<Rightarrow> signature_case \<Rightarrow> signature_case" where
  "fail_send call c = set_request (sl_requestId call) RQ_FAILED c"

text \<open>The provider accepted: its submission and the submitter of each signer. The machine is applied to the
  contract as the first transaction read it, and what it returns is written over the contract as it is.\<close>

definition confirm_send ::
    "send_call \<Rightarrow> string \<Rightarrow> string \<Rightarrow> (string \<times> string) list \<Rightarrow> jsdate \<Rightarrow> signature_case \<Rightarrow> contract_error + signature_case" where
  "confirm_send call userId submission submitters now c =
     (let c1 = update_request (sl_requestId call) (\<lambda>r. r\<lparr>rq_status := RQ_SENT, rq_submissionId := Some submission\<rparr>) c;
          c2 = foldl (\<lambda>c (i, sub). update_signers (\<lambda>s. sg_id s = i)
                 (\<lambda>s. s\<lparr>sg_status := SG_SENT, sg_submitterId := Some sub\<rparr>) c) c1 submitters
      in case apply_event (row_snapshot (sl_read call) False) (SEND_FOR_SIGNATURE userId) now of
           Inl e \<Rightarrow> Inl e
         | Inr next \<Rightarrow> Inr (c2\<lparr>sc_row := persist_transition (sc_row c2) next\<rparr>))"

subsection \<open>Revocation\<close>

datatype revoke_failure = NO_ACTIVE_REQUEST | RevokeRefused contract_error

text \<open>A snapshot that only knows the status.\<close>

definition bare_snapshot :: "contract_status \<Rightarrow> contract_snapshot" where
  "bare_snapshot s =
     \<lparr>cs_id = ''x'', cs_type = MAIN, cs_status = s, cs_startDate = None, cs_endDate = None, cs_noticePeriodDays = None,
      cs_currentVersionId = None, cs_approvedVersionId = None, cs_submittedByUserId = None, cs_hasLsiSigner = True,
      cs_hasClientSigner = True, cs_hasRequiredAttachments = True, cs_openAmendmentExists = False,
      cs_hasSignedSuccessor = False, cs_signedAt = None, cs_activatedAt = None, cs_terminatedAt = None,
      cs_acceptedVersionId = None, cs_hasUnreviewedAiClauses = False, cs_terminationEffectiveDate = None,
      cs_hasMissingVariables = False\<rparr>"

definition request_to_revoke :: "jsdate \<Rightarrow> signature_case \<Rightarrow> revoke_failure + signature_request" where
  "request_to_revoke now c =
     (case List.find (\<lambda>r. rq_status r = RQ_SENT \<or> rq_status r = RQ_PARTIALLY_COMPLETED) (rev (sc_requests c)) of
        None \<Rightarrow> Inl NO_ACTIVE_REQUEST
      | Some r \<Rightarrow>
          (case apply_event (bare_snapshot (case_status c)) (REVOKE_SIGNATURE ''check'') now of
             Inl e \<Rightarrow> Inl (RevokeRefused e) | Inr _ \<Rightarrow> Inr r))"

definition confirm_revoke :: "string \<Rightarrow> string \<Rightarrow> jsdate \<Rightarrow> signature_case \<Rightarrow> contract_error + signature_case" where
  "confirm_revoke i userId now c =
     ebind (apply_event (bare_snapshot (case_status c)) (REVOKE_SIGNATURE userId) now) (\<lambda>next.
       let c1 = update_signers (\<lambda>s. True) (\<lambda>s. s\<lparr>sg_status := SG_PENDING, sg_submitterId := None\<rparr>) (set_request i RQ_REVOKED c)
       in Inr (c1\<lparr>sc_row := (sc_row c1)\<lparr>cr_contract := (cr_contract (sc_row c1))\<lparr>cs_status := cs_status next\<rparr>\<rparr>\<rparr>))"

subsection \<open>Webhooks\<close>

datatype signature_event_kind =
    FORM_VIEWED | FORM_STARTED | FORM_DECLINED | FORM_COMPLETED | SUBMISSION_EXPIRED | SUBMISSION_COMPLETED

record signature_event =
  ne_eventId :: string
  ne_kind :: signature_event_kind
  ne_submissionId :: string
  ne_signerId :: "string option"
  ne_submitterId :: string
  ne_declineReason :: "string option"
  ne_claimedTenant :: "string option"

datatype webhook_outcome =
    Processed | DuplicateIgnored | UnknownSubmission | Rejected | ClosedIgnored

text \<open>\<open>transition\<close>: the domain decides, and a refusal leaves the contract as it is.\<close>

definition case_transition :: "contract_event \<Rightarrow> jsdate \<Rightarrow> signature_case \<Rightarrow> signature_case" where
  "case_transition event now c =
     (case apply_event (row_snapshot (sc_row c) (sc_hasSuccessor c)) event now of
        Inl _ \<Rightarrow> c
      | Inr next \<Rightarrow> c\<lparr>sc_row := persist_transition (sc_row c) next\<rparr>)"

text \<open>\<open>create\<close> on each reminder: a row that is already there aborts the transaction.\<close>

fun create_reminders :: "reminder_draft list \<Rightarrow> reminder_draft list \<Rightarrow> reminder_draft list option" where
  "create_reminders rows [] = Some rows"
| "create_reminders rows (d # ds) =
     (if reminder_key d \<in> reminder_key ` set rows then None else create_reminders (rows @ [d]) ds)"

definition set_term :: "jsdate option \<Rightarrow> lifecycle_file \<Rightarrow> lifecycle_file" where
  "set_term e f = f\<lparr>lf_row := (lf_row f)\<lparr>cr_contract := (file_contract f)\<lparr>cs_endDate := e\<rparr>\<rparr>\<rparr>"

definition report_on_parent :: "jsdate option \<Rightarrow> int option \<Rightarrow> jsdate \<Rightarrow> parent_contract \<Rightarrow> parent_contract option" where
  "report_on_parent endDate amount now p =
     (let f = pa_file p in
      if file_status f \<noteq> ACTIVE \<and> file_status f \<noteq> SIGNED then Some p
      else case endDate of
        Some e \<Rightarrow>
          if file_status f = ACTIVE
          then (let r = replan_after_end_date_change
                          \<lparr>rp_endDate = Some e, rp_noticePeriodDays = cs_noticePeriodDays (file_contract f),
                           rp_reminderCycle = lf_reminderCycle f\<rparr> now;
                    f1 = set_term (Some e) (cancel_pending f)
                in map_option (\<lambda>rows. p\<lparr>pa_file := f1\<lparr>lf_reminderCycle := rr_newCycle r, lf_reminders := rows\<rparr>,
                                      pa_amountCents := amount\<rparr>)
                     (create_reminders (lf_reminders f1) (rr_reminders r)))
          else Some (p\<lparr>pa_file := set_term (Some e) f, pa_amountCents := amount\<rparr>)
      | None \<Rightarrow> Some (p\<lparr>pa_file := set_term None f, pa_amountCents := amount\<rparr>))"

definition report_amendment :: "jsdate \<Rightarrow> signature_case \<Rightarrow> signature_case option" where
  "report_amendment now c =
     (case sc_parent c of
        None \<Rightarrow> Some c
      | Some p \<Rightarrow>
          if cs_type (cr_contract (sc_row c)) \<noteq> AMENDMENT then Some c
          else map_option (\<lambda>p'. c\<lparr>sc_parent := Some p'\<rparr>)
                 (report_on_parent (cs_endDate (cr_contract (sc_row c))) (sc_amountCents c) now p))"

definition accept_renewal :: "signature_case \<Rightarrow> signature_case" where
  "accept_renewal c =
     (if \<not> sc_hasPredecessor c then c
      else c\<lparr>sc_renewals := map (\<lambda>s. if s = RN_PENDING then RN_ACCEPTED else s) (sc_renewals c)\<rparr>)"

definition complete_all :: "string \<Rightarrow> jsdate \<Rightarrow> signature_case \<Rightarrow> signature_case option" where
  "complete_all i now c =
     report_amendment now (accept_renewal (case_transition (SIGNER_SIGNED True) now (set_request i RQ_COMPLETED c)))"

definition event_signer :: "signature_event \<Rightarrow> signature_case \<Rightarrow> contract_signer option" where
  "event_signer ev c =
     (if \<not> js_falsy (ne_signerId ev) then List.find (\<lambda>s. Some (sg_id s) = ne_signerId ev) (sc_signers c)
      else List.find (\<lambda>s. sg_submitterId s = Some (ne_submitterId ev)) (sc_signers c))"

definition update_signer :: "contract_signer option \<Rightarrow> (contract_signer \<Rightarrow> contract_signer) \<Rightarrow> signature_case \<Rightarrow> signature_case" where
  "update_signer s g c = (case s of None \<Rightarrow> c | Some s \<Rightarrow> update_signers (\<lambda>x. sg_id x = sg_id s) g c)"

definition signer_signed_already :: "contract_signer option \<Rightarrow> bool" where
  "signer_signed_already s = (case s of None \<Rightarrow> False | Some s \<Rightarrow> sg_status s = SG_SIGNED)"

text \<open>The business effect of an event; the boolean tells that a capture of the proof is to be queued.\<close>

definition apply_business_effect ::
    "string \<Rightarrow> signature_event \<Rightarrow> jsdate \<Rightarrow> signature_case \<Rightarrow> (bool \<times> signature_case) option" where
  "apply_business_effect i ev now c =
     (let signer = event_signer ev c in
      case ne_kind ev of
        FORM_VIEWED \<Rightarrow>
          Some (False, if map_option sg_status signer = Some SG_SENT
                       then update_signer signer (\<lambda>s. s\<lparr>sg_status := SG_VIEWED\<rparr>) c else c)
      | FORM_STARTED \<Rightarrow> Some (False, c)
      | FORM_DECLINED \<Rightarrow>
          if signer_signed_already signer then Some (False, c)
          else Some (False,
            case_transition (SIGNER_DECLINED (case ne_declineReason ev of None \<Rightarrow> [] | Some r \<Rightarrow> r)) now
             (set_request i RQ_DECLINED
               (update_signer signer (\<lambda>s. s\<lparr>sg_status := SG_DECLINED, sg_declineReason := ne_declineReason ev\<rparr>) c)))
      | FORM_COMPLETED \<Rightarrow>
          if signer_signed_already signer then Some (False, c)
          else (let c1 = update_signer signer (\<lambda>s. s\<lparr>sg_status := SG_SIGNED, sg_signedAt := Some now\<rparr>) c in
                if list_ex (\<lambda>s. sg_status s \<noteq> SG_SIGNED) (sc_signers c1)
                then Some (False, case_transition (SIGNER_SIGNED False) now (set_request i RQ_PARTIALLY_COMPLETED c1))
                else map_option (Pair True) (complete_all i now c1))
      | SUBMISSION_EXPIRED \<Rightarrow> Some (False, case_transition SIGNATURE_EXPIRE now (set_request i RQ_EXPIRED c))
      | SUBMISSION_COMPLETED \<Rightarrow>
          map_option (Pair True)
            (complete_all i now
              (update_signers (\<lambda>s. sg_status s \<noteq> SG_SIGNED) (\<lambda>s. s\<lparr>sg_status := SG_SIGNED, sg_signedAt := Some now\<rparr>) c)))"

definition mark_processed :: "string \<Rightarrow> signature_case \<Rightarrow> signature_case" where
  "mark_processed e c =
     c\<lparr>sc_events := map (\<lambda>x. if sv_eventId x = e then x\<lparr>sv_processed := True\<rparr> else x) (sc_events c)\<rparr>"

text \<open>\<open>process\<close>: its outcome, the request whose proof is to be captured, and the case; nothing when the
  transaction aborts.\<close>

definition process_event ::
    "string \<Rightarrow> signature_event \<Rightarrow> jsdate \<Rightarrow> signature_case \<Rightarrow> (webhook_outcome \<times> string option \<times> signature_case) option" where
  "process_event tenantId ev now c =
     (case List.find (\<lambda>r. rq_submissionId r = Some (ne_submissionId ev)) (sc_requests c) of
        None \<Rightarrow> Some (UnknownSubmission, None, c)
      | Some r \<Rightarrow>
          if \<not> js_falsy (ne_claimedTenant ev) \<and> ne_claimedTenant ev \<noteq> Some tenantId then Some (Rejected, None, c)
          else if ne_eventId ev \<in> sv_eventId ` set (sc_events c) then Some (DuplicateIgnored, None, c)
          else
            let c1 = c\<lparr>sc_events := sc_events c @ [\<lparr>sv_eventId = ne_eventId ev, sv_requestId = rq_id r, sv_processed = False\<rparr>]\<rparr>
            in if request_closed r then Some (ClosedIgnored, None, mark_processed (ne_eventId ev) c1)
               else map_option (\<lambda>(capture, c2).
                      (Processed, if capture then Some (rq_id r) else None, mark_processed (ne_eventId ev) c2))
                    (apply_business_effect (rq_id r) ev now c1))"

text \<open>Any series of events, delivered by webhooks or by a reconciliation; one that aborts changes nothing.
  The captures queued are returned.\<close>

fun process_all :: "string \<Rightarrow> (signature_event \<times> jsdate) list \<Rightarrow> signature_case \<Rightarrow> string list \<times> signature_case" where
  "process_all tenantId [] c = ([], c)"
| "process_all tenantId ((ev, now) # evs) c =
     (case process_event tenantId ev now c of
        None \<Rightarrow> process_all tenantId evs c
      | Some (out, capture, c1) \<Rightarrow>
          (let (captures, c2) = process_all tenantId evs c1
           in (case capture of None \<Rightarrow> captures | Some i \<Rightarrow> i # captures, c2)))"

subsection \<open>Reconciliation\<close>

datatype submission_status = SUB_PENDING | SUB_COMPLETED | SUB_DECLINED | SUB_EXPIRED

datatype submitter_status = ST_AWAITING | ST_SENT | ST_OPENED | ST_COMPLETED | ST_DECLINED

record submitter_state =
  st_submitterId :: string
  st_externalId :: "string option"
  st_status :: submitter_status
  st_openedAt :: "jsdate option"
  st_completedAt :: "jsdate option"
  st_declineReason :: "string option"

record submission_state =
  sb_submissionId :: string
  sb_status :: submission_status
  sb_submitters :: "submitter_state list"

fun kind_name :: "signature_event_kind \<Rightarrow> string" where
  "kind_name FORM_VIEWED = ''FORM_VIEWED''"
| "kind_name FORM_STARTED = ''FORM_STARTED''"
| "kind_name FORM_DECLINED = ''FORM_DECLINED''"
| "kind_name FORM_COMPLETED = ''FORM_COMPLETED''"
| "kind_name SUBMISSION_EXPIRED = ''SUBMISSION_EXPIRED''"
| "kind_name SUBMISSION_COMPLETED = ''SUBMISSION_COMPLETED''"

definition reconcile_id :: "submission_state \<Rightarrow> signature_event_kind \<Rightarrow> string \<Rightarrow> string" where
  "reconcile_id state kind suffix =
     ''docuseal:reconcile:'' @ kind_name kind @ '':'' @ sb_submissionId state @ '':'' @ suffix"

definition by_signer :: "submission_state \<Rightarrow> signature_event_kind \<Rightarrow> submitter_state \<Rightarrow> signature_event" where
  "by_signer state kind s =
     \<lparr>ne_eventId = reconcile_id state kind (st_submitterId s), ne_kind = kind, ne_submissionId = sb_submissionId state,
      ne_signerId = st_externalId s, ne_submitterId = st_submitterId s,
      ne_declineReason = (if kind = FORM_DECLINED then st_declineReason s else None), ne_claimedTenant = None\<rparr>"

definition submission_event :: "submission_state \<Rightarrow> signature_event_kind \<Rightarrow> signature_event" where
  "submission_event state kind =
     \<lparr>ne_eventId = reconcile_id state kind ''submission'', ne_kind = kind, ne_submissionId = sb_submissionId state,
      ne_signerId = None, ne_submitterId = [], ne_declineReason = None, ne_claimedTenant = None\<rparr>"

definition reconciliation_events :: "submission_state \<Rightarrow> signature_event list" where
  "reconciliation_events state =
     (let ss = sb_submitters state in
      map (by_signer state FORM_VIEWED) (filter (\<lambda>s. st_status s = ST_OPENED \<or> st_openedAt s \<noteq> None) ss)
      @ map (by_signer state FORM_COMPLETED)
          (sort_key (\<lambda>s. case st_completedAt s of None \<Rightarrow> 0 | Some t \<Rightarrow> t) (filter (\<lambda>s. st_status s = ST_COMPLETED) ss))
      @ map (by_signer state FORM_DECLINED) (filter (\<lambda>s. st_status s = ST_DECLINED) ss)
      @ (if sb_status state = SUB_COMPLETED then [submission_event state SUBMISSION_COMPLETED] else [])
      @ (if sb_status state = SUB_EXPIRED then [submission_event state SUBMISSION_EXPIRED] else []))"

definition reconcile_from_provider ::
    "string \<Rightarrow> submission_state \<Rightarrow> jsdate \<Rightarrow> signature_case \<Rightarrow> string list \<times> signature_case" where
  "reconcile_from_provider tenantId state now c =
     process_all tenantId (map (\<lambda>ev. (ev, now)) (reconciliation_events state)) c"


subsection \<open>What an event changes\<close>

text \<open>A signer who signed and a request that is closed stay exactly as they are.\<close>

definition signer_kept :: "contract_signer \<Rightarrow> contract_signer \<Rightarrow> bool" where
  "signer_kept s s' \<longleftrightarrow> sg_id s' = sg_id s \<and> (sg_status s = SG_SIGNED \<longrightarrow> s' = s)"

definition request_kept :: "signature_request \<Rightarrow> signature_request \<Rightarrow> bool" where
  "request_kept r r' \<longleftrightarrow> rq_id r' = rq_id r \<and> (request_closed r \<longrightarrow> r' = r)"

definition keys_ok :: "signature_case \<Rightarrow> bool" where
  "keys_ok c \<longleftrightarrow> distinct (map sg_id (sc_signers c)) \<and> distinct (map rq_id (sc_requests c))"

definition case_kept :: "signature_case \<Rightarrow> signature_case \<Rightarrow> bool" where
  "case_kept c c' \<longleftrightarrow> list_all2 signer_kept (sc_signers c) (sc_signers c')
     \<and> list_all2 request_kept (sc_requests c) (sc_requests c')"

lemma update_fields [simp]:
  "sc_signers (update_request i g c) = sc_signers c" "sc_row (update_request i g c) = sc_row c"
  "sc_events (update_request i g c) = sc_events c" "sc_hasSuccessor (update_request i g c) = sc_hasSuccessor c"
  "sc_requests (update_request i g c) = map (\<lambda>r. if rq_id r = i then g r else r) (sc_requests c)"
  "sc_requests (update_signers P h c) = sc_requests c" "sc_row (update_signers P h c) = sc_row c"
  "sc_events (update_signers P h c) = sc_events c"
  "sc_signers (update_signers P h c) = map (\<lambda>s. if P s then h s else s) (sc_signers c)"
  by (simp_all add: update_request_def update_signers_def)

lemma set_request_fields [simp]:
  "sc_signers (set_request i s c) = sc_signers c" "sc_row (set_request i s c) = sc_row c"
  "sc_events (set_request i s c) = sc_events c" "sc_hasSuccessor (set_request i s c) = sc_hasSuccessor c"
  "sc_requests (set_request i s c) = map (\<lambda>r. if rq_id r = i then r\<lparr>rq_status := s\<rparr> else r) (sc_requests c)"
  by (simp_all add: set_request_def)

lemma update_signer_fields [simp]:
  "sc_requests (update_signer s h c) = sc_requests c" "sc_row (update_signer s h c) = sc_row c"
  "sc_events (update_signer s h c) = sc_events c"
  by (simp_all add: update_signer_def split: option.splits)

lemma transition_fields [simp]:
  "sc_signers (case_transition e now c) = sc_signers c" "sc_requests (case_transition e now c) = sc_requests c"
  "sc_events (case_transition e now c) = sc_events c" "sc_parent (case_transition e now c) = sc_parent c"
  by (simp_all add: case_transition_def split: sum.splits)

lemma accept_renewal_fields [simp]:
  "sc_signers (accept_renewal c) = sc_signers c" "sc_requests (accept_renewal c) = sc_requests c"
  "sc_events (accept_renewal c) = sc_events c" "sc_row (accept_renewal c) = sc_row c"
  by (simp_all add: accept_renewal_def)

lemma report_fields:
  "report_amendment now c = Some c' \<Longrightarrow> sc_signers c' = sc_signers c \<and> sc_requests c' = sc_requests c
     \<and> sc_events c' = sc_events c \<and> sc_row c' = sc_row c"
  by (auto simp: report_amendment_def split: option.splits if_splits)

lemma complete_all_fields:
  assumes "complete_all i now c = Some c'"
  shows "sc_signers c' = sc_signers c" "sc_events c' = sc_events c"
    "sc_requests c' = map (\<lambda>r. if rq_id r = i then r\<lparr>rq_status := RQ_COMPLETED\<rparr> else r) (sc_requests c)"
    "sc_row c' = sc_row (case_transition (SIGNER_SIGNED True) now c)"
  using report_fields [OF assms [unfolded complete_all_def]]
  by (simp_all add: case_transition_def split: sum.splits)

lemma event_signer_in: "event_signer ev c = Some s \<Longrightarrow> s \<in> set (sc_signers c)"
  by (auto simp: event_signer_def find_Some_iff split: if_splits)

lemma kept_refl [simp]:
  "list_all2 signer_kept ss ss" "list_all2 request_kept rs rs" "signer_kept s s" "request_kept r r"
  by (simp_all add: list_all2_same signer_kept_def request_kept_def)

lemma update_signer_kept:
  assumes "distinct (map sg_id (sc_signers c))" "event_signer ev c = found" "\<not> signer_signed_already found"
    and "\<And>s. sg_id (g s) = sg_id s"
  shows "list_all2 signer_kept (sc_signers c) (sc_signers (update_signer found g c))"
proof (cases found)
  case (Some s)
  have "x = s" if "x \<in> set (sc_signers c)" "sg_id x = sg_id s" for x
    using that assms(1) event_signer_in [of ev c s] assms(2) Some by (auto simp: distinct_map dest: inj_onD)
  then show ?thesis
    using assms(3,4) Some
    by (auto simp: update_signer_def signer_kept_def signer_signed_already_def list_all2_map2 list_all2_same)
qed (simp add: update_signer_def)

text \<open>The row after an event: as it was, or advanced by the one transition of the event.\<close>

lemma apply_signing_target:
  "apply_event s (SIGNER_SIGNED b) now = Inr s' \<Longrightarrow> cs_status s' = (if b then SIGNED else PARTIALLY_SIGNED)"
  "apply_event s (SIGNER_DECLINED x) now = Inr s' \<Longrightarrow> cs_status s' = DECLINED"
  "apply_event s SIGNATURE_EXPIRE now = Inr s' \<Longrightarrow> cs_status s' = SIGNATURE_EXPIRED"
  by (auto simp: apply_event_Inr_iff signer_signed_def signer_declined_def signature_expire_def split: if_splits)

definition signing_event :: "bool \<Rightarrow> contract_event \<Rightarrow> bool" where
  "signing_event b e \<longleftrightarrow> e = SIGNER_SIGNED b \<or> (\<exists>x. e = SIGNER_DECLINED x) \<or> e = SIGNATURE_EXPIRE"

definition row_advances :: "bool \<Rightarrow> jsdate \<Rightarrow> contract_row \<Rightarrow> contract_row \<Rightarrow> bool" where
  "row_advances b now r r' \<longleftrightarrow> r' = r \<or>
     (\<exists>e succ next. signing_event b e \<and> apply_event (row_snapshot r succ) e now = Inr next \<and> r' = persist_transition r next)"

lemma transition_advances:
  "signing_event b e \<Longrightarrow> row_advances b now (sc_row c) (sc_row (case_transition e now c))"
  by (auto simp: case_transition_def row_advances_def split: sum.splits)

lemma advances_not_signed:
  "row_advances False now r r' \<Longrightarrow> cs_status (cr_contract r') = SIGNED \<Longrightarrow> cs_status (cr_contract r) = SIGNED"
  using apply_signing_target by (fastforce simp: row_advances_def signing_event_def)

lemma effect_advances:
  assumes "apply_business_effect i ev now c = Some (b, c')"
  shows "row_advances b now (sc_row c) (sc_row c')"
proof -
  have e: "signing_event b (SIGNER_SIGNED b)" "signing_event b (SIGNER_DECLINED x)" "signing_event b SIGNATURE_EXPIRE" for b x
    by (simp_all add: signing_event_def)
  have t: "row_advances b now (sc_row c) (sc_row (case_transition e now d))" if "signing_event b e" "sc_row d = sc_row c" for b e d
    using transition_advances [OF that(1), of now d] that(2) by simp
  have r: "row_advances b now r r" for b r by (simp add: row_advances_def)
  show ?thesis
    using assms complete_all_fields(4)
    by (cases "ne_kind ev") (fastforce simp: apply_business_effect_def Let_def r intro: t e split: if_splits)+
qed

lemma effect_fields:
  assumes "apply_business_effect i ev now c = Some (b, c')"
  shows "sc_events c' = sc_events c"
    and "\<exists>g. (\<forall>r. rq_id (g r) = rq_id r) \<and> (\<forall>r. rq_versionId (g r) = rq_versionId r) \<and> sc_requests c' = map (\<lambda>r. if rq_id r = i then g r else r) (sc_requests c)
           \<and> (b \<longrightarrow> g = (\<lambda>r. r\<lparr>rq_status := RQ_COMPLETED\<rparr>))"
    and "\<not> b \<Longrightarrow> case_status c' = SIGNED \<Longrightarrow> case_status c = SIGNED"
    and "b \<Longrightarrow> list_all (\<lambda>s. sg_status s = SG_SIGNED) (sc_signers c')"
proof -
  note defs = apply_business_effect_def Let_def
  have id: "(\<lambda>r. if rq_id r = i then r else r) = id" by auto
  show "sc_events c' = sc_events c"
    using assms complete_all_fields by (fastforce simp: defs split: signature_event_kind.splits if_splits)
  show "\<exists>g. (\<forall>r. rq_id (g r) = rq_id r) \<and> (\<forall>r. rq_versionId (g r) = rq_versionId r) \<and> sc_requests c' = map (\<lambda>r. if rq_id r = i then g r else r) (sc_requests c)
           \<and> (b \<longrightarrow> g = (\<lambda>r. r\<lparr>rq_status := RQ_COMPLETED\<rparr>))"
  proof (cases b)
    case True
    then have "sc_requests c' = map (\<lambda>r. if rq_id r = i then r\<lparr>rq_status := RQ_COMPLETED\<rparr> else r) (sc_requests c)"
      using assms complete_all_fields(3) by (fastforce simp: defs split: signature_event_kind.splits if_splits)
    with True show ?thesis by (intro exI [of _ "\<lambda>r. r\<lparr>rq_status := RQ_COMPLETED\<rparr>"]) simp
  next
    case False
    then have "sc_requests c' = sc_requests c
        \<or> (\<exists>s. sc_requests c' = map (\<lambda>r. if rq_id r = i then r\<lparr>rq_status := s\<rparr> else r) (sc_requests c))"
      using assms by (auto simp: defs split: signature_event_kind.splits if_splits)
    then show ?thesis
    proof
      assume "sc_requests c' = sc_requests c"
      with False show ?thesis by (intro exI [of _ "\<lambda>r. r"]) (simp add: id)
    next
      assume "\<exists>s. sc_requests c' = map (\<lambda>r. if rq_id r = i then r\<lparr>rq_status := s\<rparr> else r) (sc_requests c)"
      then obtain s where "sc_requests c' = map (\<lambda>r. if rq_id r = i then r\<lparr>rq_status := s\<rparr> else r) (sc_requests c)" by blast
      with False show ?thesis by (intro exI [of _ "\<lambda>r. r\<lparr>rq_status := s\<rparr>"]) simp
    qed
  qed
  show "case_status c = SIGNED" if "\<not> b" "case_status c' = SIGNED"
    using effect_advances [OF assms] that advances_not_signed by simp
  show "list_all (\<lambda>s. sg_status s = SG_SIGNED) (sc_signers c')" if b
    using assms that complete_all_fields(1)
    by (fastforce simp: defs list_all_iff list_ex_iff split: signature_event_kind.splits if_splits)
qed

lemma effect_signers_kept:
  assumes "apply_business_effect i ev now c = Some (b, c')" "distinct (map sg_id (sc_signers c))"
  shows "list_all2 signer_kept (sc_signers c) (sc_signers c')"
proof (cases "ne_kind ev")
  case FORM_VIEWED
  show ?thesis
  proof (cases "map_option sg_status (event_signer ev c) = Some SG_SENT")
    case True
    then have "\<not> signer_signed_already (event_signer ev c)" by (auto simp: signer_signed_already_def)
    moreover have "c' = update_signer (event_signer ev c) (\<lambda>s. s\<lparr>sg_status := SG_VIEWED\<rparr>) c"
      using assms(1) FORM_VIEWED True by (simp add: apply_business_effect_def Let_def)
    ultimately show ?thesis using update_signer_kept [OF assms(2) refl] by simp
  next
    case False
    then show ?thesis using assms(1) FORM_VIEWED by (simp add: apply_business_effect_def Let_def) (auto split: if_splits)
  qed
next
  case FORM_DECLINED
  then show ?thesis
    using assms(1) update_signer_kept [OF assms(2) refl] by (auto simp: apply_business_effect_def Let_def split: if_splits)
next
  case FORM_COMPLETED
  then show ?thesis
    using assms(1) update_signer_kept [OF assms(2) refl] complete_all_fields(1)
    by (fastforce simp: apply_business_effect_def Let_def split: if_splits)
next
  case SUBMISSION_COMPLETED
  then have "sc_signers c' = map (\<lambda>s. if sg_status s \<noteq> SG_SIGNED then s\<lparr>sg_status := SG_SIGNED, sg_signedAt := Some now\<rparr> else s) (sc_signers c)"
    using assms(1) complete_all_fields(1) by (fastforce simp: apply_business_effect_def)
  then show ?thesis by (simp add: list_all2_map2 list_all2_same signer_kept_def)
qed (use assms in \<open>auto simp: apply_business_effect_def\<close>)

lemma mark_fields [simp]:
  "sc_signers (mark_processed e c) = sc_signers c" "sc_requests (mark_processed e c) = sc_requests c"
  "sc_row (mark_processed e c) = sc_row c"
  by (simp_all add: mark_processed_def)


lemma process_cases:
  assumes "process_event tenantId ev now c = Some (out, capture, c')"
  obtains "c' = c" "capture = None"
  | r where "r \<in> set (sc_requests c)" "request_closed r" "capture = None" "sc_signers c' = sc_signers c"
      "sc_requests c' = sc_requests c" "sc_row c' = sc_row c"
  | r b c1 c2 where "r \<in> set (sc_requests c)" "\<not> request_closed r" "sc_signers c1 = sc_signers c" "sc_requests c1 = sc_requests c"
      "sc_row c1 = sc_row c" "apply_business_effect (rq_id r) ev now c1 = Some (b, c2)"
      "capture = (if b then Some (rq_id r) else None)" "c' = mark_processed (ne_eventId ev) c2"
proof (cases "List.find (\<lambda>r. rq_submissionId r = Some (ne_submissionId ev)) (sc_requests c)")
  case None
  then show ?thesis using assms that(1) by (simp add: process_event_def)
next
  case (Some r)
  have r: "r \<in> set (sc_requests c)" using Some by (auto simp: find_Some_iff)
  let ?c1 = "c\<lparr>sc_events := sc_events c @ [\<lparr>sv_eventId = ne_eventId ev, sv_requestId = rq_id r, sv_processed = False\<rparr>]\<rparr>"
  show ?thesis
  proof (cases "request_closed r")
    case True
    then show ?thesis using assms Some that(1) that(2) [OF r True] by (auto simp: process_event_def Let_def split: if_splits)
  next
    case False
    then show ?thesis
      using assms Some that(1) that(3) [OF r False, of ?c1]
      by (auto simp: process_event_def Let_def split: if_splits)
  qed
qed

lemma process_step:
  assumes p: "process_event tenantId ev now c = Some (out, capture, c')" and k: "keys_ok c"
  shows "case_kept c c' \<and> keys_ok c'
     \<and> (case capture of None \<Rightarrow> case_status c' = SIGNED \<longrightarrow> case_status c = SIGNED
        | Some i \<Rightarrow> list_all (\<lambda>s. sg_status s = SG_SIGNED) (sc_signers c')
            \<and> (\<exists>r \<in> set (sc_requests c). rq_id r = i \<and> \<not> request_closed r)
            \<and> (\<exists>r \<in> set (sc_requests c'). rq_id r = i \<and> rq_status r = RQ_COMPLETED))"
  using p
proof (cases rule: process_cases)
  case 1
  then show ?thesis using k by (simp add: case_kept_def)
next
  case (2 r)
  then show ?thesis using k by (simp add: case_kept_def keys_ok_def)
next
  case (3 r b c1 c2)
  have d: "distinct (map sg_id (sc_signers c1))" "distinct (map rq_id (sc_requests c))"
    using k 3(3) by (simp_all add: keys_ok_def)
  have signers: "list_all2 signer_kept (sc_signers c) (sc_signers c')"
    using effect_signers_kept [OF 3(6) d(1)] by (simp add: 3(3,8))
  obtain g where g: "\<And>r. rq_id (g r) = rq_id r"
      "sc_requests c2 = map (\<lambda>x. if rq_id x = rq_id r then g x else x) (sc_requests c)"
      "b \<longrightarrow> g = (\<lambda>r. r\<lparr>rq_status := RQ_COMPLETED\<rparr>)"
    using effect_fields(2) [OF 3(6)] unfolding 3(4) by blast
  have same: "x = r" if "x \<in> set (sc_requests c)" "rq_id x = rq_id r" for x
    using that 3(1) d(2) by (auto simp: distinct_map dest: inj_onD)
  have requests: "list_all2 request_kept (sc_requests c) (sc_requests c')"
    using same 3(2) g(1) by (auto simp: 3(8) g(2) list_all2_map2 list_all2_same request_kept_def)
  have ids: "map sg_id (sc_signers c') = map sg_id (sc_signers c)" "map rq_id (sc_requests c') = map rq_id (sc_requests c)"
    using signers requests
    by (simp_all add: list_all2_conv_all_nth signer_kept_def request_kept_def list_eq_iff_nth_eq)
  have keys: "keys_ok c'" using k unfolding keys_ok_def ids .
  show ?thesis
  proof (cases b)
    case True
    have "\<exists>x \<in> set (sc_requests c'). rq_id x = rq_id r \<and> rq_status x = RQ_COMPLETED"
      using 3(1) g True by (auto simp: 3(8) intro!: rev_bexI [of "r\<lparr>rq_status := RQ_COMPLETED\<rparr>"])
    then show ?thesis
      using True signers requests keys 3(1,2,7) effect_fields(4) [OF 3(6)] by (auto simp: case_kept_def 3(8))
  next
    case False
    then show ?thesis
      using signers requests keys 3(5,7) effect_fields(3) [OF 3(6)] by (simp add: case_kept_def 3(8))
  qed
qed

lemma signer_kept_trans: "signer_kept a b \<Longrightarrow> signer_kept b c \<Longrightarrow> signer_kept a c"
  by (auto simp: signer_kept_def)

lemma request_kept_trans: "request_kept a b \<Longrightarrow> request_kept b c \<Longrightarrow> request_kept a c"
  by (auto simp: request_kept_def)

lemma case_kept_trans: "case_kept a b \<Longrightarrow> case_kept b c \<Longrightarrow> case_kept a c"
  using list_all2_trans [where ?P1.0 = signer_kept and ?P2.0 = signer_kept and ?P3.0 = signer_kept]
    list_all2_trans [where ?P1.0 = request_kept and ?P2.0 = request_kept and ?P3.0 = request_kept]
    signer_kept_trans request_kept_trans unfolding case_kept_def by metis

lemma kept_request: "list_all2 request_kept rs rs' \<Longrightarrow> r \<in> set rs \<Longrightarrow> \<exists>r' \<in> set rs'. request_kept r r'"
  by (induction rule: list_all2_induct) auto

lemma kept_request_before: "list_all2 request_kept rs rs' \<Longrightarrow> r' \<in> set rs' \<Longrightarrow> \<exists>r \<in> set rs. request_kept r r'"
  by (induction rule: list_all2_induct) auto

lemma kept_signed:
  "list_all2 signer_kept ss ss' \<Longrightarrow> list_all (\<lambda>s. sg_status s = SG_SIGNED) ss \<Longrightarrow> ss' = ss"
  by (induction rule: list_all2_induct) (auto simp: signer_kept_def)

text \<open>C15: A signature is collected once and is never undone, whatever the order, the repetition and the lateness
  of the events of the provider, webhooks or reconciliation. A request that is closed and a signer who
  signed stay exactly as they are, at the date of the signature. The proof of a request is captured at
  most once, for a request that was open and is completed; the contract becomes signed only with such a
  capture, and then every signer has signed.\<close>

theorem signature_collected_once:
  assumes "keys_ok c" "process_all tenantId evs c = (captures, c')"
  shows "list_all2 signer_kept (sc_signers c) (sc_signers c') \<and> list_all2 request_kept (sc_requests c) (sc_requests c')
     \<and> distinct captures
     \<and> (\<forall>i \<in> set captures. (\<exists>r \<in> set (sc_requests c). rq_id r = i \<and> \<not> request_closed r)
          \<and> (\<exists>r \<in> set (sc_requests c'). rq_id r = i \<and> rq_status r = RQ_COMPLETED))
     \<and> (case_status c' = SIGNED \<longrightarrow> case_status c = SIGNED \<or> captures \<noteq> [])
     \<and> (captures \<noteq> [] \<longrightarrow> list_all (\<lambda>s. sg_status s = SG_SIGNED) (sc_signers c'))"
  using assms
proof (induction evs arbitrary: c captures)
  case Nil
  then show ?case by simp
next
  case (Cons e evs)
  obtain ev now where e: "e = (ev, now)" by (cases e)
  show ?case
  proof (cases "process_event tenantId ev now c")
    case None
    then show ?thesis using Cons e by simp
  next
    case (Some x)
    obtain out capture c1 where x: "process_event tenantId ev now c = Some (out, capture, c1)" using Some by (cases x) auto
    obtain cs where cs: "process_all tenantId evs c1 = (cs, c')" "captures = (case capture of None \<Rightarrow> cs | Some i \<Rightarrow> i # cs)"
      using Cons.prems(2) x by (simp add: e split: prod.splits)
    note s = process_step [OF x Cons.prems(1)]
    then have "keys_ok c1" by blast
    note ih = Cons.IH [OF this cs(1)]
    have kept: "case_kept c c'" using s ih case_kept_trans [of c c1 c'] by (simp add: case_kept_def)
    have open_before: "\<exists>r \<in> set (sc_requests c). rq_id r = i \<and> \<not> request_closed r"
      if i: "\<exists>r \<in> set (sc_requests c1). rq_id r = i \<and> \<not> request_closed r" for i
    proof -
      obtain r1 where r1: "r1 \<in> set (sc_requests c1)" "rq_id r1 = i" "\<not> request_closed r1" using i by blast
      have "list_all2 request_kept (sc_requests c) (sc_requests c1)" using s by (simp add: case_kept_def)
      then obtain r where "r \<in> set (sc_requests c)" "request_kept r r1"
        using r1(1) by (auto dest: kept_request_before)
      then show ?thesis using r1 by (auto simp: request_kept_def)
    qed
    show ?thesis
    proof (cases capture)
      case None
      then show ?thesis using kept ih s open_before cs(2) by (auto simp: case_kept_def)
    next
      case (Some i)
      then obtain r1 where r1: "r1 \<in> set (sc_requests c1)" "rq_id r1 = i" "rq_status r1 = RQ_COMPLETED"
        and first: "\<exists>r \<in> set (sc_requests c). rq_id r = i \<and> \<not> request_closed r"
        and all: "list_all (\<lambda>s. sg_status s = SG_SIGNED) (sc_signers c1)"
        using s by auto
      have closed: "request_closed r1" by (simp add: request_closed_def CLOSED_REQUEST_STATUSES_def r1(3))
      have "r = r1" if "r \<in> set (sc_requests c1)" "rq_id r = i" for r
        using that r1 s by (auto simp: keys_ok_def distinct_map dest: inj_onD)
      then have "i \<notin> set cs" using ih closed by blast
      moreover have "\<exists>r \<in> set (sc_requests c'). rq_id r = i \<and> rq_status r = RQ_COMPLETED"
        using kept_request [of "sc_requests c1" "sc_requests c'" r1] ih r1 closed by (auto simp: request_kept_def)
      moreover have "list_all (\<lambda>s. sg_status s = SG_SIGNED) (sc_signers c')"
        using kept_signed [of "sc_signers c1" "sc_signers c'"] ih all by simp
      ultimately show ?thesis using Some kept ih first open_before cs(2) by (auto simp: case_kept_def)
    qed
  qed
qed


subsection \<open>At a concrete contract\<close>

text \<open>Sent to the client and to LSI; the client opens it, both sign, then the events of a lost refusal, of an
  expiry and of the completion of the submission arrive.\<close>

definition signing_case :: signature_case where
  "signing_case =
     \<lparr>sc_row = sample_row PENDING_SIGNATURE (Some ''v'') [], sc_amountCents = None, sc_hasSuccessor = False,
      sc_hasPredecessor = False, sc_renewals = [], sc_parent = None,
      sc_signers =
        [\<lparr>sg_id = ''c'', sg_party = CLIENT, sg_status = SG_SENT, sg_signedAt = None, sg_declineReason = None,
          sg_submitterId = Some ''1''\<rparr>,
         \<lparr>sg_id = ''l'', sg_party = LSI, sg_status = SG_SENT, sg_signedAt = None, sg_declineReason = None,
          sg_submitterId = Some ''2''\<rparr>],
      sc_requests =
        [\<lparr>rq_id = ''r'', rq_idempotencyKey = ''k'', rq_versionId = ''v'', rq_status = RQ_SENT, rq_submissionId = Some ''s''\<rparr>],
      sc_events = []\<rparr>"

definition signing_event_of :: "string \<Rightarrow> signature_event_kind \<Rightarrow> string option \<Rightarrow> signature_event" where
  "signing_event_of e kind signer =
     \<lparr>ne_eventId = e, ne_kind = kind, ne_submissionId = ''s'', ne_signerId = signer, ne_submitterId = [],
      ne_declineReason = None, ne_claimedTenant = Some ''lsi''\<rparr>"

definition signing_events :: "(signature_event \<times> jsdate) list" where
  "signing_events =
     [(signing_event_of ''e1'' FORM_VIEWED (Some ''c''), 1), (signing_event_of ''e2'' FORM_COMPLETED (Some ''c''), 2),
      (signing_event_of ''e2'' FORM_COMPLETED (Some ''c''), 3), (signing_event_of ''e3'' FORM_COMPLETED (Some ''l''), 4),
      (signing_event_of ''e4'' FORM_DECLINED (Some ''c''), 5), (signing_event_of ''e5'' SUBMISSION_COMPLETED None, 6)]"

lemma signing_events_collected: "fst (process_all ''lsi'' signing_events signing_case) = [''r'']"
  by code_simp

theorem signature_collected_once_witness:
  "\<exists>c. process_all ''lsi'' signing_events signing_case = ([''r''], c)
     \<and> list_all (\<lambda>s. sg_status s = SG_SIGNED) (sc_signers c)"
proof -
  obtain c where c: "process_all ''lsi'' signing_events signing_case = ([''r''], c)"
    using signing_events_collected by (metis prod.collapse)
  have "keys_ok signing_case" by (simp add: keys_ok_def signing_case_def)
  from signature_collected_once [OF this c] c show ?thesis by simp
qed

text \<open>A contract renewed tacitly keeps its reminder cycle, while the alerts of its new term were written in the next
  one: the reminders of an amendment collide with them, the transaction aborts, and the amendment that
  everybody signed is never recorded, however often the provider delivers the event again.\<close>

lemma replan_collision:
  assumes "file_status (pa_file p) = ACTIVE"
    and "(EXPIRY, 90, lf_reminderCycle (pa_file p) + 1) \<in> reminder_key ` set (lf_reminders (pa_file p))"
  shows "report_on_parent (Some e) amount now p = None"
proof -
  have "reminder_key ` set (lf_reminders (set_term (Some e) (cancel_pending f))) = reminder_key ` set (lf_reminders f)" for f
    using cancel_pending_keys [of f] by (simp add: set_term_def) (metis set_map)
  then show ?thesis
    using assms
    by (simp add: report_on_parent_def Let_def replan_after_end_date_change_def plan_reminders_def EXPIRY_OFFSETS_def
        reminder_key_def)
qed

end
