(* ===== verification/ContractFlow.thy ===== *)
theory ContractFlow
  imports SignatureRequests
begin

text \<open>
  Everything that writes the status or the versions of a contract, interleaved: the events of users
  (\<open>contracts.service.ts\<close>), the jobs and the client's acceptance (\<open>negotiation/acceptance.service.ts\<close>), new
  texts (\<open>content.service.ts\<close>, \<open>structure/structure.service.ts\<close>), the validation of an import
  (\<open>imports/imports.service.ts\<close>), and the electronic signature of \<open>SignatureRequests\<close>, whose sending reads
  the contract in a first transaction and writes it in a last one. A step is one transaction.
\<close>

subsection \<open>New texts and imports\<close>

text \<open>\<open>save\<close> and \<open>saveAiClauses\<close> of the structure: the version written sets its counters, a full
  replacement by AI clauses makes the contract an AI one.\<close>

definition save_structure ::
    "contract_row \<Rightarrow> string \<Rightarrow> string \<Rightarrow> bool \<Rightarrow> bool \<Rightarrow> bool \<Rightarrow> jsdate \<Rightarrow> service_error + contract_row" where
  "save_structure r userId versionId missing unreviewed byAi now =
     (case apply_event (row_snapshot r False) (EDIT_CONTENT userId) now of
        Inl e \<Rightarrow> Inl (ServiceConflict ''RM-04'')
      | Inr next \<Rightarrow>
          Inr ((persist_transition
            (r\<lparr>cr_contract := (cr_contract r)\<lparr>cs_currentVersionId := Some versionId,
                cs_hasMissingVariables := missing, cs_hasUnreviewedAiClauses := unreviewed\<rparr>\<rparr>) next)
              \<lparr>cr_originAi := cr_originAi r \<or> byAi\<rparr>))"

record import_fields =
  im_signedAt :: "jsdate option"
  im_startDate :: jsdate
  im_endDate :: "jsdate option"
  im_noticePeriodDays :: "int option"
  im_noticePeriodMonths :: "int option"
  im_renewalTacit :: bool
  im_renewalPeriodMonths :: "int option"

definition imported_row :: "contract_row \<Rightarrow> import_fields \<Rightarrow> contract_row" where
  "imported_row r v =
     r\<lparr>cr_contract := (cr_contract r)\<lparr>cs_signedAt := im_signedAt v, cs_startDate := Some (im_startDate v),
         cs_endDate := im_endDate v, cs_noticePeriodDays := im_noticePeriodDays v\<rparr>,
       cr_noticePeriodMonths := im_noticePeriodMonths v, cr_renewalTacit := im_renewalTacit v,
       cr_renewalPeriodMonths := im_renewalPeriodMonths v\<rparr>"

definition validate_imported ::
    "contract_row \<Rightarrow> import_fields \<Rightarrow> string \<Rightarrow> jsdate \<Rightarrow> service_error + contract_row" where
  "validate_imported r v userId now =
     (if cs_status (cr_contract r) \<noteq> IMPORTED_PENDING_VALIDATION then Inl (ServiceConflict ''IMPORT_ALREADY_VALIDATED'')
      else ebind (lift_domain (apply_event (row_snapshot (imported_row r v) False) (VALIDATE_IMPORT userId) now)) (\<lambda>next.
             Inr (persist_transition (imported_row r v) next)))"

text \<open>The client's acceptance of a version of the contract, in the portal or recorded by the staff.\<close>

definition accept_version :: "contract_row \<Rightarrow> string \<Rightarrow> jsdate \<Rightarrow> service_error + contract_row" where
  "accept_version r versionId now =
     ebind (lift_domain (apply_event (row_snapshot r False) (CLIENT_ACCEPT versionId) now)) (\<lambda>next.
       Inr (persist_transition r next))"

subsection \<open>The life of a contract\<close>

text \<open>The sendings under way are part of the state. \<open>fl_overtaken\<close> only records, for the statement, that a
  sending was confirmed over a text saved since it began. A contract starts as a draft, as an import
  to validate, or, when the proposal signed was itself the contract, already active. Any other fact
  around the contract may change at any time.\<close>

record contract_flow =
  fl_case :: signature_case
  fl_calls :: "send_call list"
  fl_overtaken :: bool

abbreviation flow_row :: "contract_flow \<Rightarrow> contract_row" where
  "flow_row fl \<equiv> sc_row (fl_case fl)"

abbreviation flow_contract :: "contract_flow \<Rightarrow> contract_snapshot" where
  "flow_contract fl \<equiv> cr_contract (flow_row fl)"

definition with_row :: "contract_flow \<Rightarrow> contract_row \<Rightarrow> contract_flow" where
  "with_row fl r = fl\<lparr>fl_case := (fl_case fl)\<lparr>sc_row := r\<rparr>\<rparr>"

definition new_flow :: "contract_flow \<Rightarrow> bool" where
  "new_flow fl \<longleftrightarrow> cs_status (flow_contract fl) \<in> {DRAFT, IMPORTED_PENDING_VALIDATION, ACTIVE}
     \<and> cs_approvedVersionId (flow_contract fl) = None \<and> cs_acceptedVersionId (flow_contract fl) = None
     \<and> sc_requests (fl_case fl) = [] \<and> fl_calls fl = [] \<and> \<not> fl_overtaken fl"

definition user_decisions :: "contract_event_type set" where
  "user_decisions = {T_SUBMIT_FOR_REVIEW, T_APPROVE, T_REQUEST_CHANGES, T_EDIT_CONTENT}"

definition signature_decisions :: "contract_event_type set" where
  "signature_decisions = {T_SEND_FOR_SIGNATURE, T_REVOKE_SIGNATURE}"

definition same_progress :: "contract_snapshot \<Rightarrow> contract_snapshot \<Rightarrow> bool" where
  "same_progress c d \<longleftrightarrow>
     cs_status d = cs_status c \<and> cs_currentVersionId d = cs_currentVersionId c
     \<and> cs_approvedVersionId d = cs_approvedVersionId c \<and> cs_acceptedVersionId d = cs_acceptedVersionId c"

definition same_requests :: "signature_case \<Rightarrow> signature_case \<Rightarrow> bool" where
  "same_requests c d \<longleftrightarrow> sc_row d = sc_row c \<and> map rq_versionId (sc_requests d) = map rq_versionId (sc_requests c)"

inductive flow_step :: "contract_flow \<Rightarrow> contract_flow \<Rightarrow> bool" where
  user: "event_type e \<notin> insert T_EDIT_CONTENT signature_decisions \<Longrightarrow> service_apply (flow_row fl) e now = Inr r \<Longrightarrow>
    flow_step fl (with_row fl r)"
| terminated: "service_terminate (flow_row fl) dto userId isAdmin now = Inr r \<Longrightarrow> flow_step fl (with_row fl r)"
| system: "event_type e \<notin> user_decisions \<union> signature_decisions \<Longrightarrow> same_progress (flow_contract fl) s \<Longrightarrow>
    apply_event s e now = Inr next \<Longrightarrow> flow_step fl (with_row fl (persist_transition (flow_row fl) next))"
| accepted: "accept_version (flow_row fl) v now = Inr r \<Longrightarrow> flow_step fl (with_row fl r)"
| content: "save_content (flow_row fl) u v missing now = Inr r \<Longrightarrow> flow_step fl (with_row fl r)"
| restructured: "save_structure (flow_row fl) u v missing unreviewed byAi now = Inr r \<Longrightarrow> flow_step fl (with_row fl r)"
| imported: "validate_imported (flow_row fl) data u now = Inr r \<Longrightarrow> flow_step fl (with_row fl r)"
| prepared: "prepare_send key i now (fl_case fl) = Inr (call, c) \<Longrightarrow>
    flow_step fl (fl\<lparr>fl_case := c, fl_calls := call # fl_calls fl\<rparr>)"
| refused: "call \<in> set (fl_calls fl) \<Longrightarrow>
    flow_step fl (fl\<lparr>fl_case := fail_send call (fl_case fl), fl_calls := remove1 call (fl_calls fl)\<rparr>)"
| confirmed: "call \<in> set (fl_calls fl) \<Longrightarrow> confirm_send call u submission submitters now (fl_case fl) = Inr c \<Longrightarrow>
    flow_step fl (fl\<lparr>fl_case := c, fl_calls := remove1 call (fl_calls fl),
      fl_overtaken := fl_overtaken fl
        \<or> cs_currentVersionId (flow_contract fl) \<noteq> cs_currentVersionId (cr_contract (sl_read call))\<rparr>)"
| abandoned: "flow_step fl (fl\<lparr>fl_calls := remove1 call (fl_calls fl)\<rparr>)"
| revoked: "confirm_revoke i u now (fl_case fl) = Inr c \<Longrightarrow> flow_step fl (fl\<lparr>fl_case := c\<rparr>)"
| webhook: "process_event tenantId ev now (fl_case fl) = Some (out, capture, c) \<Longrightarrow> flow_step fl (fl\<lparr>fl_case := c\<rparr>)"
| facts: "same_progress (flow_contract fl) s \<Longrightarrow>
    flow_step fl (with_row fl ((flow_row fl)\<lparr>cr_contract := s\<rparr>))"
| around: "same_requests (fl_case fl) c \<Longrightarrow> flow_step fl (fl\<lparr>fl_case := c\<rparr>)"

inductive flow_reachable :: "contract_flow \<Rightarrow> bool" where
  start: "new_flow fl \<Longrightarrow> flow_reachable fl"
| step: "flow_reachable fl \<Longrightarrow> flow_step fl fl' \<Longrightarrow> flow_reachable fl'"

subsection \<open>What a step keeps\<close>














lemma same_progress_refl [simp]: "same_progress c c"
  by (simp add: same_progress_def)


lemma lift_domain_Inr [simp]: "lift_domain x = Inr c \<longleftrightarrow> x = Inr c"
  by (cases x) (simp_all add: lift_domain_def)










subsection \<open>Reviews\<close>





subsection \<open>The invariant\<close>





lemma versions_updated: "(\<And>r. rq_versionId (g r) = rq_versionId r) \<Longrightarrow>
    map rq_versionId (sc_requests (update_request i g c)) = map rq_versionId (sc_requests c)"
  by simp









subsection \<open>Correctness\<close>



text \<open>A draft, submitted, approved and sent for signature.\<close>

definition sample_flow :: "contract_row \<Rightarrow> signature_request list \<Rightarrow> send_call list \<Rightarrow> bool \<Rightarrow> contract_flow" where
  "sample_flow r rs calls over =
     \<lparr>fl_case = signing_case\<lparr>sc_row := r, sc_requests := rs\<rparr>, fl_calls = calls, fl_overtaken = over\<rparr>"

abbreviation sample_approved :: contract_row where
  "sample_approved \<equiv> sample_row APPROVED (Some ''v'') [sample_approval AD_APPROVED (Some ''b'')]"

definition sample_request :: "request_status \<Rightarrow> string option \<Rightarrow> signature_request" where
  "sample_request s sub =
     \<lparr>rq_id = ''r'', rq_idempotencyKey = ''k'', rq_versionId = ''v'', rq_status = s, rq_submissionId = sub\<rparr>"

definition sample_call :: send_call where
  "sample_call = \<lparr>sl_requestId = ''r'', sl_read = sample_approved\<rparr>"

lemma sample_flow_row: "with_row (sample_flow r rs calls over) r' = sample_flow r' rs calls over"
  by (simp add: with_row_def sample_flow_def)

lemma sample_flow_fields [simp]: "flow_row (sample_flow r rs calls over) = r" "fl_calls (sample_flow r rs calls over) = calls"
  "fl_overtaken (sample_flow r rs calls over) = over" "sc_requests (fl_case (sample_flow r rs calls over)) = rs"
  by (simp_all add: sample_flow_def)

lemma sample_submit:
  "service_apply (sample_row DRAFT None []) (SUBMIT_FOR_REVIEW ''a'') 0
     = Inr (sample_row IN_REVIEW None [sample_approval AD_PENDING None])"
  by code_simp

lemma sample_approve:
  "service_apply (sample_row IN_REVIEW None [sample_approval AD_PENDING None]) (APPROVE ''b'') 1 = Inr sample_approved"
  by code_simp

lemma sample_approved_reachable: "flow_reachable (sample_flow sample_approved [] [] False)"
proof -
  have 0: "flow_reachable (sample_flow (sample_row DRAFT None []) [] [] False)"
    by (rule flow_reachable.start) (simp add: new_flow_def sample_flow_def sample_row_def sample_snapshot_def)
  have 1: "flow_reachable (sample_flow (sample_row IN_REVIEW None [sample_approval AD_PENDING None]) [] [] False)"
    using flow_reachable.step [OF 0 flow_step.user [where e = "SUBMIT_FOR_REVIEW ''a''" and now = 0]]
    by (simp add: sample_submit sample_flow_row signature_decisions_def)
  show ?thesis
    using flow_reachable.step [OF 1 flow_step.user [where e = "APPROVE ''b''" and now = 1]]
    by (simp add: sample_approve sample_flow_row signature_decisions_def)
qed

lemma sample_prepare:
  "prepare_send ''k'' ''r'' 2 (fl_case (sample_flow sample_approved [] [] False))
     = Inr (sample_call, fl_case (sample_flow sample_approved [sample_request RQ_CREATING None] [] False))"
  by code_simp

lemma sample_sent_reachable:
  "flow_reachable (sample_flow sample_approved [sample_request RQ_CREATING None] [sample_call] False)"
  using flow_reachable.step [OF sample_approved_reachable flow_step.prepared [OF sample_prepare]]
  by (simp add: sample_flow_def)


text \<open>A text saved while the provider answers is overtaken by the confirmation: the contract is in signature, its
  current text is not the one approved and sent.\<close>

lemma sending_overtakes_a_new_text:
  "\<exists>fl. flow_reachable fl \<and> cs_status (flow_contract fl) = PENDING_SIGNATURE
     \<and> cs_currentVersionId (flow_contract fl) = Some ''w'' \<and> cs_approvedVersionId (flow_contract fl) = Some ''v''
     \<and> map rq_versionId (sc_requests (fl_case fl)) = [''v'']"
proof -
  have "is_ok (save_content sample_approved ''a'' ''w'' False 3)" by code_simp
  then obtain r where r: "save_content sample_approved ''a'' ''w'' False 3 = Inr r" by (auto simp: is_ok_iff)
  let ?sent = "sample_flow sample_approved [sample_request RQ_CREATING None] [sample_call] False"
  let ?fl = "sample_flow r [sample_request RQ_CREATING None] [sample_call] False"
  have "save_content (flow_row ?sent) ''a'' ''w'' False 3 = Inr r" using r by simp
  from flow_reachable.step [OF sample_sent_reachable flow_step.content [OF this]]
  have 1: "flow_reachable ?fl" by (simp add: sample_flow_row)
  have cur: "cs_currentVersionId (cr_contract r) = Some ''w''" using save_content_Inr [OF r] by blast
  have ev: "is_ok (apply_event (row_snapshot sample_approved False) (SEND_FOR_SIGNATURE ''a'') 4)" by code_simp
  then obtain n where n: "apply_event (row_snapshot sample_approved False) (SEND_FOR_SIGNATURE ''a'') 4 = Inr n"
    by (auto simp: is_ok_iff)
  then have f: "cs_status n = PENDING_SIGNATURE" "cs_approvedVersionId n = Some ''v''"
    by (auto simp: apply_event_Inr_iff send_for_signature_def row_snapshot_def to_snapshot_def sample_row_def split: if_splits)
  obtain c where c: "confirm_send sample_call ''a'' ''s'' [] 4 (fl_case ?fl) = Inr c" "sc_row c = persist_transition r n"
      "map rq_versionId (sc_requests c) = [''v'']"
    using n by (auto simp: confirm_send_def sample_call_def sample_request_def Let_def)
  from flow_reachable.step [OF 1 flow_step.confirmed [OF _ c(1)]] show ?thesis
    using c(2,3) f cur by (intro exI [of _ "?fl\<lparr>fl_case := c, fl_calls := [], fl_overtaken := True\<rparr>"])
      (auto simp: sample_call_def sample_row_def sample_snapshot_def)
qed

end
