(* ===== verification/Spec2Isabelle.thy ===== *)
theory Spec2Isabelle
  imports Prelude JsDate LatestBy Machine ContractMachine Months ContractDates Deadlines Reminders
    ProposalMachine ContractService SigningOrder Codes FollowUps Money ExactDecimals FormulaParser
    FormulaEval PricingTypes Indexes Tiers Schedules Overrides Rules PriceLines PriceAt
    PriceBounds PriceTotals PriceQuantities Simulate Serialize ProposalConfig ProposalQuote QuoteLaws
    PriceStatuses GridLines MergeTags ProposalContent ProposalState ProposalFile ProposalDrafts
    ProposalSending ProposalPublic ProposalLife ProposalGuarantees ProposalSample
    ProposalSafety ProposalClient ProposalCreation IsoDays ScheduleVersions IndexSeries OverrideFlow
    WebhookDelivery LifecycleJobs DeadlineBook SignatureRequests ContractFlow
begin

text \<open>
  A verification library for the contract and pricing application: its two packages of pure code,
  \<open>packages/domain\<close> (contracts, proposals, dates, codes) and \<open>packages/pricing\<close> (the pricing engine),
  and the services of \<open>apps/api\<close> that write the life of a contract and of a proposal. All paths are
  under \<open>src/\<close>.

  \<^bold>\<open>The program.\<close> A contract is drafted, reviewed, presented to the client, signed, then it is active
  until it is terminated, renewed or expires. The services load its row, build a snapshot, call the
  pure state machine and store the snapshot it returns. Proposals have a machine of the same
  form. Prices are not stored: the engine computes them from the schedules of a contract, the
  rule catalogue, the published indexes, the overrides and the quantities, at a date.

  \<^bold>\<open>Foundations.\<close>
  \<^item> \<open>Prelude\<close>: results of fallible code (\<open>'e + 'a\<close>, \<open>Inl\<close> for the thrown error), loops that stop
    at an error, strings (a \<open>char\<close> per UTF-16 code unit below 256).
  \<^item> \<open>JsDate\<close>: the JavaScript \<open>Date\<close>, a number of milliseconds, with the UTC functions the code uses
    written from the language's definition. \<open>Months\<close> counts the last days of months.
  \<^item> \<open>LatestBy\<close>: the locale \<open>latest_by\<close> of the loops that keep the entry in force, interpreted
    for prices, index values and quantities. \<open>Machine\<close>: the locale \<open>event_machine\<close> of a machine driven
    by a table of transitions, interpreted for contracts and for proposals: runs, invariants,
    closed sets of statuses.

  \<^bold>\<open>Contracts.\<close>
  \<^item> \<open>ContractMachine\<close> (\<open>contract/contract.types.ts\<close>, \<open>contract/state-machine.ts\<close>): the snapshot, the
    24 events, one definition per handler, \<open>applyEvent\<close> and \<open>allowedEvents\<close>. It is shown equal to the
    documented diagram, and to have the invariants of the life of a contract (frozen after the
    signature, never shortened, never stuck).
  \<^item> \<open>ContractDates\<close>, \<open>Deadlines\<close>, \<open>Reminders\<close> (\<open>contract/dates.ts\<close>, \<open>contract/deadlines.ts\<close>,
    \<open>reminder/planning.ts\<close>): months clamped to the end of a month, notice and termination dates, the
    legal information window, deadlines and reminders.
  \<^item> \<open>ContractService\<close> (\<open>apps/api/src/contracts\<close>): the row with its approvals and cancellations, and the
    services that apply an event, save a text, terminate.
  \<^item> \<open>SigningOrder\<close> (\<open>signature/signing-order.ts\<close>): who signs first. \<open>SignatureRequests\<close>
    (\<open>apps/api/src/signature\<close>, \<open>apps/api/src/webhooks\<close>): the transactions of a sending for signature and of a
    revocation, what each event of the provider changes, the reconciliation. A signature is collected
    once, in any order of the events.
  \<^item> \<open>ContractFlow\<close>: the relation of all the transactions that write the status or the versions of a
    contract, with the texts of \<open>structure\<close>, the validation of an import and the acceptance of the client. A
    sending reads the contract in one step and writes it in a later one. What the client sees was
    approved by someone else than its submitter; the one interleaving where this fails, a text saved
    during a sending, is described by \<open>sending_overtakes_a_new_text\<close>.
  \<^item> \<open>LifecycleJobs\<close> (\<open>apps/api/src/jobs/lifecycle.service.ts\<close>, \<open>renewal.service.ts\<close>): the daily job that
    activates, renews, expires and terminates, with the periods and reminders it writes. A late job
    catches up the tacit renewals, within its guard of fifty; no reminder is lost or doubled.
  \<^item> \<open>DeadlineBook\<close> (\<open>apps/api/src/deadlines/deadlines.service.ts\<close>): the rows of the deadlines and their
    alerts. After a recomputation the open ones are those of \<open>Deadlines\<close>, each with all its alerts as
    long as the reminders of a cycle are for one date.

  \<^bold>\<open>Proposals.\<close>
  \<^item> \<open>ProposalMachine\<close> (\<open>proposal/state-machine.ts\<close>): the machine, readiness, and the check of the sending
    service. \<open>FollowUps\<close>, \<open>Codes\<close>: follow-ups, proposal numbers, codes and prices of the price grid
    (\<open>price-grid/price-grid.ts\<close>). \<open>MergeTags\<close> (\<open>proposal/merge-tags.ts\<close>): the tags of the texts, their values
    and their rendering, escaped in HTML.
  \<^item> \<open>PriceStatuses\<close>, \<open>GridLines\<close> (\<open>apps/api/src/proposals/pricing-definition.ts\<close>, \<open>proposal-grid.ts\<close>): the
    schema of a price table, which of its prices still have to be validated, the lines copied
    from the grid and the change of the durations.
  \<^item> \<open>ProposalContent\<close>, \<open>ProposalState\<close> (\<open>proposal-content.ts\<close>, \<open>proposal-state.ts\<close>): the sections of a version,
    the values of its tags, and the computed state: quote, issues, elements to validate, reasons
    of a review, counters given to the machine.
  \<^item> \<open>ProposalFile\<close> (\<open>proposal-transition.ts\<close>, \<open>proposals.service.ts\<close>): all the rows of one proposal, versions,
    recipients, links, follow-ups, configurations, frozen prices, events sent out. An operation of
    a service is a function from a file to an error or to the file its transaction commits.
    \<open>ProposalDrafts\<close>: the edition by the sales team. \<open>ProposalSending\<close>: sending, sending again, revising
    (\<open>proposal-send.service.ts\<close>), expiry and follow-ups (\<open>proposal-jobs.service.ts\<close>). \<open>ProposalPublic\<close>
    (\<open>proposal-public.service.ts\<close>, \<open>proposal-links.ts\<close>): what the client does from a link, up to the acceptance.
  \<^item> \<open>ProposalLife\<close>: the relation of all these calls, reduced to six kinds of moves.
    \<open>ProposalGuarantees\<close>: the invariant of every file they can reach: one version written at a time, links
    that open the current version only, and versions that never change once sent.
  \<^item> \<open>ProposalSafety\<close> states that invariant of every life that starts with a created proposal;
    \<open>ProposalCreation\<close> (\<open>create\<close> in \<open>proposals.service.ts\<close>) is that creation, blank or from a template.
    \<open>ProposalClient\<close>: what the page of the client guarantees, who may accept, at which price, what a
    forged configuration cannot touch, the round trip of a one-time code. \<open>ProposalSample\<close> is a proposal
    made ready and sent, with its quote computed, on which these properties are instantiated.

  \<^bold>\<open>Pricing.\<close>
  \<^item> \<open>Money\<close>, \<open>ExactDecimals\<close> (\<open>errors.ts\<close>, \<open>money.ts\<close>): decimals are those of decimal.js, a package whose
    operations are the parameter \<open>decimal_ops\<close>; \<open>decimal_laws\<close> states its documentation, a hypothesis
    of the theorems about amounts (each result is the exact one rounded to the precision of 40 digits), and
    \<open>ExactDecimals\<close> an instance of it on rational numbers.
  \<^item> \<open>FormulaParser\<close>, \<open>FormulaEval\<close> (\<open>formula/\<close>): tokenizer, parser, evaluator, validation. The parser is
    fuelled by the number of tokens, and is shown never to run out.
  \<^item> \<open>PricingTypes\<close>, \<open>Indexes\<close>, \<open>Tiers\<close>, \<open>Schedules\<close>, \<open>Overrides\<close>, \<open>Rules\<close>: one theory per file of the
    engine: what applies at a date, and how a tier table, a discount or an index revision
    changes a price.
  \<^item> \<open>PriceLines\<close>, \<open>PriceAt\<close> (\<open>price-at.ts\<close>, \<open>trace.ts\<close>): the price of a line with its trace, step by step
    in the order of the code, the discounts, the totals and the entry point \<open>priceAt\<close>. \<open>PriceBounds\<close>
    follows the sign of an amount through every step and bounds the discounts; \<open>PriceTotals\<close> shows
    that the totals add up and are rounded once; \<open>PriceQuantities\<close> composes the providers with the
    engine.
  \<^item> \<open>Simulate\<close>, \<open>Serialize\<close> (\<open>simulate.ts\<close>, \<open>serialize.ts\<close>): the simulator, as a client of the engine,
    and the conversion of the results to JSON.
  \<^item> \<open>ProposalConfig\<close>, \<open>ProposalQuote\<close> (\<open>proposal.ts\<close>): which lines of a price table a client retains, and
    the schedule they become, priced by the engine, with the complement to the monthly minimum.
    What is retained has a reason, and a configuration without errors obeys its rules. \<open>QuoteLaws\<close>: the
    price shown is that of the schedule frozen with it, and the minimum is reached to the cent.

  \<^bold>\<open>Services of the pricing and of the webhooks.\<close>
  \<^item> \<open>IsoDays\<close>, \<open>ScheduleVersions\<close> (\<open>apps/api/src/pricing/schedules.service.ts\<close>, \<open>pricing-snapshot.ts\<close>): the rows
    of the versions of a schedule, drafted, activated, closed the day before the next one. Whatever was
    drafted and activated, at most one engaged version covers a day, and it is the one the engine
    selects; an activation changes no price of the days before it.
  \<^item> \<open>IndexSeries\<close> (\<open>indexes.service.ts\<close>): the append-only values of an index, their corrections and imports,
    under requests that work on what they read before. The engine is given one value for each month.
  \<^item> \<open>OverrideFlow\<close> (\<open>overrides.service.ts\<close>): an override is created, approved by someone else, rejected or
    cancelled; a request is a read followed by a conditional write. What the engine applies was approved.
  \<^item> \<open>WebhookDelivery\<close> (\<open>apps/api/src/webhooks-out\<close>): reservation, sending and recording as separate steps of
    interleaved workers; a worker may die between the sending and its record. A delivery is given up
    after six recorded attempts, and the counters stay consistent.

  \<^bold>\<open>Conventions.\<close> Definitions keep the names of the source, in the case of Isabelle's. A thrown error is an
  \<open>Inl\<close>; of an error the model keeps its class, its code and the data its callers read, not its
  message. Literal types are datatypes, so the branches that refuse a value outside its type are left out.
  The clock is an argument, as in the source.

  \<^bold>\<open>Not modelled.\<close> The user interface (\<open>apps/web\<close>), SQL and row level security (\<open>packages/persistence\<close>),
  authentication, the HTTP layer, the adapter of the signature provider and the check of its messages: input
  and output around third-party code. Of the proposals: e-mails, notices, the PDF, the reading statistics, the
  conversion to a contract. The other services of \<open>apps/api\<close> load rows and call the modelled functions.
  The remaining pure modules, which work by regular expressions and hashing (variables,
  pseudonymisation, document hashes), are not modelled.
\<close>

end
